(* ===== verification/Binary64.thy ===== *)
theory Binary64
  imports Complex_Main "HOL-Library.Log_Nat"
begin

text \<open>
  IEEE 754 binary64, the type the code writes \<open>double\<close>. The language defines it, so the
  repository has no source for it; every theory of the development computes with it.

  A double is a NaN, an infinity, the negative zero, or \<open>Fin q\<close> with its exact rational
  value (\<open>Fin 0\<close> is the positive zero). The arithmetic operations compute the exact
  result and round it to nearest, ties to even, with 53 significant bits, gradual underflow
  (least exponent -1074) and overflow to an infinity. Comparisons with a NaN are false.
  The one identification made is that all NaNs are one value: nothing in the code reads the
  payload or the sign of a NaN. Code that reads the bytes of a double (the checksum of the
  order book) takes the encoding as a parameter.

  The first part is rounding of rationals: \<open>rnd\<close> is monotone, idempotent, odd, exact on
  53-bit multiples of powers of two, with an error of at most half a unit in the last place.
  The second part is the type, with the operations as instances of the library's syntactic
  classes so that the models read like the code. The third part is the order (a total
  preorder off NaN) and how the rounded operations respect it: these lemmas carry the
  bounds and the nonnegativity facts of the components.
\<close>

subsection \<open>Rounding to 53 bits\<close>

text \<open>Round to nearest integer, ties to even.\<close>

definition rne :: "rat \<Rightarrow> int" where
  "rne y = (let f = \<lfloor>y\<rfloor>; r = y - of_int f
            in if r < 1 / 2 \<or> (r = 1 / 2 \<and> even f) then f else f + 1)"

text \<open>The exponent \<open>e\<close> with \<open>2 powi e \<le> \<bar>x\<bar> < 2 powi (e + 1)\<close>.\<close>

definition binexp :: "rat \<Rightarrow> int" where
  "binexp x = (case quotient_of \<bar>x\<bar> of (n, d) \<Rightarrow>
     let k = bitlen n - bitlen d in if 2 powi k \<le> \<bar>x\<bar> then k else k - 1)"

definition qexp :: "rat \<Rightarrow> int" where
  "qexp x = max (binexp x - 52) (- 1074)"

definition rnd :: "rat \<Rightarrow> rat" where
  "rnd x = (if x = 0 then 0 else of_int (rne (x / 2 powi qexp x)) * 2 powi qexp x)"

lemma rne_of_int [simp]: "rne (of_int n) = n"
  by (simp add: rne_def)

lemma rne_error: "\<bar>of_int (rne y) - y\<bar> \<le> 1 / 2"
  unfolding rne_def Let_def using floor_correct[of y] by (auto simp: abs_le_iff)

lemma rne_mono: assumes "x \<le> y" shows "rne x \<le> rne y"
proof (cases "\<lfloor>x\<rfloor> = \<lfloor>y\<rfloor>")
  case True
  with assms show ?thesis by (auto simp: rne_def Let_def)
next
  case False
  with assms have "\<lfloor>x\<rfloor> + 1 \<le> \<lfloor>y\<rfloor>" using floor_mono[OF assms] by linarith
  then show ?thesis by (auto simp: rne_def Let_def)
qed

lemma rne_neg: "rne (- y) = - rne y"
proof (cases "y = of_int \<lfloor>y\<rfloor>")
  case True
  then show ?thesis by (metis of_int_minus rne_of_int)
next
  case False
  define f where "f = \<lfloor>y\<rfloor>"
  have f: "of_int f < y" "y < of_int f + 1"
    using False floor_correct[of y] unfolding f_def by linarith+
  have "\<lfloor>- y\<rfloor> = - f - 1" using f by (simp add: floor_eq_iff)
  moreover have "\<lfloor>y\<rfloor> = f" by (simp add: f_def)
  ultimately show ?thesis using f by (auto simp: rne_def Let_def)
qed

lemma rne_le_int: "y \<le> of_int n \<Longrightarrow> rne y \<le> n"
  using rne_mono[of y "of_int n"] by simp

lemma rne_ge_int: "of_int n \<le> y \<Longrightarrow> n \<le> rne y"
  using rne_mono[of "of_int n" y] by simp

lemma powi_nonneg_int: "0 \<le> k \<Longrightarrow> (2::rat) powi k = of_int (2 ^ nat k)"
  by (simp add: power_int_def)

lemma powi_pos [simp]: "0 < (2::rat) powi k"
  by (simp add: power_int_def)

lemma powi_mono: "a \<le> b \<Longrightarrow> (2::rat) powi a \<le> 2 powi b"
  by (simp add: power_int_increasing)

lemma powi_less_cancel: "(2::rat) powi a < 2 powi b \<Longrightarrow> a < b"
  using powi_mono[of b a] by (meson linorder_not_le)

lemma binexp_bounds:
  assumes "x \<noteq> 0"
  shows "2 powi binexp x \<le> \<bar>x\<bar>" and "\<bar>x\<bar> < 2 powi (binexp x + 1)"
proof -
  obtain n d where q: "quotient_of \<bar>x\<bar> = (n, d)" by (cases "quotient_of \<bar>x\<bar>")
  have d: "0 < d" using q by (rule quotient_of_denom_pos)
  have x: "\<bar>x\<bar> = of_int n / of_int d" using q by (rule quotient_of_div)
  have n: "0 < n"
  proof -
    have "0 < \<bar>x\<bar>" using assms by simp
    then show ?thesis using d by (simp add: x zero_less_divide_iff)
  qed
  let ?a = "bitlen n" and ?b = "bitlen d"
  have bn: "1 \<le> ?a" "2 ^ nat (?a - 1) \<le> n" "n < 2 ^ nat ?a"
    using n bitlen_bounds[of n] bitlen_nonneg[of n] by (auto simp: bitlen_def floorlog_def)
  have bd: "1 \<le> ?b" "2 ^ nat (?b - 1) \<le> d" "d < 2 ^ nat ?b"
    using d bitlen_bounds[of d] by (auto simp: bitlen_def floorlog_def)
  have n1: "(2::rat) powi (?a - 1) \<le> of_int n" "of_int n < (2::rat) powi ?a"
    using bn by (simp_all add: powi_nonneg_int del: of_int_power of_int_numeral)
  have d1: "(2::rat) powi (?b - 1) \<le> of_int d" "of_int d < (2::rat) powi ?b"
    using bd by (simp_all add: powi_nonneg_int del: of_int_power of_int_numeral)
  have dpos: "(0::rat) < of_int d" using d by simp
  have up: "\<bar>x\<bar> < 2 powi (?a - ?b + 1)"
  proof -
    have "of_int n < (2::rat) powi ?a" by (rule n1)
    also have "\<dots> = 2 powi (?a - ?b + 1) * 2 powi (?b - 1)"
      by (simp add: power_int_add[symmetric])
    also have "\<dots> \<le> 2 powi (?a - ?b + 1) * of_int d"
      using d1 by (simp add: mult_left_mono less_imp_le)
    finally show ?thesis using dpos by (simp add: x pos_divide_less_eq)
  qed
  have lo: "2 powi (?a - ?b - 1) \<le> \<bar>x\<bar>"
  proof -
    have "2 powi (?a - ?b - 1) * of_int d \<le> (2::rat) powi (?a - ?b - 1) * 2 powi ?b"
      using d1 by (simp add: mult_left_mono less_imp_le)
    also have "\<dots> = 2 powi (?a - 1)" by (simp add: power_int_add[symmetric])
    also have "\<dots> \<le> of_int n" by (rule n1)
    finally show ?thesis using dpos by (simp add: x pos_le_divide_eq)
  qed
  show "2 powi binexp x \<le> \<bar>x\<bar>" "\<bar>x\<bar> < 2 powi (binexp x + 1)"
    using up lo by (auto simp: binexp_def q Let_def)
qed

lemma binexp_unique:
  assumes "2 powi e \<le> \<bar>x\<bar>" "\<bar>x\<bar> < 2 powi (e + 1)"
  shows "binexp x = e"
proof -
  have "x \<noteq> 0" using assms(1) powi_pos[of e] by (metis abs_zero linorder_not_less)
  note b = binexp_bounds[OF this]
  have "binexp x < e + 1" by (rule powi_less_cancel) (use b assms in linarith)
  moreover have "e < binexp x + 1" by (rule powi_less_cancel) (use b assms in linarith)
  ultimately show ?thesis by simp
qed

lemma binexp_mono: "x \<noteq> 0 \<Longrightarrow> \<bar>x\<bar> \<le> \<bar>y\<bar> \<Longrightarrow> binexp x \<le> binexp y"
proof -
  assume a: "x \<noteq> 0" "\<bar>x\<bar> \<le> \<bar>y\<bar>"
  then have "y \<noteq> 0" by auto
  have "binexp x < binexp y + 1"
    by (rule powi_less_cancel) (use binexp_bounds[OF a(1)] binexp_bounds[OF \<open>y \<noteq> 0\<close>] a in linarith)
  then show ?thesis by simp
qed

lemma binexp_neg [simp]: "binexp (- x) = binexp x" by (simp add: binexp_def)
lemma qexp_neg [simp]: "qexp (- x) = qexp x" by (simp add: qexp_def)

lemma rnd_0 [simp]: "rnd 0 = 0" by (simp add: rnd_def)

lemma rnd_neg: "rnd (- x) = - rnd x"
  by (simp add: rnd_def rne_neg)

text \<open>Integer multiples of a power of two with at most 53 significant bits are fixpoints.\<close>

lemma powi_int_mult:
  assumes "p \<le> q" shows "\<exists>k::int. (2::rat) powi q = of_int k * 2 powi p \<and> k = 2 ^ nat (q - p)"
proof -
  have "(2::rat) powi q = 2 powi (q - p) * 2 powi p"
    by (simp add: power_int_add[symmetric])
  then show ?thesis using assms by (simp add: powi_nonneg_int)
qed

lemma rnd_exact_less:
  assumes m: "\<bar>m\<bar> < 2 ^ 53" and q: "- 1074 \<le> q"
  shows "rnd (of_int m * 2 powi q) = of_int m * 2 powi q"
proof (cases "m = 0")
  case False
  define x :: rat where "x = of_int m * 2 powi q"
  have x0: "x \<noteq> 0" using False by (simp add: x_def)
  have "\<bar>of_int m :: rat\<bar> < 2 ^ 53"
    using m by (metis of_int_abs of_int_less_iff of_int_numeral of_int_power)
  then have "\<bar>x\<bar> < 2 ^ 53 * 2 powi q" by (simp add: x_def abs_mult)
  also have "\<dots> = 2 powi (53 + q)" by (simp add: power_int_add)
  finally have "\<bar>x\<bar> < 2 powi (53 + q)" .
  then have "binexp x < 53 + q"
    using binexp_bounds(1)[OF x0] by (intro powi_less_cancel) linarith
  then have le: "qexp x \<le> q" using q by (simp add: qexp_def)
  define e where "e = qexp x"
  obtain k :: int where k: "(2::rat) powi q = of_int k * 2 powi e"
    using powi_int_mult[OF le[folded e_def]] by blast
  have xk: "x = of_int (m * k) * 2 powi e" by (simp only: x_def k of_int_mult mult.assoc)
  then have "x / 2 powi e = of_int (m * k)" by simp
  then have "rnd x = of_int (m * k) * 2 powi e"
    using x0 by (simp only: rnd_def if_False rne_of_int e_def [symmetric])
  with xk show ?thesis by (simp only: x_def)
qed simp

lemma rnd_exact:
  assumes m: "\<bar>m\<bar> \<le> 2 ^ 53" and q: "- 1074 \<le> q"
  shows "rnd (of_int m * 2 powi q) = of_int m * 2 powi q"
proof (cases "\<bar>m\<bar> < 2 ^ 53")
  case True then show ?thesis using q by (rule rnd_exact_less)
next
  case False
  with m have m': "m = sgn m * 2 ^ 53" by (metis abs_mult_sgn linorder_not_less mult.commute order_antisym)
  have s: "\<bar>sgn m * 2 ^ 52\<bar> < (2::int) ^ 53" by (simp add: abs_mult sgn_if)
  have e: "of_int m * 2 powi q = (of_int (sgn m * 2 ^ 52) :: rat) * 2 powi (q + 1)"
    by (subst m') (simp add: power_int_add)
  show ?thesis unfolding e using s q by (intro rnd_exact_less) simp_all
qed

lemma rnd_form: "\<exists>m q. rnd x = of_int m * 2 powi q \<and> \<bar>m\<bar> \<le> 2 ^ 53 \<and> - 1074 \<le> q"
proof (cases "x = 0")
  case True then show ?thesis by (intro exI[of _ 0]) auto
next
  case False
  let ?u = "(2::rat) powi qexp x" and ?m = "rne (x / 2 powi qexp x)"
  have "\<bar>x\<bar> < 2 powi (binexp x + 1)" by (rule binexp_bounds(2)[OF False])
  also have "\<dots> \<le> 2 powi (53 + qexp x)" by (intro powi_mono) (simp add: qexp_def)
  also have "\<dots> = 2 ^ 53 * ?u" by (simp add: power_int_add)
  finally have "\<bar>x\<bar> \<le> 2 ^ 53 * ?u" by simp
  then have b: "\<bar>x / ?u\<bar> \<le> 2 ^ 53" by (simp add: abs_divide pos_divide_le_eq)
  have "x / ?u \<le> 2 ^ 53" "- (2 ^ 53) \<le> x / ?u" using b by (simp_all only: abs_le_iff) linarith+
  then have "?m \<le> 2 ^ 53" "- (2 ^ 53) \<le> ?m" by (auto intro: rne_le_int rne_ge_int)
  moreover have "rnd x = of_int ?m * ?u" using False by (simp add: rnd_def)
  moreover have "- 1074 \<le> qexp x" by (simp add: qexp_def)
  ultimately show ?thesis by (metis abs_le_iff minus_le_iff)
qed

lemma rnd_idem [simp]: "rnd (rnd x) = rnd x"
  using rnd_form[of x] by (metis rnd_exact)

lemma rnd_of_int: "\<bar>n\<bar> \<le> 2 ^ 53 \<Longrightarrow> rnd (of_int n) = of_int n"
  using rnd_exact[of n 0] by simp

lemma rnd_mono_pos:
  assumes "0 < x" "x \<le> y" shows "rnd x \<le> rnd y"
proof (cases "qexp x = qexp y")
  case True
  with assms show ?thesis
    by (simp add: rnd_def rne_mono divide_right_mono less_imp_le)
next
  case False
  have x0: "x \<noteq> 0" and y0: "y \<noteq> 0" using assms by auto
  have le: "binexp x \<le> binexp y" using assms by (intro binexp_mono) auto
  with False have lt: "qexp x < qexp y" "qexp y = binexp y - 52" "binexp x < binexp y"
    by (auto simp: qexp_def max_def split: if_splits)
  let ?P = "(2::rat) powi binexp y"
  have "?P / 2 powi qexp y = of_int (2 ^ 52)"
    using lt by (simp add: power_int_diff[symmetric])
  moreover have "?P / 2 powi qexp y \<le> y / 2 powi qexp y"
    using binexp_bounds(1)[OF y0] assms by (simp add: divide_right_mono less_imp_le)
  ultimately have "2 ^ 52 \<le> rne (y / 2 powi qexp y)"
    by (intro rne_ge_int) simp
  then have "(of_int (2 ^ 52) :: rat) * 2 powi qexp y \<le> rnd y"
    using y0 by (simp only: rnd_def if_False mult_right_mono of_int_le_iff powi_pos less_imp_le)
  moreover have "(of_int (2 ^ 52) :: rat) * 2 powi qexp y = ?P"
    using lt by (simp add: power_int_diff)
  ultimately have hi: "?P \<le> rnd y" by simp
  have "qexp x \<le> binexp y" using lt by simp
  then obtain k :: int where k: "?P = of_int k * 2 powi qexp x" using powi_int_mult by blast
  have "x < 2 powi (binexp x + 1)" using binexp_bounds(2)[OF x0] assms by simp
  also have "\<dots> \<le> ?P" using lt by (intro powi_mono) simp
  finally have "x / 2 powi qexp x \<le> of_int k" by (simp add: k pos_divide_le_eq)
  then have "rne (x / 2 powi qexp x) \<le> k" by (rule rne_le_int)
  then have "rnd x \<le> of_int k * 2 powi qexp x" using x0 by (simp add: rnd_def)
  with hi k show ?thesis by simp
qed

lemma rnd_nonneg: "0 \<le> x \<Longrightarrow> 0 \<le> rnd x"
proof -
  assume "0 \<le> x"
  then have "0 \<le> rne (x / 2 powi qexp x)" by (intro rne_ge_int) simp
  then show ?thesis by (simp add: rnd_def)
qed

lemma rnd_mono: assumes "x \<le> y" shows "rnd x \<le> rnd y"
proof -
  consider "0 < x" | "x \<le> 0" "0 \<le> y" | "y < 0" by linarith
  then show ?thesis
  proof cases
    case 1 then show ?thesis using assms by (rule rnd_mono_pos)
  next
    case 2
    then have "0 \<le> rnd (- x)" "0 \<le> rnd y" by (auto intro: rnd_nonneg)
    then show ?thesis by (simp add: rnd_neg)
  next
    case 3
    then have "rnd (- y) \<le> rnd (- x)" using assms by (intro rnd_mono_pos) auto
    then show ?thesis by (simp add: rnd_neg)
  qed
qed

lemma rnd_error: "x \<noteq> 0 \<Longrightarrow> \<bar>rnd x - x\<bar> \<le> 2 powi (qexp x - 1)"
proof -
  assume x: "x \<noteq> 0"
  let ?u = "(2::rat) powi qexp x" and ?y = "x / 2 powi qexp x"
  have "rnd x - x = (of_int (rne ?y) - ?y) * ?u" using x by (simp add: rnd_def left_diff_distrib)
  then have "\<bar>rnd x - x\<bar> = \<bar>of_int (rne ?y) - ?y\<bar> * ?u" by (simp add: abs_mult)
  also have "\<dots> \<le> 1 / 2 * ?u" by (intro mult_right_mono rne_error) (simp add: less_imp_le)
  also have "\<dots> = 2 powi (qexp x - 1)" by (simp add: power_int_diff)
  finally show ?thesis .
qed

subsection \<open>The type of doubles\<close>

text \<open>
  \<open>NZero\<close> is the negative zero. In \<open>pack s q\<close> the flag is the sign of the result when
  the exact result \<open>q\<close> is zero; a result that underflows keeps the sign of \<open>q\<close>.
\<close>

datatype double = NaN | PInf | NInf | NZero | Fin rat

primrec fval :: "double \<Rightarrow> rat" where
  "fval NaN = 0" | "fval PInf = 0" | "fval NInf = 0" | "fval NZero = 0" | "fval (Fin q) = q"

primrec isnan :: "double \<Rightarrow> bool" where
  "isnan NaN = True" | "isnan PInf = False" | "isnan NInf = False" | "isnan NZero = False" | "isnan (Fin q) = False"

primrec isfinite :: "double \<Rightarrow> bool" where
  "isfinite NaN = False" | "isfinite PInf = False" | "isfinite NInf = False" | "isfinite NZero = True" | "isfinite (Fin q) = True"

primrec signbit :: "double \<Rightarrow> bool" where
  "signbit NaN = False" | "signbit PInf = False" | "signbit NInf = True" | "signbit NZero = True" | "signbit (Fin q) = (q < 0)"

primrec infsgn :: "double \<Rightarrow> int" where
  "infsgn NaN = 0" | "infsgn PInf = 1" | "infsgn NInf = - 1" | "infsgn NZero = 0" | "infsgn (Fin q) = 0"

definition pack :: "bool \<Rightarrow> rat \<Rightarrow> double" where
  "pack s q =
     (if q = 0 then (if s then NZero else Fin 0)
      else let r = rnd q in
        if r = 0 then (if q < 0 then NZero else Fin 0)
        else if 1024 \<le> binexp r then (if r < 0 then NInf else PInf)
        else Fin r)"

definition inf_of :: "bool \<Rightarrow> double" where
  "inf_of s = (if s then NInf else PInf)"

instantiation double :: "{zero, one, plus, minus, uminus, times, inverse, abs, ord}"
begin

definition zero_double :: double where "zero_double = Fin 0"

definition one_double :: double where "one_double = Fin 1"

definition uminus_double :: "double \<Rightarrow> double" where
  "- a = (case a of NaN \<Rightarrow> NaN | PInf \<Rightarrow> NInf | NInf \<Rightarrow> PInf | NZero \<Rightarrow> Fin 0
          | Fin q \<Rightarrow> if q = 0 then NZero else Fin (- q))"

definition plus_double :: "double \<Rightarrow> double \<Rightarrow> double" where
  "a + b =
     (if isnan a \<or> isnan b then NaN
      else if isfinite a \<and> isfinite b then pack (a = NZero \<and> b = NZero) (fval a + fval b)
      else if isfinite a then b
      else if isfinite b \<or> a = b then a
      else NaN)"

definition minus_double :: "double \<Rightarrow> double \<Rightarrow> double" where
  "minus_double a b = a + (- b)"

definition times_double :: "double \<Rightarrow> double \<Rightarrow> double" where
  "a * b =
     (if isnan a \<or> isnan b then NaN
      else if isfinite a \<and> isfinite b then pack (signbit a \<noteq> signbit b) (fval a * fval b)
      else if (isfinite a \<and> fval a = 0) \<or> (isfinite b \<and> fval b = 0) then NaN
      else inf_of (signbit a \<noteq> signbit b))"

definition divide_double :: "double \<Rightarrow> double \<Rightarrow> double" where
  "divide_double a b =
     (if isnan a \<or> isnan b then NaN
      else if isfinite b then
        (if isfinite a \<and> fval b \<noteq> 0 then pack (signbit a \<noteq> signbit b) (fval a / fval b)
         else if isfinite a \<and> fval a = 0 then NaN
         else inf_of (signbit a \<noteq> signbit b))
      else if isfinite a then pack (signbit a \<noteq> signbit b) 0
      else NaN)"

definition inverse_double :: "double \<Rightarrow> double" where
  "inverse_double a = divide 1 a"

definition abs_double :: "double \<Rightarrow> double" where
  "\<bar>a\<bar> = (case a of NaN \<Rightarrow> NaN | PInf \<Rightarrow> PInf | NInf \<Rightarrow> PInf | NZero \<Rightarrow> Fin 0 | Fin q \<Rightarrow> Fin \<bar>q\<bar>)"

definition less_double :: "double \<Rightarrow> double \<Rightarrow> bool" where
  "a < b \<longleftrightarrow> \<not> isnan a \<and> \<not> isnan b \<and>
     (infsgn a < infsgn b \<or> infsgn a = infsgn b \<and> fval a < fval b)"

definition less_eq_double :: "double \<Rightarrow> double \<Rightarrow> bool" where
  "a \<le> b \<longleftrightarrow> \<not> isnan a \<and> \<not> isnan b \<and>
     (infsgn a < infsgn b \<or> infsgn a = infsgn b \<and> fval a \<le> fval b)"

instance ..

end

text \<open>The code's \<open>==\<close> on doubles; literals; conversions from and to integers.\<close>

definition deq :: "double \<Rightarrow> double \<Rightarrow> bool" where
  "deq a b \<longleftrightarrow> \<not> isnan a \<and> \<not> isnan b \<and> infsgn a = infsgn b \<and> fval a = fval b"

definition lit :: "rat \<Rightarrow> double" where "lit q = pack False q"
definition of_integer :: "int \<Rightarrow> double" where "of_integer n = pack False (of_int n)"

text \<open>\<open>std::max\<close>, \<open>std::min\<close> and \<open>std::clamp\<close> as the standard defines them, by one comparison each: NaN falls through.\<close>

definition std_max :: "double \<Rightarrow> double \<Rightarrow> double" where "std_max a b = (if a < b then b else a)"
definition std_min :: "double \<Rightarrow> double \<Rightarrow> double" where "std_min a b = (if b < a then b else a)"
definition std_clamp :: "double \<Rightarrow> double \<Rightarrow> double \<Rightarrow> double" where
  "std_clamp v lo hi = (if v < lo then lo else if hi < v then hi else v)"

text \<open>
  \<open>llround\<close> rounds half away from zero. Outside the range of the result type the C library
  leaves the value unspecified; the deployment target (x86-64, glibc) returns the least
  \<open>int64_t\<close>, which is what is modelled.
\<close>

definition i64_min :: int where "i64_min = - (2 ^ 63)"

definition llround :: "double \<Rightarrow> int" where
  "llround d =
     (if \<not> isfinite d then i64_min
      else let q = fval d; n = (if q < 0 then - \<lfloor>- q + 1 / 2\<rfloor> else \<lfloor>q + 1 / 2\<rfloor>)
           in if - (2 ^ 63) \<le> n \<and> n < 2 ^ 63 then n else i64_min)"

definition std_floor :: "double \<Rightarrow> double" where
  "std_floor d = (case d of Fin q \<Rightarrow> Fin (of_int \<lfloor>q\<rfloor>) | _ \<Rightarrow> d)"

subsection \<open>Order\<close>

lemmas dbl_ord_defs = less_double_def less_eq_double_def deq_def

lemma le_nanD: "a \<le> b \<Longrightarrow> \<not> isnan a \<and> \<not> isnan (b :: double)"
  by (simp add: dbl_ord_defs)

lemma less_nanD: "a < b \<Longrightarrow> \<not> isnan a \<and> \<not> isnan (b :: double)"
  by (simp add: dbl_ord_defs)

lemma nan_cmp [simp]:
  "\<not> NaN < a" "\<not> a < NaN" "\<not> NaN \<le> a" "\<not> a \<le> NaN" "\<not> deq NaN a" "\<not> deq a NaN"
  by (simp_all add: dbl_ord_defs)

lemma dbl_refl [simp]: "(a :: double) \<le> a \<longleftrightarrow> \<not> isnan a"
  by (simp add: dbl_ord_defs)

lemma dbl_irrefl [simp]: "\<not> (a :: double) < a"
  by (simp add: dbl_ord_defs)

lemma dbl_trans: "(a :: double) \<le> b \<Longrightarrow> b \<le> c \<Longrightarrow> a \<le> c"
  by (auto simp: dbl_ord_defs)

lemma dbl_less_le_trans: "(a :: double) < b \<Longrightarrow> b \<le> c \<Longrightarrow> a < c"
  by (auto simp: dbl_ord_defs)

lemma dbl_le_less_trans: "(a :: double) \<le> b \<Longrightarrow> b < c \<Longrightarrow> a < c"
  by (auto simp: dbl_ord_defs)

lemma dbl_less_trans: "(a :: double) < b \<Longrightarrow> b < c \<Longrightarrow> a < c"
  by (auto simp: dbl_ord_defs)

lemma dbl_less_imp_le: "(a :: double) < b \<Longrightarrow> a \<le> b"
  by (auto simp: dbl_ord_defs)

lemma dbl_less_asym: "(a :: double) < b \<Longrightarrow> \<not> b < a"
  by (auto simp: dbl_ord_defs)

lemma dbl_not_less: "\<not> isnan a \<Longrightarrow> \<not> isnan b \<Longrightarrow> \<not> a < b \<longleftrightarrow> b \<le> (a :: double)"
  by (auto simp: dbl_ord_defs)

lemma dbl_not_le: "\<not> isnan a \<Longrightarrow> \<not> isnan b \<Longrightarrow> \<not> a \<le> b \<longleftrightarrow> b < (a :: double)"
  by (auto simp: dbl_ord_defs)

lemma dbl_leD: "a \<le> b \<Longrightarrow> \<not> b < (a :: double)"
  by (auto simp: dbl_ord_defs)

lemma fin_less [simp]: "Fin p < Fin q \<longleftrightarrow> p < q"
  by (simp add: dbl_ord_defs)

lemma fin_le [simp]: "Fin p \<le> Fin q \<longleftrightarrow> p \<le> q"
  by (simp add: dbl_ord_defs)

lemma deq_fin [simp]: "deq (Fin p) (Fin q) \<longleftrightarrow> p = q"
  by (simp add: deq_def)

lemma isnan_const [simp]: "\<not> isnan 0" "\<not> isnan 1" "isfinite 0" "isfinite 1" "fval 0 = 0" "fval 1 = 1"
  by (simp_all add: zero_double_def one_double_def)

lemma isfinite_not_nan [simp]: "isfinite a \<Longrightarrow> \<not> isnan a"
  by (cases a) auto

lemma isfinite_infsgn [simp]: "isfinite a \<Longrightarrow> infsgn a = 0"
  by (cases a) auto

lemma finite_less: "isfinite a \<Longrightarrow> isfinite b \<Longrightarrow> a < b \<longleftrightarrow> fval a < fval b"
  by (simp add: dbl_ord_defs)

lemma finite_le: "isfinite a \<Longrightarrow> isfinite b \<Longrightarrow> a \<le> b \<longleftrightarrow> fval a \<le> fval b"
  by (simp add: dbl_ord_defs)

lemma finite_deq: "isfinite a \<Longrightarrow> isfinite b \<Longrightarrow> deq a b \<longleftrightarrow> fval a = fval b"
  by (simp add: dbl_ord_defs)

subsection \<open>Rounding into the type\<close>

lemma rnd_0_sgn: "rnd q \<noteq> 0 \<Longrightarrow> sgn (rnd q) = sgn q"
  using rnd_nonneg[of q] rnd_nonneg[of "- q"] by (cases "0 \<le> q") (auto simp: rnd_neg sgn_if)

lemma isnan_pack [simp]: "\<not> isnan (pack s q)"
  by (simp add: pack_def Let_def)

lemma infsgn_pack: "infsgn (pack s q) =
    (if rnd q \<noteq> 0 \<and> 1024 \<le> binexp (rnd q) then if rnd q < 0 then - 1 else 1 else 0)"
  by (simp add: pack_def Let_def)

lemma fval_pack: "fval (pack s q) = (if rnd q \<noteq> 0 \<and> 1024 \<le> binexp (rnd q) then 0 else rnd q)"
  by (auto simp: pack_def Let_def)

lemma isfinite_pack: "isfinite (pack s q) \<longleftrightarrow> rnd q = 0 \<or> binexp (rnd q) < 1024"
  by (auto simp: pack_def Let_def)

lemma binexp_less_big:
  assumes "x \<noteq> 0" "binexp x < e" shows "\<bar>x\<bar> < 2 powi e"
proof -
  have "\<bar>x\<bar> < 2 powi (binexp x + 1)" by (rule binexp_bounds(2)[OF assms(1)])
  also have "\<dots> \<le> 2 powi e" using assms by (intro powi_mono) simp
  finally show ?thesis .
qed

lemma binexp_ge_big:
  assumes "x \<noteq> 0" "e \<le> binexp x" shows "2 powi e \<le> \<bar>x\<bar>"
proof -
  have "2 powi e \<le> (2::rat) powi binexp x" using assms by (intro powi_mono) simp
  also have "\<dots> \<le> \<bar>x\<bar>" by (rule binexp_bounds(1)[OF assms(1)])
  finally show ?thesis .
qed

lemma binexp_iff: "x \<noteq> 0 \<Longrightarrow> e \<le> binexp x \<longleftrightarrow> 2 powi e \<le> \<bar>x\<bar>"
  using binexp_less_big[of x e] binexp_ge_big[of x e] by (meson linorder_not_le)

lemma pack_mono: assumes "q \<le> r" shows "pack s q \<le> pack t r"
proof -
  define B :: rat where "B = 2 powi 1024"
  have B: "0 < B" by (simp add: B_def)
  have big: "x \<noteq> 0 \<and> 1024 \<le> binexp x \<longleftrightarrow> B \<le> \<bar>x\<bar>" for x
    using B binexp_iff[of x 1024] by (cases "x = 0") (auto simp: B_def)
  have "rnd q \<le> rnd r" using assms by (rule rnd_mono)
  then show ?thesis
    using B by (auto simp: less_eq_double_def infsgn_pack fval_pack big)
qed

lemma pack_nonneg: "0 \<le> q \<Longrightarrow> 0 \<le> pack s q"
  using pack_mono[of 0 q False s] by (simp add: pack_def zero_double_def)

lemma pack_nonpos: "q \<le> 0 \<Longrightarrow> pack s q \<le> 0"
  using pack_mono[of q 0 s False] by (simp add: pack_def zero_double_def)

subsection \<open>Representable doubles\<close>

definition dwf :: "double \<Rightarrow> bool" where
  "dwf d = (case d of Fin q \<Rightarrow> rnd q = q \<and> (q = 0 \<or> binexp q < 1024) | _ \<Rightarrow> True)"

lemma dwf_simps [simp]: "dwf NaN" "dwf PInf" "dwf NInf" "dwf NZero" "dwf 0" "dwf (Fin 0)"
  by (simp_all add: dwf_def zero_double_def)

lemma dwf_pack [simp]: "dwf (pack s q)"
  by (auto simp: pack_def dwf_def Let_def)

lemma dwf_uminus [simp]: "dwf a \<Longrightarrow> dwf (- a)"
  by (cases a) (auto simp: uminus_double_def dwf_def rnd_neg)

lemma dwf_add [simp]: "dwf a \<Longrightarrow> dwf b \<Longrightarrow> dwf (a + b)"
  by (simp add: plus_double_def)

lemma dwf_sub [simp]: "dwf a \<Longrightarrow> dwf b \<Longrightarrow> dwf (a - b)"
  by (simp add: minus_double_def)

lemma dwf_inf_of [simp]: "dwf (inf_of s)"
  by (simp add: inf_of_def)

lemma dwf_mult [simp]: "dwf (a * b)"
  by (simp add: times_double_def)

lemma dwf_divide [simp]: "dwf (a / b :: double)"
  by (simp add: divide_double_def)

lemma dwf_lit [simp]: "dwf (lit q)" by (simp add: lit_def)

lemma dwf_one [simp]: "dwf (1 :: double)"
proof -
  have "lit 1 = (1 :: double)" by code_simp
  then show ?thesis using dwf_lit[of 1] by metis
qed

lemma pack_fval: "dwf a \<Longrightarrow> isfinite a \<Longrightarrow> fval a \<noteq> 0 \<Longrightarrow> pack s (fval a) = a"
  by (cases a) (auto simp: pack_def dwf_def)

lemma pack_fval_deq: "dwf a \<Longrightarrow> isfinite a \<Longrightarrow> deq (pack s (fval a)) a"
  by (cases a) (auto simp: pack_def dwf_def deq_def)

subsection \<open>Arithmetic and order\<close>

lemma fval_uminus [simp]: "fval (- a) = - fval a"
  by (cases a) (auto simp: uminus_double_def)

lemma isnan_uminus [simp]: "isnan (- a) = isnan a"
  by (cases a) (auto simp: uminus_double_def)

lemma isfinite_uminus [simp]: "isfinite (- a) = isfinite a"
  by (cases a) (auto simp: uminus_double_def)

lemma infsgn_uminus [simp]: "infsgn (- a) = - infsgn a"
  by (cases a) (auto simp: uminus_double_def)

lemma isnan_abs [simp]: "isnan \<bar>a\<bar> = isnan a"
  by (cases a) (auto simp: abs_double_def)

lemma isfinite_abs [simp]: "isfinite \<bar>a\<bar> = isfinite a"
  by (cases a) (auto simp: abs_double_def)

lemma fval_abs [simp]: "fval \<bar>a\<bar> = \<bar>fval a\<bar>"
  by (cases a) (auto simp: abs_double_def)

lemma abs_nonneg [simp]: "0 \<le> \<bar>a\<bar> \<longleftrightarrow> \<not> isnan (a :: double)"
  by (cases a) (auto simp: abs_double_def dbl_ord_defs)

lemma dwf_abs [simp]: "dwf a \<Longrightarrow> dwf \<bar>a\<bar>"
  by (cases a) (auto simp: abs_double_def dwf_def rnd_neg abs_if)

lemma finite_add: "isfinite a \<Longrightarrow> isfinite b \<Longrightarrow> a + b = pack (a = NZero \<and> b = NZero) (fval a + fval b)"
  by (simp add: plus_double_def)

lemma inf_bounds [simp]: "a \<le> PInf \<longleftrightarrow> \<not> isnan a" "NInf \<le> a \<longleftrightarrow> \<not> isnan a"
  by (cases a; simp add: less_eq_double_def)+

lemma isfiniteI: "\<not> isnan a \<Longrightarrow> a \<noteq> PInf \<Longrightarrow> a \<noteq> NInf \<Longrightarrow> isfinite a"
  by (cases a) auto

lemma add_inf:
  "\<not> isnan (a + b) \<Longrightarrow> a = PInf \<or> b = PInf \<Longrightarrow> a + b = PInf"
  "\<not> isnan (a + b) \<Longrightarrow> a = NInf \<or> b = NInf \<Longrightarrow> a + b = NInf"
  by (cases a; cases b; simp add: plus_double_def)+

lemma add_not_nan: "\<not> isnan (a + b) \<Longrightarrow> \<not> isnan a \<and> \<not> isnan (b :: double)"
  by (auto simp: plus_double_def)

lemma add_mono:
  assumes le: "a \<le> c" "b \<le> d" and n: "\<not> isnan (a + b)" "\<not> isnan (c + d)"
  shows "a + b \<le> (c + d :: double)"
proof -
  have nn: "\<not> isnan a" "\<not> isnan b" "\<not> isnan c" "\<not> isnan d"
    using le by (auto simp: less_eq_double_def)
  consider "c = PInf \<or> d = PInf" | "a = NInf \<or> b = NInf"
    | "c \<noteq> PInf" "d \<noteq> PInf" "a \<noteq> NInf" "b \<noteq> NInf" by blast
  then show ?thesis
  proof cases
    case 1
    with n(2) have "c + d = PInf" by (rule add_inf(1))
    with n(1) show ?thesis by simp
  next
    case 2
    with n(1) have "a + b = NInf" by (rule add_inf(2))
    with n(2) show ?thesis by simp
  next
    case 3
    have "a \<noteq> PInf" "c \<noteq> NInf" using le(1) 3 nn by (cases a; cases c; simp add: less_eq_double_def)+
    moreover have "b \<noteq> PInf" "d \<noteq> NInf" using le(2) 3 nn by (cases b; cases d; simp add: less_eq_double_def)+
    ultimately have "isfinite a" "isfinite b" "isfinite c" "isfinite d"
      using nn 3 by (auto intro: isfiniteI)
    then show ?thesis using le by (simp add: finite_add finite_le pack_mono)
  qed
qed

lemma finite_add_not_nan [simp]: "isfinite a \<Longrightarrow> isfinite b \<Longrightarrow> \<not> isnan (a + b)"
  by (simp add: finite_add)

lemma nonneg_not_NInf: "0 \<le> a \<Longrightarrow> a \<noteq> NInf"
  by (auto simp: less_eq_double_def)

lemma nonneg_add_not_nan: "0 \<le> a \<Longrightarrow> 0 \<le> b \<Longrightarrow> \<not> isnan (a + b)"
  by (cases a; cases b) (auto simp: plus_double_def less_eq_double_def)

lemma add_nonneg: "0 \<le> a \<Longrightarrow> 0 \<le> b \<Longrightarrow> 0 \<le> (a + b :: double)"
  using add_mono[of 0 a 0 b] nonneg_add_not_nan[of a b]
  by (simp add: plus_double_def pack_def zero_double_def)

lemma sub_nonneg: "b \<le> a \<Longrightarrow> \<not> isnan (a - b) \<Longrightarrow> 0 \<le> (a - b :: double)"
proof -
  assume a: "b \<le> a" "\<not> isnan (a - b)"
  show ?thesis
  proof (cases "isfinite a \<and> isfinite b")
    case True
    then show ?thesis using a by (simp add: minus_double_def finite_add finite_le pack_nonneg)
  next
    case False
    then show ?thesis using a
      by (cases a; cases b) (auto simp: minus_double_def plus_double_def uminus_double_def less_eq_double_def)
  qed
qed

lemma nan_add [simp]: "NaN + a = NaN" "a + NaN = NaN" "a - NaN = NaN" "NaN - a = NaN" "NaN * a = NaN" "a * NaN = NaN"
  "NaN / a = NaN" "a / NaN = NaN" "\<bar>NaN\<bar> = NaN" "- NaN = NaN"
  by (simp_all add: plus_double_def minus_double_def times_double_def divide_double_def
      abs_double_def uminus_double_def)

lemma finite_add_nan: "\<not> isnan a \<Longrightarrow> isfinite b \<Longrightarrow> \<not> isnan (a + b)"
  "isfinite a \<Longrightarrow> \<not> isnan b \<Longrightarrow> \<not> isnan (a + b)"
  by (cases a; cases b; auto simp: plus_double_def)+

lemma sub_self: "isfinite a \<Longrightarrow> a - a = 0"
  by (cases a) (auto simp: minus_double_def plus_double_def uminus_double_def pack_def zero_double_def)

lemma sub_le: "0 \<le> b \<Longrightarrow> dwf a \<Longrightarrow> \<not> isnan (a - b) \<Longrightarrow> a - b \<le> (a :: double)"
proof -
  assume a: "0 \<le> b" "dwf a" "\<not> isnan (a - b)"
  show ?thesis
  proof (cases "isfinite a \<and> isfinite b")
    case True
    have "a - b \<le> pack False (fval a)"
      using True a(1) by (simp add: minus_double_def finite_add finite_le pack_mono)
    moreover have "pack False (fval a) \<le> a"
      using pack_fval_deq[of a False] True a(2) by (auto simp: dbl_ord_defs)
    ultimately show ?thesis by (rule dbl_trans)
  next
    case False
    then show ?thesis using a
      by (cases a; cases b) (auto simp: minus_double_def plus_double_def uminus_double_def less_eq_double_def)
  qed
qed

lemma mult_nonneg: "0 \<le> a \<Longrightarrow> 0 \<le> b \<Longrightarrow> \<not> isnan (a * b) \<Longrightarrow> 0 \<le> (a * b :: double)"
proof -
  assume a: "0 \<le> a" "0 \<le> b" "\<not> isnan (a * b)"
  show ?thesis
  proof (cases "isfinite a \<and> isfinite b")
    case True
    then show ?thesis using a by (simp add: times_double_def finite_le pack_nonneg)
  next
    case False
    then show ?thesis using a
      by (cases a; cases b) (auto simp: times_double_def inf_of_def less_eq_double_def)
  qed
qed

lemma abs_pack: "\<bar>pack s q\<bar> \<le> pack t \<bar>q\<bar>"
proof -
  have "rnd \<bar>q\<bar> = \<bar>rnd q\<bar>" using rnd_nonneg[of q] rnd_nonneg[of "- q"] by (auto simp: abs_if rnd_neg)
  then show ?thesis
    by (auto simp: pack_def abs_double_def less_eq_double_def Let_def binexp_def)
qed

lemma scale_le: 
  assumes "0 \<le> s" "s \<le> 1" "dwf a" "isfinite a" 
  shows "\<bar>a * s\<bar> \<le> \<bar>a :: double\<bar>"
proof -
  have s: "isfinite s" "0 \<le> fval s" "fval s \<le> 1"
    using assms(1,2) by (cases s; auto simp: less_eq_double_def one_double_def zero_double_def)+
  have "\<bar>a * s\<bar> \<le> pack False \<bar>fval a * fval s\<bar>"
    using s assms by (simp add: times_double_def abs_pack)
  moreover have "pack False \<bar>fval a * fval s\<bar> \<le> pack False \<bar>fval a\<bar>"
    using s by (intro pack_mono) (simp add: abs_mult mult_left_le)
  moreover have "pack False \<bar>fval a\<bar> \<le> \<bar>a\<bar>"
    using pack_fval_deq[of "\<bar>a\<bar>" False] assms by (auto simp: dbl_ord_defs)
  ultimately show ?thesis by (blast intro: dbl_trans)
qed

lemma of_integer_mono: "m \<le> n \<Longrightarrow> of_integer m \<le> of_integer n"
  by (simp add: of_integer_def pack_mono)

lemma of_integer_nonneg: "0 \<le> n \<Longrightarrow> 0 \<le> of_integer n"
  by (simp add: of_integer_def pack_nonneg)

lemma of_integer_exact: "\<bar>n\<bar> \<le> 2 ^ 53 \<Longrightarrow> of_integer n = Fin (of_int n)"
proof -
  assume n: "\<bar>n\<bar> \<le> 2 ^ 53"
  have "binexp (of_int n) < 1024" if "n \<noteq> 0"
  proof (rule ccontr)
    assume "\<not> ?thesis"
    with that have "(2::rat) powi 1024 \<le> \<bar>of_int n\<bar>" using binexp_iff[of "of_int n" 1024] by simp
    also have "\<dots> \<le> 2 ^ 53" using n by (metis of_int_abs of_int_le_iff of_int_numeral of_int_power)
    also have "(2::rat) ^ 53 < 2 powi 1024" using power_strict_increasing[of 53 1024 "2::rat"] by simp
    finally show False by simp
  qed
  then show ?thesis using rnd_of_int[OF n] by (cases "n = 0") (auto simp: of_integer_def pack_def Let_def)
qed

lemma mult_mono_left:
  assumes "0 \<le> t" "isfinite t" "p \<le> q" shows "Fin p * t \<le> Fin q * t"
proof -
  have "0 \<le> fval t" using assms(1,2) by (simp add: finite_le)
  then show ?thesis using assms by (simp add: times_double_def pack_mono mult_right_mono)
qed

lemma rnd_rel: "\<bar>rnd x - x\<bar> \<le> \<bar>x\<bar> / 2 ^ 53 + 2 powi (- 1075)"
proof (cases "x = 0")
  case False
  have e: "\<bar>rnd x - x\<bar> \<le> 2 powi (qexp x - 1)" using rnd_error[OF False] .
  show ?thesis
  proof (cases "binexp x - 52 \<le> - 1074")
    case True
    then have "(2::rat) powi (qexp x - 1) = 2 powi (- 1075)" by (simp add: qexp_def)
    then show ?thesis using e by (simp add: add_increasing)
  next
    case False': False
    have "(2::rat) powi (qexp x - 1) = 2 powi binexp x / 2 ^ 53"
      using False' by (simp add: qexp_def power_int_diff)
    also have "\<dots> \<le> \<bar>x\<bar> / 2 ^ 53" using binexp_iff[OF False, of "binexp x"] by (simp add: divide_right_mono)
    finally show ?thesis using e powi_pos[of "- 1075"] by linarith
  qed
qed simp

lemma rnd_rel_le: "\<bar>x\<bar> \<le> B \<Longrightarrow> \<bar>rnd x - x\<bar> \<le> B / 2 ^ 53 + 2 powi (- 1075)"
  by (rule order_trans[OF rnd_rel]) (simp add: divide_right_mono)

lemma pack_small:
  assumes "\<bar>q\<bar> \<le> 2 powi 1000" shows "isfinite (pack s q)" "fval (pack s q) = rnd q"
proof -
  have "\<bar>rnd q\<bar> < 2 powi 1024"
  proof -
    have "\<bar>rnd q\<bar> \<le> 2 powi 1000 + 2 powi 1000 / 2 ^ 53 + 2 powi (- 1075)"
      using rnd_rel_le[OF assms] assms abs_triangle_ineq2[of "rnd q" q] by linarith
    also have "(2::rat) powi (- 1075) \<le> 2 powi 1000" by (intro powi_mono) simp
    also have "(2::rat) powi 1000 + 2 powi 1000 / 2 ^ 53 + 2 powi 1000 \<le> 3 * 2 powi 1000" by simp
    also have "(3::rat) * 2 powi 1000 < 2 powi 1024"
    proof -
      have "(2::rat) powi 1024 = 2 ^ 24 * 2 powi 1000" using power_int_add[of "2::rat" 24 1000] by simp
      then show ?thesis using powi_pos[of 1000] by simp
    qed
    finally show ?thesis by simp
  qed
  then have "rnd q \<noteq> 0 \<longrightarrow> \<not> 1024 \<le> binexp (rnd q)" using binexp_iff[of "rnd q" 1024] by auto
  then show "isfinite (pack s q)" "fval (pack s q) = rnd q"
    by (auto simp: isfinite_pack fval_pack)
qed

lemma llround_near:
  assumes "isfinite d" "\<bar>fval d - of_nat i\<bar> < 1 / 2" "i < 2 ^ 62" shows "llround d = int i"
proof -
  have "(if fval d < 0 then - \<lfloor>- fval d + 1 / 2\<rfloor> else \<lfloor>fval d + 1 / 2\<rfloor>) = int i"
  proof (cases "fval d < 0")
    case True
    then have "i = 0" using assms(2) by (cases i) auto
    moreover have "\<lfloor>- fval d + 1 / 2\<rfloor> = 0" using True assms(2) \<open>i = 0\<close> by (intro floor_unique) auto
    ultimately show ?thesis using True by simp
  next
    case False
    have "fval d < of_nat i + 1 / 2" "of_nat i - 1 / 2 < fval d" using assms(2) by linarith+
    then have "\<lfloor>fval d + 1 / 2\<rfloor> = int i" by (intro floor_unique) auto
    with False show ?thesis by simp
  qed
  then show ?thesis using assms(1,3) by (simp add: llround_def Let_def)
qed

subsection \<open>The library's maximum, minimum and clamp\<close>

lemma std_max_zero [simp]: "0 \<le> std_max 0 x" "\<not> isnan (std_max 0 x)"
  by (auto simp: std_max_def dbl_less_imp_le dest: less_nanD)

lemma std_max_ge: "\<not> isnan a \<Longrightarrow> a \<le> std_max a b" "\<not> isnan a \<Longrightarrow> \<not> isnan b \<Longrightarrow> b \<le> std_max a b"
  by (auto simp: std_max_def dbl_ord_defs)

lemma std_max_id: "0 \<le> x \<Longrightarrow> deq (std_max 0 x) x"
  by (auto simp: std_max_def dbl_ord_defs)

lemma std_min_le: "\<not> isnan a \<Longrightarrow> std_min a b \<le> a" "\<not> isnan a \<Longrightarrow> \<not> isnan b \<Longrightarrow> std_min a b \<le> b"
  by (auto simp: std_min_def dbl_ord_defs)

lemma std_min_cases: "std_min a b = a \<or> std_min a b = b"
  by (simp add: std_min_def)

lemma std_max_cases: "std_max a b = a \<or> std_max a b = b"
  by (simp add: std_max_def)

lemma std_clamp_bounds:
  assumes "lo \<le> hi" "\<not> isnan v" shows "lo \<le> std_clamp v lo hi" "std_clamp v lo hi \<le> hi"
proof -
  have "\<not> isnan lo" "\<not> isnan hi" using assms(1) by (auto simp: less_eq_double_def)
  then show "lo \<le> std_clamp v lo hi" "std_clamp v lo hi \<le> hi"
    using assms dbl_not_less[of v lo] dbl_not_less[of hi v] by (auto simp: std_clamp_def)
qed

lemma std_clamp_id: "lo \<le> v \<Longrightarrow> v \<le> hi \<Longrightarrow> std_clamp v lo hi = v"
  by (simp add: std_clamp_def dbl_leD)

lemma std_clamp_nan: "std_clamp NaN lo hi = NaN"
  by (simp add: std_clamp_def)

lemma dwf_std [simp]:
  "dwf a \<Longrightarrow> dwf b \<Longrightarrow> dwf (std_max a b)" "dwf a \<Longrightarrow> dwf b \<Longrightarrow> dwf (std_min a b)"
  "dwf a \<Longrightarrow> dwf b \<Longrightarrow> dwf c \<Longrightarrow> dwf (std_clamp a b c)"
  by (simp_all add: std_max_def std_min_def std_clamp_def)

lemma finite_between: "isfinite a \<Longrightarrow> isfinite b \<Longrightarrow> a \<le> x \<Longrightarrow> x \<le> b \<Longrightarrow> isfinite x"
  by (cases x; cases a; cases b) (auto simp: dbl_ord_defs)

lemma sub_not_nan: "isfinite a \<Longrightarrow> isfinite b \<Longrightarrow> \<not> isnan (a - b :: double)"
  by (simp add: minus_double_def)

lemma sub_sign:
  "0 < a - b \<Longrightarrow> b < (a :: double)" "a - b < 0 \<Longrightarrow> a < (b :: double)"
proof -
  have f: "a - b = pack (a = NZero \<and> - b = NZero) (fval a - fval b)" if "isfinite a" "isfinite b"
    using that by (simp add: minus_double_def finite_add)
  show "b < a" if h: "0 < a - b"
  proof (cases "isfinite a \<and> isfinite b")
    case True
    then have "\<not> fval a - fval b \<le> 0" using h f pack_nonpos dbl_leD by metis
    with True show ?thesis by (simp add: finite_less)
  next
    case False
    with h show ?thesis
      by (cases a; cases b) (auto simp: minus_double_def plus_double_def uminus_double_def dbl_ord_defs zero_double_def split: if_splits)
  qed
  show "a < b" if h: "a - b < 0"
  proof (cases "isfinite a \<and> isfinite b")
    case True
    then have "\<not> 0 \<le> fval a - fval b" using h f pack_nonneg dbl_leD by metis
    with True show ?thesis by (simp add: finite_less)
  next
    case False
    with h show ?thesis
      by (cases a; cases b) (auto simp: minus_double_def plus_double_def uminus_double_def dbl_ord_defs zero_double_def split: if_splits)
  qed
qed

end
