(* ===== verification/Trading_Prelude.thy ===== *)
theory Trading_Prelude
  imports Binary64 "HOL-Library.Word" "HOL-Library.Signed_Division"
begin

text \<open>
  What the component theories share: the machine integers, C strings in fixed buffers,
  arrays of slots searched from the front, and the collection \<open>trd\<close> of the rewrite rules
  that unfold the helpers of several components at once.

  A fixed-size array is a list whose length never changes. The code's search loops return a
  pointer into the array; the model returns the index.
\<close>

named_theorems trd

type_synonym u32 = "32 word"
type_synonym u64 = "64 word"

lemma map_sum_Inr [simp]: "map_sum id f x = Inr y \<longleftrightarrow> (\<exists>z. x = Inr z \<and> y = f z)"
  by (cases x) auto

subsection \<open>Signed 32-bit counters\<close>

text \<open>\<open>std::atomic<int32_t>::fetch_add\<close> wraps around in two's complement.\<close>

definition i32 :: "int \<Rightarrow> int" where
  "i32 n = (n + 2 ^ 31) mod 2 ^ 32 - 2 ^ 31"

lemma i32_id [simp]: "- (2 ^ 31) \<le> n \<Longrightarrow> n < 2 ^ 31 \<Longrightarrow> i32 n = n"
  by (simp add: i32_def)

subsection \<open>C strings\<close>

text \<open>
  A C string is the list of its characters before the terminating NUL. Copying into a buffer
  of \<open>n\<close> bytes (\<open>strncpy\<close> of \<open>n - 1\<close> bytes and a NUL) keeps the first \<open>n - 1\<close> characters.
  \<open>strncmp(a, b, n) == 0\<close> holds when the first \<open>n\<close> characters agree.
\<close>

definition buf_copy :: "nat \<Rightarrow> string \<Rightarrow> string" where
  "buf_copy n s = take (n - 1) s"

definition strncmp_eq :: "nat \<Rightarrow> string \<Rightarrow> string \<Rightarrow> bool" where
  "strncmp_eq n a b \<longleftrightarrow> take n a = take n b"

lemma buf_copy_short [simp]: "length s < n \<Longrightarrow> buf_copy n s = s"
  by (simp add: buf_copy_def)

lemma length_buf_copy: "0 < n \<Longrightarrow> length (buf_copy n s) < n"
  by (simp add: buf_copy_def)

lemma strncmp_eq_refl [simp]: "strncmp_eq n a a"
  by (simp add: strncmp_eq_def)

lemma strncmp_eq_short: "length a < n \<Longrightarrow> length b < n \<Longrightarrow> strncmp_eq n a b \<longleftrightarrow> a = b"
  by (simp add: strncmp_eq_def)

subsection \<open>Arrays of slots\<close>

text \<open>The loop \<open>for (auto &s : slots) if (P(s)) return &s; return nullptr;\<close>\<close>

primrec find_slot :: "('a \<Rightarrow> bool) \<Rightarrow> 'a list \<Rightarrow> nat option" where
  "find_slot P [] = None"
| "find_slot P (x # xs) = (if P x then Some 0 else map_option Suc (find_slot P xs))"

lemma find_slot_None: "find_slot P xs = None \<longleftrightarrow> (\<forall>x \<in> set xs. \<not> P x)"
  by (induction xs) auto

lemma find_slot_SomeD:
  "find_slot P xs = Some i \<Longrightarrow> i < length xs \<and> P (xs ! i) \<and> (\<forall>j < i. \<not> P (xs ! j))"
proof (induction xs arbitrary: i)
  case (Cons x xs)
  show ?case
  proof (cases "P x")
    case False
    with Cons.prems obtain j where "i = Suc j" "find_slot P xs = Some j" by auto
    with Cons.IH[of j] False show ?thesis by (auto simp: nth_Cons split: nat.splits)
  qed (use Cons.prems in auto)
qed simp

lemma find_slot_length: "find_slot P xs = Some i \<Longrightarrow> i < length xs"
  using find_slot_SomeD by blast

lemma find_slot_holds: "find_slot P xs = Some i \<Longrightarrow> P (xs ! i)"
  using find_slot_SomeD by blast

lemma find_slot_unique:
  assumes "i < length xs" "P (xs ! i)" "\<And>j. j < length xs \<Longrightarrow> P (xs ! j) \<Longrightarrow> j = i"
  shows "find_slot P xs = Some i"
proof (cases "find_slot P xs")
  case None
  with assms(1,2) show ?thesis by (auto simp: find_slot_None)
next
  case (Some k)
  with assms(3)[of k] show ?thesis by (auto dest: find_slot_SomeD)
qed

lemma find_slot_ex: "x \<in> set xs \<Longrightarrow> P x \<Longrightarrow> \<exists>i. find_slot P xs = Some i"
  using find_slot_None[of P xs] by (cases "find_slot P xs") auto

lemma find_slot_cong:
  "length xs = length ys \<Longrightarrow> (\<And>i. i < length xs \<Longrightarrow> P (xs ! i) = Q (ys ! i)) \<Longrightarrow>
   find_slot P xs = find_slot Q ys"
proof (induction xs arbitrary: ys)
  case (Cons x xs)
  then obtain y ys' where ys: "ys = y # ys'" by (cases ys) auto
  from Cons.prems(2)[of 0] ys have "P x = Q y" by simp
  moreover have "find_slot P xs = find_slot Q ys'"
  proof (rule Cons.IH)
    show "P (xs ! i) = Q (ys' ! i)" if "i < length xs" for i
      using Cons.prems(2)[of "Suc i"] that ys by simp
  qed (use Cons.prems(1) ys in simp)
  ultimately show ?case using ys by simp
qed simp

subsection \<open>Tables of keyed slots\<close>

text \<open>
  Several components keep a table as an array of slots with an in-use flag and a key, look a
  key up by a scan and take the first free slot for a new key. \<open>key_map\<close> is the finite
  map such a table stands for; \<open>unique_keys\<close> is the invariant all of them keep.
\<close>

definition key_map :: "('e \<Rightarrow> bool) \<Rightarrow> ('e \<Rightarrow> 'k) \<Rightarrow> 'e list \<Rightarrow> 'k \<Rightarrow> 'e option" where
  "key_map used key xs k = map_option ((!) xs) (find_slot (\<lambda>e. used e \<and> key e = k) xs)"

definition unique_keys :: "('e \<Rightarrow> bool) \<Rightarrow> ('e \<Rightarrow> 'k) \<Rightarrow> 'e list \<Rightarrow> bool" where
  "unique_keys used key xs \<longleftrightarrow>
     (\<forall>i < length xs. \<forall>j < length xs.
        used (xs ! i) \<longrightarrow> used (xs ! j) \<longrightarrow> key (xs ! i) = key (xs ! j) \<longrightarrow> i = j)"

lemma unique_keysD:
  "unique_keys used key xs \<Longrightarrow> i < length xs \<Longrightarrow> j < length xs \<Longrightarrow> used (xs ! i) \<Longrightarrow>
   used (xs ! j) \<Longrightarrow> key (xs ! i) = key (xs ! j) \<Longrightarrow> i = j"
  by (auto simp: unique_keys_def)

lemma key_map_Some:
  assumes "unique_keys used key xs"
  shows "key_map used key xs k = Some e \<longleftrightarrow>
    (\<exists>i < length xs. xs ! i = e \<and> used e \<and> key e = k)"
proof
  assume "key_map used key xs k = Some e"
  then show "\<exists>i < length xs. xs ! i = e \<and> used e \<and> key e = k"
    by (auto simp: key_map_def dest: find_slot_SomeD)
next
  assume "\<exists>i < length xs. xs ! i = e \<and> used e \<and> key e = k"
  then obtain i where i: "i < length xs" "xs ! i = e" "used e" "key e = k" by blast
  have "find_slot (\<lambda>e. used e \<and> key e = k) xs = Some i"
    using i by (intro find_slot_unique) (auto intro: unique_keysD[OF assms])
  with i show "key_map used key xs k = Some e" by (simp add: key_map_def)
qed

lemma key_map_None: "key_map used key xs k = None \<longleftrightarrow> (\<forall>e \<in> set xs. used e \<longrightarrow> key e \<noteq> k)"
  by (auto simp: key_map_def find_slot_None)

lemma unique_keys_update:
  assumes u: "unique_keys used key xs"
    and fresh: "\<And>j. j < length xs \<Longrightarrow> j \<noteq> i \<Longrightarrow> used (xs ! j) \<Longrightarrow> used e \<Longrightarrow> key (xs ! j) \<noteq> key e"
  shows "unique_keys used key (xs[i := e])"
proof (cases "i < length xs")
  case True
  show ?thesis unfolding unique_keys_def
    using True fresh unique_keysD[OF u] by (auto simp: nth_list_update) metis+
qed (use u in \<open>simp add: list_update_beyond\<close>)

lemma key_map_other:
  assumes old: "\<not> (used (xs ! i) \<and> key (xs ! i) = k)" and e: "\<not> (used e \<and> key e = k)"
  shows "key_map used key (xs[i := e]) k = key_map used key xs k"
proof (cases "i < length xs")
  case True
  let ?P = "\<lambda>e. used e \<and> key e = k"
  have "find_slot ?P (xs[i := e]) = find_slot ?P xs"
  proof (rule find_slot_cong)
    show "?P (xs[i := e] ! j) = ?P (xs ! j)" if "j < length (xs[i := e])" for j
      using that old e by (cases "j = i") auto
  qed simp
  moreover have "find_slot ?P xs \<noteq> Some i" using old by (auto dest: find_slot_holds)
  ultimately show ?thesis by (cases "find_slot ?P xs") (auto simp: key_map_def)
qed (simp add: list_update_beyond)

lemma key_map_put:
  assumes u: "unique_keys used key xs" and i: "i < length xs" and e: "used e" "key e = k"
    and old: "used (xs ! i) \<Longrightarrow> key (xs ! i) = k"
    and fresh: "\<And>j. j < length xs \<Longrightarrow> j \<noteq> i \<Longrightarrow> used (xs ! j) \<Longrightarrow> key (xs ! j) \<noteq> k"
  shows "key_map used key (xs[i := e]) = (key_map used key xs)(k \<mapsto> e)"
proof
  fix k'
  have u': "unique_keys used key (xs[i := e])"
    using fresh e by (intro unique_keys_update[OF u]) auto
  show "key_map used key (xs[i := e]) k' = ((key_map used key xs)(k \<mapsto> e)) k'"
  proof (cases "k' = k")
    case True
    then show ?thesis using key_map_Some[OF u', of k' e] i e by auto
  next
    case False
    then show ?thesis using e old by (simp, intro key_map_other) auto
  qed
qed

lemma key_map_drop:
  assumes u: "unique_keys used key xs" and i: "i < length xs" and e: "\<not> used e"
    and old: "used (xs ! i)" "key (xs ! i) = k"
  shows "key_map used key (xs[i := e]) = (key_map used key xs)(k := None)"
proof
  fix k'
  show "key_map used key (xs[i := e]) k' = ((key_map used key xs)(k := None)) k'"
  proof (cases "k' = k")
    case True
    have "\<not> (used (xs[i := e] ! j) \<and> key (xs[i := e] ! j) = k)" if "j < length xs" for j
      using that e old unique_keysD[OF u _ i, of j] by (cases "j = i") auto
    then have "key_map used key (xs[i := e]) k = None"
      unfolding key_map_None by (metis in_set_conv_nth length_list_update)
    then show ?thesis using True by simp
  next
    case False
    then show ?thesis using e old by (simp, intro key_map_other) auto
  qed
qed

lemma unique_keys_replicate: "\<not> used e \<Longrightarrow> unique_keys used key (replicate n e)"
  by (simp add: unique_keys_def)

section \<open>Results that may be errors\<close>

text \<open>Sequencing of calls that may throw, and \<open>catch (...)\<close> with a value.\<close>

definition and_then :: "'e + 'a \<Rightarrow> ('a \<Rightarrow> 'e + 'b) \<Rightarrow> 'e + 'b" where
  "and_then x f = (case x of Inl e \<Rightarrow> Inl e | Inr y \<Rightarrow> f y)"

definition catching :: "'e + 'a \<Rightarrow> 'a option" where
  "catching x = (case x of Inl _ \<Rightarrow> None | Inr y \<Rightarrow> Some y)"

lemma and_then_simps [simp]: "and_then (Inl e) f = Inl e" "and_then (Inr y) f = f y"
  by (simp_all add: and_then_def)

lemma and_then_Inr: "and_then x f = Inr z \<longleftrightarrow> (\<exists>y. x = Inr y \<and> f y = Inr z)"
  by (cases x) auto

lemma and_then_InrE:
  assumes "and_then x f = Inr z"
  obtains y where "x = Inr y" "f y = Inr z"
  using assms by (auto simp: and_then_Inr)

lemma catching_simps [simp]: "catching (Inl e) = None" "catching (Inr y) = Some y"
  by (simp_all add: catching_def)

text \<open>A loop that runs until an iteration throws.\<close>

fun foldE :: "('a \<Rightarrow> 'b \<Rightarrow> 'e + 'b) \<Rightarrow> 'a list \<Rightarrow> 'b \<Rightarrow> 'e + 'b" where
  "foldE f [] b = Inr b"
| "foldE f (x # xs) b = and_then (f x b) (foldE f xs)"

lemma foldE_append: "foldE f (xs @ ys) b = and_then (foldE f xs b) (foldE f ys)"
  by (induction xs arbitrary: b) (auto simp: and_then_def split: sum.splits)

end
