(* ===== verification/Trading_Types.thy ===== *)
theory Trading_Types
  imports Trading_Prelude
begin

text \<open>
  The data of \<^verbatim>\<open>core/common/types.hpp\<close>: the enumerations, the order, the fill report and
  the market data structures every component exchanges. Field names carry a prefix for the
  structure (\<open>o_\<close> order, \<open>fu_\<close> fill update, \<open>pl_\<close> price level, \<open>dl_\<close> delta, \<open>sn_\<close> snapshot);
  \<open>mk_\<close> constants are the default constructors. Character buffers are strings, read up to
  their NUL; \<open>int64_t\<close> time stamps are integers.
\<close>

datatype Exchange = BINANCE | OKX | COINBASE | KRAKEN | UNKNOWN

datatype Side = BID | ASK

datatype Result = SUCCESS | ERROR_INVALID_SEQUENCE | ERROR_INVALID_PRICE | ERROR_INVALID_SIZE
  | ERROR_SEQUENCE_GAP | ERROR_BOOK_CORRUPTED | ERROR_CONNECTION_LOST

datatype OrderType = MARKET | LIMIT | STOP_LIMIT

datatype TimeInForce = GTC | IOC | FOK | GTX

datatype FuturesPositionMode = ONE_WAY | HEDGE

datatype FuturesPositionSide = UNSPECIFIED | LONG | SHORT

datatype FuturesWorkingType = CONTRACT_PRICE | MARK_PRICE

datatype OrderState = PENDING | OPEN | PARTIALLY_FILLED | FILLED | CANCELED | REJECTED

datatype ConnectorResult = C_OK | ERROR_RATE_LIMIT | ERROR_INSUFFICIENT_FUNDS
  | ERROR_INVALID_ORDER | ERROR_REST_FAILURE | AUTH_FAILED
  | ERROR_FUTURES_POSITION_SIDE_REQUIRED | ERROR_FUTURES_POSITION_SIDE_INVALID
  | ERROR_FUTURES_CLOSE_POSITION_CONFLICT | ERROR_FUTURES_FILTERS_UNAVAILABLE
  | ERROR_FUTURES_PRICE_FILTER_VIOLATION | ERROR_FUTURES_QTY_FILTER_VIOLATION
  | ERROR_FUTURES_MIN_NOTIONAL_VIOLATION | ERROR_FUTURES_TRIGGER_CONSTRAINT_VIOLATION
  | ERROR_UNKNOWN

record PriceLevel =
  pl_price :: double
  pl_size :: double
  pl_order_count :: u32

record Delta =
  dl_side :: Side
  dl_price :: double
  dl_size :: double
  dl_order_count :: u32
  dl_sequence :: u64
  dl_timestamp_exchange_ns :: int
  dl_timestamp_local_ns :: int

record Snapshot =
  sn_symbol :: string
  sn_exchange :: Exchange
  sn_sequence :: u64
  sn_bids :: "PriceLevel list"
  sn_asks :: "PriceLevel list"
  sn_checksum :: u32
  sn_checksum_present :: bool
  sn_timestamp_exchange_ns :: int
  sn_timestamp_local_ns :: int

record TradeFlow =
  tf_last_trade_price :: double
  tf_last_trade_size :: double
  tf_recent_traded_volume :: double
  tf_trade_direction :: "8 word"

fun exchange_to_string :: "Exchange \<Rightarrow> string" where
  "exchange_to_string BINANCE = ''BINANCE''"
| "exchange_to_string OKX = ''OKX''"
| "exchange_to_string COINBASE = ''COINBASE''"
| "exchange_to_string KRAKEN = ''KRAKEN''"
| "exchange_to_string UNKNOWN = ''UNKNOWN''"

definition side_to_string :: "Side \<Rightarrow> string" where
  "side_to_string s = (if s = BID then ''BID'' else ''ASK'')"

record Order =
  o_client_order_id :: u64
  o_symbol :: string
  o_exchange :: Exchange
  o_side :: Side
  o_type :: OrderType
  o_tif :: TimeInForce
  o_price :: double
  o_stop_price :: double
  o_quantity :: double
  o_futures_position_mode :: FuturesPositionMode
  o_futures_position_side :: FuturesPositionSide
  o_futures_working_type :: FuturesWorkingType
  o_reduce_only :: bool
  o_close_position :: bool
  o_submit_ts_ns :: int

record FillUpdate =
  fu_client_order_id :: u64
  fu_fill_price :: double
  fu_fill_qty :: double
  fu_cumulative_filled_qty :: double
  fu_avg_fill_price :: double
  fu_new_state :: OrderState
  fu_local_ts_ns :: int
  fu_reject_reason :: string

definition mk_Order :: Order where
  "mk_Order = \<lparr>o_client_order_id = 0, o_symbol = [], o_exchange = UNKNOWN, o_side = BID,
     o_type = LIMIT, o_tif = GTC, o_price = 0, o_stop_price = 0, o_quantity = 0,
     o_futures_position_mode = ONE_WAY, o_futures_position_side = UNSPECIFIED,
     o_futures_working_type = CONTRACT_PRICE, o_reduce_only = False, o_close_position = False,
     o_submit_ts_ns = 0\<rparr>"

definition mk_FillUpdate :: FillUpdate where
  "mk_FillUpdate = \<lparr>fu_client_order_id = 0, fu_fill_price = 0, fu_fill_qty = 0,
     fu_cumulative_filled_qty = 0, fu_avg_fill_price = 0, fu_new_state = PENDING,
     fu_local_ts_ns = 0, fu_reject_reason = []\<rparr>"

definition mk_Delta :: Delta where
  "mk_Delta = \<lparr>dl_side = BID, dl_price = 0, dl_size = 0, dl_order_count = 0, dl_sequence = 0,
     dl_timestamp_exchange_ns = 0, dl_timestamp_local_ns = 0\<rparr>"

definition mk_Snapshot :: Snapshot where
  "mk_Snapshot = \<lparr>sn_symbol = [], sn_exchange = UNKNOWN, sn_sequence = 0, sn_bids = [],
     sn_asks = [], sn_checksum = 0, sn_checksum_present = False,
     sn_timestamp_exchange_ns = 0, sn_timestamp_local_ns = 0\<rparr>"

definition mk_PriceLevel :: "double \<Rightarrow> double \<Rightarrow> u32 \<Rightarrow> PriceLevel" where
  "mk_PriceLevel p s c = \<lparr>pl_price = p, pl_size = s, pl_order_count = c\<rparr>"

definition mk_TradeFlow :: TradeFlow where
  "mk_TradeFlow = \<lparr>tf_last_trade_price = 0, tf_last_trade_size = 0,
     tf_recent_traded_volume = 0, tf_trade_direction = 255\<rparr>"

lemmas mk_defs = mk_Order_def mk_FillUpdate_def mk_Delta_def mk_Snapshot_def mk_PriceLevel_def

text \<open>The terminal order states: no report of a further fill can follow.\<close>

definition terminal_state :: "OrderState \<Rightarrow> bool" where
  "terminal_state s \<longleftrightarrow> s = FILLED \<or> s = CANCELED \<or> s = REJECTED"

lemma exchange_to_string_inj: "exchange_to_string a = exchange_to_string b \<longleftrightarrow> a = b"
  by (cases a; cases b) simp_all

end
