(* ===== verification/Kill_Switch.thy ===== *)
theory Kill_Switch
  imports Trading_Types
begin

text \<open>
  \<^verbatim>\<open>core/risk/kill_switch.hpp\<close> and \<^verbatim>\<open>core/risk/recovery_guard.hpp\<close>. The atomics are fields of
  a record, the steady clock is an argument \<open>now\<close>. The locale \<open>halt_switch\<close> is what the
  components that hold a reference to the switch rely on: triggering makes it active.
\<close>

datatype KillReason = MANUAL | DRAWDOWN | CIRCUIT_BREAKER | HEARTBEAT_MISSED | BOOK_CORRUPTED

record KillSwitch =
  ks_active :: bool
  ks_reason :: KillReason
  ks_last_heartbeat_ns :: int
  ks_heartbeat_timeout_ns :: int

definition DEFAULT_HEARTBEAT_TIMEOUT_NS :: int where
  "DEFAULT_HEARTBEAT_TIMEOUT_NS = 5000000000"

definition ks_init :: "int \<Rightarrow> int \<Rightarrow> KillSwitch" where
  "ks_init now timeout = \<lparr>ks_active = False, ks_reason = MANUAL, ks_last_heartbeat_ns = now,
     ks_heartbeat_timeout_ns = timeout\<rparr>"

definition trigger :: "KillReason \<Rightarrow> KillSwitch \<Rightarrow> KillSwitch" where
  "trigger reason ks = ks\<lparr>ks_reason := reason, ks_active := True\<rparr>"

definition ks_reset :: "int \<Rightarrow> KillSwitch \<Rightarrow> KillSwitch" where
  "ks_reset now ks = ks\<lparr>ks_active := False, ks_last_heartbeat_ns := now\<rparr>"

definition heartbeat :: "int \<Rightarrow> KillSwitch \<Rightarrow> KillSwitch" where
  "heartbeat now ks = ks\<lparr>ks_last_heartbeat_ns := now\<rparr>"

definition check_heartbeat :: "int \<Rightarrow> KillSwitch \<Rightarrow> bool \<times> KillSwitch" where
  "check_heartbeat now ks =
     (let elapsed = now - ks_last_heartbeat_ns ks
      in if elapsed > ks_heartbeat_timeout_ns ks then (False, trigger HEARTBEAT_MISSED ks)
         else (True, ks))"

fun reason_to_string :: "KillReason \<Rightarrow> string" where
  "reason_to_string MANUAL = ''MANUAL''"
| "reason_to_string DRAWDOWN = ''DRAWDOWN''"
| "reason_to_string CIRCUIT_BREAKER = ''CIRCUIT_BREAKER''"
| "reason_to_string HEARTBEAT_MISSED = ''HEARTBEAT_MISSED''"
| "reason_to_string BOOK_CORRUPTED = ''BOOK_CORRUPTED''"

lemma trigger_simps [simp]:
  "ks_active (trigger r ks)" "ks_reason (trigger r ks) = r"
  "ks_last_heartbeat_ns (trigger r ks) = ks_last_heartbeat_ns ks"
  "ks_heartbeat_timeout_ns (trigger r ks) = ks_heartbeat_timeout_ns ks"
  by (simp_all add: trigger_def)

subsection \<open>The interface the risk components use\<close>

text \<open>
  A client only triggers the switch, so its operations can only move the switch from a state
  to itself or to a triggered state: \<open>halts\<close> is what every client proves of its operations,
  and an active switch stays active through any number of them.
\<close>

locale halt_switch =
  fixes trig :: "'r \<Rightarrow> 's \<Rightarrow> 's" and active :: "'s \<Rightarrow> bool"
  assumes trig_active: "active (trig r s)"
begin

definition halts :: "'s \<Rightarrow> 's \<Rightarrow> bool" where
  "halts s s' \<longleftrightarrow> s' = s \<or> (\<exists>r. s' = trig r s)"

lemma halts_refl [simp]: "halts s s"
  by (simp add: halts_def)

lemma halts_trig [simp]: "halts s (trig r s)"
  by (auto simp: halts_def)

lemma halts_active: "halts s s' \<Longrightarrow> active s \<Longrightarrow> active s'"
  by (auto simp: halts_def trig_active)

lemma halts_steps: "(\<And>x s. halts s (step x s)) \<Longrightarrow> active s \<Longrightarrow> active (fold step xs s)"
  by (induction xs arbitrary: s) (auto dest: halts_active)

end

interpretation ks: halt_switch trigger ks_active
  by unfold_locales simp

subsection \<open>The latch\<close>

datatype ks_op = KTrigger KillReason | KReset int | KHeartbeat int | KCheck int

fun ks_step :: "ks_op \<Rightarrow> KillSwitch \<Rightarrow> KillSwitch" where
  "ks_step (KTrigger r) ks = trigger r ks"
| "ks_step (KReset now) ks = ks_reset now ks"
| "ks_step (KHeartbeat now) ks = heartbeat now ks"
| "ks_step (KCheck now) ks = snd (check_heartbeat now ks)"

lemma ks_step_latch:
  "ks_active ks \<Longrightarrow> (\<And>n. op \<noteq> KReset n) \<Longrightarrow> ks_active (ks_step op ks)"
  by (cases op) (auto simp: heartbeat_def check_heartbeat_def Let_def)

text \<open>
  C24. The kill switch latches: after it is triggered, whatever sequence of triggers,
  heartbeats and heartbeat checks follows, it stays active as long as nobody calls reset.
\<close>

theorem kill_switch_latches:
  "(\<forall>op \<in> set ops. \<forall>n. op \<noteq> KReset n) \<Longrightarrow> ks_active (fold ks_step ops (trigger r ks))"
proof -
  have "ks_active s \<Longrightarrow> \<forall>op \<in> set ops. \<forall>n. op \<noteq> KReset n \<Longrightarrow> ks_active (fold ks_step ops s)" for s
    by (induction ops arbitrary: s) (auto intro: ks_step_latch)
  then show "(\<forall>op \<in> set ops. \<forall>n. op \<noteq> KReset n) \<Longrightarrow> ks_active (fold ks_step ops (trigger r ks))"
    by simp
qed

theorem kill_switch_latches_witness:
  "ks_active (fold ks_step [KHeartbeat 7, KCheck 8, KTrigger MANUAL] (trigger DRAWDOWN (ks_init 0 5)))"
  by (rule kill_switch_latches) simp

text \<open>
  The heartbeat watchdog: when a check runs more than the timeout after the last heartbeat it
  fails and leaves the switch active with reason HEARTBEAT_MISSED; within the timeout it
  succeeds and changes nothing. A missed heartbeat is not repaired by a later one: only
  reset clears it.
\<close>

theorem heartbeat_watchdog:
  "(\<forall>now. ks_heartbeat_timeout_ns ks < now - ks_last_heartbeat_ns ks \<longrightarrow>
      \<not> fst (check_heartbeat now ks) \<and>
      ks_active (heartbeat later (snd (check_heartbeat now ks))) \<and>
      ks_reason (heartbeat later (snd (check_heartbeat now ks))) = HEARTBEAT_MISSED) \<and>
   (\<forall>now. now - ks_last_heartbeat_ns ks \<le> ks_heartbeat_timeout_ns ks \<longrightarrow>
      check_heartbeat now ks = (True, ks))"
  by (auto simp: check_heartbeat_def Let_def heartbeat_def)

theorem heartbeat_watchdog_witness:
  "\<not> fst (check_heartbeat 6 (ks_init 0 5)) \<and> check_heartbeat 5 (ks_init 0 5) = (True, ks_init 0 5)"
  using heartbeat_watchdog [of "ks_init 0 5" 7] by (simp add: ks_init_def)

subsection \<open>The recovery guard\<close>

record RecoveryGuardConfig =
  max_in_flight_ops :: u32
  max_duplicate_acks :: u32
  max_cancel_replace_races :: u32

definition recovery_check ::
  "RecoveryGuardConfig \<Rightarrow> u32 \<Rightarrow> u32 \<Rightarrow> u32 \<Rightarrow> KillSwitch \<Rightarrow> bool \<times> KillSwitch" where
  "recovery_check cfg in_flight_ops duplicate_acks cancel_replace_races ks =
     (if in_flight_ops > max_in_flight_ops cfg \<or> duplicate_acks > max_duplicate_acks cfg \<or>
         cancel_replace_races > max_cancel_replace_races cfg
      then (False, trigger CIRCUIT_BREAKER ks) else (True, ks))"

lemma recovery_check_halts [simp]: "ks.halts ks' (snd (recovery_check cfg a b c ks'))"
  by (simp add: recovery_check_def)

lemma recovery_check_iff:
  "fst (recovery_check cfg a b c ks) \<longleftrightarrow>
     a \<le> max_in_flight_ops cfg \<and> b \<le> max_duplicate_acks cfg \<and> c \<le> max_cancel_replace_races cfg"
  by (auto simp: recovery_check_def not_less)

end
