(* ===== verification/Circuit_Breaker.thy ===== *)
theory Circuit_Breaker
  imports Kill_Switch
begin

text \<open>
  \<^verbatim>\<open>core/risk/circuit_breaker.hpp\<close>. Each check is a function of the breaker, the kill switch
  and the clock that returns the verdict and both states. The calls are sequential here, so
  the compare-exchange of a window start succeeds. The pattern the three rate checks repeat
  (reset the window if it is over, then fetch-and-increment the counter) is \<open>window_fetch\<close>.
  The book's age is the argument that \<open>BookManager::age_ms\<close> computes from its last update.
\<close>

record CircuitBreakerConfig =
  consecutive_loss_count :: int
  max_orders_per_second :: int
  max_orders_per_minute :: int
  max_messages_per_second :: int
  max_book_age_ms :: int
  max_drawdown_usd :: double
  max_price_deviation_bps :: double
  price_ema_alpha :: double
  per_leg_loss_usd :: double

definition mk_CircuitBreakerConfig :: CircuitBreakerConfig where
  "mk_CircuitBreakerConfig = \<lparr>consecutive_loss_count = 5, max_orders_per_second = 10,
     max_orders_per_minute = 200, max_messages_per_second = 1000, max_book_age_ms = 500,
     max_drawdown_usd = - lit 5000, max_price_deviation_bps = lit 300,
     price_ema_alpha = lit (1 / 100), per_leg_loss_usd = - lit 50\<rparr>"

datatype CircuitCheckResult = CB_OK | RATE_LIMIT_SEC | RATE_LIMIT_MIN | MSG_RATE_LIMIT
  | CB_DRAWDOWN | STALE_BOOK | FLASH_CRASH | CONSEC_LOSSES

record CircuitBreaker =
  cb_cfg :: CircuitBreakerConfig
  cb_sec :: "int \<times> int"  \<comment> \<open>\<open>sec_window_start_ns_\<close> and \<open>order_count_sec_\<close>\<close>
  cb_min :: "int \<times> int"  \<comment> \<open>\<open>min_window_start_ns_\<close> and \<open>order_count_min_\<close>\<close>
  cb_msg :: "int \<times> int"  \<comment> \<open>\<open>msg_window_start_ns_\<close> and \<open>msg_count_sec_\<close>\<close>
  cb_consec_losses :: int
  cb_realized_pnl :: double
  cb_ref_price :: double

definition cb_init :: "CircuitBreakerConfig \<Rightarrow> CircuitBreaker" where
  "cb_init cfg = \<lparr>cb_cfg = cfg, cb_sec = (0, 0), cb_min = (0, 0), cb_msg = (0, 0),
     cb_consec_losses = 0, cb_realized_pnl = 0, cb_ref_price = 0\<rparr>"

definition window_fetch :: "int \<Rightarrow> int \<Rightarrow> int \<times> int \<Rightarrow> int \<times> (int \<times> int)" where
  "window_fetch period now w =
     (let (start, cnt) = (if now - fst w \<ge> period then (now, 0) else w)
      in (cnt, (start, i32 (cnt + 1))))"

definition check_order_rate :: "int \<Rightarrow> CircuitBreaker \<Rightarrow> CircuitCheckResult \<times> CircuitBreaker" where
  "check_order_rate now cb =
     (let (sec_count, sec) = window_fetch 1000000000 now (cb_sec cb);
          cb = cb\<lparr>cb_sec := sec\<rparr>
      in if sec_count \<ge> max_orders_per_second (cb_cfg cb) then (RATE_LIMIT_SEC, cb)
         else
           let (min_count, mn) = window_fetch 60000000000 now (cb_min cb);
               cb = cb\<lparr>cb_min := mn\<rparr>
           in if min_count \<ge> max_orders_per_minute (cb_cfg cb) then (RATE_LIMIT_MIN, cb)
              else (CB_OK, cb))"

definition check_message_rate :: "int \<Rightarrow> CircuitBreaker \<Rightarrow> CircuitCheckResult \<times> CircuitBreaker" where
  "check_message_rate now cb =
     (let (count, msg) = window_fetch 1000000000 now (cb_msg cb);
          cb = cb\<lparr>cb_msg := msg\<rparr>
      in if count \<ge> max_messages_per_second (cb_cfg cb) then (MSG_RATE_LIMIT, cb) else (CB_OK, cb))"

definition check_drawdown ::
  "double \<Rightarrow> CircuitBreaker \<times> KillSwitch \<Rightarrow> CircuitCheckResult \<times> CircuitBreaker \<times> KillSwitch" where
  "check_drawdown realized_pnl s =
     (let (cb, ks) = s; cb = cb\<lparr>cb_realized_pnl := realized_pnl\<rparr>
      in if realized_pnl \<le> max_drawdown_usd (cb_cfg cb)
         then (CB_DRAWDOWN, cb, trigger DRAWDOWN ks) else (CB_OK, cb, ks))"

text \<open>\<open>BookManager::age_ms\<close>; the division of \<open>int64_t\<close> truncates.\<close>

definition book_age_ms :: "int \<Rightarrow> int \<Rightarrow> int" where
  "book_age_ms last_update_steady_ns now =
     (if last_update_steady_ns = 0 then 2 ^ 63 - 1
      else (now - last_update_steady_ns) sdiv 1000000)"

definition check_book_age ::
  "int \<Rightarrow> CircuitBreaker \<times> KillSwitch \<Rightarrow> CircuitCheckResult \<times> CircuitBreaker \<times> KillSwitch" where
  "check_book_age age s =
     (let (cb, ks) = s
      in if age > max_book_age_ms (cb_cfg cb) then (STALE_BOOK, cb, trigger BOOK_CORRUPTED ks)
         else (CB_OK, cb, ks))"

definition check_price_deviation ::
  "double \<Rightarrow> CircuitBreaker \<times> KillSwitch \<Rightarrow> CircuitCheckResult \<times> CircuitBreaker \<times> KillSwitch" where
  "check_price_deviation price s =
     (let (cb, ks) = s
      in if price \<le> 0 then (CB_OK, cb, ks)
         else
           let ref = cb_ref_price cb
           in if deq ref 0 then (CB_OK, cb\<lparr>cb_ref_price := price\<rparr>, ks)
              else
                let alpha = price_ema_alpha (cb_cfg cb);
                    new_ref = ref + alpha * (price - ref);
                    cb = cb\<lparr>cb_ref_price := new_ref\<rparr>;
                    deviation_bps = \<bar>price - ref\<bar> / ref * lit 10000
                in if deviation_bps > max_price_deviation_bps (cb_cfg cb)
                   then (FLASH_CRASH, cb, trigger CIRCUIT_BREAKER ks)
                   else (CB_OK, cb, ks))"

definition record_leg_result ::
  "double \<Rightarrow> CircuitBreaker \<times> KillSwitch \<Rightarrow> CircuitCheckResult \<times> CircuitBreaker \<times> KillSwitch" where
  "record_leg_result leg_pnl s =
     (let (cb, ks) = s
      in if leg_pnl \<le> per_leg_loss_usd (cb_cfg cb)
         then
           let n = i32 (cb_consec_losses cb + 1); cb = cb\<lparr>cb_consec_losses := n\<rparr>
           in if n \<ge> consecutive_loss_count (cb_cfg cb)
              then (CONSEC_LOSSES, cb, trigger CIRCUIT_BREAKER ks) else (CB_OK, cb, ks)
         else (CB_OK, cb\<lparr>cb_consec_losses := 0\<rparr>, ks))"

definition check_consecutive_losses :: "CircuitBreaker \<Rightarrow> CircuitCheckResult" where
  "check_consecutive_losses cb =
     (if cb_consec_losses cb \<ge> consecutive_loss_count (cb_cfg cb) then CONSEC_LOSSES else CB_OK)"

fun circuit_result_to_string :: "CircuitCheckResult \<Rightarrow> string" where
  "circuit_result_to_string CB_OK = ''OK''"
| "circuit_result_to_string RATE_LIMIT_SEC = ''RATE_LIMIT_SEC''"
| "circuit_result_to_string RATE_LIMIT_MIN = ''RATE_LIMIT_MIN''"
| "circuit_result_to_string MSG_RATE_LIMIT = ''MSG_RATE_LIMIT''"
| "circuit_result_to_string CB_DRAWDOWN = ''DRAWDOWN''"
| "circuit_result_to_string STALE_BOOK = ''STALE_BOOK''"
| "circuit_result_to_string FLASH_CRASH = ''FLASH_CRASH''"
| "circuit_result_to_string CONSEC_LOSSES = ''CONSEC_LOSSES''"

definition cb_reset_daily :: "CircuitBreaker \<Rightarrow> CircuitBreaker" where
  "cb_reset_daily cb = cb\<lparr>cb_realized_pnl := 0, cb_consec_losses := 0\<rparr>"

lemmas cb_check_defs = check_drawdown_def check_book_age_def check_price_deviation_def
  record_leg_result_def Let_def

subsection \<open>Rate windows\<close>

text \<open>How many of the calls at the given times find the counter below the limit.\<close>

fun grants :: "int \<Rightarrow> int \<Rightarrow> int \<times> int \<Rightarrow> int list \<Rightarrow> nat" where
  "grants period cap w [] = 0"
| "grants period cap w (t # ts) =
     (let (c, w') = window_fetch period t w
      in (if c < cap then 1 else 0) + grants period cap w' ts)"

lemma grants_same_window:
  "\<forall>t \<in> set ts. t < start + period \<Longrightarrow> 0 \<le> c \<Longrightarrow> c + int (length ts) < 2 ^ 31 \<Longrightarrow>
   grants period cap (start, c) ts \<le> nat (cap - c)"
proof (induction ts arbitrary: c)
  case (Cons t ts)
  have "grants period cap (start, c + 1) ts \<le> nat (cap - (c + 1))"
    using Cons.prems by (intro Cons.IH) auto
  moreover have "window_fetch period t (start, c) = (c, (start, c + 1))"
    using Cons.prems by (simp add: window_fetch_def)
  ultimately show ?case by (cases "c < cap") auto
qed simp

text \<open>An interval no longer than the period meets at most two windows.\<close>

lemma grants_interval:
  "\<forall>t \<in> set ts. a \<le> t \<and> t < a + period \<Longrightarrow> 0 \<le> c \<Longrightarrow> 0 \<le> cap \<Longrightarrow>
   c + int (length ts) < 2 ^ 31 \<Longrightarrow> grants period cap (start, c) ts \<le> nat (cap - c) + nat cap"
proof (induction ts arbitrary: c)
  case (Cons t ts)
  show ?case
  proof (cases "t - start \<ge> period")
    case True
    then have f: "window_fetch period t (start, c) = (0, (t, 1))" by (simp add: window_fetch_def)
    have "grants period cap (t, 1) ts \<le> nat (cap - 1)"
      using Cons.prems by (intro grants_same_window) auto
    then show ?thesis by (cases "0 < cap") (auto simp: f)
  next
    case False
    then have "window_fetch period t (start, c) = (c, (start, c + 1))"
      using Cons.prems by (simp add: window_fetch_def)
    moreover have "grants period cap (start, c + 1) ts \<le> nat (cap - (c + 1)) + nat cap"
      using Cons.prems by (intro Cons.IH) auto
    ultimately show ?thesis by (cases "c < cap") auto
  qed
qed simp

fun order_rate_run :: "int list \<Rightarrow> CircuitBreaker \<Rightarrow> CircuitCheckResult list \<times> CircuitBreaker" where
  "order_rate_run [] cb = ([], cb)"
| "order_rate_run (t # ts) cb =
     (let (r, cb') = check_order_rate t cb; (rs, cb'') = order_rate_run ts cb'
      in (r # rs, cb''))"

lemma check_order_rate_cfg [simp]: "cb_cfg (snd (check_order_rate t cb)) = cb_cfg cb"
  by (simp add: check_order_rate_def Let_def split: prod.splits)

lemma check_order_rate_sec:
  "cb_sec (snd (check_order_rate t cb)) = snd (window_fetch 1000000000 t (cb_sec cb))"
  by (simp add: check_order_rate_def Let_def split: prod.splits)

lemma check_order_rate_ok:
  "fst (check_order_rate t cb) = CB_OK \<Longrightarrow>
   fst (window_fetch 1000000000 t (cb_sec cb)) < max_orders_per_second (cb_cfg cb)"
  by (auto simp: check_order_rate_def Let_def split: prod.splits if_splits)

lemma order_rate_run_grants:
  "count_list (fst (order_rate_run ts cb)) CB_OK
     \<le> grants 1000000000 (max_orders_per_second (cb_cfg cb)) (cb_sec cb) ts"
proof (induction ts arbitrary: cb)
  case (Cons t ts)
  obtain r cb' where r: "check_order_rate t cb = (r, cb')" by (cases "check_order_rate t cb")
  obtain c w where w: "window_fetch 1000000000 t (cb_sec cb) = (c, w)"
    by (cases "window_fetch 1000000000 t (cb_sec cb)")
  have "cb_cfg cb' = cb_cfg cb" "cb_sec cb' = w" "r = CB_OK \<Longrightarrow> c < max_orders_per_second (cb_cfg cb)"
    using check_order_rate_cfg[of t cb] check_order_rate_sec[of t cb] check_order_rate_ok[of t cb] r w
    by simp_all
  with Cons.IH[of cb'] r w show ?case by (auto split: prod.splits)
qed simp

text \<open>
  The order rate limit: in a window of one second opened by a call (the first call more than
  a second after the last window start), at most \<open>max_orders_per_second\<close> calls are
  approved, however many are made (fewer than $2^{31}$, the range of the counter).
\<close>

theorem order_rate_per_window:
  assumes "t0 - fst (cb_sec cb) \<ge> 1000000000" and "\<forall>t \<in> set ts. t0 \<le> t \<and> t < t0 + 1000000000"
    and "length ts + 1 < 2 ^ 31" and "0 \<le> max_orders_per_second (cb_cfg cb)"
  shows "count_list (fst (order_rate_run (t0 # ts) cb)) CB_OK
           \<le> nat (max_orders_per_second (cb_cfg cb))"
proof -
  let ?cap = "max_orders_per_second (cb_cfg cb)"
  have "window_fetch 1000000000 t0 (cb_sec cb) = (0, (t0, 1))"
    using assms(1) by (simp add: window_fetch_def)
  moreover have "grants 1000000000 ?cap (t0, 1) ts \<le> nat (?cap - 1)"
    using assms(2,3) by (intro grants_same_window) auto
  ultimately have "grants 1000000000 ?cap (cb_sec cb) (t0 # ts) \<le> nat ?cap"
    by (cases "0 < ?cap") auto
  with order_rate_run_grants[of "t0 # ts" cb] show ?thesis by (rule order_trans)
qed

theorem order_rate_per_window_witness:
  "count_list (fst (order_rate_run [2000000000, 2000000001, 2000000002]
     (cb_init (mk_CircuitBreakerConfig\<lparr>max_orders_per_second := 2\<rparr>)))) CB_OK \<le> 2"
  using order_rate_per_window
    [of 2000000000 "cb_init (mk_CircuitBreakerConfig\<lparr>max_orders_per_second := 2\<rparr>)" "[2000000001, 2000000002]"]
  by (simp add: cb_init_def mk_CircuitBreakerConfig_def del: order_rate_run.simps)

text \<open>
  The limit over any second, wherever it starts: the windows are fixed, not sliding, so an
  arbitrary interval of one second may see the end of one window and the start of the next
  and approve at most twice \<open>max_orders_per_second\<close> calls; it never approves more.
\<close>

theorem order_rate_any_second:
  assumes "\<forall>t \<in> set ts. a \<le> t \<and> t < a + 1000000000" and "0 \<le> snd (cb_sec cb)"
    and "snd (cb_sec cb) + int (length ts) < 2 ^ 31" and "0 \<le> max_orders_per_second (cb_cfg cb)"
  shows "count_list (fst (order_rate_run ts cb)) CB_OK \<le> 2 * nat (max_orders_per_second (cb_cfg cb))"
proof -
  obtain start c where w: "cb_sec cb = (start, c)" by (cases "cb_sec cb")
  let ?cap = "max_orders_per_second (cb_cfg cb)"
  have "grants 1000000000 ?cap (start, c) ts \<le> nat (?cap - c) + nat ?cap"
    using assms w by (intro grants_interval) auto
  also have "\<dots> \<le> 2 * nat ?cap" using assms(2) w by simp
  finally show ?thesis using order_rate_run_grants[of ts cb] w by simp
qed

text \<open>The bound is reached: four approvals within two nanoseconds under a limit of two.\<close>

theorem order_rate_any_second_witness:
  "count_list (fst (order_rate_run [1999999999, 1999999999, 2000000000, 2000000000]
     (cb_init (mk_CircuitBreakerConfig\<lparr>max_orders_per_second := 2\<rparr>)\<lparr>cb_sec := (1000000000, 0)\<rparr>))) CB_OK = 4"
proof -
  let ?cb = "cb_init (mk_CircuitBreakerConfig\<lparr>max_orders_per_second := 2\<rparr>)\<lparr>cb_sec := (1000000000, 0)\<rparr>"
  let ?ts = "[1999999999, 1999999999, 2000000000, 2000000000]"
  have "count_list (fst (order_rate_run ?ts ?cb)) CB_OK \<le> 4"
    using order_rate_any_second[of ?ts 1999999999 ?cb]
    by (simp add: cb_init_def mk_CircuitBreakerConfig_def del: order_rate_run.simps)
  moreover have "4 \<le> count_list (fst (order_rate_run ?ts ?cb)) CB_OK"
    by (simp add: cb_init_def mk_CircuitBreakerConfig_def check_order_rate_def window_fetch_def)
  ultimately show ?thesis by (rule order_antisym)
qed

subsection \<open>Losses, drawdown and price jumps\<close>

lemma cb_checks_halt:
  "ks.halts ks (snd (snd (check_drawdown p (cb, ks))))"
  "ks.halts ks (snd (snd (check_book_age age (cb, ks))))"
  "ks.halts ks (snd (snd (check_price_deviation p (cb, ks))))"
  "ks.halts ks (snd (snd (record_leg_result p (cb, ks))))"
  by (auto simp: cb_check_defs)

fun record_legs :: "double list \<Rightarrow> CircuitBreaker \<times> KillSwitch \<Rightarrow> CircuitBreaker \<times> KillSwitch" where
  "record_legs [] s = s"
| "record_legs (p # ps) s = record_legs ps (snd (record_leg_result p s))"

lemma record_legs_latch: "ks_active (snd s) \<Longrightarrow> ks_active (snd (record_legs ps s))"
proof (induction ps arbitrary: s)
  case (Cons p ps)
  then show ?case using ks.halts_active[OF cb_checks_halt(4)[of "snd s" p "fst s"]]
    by simp
qed simp

lemma record_legs_losses:
  "\<forall>p \<in> set ps. p \<le> per_leg_loss_usd (cb_cfg cb) \<Longrightarrow> 0 \<le> cb_consec_losses cb \<Longrightarrow>
   cb_consec_losses cb + int (length ps) < 2 ^ 31 \<Longrightarrow>
   ps \<noteq> [] \<Longrightarrow> consecutive_loss_count (cb_cfg cb) \<le> cb_consec_losses cb + int (length ps) \<Longrightarrow>
   ks_active (snd (record_legs ps (cb, ks)))"
proof (induction ps arbitrary: cb ks)
  case (Cons p ps)
  let ?cb = "cb\<lparr>cb_consec_losses := cb_consec_losses cb + 1\<rparr>"
  show ?case
  proof (cases "consecutive_loss_count (cb_cfg cb) \<le> cb_consec_losses cb + 1")
    case True
    then have "ks_active (snd (snd (record_leg_result p (cb, ks))))"
      using Cons.prems by (simp add: record_leg_result_def Let_def)
    then show ?thesis by (simp add: record_legs_latch)
  next
    case False
    then have "record_leg_result p (cb, ks) = (CB_OK, ?cb, ks)"
      using Cons.prems by (simp add: record_leg_result_def Let_def)
    moreover have "ps \<noteq> []" using False Cons.prems by auto
    ultimately show ?thesis using Cons.IH[of ?cb ks] Cons.prems by simp
  qed
qed simp

text \<open>
  Consecutive losses: a run of \<open>consecutive_loss_count\<close> losing legs without a winning one
  in between, started from any counter value, leaves the kill switch active.
\<close>

theorem consecutive_losses_halt:
  assumes "\<forall>p \<in> set ps. p \<le> per_leg_loss_usd (cb_cfg cb)" and "0 \<le> cb_consec_losses cb"
    and "cb_consec_losses cb + int (length ps) < 2 ^ 31"
    and "int (length ps) = consecutive_loss_count (cb_cfg cb)" and "ps \<noteq> []"
  shows "ks_active (snd (record_legs ps (cb, ks)))"
  using assms by (intro record_legs_losses) auto

theorem consecutive_losses_halt_witness:
  "ks_active (snd (record_legs (replicate 5 (- Fin 60)) (cb_init mk_CircuitBreakerConfig, ks_init 0 1)))"
proof (rule consecutive_losses_halt)
  have "- Fin 60 \<le> per_leg_loss_usd (cb_cfg (cb_init mk_CircuitBreakerConfig))"
    by code_simp
  then show "\<forall>p \<in> set (replicate 5 (- Fin 60)). p \<le> per_leg_loss_usd (cb_cfg (cb_init mk_CircuitBreakerConfig))"
    by simp
qed (simp_all add: cb_init_def mk_CircuitBreakerConfig_def)

fun deviation_run :: "double list \<Rightarrow> CircuitBreaker \<times> KillSwitch \<Rightarrow> CircuitBreaker \<times> KillSwitch" where
  "deviation_run [] s = s"
| "deviation_run (p # ps) s = deviation_run ps (snd (check_price_deviation p s))"

lemma nan_ref_stays:
  "cb_ref_price cb = NaN \<Longrightarrow>
   check_price_deviation p (cb, ks) = (CB_OK, cb, ks)"
  by (simp add: check_price_deviation_def Let_def)

text \<open>
  One NaN price disarms the flash crash guard for good: the guard lets a NaN through (it
  is not \<open>\<le> 0\<close>), the moving reference becomes NaN, and from then on no price, however far
  off, is ever flagged and the kill switch is never triggered by this check.
\<close>

theorem nan_disarms_flash_crash:
  "snd (deviation_run (NaN # ps) (cb, ks)) = ks \<and>
   fst (check_price_deviation p (deviation_run (NaN # ps) (cb, ks))) = CB_OK"
proof -
  have d: "cb_ref_price c = NaN \<Longrightarrow> deviation_run qs (c, ks) = (c, ks)" for c qs
    by (induction qs) (simp_all add: nan_ref_stays)
  obtain c where "check_price_deviation NaN (cb, ks) = (CB_OK, c, ks)" "cb_ref_price c = NaN"
    by (simp add: check_price_deviation_def Let_def)
  then show ?thesis by (simp add: d nan_ref_stays)
qed

end
