(* ===== verification/Global_Risk.thy ===== *)
theory Global_Risk
  imports Kill_Switch
begin

text \<open>
  \<^verbatim>\<open>core/risk/global_risk_controls.hpp\<close>: the portfolio caps. A null symbol takes the branch of
  the empty one and is the empty string here; the atomic doubles are fields; \<open>atomic_add\<close> is
  an addition. The search loops run over the first \<open>next_slot_\<close> slots of an array of 32, and
  nothing keeps \<open>next_slot_\<close> within the array: an access beyond it is the value
  \<open>Inl Out_Of_Bounds\<close>. The number of futures symbol limits is at most the 16 of its array, as
  \<^verbatim>\<open>core/risk/risk_config_loader.hpp\<close> sets it.
\<close>

datatype undef = Out_Of_Bounds

record GlobalRiskConfig =
  max_gross_notional :: double
  max_net_notional :: double
  max_symbol_concentration :: double
  max_venue_notional :: double
  max_cross_venue_net_notional :: double
  kill_on_breach :: bool

record FuturesRiskGateConfig =
  fg_enabled :: bool
  max_projected_funding_cost_bps :: double
  funding_cost_scale_start_bps :: double
  min_funding_scale :: double
  max_mark_index_divergence_bps :: double
  max_maintenance_margin_ratio :: double
  default_max_leverage :: double
  symbol_limits :: "(string \<times> double) list"
  symbol_limit_count :: nat

definition mk_FuturesRiskGateConfig :: FuturesRiskGateConfig where
  "mk_FuturesRiskGateConfig = \<lparr>fg_enabled = False, max_projected_funding_cost_bps = 0,
     funding_cost_scale_start_bps = 0, min_funding_scale = 1, max_mark_index_divergence_bps = 0,
     max_maintenance_margin_ratio = 0, default_max_leverage = 0,
     symbol_limits = replicate 16 ([], 0), symbol_limit_count = 0\<rparr>"

record FuturesRiskContext =
  collateral_notional :: double
  current_abs_notional :: double
  maintenance_margin_ratio :: double
  mark_price :: double
  index_price :: double
  funding_rate_bps :: double
  hours_to_funding :: double

datatype GlobalRiskCheckResult = GR_OK | INVALID_INPUT | GROSS_NOTIONAL_CAP | NET_NOTIONAL_CAP
  | CONCENTRATION_CAP | VENUE_CAP | CROSS_VENUE_NETTING_CAP | FUTURES_LEVERAGE_CAP
  | FUTURES_MAINTENANCE_MARGIN_CAP | FUTURES_MARK_INDEX_DIVERGENCE_CAP | FUTURES_FUNDING_COST_CAP

fun risk_result_to_string :: "GlobalRiskCheckResult \<Rightarrow> string" where
  "risk_result_to_string GR_OK = ''OK''"
| "risk_result_to_string INVALID_INPUT = ''INVALID_INPUT''"
| "risk_result_to_string GROSS_NOTIONAL_CAP = ''GROSS_NOTIONAL_CAP''"
| "risk_result_to_string NET_NOTIONAL_CAP = ''NET_NOTIONAL_CAP''"
| "risk_result_to_string CONCENTRATION_CAP = ''CONCENTRATION_CAP''"
| "risk_result_to_string VENUE_CAP = ''VENUE_CAP''"
| "risk_result_to_string CROSS_VENUE_NETTING_CAP = ''CROSS_VENUE_NETTING_CAP''"
| "risk_result_to_string FUTURES_LEVERAGE_CAP = ''FUTURES_LEVERAGE_CAP''"
| "risk_result_to_string FUTURES_MAINTENANCE_MARGIN_CAP = ''FUTURES_MAINTENANCE_MARGIN_CAP''"
| "risk_result_to_string FUTURES_MARK_INDEX_DIVERGENCE_CAP = ''FUTURES_MARK_INDEX_DIVERGENCE_CAP''"
| "risk_result_to_string FUTURES_FUNDING_COST_CAP = ''FUTURES_FUNDING_COST_CAP''"

record SymbolState =
  ss_active :: bool
  ss_symbol :: string
  ss_gross_notional :: double
  ss_net_notional :: double

record GlobalRisk =
  gr_cfg :: GlobalRiskConfig
  gr_futures_cfg :: FuturesRiskGateConfig
  gr_gross_notional :: double
  gr_net_notional :: double
  gr_venue_gross_notional :: "double list"
  gr_symbol_states :: "SymbolState list"
  gr_next_slot :: nat

definition MAX_SYMBOLS :: nat where "MAX_SYMBOLS = 32"

definition mk_SymbolState :: SymbolState where
  "mk_SymbolState = \<lparr>ss_active = False, ss_symbol = [], ss_gross_notional = 0, ss_net_notional = 0\<rparr>"

definition gr_init :: "GlobalRiskConfig \<Rightarrow> FuturesRiskGateConfig \<Rightarrow> GlobalRisk" where
  "gr_init cfg futures_cfg = \<lparr>gr_cfg = cfg, gr_futures_cfg = futures_cfg, gr_gross_notional = 0,
     gr_net_notional = 0, gr_venue_gross_notional = replicate 4 0,
     gr_symbol_states = replicate MAX_SYMBOLS mk_SymbolState, gr_next_slot = 0\<rparr>"

fun venue_index :: "Exchange \<Rightarrow> int" where
  "venue_index BINANCE = 0"
| "venue_index OKX = 1"
| "venue_index COINBASE = 2"
| "venue_index KRAKEN = 3"
| "venue_index UNKNOWN = -1"

definition find_symbol :: "string \<Rightarrow> GlobalRisk \<Rightarrow> undef + nat option" where
  "find_symbol symbol gr =
     (case find_slot (\<lambda>st. ss_active st \<and> strncmp_eq 16 (ss_symbol st) symbol)
             (take (gr_next_slot gr) (gr_symbol_states gr)) of
        Some i \<Rightarrow> Inr (Some i)
      | None \<Rightarrow> if gr_next_slot gr > length (gr_symbol_states gr) then Inl Out_Of_Bounds else Inr None)"

definition check_order :: "Exchange \<Rightarrow> string \<Rightarrow> double \<Rightarrow> GlobalRisk \<Rightarrow> undef + GlobalRiskCheckResult" where
  "check_order exchange symbol signed_notional gr =
     (if symbol = [] \<or> \<not> isfinite signed_notional \<or> deq signed_notional 0 then Inr INVALID_INPUT
      else
        let cfg = gr_cfg gr;
            abs_notional = \<bar>signed_notional\<bar>;
            gross_after = gr_gross_notional gr + abs_notional;
            net_after = gr_net_notional gr + signed_notional;
            venue_idx = venue_index exchange
        in if max_gross_notional cfg > 0 \<and> gross_after > max_gross_notional cfg then Inr GROSS_NOTIONAL_CAP
        else if max_net_notional cfg > 0 \<and> \<bar>net_after\<bar> > max_net_notional cfg then Inr NET_NOTIONAL_CAP
        else if venue_idx < 0 then Inr INVALID_INPUT
        else
          let venue_after = gr_venue_gross_notional gr ! nat venue_idx + abs_notional
          in if max_venue_notional cfg > 0 \<and> venue_after > max_venue_notional cfg then Inr VENUE_CAP
          else
            (case find_symbol symbol gr of
               Inl u \<Rightarrow> Inl u
             | Inr st \<Rightarrow>
                 let symbol_gross_before = (case st of Some i \<Rightarrow> ss_gross_notional (gr_symbol_states gr ! i) | None \<Rightarrow> 0);
                     symbol_gross_after = symbol_gross_before + abs_notional;
                     symbol_net_after =
                       (case st of Some i \<Rightarrow> ss_net_notional (gr_symbol_states gr ! i) | None \<Rightarrow> 0) + signed_notional;
                     other_symbol_gross_before = gr_gross_notional gr - symbol_gross_before
                 in if max_symbol_concentration cfg > 0 \<and> other_symbol_gross_before > 0 \<and> gross_after > 0 \<and>
                       symbol_gross_after / gross_after > max_symbol_concentration cfg
                    then Inr CONCENTRATION_CAP
                    else if max_cross_venue_net_notional cfg > 0 \<and> symbol_gross_before > 0 \<and>
                       \<bar>symbol_net_after\<bar> > max_cross_venue_net_notional cfg
                    then Inr CROSS_VENUE_NETTING_CAP
                    else Inr GR_OK))"

definition get_or_create_symbol :: "string \<Rightarrow> GlobalRisk \<Rightarrow> undef + (nat option \<times> GlobalRisk)" where
  "get_or_create_symbol symbol gr =
     (case find_symbol symbol gr of
        Inl u \<Rightarrow> Inl u
      | Inr (Some i) \<Rightarrow> Inr (Some i, gr)
      | Inr None \<Rightarrow>
          let idx = gr_next_slot gr; gr = gr\<lparr>gr_next_slot := idx + 1\<rparr>
          in if idx \<ge> MAX_SYMBOLS then Inr (None, gr)
             else Inr (Some idx, gr\<lparr>gr_symbol_states := (gr_symbol_states gr)
                    [idx := (gr_symbol_states gr ! idx)\<lparr>ss_symbol := buf_copy 16 symbol, ss_active := True\<rparr>]\<rparr>))"

definition book_notional :: "Exchange \<Rightarrow> double \<Rightarrow> nat \<Rightarrow> GlobalRisk \<Rightarrow> GlobalRisk" where
  "book_notional exchange signed_notional i gr =
     (let abs_notional = \<bar>signed_notional\<bar>;
          venue_idx = nat (venue_index exchange);
          st = gr_symbol_states gr ! i
      in gr\<lparr>
           gr_gross_notional := gr_gross_notional gr + abs_notional,
           gr_net_notional := gr_net_notional gr + signed_notional,
           gr_venue_gross_notional := (gr_venue_gross_notional gr)
             [venue_idx := gr_venue_gross_notional gr ! venue_idx + abs_notional],
           gr_symbol_states := (gr_symbol_states gr)
             [i := st\<lparr>ss_gross_notional := ss_gross_notional st + abs_notional,
                     ss_net_notional := ss_net_notional st + signed_notional\<rparr>]\<rparr>)"

definition commit_order ::
  "Exchange \<Rightarrow> string \<Rightarrow> double \<Rightarrow> GlobalRisk \<times> KillSwitch
     \<Rightarrow> undef + (GlobalRiskCheckResult \<times> GlobalRisk \<times> KillSwitch)" where
  "commit_order exchange symbol signed_notional s =
     (let (gr, ks) = s in
      case check_order exchange symbol signed_notional gr of
        Inl u \<Rightarrow> Inl u
      | Inr check \<Rightarrow>
          if check \<noteq> GR_OK
          then Inr (check, gr, if kill_on_breach (gr_cfg gr) then trigger KillReason.CIRCUIT_BREAKER ks else ks)
          else
            (case get_or_create_symbol symbol gr of
               Inl u \<Rightarrow> Inl u
             | Inr (None, gr) \<Rightarrow> Inr (INVALID_INPUT, gr, ks)
             | Inr (Some i, gr) \<Rightarrow>
                 Inr (GR_OK, book_notional exchange signed_notional i gr, ks)))"

subsection \<open>The futures gate\<close>

definition max_leverage_for_symbol :: "string \<Rightarrow> FuturesRiskGateConfig \<Rightarrow> double" where
  "max_leverage_for_symbol symbol f =
     (let limits = take (symbol_limit_count f) (symbol_limits f)
      in case find_slot (\<lambda>l. strncmp_eq 16 (fst l) symbol) limits of
           Some i \<Rightarrow> snd (limits ! i)
         | None \<Rightarrow> default_max_leverage f)"

definition futures_context_ok :: "FuturesRiskContext \<Rightarrow> bool" where
  "futures_context_ok c \<longleftrightarrow> \<not> (
     \<not> isfinite (collateral_notional c) \<or> collateral_notional c \<le> 0 \<or>
     \<not> isfinite (current_abs_notional c) \<or> current_abs_notional c < 0 \<or>
     \<not> isfinite (mark_price c) \<or> mark_price c \<le> 0 \<or> \<not> isfinite (index_price c) \<or>
     index_price c \<le> 0 \<or> \<not> isfinite (maintenance_margin_ratio c) \<or>
     maintenance_margin_ratio c < 0 \<or> \<not> isfinite (funding_rate_bps c) \<or>
     \<not> isfinite (hours_to_funding c) \<or> hours_to_funding c < 0)"

definition check_futures_gate ::
  "string \<Rightarrow> double \<Rightarrow> FuturesRiskContext \<Rightarrow> FuturesRiskGateConfig \<Rightarrow> double \<Rightarrow> GlobalRiskCheckResult \<times> double" where
  "check_futures_gate symbol signed_notional ctx f scaled_notional =
     (if \<not> fg_enabled f then (GR_OK, scaled_notional)
      else if symbol = [] then (INVALID_INPUT, scaled_notional)
      else if \<not> futures_context_ok ctx then (INVALID_INPUT, scaled_notional)
      else if max_maintenance_margin_ratio f > 0 \<and>
        maintenance_margin_ratio ctx > max_maintenance_margin_ratio f
      then (FUTURES_MAINTENANCE_MARGIN_CAP, scaled_notional)
      else if max_mark_index_divergence_bps f > 0 \<and>
        \<bar>mark_price ctx - index_price ctx\<bar> / index_price ctx * lit 10000 > max_mark_index_divergence_bps f
      then (FUTURES_MARK_INDEX_DIVERGENCE_CAP, scaled_notional)
      else
        let max_leverage = max_leverage_for_symbol symbol f;
            projected_leverage = (current_abs_notional ctx + \<bar>signed_notional\<bar>) / collateral_notional ctx;
            projected_funding_cost_bps = \<bar>funding_rate_bps ctx\<bar> * (hours_to_funding ctx / lit 8)
        in if max_leverage > 0 \<and> projected_leverage > max_leverage
           then (FUTURES_LEVERAGE_CAP, scaled_notional)
           else if max_projected_funding_cost_bps f > 0 \<and>
             projected_funding_cost_bps > max_projected_funding_cost_bps f
           then (FUTURES_FUNDING_COST_CAP, scaled_notional)
           else if funding_cost_scale_start_bps f > 0 \<and>
             max_projected_funding_cost_bps f > funding_cost_scale_start_bps f \<and>
             projected_funding_cost_bps > funding_cost_scale_start_bps f
           then
             let span = max_projected_funding_cost_bps f - funding_cost_scale_start_bps f;
                 t = std_clamp ((projected_funding_cost_bps - funding_cost_scale_start_bps f) / span) 0 1;
                 scale = 1 - t * (1 - min_funding_scale f)
             in (GR_OK, signed_notional * std_clamp scale (min_funding_scale f) 1)
           else (GR_OK, scaled_notional))"

definition check_futures_order ::
  "Exchange \<Rightarrow> string \<Rightarrow> double \<Rightarrow> FuturesRiskContext \<Rightarrow> GlobalRisk \<Rightarrow> undef + (GlobalRiskCheckResult \<times> double)" where
  "check_futures_order exchange symbol signed_notional ctx gr =
     (let (gate, scaled_notional) =
            check_futures_gate symbol signed_notional ctx (gr_futures_cfg gr) signed_notional
      in if gate \<noteq> GR_OK then Inr (gate, scaled_notional)
         else map_sum id (\<lambda>r. (r, scaled_notional)) (check_order exchange symbol scaled_notional gr))"

definition commit_futures_order ::
  "Exchange \<Rightarrow> string \<Rightarrow> double \<Rightarrow> FuturesRiskContext \<Rightarrow> GlobalRisk \<times> KillSwitch
     \<Rightarrow> undef + ((GlobalRiskCheckResult \<times> GlobalRisk \<times> KillSwitch) \<times> double)" where
  "commit_futures_order exchange symbol signed_notional ctx s =
     (let (gr, ks) = s in
      case check_futures_order exchange symbol signed_notional ctx gr of
        Inl u \<Rightarrow> Inl u
      | Inr (check, scaled_notional) \<Rightarrow>
          if check \<noteq> GR_OK
          then Inr ((check, gr, if kill_on_breach (gr_cfg gr) then trigger KillReason.CIRCUIT_BREAKER ks else ks),
                    scaled_notional)
          else map_sum id (\<lambda>r. (r, scaled_notional)) (commit_order exchange symbol scaled_notional (gr, ks)))"

subsection \<open>The caps\<close>

lemma check_order_OK:
  assumes "check_order e sy n gr = Inr GR_OK"
  shows "sy \<noteq> []" "isfinite n" "\<not> deq n 0" "0 \<le> venue_index e"
    "max_gross_notional (gr_cfg gr) > 0 \<Longrightarrow> \<not> gr_gross_notional gr + \<bar>n\<bar> > max_gross_notional (gr_cfg gr)"
    "max_net_notional (gr_cfg gr) > 0 \<Longrightarrow> \<not> \<bar>gr_net_notional gr + n\<bar> > max_net_notional (gr_cfg gr)"
    "max_venue_notional (gr_cfg gr) > 0 \<Longrightarrow>
       \<not> gr_venue_gross_notional gr ! nat (venue_index e) + \<bar>n\<bar> > max_venue_notional (gr_cfg gr)"
    "\<exists>st. find_symbol sy gr = Inr st"
  using assms unfolding check_order_def Let_def by (simp_all split: if_splits sum.splits)

lemma get_or_create_frame:
  "get_or_create_symbol sy gr = Inr (st, gr') \<Longrightarrow>
   gr_cfg gr' = gr_cfg gr \<and> gr_gross_notional gr' = gr_gross_notional gr \<and>
   gr_net_notional gr' = gr_net_notional gr \<and> gr_venue_gross_notional gr' = gr_venue_gross_notional gr"
  by (auto simp: get_or_create_symbol_def Let_def split: sum.splits option.splits if_splits)

lemma commit_order_cases:
  assumes "commit_order e sy n (gr, ks) = Inr (r, gr', ks')"
  obtains (breach) "check_order e sy n gr = Inr r" "r \<noteq> GR_OK" "gr' = gr"
      "ks' = (if kill_on_breach (gr_cfg gr) then trigger KillReason.CIRCUIT_BREAKER ks else ks)"
  | (full) "check_order e sy n gr = Inr GR_OK" "get_or_create_symbol sy gr = Inr (None, gr')"
      "r = INVALID_INPUT" "ks' = ks"
  | (booked) i gr1 where "check_order e sy n gr = Inr GR_OK" "get_or_create_symbol sy gr = Inr (Some i, gr1)"
      "r = GR_OK" "ks' = ks" "gr' = book_notional e n i gr1"
proof -
  from assms obtain c where c: "check_order e sy n gr = Inr c"
    by (cases "check_order e sy n gr") (simp_all add: commit_order_def)
  show ?thesis
  proof (cases "c = GR_OK")
    case False
    with c assms have "r = c" "gr' = gr"
      "ks' = (if kill_on_breach (gr_cfg gr) then trigger KillReason.CIRCUIT_BREAKER ks else ks)"
      by (auto simp: commit_order_def)
    with breach c False show ?thesis by blast
  next
    case True
    with c assms obtain st gr1 where g: "get_or_create_symbol sy gr = Inr (st, gr1)"
      by (cases "get_or_create_symbol sy gr") (auto simp: commit_order_def)
    show ?thesis
    proof (cases st)
      case None
      with c True g assms full show ?thesis by (simp add: commit_order_def)
    next
      case (Some i)
      with c True g assms have "r = GR_OK" "ks' = ks" "gr' = book_notional e n i gr1"
        by (simp_all add: commit_order_def)
      with booked c True g Some show ?thesis by blast
    qed
  qed
qed

lemma book_notional_simps [simp]:
  "gr_cfg (book_notional e n i gr) = gr_cfg gr"
  "gr_gross_notional (book_notional e n i gr) = gr_gross_notional gr + \<bar>n\<bar>"
  "gr_net_notional (book_notional e n i gr) = gr_net_notional gr + n"
  "gr_next_slot (book_notional e n i gr) = gr_next_slot gr"
  "gr_venue_gross_notional (book_notional e n i gr) = (gr_venue_gross_notional gr)
     [nat (venue_index e) := gr_venue_gross_notional gr ! nat (venue_index e) + \<bar>n\<bar>]"
  by (simp_all add: book_notional_def Let_def)

definition caps_hold :: "GlobalRisk \<Rightarrow> bool" where
  "caps_hold gr \<longleftrightarrow> (let cfg = gr_cfg gr in
     (max_gross_notional cfg > 0 \<longrightarrow> gr_gross_notional gr \<le> max_gross_notional cfg) \<and>
     (max_net_notional cfg > 0 \<longrightarrow> \<bar>gr_net_notional gr\<bar> \<le> max_net_notional cfg) \<and>
     (max_venue_notional cfg > 0 \<longrightarrow> (\<forall>v \<in> set (gr_venue_gross_notional gr). v \<le> max_venue_notional cfg)))"

definition notionals_ok :: "GlobalRisk \<Rightarrow> bool" where
  "notionals_ok gr \<longleftrightarrow> 0 \<le> gr_gross_notional gr \<and> \<not> isnan (gr_net_notional gr) \<and>
     length (gr_venue_gross_notional gr) = 4 \<and> (\<forall>v \<in> set (gr_venue_gross_notional gr). 0 \<le> v)"

lemma venue_index_less: "nat (venue_index e) < 4"
  by (cases e) auto

lemma add_abs_not_greater:
  assumes "0 \<le> a" "isfinite n" "c > 0" "\<not> a + \<bar>n\<bar> > (c :: double)" shows "a + \<bar>n\<bar> \<le> c"
proof -
  have "\<not> isnan (a + \<bar>n\<bar>)" using assms(1,2) by (intro nonneg_add_not_nan) auto
  moreover have "\<not> isnan c" using assms(3) by (auto dest: less_nanD)
  ultimately show ?thesis using assms(4) dbl_not_less by blast
qed

lemma commit_order_ok:
  assumes c: "commit_order e sy n (gr, ks) = Inr (r, gr', ks')"
    and inv: "notionals_ok gr" "caps_hold gr"
  shows "notionals_ok gr' \<and> caps_hold gr' \<and> gr_cfg gr' = gr_cfg gr"
  using c
proof (cases rule: commit_order_cases)
  case breach
  then show ?thesis using inv by simp
next
  case full
  then show ?thesis using inv get_or_create_frame[OF full(2)]
    by (simp add: notionals_ok_def caps_hold_def Let_def)
next
  case (booked i gr1)
  note ok = check_order_OK[OF booked(1)]
  note fr = get_or_create_frame[OF booked(2)]
  let ?v = "gr_venue_gross_notional gr ! nat (venue_index e)"
  have v: "?v \<in> set (gr_venue_gross_notional gr)"
    using inv(1) venue_index_less by (simp add: notionals_ok_def)
  then have v0: "0 \<le> ?v" using inv(1) by (auto simp: notionals_ok_def)
  have set: "set (gr_venue_gross_notional gr') \<subseteq> insert (?v + \<bar>n\<bar>) (set (gr_venue_gross_notional gr))"
    using booked(5) fr by (simp add: set_update_subset_insert)
  have n: "notionals_ok gr'"
    using inv(1) v0 ok(2) set booked(5) fr
    by (auto simp: notionals_ok_def finite_add_nan intro!: add_nonneg)
  have net: "max_net_notional (gr_cfg gr) > 0 \<Longrightarrow> \<bar>gr_net_notional gr + n\<bar> \<le> max_net_notional (gr_cfg gr)"
    using ok(6) inv(1) ok(2) finite_add_nan[of "gr_net_notional gr" n]
      dbl_not_less[of "max_net_notional (gr_cfg gr)" "\<bar>gr_net_notional gr + n\<bar>"]
    by (auto simp: notionals_ok_def dest: less_nanD)
  have "caps_hold gr'"
    using inv ok(5,7) ok(2) v0 set booked(5) fr net
    by (auto simp: caps_hold_def notionals_ok_def Let_def intro!: add_abs_not_greater)
  with n booked(5) fr show ?thesis by simp
qed

fun commit_orders ::
  "(Exchange \<times> string \<times> double) list \<Rightarrow> GlobalRisk \<times> KillSwitch \<Rightarrow> undef + (GlobalRisk \<times> KillSwitch)" where
  "commit_orders [] s = Inr s"
| "commit_orders ((e, sy, n) # xs) s =
     (case commit_order e sy n s of Inl u \<Rightarrow> Inl u | Inr (_, s') \<Rightarrow> commit_orders xs s')"

lemma commit_orders_ok:
  "commit_orders xs (gr, ks) = Inr (gr', ks') \<Longrightarrow> notionals_ok gr \<Longrightarrow> caps_hold gr \<Longrightarrow>
   notionals_ok gr' \<and> caps_hold gr' \<and> gr_cfg gr' = gr_cfg gr"
proof (induction xs arbitrary: gr ks)
  case (Cons x xs)
  obtain e sy n where x: "x = (e, sy, n)" by (cases x)
  with Cons.prems(1) obtain r gr1 ks1 where "commit_order e sy n (gr, ks) = Inr (r, gr1, ks1)"
    "commit_orders xs (gr1, ks1) = Inr (gr', ks')"
    by (auto split: sum.splits)
  with commit_order_ok[OF this(1) Cons.prems(2,3)] Cons.IH show ?case by metis
qed simp

lemma gr_init_ok: "notionals_ok (gr_init cfg f)" "caps_hold (gr_init cfg f)"
  by (auto simp: notionals_ok_def caps_hold_def gr_init_def Let_def dbl_ord_defs abs_double_def zero_double_def)

text \<open>
  C1. The portfolio caps: after any sequence of committed orders from start-up, whatever was
  accepted or rejected on the way and whatever the rounding did, the gross, net and per-venue
  notionals are within every cap that is configured (positive).
\<close>

theorem global_caps_hold:
  assumes "commit_orders xs (gr_init cfg f, ks) = Inr (gr, ks')"
  shows "(max_gross_notional cfg > 0 \<longrightarrow> gr_gross_notional gr \<le> max_gross_notional cfg) \<and>
    (max_net_notional cfg > 0 \<longrightarrow> \<bar>gr_net_notional gr\<bar> \<le> max_net_notional cfg) \<and>
    (max_venue_notional cfg > 0 \<longrightarrow>
       (\<forall>v \<in> set (gr_venue_gross_notional gr). v \<le> max_venue_notional cfg))"
  using commit_orders_ok[OF assms gr_init_ok]
  by (auto simp: caps_hold_def Let_def gr_init_def)

definition cfg_sample :: GlobalRiskConfig where
  "cfg_sample = \<lparr>max_gross_notional = Fin 100, max_net_notional = Fin 60, max_symbol_concentration = 0,
     max_venue_notional = Fin 80, max_cross_venue_net_notional = 0, kill_on_breach = True\<rparr>"


theorem global_caps_hold_witness:
  "\<exists>gr ks'. commit_orders [(BINANCE, ''BTC'', Fin 50), (OKX, ''ETH'', Fin 40), (OKX, ''ETH'', - Fin 40)]
       (gr_init cfg_sample mk_FuturesRiskGateConfig, ks_init 0 1) = Inr (gr, ks') \<and>
     gr_gross_notional gr = Fin 90 \<and> gr_gross_notional gr \<le> Fin 100 \<and> ks_active ks'"
proof -
  let ?r = "commit_orders [(BINANCE, ''BTC'', Fin 50), (OKX, ''ETH'', Fin 40), (OKX, ''ETH'', - Fin 40)]
       (gr_init cfg_sample mk_FuturesRiskGateConfig, ks_init 0 1)"
  have v: "(case ?r of Inl _ \<Rightarrow> False | Inr (gr, ks') \<Rightarrow> gr_gross_notional gr = Fin 90 \<and> ks_active ks')"
    by code_simp
  then obtain gr ks' where r: "?r = Inr (gr, ks')" by (cases ?r) auto
  have "gr_gross_notional gr \<le> max_gross_notional cfg_sample"
    using global_caps_hold[OF r] by (simp add: cfg_sample_def dbl_ord_defs zero_double_def)
  then show ?thesis using r v by (simp add: cfg_sample_def)
qed

subsection \<open>The symbol table\<close>

text \<open>
  The table as a map from symbols of at most 15 characters, the longest a slot can hold, to
  the gross and net notional booked on them.
\<close>

definition symbol_book :: "GlobalRisk \<Rightarrow> string \<Rightarrow> (double \<times> double) option" where
  "symbol_book gr sy = map_option (\<lambda>st. (ss_gross_notional st, ss_net_notional st))
     (key_map ss_active ss_symbol (gr_symbol_states gr) sy)"

definition symbols_ok :: "GlobalRisk \<Rightarrow> bool" where
  "symbols_ok gr \<longleftrightarrow> length (gr_symbol_states gr) = MAX_SYMBOLS \<and> gr_next_slot gr \<le> MAX_SYMBOLS \<and>
     (\<forall>i < MAX_SYMBOLS. ss_active (gr_symbol_states gr ! i) \<longleftrightarrow> i < gr_next_slot gr) \<and>
     (\<forall>st \<in> set (gr_symbol_states gr). length (ss_symbol st) < 16) \<and>
     (\<forall>i < MAX_SYMBOLS. gr_next_slot gr \<le> i \<longrightarrow>
        ss_gross_notional (gr_symbol_states gr ! i) = 0 \<and> ss_net_notional (gr_symbol_states gr ! i) = 0) \<and>
     unique_keys ss_active ss_symbol (gr_symbol_states gr)"

lemma find_slot_take:
  "(\<And>i. n \<le> i \<Longrightarrow> i < length xs \<Longrightarrow> \<not> P (xs ! i)) \<Longrightarrow> find_slot P (take n xs) = find_slot P xs"
proof (induction xs arbitrary: n)
  case (Cons x xs)
  show ?case
  proof (cases n)
    case 0
    with Cons.prems have "\<forall>y \<in> set (x # xs). \<not> P y" by (metis in_set_conv_nth le0)
    with 0 show ?thesis by (simp add: find_slot_None[THEN iffD2])
  next
    case (Suc m)
    have "find_slot P (take m xs) = find_slot P xs"
      using Cons.prems[of "Suc i" for i] Suc by (intro Cons.IH) simp
    with Suc show ?thesis by simp
  qed
qed simp

lemma find_symbol_ok:
  assumes "symbols_ok gr" "length sy < 16"
  shows "find_symbol sy gr = Inr (find_slot (\<lambda>st. ss_active st \<and> ss_symbol st = sy) (gr_symbol_states gr))"
proof -
  have "find_slot (\<lambda>st. ss_active st \<and> strncmp_eq 16 (ss_symbol st) sy) (take (gr_next_slot gr) (gr_symbol_states gr)) =
      find_slot (\<lambda>st. ss_active st \<and> strncmp_eq 16 (ss_symbol st) sy) (gr_symbol_states gr)"
    using assms by (intro find_slot_take) (auto simp: symbols_ok_def)
  also have "\<dots> = find_slot (\<lambda>st. ss_active st \<and> ss_symbol st = sy) (gr_symbol_states gr)"
    using assms by (intro find_slot_cong) (auto simp: symbols_ok_def strncmp_eq_short)
  finally show ?thesis using assms(1)
    by (auto simp: find_symbol_def symbols_ok_def split: option.splits)
qed

lemma symbol_book_put:
  assumes "symbols_ok gr" "i < MAX_SYMBOLS" "ss_active e" "ss_symbol e = sy"
    and "ss_active (gr_symbol_states gr ! i) \<Longrightarrow> ss_symbol (gr_symbol_states gr ! i) = sy"
    and "\<And>j. j < MAX_SYMBOLS \<Longrightarrow> j \<noteq> i \<Longrightarrow> ss_active (gr_symbol_states gr ! j) \<Longrightarrow>
           ss_symbol (gr_symbol_states gr ! j) \<noteq> sy"
    and "gr_symbol_states gr' = (gr_symbol_states gr)[i := e]"
  shows "symbol_book gr' = (symbol_book gr)(sy \<mapsto> (ss_gross_notional e, ss_net_notional e))"
    and "unique_keys ss_active ss_symbol (gr_symbol_states gr')"
proof -
  have "key_map ss_active ss_symbol (gr_symbol_states gr') =
      (key_map ss_active ss_symbol (gr_symbol_states gr))(sy \<mapsto> e)"
    unfolding assms(7) using assms by (intro key_map_put) (auto simp: symbols_ok_def)
  then show "symbol_book gr' = (symbol_book gr)(sy \<mapsto> (ss_gross_notional e, ss_net_notional e))"
    by (auto simp: symbol_book_def fun_eq_iff)
  show "unique_keys ss_active ss_symbol (gr_symbol_states gr')"
    unfolding assms(7) using assms by (intro unique_keys_update) (auto simp: symbols_ok_def)
qed

lemma symbols_okD:
  assumes "symbols_ok gr"
  shows "length (gr_symbol_states gr) = MAX_SYMBOLS" "gr_next_slot gr \<le> MAX_SYMBOLS"
    "unique_keys ss_active ss_symbol (gr_symbol_states gr)"
    "\<And>i. i < MAX_SYMBOLS \<Longrightarrow> ss_active (gr_symbol_states gr ! i) \<longleftrightarrow> i < gr_next_slot gr"
    "\<And>i. i < MAX_SYMBOLS \<Longrightarrow> length (ss_symbol (gr_symbol_states gr ! i)) < 16"
  using assms by (auto simp: symbols_ok_def)

lemma symbols_ok_put:
  assumes ok: "symbols_ok gr" and i: "i < MAX_SYMBOLS" and e: "ss_active e" "length (ss_symbol e) < 16"
    and u: "unique_keys ss_active ss_symbol (gr_symbol_states gr')"
    and st: "gr_symbol_states gr' = (gr_symbol_states gr)[i := e]"
    and nx: "gr_next_slot gr' = (if i < gr_next_slot gr then gr_next_slot gr else Suc i)" "i \<le> gr_next_slot gr"
  shows "symbols_ok gr'"
proof -
  have "length (ss_symbol s) < 16" if "s \<in> set (gr_symbol_states gr')" for s
    using that ok e(2) set_update_subset_insert[of "gr_symbol_states gr" i e] by (auto simp: st symbols_ok_def)
  moreover have "ss_active (gr_symbol_states gr' ! j) \<longleftrightarrow> j < gr_next_slot gr'" if "j < MAX_SYMBOLS" for j
    using that i e(1) nx symbols_okD(1,4)[OF ok] by (cases "j = i") (auto simp: st)
  moreover have "gr_next_slot gr' \<le> MAX_SYMBOLS" using i nx symbols_okD(2)[OF ok] by simp
  ultimately show ?thesis
    using ok i nx u by (auto simp: symbols_ok_def st nth_list_update)
qed

lemma symbol_book_found:
  assumes ok: "symbols_ok gr" and i: "i < MAX_SYMBOLS" "ss_active (gr_symbol_states gr ! i)" "ss_symbol (gr_symbol_states gr ! i) = sy"
  shows "symbol_book gr sy =
    Some (ss_gross_notional (gr_symbol_states gr ! i), ss_net_notional (gr_symbol_states gr ! i))"
proof -
  have "key_map ss_active ss_symbol (gr_symbol_states gr) sy = Some (gr_symbol_states gr ! i)"
    unfolding key_map_Some[OF symbols_okD(3)[OF ok]] using i symbols_okD(1)[OF ok] by auto
  then show ?thesis by (simp add: symbol_book_def)
qed

lemma symbols_ok_unique:
  "symbols_ok gr \<Longrightarrow> i < MAX_SYMBOLS \<Longrightarrow> j < MAX_SYMBOLS \<Longrightarrow> ss_active (gr_symbol_states gr ! i) \<Longrightarrow>
   ss_active (gr_symbol_states gr ! j) \<Longrightarrow>
   ss_symbol (gr_symbol_states gr ! i) = ss_symbol (gr_symbol_states gr ! j) \<Longrightarrow> i = j"
  using unique_keysD[OF symbols_okD(3)] symbols_okD(1) by metis

lemma get_or_create_ok:
  assumes ok: "symbols_ok gr" and sy: "length sy < 16"
    and g: "get_or_create_symbol sy gr = Inr (Some i, gr1)"
  shows "symbols_ok gr1 \<and> i < gr_next_slot gr1 \<and> ss_symbol (gr_symbol_states gr1 ! i) = sy \<and>
    symbol_book gr1 = (symbol_book gr)(sy \<mapsto> case_option (0, 0) id (symbol_book gr sy))"
proof -
  let ?P = "\<lambda>st. ss_active st \<and> ss_symbol st = sy"
  note len = ok[unfolded symbols_ok_def]
  show ?thesis
  proof (cases "find_slot ?P (gr_symbol_states gr)")
    case (Some k)
    with g find_symbol_ok[OF ok sy] have e: "gr1 = gr" "k = i" by (auto simp: get_or_create_symbol_def)
    have i: "i < MAX_SYMBOLS" "?P (gr_symbol_states gr ! i)"
      using find_slot_SomeD[OF Some] e len by auto
    have b: "symbol_book gr sy =
        Some (ss_gross_notional (gr_symbol_states gr ! i), ss_net_notional (gr_symbol_states gr ! i))"
      using symbol_book_found[OF ok i(1)] i(2) by blast
    have "symbol_book gr = (symbol_book gr)(sy \<mapsto> case_option (0, 0) id (symbol_book gr sy))"
      unfolding b by (rule ext) (simp add: b)
    with i e ok len show ?thesis by auto
  next
    case None
    let ?e = "(gr_symbol_states gr ! i)\<lparr>ss_symbol := sy, ss_active := True\<rparr>"
    from g find_symbol_ok[OF ok sy] None sy
    have e: "i = gr_next_slot gr" "i < MAX_SYMBOLS"
        "gr1 = gr\<lparr>gr_next_slot := Suc i, gr_symbol_states := (gr_symbol_states gr)[i := ?e]\<rparr>"
      by (auto simp: get_or_create_symbol_def Let_def split: if_splits)
    have no: "\<not> ?P (gr_symbol_states gr ! j)" if "j < MAX_SYMBOLS" for j
      using None that len by (auto simp: find_slot_None)
    have inact: "\<not> ss_active (gr_symbol_states gr ! i)"
      and z: "ss_gross_notional (gr_symbol_states gr ! i) = 0" "ss_net_notional (gr_symbol_states gr ! i) = 0"
      using len e(1,2) by auto
    have put: "symbol_book gr1 = (symbol_book gr)(sy \<mapsto> (ss_gross_notional ?e, ss_net_notional ?e))"
      and u: "unique_keys ss_active ss_symbol (gr_symbol_states gr1)"
      using ok e(2,3) no inact by (intro symbol_book_put[where i = i]; auto)+
    have "symbol_book gr sy = None"
      using None by (simp add: symbol_book_def key_map_def)
    then have "symbol_book gr1 = (symbol_book gr)(sy \<mapsto> case_option (0, 0) id (symbol_book gr sy))"
      using put z by simp
    moreover have "symbols_ok gr1"
      using e u sy by (intro symbols_ok_put[OF ok e(2), of ?e]) simp_all
    ultimately show ?thesis using e len by simp
  qed
qed

text \<open>
  What a commit books: an accepted order leaves the kill switch alone and adds its absolute
  notional to the gross, venue and symbol totals and its signed notional to the net and symbol
  net totals, in a fresh symbol slot when the symbol is new, leaving every other symbol's
  entry as it was.
\<close>

theorem commit_order_books:
  assumes ok: "symbols_ok gr" and sy: "length sy < 16"
    and c: "commit_order e sy n (gr, ks) = Inr (GR_OK, gr', ks')"
  shows "ks' = ks \<and> symbols_ok gr' \<and>
    gr_gross_notional gr' = gr_gross_notional gr + \<bar>n\<bar> \<and>
    gr_net_notional gr' = gr_net_notional gr + n \<and>
    gr_venue_gross_notional gr' = (gr_venue_gross_notional gr)
      [nat (venue_index e) := gr_venue_gross_notional gr ! nat (venue_index e) + \<bar>n\<bar>] \<and>
    symbol_book gr' = (let (g, m) = case_option (0, 0) id (symbol_book gr sy)
                       in (symbol_book gr)(sy \<mapsto> (g + \<bar>n\<bar>, m + n)))"
  using c
proof (cases rule: commit_order_cases)
  case (booked i gr1)
  note fr = get_or_create_frame[OF booked(2)]
  from get_or_create_ok[OF ok sy booked(2)] have g1: "symbols_ok gr1" "i < gr_next_slot gr1"
      "ss_symbol (gr_symbol_states gr1 ! i) = sy"
    and b1: "symbol_book gr1 = (symbol_book gr)(sy \<mapsto> case_option (0, 0) id (symbol_book gr sy))"
    by blast+
  note len = g1(1)[unfolded symbols_ok_def]
  have i: "i < MAX_SYMBOLS" "ss_active (gr_symbol_states gr1 ! i)" using len g1(2) by auto
  let ?st = "gr_symbol_states gr1 ! i"
  let ?e = "?st\<lparr>ss_gross_notional := ss_gross_notional ?st + \<bar>n\<bar>, ss_net_notional := ss_net_notional ?st + n\<rparr>"
  have st': "gr_symbol_states gr' = (gr_symbol_states gr1)[i := ?e]"
    using booked(5) by (simp add: book_notional_def Let_def)
  have fresh: "ss_symbol (gr_symbol_states gr1 ! j) \<noteq> sy"
    if "j < MAX_SYMBOLS" "j \<noteq> i" "ss_active (gr_symbol_states gr1 ! j)" for j
    using symbols_ok_unique[OF g1(1) that(1) i(1) that(3) i(2)] that(2) g1(3) by auto
  have put: "symbol_book gr' = (symbol_book gr1)(sy \<mapsto> (ss_gross_notional ?e, ss_net_notional ?e))"
    and u: "unique_keys ss_active ss_symbol (gr_symbol_states gr')"
    using symbol_book_put[OF g1(1) i(1) _ _ _ fresh st'] i(2) g1(3) by simp_all
  have "case_option (0, 0) id (symbol_book gr sy) = (ss_gross_notional ?st, ss_net_notional ?st)"
    using symbol_book_found[OF g1(1) i g1(3)] b1 by simp
  then have b: "symbol_book gr' = (let (g, m) = case_option (0, 0) id (symbol_book gr sy)
                       in (symbol_book gr)(sy \<mapsto> (g + \<bar>n\<bar>, m + n)))"
    using put b1 by simp
  have "symbols_ok gr'"
    using u st' i g1 booked(5) sy by (intro symbols_ok_put[OF g1(1) i(1), of ?e]) simp_all
  with b booked(4,5) fr show ?thesis by simp
qed auto

definition gr_two :: GlobalRisk where
  "gr_two = (gr_init cfg_sample mk_FuturesRiskGateConfig)
     \<lparr>gr_symbol_states := [\<lparr>ss_active = True, ss_symbol = ''BTC'', ss_gross_notional = Fin 10, ss_net_notional = - Fin 10\<rparr>]
        @ replicate 31 mk_SymbolState, gr_next_slot := 1, gr_gross_notional := Fin 10, gr_net_notional := - Fin 10\<rparr>"

lemma gr_two_ok: "symbols_ok gr_two"
  by (auto simp: symbols_ok_def gr_two_def gr_init_def MAX_SYMBOLS_def mk_SymbolState_def nth_Cons
      unique_keys_def split: nat.splits)

theorem commit_order_books_witness:
  "\<exists>gr' ks'. commit_order OKX ''BTC'' (Fin 5) (gr_two, ks_init 0 1) = Inr (GR_OK, gr', ks') \<and>
     ks' = ks_init 0 1 \<and> symbol_book gr' ''BTC'' = Some (Fin 15, - Fin 5)"
proof -
  let ?r = "commit_order OKX ''BTC'' (Fin 5) (gr_two, ks_init 0 1)"
  have "(case ?r of Inl _ \<Rightarrow> False | Inr (r, gr', _) \<Rightarrow> r = GR_OK)" by code_simp
  then obtain gr' ks' where r: "?r = Inr (GR_OK, gr', ks')" by (cases ?r) auto
  have b: "symbol_book gr_two ''BTC'' = Some (Fin 10, - Fin 10)" by code_simp
  have v: "Fin 10 + \<bar>Fin 5\<bar> = Fin 15" "- Fin 10 + Fin 5 = - Fin 5" by code_simp+
  have "ks' = ks_init 0 1 \<and> symbol_book gr' = (let (g, m) = case_option (0, 0) id (symbol_book gr_two ''BTC'')
      in (symbol_book gr_two)(''BTC'' \<mapsto> (g + \<bar>Fin 5\<bar>, m + Fin 5)))"
    using commit_order_books[OF gr_two_ok _ r] by simp
  then show ?thesis using r by (simp add: b v)
qed

text \<open>
  A full symbol table: when all 32 slots are taken, an order for a new symbol that passes every
  cap is answered INVALID_INPUT without triggering the kill switch, even with
  \<open>kill_on_breach\<close>, and \<open>next_slot_\<close> becomes 33. From then on the same call reads past the end
  of the slot array.
\<close>

theorem symbol_table_overflow:
  assumes "check_order e sy n gr = Inr GR_OK" and "find_symbol sy gr = Inr None"
    and "gr_next_slot gr = MAX_SYMBOLS" and "length (gr_symbol_states gr) = MAX_SYMBOLS"
  shows "\<exists>gr'. commit_order e sy n (gr, ks) = Inr (INVALID_INPUT, gr', ks) \<and>
    gr_next_slot gr' = MAX_SYMBOLS + 1 \<and> commit_order e sy n (gr', ks) = Inl Out_Of_Bounds"
proof -
  let ?gr = "gr\<lparr>gr_next_slot := MAX_SYMBOLS + 1\<rparr>"
  have f: "find_symbol sy ?gr = Inl Out_Of_Bounds"
    using assms(2-4) by (auto simp: find_symbol_def split: option.splits if_splits)
  have "check_order e sy n ?gr = Inl Out_Of_Bounds"
    using check_order_OK[OF assms(1)] f by (simp add: check_order_def Let_def)
  moreover have "commit_order e sy n (gr, ks) = Inr (INVALID_INPUT, ?gr, ks)"
    using assms by (simp add: commit_order_def get_or_create_symbol_def)
  ultimately show ?thesis by (simp add: commit_order_def)
qed

definition gr_full :: GlobalRisk where
  "gr_full = (gr_init cfg_sample mk_FuturesRiskGateConfig)
     \<lparr>gr_symbol_states := map (\<lambda>i. \<lparr>ss_active = True, ss_symbol = [char_of (65 + i)], ss_gross_notional = Fin 1,
        ss_net_notional = 0\<rparr>) [0..<MAX_SYMBOLS], gr_next_slot := MAX_SYMBOLS\<rparr>"

theorem symbol_table_overflow_witness:
  "\<exists>gr'. commit_order OKX ''BTC'' (Fin 5) (gr_full, ks_init 0 1) = Inr (INVALID_INPUT, gr', ks_init 0 1) \<and>
    commit_order OKX ''BTC'' (Fin 5) (gr', ks_init 0 1) = Inl Out_Of_Bounds"
proof -
  have "check_order OKX ''BTC'' (Fin 5) gr_full = Inr GR_OK" by code_simp
  moreover have "find_symbol ''BTC'' gr_full = Inr None" by code_simp
  ultimately show ?thesis
    using symbol_table_overflow[of OKX "''BTC''" "Fin 5" gr_full "ks_init 0 1"]
    by (auto simp: gr_full_def)
qed

subsection \<open>Futures\<close>

lemma gate_scale:
  assumes "check_futures_gate sy n ctx f n = (GR_OK, s)" "0 \<le> min_funding_scale f" "min_funding_scale f \<le> 1"
    and "dwf n" "isfinite n" "isfinite s"
  shows "\<bar>s\<bar> \<le> \<bar>n\<bar>"
proof -
  have c: "s = n \<or> (\<exists>x. s = n * std_clamp x (min_funding_scale f) 1)"
    using assms(1) by (auto simp: check_futures_gate_def Let_def split: if_splits)
  show ?thesis
  proof (cases "s = n")
    case False
    then obtain x where x: "s = n * std_clamp x (min_funding_scale f) 1" using c by blast
    then have "\<not> isnan x" using assms(6) by (cases x) (auto simp: std_clamp_nan)
    then have "0 \<le> std_clamp x (min_funding_scale f) 1" "std_clamp x (min_funding_scale f) 1 \<le> 1"
      using std_clamp_bounds[OF assms(3)] assms(2) dbl_trans by blast+
    then show ?thesis unfolding x using assms(4,5) by (intro scale_le) auto
  qed (use assms(5) in simp)
qed

text \<open>
  Funding-cost scaling never enlarges an order: when the futures check approves, the scaled
  notional it returns is finite, not zero and no larger in absolute value than the requested
  one, for every context and every configured scale between 0 and 1.
\<close>

theorem futures_scaling_shrinks:
  assumes "check_futures_order e sy n ctx gr = Inr (GR_OK, s)" and "dwf n" and "isfinite n"
    and "0 \<le> min_funding_scale (gr_futures_cfg gr)" and "min_funding_scale (gr_futures_cfg gr) \<le> 1"
  shows "isfinite s \<and> \<not> deq s 0 \<and> \<bar>s\<bar> \<le> \<bar>n\<bar>"
proof -
  have g: "check_futures_gate sy n ctx (gr_futures_cfg gr) n = (GR_OK, s)" "check_order e sy s gr = Inr GR_OK"
    using assms(1) by (auto simp: check_futures_order_def split: prod.splits if_splits)
  then show ?thesis using check_order_OK[OF g(2)] gate_scale[OF g(1) assms(4,5,2,3)] by simp
qed

definition gr_futures :: GlobalRisk where
  "gr_futures = gr_init cfg_sample (mk_FuturesRiskGateConfig\<lparr>fg_enabled := True,
     max_projected_funding_cost_bps := Fin 10, funding_cost_scale_start_bps := Fin 2,
     min_funding_scale := Fin (1 / 2)\<rparr>)"

definition ctx_sample :: FuturesRiskContext where
  "ctx_sample = \<lparr>collateral_notional = Fin 1000, current_abs_notional = 0, maintenance_margin_ratio = 0,
     mark_price = Fin 100, index_price = Fin 100, funding_rate_bps = Fin 6, hours_to_funding = Fin 8\<rparr>"

theorem futures_scaling_shrinks_witness:
  "check_futures_order BINANCE ''BTC'' (Fin 40) ctx_sample gr_futures = Inr (GR_OK, Fin 30) \<and>
   \<bar>Fin 30\<bar> \<le> \<bar>Fin 40\<bar>"
proof -
  have "check_futures_order BINANCE ''BTC'' (Fin 40) ctx_sample gr_futures = Inr (GR_OK, Fin 30)" by code_simp
  moreover have "dwf (Fin 40)" using dwf_lit[of 40] by (simp add: lit_def) code_simp
  moreover have "0 \<le> min_funding_scale (gr_futures_cfg gr_futures)"
    "min_funding_scale (gr_futures_cfg gr_futures) \<le> 1" by code_simp+
  ultimately show ?thesis using futures_scaling_shrinks by fastforce
qed

end
