(* ===== verification/Order_Book.thy ===== *)
theory Order_Book
  imports Trading_Types
begin

text \<open>
  \<^verbatim>\<open>core/orderbook/orderbook.hpp\<close>: a book of one symbol on one venue as two arrays of sizes
  over a grid of \<open>active_levels\<close> prices \<open>base + i * tick\<close>. \<open>std::vector\<close> members are lists of
  length \<open>max_levels\<close>; \<open>ob_wf\<close> is the invariant under which every access is inside them.
  Sizes and indices of type \<open>size_t\<close> are naturals. The scratch arrays that
  \<open>recenter_grid\<close> fills and swaps in are all zero before it and never read elsewhere, so they
  are local to it here.
\<close>

record OrderBook =
  ob_symbol :: string
  ob_exchange :: Exchange
  ob_tick_size :: double
  ob_max_levels :: nat
  ob_active_levels :: nat
  ob_base_price :: double
  ob_sequence :: u64
  ob_initialized :: bool
  ob_bid_sizes :: "double list"
  ob_ask_sizes :: "double list"
  ob_bid_order_counts :: "u32 list"
  ob_ask_order_counts :: "u32 list"
  ob_out_of_range_streak :: u32

definition ob_init :: "string \<Rightarrow> Exchange \<Rightarrow> double \<Rightarrow> nat \<Rightarrow> OrderBook" where
  "ob_init symbol exchange tick_size max_levels = \<lparr>ob_symbol = symbol, ob_exchange = exchange,
     ob_tick_size = tick_size, ob_max_levels = max_levels, ob_active_levels = max_levels,
     ob_base_price = 0, ob_sequence = 0, ob_initialized = False,
     ob_bid_sizes = replicate max_levels 0, ob_ask_sizes = replicate max_levels 0,
     ob_bid_order_counts = replicate max_levels 0, ob_ask_order_counts = replicate max_levels 0,
     ob_out_of_range_streak = 0\<rparr>"

subsection \<open>The grid\<close>

definition price_to_index :: "OrderBook \<Rightarrow> double \<Rightarrow> nat option" where
  "price_to_index b price =
     (if \<not> ob_initialized b then None
      else
        let relative = (price - ob_base_price b) / ob_tick_size b;
            idx = llround relative
        in if idx < 0 \<or> nat idx \<ge> ob_active_levels b then None else Some (nat idx))"

definition index_to_price :: "OrderBook \<Rightarrow> nat \<Rightarrow> double" where
  "index_to_price b idx = ob_base_price b + of_integer (int idx) * ob_tick_size b"

text \<open>The loop of \<open>get_best_bid\<close>: from the top of the grid down to index 0.\<close>

primrec scan_down :: "(nat \<Rightarrow> bool) \<Rightarrow> nat \<Rightarrow> nat option" where
  "scan_down P 0 = None"
| "scan_down P (Suc i) = (if P i then Some i else scan_down P i)"

definition scan_up :: "(nat \<Rightarrow> bool) \<Rightarrow> nat \<Rightarrow> nat option" where
  "scan_up P levels = find_slot P [0..<levels]"

definition get_best_bid :: "OrderBook \<Rightarrow> double" where
  "get_best_bid b =
     (case scan_down (\<lambda>i. ob_bid_sizes b ! i > 0) (ob_active_levels b) of
        Some i \<Rightarrow> index_to_price b i | None \<Rightarrow> 0)"

definition get_best_ask :: "OrderBook \<Rightarrow> double" where
  "get_best_ask b =
     (case scan_up (\<lambda>i. ob_ask_sizes b ! i > 0) (ob_active_levels b) of
        Some i \<Rightarrow> index_to_price b i | None \<Rightarrow> 0)"

definition get_mid_price :: "OrderBook \<Rightarrow> double" where
  "get_mid_price b =
     (let bid = get_best_bid b; ask = get_best_ask b
      in if bid > 0 \<and> ask > 0 then (bid + ask) / lit 2 else 0)"

definition get_spread :: "OrderBook \<Rightarrow> double" where
  "get_spread b = get_best_ask b - get_best_bid b"

text \<open>The two loops of \<open>get_top_levels\<close>, with the vector filled so far as an argument.\<close>

fun top_bids :: "OrderBook \<Rightarrow> nat \<Rightarrow> nat \<Rightarrow> PriceLevel list \<Rightarrow> PriceLevel list" where
  "top_bids b n 0 bids = bids"
| "top_bids b n (Suc i) bids =
     (if length bids < n then
        top_bids b n i (if ob_bid_sizes b ! i > 0
          then bids @ [mk_PriceLevel (index_to_price b i) (ob_bid_sizes b ! i) (ob_bid_order_counts b ! i)]
          else bids)
      else bids)"

fun top_asks :: "OrderBook \<Rightarrow> nat \<Rightarrow> nat list \<Rightarrow> PriceLevel list \<Rightarrow> PriceLevel list" where
  "top_asks b n [] asks = asks"
| "top_asks b n (i # is) asks =
     (if length asks < n then
        top_asks b n is (if ob_ask_sizes b ! i > 0
          then asks @ [mk_PriceLevel (index_to_price b i) (ob_ask_sizes b ! i) (ob_ask_order_counts b ! i)]
          else asks)
      else asks)"

definition get_top_levels :: "OrderBook \<Rightarrow> nat \<Rightarrow> PriceLevel list \<times> PriceLevel list" where
  "get_top_levels b n =
     (top_bids b n (ob_active_levels b) [], top_asks b n [0..<ob_active_levels b] [])"

subsection \<open>Snapshots\<close>

text \<open>
  The conversion of a double to \<open>size_t\<close> truncates; out of range it is undefined in C++, and
  the compiled code on x86-64 yields 0 above the range, as modelled.
\<close>

definition to_size :: "double \<Rightarrow> int" where
  "to_size d = (if isfinite d \<and> 0 \<le> fval d \<and> fval d < 2 ^ 64 then \<lfloor>fval d\<rfloor> else 0)"

definition k_min_active_levels :: nat where "k_min_active_levels = 1024"

definition compute_snapshot_active_levels :: "OrderBook \<Rightarrow> double \<Rightarrow> nat" where
  "compute_snapshot_active_levels b best_bid =
     (let best_bid_ticks = best_bid / ob_tick_size b
      in if \<not> isfinite best_bid_ticks \<or> best_bid_ticks \<le> lit 2
         then min (ob_max_levels b) k_min_active_levels
         else
           let max_centered_levels = nat ((to_size (std_floor (best_bid_ticks - 1)) * 2) mod 2 ^ 64);
               bounded_levels = min (ob_max_levels b) max_centered_levels;
               preferred_levels = min (ob_max_levels b) (max k_min_active_levels bounded_levels)
           in max 2 preferred_levels)"

definition compute_snapshot_base_price :: "OrderBook \<Rightarrow> double \<Rightarrow> nat \<Rightarrow> double" where
  "compute_snapshot_base_price b best_bid active_levels =
     (let centered_base = best_bid - of_integer (int (active_levels div 2)) * ob_tick_size b
      in if centered_base > 0 then centered_base else ob_tick_size b)"

definition max_allowed_spread_abs :: "OrderBook \<Rightarrow> nat \<Rightarrow> double" where
  "max_allowed_spread_abs b levels =
     std_max (ob_tick_size b) (of_integer (int levels) * ob_tick_size b * lit (1 / 4))"

text \<open>
  The checksum hashes the object representation of the doubles: eight bytes, little-endian.
  A NaN has the payload of the default quiet NaN.
\<close>

definition double_bits :: "double \<Rightarrow> int" where
  "double_bits d = (case d of
     NaN \<Rightarrow> 0x7FF8000000000000 | PInf \<Rightarrow> 0x7FF0000000000000 | NInf \<Rightarrow> 0xFFF0000000000000
   | NZero \<Rightarrow> 0x8000000000000000
   | Fin q \<Rightarrow>
       (if q = 0 then 0
        else (if q < 0 then 0x8000000000000000 else 0) +
          (let e = binexp q
           in if e < - 1022 then \<lfloor>\<bar>q\<bar> * 2 ^ 1074\<rfloor>
              else (e + 1023) * 0x10000000000000 + (\<lfloor>\<bar>q\<bar> * 2 powi (52 - e)\<rfloor> - 0x10000000000000))))"

definition double_bytes :: "double \<Rightarrow> int list" where
  "double_bytes d = map (\<lambda>i. double_bits d div 256 ^ i mod 256) [0..<8]"

definition fnv1a_bytes :: "int list \<Rightarrow> u32 \<Rightarrow> u32" where
  "fnv1a_bytes data seed = fold (\<lambda>byte hash. xor hash (word_of_int byte) * 16777619) data seed"

definition compute_snapshot_checksum :: "Snapshot \<Rightarrow> u32" where
  "compute_snapshot_checksum s =
     fold (\<lambda>level hash. fnv1a_bytes (double_bytes (pl_size level)) (fnv1a_bytes (double_bytes (pl_price level)) hash))
       (sn_bids s @ sn_asks s) 2166136261"

definition set_bid :: "nat \<Rightarrow> double \<Rightarrow> u32 \<Rightarrow> OrderBook \<Rightarrow> OrderBook" where
  "set_bid idx sz cnt b = b\<lparr>ob_bid_sizes := (ob_bid_sizes b)[idx := sz],
     ob_bid_order_counts := (ob_bid_order_counts b)[idx := cnt]\<rparr>"

definition set_ask :: "nat \<Rightarrow> double \<Rightarrow> u32 \<Rightarrow> OrderBook \<Rightarrow> OrderBook" where
  "set_ask idx sz cnt b = b\<lparr>ob_ask_sizes := (ob_ask_sizes b)[idx := sz],
     ob_ask_order_counts := (ob_ask_order_counts b)[idx := cnt]\<rparr>"

text \<open>The loops that load a side and count the levels outside the grid.\<close>

fun load_levels ::
  "(nat \<Rightarrow> double \<Rightarrow> u32 \<Rightarrow> OrderBook \<Rightarrow> OrderBook) \<Rightarrow> PriceLevel list \<Rightarrow> nat \<times> OrderBook \<Rightarrow> nat \<times> OrderBook" where
  "load_levels put [] (skipped, b) = (skipped, b)"
| "load_levels put (l # ls) (skipped, b) =
     (case price_to_index b (pl_price l) of
        None \<Rightarrow> load_levels put ls (skipped + 1, b)
      | Some idx \<Rightarrow> load_levels put ls (skipped, put idx (pl_size l) (pl_order_count l) b))"

definition clear_grid :: "nat \<Rightarrow> double \<Rightarrow> u64 \<Rightarrow> OrderBook \<Rightarrow> OrderBook" where
  "clear_grid active_levels new_base sequence b = b\<lparr>
     ob_bid_sizes := replicate (length (ob_bid_sizes b)) 0,
     ob_ask_sizes := replicate (length (ob_ask_sizes b)) 0,
     ob_bid_order_counts := replicate (length (ob_bid_order_counts b)) 0,
     ob_ask_order_counts := replicate (length (ob_ask_order_counts b)) 0,
     ob_active_levels := active_levels, ob_base_price := new_base, ob_sequence := sequence,
     ob_out_of_range_streak := 0, ob_initialized := True\<rparr>"

definition apply_snapshot :: "Snapshot \<Rightarrow> OrderBook \<Rightarrow> Result \<times> OrderBook" where
  "apply_snapshot s b =
     (if sn_bids s = [] \<or> sn_asks s = [] then (ERROR_INVALID_PRICE, b)
      else
        let best_bid = pl_price (sn_bids s ! 0);
            best_ask = pl_price (sn_asks s ! 0);
            spread = best_ask - best_bid
        in if spread \<le> 0 then (ERROR_INVALID_PRICE, b)
        else
          let active_levels = compute_snapshot_active_levels b best_bid
          in if spread > max_allowed_spread_abs b active_levels then (ERROR_INVALID_PRICE, b)
          else if sn_checksum_present s \<and> compute_snapshot_checksum s \<noteq> sn_checksum s
          then (ERROR_BOOK_CORRUPTED, b)
          else
            let new_base = compute_snapshot_base_price b best_bid active_levels;
                b = clear_grid active_levels new_base (sn_sequence s) b;
                (skipped, b) = load_levels set_bid (sn_bids s) (0, b);
                (skipped, b) = load_levels set_ask (sn_asks s) (skipped, b)
            in if skipped * 2 > length (sn_bids s) + length (sn_asks s)
               then (ERROR_BOOK_CORRUPTED, b\<lparr>ob_initialized := False\<rparr>)
               else (SUCCESS, b))"

subsection \<open>Deltas\<close>

definition delta_improves_touch :: "Delta \<Rightarrow> OrderBook \<Rightarrow> bool" where
  "delta_improves_touch d b =
     (if dl_side d = BID then get_best_bid b \<le> 0 \<or> dl_price d \<ge> get_best_bid b
      else get_best_ask b \<le> 0 \<or> dl_price d \<le> get_best_ask b)"

definition should_recenter :: "Delta \<Rightarrow> OrderBook \<Rightarrow> bool \<times> OrderBook" where
  "should_recenter d b =
     (if \<not> delta_improves_touch d b then (False, b\<lparr>ob_out_of_range_streak := 0\<rparr>)
      else
        let relative = (dl_price d - ob_base_price b) / ob_tick_size b;
            upper_idx = of_integer ((int (ob_active_levels b) - 1) mod 2 ^ 64);
            breach_ticks = (if relative < 0 then - relative
                            else if relative > upper_idx then relative - upper_idx else 0)
        in if breach_ticks \<le> 0 then (False, b\<lparr>ob_out_of_range_streak := 0\<rparr>)
           else
             let streak = ob_out_of_range_streak b + 1;
                 hard_breach_ticks = of_integer (int (ob_active_levels b)) * lit (6 / 10)
             in (breach_ticks \<ge> hard_breach_ticks \<or> streak \<ge> 4, b\<lparr>ob_out_of_range_streak := streak\<rparr>))"

text \<open>The loop over the grid copies level \<open>i\<close> to \<open>i + shift\<close> in an array of zeros.\<close>

fun shift_levels :: "int \<Rightarrow> nat \<Rightarrow> 'a list \<Rightarrow> nat list \<Rightarrow> 'a list \<Rightarrow> 'a list" where
  "shift_levels shift levels old [] new = new"
| "shift_levels shift levels old (i # is) new =
     (let new_idx = int i + shift
      in if new_idx < 0 \<or> nat new_idx \<ge> levels then shift_levels shift levels old is new
         else shift_levels shift levels old is (new[nat new_idx := old ! i]))"

definition recenter_grid :: "double \<Rightarrow> OrderBook \<Rightarrow> OrderBook" where
  "recenter_grid anchor_price b =
     (let old_base = ob_base_price b;
          levels = ob_active_levels b;
          new_base = anchor_price - of_integer (int (levels div 2)) * ob_tick_size b;
          shift_ticks = llround ((old_base - new_base) / ob_tick_size b);
          n = ob_max_levels b
      in b\<lparr>ob_bid_sizes := shift_levels shift_ticks levels (ob_bid_sizes b) [0..<levels] (replicate n 0),
           ob_ask_sizes := shift_levels shift_ticks levels (ob_ask_sizes b) [0..<levels] (replicate n 0),
           ob_bid_order_counts := shift_levels shift_ticks levels (ob_bid_order_counts b) [0..<levels] (replicate n 0),
           ob_ask_order_counts := shift_levels shift_ticks levels (ob_ask_order_counts b) [0..<levels] (replicate n 0),
           ob_base_price := new_base, ob_out_of_range_streak := 0\<rparr>)"

definition store_sequence :: "Delta \<Rightarrow> OrderBook \<Rightarrow> OrderBook" where
  "store_sequence d b = (if dl_sequence d > 0 then b\<lparr>ob_sequence := dl_sequence d\<rparr> else b)"

definition put_delta :: "nat \<Rightarrow> Delta \<Rightarrow> OrderBook \<Rightarrow> OrderBook" where
  "put_delta idx d b =
     (let b = b\<lparr>ob_out_of_range_streak := 0\<rparr>;
          b = (if dl_side d = BID then set_bid idx (dl_size d) (dl_order_count d) b
               else set_ask idx (dl_size d) (dl_order_count d) b)
      in store_sequence d b)"

definition apply_delta :: "Delta \<Rightarrow> OrderBook \<Rightarrow> Result \<times> OrderBook" where
  "apply_delta d b =
     (if \<not> ob_initialized b then (ERROR_BOOK_CORRUPTED, b)
      else if dl_size d < 0 then (ERROR_INVALID_SIZE, b)
      else if dl_sequence d > 0 \<and> dl_sequence d < ob_sequence b then (SUCCESS, b)
      else
        (case price_to_index b (dl_price d) of
           Some idx \<Rightarrow> (SUCCESS, put_delta idx d b)
         | None \<Rightarrow>
             let (recenter, b) = should_recenter d b
             in if recenter then
                  let b = recenter_grid (dl_price d) b
                  in (case price_to_index b (dl_price d) of
                        None \<Rightarrow> (ERROR_INVALID_PRICE, b)
                      | Some idx \<Rightarrow> (SUCCESS, put_delta idx d b))
                else (SUCCESS, store_sequence d b)))"

subsection \<open>Well-formed books\<close>

definition ob_wf :: "OrderBook \<Rightarrow> bool" where
  "ob_wf b \<longleftrightarrow> length (ob_bid_sizes b) = ob_max_levels b \<and> length (ob_ask_sizes b) = ob_max_levels b \<and>
     length (ob_bid_order_counts b) = ob_max_levels b \<and> length (ob_ask_order_counts b) = ob_max_levels b \<and>
     ob_active_levels b \<le> ob_max_levels b"

lemma ob_init_wf: "ob_wf (ob_init symbol e tick n)"
  by (simp add: ob_wf_def ob_init_def)

lemma price_to_index_less: "price_to_index b p = Some i \<Longrightarrow> i < ob_active_levels b"
  by (auto simp: price_to_index_def Let_def split: if_splits)

lemma set_level_simps [simp]:
  "ob_max_levels (set_bid i z c b) = ob_max_levels b" "ob_max_levels (set_ask i z c b) = ob_max_levels b"
  "ob_active_levels (set_bid i z c b) = ob_active_levels b" "ob_active_levels (set_ask i z c b) = ob_active_levels b"
  "ob_base_price (set_bid i z c b) = ob_base_price b" "ob_base_price (set_ask i z c b) = ob_base_price b"
  "ob_tick_size (set_bid i z c b) = ob_tick_size b" "ob_tick_size (set_ask i z c b) = ob_tick_size b"
  "ob_initialized (set_bid i z c b) = ob_initialized b" "ob_initialized (set_ask i z c b) = ob_initialized b"
  "ob_sequence (set_bid i z c b) = ob_sequence b" "ob_sequence (set_ask i z c b) = ob_sequence b"
  by (simp_all add: set_bid_def set_ask_def)

lemma set_level_wf [simp]: "ob_wf b \<Longrightarrow> ob_wf (set_bid i z c b)" "ob_wf b \<Longrightarrow> ob_wf (set_ask i z c b)"
  by (simp_all add: ob_wf_def set_bid_def set_ask_def)

lemma store_sequence_simps [simp]:
  "ob_max_levels (store_sequence d b) = ob_max_levels b" "ob_active_levels (store_sequence d b) = ob_active_levels b"
  "ob_base_price (store_sequence d b) = ob_base_price b" "ob_tick_size (store_sequence d b) = ob_tick_size b"
  "ob_initialized (store_sequence d b) = ob_initialized b"
  "ob_bid_sizes (store_sequence d b) = ob_bid_sizes b" "ob_ask_sizes (store_sequence d b) = ob_ask_sizes b"
  "ob_bid_order_counts (store_sequence d b) = ob_bid_order_counts b"
  "ob_ask_order_counts (store_sequence d b) = ob_ask_order_counts b"
  "ob_sequence (store_sequence d b) = (if dl_sequence d > 0 then dl_sequence d else ob_sequence b)"
  by (simp_all add: store_sequence_def)

lemma put_delta_simps [simp]:
  "ob_max_levels (put_delta i d b) = ob_max_levels b" "ob_active_levels (put_delta i d b) = ob_active_levels b"
  "ob_base_price (put_delta i d b) = ob_base_price b" "ob_tick_size (put_delta i d b) = ob_tick_size b"
  "ob_initialized (put_delta i d b) = ob_initialized b"
  "ob_sequence (put_delta i d b) = (if dl_sequence d > 0 then dl_sequence d else ob_sequence b)"
  "ob_wf b \<Longrightarrow> ob_wf (put_delta i d b)"
  by (simp_all add: put_delta_def Let_def ob_wf_def set_bid_def set_ask_def)

lemma should_recenter_frame:
  "\<exists>k. snd (should_recenter d b) = b\<lparr>ob_out_of_range_streak := k\<rparr>"
proof -
  have "b = b\<lparr>ob_out_of_range_streak := ob_out_of_range_streak b\<rparr>" by simp
  then show ?thesis unfolding should_recenter_def Let_def by (simp only: snd_conv if_distrib [of snd]) metis
qed

lemma length_shift_levels [simp]: "length (shift_levels k n old is new) = length new"
  by (induction k n old "is" new rule: shift_levels.induct) (auto simp: Let_def)

lemma recenter_grid_simps [simp]:
  "ob_max_levels (recenter_grid p b) = ob_max_levels b" "ob_active_levels (recenter_grid p b) = ob_active_levels b"
  "ob_tick_size (recenter_grid p b) = ob_tick_size b" "ob_initialized (recenter_grid p b) = ob_initialized b"
  "ob_sequence (recenter_grid p b) = ob_sequence b" "ob_wf b \<Longrightarrow> ob_wf (recenter_grid p b)"
  by (simp_all add: recenter_grid_def Let_def ob_wf_def)

text \<open>What a delta can do to a book, by cases.\<close>

lemma apply_delta_cases:
  obtains (rejected) "apply_delta d b = (ERROR_BOOK_CORRUPTED, b)" "\<not> ob_initialized b"
  | (bad_size) "apply_delta d b = (ERROR_INVALID_SIZE, b)" "ob_initialized b" "dl_size d < 0"
  | (stale) "apply_delta d b = (SUCCESS, b)" "ob_initialized b" "dl_sequence d > 0" "dl_sequence d < ob_sequence b"
  | (in_grid) i where "apply_delta d b = (SUCCESS, put_delta i d b)" "price_to_index b (dl_price d) = Some i"
      "dl_sequence d = 0 \<or> ob_sequence b \<le> dl_sequence d"
  | (ignored) k where "apply_delta d b = (SUCCESS, store_sequence d (b\<lparr>ob_out_of_range_streak := k\<rparr>))"
      "price_to_index b (dl_price d) = None" "dl_sequence d = 0 \<or> ob_sequence b \<le> dl_sequence d"
  | (recentered) k i where
      "apply_delta d b = (SUCCESS, put_delta i d (recenter_grid (dl_price d) (b\<lparr>ob_out_of_range_streak := k\<rparr>)))"
      "price_to_index b (dl_price d) = None" "dl_sequence d = 0 \<or> ob_sequence b \<le> dl_sequence d"
      "price_to_index (recenter_grid (dl_price d) (b\<lparr>ob_out_of_range_streak := k\<rparr>)) (dl_price d) = Some i"
  | (unreachable_price) k where
      "apply_delta d b = (ERROR_INVALID_PRICE, recenter_grid (dl_price d) (b\<lparr>ob_out_of_range_streak := k\<rparr>))"
      "price_to_index b (dl_price d) = None"
proof -
  obtain r b' where r: "should_recenter d b = (r, b')" by (cases "should_recenter d b")
  with should_recenter_frame[of d b] obtain k where b': "b' = b\<lparr>ob_out_of_range_streak := k\<rparr>" by auto
  consider "\<not> ob_initialized b" | "ob_initialized b" "dl_size d < 0"
    | "ob_initialized b" "\<not> dl_size d < 0" "dl_sequence d > 0 \<and> dl_sequence d < ob_sequence b"
    | "ob_initialized b" "\<not> dl_size d < 0" "dl_sequence d = 0 \<or> ob_sequence b \<le> dl_sequence d"
    by (metis not_less word_gt_0)
  then show ?thesis
  proof cases
    case 4
    then have st: "\<not> (dl_sequence d > 0 \<and> dl_sequence d < ob_sequence b)" by auto
    have a: "apply_delta d b = (case price_to_index b (dl_price d) of
           Some idx \<Rightarrow> (SUCCESS, put_delta idx d b)
         | None \<Rightarrow>
             if r then (case price_to_index (recenter_grid (dl_price d) b') (dl_price d) of
                  None \<Rightarrow> (ERROR_INVALID_PRICE, recenter_grid (dl_price d) b')
                | Some idx \<Rightarrow> (SUCCESS, put_delta idx d (recenter_grid (dl_price d) b')))
             else (SUCCESS, store_sequence d b'))"
      using 4 r by (simp add: apply_delta_def if_not_P[OF st] Let_def split: option.split)
    show ?thesis
    proof (cases "price_to_index b (dl_price d)")
      case (Some i)
      with 4 a show ?thesis by (intro in_grid[of i]) simp_all
    next
      case None
      note no = None
      show ?thesis
      proof (cases r)
        case False
        with no 4 a b' show ?thesis by (intro ignored[of k]) simp_all
      next
        case True
        show ?thesis
        proof (cases "price_to_index (recenter_grid (dl_price d) b') (dl_price d)")
          case None
          with no True 4 a b' show ?thesis by (intro unreachable_price[of k]) simp_all
        next
          case (Some i)
          with no True 4 a b' show ?thesis by (intro recentered[where i = i and k = k]) simp_all
        qed
      qed
    qed
  qed (simp_all add: rejected bad_size stale apply_delta_def)
qed

lemma streak_wf [simp]: "ob_wf (b\<lparr>ob_out_of_range_streak := k\<rparr>) = ob_wf b"
  by (simp add: ob_wf_def)

lemma store_sequence_wf [simp]: "ob_wf (store_sequence d b) = ob_wf b"
  by (simp add: ob_wf_def)

lemma apply_delta_wf: "ob_wf b \<Longrightarrow> ob_wf (snd (apply_delta d b))"
  by (cases rule: apply_delta_cases[of d b]) simp_all

lemma apply_delta_sequence: "ob_sequence b \<le> ob_sequence (snd (apply_delta d b))"
  by (cases rule: apply_delta_cases[of d b]) auto

definition apply_deltas :: "Delta list \<Rightarrow> OrderBook \<Rightarrow> OrderBook" where
  "apply_deltas ds b = fold (\<lambda>d b. snd (apply_delta d b)) ds b"

lemma apply_deltas_simps [simp]:
  "apply_deltas [] b = b" "apply_deltas (d # ds) b = apply_deltas ds (snd (apply_delta d b))"
  by (simp_all add: apply_deltas_def)

lemma apply_deltas_wf: "ob_wf b \<Longrightarrow> ob_wf (apply_deltas ds b)"
  by (induction ds arbitrary: b) (auto intro: apply_delta_wf)

lemma apply_deltas_sequence: "ob_sequence b \<le> ob_sequence (apply_deltas ds b)"
  by (induction ds arbitrary: b) (auto intro: order_trans[OF apply_delta_sequence])

text \<open>
  Sequence numbers of a book only grow: over any series of deltas, accepted, ignored, out of
  the grid or recentering it, the book's sequence never decreases, and the invariant that the four
  level arrays cover the active grid is kept.
\<close>

theorem book_sequence_monotone:
  "ob_sequence b \<le> ob_sequence (apply_deltas ds b) \<and> (ob_wf b \<longrightarrow> ob_wf (apply_deltas ds b))"
  by (simp add: apply_deltas_sequence apply_deltas_wf)

theorem book_sequence_monotone_witness:
  "ob_wf (apply_deltas [mk_Delta, mk_Delta\<lparr>dl_sequence := 7\<rparr>] (ob_init ''BTC'' OKX 1 8))"
  using book_sequence_monotone[of "ob_init ''BTC'' OKX 1 8" "[mk_Delta, mk_Delta\<lparr>dl_sequence := 7\<rparr>]"] ob_init_wf
  by simp

text \<open>A level of a side: its size and order count.\<close>

definition side_level :: "OrderBook \<Rightarrow> Side \<Rightarrow> nat \<Rightarrow> double \<times> u32" where
  "side_level b s i = (if s = BID then (ob_bid_sizes b ! i, ob_bid_order_counts b ! i)
                       else (ob_ask_sizes b ! i, ob_ask_order_counts b ! i))"

lemma put_delta_level:
  "ob_wf b \<Longrightarrow> i < ob_active_levels b \<Longrightarrow> j < ob_active_levels b \<Longrightarrow>
   side_level (put_delta i d b) s j =
     (if s = dl_side d \<and> j = i then (dl_size d, dl_order_count d) else side_level b s j)"
  by (cases s; cases "dl_side d")
     (auto simp: side_level_def put_delta_def Let_def store_sequence_def set_bid_def set_ask_def ob_wf_def)

text \<open>
  C25. A delta on the grid: if the book is initialised, the size is not negative, the sequence is
  not stale and the price lies on the grid, then the delta is accepted, replaces exactly the
  level of its side at that price and leaves every other level of both sides and the grid alone.
\<close>

theorem delta_sets_one_level:
  assumes "ob_wf b" and "ob_initialized b" and "\<not> dl_size d < 0"
    and "\<not> (0 < dl_sequence d \<and> dl_sequence d < ob_sequence b)"
    and "price_to_index b (dl_price d) = Some i"
  shows "fst (apply_delta d b) = SUCCESS \<and>
    (\<forall>s. \<forall>j < ob_active_levels b. side_level (snd (apply_delta d b)) s j =
       (if s = dl_side d \<and> j = i then (dl_size d, dl_order_count d) else side_level b s j)) \<and>
    (\<forall>j. index_to_price (snd (apply_delta d b)) j = index_to_price b j)"
proof -
  have a: "apply_delta d b = (SUCCESS, put_delta i d b)"
    using assms by (simp add: apply_delta_def if_not_P[OF assms(4)])
  show ?thesis using put_delta_level[OF assms(1) price_to_index_less[OF assms(5)]]
    by (simp add: a index_to_price_def)
qed

definition book_sample :: OrderBook where
  "book_sample = (ob_init ''BTC'' OKX 1 8)\<lparr>ob_initialized := True, ob_base_price := Fin 100,
     ob_bid_sizes := [Fin 3, 0, Fin 2, 0, 0, 0, 0, 0], ob_ask_sizes := [0, 0, 0, 0, Fin 5, Fin 6, 0, 0]\<rparr>"

definition delta_sample :: Delta where
  "delta_sample = mk_Delta\<lparr>dl_price := Fin 103, dl_size := Fin 9, dl_order_count := 4, dl_sequence := 7\<rparr>"

lemma book_sample_wf: "ob_wf book_sample"
  by (simp add: ob_wf_def book_sample_def ob_init_def)

theorem delta_sets_one_level_witness:
  "fst (apply_delta delta_sample book_sample) = SUCCESS \<and>
   side_level (snd (apply_delta delta_sample book_sample)) BID 3 = (Fin 9, 4)"
proof -
  have "price_to_index book_sample (dl_price delta_sample) = Some 3" by code_simp
  moreover have "\<not> dl_size delta_sample < 0" by code_simp
  moreover have "ob_active_levels book_sample = 8" "ob_sequence book_sample = 0"
    by (simp_all add: book_sample_def ob_init_def)
  moreover have "ob_initialized book_sample" "dl_side delta_sample = BID" "dl_size delta_sample = Fin 9"
    "dl_order_count delta_sample = 4"
    by (simp_all add: book_sample_def delta_sample_def mk_Delta_def)
  ultimately show ?thesis
    using delta_sets_one_level[OF book_sample_wf, of delta_sample 3] by simp
qed

subsection \<open>Best prices and top levels\<close>

lemma scan_down_Some: "scan_down P n = Some i \<longleftrightarrow> i < n \<and> P i \<and> (\<forall>j. i < j \<longrightarrow> j < n \<longrightarrow> \<not> P j)"
  by (induction n) (auto simp: less_Suc_eq)

lemma scan_down_None: "scan_down P n = None \<longleftrightarrow> (\<forall>i < n. \<not> P i)"
  by (induction n) (auto simp: less_Suc_eq)

lemma scan_up_SomeD: "scan_up P n = Some i \<Longrightarrow> i < n \<and> P i \<and> (\<forall>j < i. \<not> P j)"
  by (auto simp: scan_up_def dest!: find_slot_SomeD)

lemma scan_up_None: "scan_up P n = None \<longleftrightarrow> (\<forall>i < n. \<not> P i)"
  by (auto simp: scan_up_def find_slot_None)

text \<open>Prices on the grid are ordered as their indices, whatever the rounding.\<close>

lemma index_to_price_mono:
  assumes "0 \<le> ob_tick_size b" "isfinite (ob_tick_size b)" "isfinite (ob_base_price b)"
    and "i \<le> j" "j \<le> 2 ^ 53"
  shows "index_to_price b i \<le> index_to_price b j"
proof -
  have ij: "of_integer (int i) = Fin (of_nat i)" "of_integer (int j) = Fin (of_nat j)"
    using assms(4,5) of_integer_exact[of "int i"] of_integer_exact[of "int j"] by simp_all
  have m: "of_integer (int i) * ob_tick_size b \<le> of_integer (int j) * ob_tick_size b"
    unfolding ij using assms by (intro mult_mono_left) auto
  then have "\<not> isnan (of_integer (int i) * ob_tick_size b)" "\<not> isnan (of_integer (int j) * ob_tick_size b)"
    using le_nanD by blast+
  then show ?thesis unfolding index_to_price_def
    using assms(3) m by (intro add_mono) (auto simp: finite_add_nan)
qed

lemma get_best_bid_spec:
  assumes "0 \<le> ob_tick_size b" "isfinite (ob_tick_size b)" "isfinite (ob_base_price b)"
    "ob_active_levels b \<le> 2 ^ 53" "j < ob_active_levels b" "ob_bid_sizes b ! j > 0"
  shows "index_to_price b j \<le> get_best_bid b \<and>
    (\<exists>i < ob_active_levels b. ob_bid_sizes b ! i > 0 \<and> get_best_bid b = index_to_price b i)"
proof -
  obtain i where i: "scan_down (\<lambda>i. ob_bid_sizes b ! i > 0) (ob_active_levels b) = Some i"
    using assms(5,6) scan_down_None[of "\<lambda>i. ob_bid_sizes b ! i > 0" "ob_active_levels b"] by fastforce
  then have s: "i < ob_active_levels b" "ob_bid_sizes b ! i > 0" "j \<le> i"
    using assms(5,6) unfolding scan_down_Some by (auto simp: not_less[symmetric])
  have "index_to_price b j \<le> index_to_price b i"
    using assms(1-4) s by (intro index_to_price_mono) auto
  with i s show ?thesis by (auto simp: get_best_bid_def)
qed

lemma get_best_ask_spec:
  assumes "0 \<le> ob_tick_size b" "isfinite (ob_tick_size b)" "isfinite (ob_base_price b)"
    "ob_active_levels b \<le> 2 ^ 53" "j < ob_active_levels b" "ob_ask_sizes b ! j > 0"
  shows "get_best_ask b \<le> index_to_price b j \<and>
    (\<exists>i < ob_active_levels b. ob_ask_sizes b ! i > 0 \<and> get_best_ask b = index_to_price b i)"
proof -
  obtain i where i: "scan_up (\<lambda>i. ob_ask_sizes b ! i > 0) (ob_active_levels b) = Some i"
    using assms(5,6) scan_up_None[of "\<lambda>i. ob_ask_sizes b ! i > 0" "ob_active_levels b"] by fastforce
  then have s: "i < ob_active_levels b" "ob_ask_sizes b ! i > 0" "i \<le> j"
    using scan_up_SomeD[OF i] assms(6) by (auto simp: not_less[symmetric])
  have "index_to_price b i \<le> index_to_price b j"
    using assms(1-5) s by (intro index_to_price_mono) auto
  with i s show ?thesis by (auto simp: get_best_ask_def)
qed

lemma best_empty:
  "\<forall>i < ob_active_levels b. \<not> ob_bid_sizes b ! i > 0 \<Longrightarrow> get_best_bid b = 0"
  "\<forall>i < ob_active_levels b. \<not> ob_ask_sizes b ! i > 0 \<Longrightarrow> get_best_ask b = 0"
  by (simp_all add: get_best_bid_def get_best_ask_def scan_down_None[THEN iffD2] scan_up_None[THEN iffD2])

text \<open>
  The touch: on a grid with a finite base and a finite, non-negative tick, the best bid is
  the price of a level with a positive bid size and no such level has a higher price; the best
  ask is the lowest such price of the ask side; a side with no positive size answers 0.
\<close>

theorem best_prices:
  assumes "0 \<le> ob_tick_size b" and "isfinite (ob_tick_size b)" and "isfinite (ob_base_price b)"
    and "ob_active_levels b \<le> 2 ^ 53"
  shows "(\<forall>j < ob_active_levels b. ob_bid_sizes b ! j > 0 \<longrightarrow> index_to_price b j \<le> get_best_bid b \<and>
      (\<exists>i < ob_active_levels b. ob_bid_sizes b ! i > 0 \<and> get_best_bid b = index_to_price b i)) \<and>
    (\<forall>j < ob_active_levels b. ob_ask_sizes b ! j > 0 \<longrightarrow> get_best_ask b \<le> index_to_price b j \<and>
      (\<exists>i < ob_active_levels b. ob_ask_sizes b ! i > 0 \<and> get_best_ask b = index_to_price b i)) \<and>
    ((\<forall>i < ob_active_levels b. \<not> ob_bid_sizes b ! i > 0) \<longrightarrow> get_best_bid b = 0) \<and>
    ((\<forall>i < ob_active_levels b. \<not> ob_ask_sizes b ! i > 0) \<longrightarrow> get_best_ask b = 0)"
  using get_best_bid_spec[OF assms] get_best_ask_spec[OF assms] best_empty[of b] by blast

theorem best_prices_witness:
  "get_best_bid book_sample = Fin 102 \<and> index_to_price book_sample 0 \<le> get_best_bid book_sample \<and>
   get_best_ask book_sample = Fin 104"
proof -
  have "ob_active_levels book_sample = 8" "isfinite (ob_base_price book_sample)" "ob_tick_size book_sample = 1"
    by (simp_all add: book_sample_def ob_init_def)
  moreover have "ob_bid_sizes book_sample ! 0 > 0" by code_simp
  moreover have "(0 :: double) \<le> 1" by code_simp
  ultimately have "index_to_price book_sample 0 \<le> get_best_bid book_sample"
    using best_prices[of book_sample] by simp
  moreover have "get_best_bid book_sample = Fin 102" "get_best_ask book_sample = Fin 104" by code_simp+
  ultimately show ?thesis by blast
qed

definition bid_level :: "OrderBook \<Rightarrow> nat \<Rightarrow> PriceLevel" where
  "bid_level b i = mk_PriceLevel (index_to_price b i) (ob_bid_sizes b ! i) (ob_bid_order_counts b ! i)"

definition ask_level :: "OrderBook \<Rightarrow> nat \<Rightarrow> PriceLevel" where
  "ask_level b i = mk_PriceLevel (index_to_price b i) (ob_ask_sizes b ! i) (ob_ask_order_counts b ! i)"

lemma top_bids_eq: "length bids \<le> n \<Longrightarrow> top_bids b n k bids =
   take n (bids @ map (bid_level b) (filter (\<lambda>i. ob_bid_sizes b ! i > 0) (rev [0..<k])))"
proof (induction b n k bids rule: top_bids.induct)
  case (2 b n i bids)
  then show ?case by (cases "length bids = n") (auto simp: bid_level_def take_Cons')
qed simp

lemma top_asks_eq: "length asks \<le> n \<Longrightarrow> top_asks b n is asks =
   take n (asks @ map (ask_level b) (filter (\<lambda>i. ob_ask_sizes b ! i > 0) is))"
proof (induction b n "is" asks rule: top_asks.induct)
  case (2 b n i "is" asks)
  then show ?case by (cases "length asks = n") (auto simp: ask_level_def take_Cons')
qed simp

text \<open>
  The published depth: \<open>get_top_levels(n)\<close> returns on each side exactly the first \<open>n\<close> of the
  grid's levels with a positive size, bids from the highest index down and asks from the
  lowest up, with their sizes and order counts.
\<close>

theorem top_levels_spec:
  "get_top_levels b n =
     (take n (map (bid_level b) (filter (\<lambda>i. ob_bid_sizes b ! i > 0) (rev [0..<ob_active_levels b]))),
      take n (map (ask_level b) (filter (\<lambda>i. ob_ask_sizes b ! i > 0) [0..<ob_active_levels b])))"
  by (simp add: get_top_levels_def top_bids_eq top_asks_eq)

subsection \<open>Recentring\<close>

lemma shift_levels_nth:
  assumes "levels \<le> length new" "j < levels" "distinct is"
  shows "shift_levels k levels old is new ! j =
    (if 0 \<le> int j - k \<and> nat (int j - k) \<in> set is then old ! nat (int j - k) else new ! j)"
  using assms
proof (induction k levels old "is" new rule: shift_levels.induct)
  case (2 k levels old i "is" new)
  let ?n = "int i + k"
  show ?case
  proof (cases "?n < 0 \<or> nat ?n \<ge> levels")
    case True
    then have "0 \<le> int j - k \<Longrightarrow> nat (int j - k) \<noteq> i" using True "2.prems"(2) by arith
    then show ?thesis using True "2.prems" "2.IH"(1)[OF refl] by auto
  next
    case False
    then have "nat ?n < length new" using "2.prems" by simp
    moreover have "nat ?n = j \<longleftrightarrow> 0 \<le> int j - k \<and> nat (int j - k) = i" using False by arith
    ultimately show ?thesis using "2.prems" "2.IH"(2)[OF refl False] False
      by (cases "nat ?n = j") (auto simp: nth_list_update)
  qed
qed simp

lemma ob_wfD:
  assumes "ob_wf b"
  shows "length (ob_bid_sizes b) = ob_max_levels b" "length (ob_ask_sizes b) = ob_max_levels b"
    "length (ob_bid_order_counts b) = ob_max_levels b" "length (ob_ask_order_counts b) = ob_max_levels b"
    "ob_active_levels b \<le> ob_max_levels b"
  using assms by (simp_all add: ob_wf_def)

text \<open>
  Recentring moves the grid, not the book: with \<open>k\<close> the shift in ticks, the level at a new
  index \<open>j\<close> is the one that was at \<open>j - k\<close>, for both sides, sizes and counts; new indices that
  had no old one are empty.
\<close>

theorem recenter_moves_levels:
  assumes "ob_wf b" and "j < ob_active_levels b"
    and "k = llround ((ob_base_price b - ob_base_price (recenter_grid p b)) / ob_tick_size b)"
  shows "side_level (recenter_grid p b) s j =
    (if 0 \<le> int j - k \<and> int j - k < int (ob_active_levels b) then side_level b s (nat (int j - k)) else (0, 0))"
proof -
  have k: "k = llround ((ob_base_price b -
      (p - of_integer (int (ob_active_levels b div 2)) * ob_tick_size b)) / ob_tick_size b)"
    using assms(3) by (simp add: recenter_grid_def Let_def)
  have nth: "shift_levels k (ob_active_levels b) old [0..<ob_active_levels b] (replicate (ob_max_levels b) z) ! j =
      (if 0 \<le> int j - k \<and> int j - k < int (ob_active_levels b) then old ! nat (int j - k) else z)" for old :: "'a list" and z
    using assms(2) ob_wfD(5)[OF assms(1)] by (subst shift_levels_nth) auto
  show ?thesis by (auto simp: side_level_def recenter_grid_def Let_def k[symmetric] nth)
qed

theorem recenter_moves_levels_witness:
  "side_level (recenter_grid (Fin 106) book_sample) BID 0 = (Fin 2, 0) \<and>
   side_level (recenter_grid (Fin 106) book_sample) ASK 6 = (0, 0)"
proof -
  have k: "llround ((ob_base_price book_sample - ob_base_price (recenter_grid (Fin 106) book_sample)) /
      ob_tick_size book_sample) = - 2" by code_simp
  have a: "ob_active_levels book_sample = 8" by (simp add: book_sample_def ob_init_def)
  show ?thesis
    using recenter_moves_levels[OF book_sample_wf _ k[symmetric], of 0 BID]
      recenter_moves_levels[OF book_sample_wf _ k[symmetric], of 6 ASK] a
    by (simp add: side_level_def book_sample_def ob_init_def)
qed

subsection \<open>Loading a snapshot\<close>

definition put_side :: "Side \<Rightarrow> nat \<Rightarrow> double \<Rightarrow> u32 \<Rightarrow> OrderBook \<Rightarrow> OrderBook" where
  "put_side s = (if s = BID then set_bid else set_ask)"

lemma put_side_level:
  "ob_wf b \<Longrightarrow> i < ob_active_levels b \<Longrightarrow>
   side_level (put_side s i z c b) s' j = (if s' = s \<and> j = i then (z, c) else side_level b s' j)"
  by (cases s; cases s') (auto simp: put_side_def side_level_def set_bid_def set_ask_def ob_wf_def)

lemma put_side_simps [simp]:
  "ob_wf b \<Longrightarrow> ob_wf (put_side s i z c b)" "ob_active_levels (put_side s i z c b) = ob_active_levels b"
  "ob_initialized (put_side s i z c b) = ob_initialized b" "ob_sequence (put_side s i z c b) = ob_sequence b"
  "price_to_index (put_side s i z c b) p = price_to_index b p"
  by (simp_all add: put_side_def price_to_index_def)

text \<open>The last level of a list that falls on index \<open>i\<close> of the grid.\<close>

fun last_at :: "OrderBook \<Rightarrow> nat \<Rightarrow> PriceLevel list \<Rightarrow> PriceLevel option" where
  "last_at b i [] = None"
| "last_at b i (l # ls) =
     (case last_at b i ls of
        Some x \<Rightarrow> Some x
      | None \<Rightarrow> if price_to_index b (pl_price l) = Some i then Some l else None)"

definition level_of :: "PriceLevel option \<Rightarrow> double \<times> u32 \<Rightarrow> double \<times> u32" where
  "level_of l d = (case l of Some l \<Rightarrow> (pl_size l, pl_order_count l) | None \<Rightarrow> d)"

definition off_grid :: "OrderBook \<Rightarrow> PriceLevel list \<Rightarrow> nat" where
  "off_grid b ls = length (filter (\<lambda>l. price_to_index b (pl_price l) = None) ls)"

lemma last_at_cong: "(\<And>p. price_to_index b p = price_to_index b' p) \<Longrightarrow> last_at b i ls = last_at b' i ls"
  by (induction ls) auto

lemma load_levels_spec:
  "load_levels (put_side s) ls (k, b) = (k', b') \<Longrightarrow> ob_wf b \<Longrightarrow>
   ob_wf b' \<and> ob_active_levels b' = ob_active_levels b \<and> ob_initialized b' = ob_initialized b \<and>
   ob_sequence b' = ob_sequence b \<and> (\<forall>p. price_to_index b' p = price_to_index b p) \<and>
   k' = k + off_grid b ls \<and>
   (\<forall>s' j. side_level b' s' j = (if s' = s then level_of (last_at b j ls) (side_level b s' j) else side_level b s' j))"
proof (induction ls arbitrary: k b)
  case Nil
  then show ?case by (simp add: off_grid_def level_of_def)
next
  case (Cons l ls)
  show ?case
  proof (cases "price_to_index b (pl_price l)")
    case None
    with Cons.prems Cons.IH[of "k + 1" b] show ?thesis
      by (auto simp: off_grid_def level_of_def split: option.splits)
  next
    case (Some i)
    let ?b = "put_side s i (pl_size l) (pl_order_count l) b"
    have la: "last_at ?b j ls = last_at b j ls" for j by (rule last_at_cong) simp
    have og: "off_grid ?b ls = off_grid b ls" by (simp add: off_grid_def)
    from Cons.prems Some have "load_levels (put_side s) ls (k, ?b) = (k', b')" by simp
    from Cons.IH[OF this] Cons.prems(2) la og Some put_side_level[OF Cons.prems(2) price_to_index_less[OF Some]]
    show ?thesis by (auto simp: off_grid_def level_of_def split: option.splits)
  qed
qed

lemma compute_active_levels_le:
  "2 \<le> ob_max_levels b \<Longrightarrow> compute_snapshot_active_levels b p \<le> ob_max_levels b"
  by (auto simp: compute_snapshot_active_levels_def Let_def)

lemma clear_grid_wf: "ob_wf b \<Longrightarrow> n \<le> ob_max_levels b \<Longrightarrow> ob_wf (clear_grid n p q b)"
  by (simp add: clear_grid_def ob_wf_def)

lemma clear_grid_level: "ob_wf b \<Longrightarrow> i < ob_max_levels b \<Longrightarrow> side_level (clear_grid n p q b) s i = (0, 0)"
  by (simp add: clear_grid_def side_level_def ob_wf_def)

lemma apply_snapshot_cases:
  obtains (rejected) "snd (apply_snapshot s b) = b" "fst (apply_snapshot s b) \<noteq> SUCCESS"
  | (loaded) n p k1 b1 k2 b2 where "n = compute_snapshot_active_levels b (pl_price (sn_bids s ! 0))"
      "load_levels (put_side BID) (sn_bids s) (0, clear_grid n p (sn_sequence s) b) = (k1, b1)"
      "load_levels (put_side ASK) (sn_asks s) (k1, b1) = (k2, b2)"
      "apply_snapshot s b = (if k2 * 2 > length (sn_bids s) + length (sn_asks s)
         then (ERROR_BOOK_CORRUPTED, b2\<lparr>ob_initialized := False\<rparr>) else (SUCCESS, b2))"
proof -
  let ?n = "compute_snapshot_active_levels b (pl_price (sn_bids s ! 0))"
  let ?p = "compute_snapshot_base_price b (pl_price (sn_bids s ! 0)) ?n"
  obtain k1 b1 where l1: "load_levels set_bid (sn_bids s) (0, clear_grid ?n ?p (sn_sequence s) b) = (k1, b1)"
    by fastforce
  obtain k2 b2 where l2: "load_levels set_ask (sn_asks s) (k1, b1) = (k2, b2)" by fastforce
  show ?thesis
  proof (cases "apply_snapshot s b = (if k2 * 2 > length (sn_bids s) + length (sn_asks s)
         then (ERROR_BOOK_CORRUPTED, b2\<lparr>ob_initialized := False\<rparr>) else (SUCCESS, b2))")
    case True
    with l1 l2 show ?thesis by (intro loaded) (simp_all add: put_side_def)
  next
    case False
    then have "snd (apply_snapshot s b) = b \<and> fst (apply_snapshot s b) \<noteq> SUCCESS"
      unfolding apply_snapshot_def Let_def by (auto simp: l1 l2 split: if_splits)
    with rejected show ?thesis by blast
  qed
qed

text \<open>
  C21. An accepted snapshot is what the book then holds: the book is initialised at the
  snapshot's sequence, every level of the grid has the size and order count of the last
  snapshot level of its side on that price, or is empty if there is none, and at most half of the
  snapshot's levels were off the grid.
\<close>

theorem snapshot_loads:
  assumes "apply_snapshot s b = (SUCCESS, b')" and "ob_wf b" and "2 \<le> ob_max_levels b"
  shows "ob_wf b' \<and> ob_initialized b' \<and> ob_sequence b' = sn_sequence s \<and>
    (\<forall>i < ob_active_levels b'. side_level b' BID i = level_of (last_at b' i (sn_bids s)) (0, 0) \<and>
       side_level b' ASK i = level_of (last_at b' i (sn_asks s)) (0, 0)) \<and>
    2 * (off_grid b' (sn_bids s) + off_grid b' (sn_asks s)) \<le> length (sn_bids s) + length (sn_asks s)"
proof (cases rule: apply_snapshot_cases[of s b])
  case rejected
  with assms(1) show ?thesis by simp
next
  case (loaded n p k1 b1 k2 b2)
  let ?c = "clear_grid n p (sn_sequence s) b"
  have n: "n \<le> ob_max_levels b" using loaded(1) compute_active_levels_le[OF assms(3)] by simp
  have c: "ob_wf ?c" using clear_grid_wf[OF assms(2) n] .
  note s1 = load_levels_spec[OF loaded(2) c]
  have w1: "ob_wf b1" using s1 by blast
  note s2 = load_levels_spec[OF loaded(3) w1]
  have b': "b' = b2" "k2 * 2 \<le> length (sn_bids s) + length (sn_asks s)"
    using loaded(4) assms(1) by (auto split: if_splits)
  have pi: "price_to_index b2 q = price_to_index ?c q" "price_to_index b1 q = price_to_index ?c q" for q
    using s1 s2 by auto
  have la: "last_at b2 i ls = last_at ?c i ls" "last_at b1 i ls = last_at ?c i ls" for i ls
    using pi by (auto intro!: last_at_cong)
  have og: "off_grid b2 ls = off_grid ?c ls" "off_grid b1 ls = off_grid ?c ls" for ls
    using pi by (simp_all add: off_grid_def)
  have a: "ob_active_levels b2 = n" using s1 s2 by (simp add: clear_grid_def)
  have lv: "side_level ?c t i = (0, 0)" if "i < ob_active_levels b2" for t i
    using that a n clear_grid_level[OF assms(2), of i] by simp
  have "ob_initialized ?c" "ob_sequence ?c = sn_sequence s" by (simp_all add: clear_grid_def)
  with s1 s2 b' la og lv show ?thesis by simp
qed

definition snapshot_sample :: Snapshot where
  "snapshot_sample = mk_Snapshot\<lparr>sn_sequence := 9, sn_bids := [mk_PriceLevel (Fin 100) (Fin 2) 3],
     sn_asks := [mk_PriceLevel (Fin 101) (Fin 5) 1]\<rparr>"

theorem snapshot_loads_witness:
  "\<exists>b'. apply_snapshot snapshot_sample (ob_init ''BTC'' OKX 1 8) = (SUCCESS, b') \<and>
     ob_initialized b' \<and> ob_sequence b' = 9 \<and> ob_active_levels b' = 8 \<and> side_level b' BID 4 = (Fin 2, 3)"
proof -
  let ?b = "ob_init ''BTC'' OKX 1 8"
  obtain r b' where r: "apply_snapshot snapshot_sample ?b = (r, b')" by fastforce
  have v: "case apply_snapshot snapshot_sample ?b of (r, b') \<Rightarrow> r = SUCCESS \<and> ob_active_levels b' = 8 \<and>
      level_of (last_at b' 4 (sn_bids snapshot_sample)) (0, 0) = (Fin 2, 3)" by code_simp
  have "ob_wf b' \<and> ob_initialized b' \<and> ob_sequence b' = sn_sequence snapshot_sample \<and>
    (\<forall>i < ob_active_levels b'. side_level b' BID i = level_of (last_at b' i (sn_bids snapshot_sample)) (0, 0) \<and>
       side_level b' ASK i = level_of (last_at b' i (sn_asks snapshot_sample)) (0, 0))"
    using snapshot_loads[of snapshot_sample ?b b'] r v ob_init_wf[of "''BTC''" OKX 1 8]
    by (simp add: ob_init_def)
  then show ?thesis using r v by (simp add: snapshot_sample_def)
qed

text \<open>
  A rejected snapshot either leaves the book exactly as it was, or, when most of its levels
  were off the grid, leaves it uninitialised, so that every delta is refused until a snapshot is
  accepted.
\<close>

theorem snapshot_rejected:
  assumes "apply_snapshot s b = (r, b')" and "r \<noteq> SUCCESS"
  shows "b' = b \<or> (r = ERROR_BOOK_CORRUPTED \<and> (\<forall>d. apply_delta d b' = (ERROR_BOOK_CORRUPTED, b')))"
proof (cases rule: apply_snapshot_cases[of s b])
  case (loaded n p k1 b1 k2 b2)
  with assms show ?thesis by (auto simp: apply_delta_def split: if_splits)
qed (use assms in simp)


theorem snapshot_rejected_witness:
  "\<exists>b'. apply_snapshot (snapshot_sample\<lparr>sn_asks := sn_bids snapshot_sample\<rparr>) book_sample = (ERROR_INVALID_PRICE, b') \<and>
     b' = book_sample"
proof -
  let ?s = "snapshot_sample\<lparr>sn_asks := sn_bids snapshot_sample\<rparr>"
  obtain r b' where r: "apply_snapshot ?s book_sample = (r, b')" by fastforce
  have v: "fst (apply_snapshot ?s book_sample) = ERROR_INVALID_PRICE" by code_simp
  show ?thesis using snapshot_rejected[OF r] r v by auto
qed

subsection \<open>Prices and indices\<close>

lemma eta_le: "2 powi (- 900) \<le> t \<Longrightarrow> 2 powi (- 1075) \<le> t / (2 ^ 100 :: rat)"
proof -
  assume t: "2 powi (- 900) \<le> t"
  have "(2::rat) powi (- 1075) * 2 ^ 100 = 2 powi (- 975)"
    using power_int_add[of "2::rat" "- 1075" 100] by simp
  also have "\<dots> \<le> 2 powi (- 900)" by (intro powi_mono) simp
  finally show ?thesis using t by (simp add: field_simps)
qed

lemma tri0: "\<bar>a - b\<bar> \<le> x \<Longrightarrow> \<bar>b\<bar> \<le> y \<Longrightarrow> \<bar>a\<bar> \<le> x + (y :: rat)"
  by linarith

lemma tri: "\<bar>a - b\<bar> \<le> x \<Longrightarrow> \<bar>b - c\<bar> \<le> y \<Longrightarrow> \<bar>a - c\<bar> \<le> x + (y :: rat)"
  by linarith

text \<open>The four roundings of price and index, each within a small multiple of the tick.\<close>

lemma grid_error:
  fixes t p0 :: rat
  assumes t: "2 powi (- 900) \<le> t" and p0: "0 \<le> p0" "p0 \<le> 2 ^ 40 * t" and i: "i \<le> 2 ^ 20"
  defines "s \<equiv> rnd (of_nat i * t)" and "p \<equiv> rnd (p0 + rnd (of_nat i * t))"
  defines "d \<equiv> rnd (rnd (p0 + rnd (of_nat i * t)) - p0)"
  shows "\<bar>s\<bar> \<le> 2 ^ 21 * t" "\<bar>p\<bar> \<le> 2 ^ 42 * t" "\<bar>p - p0\<bar> \<le> 2 ^ 21 * t" "\<bar>d\<bar> \<le> 2 ^ 22 * t"
    "\<bar>d / t\<bar> \<le> 2 ^ 22" "\<bar>rnd (d / t) - of_nat i\<bar> < 1 / 2"
proof -
  have t0: "0 < t" using t powi_pos[of "- 900"] by linarith
  have eta: "\<bar>rnd x - x\<bar> \<le> B / 2 ^ 53 + t / 2 ^ 100" if "\<bar>x\<bar> \<le> B" for x B
    using rnd_rel_le[OF that] eta_le[OF t] by linarith
  have "rat_of_nat i \<le> 2 ^ 20" using i by (metis of_nat_le_iff of_nat_numeral of_nat_power)
  then have it: "\<bar>of_nat i * t\<bar> \<le> 2 ^ 20 * t" using t0 by (simp add: mult_right_mono)
  have es: "\<bar>s - of_nat i * t\<bar> \<le> t / 2 ^ 32"
    unfolding s_def using t0 by (intro order_trans[OF eta[OF it]]) (simp add: field_simps)
  show s: "\<bar>s\<bar> \<le> 2 ^ 21 * t" using t0 by (intro order_trans[OF tri0[OF es it]]) (simp add: field_simps)
  have "\<bar>p0 + s\<bar> \<le> 2 ^ 40 * t + 2 ^ 21 * t" using s p0 by linarith
  note ps = eta[OF this]
  have ep: "\<bar>p - (p0 + s)\<bar> \<le> t / 2 ^ 11"
    using t0 ps unfolding p_def s_def by (elim order_trans) (simp add: field_simps)
  have ps': "\<bar>p0 + s\<bar> \<le> 2 ^ 41 * t" using s p0 by (simp add: abs_le_iff)
  have "t / 2 ^ 11 + 2 ^ 41 * t \<le> 2 ^ 42 * t" using t0 by simp
  then show p: "\<bar>p\<bar> \<le> 2 ^ 42 * t" using tri0[OF ep ps'] by (rule order_trans[rotated])
  have ep': "\<bar>(p - p0) - s\<bar> \<le> t / 2 ^ 11" using ep by (simp add: algebra_simps)
  have epi: "\<bar>(p - p0) - of_nat i * t\<bar> \<le> t / 2 ^ 10"
    using t0 by (intro order_trans[OF tri[OF ep' es]]) (simp add: field_simps)
  then show pp: "\<bar>p - p0\<bar> \<le> 2 ^ 21 * t" using t0 by (intro order_trans[OF tri0[OF epi it]]) (simp add: field_simps)
  have ed: "\<bar>d - (p - p0)\<bar> \<le> t / 2 ^ 30"
    using t0 eta[OF pp] unfolding d_def p_def by (elim order_trans) (simp add: field_simps)
  show d: "\<bar>d\<bar> \<le> 2 ^ 22 * t" using t0 by (intro order_trans[OF tri0[OF ed pp]]) (simp add: field_simps)
  have "\<bar>d - of_nat i * t\<bar> \<le> t / 2 ^ 9"
    using t0 by (intro order_trans[OF tri[OF ed epi]]) (simp add: field_simps)
  moreover have "d / t - of_nat i = (d - of_nat i * t) / t" using t0 by (simp add: field_simps)
  ultimately have r: "\<bar>d / t - of_nat i\<bar> \<le> 1 / 2 ^ 9" using t0 by (simp add: abs_divide field_simps)
  show dt: "\<bar>d / t\<bar> \<le> 2 ^ 22" using d t0 by (simp add: abs_divide field_simps)
  have "(2::rat) powi (- 1075) \<le> 2 powi (- 20)" by (intro powi_mono) simp
  also have "(2::rat) powi (- 20) = 1 / 2 ^ 20" by (simp add: power_int_def field_simps)
  finally have "\<bar>rnd (d / t) - d / t\<bar> \<le> 1 / 2 ^ 9"
    using rnd_rel_le[OF dt] by simp
  from tri[OF this r] show "\<bar>rnd (d / t) - of_nat i\<bar> < 1 / 2" by simp
qed

text \<open>
  The grid is exact for its own prices: on a grid of up to $2^{20}$ levels whose base is at most
  $2^{40}$ ticks, the price computed for an index is mapped back to the same index, in spite of
  the four roundings on the way.
\<close>

theorem grid_round_trip:
  assumes "ob_initialized b" and "ob_tick_size b = Fin t" and "ob_base_price b = Fin p0"
    and "2 powi (- 900) \<le> t" and "t \<le> 2 powi 900" and "0 \<le> p0" and "p0 \<le> 2 ^ 40 * t"
    and "ob_active_levels b \<le> 2 ^ 20" and "i < ob_active_levels b"
  shows "price_to_index b (index_to_price b i) = Some i"
proof -
  have i: "i \<le> 2 ^ 20" using assms(8,9) by simp
  have t0: "0 < t" using assms(4) powi_pos[of "- 900"] by linarith
  note g = grid_error[OF assms(4,6,7) i]
  have big: "\<bar>x\<bar> \<le> 2 powi 1000" if "\<bar>x\<bar> \<le> 2 ^ 43 * t" for x
  proof -
    have "(2::rat) ^ 43 * t \<le> 2 ^ 43 * 2 powi 900" using assms(5) by simp
    also have "\<dots> = 2 powi 943" using power_int_add[of "2::rat" 43 900] by simp
    also have "\<dots> \<le> 2 powi 1000" by (intro powi_mono) simp
    finally show ?thesis using that by simp
  qed
  let ?s = "rnd (of_nat i * t)"
  let ?p = "rnd (p0 + ?s)"
  let ?d = "rnd (?p - p0)"
  have "rat_of_nat i \<le> 2 ^ 20" using i by (metis of_nat_le_iff of_nat_numeral of_nat_power)
  then have it: "\<bar>of_nat i * t\<bar> \<le> 2 ^ 43 * t" using t0 by (simp add: mult_right_mono)
  have oi: "of_integer (int i) = Fin (of_nat i)" using of_integer_exact[of "int i"] i by simp
  let ?S = "of_integer (int i) * Fin t"
  have S: "isfinite ?S" "fval ?S = ?s"
    unfolding oi using pack_small[OF big[OF it]] by (simp_all add: times_double_def)
  have "\<bar>p0 + ?s\<bar> \<le> 2 ^ 43 * t" using g(1) assms(6,7) t0 by (simp add: abs_le_iff)
  note P = pack_small[OF big[OF this]]
  have P: "isfinite (index_to_price b i)" "fval (index_to_price b i) = ?p"
    using S P assms(2,3) by (simp_all add: index_to_price_def finite_add)
  have "\<bar>?p - p0\<bar> \<le> 2 ^ 43 * t" using g(3) t0 by simp
  note D = pack_small[OF big[OF this]]
  let ?D = "index_to_price b i - ob_base_price b"
  have D: "isfinite ?D" "fval ?D = ?d"
    using P D assms(3) by (simp_all add: minus_double_def finite_add)
  have "\<bar>?d / t\<bar> \<le> 2 powi 22" using g(5) by simp
  also have "(2::rat) powi 22 \<le> 2 powi 1000" by (intro powi_mono) simp
  finally have R: "\<bar>?d / t\<bar> \<le> 2 powi 1000" .
  have "isfinite (?D / ob_tick_size b)" "fval (?D / ob_tick_size b) = rnd (?d / t)"
    using D pack_small[OF R] assms(2) t0 by (simp_all add: divide_double_def)
  then have "llround (?D / ob_tick_size b) = int i"
    using g(6) i by (intro llround_near) simp_all
  then show ?thesis using assms(1,9) by (simp add: price_to_index_def Let_def)
qed

theorem grid_round_trip_witness: "price_to_index book_sample (index_to_price book_sample 5) = Some 5"
proof (rule grid_round_trip[where t = 1 and ?p0.0 = 100])
  show "(2::rat) powi (- 900) \<le> 1" using powi_mono[of "- 900" 0] by simp
  show "(1::rat) \<le> 2 powi 900" using powi_mono[of 0 900] by simp
qed (simp_all add: book_sample_def ob_init_def one_double_def)

end
