(* ===== verification/Position_Ledger.thy ===== *)
theory Position_Ledger
  imports Trading_Types
begin

text \<open>
  \<^verbatim>\<open>core/execution/common/portfolio/position_ledger.hpp\<close> and the tables of
  \<^verbatim>\<open>core/execution/common/reconciliation/reconciliation_types.hpp\<close>. The ledger keeps four slots,
  one per pair of exchange and symbol. The steady clock is the argument \<open>now\<close> in
  nanoseconds, a default-constructed time point is 0. \<open>snapshot\<close> declares its result without
  initialising the numeric members and then adds to them: their content is the argument
  \<open>out\<close>.
\<close>

subsection \<open>Reconciliation records\<close>

text \<open>A \<open>FixedTable\<close> is the list of its first \<open>size\<close> items.\<close>

definition ft_push :: "nat \<Rightarrow> 'a \<Rightarrow> 'a list \<Rightarrow> bool \<times> 'a list" where
  "ft_push cap value t = (if length t \<ge> cap then (False, t) else (True, t @ [value]))"

record ReconciledOrder =
  ro_client_order_id :: u64
  ro_venue_order_id :: string
  ro_symbol :: string
  ro_side :: Side
  ro_quantity :: double
  ro_filled_quantity :: double
  ro_price :: double
  ro_state :: OrderState

record ReconciledFill =
  rf_client_order_id :: u64
  rf_venue_order_id :: string
  rf_venue_trade_id :: string
  rf_symbol :: string
  rf_exchange :: Exchange
  rf_side :: Side
  rf_quantity :: double
  rf_price :: double
  rf_notional :: double
  rf_fee :: double
  rf_fee_asset :: string
  rf_exchange_ts_ns :: int

record ReconciledBalance =
  rb_asset :: string
  rb_total :: double
  rb_available :: double

record ReconciledPosition =
  rp_symbol :: string
  rp_position_side :: string
  rp_quantity :: double
  rp_avg_entry_price :: double
  rp_leverage :: double
  rp_opened_at_ns :: int

record ReconciliationSnapshot =
  rs_open_orders :: "ReconciledOrder list"
  rs_fills :: "ReconciledFill list"
  rs_balances :: "ReconciledBalance list"
  rs_positions :: "ReconciledPosition list"

definition rs_clear :: "ReconciliationSnapshot \<Rightarrow> ReconciliationSnapshot" where
  "rs_clear s = s\<lparr>rs_open_orders := [], rs_fills := [], rs_balances := [], rs_positions := []\<rparr>"

definition copy_cstr :: "nat \<Rightarrow> string \<Rightarrow> string \<Rightarrow> string" where
  "copy_cstr dst_size dst src = (if dst_size = 0 then dst else buf_copy dst_size src)"

subsection \<open>The ledger\<close>

record VenuePosition =
  vp_exchange :: Exchange
  vp_symbol :: string
  vp_position :: double
  vp_avg_entry_price :: double
  vp_leverage :: double
  vp_realized_pnl :: double
  vp_pending_bid_qty :: double
  vp_pending_ask_qty :: double
  vp_mid_price :: double
  vp_opened_at :: int
  vp_has_inventory_age :: bool
  vp_marked_for_reconcile :: bool
  vp_active :: bool

record PositionLedger =
  lg_venues :: "VenuePosition list"
  lg_symbol :: string

definition MAX_VENUES :: nat where "MAX_VENUES = 4"

definition mk_VenuePosition :: VenuePosition where
  "mk_VenuePosition = \<lparr>vp_exchange = BINANCE, vp_symbol = [], vp_position = 0, vp_avg_entry_price = 0,
     vp_leverage = 0, vp_realized_pnl = 0, vp_pending_bid_qty = 0, vp_pending_ask_qty = 0,
     vp_mid_price = 0, vp_opened_at = 0, vp_has_inventory_age = False, vp_marked_for_reconcile = False,
     vp_active = False\<rparr>"

text \<open>The symbol buffer of a new ledger is not initialised: its content is an argument.\<close>

definition lg_init :: "string \<Rightarrow> PositionLedger" where
  "lg_init garbage = \<lparr>lg_venues = replicate MAX_VENUES mk_VenuePosition, lg_symbol = garbage\<rparr>"

definition find_venue :: "Exchange \<Rightarrow> string \<Rightarrow> PositionLedger \<Rightarrow> nat option" where
  "find_venue exchange symbol lg =
     find_slot (\<lambda>v. vp_active v \<and> vp_exchange v = exchange \<and> strncmp_eq 16 (vp_symbol v) symbol) (lg_venues lg)"

definition find_or_create_venue :: "Exchange \<Rightarrow> string \<Rightarrow> PositionLedger \<Rightarrow> nat option \<times> PositionLedger" where
  "find_or_create_venue exchange symbol lg =
     (case find_venue exchange symbol lg of
        Some i \<Rightarrow> (Some i, lg)
      | None \<Rightarrow>
          (case find_slot (\<lambda>v. \<not> vp_active v) (lg_venues lg) of
             Some i \<Rightarrow> (Some i, lg\<lparr>lg_venues := (lg_venues lg)[i := mk_VenuePosition
                 \<lparr>vp_exchange := exchange, vp_active := True, vp_symbol := buf_copy 16 symbol\<rparr>]\<rparr>)
           | None \<Rightarrow> (None, lg)))"

definition update_venue :: "nat \<Rightarrow> (VenuePosition \<Rightarrow> VenuePosition) \<Rightarrow> PositionLedger \<Rightarrow> PositionLedger" where
  "update_venue i f lg = lg\<lparr>lg_venues := (lg_venues lg)[i := f (lg_venues lg ! i)]\<rparr>"

definition add_pending :: "Side \<Rightarrow> double \<Rightarrow> VenuePosition \<Rightarrow> VenuePosition" where
  "add_pending side qty v =
     (if side = BID then v\<lparr>vp_pending_bid_qty := vp_pending_bid_qty v + qty\<rparr>
      else v\<lparr>vp_pending_ask_qty := vp_pending_ask_qty v + qty\<rparr>)"

definition on_order_submitted :: "Order \<Rightarrow> PositionLedger \<Rightarrow> PositionLedger" where
  "on_order_submitted order lg =
     (case find_or_create_venue (o_exchange order) (o_symbol order) lg of
        (None, lg) \<Rightarrow> lg
      | (Some i, lg) \<Rightarrow>
          (update_venue i (add_pending (o_side order) (o_quantity order)) lg)
          \<lparr>lg_symbol := buf_copy 16 (o_symbol order)\<rparr>)"

definition release_pending :: "Side \<Rightarrow> double \<Rightarrow> VenuePosition \<Rightarrow> VenuePosition" where
  "release_pending side qty v =
     (if side = BID then v\<lparr>vp_pending_bid_qty := std_max 0 (vp_pending_bid_qty v - qty)\<rparr>
      else v\<lparr>vp_pending_ask_qty := std_max 0 (vp_pending_ask_qty v - qty)\<rparr>)"

definition on_order_closed :: "Order \<Rightarrow> double \<Rightarrow> PositionLedger \<Rightarrow> PositionLedger" where
  "on_order_closed order remaining_qty lg =
     (case find_venue (o_exchange order) (o_symbol order) lg of
        None \<Rightarrow> lg
      | Some i \<Rightarrow> update_venue i (release_pending (o_side order) (std_max 0 remaining_qty)) lg)"

definition position_sign :: "double \<Rightarrow> int" where
  "position_sign x = (if x > 0 then 1 else 0) - (if x < 0 then 1 else 0)"

definition apply_inventory_fill :: "Side \<Rightarrow> double \<Rightarrow> double \<Rightarrow> int \<Rightarrow> VenuePosition \<Rightarrow> VenuePosition" where
  "apply_inventory_fill side qty price now v =
     (if qty \<le> 0 \<or> price \<le> 0 then v
      else
        let signed_qty = (if side = BID then qty else - qty);
            prior_position = vp_position v;
            prior_sign = position_sign prior_position;
            fill_sign = position_sign signed_qty;
            abs_prior = \<bar>prior_position\<bar>;
            abs_fill = \<bar>signed_qty\<bar>;
            new_position = prior_position + signed_qty
        in if prior_sign = 0 \<or> prior_sign = fill_sign then
             let total_qty = abs_prior + abs_fill;
                 v = v\<lparr>vp_avg_entry_price :=
                         (if total_qty > 0 then (vp_avg_entry_price v * abs_prior + price * abs_fill) / total_qty else 0),
                       vp_position := new_position\<rparr>;
                 v = (if deq prior_position 0 \<and> \<not> deq new_position 0
                      then v\<lparr>vp_opened_at := now, vp_has_inventory_age := True\<rparr> else v)
             in (if deq new_position 0 then v\<lparr>vp_avg_entry_price := 0, vp_has_inventory_age := False\<rparr> else v)
           else
             let closing_qty = std_min abs_prior abs_fill;
                 v = (if prior_position > 0
                      then v\<lparr>vp_realized_pnl := vp_realized_pnl v + (price - vp_avg_entry_price v) * closing_qty\<rparr>
                      else v\<lparr>vp_realized_pnl := vp_realized_pnl v + (vp_avg_entry_price v - price) * closing_qty\<rparr>)
             in if deq new_position 0
                then v\<lparr>vp_position := 0, vp_avg_entry_price := 0, vp_has_inventory_age := False\<rparr>
                else
                  let v = v\<lparr>vp_position := new_position\<rparr>
                  in if position_sign new_position \<noteq> prior_sign
                     then v\<lparr>vp_avg_entry_price := price, vp_opened_at := now, vp_has_inventory_age := True\<rparr>
                     else v)"

definition fill_venue :: "Side \<Rightarrow> double \<Rightarrow> double \<Rightarrow> int \<Rightarrow> VenuePosition \<Rightarrow> VenuePosition" where
  "fill_venue side qty price now v = apply_inventory_fill side qty price now (release_pending side qty v)"

definition on_fill :: "Order \<Rightarrow> FillUpdate \<Rightarrow> int \<Rightarrow> PositionLedger \<Rightarrow> PositionLedger" where
  "on_fill order fill now lg =
     (case find_or_create_venue (o_exchange order) (o_symbol order) lg of
        (None, lg) \<Rightarrow> lg
      | (Some i, lg) \<Rightarrow>
          update_venue i (fill_venue (o_side order) (fu_fill_qty fill) (fu_fill_price fill) now)
            (lg\<lparr>lg_symbol := buf_copy 16 (o_symbol order)\<rparr>))"

definition update_mid_price :: "string \<Rightarrow> Exchange \<Rightarrow> double \<Rightarrow> PositionLedger \<Rightarrow> PositionLedger" where
  "update_mid_price symbol exchange mid_price lg =
     (case find_or_create_venue exchange symbol lg of
        (None, lg) \<Rightarrow> lg
      | (Some i, lg) \<Rightarrow>
          (update_venue i (\<lambda>v. v\<lparr>vp_mid_price := mid_price\<rparr>) lg)\<lparr>lg_symbol := buf_copy 16 symbol\<rparr>)"

subsection \<open>Reconciliation with the venue\<close>

definition reconcile_venue :: "ReconciledPosition \<Rightarrow> int \<Rightarrow> int \<Rightarrow> VenuePosition \<Rightarrow> VenuePosition" where
  "reconcile_venue p now_sys now v =
     (let v = v\<lparr>vp_position := rp_quantity p, vp_avg_entry_price := rp_avg_entry_price p,
                vp_leverage := rp_leverage p, vp_marked_for_reconcile := False\<rparr>
      in if deq (vp_position v) 0 then v\<lparr>vp_has_inventory_age := False, vp_opened_at := 0\<rparr>
         else if \<not> vp_has_inventory_age v then
           v\<lparr>vp_opened_at :=
               (if rp_opened_at_ns p > 0
                then now - (if now_sys > rp_opened_at_ns p then now_sys - rp_opened_at_ns p else 0)
                else now),
             vp_has_inventory_age := True\<rparr>
         else v)"

definition reconcile_one :: "Exchange \<Rightarrow> int \<Rightarrow> int \<Rightarrow> ReconciledPosition \<Rightarrow> PositionLedger \<Rightarrow> PositionLedger" where
  "reconcile_one exchange now_sys now p lg =
     (case find_or_create_venue exchange (rp_symbol p) lg of
        (None, lg) \<Rightarrow> lg
      | (Some i, lg) \<Rightarrow>
          (update_venue i (reconcile_venue p now_sys now) lg)\<lparr>lg_symbol := buf_copy 16 (rp_symbol p)\<rparr>)"

definition flatten_venue :: "VenuePosition \<Rightarrow> VenuePosition" where
  "flatten_venue v = v\<lparr>vp_position := 0, vp_avg_entry_price := 0, vp_leverage := 0,
     vp_has_inventory_age := False, vp_opened_at := 0, vp_marked_for_reconcile := False\<rparr>"

definition mark_venue :: "Exchange \<Rightarrow> VenuePosition \<Rightarrow> VenuePosition" where
  "mark_venue exchange v =
     (if vp_active v \<and> vp_exchange v = exchange then v\<lparr>vp_marked_for_reconcile := True\<rparr> else v)"

definition sweep_venue :: "Exchange \<Rightarrow> VenuePosition \<Rightarrow> VenuePosition" where
  "sweep_venue exchange v =
     (if \<not> vp_active v \<or> vp_exchange v \<noteq> exchange then v
      else if \<not> vp_marked_for_reconcile v then v else flatten_venue v)"

definition reconcile_positions ::
  "Exchange \<Rightarrow> ReconciliationSnapshot \<Rightarrow> int \<Rightarrow> int \<Rightarrow> PositionLedger \<Rightarrow> PositionLedger" where
  "reconcile_positions exchange snapshot now_sys now lg =
     (let lg = lg\<lparr>lg_venues := map (mark_venue exchange) (lg_venues lg)\<rparr>;
          lg = fold (reconcile_one exchange now_sys now) (rs_positions snapshot) lg
      in lg\<lparr>lg_venues := map (sweep_venue exchange) (lg_venues lg)\<rparr>)"

subsection \<open>Reading the ledger\<close>

definition venue_inventory_age_ms :: "int \<Rightarrow> VenuePosition \<Rightarrow> int" where
  "venue_inventory_age_ms now v =
     (if \<not> vp_has_inventory_age v \<or> deq (vp_position v) 0 then 0
      else (now - vp_opened_at v) sdiv 1000000)"

definition compute_unrealized_pnl :: "VenuePosition \<Rightarrow> double" where
  "compute_unrealized_pnl v =
     (if deq (vp_position v) 0 \<or> vp_avg_entry_price v \<le> 0 \<or> vp_mid_price v \<le> 0 then 0
      else if vp_position v > 0 then (vp_mid_price v - vp_avg_entry_price v) * vp_position v
      else (vp_avg_entry_price v - vp_mid_price v) * (- vp_position v))"

record PositionLedgerVenueSnapshot =
  vs_exchange :: Exchange
  vs_symbol :: string
  vs_position :: double
  vs_avg_entry_price :: double
  vs_leverage :: double
  vs_realized_pnl :: double
  vs_unrealized_pnl :: double
  vs_pending_bid_qty :: double
  vs_pending_ask_qty :: double
  vs_mid_price :: double
  vs_inventory_age_ms :: int
  vs_active :: bool

record PositionLedgerSnapshot =
  ls_symbol :: string
  ls_global_position :: double
  ls_global_avg_entry_price :: double
  ls_realized_pnl :: double
  ls_unrealized_pnl :: double
  ls_pending_bid_qty :: double
  ls_pending_ask_qty :: double
  ls_mid_price :: double
  ls_oldest_inventory_age_ms :: int
  ls_venue_count :: nat
  ls_venues :: "PositionLedgerVenueSnapshot list"

definition build_venue_snapshot :: "int \<Rightarrow> VenuePosition \<Rightarrow> PositionLedgerVenueSnapshot" where
  "build_venue_snapshot now v = \<lparr>vs_exchange = vp_exchange v, vs_symbol = buf_copy 16 (vp_symbol v),
     vs_position = vp_position v, vs_avg_entry_price = vp_avg_entry_price v, vs_leverage = vp_leverage v,
     vs_realized_pnl = vp_realized_pnl v, vs_unrealized_pnl = compute_unrealized_pnl v,
     vs_pending_bid_qty = vp_pending_bid_qty v, vs_pending_ask_qty = vp_pending_ask_qty v,
     vs_mid_price = vp_mid_price v, vs_inventory_age_ms = venue_inventory_age_ms now v, vs_active = True\<rparr>"

fun weighted_entry_loop :: "VenuePosition list \<Rightarrow> double \<Rightarrow> double \<Rightarrow> int \<Rightarrow> double" where
  "weighted_entry_loop [] weighted_notional total_qty net_sign =
     (if deq total_qty 0 then 0 else weighted_notional / total_qty)"
| "weighted_entry_loop (v # vs) weighted_notional total_qty net_sign =
     (if \<not> vp_active v \<or> deq (vp_position v) 0 \<or> vp_avg_entry_price v \<le> 0
      then weighted_entry_loop vs weighted_notional total_qty net_sign
      else
        let sgn = position_sign (vp_position v); net_sign = (if net_sign = 0 then sgn else net_sign)
        in if sgn \<noteq> net_sign then 0
           else weighted_entry_loop vs (weighted_notional + \<bar>vp_position v\<bar> * vp_avg_entry_price v)
                  (total_qty + \<bar>vp_position v\<bar>) net_sign)"

definition compute_weighted_average_entry_price :: "PositionLedger \<Rightarrow> double" where
  "compute_weighted_average_entry_price lg = weighted_entry_loop (lg_venues lg) 0 0 0"

datatype snapshot_fault = Venue_Index_Out_Of_Range

definition snapshot_add ::
  "int \<Rightarrow> VenuePosition \<Rightarrow> PositionLedgerSnapshot \<Rightarrow> snapshot_fault + PositionLedgerSnapshot" where
  "snapshot_add now v out =
     (if \<not> vp_active v then Inr out
      else if ls_venue_count out \<ge> length (ls_venues out) then Inl Venue_Index_Out_Of_Range
      else Inr (out\<lparr>
        ls_venues := (ls_venues out)[ls_venue_count out := build_venue_snapshot now v],
        ls_venue_count := ls_venue_count out + 1,
        ls_global_position := ls_global_position out + vp_position v,
        ls_realized_pnl := ls_realized_pnl out + vp_realized_pnl v,
        ls_unrealized_pnl := ls_unrealized_pnl out + compute_unrealized_pnl v,
        ls_pending_bid_qty := ls_pending_bid_qty out + vp_pending_bid_qty v,
        ls_pending_ask_qty := ls_pending_ask_qty out + vp_pending_ask_qty v,
        ls_mid_price := (if vp_mid_price v > 0 then vp_mid_price v else ls_mid_price out),
        ls_oldest_inventory_age_ms := (if \<not> deq (vp_position v) 0
          then max (ls_oldest_inventory_age_ms out) (venue_inventory_age_ms now v)
          else ls_oldest_inventory_age_ms out)\<rparr>))"

fun snapshot_loop ::
  "int \<Rightarrow> VenuePosition list \<Rightarrow> PositionLedgerSnapshot \<Rightarrow> snapshot_fault + PositionLedgerSnapshot" where
  "snapshot_loop now [] out = Inr out"
| "snapshot_loop now (v # vs) out =
     (case snapshot_add now v out of Inl e \<Rightarrow> Inl e | Inr out \<Rightarrow> snapshot_loop now vs out)"

definition snapshot :: "int \<Rightarrow> PositionLedgerSnapshot \<Rightarrow> PositionLedger \<Rightarrow> snapshot_fault + PositionLedgerSnapshot" where
  "snapshot now out lg =
     map_sum id (\<lambda>out. out\<lparr>ls_global_avg_entry_price := compute_weighted_average_entry_price lg\<rparr>)
       (snapshot_loop now (lg_venues lg) (out\<lparr>ls_symbol := buf_copy 16 (lg_symbol lg)\<rparr>))"

subsection \<open>Invariants of the slots\<close>

definition all_venues :: "(VenuePosition \<Rightarrow> bool) \<Rightarrow> PositionLedger \<Rightarrow> bool" where
  "all_venues P lg \<longleftrightarrow> (\<forall>v \<in> set (lg_venues lg). P v)"

lemma all_venues_nth: "all_venues P lg \<Longrightarrow> i < length (lg_venues lg) \<Longrightarrow> P (lg_venues lg ! i)"
  by (simp add: all_venues_def)

lemma all_venues_update:
  "all_venues P lg \<Longrightarrow> i < length (lg_venues lg) \<Longrightarrow> (\<And>v. P v \<Longrightarrow> P (f v)) \<Longrightarrow> all_venues P (update_venue i f lg)"
  using set_update_subset_insert[of "lg_venues lg" i "f (lg_venues lg ! i)"]
  by (auto simp: all_venues_def update_venue_def)

lemma all_venues_symbol [simp]: "all_venues P (lg\<lparr>lg_symbol := s\<rparr>) = all_venues P lg"
  by (simp add: all_venues_def)

lemma update_venue_simps [simp]:
  "length (lg_venues (update_venue i f lg)) = length (lg_venues lg)"
  "lg_venues (lg\<lparr>lg_symbol := s\<rparr>) = lg_venues lg"
  by (simp_all add: update_venue_def)

definition fresh_venue :: "Exchange \<Rightarrow> string \<Rightarrow> VenuePosition" where
  "fresh_venue e s = mk_VenuePosition\<lparr>vp_exchange := e, vp_active := True, vp_symbol := buf_copy 16 s\<rparr>"

lemma find_or_create_cases:
  obtains (found) i where "find_or_create_venue e s lg = (Some i, lg)" "find_venue e s lg = Some i" "i < length (lg_venues lg)"
  | (created) i where "find_or_create_venue e s lg = (Some i, lg\<lparr>lg_venues := (lg_venues lg)[i := fresh_venue e s]\<rparr>)"
      "find_venue e s lg = None" "i < length (lg_venues lg)" "\<not> vp_active (lg_venues lg ! i)"
  | (full) "find_or_create_venue e s lg = (None, lg)" "find_venue e s lg = None" "\<forall>v \<in> set (lg_venues lg). vp_active v"
proof (cases "find_venue e s lg")
  case None
  note n = None
  show ?thesis
  proof (cases "find_slot (\<lambda>v. \<not> vp_active v) (lg_venues lg)")
    case None
    then have "\<forall>v \<in> set (lg_venues lg). vp_active v" by (simp add: find_slot_None)
    with n None show ?thesis by (intro full) (simp_all add: find_or_create_venue_def)
  next
    case (Some i)
    with n find_slot_SomeD[OF Some] show ?thesis
      by (intro created[of i]) (auto simp: find_or_create_venue_def fresh_venue_def)
  qed
next
  case (Some i)
  then have "i < length (lg_venues lg)" by (auto simp: find_venue_def dest: find_slot_length)
  with Some show ?thesis by (intro found[of i]) (simp_all add: find_or_create_venue_def)
qed

lemma find_or_create_None: "find_or_create_venue e s lg = (None, lg') \<Longrightarrow> lg' = lg"
  by (cases rule: find_or_create_cases[of e s lg]) auto

lemma find_or_create_all:
  assumes "find_or_create_venue e s lg = (Some i, lg')" "all_venues P lg" "P (fresh_venue e s)"
  shows "all_venues P lg' \<and> i < length (lg_venues lg') \<and> length (lg_venues lg') = length (lg_venues lg)"
proof (cases rule: find_or_create_cases[of e s lg])
  case (created j)
  with assms set_update_subset_insert[of "lg_venues lg" j "fresh_venue e s"] show ?thesis
    by (auto simp: all_venues_def)
qed (use assms in auto)

datatype ledger_op = Submitted Order | Closed Order double | Filled Order FillUpdate int
  | Mid string Exchange double | Reconciled Exchange ReconciliationSnapshot int int

fun ledger_step :: "ledger_op \<Rightarrow> PositionLedger \<Rightarrow> PositionLedger" where
  "ledger_step (Submitted o1) lg = on_order_submitted o1 lg"
| "ledger_step (Closed o1 rem) lg = on_order_closed o1 rem lg"
| "ledger_step (Filled o1 u now) lg = on_fill o1 u now lg"
| "ledger_step (Mid sy e m) lg = update_mid_price sy e m lg"
| "ledger_step (Reconciled e rs now_sys now) lg = reconcile_positions e rs now_sys now lg"

text \<open>What must be shown of a property of slots for it to hold in every ledger.\<close>

lemma ledger_invariant:
  assumes fresh: "\<And>e s. P (fresh_venue e s)"
    and sub: "\<And>o1 v. Submitted o1 \<in> set ops \<Longrightarrow> P v \<Longrightarrow>
       P (v\<lparr>vp_pending_bid_qty := vp_pending_bid_qty v + o_quantity o1\<rparr>) \<and>
       P (v\<lparr>vp_pending_ask_qty := vp_pending_ask_qty v + o_quantity o1\<rparr>)"
    and rel: "\<And>sd q v. P v \<Longrightarrow> P (release_pending sd q v)"
    and fill: "\<And>sd q p now v. P v \<Longrightarrow> P (apply_inventory_fill sd q p now v)"
    and mid: "\<And>m v. P v \<Longrightarrow> P (v\<lparr>vp_mid_price := m\<rparr>)"
    and mark: "\<And>v. P v \<Longrightarrow> P (v\<lparr>vp_marked_for_reconcile := True\<rparr>)"
    and rec: "\<And>p a b v. P v \<Longrightarrow> P (reconcile_venue p a b v)"
    and flat: "\<And>v. P v \<Longrightarrow> P (flatten_venue v)"
  shows "all_venues P lg \<Longrightarrow> all_venues P (fold ledger_step ops lg)"
  using sub
proof (induction ops arbitrary: lg)
  case (Cons op ops)
  have upd: "all_venues P (update_venue i f lg')"
    if "find_or_create_venue e s lg0 = (Some i, lg')" "all_venues P lg0" "\<And>v. P v \<Longrightarrow> P (f v)" for e s i lg0 lg' f
    using find_or_create_all[OF that(1,2) fresh] that(3) by (intro all_venues_update) auto
  have one: "all_venues P (reconcile_one e a b p lg0)" if "all_venues P lg0" for e a b p lg0
  proof (cases "find_or_create_venue e (rp_symbol p) lg0")
    case (Pair j lg')
    then show ?thesis
      using that upd[OF _ that rec] find_or_create_None[of e "rp_symbol p" lg0 lg']
      by (cases j) (simp_all add: reconcile_one_def)
  qed
  have many: "all_venues P (fold (reconcile_one e a b) ps lg0)" if "all_venues P lg0" for e a b ps lg0
    using that by (induction ps arbitrary: lg0) (auto intro: one)
  have "all_venues P (ledger_step op lg)"
  proof (cases op)
    case (Submitted o1)
    show ?thesis
    proof (cases rule: find_or_create_cases[of "o_exchange o1" "o_symbol o1" lg])
      case full
      then show ?thesis using Submitted Cons.prems(1) by (simp add: on_order_submitted_def)
    qed (use Submitted Cons.prems upd in \<open>simp_all add: on_order_submitted_def add_pending_def\<close>)
  next
    case (Closed o1 rem)
    show ?thesis
    proof (cases "find_venue (o_exchange o1) (o_symbol o1) lg")
      case (Some i)
      then have "i < length (lg_venues lg)" by (auto simp: find_venue_def dest: find_slot_length)
      with Some Closed Cons.prems(1) rel show ?thesis by (simp add: on_order_closed_def all_venues_update)
    qed (use Closed Cons.prems(1) in \<open>simp add: on_order_closed_def\<close>)
  next
    case (Filled o1 u now)
    show ?thesis
    proof (cases "find_or_create_venue (o_exchange o1) (o_symbol o1) lg")
      case (Pair j lg')
      then show ?thesis
        using Filled fill rel Cons.prems(1) find_or_create_None[of "o_exchange o1" "o_symbol o1" lg lg']
          find_or_create_all[OF _ Cons.prems(1) fresh, of "o_exchange o1" "o_symbol o1" _ lg']
        by (cases j) (simp_all add: on_fill_def fill_venue_def all_venues_update)
    qed
  next
    case (Mid sy e m)
    show ?thesis
    proof (cases rule: find_or_create_cases[of e sy lg])
      case full
      then show ?thesis using Mid Cons.prems(1) by (simp add: update_mid_price_def)
    qed (use Mid Cons.prems(1) upd mid in \<open>simp_all add: update_mid_price_def\<close>)
  next
    case (Reconciled e rs a b)
    let ?lg = "lg\<lparr>lg_venues := map (mark_venue e) (lg_venues lg)\<rparr>"
    have "all_venues P ?lg" using Cons.prems(1) mark by (auto simp: all_venues_def mark_venue_def)
    then have "all_venues P (fold (reconcile_one e a b) (rs_positions rs) ?lg)" by (rule many)
    then show ?thesis using Reconciled flat
      by (auto simp: all_venues_def reconcile_positions_def Let_def sweep_venue_def)
  qed
  then show ?case using Cons.IH Cons.prems(2) by simp
qed simp

definition age_ok :: "VenuePosition \<Rightarrow> bool" where
  "age_ok v \<longleftrightarrow> (vp_has_inventory_age v \<longleftrightarrow> \<not> deq (vp_position v) 0)"

lemma deq_0 [simp]: "deq 0 0"
  by (simp add: dbl_ord_defs)

lemma position_sign_0: "deq p 0 \<Longrightarrow> position_sign p = 0"
  by (simp add: position_sign_def dbl_ord_defs)

lemma fill_age_ok: "age_ok v \<Longrightarrow> age_ok (apply_inventory_fill sd q p now v)"
  by (auto simp: age_ok_def apply_inventory_fill_def Let_def position_sign_0)

lemma reconcile_age_ok: "age_ok (reconcile_venue p a b v)"
  by (auto simp: age_ok_def reconcile_venue_def Let_def)

text \<open>
  Inventory age: through any sequence of submissions, closes, fills, mid-price updates and
  reconciliations a slot carries an opening time exactly while its position is not zero, so a
  flat venue always reports age zero.
\<close>

theorem flat_venues_have_no_age:
  "\<forall>v \<in> set (lg_venues (fold ledger_step ops (lg_init g))).
     (vp_has_inventory_age v \<longleftrightarrow> \<not> deq (vp_position v) 0) \<and>
     (deq (vp_position v) 0 \<longrightarrow> venue_inventory_age_ms now v = 0)"
proof -
  have "all_venues age_ok (fold ledger_step ops (lg_init g))"
  proof (rule ledger_invariant)
    show "all_venues age_ok (lg_init g)"
      by (auto simp: all_venues_def lg_init_def age_ok_def mk_VenuePosition_def)
  qed (auto simp: age_ok_def fresh_venue_def mk_VenuePosition_def release_pending_def flatten_venue_def
      fill_age_ok[unfolded age_ok_def] reconcile_age_ok[unfolded age_ok_def])
  then show ?thesis by (simp add: all_venues_def age_ok_def venue_inventory_age_ms_def)
qed

theorem flat_venues_have_no_age_witness:
  "venue_inventory_age_ms 5 (lg_venues (fold ledger_step [] (lg_init [])) ! 0) = 0"
  using flat_venues_have_no_age[of "[]" "[]" 5] by (simp add: lg_init_def mk_VenuePosition_def MAX_VENUES_def)

definition pending_ok :: "VenuePosition \<Rightarrow> bool" where
  "pending_ok v \<longleftrightarrow> 0 \<le> vp_pending_bid_qty v \<and> 0 \<le> vp_pending_ask_qty v"

lemma fill_pending [simp]:
  "vp_pending_bid_qty (apply_inventory_fill sd q p now v) = vp_pending_bid_qty v"
  "vp_pending_ask_qty (apply_inventory_fill sd q p now v) = vp_pending_ask_qty v"
  by (simp_all add: apply_inventory_fill_def Let_def)

lemma reconcile_pending [simp]:
  "vp_pending_bid_qty (reconcile_venue p a b v) = vp_pending_bid_qty v"
  "vp_pending_ask_qty (reconcile_venue p a b v) = vp_pending_ask_qty v"
  by (simp_all add: reconcile_venue_def Let_def)

text \<open>
  Pending quantities never go negative: if no submitted order has a negative or NaN quantity,
  then after any sequence of ledger operations, with whatever fills and remaining quantities
  the venue reported, both pending quantities of every slot are at least zero.
\<close>

theorem pending_never_negative:
  assumes "\<forall>o1. Submitted o1 \<in> set ops \<longrightarrow> 0 \<le> o_quantity o1"
  shows "\<forall>v \<in> set (lg_venues (fold ledger_step ops (lg_init g))).
    0 \<le> vp_pending_bid_qty v \<and> 0 \<le> vp_pending_ask_qty v"
proof -
  have "all_venues pending_ok (fold ledger_step ops (lg_init g))"
  proof (rule ledger_invariant)
    show "all_venues pending_ok (lg_init g)"
      by (auto simp: all_venues_def lg_init_def pending_ok_def mk_VenuePosition_def)
  qed (use assms in \<open>auto simp: pending_ok_def fresh_venue_def mk_VenuePosition_def release_pending_def
      flatten_venue_def intro!: add_nonneg\<close>)
  then show ?thesis by (simp add: all_venues_def pending_ok_def)
qed

definition order_sample :: Order where
  "order_sample = mk_Order\<lparr>o_symbol := ''BTC'', o_exchange := OKX, o_quantity := Fin 2, o_price := Fin 100\<rparr>"

theorem pending_never_negative_witness:
  "list_all (\<lambda>v. 0 \<le> vp_pending_bid_qty v)
     (lg_venues (fold ledger_step [Submitted order_sample, Closed order_sample (Fin 7)] (lg_init [])))"
proof -
  have "0 \<le> o_quantity order_sample" by (simp add: order_sample_def finite_le)
  then show ?thesis
    using pending_never_negative[of "[Submitted order_sample, Closed order_sample (Fin 7)]" "[]"]
    by (auto simp: list_all_iff)
qed

subsection \<open>Fills\<close>

lemma position_sign_pos: "0 < a \<Longrightarrow> position_sign a = 1" "0 < a \<Longrightarrow> position_sign (- a) = - 1"
  by (cases a; auto simp: position_sign_def dbl_ord_defs uminus_double_def zero_double_def)+

lemma zero_add: "deq z 0 \<Longrightarrow> dwf a \<Longrightarrow> 0 < a \<Longrightarrow> isfinite a \<Longrightarrow> z + a = a"
proof -
  assume a: "deq z 0" "dwf a" "0 < a" "isfinite a"
  have z: "isfinite z" "fval z = 0" using a(1) by (cases z; simp add: dbl_ord_defs)+
  have "a \<noteq> NZero" "fval a \<noteq> 0" using a(3,4) by (auto simp: finite_less)
  then show ?thesis using a(2,4) z by (simp add: finite_add pack_fval)
qed

lemma deq_sub_self: "isfinite a \<Longrightarrow> deq (a - a) 0" "isfinite a \<Longrightarrow> deq (a + - a) 0"
  using sub_self[of a] by (simp_all add: minus_double_def)

text \<open>
  A round trip realises its profit and flattens: from a flat slot, a buy of \<open>q\<close> at \<open>p1\<close> makes the
  position \<open>q\<close> exactly, and a sell of the same \<open>q\<close> at \<open>p2\<close> makes it flat again without an entry
  price or age and adds (p2 minus the entry price booked by the buy) times \<open>q\<close> to the
  realised result; nothing else of the slot changes.
\<close>

theorem fill_round_trip:
  assumes "deq (vp_position v) 0" and "0 < q" and "isfinite q" and "dwf q" and "0 < p1" and "0 < p2"
    and v1_def: "v1 = apply_inventory_fill BID q p1 t1 v" and v2_def: "v2 = apply_inventory_fill ASK q p2 t2 v1"
  shows "vp_position v1 = q \<and> vp_has_inventory_age v1 \<and> vp_opened_at v1 = t1 \<and>
    v2 = v1\<lparr>vp_position := 0, vp_avg_entry_price := 0, vp_has_inventory_age := False,
      vp_realized_pnl := vp_realized_pnl v + (p2 - vp_avg_entry_price v1) * q\<rparr>"
proof -
  have nle: "\<not> q \<le> 0" "\<not> p1 \<le> 0" "\<not> p2 \<le> 0" using assms(2,5,6) dbl_leD by auto
  have n0: "\<not> deq q 0" using assms(2) by (auto simp: dbl_ord_defs)
  have na: "isfinite (- q)" using assms(3) by simp
  have ab: "\<bar>q\<bar> = q" "\<bar>- q\<bar> = q"
    using assms(2,3) by (cases q; auto simp: abs_double_def uminus_double_def dbl_ord_defs zero_double_def)+
  have z: "vp_position v + q = q" by (rule zero_add[OF assms(1,4,2,3)])
  have v1: "v1 = v\<lparr>vp_avg_entry_price := vp_avg_entry_price v1, vp_position := q, vp_opened_at := t1,
      vp_has_inventory_age := True\<rparr>"
    using nle n0 assms(1) position_sign_0[OF assms(1)] z by (simp add: v1_def apply_inventory_fill_def Let_def)
  then obtain e where v1': "v1 = v\<lparr>vp_avg_entry_price := e, vp_position := q, vp_opened_at := t1,
      vp_has_inventory_age := True\<rparr>" by blast
  have pos: "vp_position v1 = q" "vp_has_inventory_age v1" "vp_opened_at v1 = t1"
      "vp_realized_pnl v1 = vp_realized_pnl v"
    by (simp_all add: v1')
  have "std_min q q = q" by (simp add: std_min_def)
  then have "v2 = v1\<lparr>vp_realized_pnl := vp_realized_pnl v + (p2 - vp_avg_entry_price v1) * q,
      vp_position := 0, vp_avg_entry_price := 0, vp_has_inventory_age := False\<rparr>"
    using nle pos assms(2) position_sign_pos[OF assms(2)] deq_sub_self(2)[OF assms(3)] ab
    by (simp add: v2_def apply_inventory_fill_def Let_def)
  then show ?thesis using pos by simp
qed

theorem fill_round_trip_witness:
  "vp_realized_pnl (apply_inventory_fill ASK (Fin 2) (Fin 110) 9
     (apply_inventory_fill BID (Fin 2) (Fin 100) 5 mk_VenuePosition)) = Fin 20"
proof -
  let ?v1 = "apply_inventory_fill BID (Fin 2) (Fin 100) 5 mk_VenuePosition"
  have d: "dwf (Fin 2)" using dwf_lit[of 2] by (simp add: lit_def) code_simp
  have "vp_realized_pnl (apply_inventory_fill ASK (Fin 2) (Fin 110) 9 ?v1) =
      vp_realized_pnl mk_VenuePosition + (Fin 110 - vp_avg_entry_price ?v1) * Fin 2"
    using fill_round_trip[of mk_VenuePosition "Fin 2" "Fin 100" "Fin 110" _ 5 _ 9, OF _ _ _ _ _ _ refl refl] d
    by (simp add: mk_VenuePosition_def finite_less)
  also have "\<dots> = Fin 20" by code_simp
  finally show ?thesis .
qed

subsection \<open>The ledger as a map\<close>

definition venue_map :: "PositionLedger \<Rightarrow> Exchange \<times> string \<Rightarrow> VenuePosition option" where
  "venue_map lg = key_map vp_active (\<lambda>v. (vp_exchange v, vp_symbol v)) (lg_venues lg)"

definition lg_ok :: "PositionLedger \<Rightarrow> bool" where
  "lg_ok lg \<longleftrightarrow> length (lg_venues lg) = MAX_VENUES \<and> (\<forall>v \<in> set (lg_venues lg). length (vp_symbol v) < 16) \<and>
     unique_keys vp_active (\<lambda>v. (vp_exchange v, vp_symbol v)) (lg_venues lg)"

lemma lg_init_ok: "lg_ok (lg_init g)"
  by (auto simp: lg_ok_def lg_init_def mk_VenuePosition_def intro!: unique_keys_replicate)

lemma find_venue_key:
  assumes "lg_ok lg" "length s < 16"
  shows "find_venue e s lg = find_slot (\<lambda>v. vp_active v \<and> (vp_exchange v, vp_symbol v) = (e, s)) (lg_venues lg)"
  unfolding find_venue_def using assms by (intro find_slot_cong) (auto simp: lg_ok_def strncmp_eq_short)

lemma venue_map_find:
  "lg_ok lg \<Longrightarrow> length s < 16 \<Longrightarrow> venue_map lg (e, s) = map_option ((!) (lg_venues lg)) (find_venue e s lg)"
  by (simp add: venue_map_def key_map_def find_venue_key)

text \<open>Every operation on one venue is an update of the map at its key.\<close>

lemma update_at_key:
  assumes ok: "lg_ok lg" and s: "length s < 16" and f: "find_or_create_venue e s lg = (Some i, lg')"
    and g: "\<And>v. vp_active (g v) = vp_active v \<and> vp_exchange (g v) = vp_exchange v \<and> vp_symbol (g v) = vp_symbol v"
  shows "lg_ok (update_venue i g lg') \<and> venue_map (update_venue i g lg') =
    (venue_map lg)((e, s) \<mapsto> g (case venue_map lg (e, s) of Some v \<Rightarrow> v | None \<Rightarrow> fresh_venue e s))"
proof -
  let ?K = "\<lambda>v. (vp_exchange v, vp_symbol v)"
  let ?v = "case venue_map lg (e, s) of Some v \<Rightarrow> v | None \<Rightarrow> fresh_venue e s"
  have u: "unique_keys vp_active ?K (lg_venues lg)" using ok by (simp add: lg_ok_def)
  have *: "i < length (lg_venues lg) \<and> lg_venues (update_venue i g lg') = (lg_venues lg)[i := g ?v] \<and>
      vp_active ?v \<and> ?K ?v = (e, s) \<and> (vp_active (lg_venues lg ! i) \<longrightarrow> ?K (lg_venues lg ! i) = (e, s)) \<and>
      (\<forall>j < length (lg_venues lg). j \<noteq> i \<longrightarrow> vp_active (lg_venues lg ! j) \<longrightarrow> ?K (lg_venues lg ! j) \<noteq> (e, s))"
  proof (cases rule: find_or_create_cases[of e s lg])
    case (found j)
    then have "j = i" "lg' = lg" using f by auto
    moreover have "vp_active (lg_venues lg ! j) \<and> ?K (lg_venues lg ! j) = (e, s)"
      using found(2) find_slot_holds unfolding find_venue_key[OF ok s] by fast
    moreover have v: "?v = lg_venues lg ! j" using found(2) by (simp add: venue_map_find[OF ok s])
    moreover have "?K (lg_venues lg ! k) \<noteq> (e, s)"
      if "k < length (lg_venues lg)" "k \<noteq> j" "vp_active (lg_venues lg ! k)" for k
      using unique_keysD[OF u that(1) found(3) that(3)] calculation(3) that(2) by auto
    ultimately show ?thesis using found(3) unfolding v by (simp add: update_venue_def)
  next
    case (created j)
    then have e: "j = i" "lg' = lg\<lparr>lg_venues := (lg_venues lg)[i := fresh_venue e s]\<rparr>" using f by auto
    have "?v = fresh_venue e s" using created(2) by (simp add: venue_map_find[OF ok s])
    moreover have "\<forall>v \<in> set (lg_venues lg). \<not> (vp_active v \<and> ?K v = (e, s))"
      using created(2) unfolding find_venue_key[OF ok s] find_slot_None .
    ultimately show ?thesis using created(3,4) e s
      by (auto simp: update_venue_def fresh_venue_def)
  qed (use f in simp)
  obtain V where V: "V = ?v" by blast
  note * = *[folded V]
  have "key_map vp_active ?K ((lg_venues lg)[i := g V]) = (key_map vp_active ?K (lg_venues lg))((e, s) \<mapsto> g V)"
    by (rule key_map_put[OF u]) (use * g in auto)
  then have "venue_map (update_venue i g lg') = (venue_map lg)((e, s) \<mapsto> g V)"
    using * by (simp add: venue_map_def)
  moreover have "unique_keys vp_active ?K ((lg_venues lg)[i := g V])"
    by (rule unique_keys_update[OF u]) (use * g in auto)
  moreover have "\<forall>v \<in> set ((lg_venues lg)[i := g V]). length (vp_symbol v) < 16"
    using set_update_subset_insert[of "lg_venues lg" i "g V"] ok * s g by (auto simp: lg_ok_def)
  ultimately show ?thesis using ok * unfolding V[symmetric] by (simp add: lg_ok_def)
qed

lemma apply_fill_key [simp]:
  "vp_active (apply_inventory_fill sd q p now v) = vp_active v"
  "vp_exchange (apply_inventory_fill sd q p now v) = vp_exchange v"
  "vp_symbol (apply_inventory_fill sd q p now v) = vp_symbol v"
  "vp_active (release_pending sd q v) = vp_active v" "vp_exchange (release_pending sd q v) = vp_exchange v"
  "vp_symbol (release_pending sd q v) = vp_symbol v"
  by (simp_all add: apply_inventory_fill_def release_pending_def Let_def)

lemma venue_map_symbol [simp]:
  "venue_map (lg\<lparr>lg_symbol := x\<rparr>) = venue_map lg" "lg_ok (lg\<lparr>lg_symbol := x\<rparr>) = lg_ok lg"
  by (simp_all add: venue_map_def lg_ok_def)

lemma update_venue_symbol: "update_venue i g (lg\<lparr>lg_symbol := x\<rparr>) = (update_venue i g lg)\<lparr>lg_symbol := x\<rparr>"
  by (simp add: update_venue_def)

text \<open>
  A fill is booked on exactly one venue: with a slot for the order's exchange and symbol (an
  existing or a free one) the fill releases the pending quantity and updates position, entry price
  and realised result of that pair, starting from an empty record if it is new, and leaves
  every other pair's record as it was.
\<close>

theorem fill_books_one_venue:
  assumes "lg_ok lg" and "length (o_symbol o1) < 16"
    and "fst (find_or_create_venue (o_exchange o1) (o_symbol o1) lg) \<noteq> None"
  shows "lg_ok (on_fill o1 u now lg) \<and> venue_map (on_fill o1 u now lg) =
    (venue_map lg)((o_exchange o1, o_symbol o1) \<mapsto>
       fill_venue (o_side o1) (fu_fill_qty u) (fu_fill_price u) now
         (case venue_map lg (o_exchange o1, o_symbol o1) of Some v \<Rightarrow> v
          | None \<Rightarrow> fresh_venue (o_exchange o1) (o_symbol o1)))"
proof -
  obtain i lg' where f: "find_or_create_venue (o_exchange o1) (o_symbol o1) lg = (Some i, lg')"
    using assms(3) by (cases "find_or_create_venue (o_exchange o1) (o_symbol o1) lg") auto
  show ?thesis
    using update_at_key[OF assms(1,2) f, of "fill_venue (o_side o1) (fu_fill_qty u) (fu_fill_price u) now"]
    by (simp add: on_fill_def f update_venue_symbol fill_venue_def)
qed

definition fill_sample :: FillUpdate where
  "fill_sample = mk_FillUpdate\<lparr>fu_client_order_id := 1, fu_fill_price := Fin 100, fu_fill_qty := Fin 2,
     fu_cumulative_filled_qty := Fin 2, fu_avg_fill_price := Fin 100, fu_new_state := FILLED\<rparr>"

theorem fill_books_one_venue_witness:
  "map_option vp_position (venue_map (on_fill order_sample fill_sample 5 (lg_init [])) (OKX, ''BTC'')) = Some (Fin 2)"
proof -
  have f: "fst (find_or_create_venue (o_exchange order_sample) (o_symbol order_sample) (lg_init [])) \<noteq> None"
    by code_simp
  have "venue_map (lg_init []) (OKX, ''BTC'') = None" by code_simp
  moreover have "vp_position (fill_venue (o_side order_sample) (fu_fill_qty fill_sample) (fu_fill_price fill_sample) 5
     (fresh_venue OKX ''BTC'')) = Fin 2" by code_simp
  ultimately show ?thesis
    using fill_books_one_venue[OF lg_init_ok _ f, of fill_sample 5] by (simp add: order_sample_def)
qed

subsection \<open>Reconciliation leaves no stale position\<close>

definition reported :: "ReconciledPosition list \<Rightarrow> VenuePosition \<Rightarrow> bool" where
  "reported ps v \<longleftrightarrow> (\<exists>p \<in> set ps. strncmp_eq 16 (vp_symbol v) (rp_symbol p) \<and>
     vp_position v = rp_quantity p \<and> vp_avg_entry_price v = rp_avg_entry_price p)"

definition reconciling :: "Exchange \<Rightarrow> PositionLedger \<Rightarrow> ReconciledPosition list \<Rightarrow> PositionLedger \<Rightarrow> bool" where
  "reconciling e lg0 ps lg \<longleftrightarrow> length (lg_venues lg) = length (lg_venues lg0) \<and>
     (\<forall>v \<in> set (lg_venues lg). vp_active v \<and> vp_exchange v = e \<longrightarrow> vp_marked_for_reconcile v \<or> reported ps v) \<and>
     (\<forall>i < length (lg_venues lg0). vp_active (lg_venues lg0 ! i) \<and> vp_exchange (lg_venues lg0 ! i) \<noteq> e \<longrightarrow>
        lg_venues lg ! i = lg_venues lg0 ! i)"

lemma reconcile_venue_simps [simp]:
  "vp_position (reconcile_venue p a b v) = rp_quantity p"
  "vp_avg_entry_price (reconcile_venue p a b v) = rp_avg_entry_price p"
  "vp_symbol (reconcile_venue p a b v) = vp_symbol v" "vp_exchange (reconcile_venue p a b v) = vp_exchange v"
  "vp_active (reconcile_venue p a b v) = vp_active v"
  by (simp_all add: reconcile_venue_def Let_def)

lemma mark_venue_simps:
  "vp_active (mark_venue e v) = vp_active v" "vp_exchange (mark_venue e v) = vp_exchange v"
  "vp_active v \<Longrightarrow> vp_marked_for_reconcile (mark_venue (vp_exchange v) v)"
  "vp_exchange v \<noteq> e \<Longrightarrow> mark_venue e v = v"
  by (simp_all add: mark_venue_def)

lemma sweep_venue_simps:
  "vp_active (sweep_venue e v) = vp_active v" "vp_exchange (sweep_venue e v) = vp_exchange v"
  by (simp_all add: sweep_venue_def flatten_venue_def)

lemma reconcile_one_step:
  assumes r: "reconciling e lg0 ps lg" and p: "length (rp_symbol p) < 16"
  shows "reconciling e lg0 (ps @ [p]) (reconcile_one e a b p lg)"
proof -
  have mono: "reported ps v \<Longrightarrow> reported (ps @ [p]) v" for v by (auto simp: reported_def)
  have step: "reconciling e lg0 (ps @ [p]) lg'"
    if "lg_venues lg' = (lg_venues lg)[i := reconcile_venue p a b v]" "i < length (lg_venues lg)"
      "strncmp_eq 16 (vp_symbol v) (rp_symbol p)"
      "\<not> (vp_active (lg_venues lg ! i) \<and> vp_exchange (lg_venues lg ! i) \<noteq> e)" for lg' i v
  proof -
    note st = that
    have "reported (ps @ [p]) (reconcile_venue p a b v)" using that(3) by (auto simp: reported_def)
    moreover have "lg_venues lg' ! j = lg_venues lg0 ! j"
      if j: "j < length (lg_venues lg0)" "vp_active (lg_venues lg0 ! j)" "vp_exchange (lg_venues lg0 ! j) \<noteq> e" for j
      using r j st by (cases "j = i") (auto simp: reconciling_def)
    ultimately show ?thesis
      using r mono that(1,2) set_update_subset_insert[of "lg_venues lg" i "reconcile_venue p a b v"]
      by (auto simp: reconciling_def)
  qed
  show ?thesis
  proof (cases rule: find_or_create_cases[of e "rp_symbol p" lg])
    case (found i)
    then have "vp_exchange (lg_venues lg ! i) = e \<and> strncmp_eq 16 (vp_symbol (lg_venues lg ! i)) (rp_symbol p)"
      unfolding find_venue_def by (auto dest: find_slot_holds)
    with found step[of _ i "lg_venues lg ! i"] show ?thesis by (simp add: reconcile_one_def update_venue_def)
  next
    case (created i)
    with step[of _ i "fresh_venue e (rp_symbol p)"] p show ?thesis
      by (simp add: reconcile_one_def update_venue_def fresh_venue_def)
  next
    case full
    then show ?thesis using r mono by (auto simp: reconcile_one_def reconciling_def)
  qed
qed

lemma reconcile_fold:
  "reconciling e lg0 ps lg \<Longrightarrow> \<forall>p \<in> set qs. length (rp_symbol p) < 16 \<Longrightarrow>
   reconciling e lg0 (ps @ qs) (fold (reconcile_one e a b) qs lg)"
proof (induction qs arbitrary: ps lg)
  case (Cons q qs)
  with reconcile_one_step[OF Cons.prems(1), of q] Cons.IH[of "ps @ [q]"] show ?case by simp
qed simp

text \<open>
  C26. Reconciliation leaves no stale position: afterwards every active slot of the reconciled
  exchange is flat or has the quantity and entry price of a position the venue reported for its
  symbol, and the slots of the other exchanges are exactly as before.
\<close>

theorem reconcile_no_stale_position:
  assumes "\<forall>p \<in> set (rs_positions rs). length (rp_symbol p) < 16"
    and lg'_def: "lg' = reconcile_positions e rs a b lg"
  shows "(\<forall>v \<in> set (lg_venues lg'). vp_active v \<and> vp_exchange v = e \<longrightarrow>
      deq (vp_position v) 0 \<or> reported (rs_positions rs) v) \<and>
    (\<forall>i < length (lg_venues lg). vp_active (lg_venues lg ! i) \<and> vp_exchange (lg_venues lg ! i) \<noteq> e \<longrightarrow>
      lg_venues lg' ! i = lg_venues lg ! i)"
proof -
  let ?lg1 = "lg\<lparr>lg_venues := map (mark_venue e) (lg_venues lg)\<rparr>"
  have "reconciling e lg [] ?lg1" by (auto simp: reconciling_def mark_venue_simps)
  from reconcile_fold[OF this assms(1), of a b]
  have r: "reconciling e lg (rs_positions rs) (fold (reconcile_one e a b) (rs_positions rs) ?lg1)" by simp
  let ?F = "fold (reconcile_one e a b) (rs_positions rs) ?lg1"
  have l: "lg_venues lg' = map (sweep_venue e) (lg_venues ?F)"
    by (simp add: lg'_def reconcile_positions_def Let_def)
  have len: "length (lg_venues ?F) = length (lg_venues lg)"
    and keep: "\<And>i. i < length (lg_venues lg) \<Longrightarrow> vp_active (lg_venues lg ! i) \<and> vp_exchange (lg_venues lg ! i) \<noteq> e
      \<Longrightarrow> lg_venues ?F ! i = lg_venues lg ! i"
    using r unfolding reconciling_def by blast+
  show ?thesis
  proof (intro conjI allI impI)
    show "\<forall>v \<in> set (lg_venues lg'). vp_active v \<and> vp_exchange v = e \<longrightarrow>
        deq (vp_position v) 0 \<or> reported (rs_positions rs) v"
    proof (intro ballI impI)
      fix v
      assume "v \<in> set (lg_venues lg')" and v: "vp_active v \<and> vp_exchange v = e"
      then obtain w where w: "w \<in> set (lg_venues ?F)" "v = sweep_venue e w" by (auto simp: l)
      then have e: "vp_active w \<and> vp_exchange w = e" using v by (simp add: sweep_venue_simps)
      with r w(1) have "vp_marked_for_reconcile w \<or> reported (rs_positions rs) w"
        unfolding reconciling_def by blast
      then show "deq (vp_position v) 0 \<or> reported (rs_positions rs) v"
        unfolding w(2) using e by (auto simp: sweep_venue_def flatten_venue_def)
    qed
  next
    fix i
    assume i: "i < length (lg_venues lg)" "vp_active (lg_venues lg ! i) \<and> vp_exchange (lg_venues lg ! i) \<noteq> e"
    then have "lg_venues lg' ! i = sweep_venue e (lg_venues ?F ! i)" by (simp add: l len)
    also have "\<dots> = lg_venues lg ! i" unfolding keep[OF i] using i(2) by (simp add: sweep_venue_def)
    finally show "lg_venues lg' ! i = lg_venues lg ! i" .
  qed
qed

definition active_venues :: "PositionLedger \<Rightarrow> VenuePosition list" where
  "active_venues lg = filter vp_active (lg_venues lg)"

definition venue_sample :: VenuePosition where
  "venue_sample = mk_VenuePosition\<lparr>vp_exchange := OKX, vp_symbol := ''BTC'', vp_position := Fin 2,
     vp_avg_entry_price := Fin 100, vp_has_inventory_age := True, vp_opened_at := 5, vp_active := True\<rparr>"

definition lg_sample :: PositionLedger where
  "lg_sample = \<lparr>lg_venues = venue_sample # replicate 3 mk_VenuePosition, lg_symbol = ''BTC''\<rparr>"

lemma active_sample: "active_venues lg_sample = [venue_sample]"
  by (simp add: active_venues_def lg_sample_def venue_sample_def mk_VenuePosition_def)

definition rs_empty :: ReconciliationSnapshot where
  "rs_empty = \<lparr>rs_open_orders = [], rs_fills = [], rs_balances = [], rs_positions = []\<rparr>"

theorem reconcile_no_stale_position_witness:
  "vp_position (lg_venues lg_sample ! 0) = Fin 2 \<and>
   list_all (\<lambda>v. deq (vp_position v) 0)
     (filter (\<lambda>v. vp_active v \<and> vp_exchange v = OKX) (lg_venues (reconcile_positions OKX rs_empty 9 9 lg_sample)))"
  using reconcile_no_stale_position[OF _ refl, of rs_empty OKX 9 9 lg_sample]
  by (simp add: rs_empty_def reported_def list_all_iff) (simp add: lg_sample_def venue_sample_def)

subsection \<open>The published snapshot\<close>

lemma snapshot_add_simps:
  "vp_active v \<Longrightarrow> ls_venue_count out < length (ls_venues out) \<Longrightarrow> \<exists>out'. snapshot_add now v out = Inr out' \<and>
     ls_venue_count out' = Suc (ls_venue_count out) \<and> length (ls_venues out') = length (ls_venues out) \<and>
     take (Suc (ls_venue_count out)) (ls_venues out') =
       take (ls_venue_count out) (ls_venues out) @ [build_venue_snapshot now v] \<and>
     ls_global_position out' = ls_global_position out + vp_position v \<and>
     ls_realized_pnl out' = ls_realized_pnl out + vp_realized_pnl v"
  by (simp add: snapshot_add_def take_Suc_conv_app_nth)

lemma snapshot_loop_spec:
  "ls_venue_count out + length (filter vp_active vs) \<le> length (ls_venues out) \<Longrightarrow>
   \<exists>r. snapshot_loop now vs out = Inr r \<and> ls_venue_count r = ls_venue_count out + length (filter vp_active vs) \<and>
     take (ls_venue_count r) (ls_venues r) =
       take (ls_venue_count out) (ls_venues out) @ map (build_venue_snapshot now) (filter vp_active vs) \<and>
     ls_global_position r = foldl (+) (ls_global_position out) (map vp_position (filter vp_active vs)) \<and>
     ls_realized_pnl r = foldl (+) (ls_realized_pnl out) (map vp_realized_pnl (filter vp_active vs))"
proof (induction vs arbitrary: out)
  case (Cons v vs)
  show ?case
  proof (cases "vp_active v")
    case True
    then obtain o1 where o1: "snapshot_add now v out = Inr o1" "ls_venue_count o1 = Suc (ls_venue_count out)"
      "length (ls_venues o1) = length (ls_venues out)"
      "take (Suc (ls_venue_count out)) (ls_venues o1) =
         take (ls_venue_count out) (ls_venues out) @ [build_venue_snapshot now v]"
      "ls_global_position o1 = ls_global_position out + vp_position v"
      "ls_realized_pnl o1 = ls_realized_pnl out + vp_realized_pnl v"
      using snapshot_add_simps[OF True, of out now] Cons.prems by auto
    have "ls_venue_count o1 + length (filter vp_active vs) \<le> length (ls_venues o1)"
      using Cons.prems True o1(2,3) by simp
    from Cons.IH[OF this] o1 True show ?thesis by auto
  next
    case False
    with Cons.IH[of out] Cons.prems show ?thesis by (simp add: snapshot_add_def)
  qed
qed simp

text \<open>
  The ledger snapshot: if the result structure starts with a venue count of zero, the snapshot
  lists exactly the active slots in order, and its global position and realised result are the sums
  over them added to whatever the structure's members held before. The code does not initialise
  these members, so the totals are right only when that content happens to be zero.
\<close>

theorem snapshot_content:
  assumes "ls_venue_count out = 0" and "length (active_venues lg) \<le> length (ls_venues out)"
  shows "\<exists>r. snapshot now out lg = Inr r \<and> ls_venue_count r = length (active_venues lg) \<and>
    take (ls_venue_count r) (ls_venues r) = map (build_venue_snapshot now) (active_venues lg) \<and>
    ls_global_position r = foldl (+) (ls_global_position out) (map vp_position (active_venues lg)) \<and>
    ls_realized_pnl r = foldl (+) (ls_realized_pnl out) (map vp_realized_pnl (active_venues lg))"
proof -
  let ?out = "out\<lparr>ls_symbol := buf_copy 16 (lg_symbol lg)\<rparr>"
  have "ls_venue_count ?out + length (filter vp_active (lg_venues lg)) \<le> length (ls_venues ?out)"
    using assms by (simp add: active_venues_def)
  from snapshot_loop_spec[OF this, of now] assms(1) show ?thesis
    by (auto simp: snapshot_def active_venues_def)
qed

definition out_sample :: PositionLedgerSnapshot where
  "out_sample = \<lparr>ls_symbol = [], ls_global_position = Fin 7, ls_global_avg_entry_price = 0, ls_realized_pnl = 0,
     ls_unrealized_pnl = 0, ls_pending_bid_qty = 0, ls_pending_ask_qty = 0, ls_mid_price = 0,
     ls_oldest_inventory_age_ms = 0, ls_venue_count = 0,
     ls_venues = replicate 4 (build_venue_snapshot 0 mk_VenuePosition)\<rparr>"

text \<open>With a member that happened to hold 7, a position of 2 is reported as 9.\<close>

theorem snapshot_content_witness:
  "\<exists>r. snapshot 9 out_sample lg_sample = Inr r \<and> ls_venue_count r = 1 \<and> ls_global_position r = Fin 9"
proof -
  have "Fin 7 + Fin 2 = Fin 9" by code_simp
  then have p: "foldl (+) (ls_global_position out_sample) (map vp_position (active_venues lg_sample)) = Fin 9"
    by (simp add: active_sample out_sample_def) (simp add: venue_sample_def)
  have o1: "ls_venue_count out_sample = 0" "length (ls_venues out_sample) = 4" by (simp_all add: out_sample_def)
  show ?thesis using snapshot_content[OF o1(1), of lg_sample 9] p o1(2) by (auto simp: active_sample)
qed

lemma snapshot_loop_fault:
  "length (ls_venues out) \<le> ls_venue_count out \<Longrightarrow> v \<in> set vs \<Longrightarrow> vp_active v \<Longrightarrow>
   snapshot_loop now vs out = Inl Venue_Index_Out_Of_Range"
  by (induction vs) (auto simp: snapshot_add_def)

text \<open>
  With an indeterminate venue count of four or more the first active slot is written outside the
  snapshot's array: \<open>snapshot()\<close> is undefined whenever the ledger tracks anything.
\<close>

theorem snapshot_uninitialised_count:
  assumes "length (ls_venues out) \<le> ls_venue_count out" and "active_venues lg \<noteq> []"
  shows "snapshot now out lg = Inl Venue_Index_Out_Of_Range"
proof -
  obtain v where "v \<in> set (lg_venues lg)" "vp_active v"
    using assms(2) by (auto simp: active_venues_def filter_empty_conv)
  then show ?thesis using snapshot_loop_fault[of "out\<lparr>ls_symbol := buf_copy 16 (lg_symbol lg)\<rparr>" v] assms(1)
    by (simp add: snapshot_def)
qed

theorem snapshot_uninitialised_count_witness:
  "snapshot 9 (out_sample\<lparr>ls_venue_count := 4\<rparr>) lg_sample = Inl Venue_Index_Out_Of_Range"
  by (rule snapshot_uninitialised_count) (simp_all add: out_sample_def active_sample)

end
