(* ===== verification/Spsc_Queue.thy ===== *)
theory Spsc_Queue
  imports Trading_Types
begin

text \<open>
  \<open>SpscQueue\<close> of \<^verbatim>\<open>core/execution/common/orders/order_manager.hpp\<close>: a ring buffer of
  \<open>N = 2 ^ k\<close> cells with one producer and one consumer. \<open>push\<close> and \<open>pop\<close> are the sequential
  operations; the locale \<open>bounded_fifo\<close> is what the order manager relies on, interpreted
  on them; the step relation \<open>spsc_step\<close> interleaves the loads and stores of one producer
  and one consumer thread (sequentially consistent).
\<close>

record 'a SpscQueue =
  sq_write :: nat
  sq_read :: nat
  sq_buf :: "'a list"

definition sq_init :: "nat \<Rightarrow> 'a \<Rightarrow> 'a SpscQueue" where
  "sq_init n x = \<lparr>sq_write = 0, sq_read = 0, sq_buf = replicate n x\<rparr>"

definition sq_next :: "'a SpscQueue \<Rightarrow> nat \<Rightarrow> nat" where
  "sq_next q i = and (i + 1) (length (sq_buf q) - 1)"

definition push :: "'a \<Rightarrow> 'a SpscQueue \<Rightarrow> bool \<times> 'a SpscQueue" where
  "push item q =
     (let w = sq_write q; nxt = sq_next q w
      in if nxt = sq_read q then (False, q)
         else (True, q\<lparr>sq_buf := (sq_buf q)[w := item], sq_write := nxt\<rparr>))"

definition pop :: "'a SpscQueue \<Rightarrow> 'a option \<times> 'a SpscQueue" where
  "pop q =
     (let r = sq_read q
      in if r = sq_write q then (None, q)
         else (Some (sq_buf q ! r), q\<lparr>sq_read := sq_next q r\<rparr>))"

subsection \<open>The contract\<close>

locale bounded_fifo =
  fixes enq :: "'a \<Rightarrow> 'q \<Rightarrow> bool \<times> 'q" and deq_op :: "'q \<Rightarrow> 'a option \<times> 'q"
    and ok :: "'q \<Rightarrow> bool" and items :: "'q \<Rightarrow> 'a list" and cap :: "'q \<Rightarrow> nat"
  assumes enq_full: "ok q \<Longrightarrow> length (items q) = cap q \<Longrightarrow> enq x q = (False, q)"
    and enq_ok: "ok q \<Longrightarrow> length (items q) < cap q \<Longrightarrow> \<exists>q'. enq x q = (True, q') \<and> ok q' \<and>
       items q' = items q @ [x] \<and> cap q' = cap q"
    and deq_empty: "ok q \<Longrightarrow> items q = [] \<Longrightarrow> deq_op q = (None, q)"
    and deq_ok: "ok q \<Longrightarrow> items q = y # ys \<Longrightarrow> \<exists>q'. deq_op q = (Some y, q') \<and> ok q' \<and>
       items q' = ys \<and> cap q' = cap q"
    and bounded: "ok q \<Longrightarrow> length (items q) \<le> cap q"
begin

definition enqs :: "'a list \<Rightarrow> 'q \<Rightarrow> 'q" where
  "enqs xs q = fold (\<lambda>x q. snd (enq x q)) xs q"

lemma enq_items:
  assumes "ok q"
  shows "ok (snd (enq x q))" "cap (snd (enq x q)) = cap q"
    "items (snd (enq x q)) = take (cap q) (items q @ [x])"
  using assms enq_full[of q x] enq_ok[of q x] bounded[of q]
  by (cases "length (items q) = cap q"; force)+

lemma enqs_items:
  "ok q \<Longrightarrow> ok (enqs xs q) \<and> cap (enqs xs q) = cap q \<and> items (enqs xs q) = take (cap q) (items q @ xs)"
proof (induction xs arbitrary: q)
  case Nil
  then show ?case using bounded[of q] by (simp add: enqs_def)
next
  case (Cons x xs)
  note e = enq_items[OF Cons.prems, of x]
  have "enqs (x # xs) q = enqs xs (snd (enq x q))" by (simp add: enqs_def)
  with Cons.IH[OF e(1)] e bounded[OF Cons.prems] show ?case
    by (cases "length (items q) = cap q") (auto simp: min_def)
qed

end

subsection \<open>The ring buffer keeps the contract\<close>

definition sq_ok :: "'a SpscQueue \<Rightarrow> bool" where
  "sq_ok q \<longleftrightarrow> (\<exists>k. 0 < k \<and> length (sq_buf q) = 2 ^ k) \<and>
     sq_write q < length (sq_buf q) \<and> sq_read q < length (sq_buf q)"

definition sq_count :: "'a SpscQueue \<Rightarrow> nat" where
  "sq_count q = (sq_write q + length (sq_buf q) - sq_read q) mod length (sq_buf q)"

definition sq_items :: "'a SpscQueue \<Rightarrow> 'a list" where
  "sq_items q = map (\<lambda>i. sq_buf q ! ((sq_read q + i) mod length (sq_buf q))) [0..<sq_count q]"

definition sq_cap :: "'a SpscQueue \<Rightarrow> nat" where
  "sq_cap q = length (sq_buf q) - 1"

lemma sq_next_mod: "sq_ok q \<Longrightarrow> sq_next q i = (i + 1) mod length (sq_buf q)"
proof -
  assume "sq_ok q"
  then obtain k where k: "length (sq_buf q) = 2 ^ k" by (auto simp: sq_ok_def)
  have "sq_next q i = take_bit k (i + 1)"
    by (simp add: sq_next_def k take_bit_eq_mask mask_eq_exp_minus_1)
  then show ?thesis by (simp add: k take_bit_eq_mod)
qed

lemma sq_okD:
  assumes "sq_ok q"
  shows "2 \<le> length (sq_buf q)" "sq_write q < length (sq_buf q)" "sq_read q < length (sq_buf q)"
proof -
  from assms obtain k where "0 < k" "length (sq_buf q) = 2 ^ k" by (auto simp: sq_ok_def)
  then show "2 \<le> length (sq_buf q)" using power_increasing[of 1 k "2::nat"] by simp
qed (use assms in \<open>auto simp: sq_ok_def\<close>)

lemma ring_count:
  fixes n :: nat
  assumes "w < n" "r < n"
  shows "(w + n - r) mod n = (if r \<le> w then w - r else w + n - r)"
  using assms by (auto simp: mod_if)

lemma ring_next: "(w::nat) < n \<Longrightarrow> Suc w mod n = (if Suc w = n then 0 else Suc w)"
  by (auto simp: mod_if)

lemma ring_slot: "(r::nat) < n \<Longrightarrow> i < n \<Longrightarrow> (r + i) mod n = (if r + i < n then r + i else r + i - n)"
  by (auto simp: mod_if)

lemma sq_full_iff: "sq_ok q \<Longrightarrow> sq_next q (sq_write q) = sq_read q \<longleftrightarrow> sq_count q = sq_cap q"
  using sq_okD[of q] by (auto simp: sq_next_mod sq_count_def sq_cap_def ring_count ring_next)

lemma sq_empty_iff: "sq_ok q \<Longrightarrow> sq_read q = sq_write q \<longleftrightarrow> sq_count q = 0"
  using sq_okD[of q] by (auto simp: sq_count_def ring_count split: if_splits)

lemma sq_count_le: "sq_ok q \<Longrightarrow> sq_count q \<le> sq_cap q"
  using sq_okD[of q] by (auto simp: sq_count_def sq_cap_def ring_count)

lemma length_sq_items [simp]: "length (sq_items q) = sq_count q"
  by (simp add: sq_items_def)

text \<open>Writing the free cell at the write index does not touch the queued items.\<close>

lemma sq_items_store:
  assumes "sq_ok q" shows "sq_items (q\<lparr>sq_buf := (sq_buf q)[sq_write q := x]\<rparr>) = sq_items q"
  using sq_okD[OF assms]
  by (auto simp: sq_items_def sq_count_def ring_count ring_slot nth_list_update)

lemma sq_publish:
  assumes ok: "sq_ok q" and free: "sq_next q (sq_write q) \<noteq> sq_read q"
    and x: "sq_buf q ! sq_write q = x"
  defines "q' \<equiv> q\<lparr>sq_write := sq_next q (sq_write q)\<rparr>"
  shows "sq_ok q'" "sq_items q' = sq_items q @ [x]"
proof -
  let ?n = "length (sq_buf q)"
  note d = sq_okD[OF ok]
  have nx: "sq_next q (sq_write q) = (sq_write q + 1) mod ?n" by (rule sq_next_mod[OF ok])
  then have nx': "sq_next q (sq_write q) < ?n" using d by (auto simp: ring_next)
  then show "sq_ok q'" using ok by (simp add: sq_ok_def q'_def)
  have c: "sq_count q' = Suc (sq_count q)"
    using free d nx nx' unfolding q'_def
    by (auto simp: sq_count_def ring_count ring_next split: if_splits)
  have "(sq_read q + sq_count q) mod ?n = sq_write q"
    using d by (auto simp: sq_count_def ring_count ring_slot)
  with c x show "sq_items q' = sq_items q @ [x]" by (simp add: sq_items_def q'_def)
qed

lemma sq_consume:
  assumes ok: "sq_ok q" and ne: "sq_read q \<noteq> sq_write q"
  defines "q' \<equiv> q\<lparr>sq_read := sq_next q (sq_read q)\<rparr>"
  shows "sq_ok q'" "sq_items q = sq_buf q ! sq_read q # sq_items q'"
proof -
  let ?n = "length (sq_buf q)"
  note d = sq_okD[OF ok]
  have nx: "sq_next q (sq_read q) = (sq_read q + 1) mod ?n" by (rule sq_next_mod[OF ok])
  then show "sq_ok q'" using ok d by (auto simp: sq_ok_def q'_def ring_next)
  have c: "sq_count q = Suc (sq_count q')"
    using ne d nx unfolding q'_def by (auto simp: sq_count_def ring_count ring_next split: if_splits)
  have "(sq_next q (sq_read q) + i) mod ?n = (sq_read q + Suc i) mod ?n" for i
    unfolding nx by (simp add: mod_simps)
  then show "sq_items q = sq_buf q ! sq_read q # sq_items q'"
    using d unfolding sq_items_def c q'_def by (simp add: upt_conv_Cons map_Suc_upt[symmetric] del: upt_Suc)
qed

interpretation fq: bounded_fifo push pop sq_ok sq_items sq_cap
proof
  fix q :: "'a SpscQueue" and x y :: 'a and ys
  assume ok: "sq_ok q"
  show "length (sq_items q) = sq_cap q \<Longrightarrow> push x q = (False, q)"
    using sq_full_iff[OF ok] by (simp add: push_def Let_def)
  show "\<exists>q'. push x q = (True, q') \<and> sq_ok q' \<and> sq_items q' = sq_items q @ [x] \<and> sq_cap q' = sq_cap q"
    if l: "length (sq_items q) < sq_cap q"
  proof -
    let ?q = "q\<lparr>sq_buf := (sq_buf q)[sq_write q := x]\<rparr>"
    have f: "sq_next q (sq_write q) \<noteq> sq_read q" using sq_full_iff[OF ok] l by simp
    have ok': "sq_ok ?q" "sq_next ?q = sq_next q" using ok by (auto simp: sq_ok_def sq_next_def)
    note p = sq_publish[OF ok'(1), of x]
    have "push x q = (True, ?q\<lparr>sq_write := sq_next ?q (sq_write ?q)\<rparr>)"
      using f ok'(2) by (simp add: push_def Let_def)
    moreover have "sq_buf ?q ! sq_write ?q = x" using sq_okD[OF ok] by simp
    ultimately show ?thesis using p f ok'(2) sq_items_store[OF ok, of x] by (simp add: sq_cap_def)
  qed
  show "sq_items q = [] \<Longrightarrow> pop q = (None, q)"
    using sq_empty_iff[OF ok] length_sq_items[of q] by (simp add: pop_def Let_def)
  show "\<exists>q'. pop q = (Some y, q') \<and> sq_ok q' \<and> sq_items q' = ys \<and> sq_cap q' = sq_cap q" if l: "sq_items q = y # ys"
  proof -
    have "sq_read q \<noteq> sq_write q" using sq_empty_iff[OF ok] length_sq_items[of q] l by simp
    with sq_consume[OF ok this] l show ?thesis by (simp add: pop_def Let_def sq_cap_def)
  qed
  show "length (sq_items q) \<le> sq_cap q" using sq_count_le[OF ok] by simp
qed

subsection \<open>One producer and one consumer\<close>

text \<open>
  Each thread runs its operation in the steps of the code: the producer loads \<open>read_\<close> and finds
  a free cell (or gives up), stores the item, publishes the new \<open>write_\<close>; the consumer loads
  \<open>write_\<close> and finds an item (or gives up), loads the cell, publishes the new \<open>read_\<close>. The
  steps of the two interleave in any order. \<open>c_pushed\<close> and \<open>c_popped\<close> record the operations that
  returned true, in order.
\<close>

datatype 'a producer = P_Idle | P_Free 'a | P_Stored 'a
datatype 'a consumer = C_Idle | C_Ready | C_Loaded 'a

record 'a spsc_conf =
  c_queue :: "'a SpscQueue"
  c_prod :: "'a producer"
  c_cons :: "'a consumer"
  c_pushed :: "'a list"
  c_popped :: "'a list"

definition spsc_start :: "nat \<Rightarrow> 'a \<Rightarrow> 'a spsc_conf" where
  "spsc_start n x = \<lparr>c_queue = sq_init n x, c_prod = P_Idle, c_cons = C_Idle, c_pushed = [], c_popped = []\<rparr>"

inductive spsc_step :: "'a spsc_conf \<Rightarrow> 'a spsc_conf \<Rightarrow> bool" where
  push_check: "c_prod c = P_Idle \<Longrightarrow> sq_next (c_queue c) (sq_write (c_queue c)) \<noteq> sq_read (c_queue c) \<Longrightarrow>
    spsc_step c (c\<lparr>c_prod := P_Free x\<rparr>)"
| push_store: "c_prod c = P_Free x \<Longrightarrow>
    spsc_step c (c\<lparr>c_prod := P_Stored x,
      c_queue := (c_queue c)\<lparr>sq_buf := (sq_buf (c_queue c))[sq_write (c_queue c) := x]\<rparr>\<rparr>)"
| push_publish: "c_prod c = P_Stored x \<Longrightarrow>
    spsc_step c (c\<lparr>c_prod := P_Idle, c_pushed := c_pushed c @ [x],
      c_queue := (c_queue c)\<lparr>sq_write := sq_next (c_queue c) (sq_write (c_queue c))\<rparr>\<rparr>)"
| pop_check: "c_cons c = C_Idle \<Longrightarrow> sq_read (c_queue c) \<noteq> sq_write (c_queue c) \<Longrightarrow>
    spsc_step c (c\<lparr>c_cons := C_Ready\<rparr>)"
| pop_load: "c_cons c = C_Ready \<Longrightarrow>
    spsc_step c (c\<lparr>c_cons := C_Loaded (sq_buf (c_queue c) ! sq_read (c_queue c))\<rparr>)"
| pop_publish: "c_cons c = C_Loaded x \<Longrightarrow>
    spsc_step c (c\<lparr>c_cons := C_Idle, c_popped := c_popped c @ [x],
      c_queue := (c_queue c)\<lparr>sq_read := sq_next (c_queue c) (sq_read (c_queue c))\<rparr>\<rparr>)"

definition spsc_inv :: "'a spsc_conf \<Rightarrow> bool" where
  "spsc_inv c \<longleftrightarrow> sq_ok (c_queue c) \<and> c_pushed c = c_popped c @ sq_items (c_queue c) \<and>
     (c_prod c \<noteq> P_Idle \<longrightarrow> sq_next (c_queue c) (sq_write (c_queue c)) \<noteq> sq_read (c_queue c)) \<and>
     (\<forall>x. c_prod c = P_Stored x \<longrightarrow> sq_buf (c_queue c) ! sq_write (c_queue c) = x) \<and>
     (c_cons c \<noteq> C_Idle \<longrightarrow> sq_read (c_queue c) \<noteq> sq_write (c_queue c)) \<and>
     (\<forall>x. c_cons c = C_Loaded x \<longrightarrow> sq_buf (c_queue c) ! sq_read (c_queue c) = x)"

lemma spsc_start_inv: "0 < k \<Longrightarrow> spsc_inv (spsc_start (2 ^ k) x)"
  by (auto simp: spsc_inv_def spsc_start_def sq_init_def sq_ok_def sq_items_def sq_count_def)

lemma spsc_step_inv: "spsc_step c c' \<Longrightarrow> spsc_inv c \<Longrightarrow> spsc_inv c'"
proof (induction rule: spsc_step.induct)
  case (push_store c x)
  let ?q = "c_queue c"
  let ?q' = "?q\<lparr>sq_buf := (sq_buf ?q)[sq_write ?q := x]\<rparr>"
  have ok: "sq_ok ?q" using push_store.prems by (simp add: spsc_inv_def)
  then have "sq_ok ?q'" "sq_items ?q' = sq_items ?q" "sq_next ?q' = sq_next ?q"
    "sq_buf ?q' ! sq_write ?q = x"
    using sq_items_store[OF ok, of x] sq_okD[OF ok] by (auto simp: sq_ok_def sq_next_def)
  with push_store show ?case by (auto simp: spsc_inv_def)
next
  case (push_publish c x)
  let ?q = "c_queue c"
  let ?q' = "?q\<lparr>sq_write := sq_next ?q (sq_write ?q)\<rparr>"
  have ok: "sq_ok ?q" and f: "sq_next ?q (sq_write ?q) \<noteq> sq_read ?q" and x: "sq_buf ?q ! sq_write ?q = x"
    using push_publish by (auto simp: spsc_inv_def)
  note p = sq_publish[OF ok f x]
  have "sq_read ?q' \<noteq> sq_write ?q'" using f by simp
  with p push_publish f show ?case by (auto simp: spsc_inv_def)
next
  case (pop_publish c x)
  let ?q = "c_queue c"
  let ?q' = "?q\<lparr>sq_read := sq_next ?q (sq_read ?q)\<rparr>"
  have ok: "sq_ok ?q" and ne: "sq_read ?q \<noteq> sq_write ?q" and x: "sq_buf ?q ! sq_read ?q = x"
    using pop_publish by (auto simp: spsc_inv_def)
  note p = sq_consume[OF ok ne]
  have "sq_count ?q' < sq_cap ?q'"
    using sq_count_le[OF ok] arg_cong[OF p(2), of length] by (simp add: sq_cap_def)
  then have "sq_next ?q' (sq_write ?q') \<noteq> sq_read ?q'" using sq_full_iff[OF p(1)] by simp
  then have "sq_next ?q (sq_write ?q) \<noteq> sq_next ?q (sq_read ?q)" by (simp add: sq_next_def)
  with p pop_publish x show ?case by (auto simp: spsc_inv_def sq_next_def)
qed (auto simp: spsc_inv_def)

lemma spsc_reachable_inv:
  "spsc_step\<^sup>*\<^sup>* (spsc_start (2 ^ k) x) c \<Longrightarrow> 0 < k \<Longrightarrow> spsc_inv c"
  by (induction rule: rtranclp_induct) (auto intro: spsc_start_inv spsc_step_inv)

text \<open>
  C22. The fill queue is a lossless FIFO between the two threads: however the loads and stores of
  one producer and one consumer interleave, the items popped are, in order, a prefix of the
  items pushed, the rest is what the buffer still holds, and it never holds more than N - 1.
\<close>

theorem spsc_fifo:
  assumes "spsc_step\<^sup>*\<^sup>* (spsc_start (2 ^ k) x) c" and "0 < k"
  shows "c_pushed c = c_popped c @ sq_items (c_queue c) \<and>
    length (sq_items (c_queue c)) \<le> length (sq_buf (c_queue c)) - 1"
proof -
  have "spsc_inv c" using spsc_reachable_inv[OF assms] .
  then show ?thesis using fq.bounded[of "c_queue c"] by (simp add: spsc_inv_def sq_cap_def)
qed

theorem spsc_fifo_witness:
  "\<exists>c. spsc_step\<^sup>*\<^sup>* (spsc_start (2 ^ 1) (0::nat)) c \<and> c_pushed c = [7] \<and>
     [7] = c_popped c @ sq_items (c_queue c)"
proof -
  let ?c0 = "spsc_start (2 ^ 1) (0::nat)"
  let ?c1 = "?c0\<lparr>c_prod := P_Free 7\<rparr>"
  let ?c2 = "?c1\<lparr>c_prod := P_Stored 7, c_queue := (c_queue ?c1)\<lparr>sq_buf := (sq_buf (c_queue ?c1))[sq_write (c_queue ?c1) := 7]\<rparr>\<rparr>"
  let ?c3 = "?c2\<lparr>c_prod := P_Idle, c_pushed := c_pushed ?c2 @ [7],
    c_queue := (c_queue ?c2)\<lparr>sq_write := sq_next (c_queue ?c2) (sq_write (c_queue ?c2))\<rparr>\<rparr>"
  have "spsc_step ?c0 ?c1" by (rule push_check) (simp_all add: spsc_start_def sq_init_def sq_next_def)
  moreover have "spsc_step ?c1 ?c2" by (rule push_store) simp
  moreover have "spsc_step ?c2 ?c3" by (rule push_publish) simp
  ultimately have r: "spsc_step\<^sup>*\<^sup>* ?c0 ?c3" by (meson rtranclp.rtrancl_into_rtrancl rtranclp.rtrancl_refl)
  have p: "c_pushed ?c3 = [7]" by (simp add: spsc_start_def)
  have "c_pushed ?c3 = c_popped ?c3 @ sq_items (c_queue ?c3)" using spsc_fifo[OF r] by simp
  with r p show ?thesis by metis
qed

end
