(* ===== verification/Order_Manager.thy ===== *)
theory Order_Manager
  imports Position_Ledger Spsc_Queue
begin

text \<open>
  \<^verbatim>\<open>core/execution/common/orders/order_manager.hpp\<close>. The exchange connector is an abstract class
  of \<^verbatim>\<open>core/execution/common/connectors/exchange_connector.hpp\<close>: the model takes its
  \<open>submit_order\<close> as a function of the order and the connector's state that returns the result
  and the fills it emits through the \<open>on_fill\<close> hook, which the manager queues. Fills from
  the connector's own threads arrive through \<open>on_connector_fill\<close>. The user's callback is the
  event the fill handler returns. \<open>position_\<close> is not initialised: its first content is an
  argument of \<open>om_init\<close>.
\<close>

record ManagedOrder =
  mo_order :: Order
  mo_state :: OrderState
  mo_filled_qty :: double
  mo_avg_fill_price :: double
  mo_active :: bool

definition MAX_ORDERS :: nat where "MAX_ORDERS = 64"
definition FILL_QUEUE_DEPTH :: nat where "FILL_QUEUE_DEPTH = 128"

record OrderManager =
  om_next_id :: u64
  om_slots :: "ManagedOrder list"
  om_position :: double
  om_ledger :: PositionLedger
  om_fill_queue :: "FillUpdate SpscQueue"

definition mk_ManagedOrder :: ManagedOrder where
  "mk_ManagedOrder = \<lparr>mo_order = mk_Order, mo_state = PENDING, mo_filled_qty = 0, mo_avg_fill_price = 0,
     mo_active = False\<rparr>"

definition om_init :: "double \<Rightarrow> string \<Rightarrow> OrderManager" where
  "om_init position garbage = \<lparr>om_next_id = 1, om_slots = replicate MAX_ORDERS mk_ManagedOrder,
     om_position = position, om_ledger = lg_init garbage,
     om_fill_queue = sq_init FILL_QUEUE_DEPTH mk_FillUpdate\<rparr>"

type_synonym 'c connector_submit = "Order \<Rightarrow> 'c \<Rightarrow> ConnectorResult \<times> FillUpdate list \<times> 'c"

definition find_free_slot :: "OrderManager \<Rightarrow> nat option" where
  "find_free_slot om = find_slot (\<lambda>s. \<not> mo_active s) (om_slots om)"

definition find_order :: "u64 \<Rightarrow> OrderManager \<Rightarrow> nat option" where
  "find_order client_id om =
     find_slot (\<lambda>s. mo_active s \<and> o_client_order_id (mo_order s) = client_id) (om_slots om)"

definition set_slot :: "nat \<Rightarrow> ManagedOrder \<Rightarrow> OrderManager \<Rightarrow> OrderManager" where
  "set_slot i mo om = om\<lparr>om_slots := (om_slots om)[i := mo]\<rparr>"

definition on_connector_fill :: "FillUpdate \<Rightarrow> OrderManager \<Rightarrow> OrderManager" where
  "on_connector_fill u om = om\<lparr>om_fill_queue := snd (push u (om_fill_queue om))\<rparr>"

definition submit :: "'c connector_submit \<Rightarrow> int \<Rightarrow> Order \<Rightarrow> OrderManager \<times> 'c \<Rightarrow> u64 \<times> OrderManager \<times> 'c" where
  "submit conn now order s =
     (let (om, c) = s in
      case find_free_slot om of
        None \<Rightarrow> (0, om, c)
      | Some i \<Rightarrow>
          let order = order\<lparr>o_client_order_id := om_next_id om, o_submit_ts_ns := now\<rparr>;
              om = om\<lparr>om_next_id := om_next_id om + 1\<rparr>;
              om = set_slot i \<lparr>mo_order = order, mo_state = PENDING, mo_filled_qty = 0,
                               mo_avg_fill_price = 0, mo_active = True\<rparr> om;
              (result, fills, c) = conn order c;
              om = fold on_connector_fill fills om
          in if result \<noteq> C_OK then (0, set_slot i ((om_slots om ! i)\<lparr>mo_active := False\<rparr>) om, c)
             else (o_client_order_id order, om\<lparr>om_ledger := on_order_submitted order (om_ledger om)\<rparr>, c))"

definition apply_fill :: "int \<Rightarrow> FillUpdate \<Rightarrow> OrderManager \<Rightarrow> OrderManager \<times> (ManagedOrder \<times> FillUpdate) option" where
  "apply_fill now u om =
     (case find_order (fu_client_order_id u) om of
        None \<Rightarrow> (om, None)
      | Some i \<Rightarrow>
          let mo = (om_slots om ! i)\<lparr>mo_filled_qty := fu_cumulative_filled_qty u,
                     mo_avg_fill_price := fu_avg_fill_price u, mo_state := fu_new_state u\<rparr>;
              om = set_slot i mo om;
              om = (if fu_fill_qty u > 0 then
                      let sgn = (if o_side (mo_order mo) = BID then 1 else - 1)
                      in om\<lparr>om_position := om_position om + sgn * fu_fill_qty u,
                           om_ledger := on_fill (mo_order mo) u now (om_ledger om)\<rparr>
                    else om)
          in if fu_new_state u = FILLED \<or> fu_new_state u = CANCELED \<or> fu_new_state u = REJECTED then
               (set_slot i (mo\<lparr>mo_active := False\<rparr>)
                  (om\<lparr>om_ledger := on_order_closed (mo_order mo)
                        (std_max 0 (o_quantity (mo_order mo) - mo_filled_qty mo)) (om_ledger om)\<rparr>),
                Some (mo, u))
             else (om, None))"

text \<open>The loop of \<open>drain_fills\<close>: None when the fuel runs out before the queue is empty.\<close>

fun drain_fills :: "nat \<Rightarrow> int \<Rightarrow> OrderManager \<Rightarrow> OrderManager option" where
  "drain_fills 0 now om = None"
| "drain_fills (Suc n) now om =
     (case pop (om_fill_queue om) of
        (None, q) \<Rightarrow> Some (om\<lparr>om_fill_queue := q\<rparr>)
      | (Some u, q) \<Rightarrow> drain_fills n now (fst (apply_fill now u (om\<lparr>om_fill_queue := q\<rparr>))))"

definition om_update_mid_price :: "string \<Rightarrow> Exchange \<Rightarrow> double \<Rightarrow> OrderManager \<Rightarrow> OrderManager" where
  "om_update_mid_price symbol exchange mid_price om =
     om\<lparr>om_ledger := update_mid_price symbol exchange mid_price (om_ledger om)\<rparr>"

definition active_order_count :: "OrderManager \<Rightarrow> u32" where
  "active_order_count om = of_nat (length (filter mo_active (om_slots om)))"

subsection \<open>Order identities\<close>

definition om_inv :: "OrderManager \<Rightarrow> bool" where
  "om_inv om \<longleftrightarrow> 0 < om_next_id om \<and> length (om_slots om) = MAX_ORDERS \<and> sq_ok (om_fill_queue om) \<and>
     length (sq_buf (om_fill_queue om)) = FILL_QUEUE_DEPTH \<and>
     unique_keys mo_active (\<lambda>s. o_client_order_id (mo_order s)) (om_slots om) \<and>
     (\<forall>s \<in> set (om_slots om). mo_active s \<longrightarrow>
        0 < o_client_order_id (mo_order s) \<and> o_client_order_id (mo_order s) < om_next_id om)"

lemma fold_connector_fills:
  "fold on_connector_fill fills om = om\<lparr>om_fill_queue := fq.enqs fills (om_fill_queue om)\<rparr>"
  by (induction fills arbitrary: om) (simp_all add: on_connector_fill_def fq.enqs_def)

lemma length_sq_buf_push [simp]: "length (sq_buf (snd (push x q))) = length (sq_buf q)"
  by (simp add: push_def Let_def)

lemma length_sq_buf_enqs [simp]: "length (sq_buf (fq.enqs xs q)) = length (sq_buf q)"
  by (induction xs arbitrary: q) (simp_all add: fq.enqs_def)

lemma length_sq_buf_pop [simp]: "length (sq_buf (snd (pop q))) = length (sq_buf q)"
  by (simp add: pop_def Let_def)

lemma om_init_inv: "om_inv (om_init p g)"
proof -
  have "\<exists>k. 0 < k \<and> (128::nat) = 2 ^ k" by (intro exI[of _ 7]) simp
  then show ?thesis
    by (auto simp: om_inv_def om_init_def mk_ManagedOrder_def sq_init_def sq_ok_def FILL_QUEUE_DEPTH_def
        intro!: unique_keys_replicate)
qed

lemma om_inv_slots:
  assumes inv: "om_inv om" and i: "i < MAX_ORDERS"
    and u: "\<And>j. j < MAX_ORDERS \<Longrightarrow> j \<noteq> i \<Longrightarrow> mo_active (om_slots om ! j) \<Longrightarrow> mo_active s \<Longrightarrow>
        o_client_order_id (mo_order (om_slots om ! j)) \<noteq> o_client_order_id (mo_order s)"
    and b: "mo_active s \<Longrightarrow> 0 < o_client_order_id (mo_order s) \<and> o_client_order_id (mo_order s) < n"
    and n: "om_next_id om \<le> n" "0 < n"
    and q: "sq_ok q" "length (sq_buf q) = FILL_QUEUE_DEPTH"
    and om': "om_slots om' = (om_slots om)[i := s]" "om_next_id om' = n" "om_fill_queue om' = q"
  shows "om_inv om'"
proof -
  have "unique_keys mo_active (\<lambda>s. o_client_order_id (mo_order s)) ((om_slots om)[i := s])"
    using inv u by (intro unique_keys_update) (auto simp: om_inv_def)
  moreover have "0 < o_client_order_id (mo_order t) \<and> o_client_order_id (mo_order t) < n"
    if "t \<in> set ((om_slots om)[i := s])" "mo_active t" for t
    using that b n inv set_update_subset_insert[of "om_slots om" i s]
    by (auto simp: om_inv_def intro: less_le_trans)
  ultimately show ?thesis using inv q om' n by (simp add: om_inv_def)
qed

lemma find_free_slot_SomeD:
  "om_inv om \<Longrightarrow> find_free_slot om = Some i \<Longrightarrow> i < MAX_ORDERS \<and> \<not> mo_active (om_slots om ! i)"
  by (auto simp: find_free_slot_def om_inv_def dest: find_slot_SomeD)

lemma find_order_SomeD:
  "om_inv om \<Longrightarrow> find_order cid om = Some i \<Longrightarrow>
   i < MAX_ORDERS \<and> mo_active (om_slots om ! i) \<and> o_client_order_id (mo_order (om_slots om ! i)) = cid"
  by (auto simp: find_order_def om_inv_def dest: find_slot_SomeD)

lemma find_orderI:
  assumes inv: "om_inv om" and i: "i < MAX_ORDERS" "mo_active (om_slots om ! i)"
      "o_client_order_id (mo_order (om_slots om ! i)) = cid"
  shows "find_order cid om = Some i"
  unfolding find_order_def
proof (rule find_slot_unique)
  show "i < length (om_slots om)" using inv i by (simp add: om_inv_def)
  show "mo_active (om_slots om ! i) \<and> o_client_order_id (mo_order (om_slots om ! i)) = cid" using i by simp
  fix j
  assume "j < length (om_slots om)" "mo_active (om_slots om ! j) \<and> o_client_order_id (mo_order (om_slots om ! j)) = cid"
  then show "j = i" using inv i unique_keysD[of mo_active "\<lambda>s. o_client_order_id (mo_order s)" "om_slots om" j i]
    by (simp add: om_inv_def)
qed

text \<open>The order as the manager stores and sends it.\<close>

definition stamped :: "int \<Rightarrow> Order \<Rightarrow> OrderManager \<Rightarrow> Order" where
  "stamped now order om = order\<lparr>o_client_order_id := om_next_id om, o_submit_ts_ns := now\<rparr>"

definition placed :: "int \<Rightarrow> Order \<Rightarrow> OrderManager \<Rightarrow> ManagedOrder" where
  "placed now order om = \<lparr>mo_order = stamped now order om, mo_state = PENDING, mo_filled_qty = 0,
     mo_avg_fill_price = 0, mo_active = True\<rparr>"

lemma submit_cases:
  obtains (pool_full) "submit conn now order (om, c) = (0, om, c)" "find_free_slot om = None"
  | (rejected) i r fills c' where "find_free_slot om = Some i" "conn (stamped now order om) c = (r, fills, c')" "r \<noteq> C_OK"
      "submit conn now order (om, c) = (0, om\<lparr>om_next_id := om_next_id om + 1,
         om_slots := (om_slots om)[i := (if i < length (om_slots om) then placed now order om else om_slots om ! i)\<lparr>mo_active := False\<rparr>],
         om_fill_queue := fq.enqs fills (om_fill_queue om)\<rparr>, c')"
  | (accepted) i fills c' where "find_free_slot om = Some i" "conn (stamped now order om) c = (C_OK, fills, c')"
      "submit conn now order (om, c) = (om_next_id om, om\<lparr>om_next_id := om_next_id om + 1,
         om_slots := (om_slots om)[i := placed now order om],
         om_fill_queue := fq.enqs fills (om_fill_queue om),
         om_ledger := on_order_submitted (stamped now order om) (om_ledger om)\<rparr>, c')"
proof (cases "find_free_slot om")
  case None
  then show ?thesis using pool_full by (simp add: submit_def)
next
  case (Some i)
  have l: "i < length (om_slots om)" using Some by (auto simp: find_free_slot_def dest: find_slot_length)
  obtain r fills c' where r: "conn (stamped now order om) c = (r, fills, c')"
    by (cases "conn (stamped now order om) c") auto
  show ?thesis
  proof (cases "r = C_OK")
    case True
    have "submit conn now order (om, c) = (om_next_id om, om\<lparr>om_next_id := om_next_id om + 1,
         om_slots := (om_slots om)[i := placed now order om],
         om_fill_queue := fq.enqs fills (om_fill_queue om),
         om_ledger := on_order_submitted (stamped now order om) (om_ledger om)\<rparr>, c')"
      using Some r True by (simp add: submit_def set_slot_def placed_def fold_connector_fills stamped_def Let_def)
    with accepted Some r True show ?thesis by blast
  next
    case False
    have "submit conn now order (om, c) = (0, om\<lparr>om_next_id := om_next_id om + 1,
         om_slots := (om_slots om)[i := (if i < length (om_slots om) then placed now order om else om_slots om ! i)\<lparr>mo_active := False\<rparr>],
         om_fill_queue := fq.enqs fills (om_fill_queue om)\<rparr>, c')"
      using Some r False l by (simp add: submit_def set_slot_def placed_def fold_connector_fills stamped_def Let_def)
    with rejected Some r False show ?thesis by blast
  qed
qed

lemma next_id_grows:
  "om_next_id om \<noteq> - 1 \<Longrightarrow> om_next_id om < om_next_id om + 1"
  using inc_less_eq_iff[of "om_next_id om" "om_next_id om + 1"] by simp

lemma submit_inv:
  assumes inv: "om_inv om" and nw: "om_next_id om \<noteq> - 1"
  shows "om_inv (fst (snd (submit conn now order (om, c))))"
proof -
  have q: "sq_ok (fq.enqs fills (om_fill_queue om))"
    "length (sq_buf (fq.enqs fills (om_fill_queue om))) = FILL_QUEUE_DEPTH" for fills
    using inv fq.enqs_items[of "om_fill_queue om" fills] by (simp_all add: om_inv_def)
  have fresh: "o_client_order_id (mo_order s) \<noteq> om_next_id om" if "s \<in> set (om_slots om)" "mo_active s" for s
    using that inv by (auto simp: om_inv_def)
  have len: "length (om_slots om) = MAX_ORDERS" using inv by (simp add: om_inv_def)
  have pos: "0 < om_next_id om + 1" using next_id_grows[OF nw] by (metis word_gt_0 word_not_simps(1))
  have n0: "0 < om_next_id om" using inv by (simp add: om_inv_def)
  show ?thesis
  proof (cases rule: submit_cases[of conn now order om c])
    case pool_full
    with inv show ?thesis by simp
  next
    case (rejected i r fills c')
    from find_free_slot_SomeD[OF inv rejected(1)] show ?thesis
      using next_id_grows[OF nw] pos by (intro om_inv_slots[OF inv _ _ _ _ _ q]) (auto simp: rejected(4) len)
  next
    case (accepted i fills c')
    have i: "i < MAX_ORDERS" using find_free_slot_SomeD[OF inv accepted(1)] by simp
    show ?thesis
    proof (rule om_inv_slots[OF inv i _ _ _ pos q])
      show "o_client_order_id (mo_order (om_slots om ! j)) \<noteq> o_client_order_id (mo_order (placed now order om))"
        if "j < MAX_ORDERS" "mo_active (om_slots om ! j)" for j
        using fresh[of "om_slots om ! j"] that len by (simp add: placed_def stamped_def)
    qed (use next_id_grows[OF nw] n0 accepted(3) in \<open>auto simp: placed_def stamped_def\<close>)
  qed
qed

text \<open>
  A submitted order gets an identity no live order has: unless the 64-bit counter is at its end,
  a submit that returns a non-zero id returns the value of the counter, under which exactly one
  slot, until then free, holds the order as PENDING with nothing filled; every other slot is
  unchanged. A submit that returns 0 leaves no live order behind it: the set of active slots, the
  position and the ledger are what they were.
\<close>

theorem submit_places_order:
  assumes "om_inv om" and "om_next_id om \<noteq> - 1" and "submit conn now order (om, c) = (cid, om', c')"
  shows "om_inv om' \<and> om_position om' = om_position om \<and>
    (cid \<noteq> 0 \<longrightarrow> cid = om_next_id om \<and> find_order cid om = None \<and>
       (\<exists>i < MAX_ORDERS. \<not> mo_active (om_slots om ! i) \<and> find_order cid om' = Some i \<and>
          om_slots om' = (om_slots om)[i := placed now order om])) \<and>
    (cid = 0 \<longrightarrow> map mo_active (om_slots om') = map mo_active (om_slots om) \<and>
       filter mo_active (om_slots om') = filter mo_active (om_slots om) \<and> om_ledger om' = om_ledger om)"
proof -
  have inv': "om_inv om'" using submit_inv[OF assms(1,2), of conn now order c] assms(3) by simp
  have len: "length (om_slots om) = MAX_ORDERS" and n0: "om_next_id om \<noteq> 0"
    using assms(1) by (auto simp: om_inv_def)
  have fresh: "find_order (om_next_id om) om = None"
    using assms(1) by (auto simp: find_order_def find_slot_None om_inv_def)
  show ?thesis
  proof (cases rule: submit_cases[of conn now order om c])
    case pool_full
    then show ?thesis using assms inv' by simp
  next
    case (rejected i r fills c'')
    have i: "i < length (om_slots om)" "\<not> mo_active (om_slots om ! i)"
      using find_free_slot_SomeD[OF assms(1) rejected(1)] len by auto
    have act: "map mo_active ((om_slots om)[i := s]) = map mo_active (om_slots om)" if "\<not> mo_active s" for s
      using i that by (simp add: map_update list_update_same_conv)
    have fil: "filter mo_active ((om_slots om)[i := s]) = filter mo_active (om_slots om)" if "\<not> mo_active s" for s
      using i that by (subst id_take_nth_drop[OF i(1)]) (simp add: upd_conv_take_nth_drop)
    show ?thesis using inv' assms(3) rejected(4) act fil n0 by auto
  next
    case (accepted i fills c'')
    have i: "i < MAX_ORDERS" "\<not> mo_active (om_slots om ! i)"
      using find_free_slot_SomeD[OF assms(1) accepted(1)] by auto
    have s: "om_slots om' = (om_slots om)[i := placed now order om]" "cid = om_next_id om"
      "om_position om' = om_position om"
      using assms(3) accepted(3) by auto
    have "find_order cid om' = Some i"
      using i len by (intro find_orderI[OF inv']) (auto simp: s placed_def stamped_def)
    with s i inv' fresh n0 show ?thesis by auto
  qed
qed

subsection \<open>Fills\<close>

definition filled :: "FillUpdate \<Rightarrow> ManagedOrder \<Rightarrow> ManagedOrder" where
  "filled u mo = mo\<lparr>mo_filled_qty := fu_cumulative_filled_qty u,
     mo_avg_fill_price := fu_avg_fill_price u, mo_state := fu_new_state u\<rparr>"

definition signed_fill :: "Side \<Rightarrow> FillUpdate \<Rightarrow> double" where
  "signed_fill side u = (if side = BID then 1 else - 1) * fu_fill_qty u"

definition fill_ledger :: "int \<Rightarrow> FillUpdate \<Rightarrow> Order \<Rightarrow> PositionLedger \<Rightarrow> PositionLedger" where
  "fill_ledger now u o1 lg =
     (let lg = (if fu_fill_qty u > 0 then on_fill o1 u now lg else lg)
      in if terminal_state (fu_new_state u)
         then on_order_closed o1 (std_max 0 (o_quantity o1 - fu_cumulative_filled_qty u)) lg else lg)"

lemma apply_fill_unknown: "find_order (fu_client_order_id u) om = None \<Longrightarrow> apply_fill now u om = (om, None)"
  by (simp add: apply_fill_def)

lemma apply_fill_known:
  assumes f: "find_order (fu_client_order_id u) om = Some i" and i: "i < length (om_slots om)"
  defines "mo \<equiv> om_slots om ! i"
  shows "apply_fill now u om =
    (om\<lparr>om_slots := (om_slots om)[i := (if terminal_state (fu_new_state u) then (filled u mo)\<lparr>mo_active := False\<rparr>
                                       else filled u mo)],
       om_position := (if fu_fill_qty u > 0 then om_position om + signed_fill (o_side (mo_order mo)) u else om_position om),
       om_ledger := fill_ledger now u (mo_order mo) (om_ledger om)\<rparr>,
     if terminal_state (fu_new_state u) then Some (filled u mo, u) else None)"
proof -
  have m: "mo_order (filled u mo) = mo_order mo" "mo_filled_qty (filled u mo) = fu_cumulative_filled_qty u"
    by (simp_all add: filled_def)
  show ?thesis
  proof (cases "terminal_state (fu_new_state u)")
    case True
    then have t: "fu_new_state u = FILLED \<or> fu_new_state u = CANCELED \<or> fu_new_state u = REJECTED"
      by (simp add: terminal_state_def)
    show ?thesis
      by (simp add: apply_fill_def f mo_def[symmetric] filled_def[symmetric] m if_P[OF t] if_P[OF True] True Let_def
          fill_ledger_def signed_fill_def set_slot_def)
  next
    case False
    then have t: "\<not> (fu_new_state u = FILLED \<or> fu_new_state u = CANCELED \<or> fu_new_state u = REJECTED)"
      by (simp add: terminal_state_def)
    show ?thesis
      by (simp add: apply_fill_def f mo_def[symmetric] filled_def[symmetric] m if_not_P[OF t] False Let_def
          fill_ledger_def signed_fill_def set_slot_def)
  qed
qed

lemma apply_fill_inv:
  assumes inv: "om_inv om" shows "om_inv (fst (apply_fill now u om))"
proof (cases "find_order (fu_client_order_id u) om")
  case (Some i)
  note i = find_order_SomeD[OF inv Some]
  have len: "length (om_slots om) = MAX_ORDERS" using inv by (simp add: om_inv_def)
  have i': "i < length (om_slots om)" using i len by simp
  have b: "0 < o_client_order_id (mo_order (om_slots om ! i)) \<and> o_client_order_id (mo_order (om_slots om ! i)) < om_next_id om"
    using inv i len by (auto simp: om_inv_def)
  have u: "o_client_order_id (mo_order (om_slots om ! j)) \<noteq> o_client_order_id (mo_order (om_slots om ! i))"
    if "j < MAX_ORDERS" "j \<noteq> i" "mo_active (om_slots om ! j)" for j
    using that i inv len unique_keysD[of mo_active "\<lambda>s. o_client_order_id (mo_order s)" "om_slots om" j i]
    by (auto simp: om_inv_def)
  show ?thesis
    unfolding apply_fill_known[OF Some i'] fst_conv
    by (rule om_inv_slots[OF inv, where i = i and n = "om_next_id om" and q = "om_fill_queue om"
         and s = "if terminal_state (fu_new_state u) then (filled u (om_slots om ! i))\<lparr>mo_active := False\<rparr> else filled u (om_slots om ! i)"])
       (use i b u inv in \<open>auto simp: filled_def om_inv_def\<close>)
qed (use inv in \<open>simp add: apply_fill_unknown\<close>)

text \<open>
  A fill report for a live order: the slot takes the reported state, cumulative quantity and
  average price and keeps the order; a positive fill quantity moves the position by the signed
  quantity and is booked in the ledger, any other leaves both; a terminal state also releases the
  order's remaining pending quantity, frees the slot and reports the order to the callback. A report for an
  id that is not live changes nothing.
\<close>

theorem fill_report_effect:
  assumes "om_inv om" and "fst (apply_fill now u om) = om'"
  shows "om_inv om' \<and>
    (case find_order (fu_client_order_id u) om of
       None \<Rightarrow> apply_fill now u om = (om, None)
     | Some i \<Rightarrow> let mo = om_slots om ! i; t = terminal_state (fu_new_state u) in
         om_slots om' = (om_slots om)[i := (filled u mo)\<lparr>mo_active := \<not> t\<rparr>] \<and>
         om_position om' = (if fu_fill_qty u > 0 then om_position om + signed_fill (o_side (mo_order mo)) u
                            else om_position om) \<and>
         om_ledger om' = fill_ledger now u (mo_order mo) (om_ledger om) \<and>
         snd (apply_fill now u om) = (if t then Some (filled u mo, u) else None))"
proof (cases "find_order (fu_client_order_id u) om")
  case (Some i)
  have i: "i < length (om_slots om)" "mo_active (om_slots om ! i)"
    using find_order_SomeD[OF assms(1) Some] assms(1) by (auto simp: om_inv_def)
  have "(filled u (om_slots om ! i))\<lparr>mo_active := True\<rparr> = filled u (om_slots om ! i)"
    using i(2) by (cases "om_slots om ! i") (simp add: filled_def)
  then show ?thesis using Some apply_fill_inv[OF assms(1), of now u] assms(2)
    by (auto simp: apply_fill_known[OF Some i(1)] Let_def)
qed (use assms in \<open>auto simp: apply_fill_unknown\<close>)

text \<open>
  A report after the terminal one is lost: once an order was reported FILLED, CANCELED or
  REJECTED, any later report for the same id is ignored, even one that carries a fill, and
  position and ledger never learn of that fill.
\<close>

theorem late_fill_is_dropped:
  assumes "om_inv om" and "terminal_state (fu_new_state u)" and "fu_client_order_id u' = fu_client_order_id u"
  shows "apply_fill now' u' (fst (apply_fill now u om)) = (fst (apply_fill now u om), None)"
proof (rule apply_fill_unknown)
  show "find_order (fu_client_order_id u') (fst (apply_fill now u om)) = None"
  proof (cases "find_order (fu_client_order_id u) om")
    case None
    then show ?thesis by (simp add: apply_fill_unknown assms(3))
  next
    case (Some i)
    note i = find_order_SomeD[OF assms(1) Some]
    have len: "length (om_slots om) = MAX_ORDERS" using assms(1) by (simp add: om_inv_def)
    have i': "i < length (om_slots om)" using i len by simp
    have no: "\<not> (mo_active (om_slots om ! j) \<and> o_client_order_id (mo_order (om_slots om ! j)) = fu_client_order_id u)"
      if "j < length (om_slots om)" "j \<noteq> i" for j
      using find_orderI[OF assms(1), of j "fu_client_order_id u"] that Some len by auto
    show ?thesis
      unfolding find_order_def find_slot_None apply_fill_known[OF Some i']
    proof (rule ballI)
      fix s
      assume "s \<in> set (om_slots (fst (om\<lparr>om_slots := (om_slots om)[i := (if terminal_state (fu_new_state u)
            then (filled u (om_slots om ! i))\<lparr>mo_active := False\<rparr> else filled u (om_slots om ! i))],
          om_position := (if fu_fill_qty u > 0 then om_position om + signed_fill (o_side (mo_order (om_slots om ! i))) u
            else om_position om),
          om_ledger := fill_ledger now u (mo_order (om_slots om ! i)) (om_ledger om)\<rparr>,
        if terminal_state (fu_new_state u) then Some (filled u (om_slots om ! i), u) else None)))"
      then obtain j where j: "j < length (om_slots om)"
        "s = (om_slots om)[i := (filled u (om_slots om ! i))\<lparr>mo_active := False\<rparr>] ! j"
        using assms(2) by (auto simp: in_set_conv_nth)
      then show "\<not> (mo_active s \<and> o_client_order_id (mo_order s) = fu_client_order_id u')"
        using no[of j] assms(3) by (cases "j = i") auto
    qed
  qed
qed

subsection \<open>Draining the queue\<close>

lemma drain_fills_all:
  "om_inv om \<Longrightarrow> sq_items (om_fill_queue om) = us \<Longrightarrow> length us < n \<Longrightarrow>
   \<exists>om'. drain_fills n now om = Some om' \<and> om_inv om' \<and> sq_items (om_fill_queue om') = [] \<and>
     om' = (fold (\<lambda>u om. fst (apply_fill now u om)) us om)\<lparr>om_fill_queue := om_fill_queue om'\<rparr>"
proof (induction us arbitrary: om n)
  case Nil
  then obtain m where m: "n = Suc m" by (cases n) auto
  have "sq_ok (om_fill_queue om)" using Nil.prems(1) by (simp add: om_inv_def)
  from fq.deq_empty[OF this Nil.prems(2)] show ?case using Nil.prems m by simp
next
  case (Cons u us)
  then obtain m where m: "n = Suc m" "length us < m" by (cases n) auto
  have "sq_ok (om_fill_queue om)" using Cons.prems(1) by (simp add: om_inv_def)
  from fq.deq_ok[OF this Cons.prems(2)] obtain q where q: "pop (om_fill_queue om) = (Some u, q)" "sq_ok q" "sq_items q = us"
    by blast
  have lq: "length (sq_buf q) = FILL_QUEUE_DEPTH"
    using Cons.prems(1) length_sq_buf_pop[of "om_fill_queue om"] q(1) by (simp add: om_inv_def)
  let ?om = "om\<lparr>om_fill_queue := q\<rparr>"
  have inv: "om_inv ?om" using Cons.prems(1) q lq by (simp add: om_inv_def)
  have frame: "apply_fill now v (o1\<lparr>om_fill_queue := x\<rparr>) =
      ((fst (apply_fill now v o1))\<lparr>om_fill_queue := x\<rparr>, snd (apply_fill now v o1))" for v o1 x
    by (simp add: apply_fill_def find_order_def set_slot_def Let_def split: option.splits)
  have ffold: "fold (\<lambda>u om. fst (apply_fill now u om)) vs (o1\<lparr>om_fill_queue := x\<rparr>) =
      (fold (\<lambda>u om. fst (apply_fill now u om)) vs o1)\<lparr>om_fill_queue := x\<rparr>" for vs o1 x
    by (induction vs arbitrary: o1) (simp_all add: frame)
  have "sq_items (om_fill_queue (fst (apply_fill now u ?om))) = us" by (simp add: frame q(3))
  from Cons.IH[OF apply_fill_inv[OF inv] this m(2)] obtain om' where
    "drain_fills m now (fst (apply_fill now u ?om)) = Some om'" "om_inv om'" "sq_items (om_fill_queue om') = []"
    "om' = (fold (\<lambda>u om. fst (apply_fill now u om)) us (fst (apply_fill now u ?om)))\<lparr>om_fill_queue := om_fill_queue om'\<rparr>"
    by blast
  then show ?case using m(1) q(1) by (simp add: frame ffold)
qed

text \<open>
  Draining terminates and is complete: with one round of fuel more than there are queued
  reports \<open>drain_fills\<close> returns, the queue is empty, and every queued report has been applied once,
  in the order the connector pushed them.
\<close>

theorem drain_applies_all_in_order:
  assumes "om_inv om"
  shows "\<exists>om'. drain_fills (Suc (sq_count (om_fill_queue om))) now om = Some om' \<and> om_inv om' \<and>
    sq_items (om_fill_queue om') = [] \<and>
    om' = (fold (\<lambda>u om. fst (apply_fill now u om)) (sq_items (om_fill_queue om)) om)
            \<lparr>om_fill_queue := om_fill_queue om'\<rparr>"
  using drain_fills_all[OF assms refl, of "Suc (sq_count (om_fill_queue om))"] by simp

text \<open>
  A burst overflows silently: of any number of reports that arrive between two drains the queue
  keeps at most 127, the first ones; the others are dropped and never applied.
\<close>

theorem fill_burst_keeps_first_127:
  assumes "om_inv om"
  shows "sq_items (om_fill_queue (fold on_connector_fill us om)) = take 127 (sq_items (om_fill_queue om) @ us)"
proof -
  have "sq_ok (om_fill_queue om)" "sq_cap (om_fill_queue om) = 127"
    using assms by (simp_all add: om_inv_def sq_cap_def FILL_QUEUE_DEPTH_def)
  then show ?thesis using fq.enqs_items[of "om_fill_queue om" us] by (simp add: fold_connector_fills)
qed

subsection \<open>Instances\<close>

definition accept_all :: "unit connector_submit" where
  "accept_all o1 c = (C_OK, [], c)"

definition om_live :: OrderManager where
  "om_live = (om_init 0 [])\<lparr>om_next_id := 2,
     om_slots := (replicate MAX_ORDERS mk_ManagedOrder)[0 := placed 5 order_sample (om_init 0 [])]\<rparr>"

lemma om_live_inv: "om_inv om_live"
proof (rule om_inv_slots[OF om_init_inv[of 0 "[]"], where i = 0 and n = 2 and q = "sq_init FILL_QUEUE_DEPTH mk_FillUpdate"
    and s = "placed 5 order_sample (om_init 0 [])"])
  have q: "om_fill_queue (om_init 0 []) = sq_init FILL_QUEUE_DEPTH mk_FillUpdate" by (simp add: om_init_def)
  show "sq_ok (sq_init FILL_QUEUE_DEPTH mk_FillUpdate)"
    "length (sq_buf (sq_init FILL_QUEUE_DEPTH mk_FillUpdate)) = FILL_QUEUE_DEPTH"
    using om_init_inv[of 0 "[]"] q unfolding om_inv_def by simp_all
qed (auto simp: om_live_def om_init_def MAX_ORDERS_def placed_def stamped_def mk_ManagedOrder_def)

lemma om_live_slot: "om_slots om_live ! 0 = placed 5 order_sample (om_init 0 [])"
  by (simp add: om_live_def MAX_ORDERS_def)

lemma om_live_find: "find_order 1 om_live = Some 0"
  by (rule find_orderI[OF om_live_inv]) (simp_all add: om_live_slot MAX_ORDERS_def placed_def stamped_def om_init_def)

theorem submit_places_order_witness:
  "\<exists>om' c'. submit accept_all 5 order_sample (om_init 0 [], ()) = (1, om', c') \<and>
     find_order 1 om' \<noteq> None \<and> om_position om' = 0"
proof -
  have f: "find_free_slot (om_init 0 []) = Some 0"
    by (simp add: find_free_slot_def om_init_def MAX_ORDERS_def mk_ManagedOrder_def numeral_eq_Suc)
  have "fst (submit accept_all 5 order_sample (om_init 0 [], ())) = 1"
    by (simp add: submit_def f accept_all_def Let_def) (simp add: om_init_def)
  then obtain om' c' where s: "submit accept_all 5 order_sample (om_init 0 [], ()) = (1, om', c')"
    by (cases "submit accept_all 5 order_sample (om_init 0 [], ())") auto
  have "om_next_id (om_init 0 []) \<noteq> - 1" "om_position (om_init 0 []) = 0" by (simp_all add: om_init_def)
  with submit_places_order[OF om_init_inv _ s] s show ?thesis by auto
qed

theorem fill_report_effect_witness:
  "om_position (fst (apply_fill 9 fill_sample om_live)) = 0 + 1 * Fin 2 \<and>
   \<not> mo_active (om_slots (fst (apply_fill 9 fill_sample om_live)) ! 0)"
proof -
  have u: "fu_client_order_id fill_sample = 1" "fu_fill_qty fill_sample = Fin 2" "fu_new_state fill_sample = FILLED"
    by (simp_all add: fill_sample_def)
  have o1: "o_side (mo_order (om_slots om_live ! 0)) = BID" "om_position om_live = 0" "length (om_slots om_live) = 64"
    by (simp_all add: om_live_slot placed_def stamped_def order_sample_def mk_Order_def om_live_def om_init_def MAX_ORDERS_def)
  have "(0 :: double) < Fin 2" by code_simp
  then show ?thesis
    using fill_report_effect[OF om_live_inv refl, of 9 fill_sample] u o1 om_live_find
    by (simp add: Let_def terminal_state_def signed_fill_def)
qed

theorem late_fill_is_dropped_witness:
  "apply_fill 10 fill_sample (fst (apply_fill 9 (fill_sample\<lparr>fu_new_state := CANCELED, fu_fill_qty := 0\<rparr>) om_live)) =
     (fst (apply_fill 9 (fill_sample\<lparr>fu_new_state := CANCELED, fu_fill_qty := 0\<rparr>) om_live), None)"
  by (rule late_fill_is_dropped[OF om_live_inv]) (simp_all add: terminal_state_def)

lemma on_connector_fill_inv: "om_inv om \<Longrightarrow> om_inv (on_connector_fill u om)"
  using fq.enq_items(1)[of "om_fill_queue om" u] by (simp add: om_inv_def on_connector_fill_def)

theorem drain_applies_all_in_order_witness:
  "\<exists>om'. drain_fills 2 9 (on_connector_fill fill_sample om_live) = Some om' \<and>
     sq_items (om_fill_queue om') = [] \<and> om_position om' = 0 + 1 * Fin 2"
proof -
  let ?om = "on_connector_fill fill_sample om_live"
  have q: "sq_items (om_fill_queue om_live) = []"
    by (simp add: om_live_def om_init_def sq_init_def sq_items_def sq_count_def FILL_QUEUE_DEPTH_def)
  have "sq_ok (om_fill_queue om_live)" "sq_cap (om_fill_queue om_live) = 127"
    using om_live_inv by (simp_all add: om_inv_def sq_cap_def FILL_QUEUE_DEPTH_def)
  then have i: "sq_items (om_fill_queue ?om) = [fill_sample]"
    using fq.enq_items(3)[of "om_fill_queue om_live" fill_sample] q by (simp add: on_connector_fill_def)
  then have n: "sq_count (om_fill_queue ?om) = 1" by (metis length_sq_items length_Cons list.size(3) One_nat_def)
  have f: "find_order 1 ?om = Some 0" using om_live_find by (simp add: find_order_def on_connector_fill_def)
  have l: "0 < length (om_slots ?om)" "o_side (mo_order (om_slots ?om ! 0)) = BID" "om_position ?om = 0"
    by (simp_all add: on_connector_fill_def om_live_slot placed_def stamped_def order_sample_def mk_Order_def)
       (simp_all add: om_live_def om_init_def MAX_ORDERS_def)
  have "(0 :: double) < Fin 2" by code_simp
  then have p: "om_position (fst (apply_fill 9 fill_sample ?om)) = 0 + 1 * Fin 2"
    using apply_fill_known[of fill_sample ?om 0 9] f l by (simp add: fill_sample_def signed_fill_def)
  obtain om' where d: "drain_fills (Suc 1) 9 ?om = Some om'" "sq_items (om_fill_queue om') = []"
    "om' = (fold (\<lambda>u om. fst (apply_fill 9 u om)) [fill_sample] ?om)\<lparr>om_fill_queue := om_fill_queue om'\<rparr>"
    using drain_applies_all_in_order[OF on_connector_fill_inv[OF om_live_inv, of fill_sample], of 9]
    unfolding i n by blast
  from arg_cong[OF d(3), of om_position] p have "om_position om' = 0 + 1 * Fin 2" by simp
  with d(1,2) show ?thesis by (simp add: numeral_2_eq_2)
qed

theorem fill_burst_keeps_first_127_witness:
  "length (sq_items (om_fill_queue (fold on_connector_fill (replicate 200 fill_sample) om_live))) = 127"
  using fill_burst_keeps_first_127[OF om_live_inv, of "replicate 200 fill_sample"] by simp

end
