(* ===== verification/Idempotency_Journal.thy ===== *)
theory Idempotency_Journal
  imports Trading_Types
begin

text \<open>
  \<^verbatim>\<open>core/execution/common/connectors/idempotency_journal.hpp\<close>: 256 entries keyed by operation
  and client order id, with a file to which every change is appended and from which
  \<open>recover\<close> rebuilds the entries. A line of the file is the record of the seven fields the
  program prints and reads back, in the version and with the codes the program itself
  writes; a venue id has no white space. \<open>io\<close> says whether the file could be opened for
  appending: the code goes on when it could not.
\<close>

datatype JournalOperation = SUBMIT | CANCEL | REPLACE

datatype JournalState = NONE | IN_FLIGHT | ACKED | FAILED

record JournalDecision =
  jd_state :: JournalState
  jd_attempt :: u64
  jd_related_client_order_id :: u64
  jd_venue_order_id :: string

record JournalEntry =
  je_used :: bool
  je_op :: JournalOperation
  je_client_order_id :: u64
  je_related_client_order_id :: u64
  je_attempt :: u64
  je_state :: JournalState
  je_venue_order_id :: string

record JournalLine =
  jl_version :: u32
  jl_op :: JournalOperation
  jl_client_order_id :: u64
  jl_related_client_order_id :: u64
  jl_attempt :: u64
  jl_state :: JournalState
  jl_venue_order_id :: string

record IdempotencyJournal =
  jn_entries :: "JournalEntry list"
  jn_duplicate_ack_count :: u64
  jn_file :: "JournalLine list"

definition MAX_RECORDS :: nat where "MAX_RECORDS = 256"

definition mk_JournalEntry :: JournalEntry where
  "mk_JournalEntry = \<lparr>je_used = False, je_op = SUBMIT, je_client_order_id = 0, je_related_client_order_id = 0,
     je_attempt = 0, je_state = NONE, je_venue_order_id = []\<rparr>"

definition mk_JournalDecision :: JournalDecision where
  "mk_JournalDecision = \<lparr>jd_state = NONE, jd_attempt = 0, jd_related_client_order_id = 0, jd_venue_order_id = []\<rparr>"

definition should_send_to_venue :: "JournalDecision \<Rightarrow> bool" where
  "should_send_to_venue d \<longleftrightarrow> jd_state d = IN_FLIGHT"

definition already_acked :: "JournalDecision \<Rightarrow> bool" where
  "already_acked d \<longleftrightarrow> jd_state d = ACKED"

definition populate_decision :: "JournalEntry \<Rightarrow> JournalDecision" where
  "populate_decision e = \<lparr>jd_state = je_state e, jd_attempt = je_attempt e,
     jd_related_client_order_id = je_related_client_order_id e,
     jd_venue_order_id = buf_copy 64 (je_venue_order_id e)\<rparr>"

definition saturating_add :: "u64 \<Rightarrow> u64 \<Rightarrow> u64" where
  "saturating_add value delta = (if value > - 1 - delta then - 1 else value + delta)"

definition je_is :: "JournalOperation \<Rightarrow> u64 \<Rightarrow> JournalEntry \<Rightarrow> bool" where
  "je_is op cid e \<longleftrightarrow> je_used e \<and> je_op e = op \<and> je_client_order_id e = cid"

definition jn_find :: "JournalOperation \<Rightarrow> u64 \<Rightarrow> JournalEntry list \<Rightarrow> nat option" where
  "jn_find op cid es = find_slot (je_is op cid) es"

definition jn_find_or_create :: "JournalOperation \<Rightarrow> u64 \<Rightarrow> JournalEntry list \<Rightarrow> nat option \<times> JournalEntry list" where
  "jn_find_or_create op cid es =
     (case jn_find op cid es of
        Some i \<Rightarrow> (Some i, es)
      | None \<Rightarrow>
          (case find_slot (\<lambda>e. \<not> je_used e) es of
             Some i \<Rightarrow> (Some i, es[i := (es ! i)\<lparr>je_used := True, je_op := op, je_client_order_id := cid\<rparr>])
           | None \<Rightarrow> (None, es)))"

definition line_of :: "JournalEntry \<Rightarrow> JournalLine" where
  "line_of e = \<lparr>jl_version = 1, jl_op = je_op e, jl_client_order_id = je_client_order_id e,
     jl_related_client_order_id = je_related_client_order_id e, jl_attempt = je_attempt e,
     jl_state = je_state e,
     jl_venue_order_id = (if je_venue_order_id e \<noteq> [] then je_venue_order_id e else ''-'')\<rparr>"

definition append_record :: "bool \<Rightarrow> JournalEntry \<Rightarrow> JournalLine list \<Rightarrow> JournalLine list" where
  "append_record io e f = (if io then f @ [line_of e] else f)"

definition jn_begin ::
  "bool \<Rightarrow> JournalOperation \<Rightarrow> u64 \<Rightarrow> u64 \<Rightarrow> IdempotencyJournal \<Rightarrow> JournalDecision \<times> IdempotencyJournal" where
  "jn_begin io op cid related j =
     (case jn_find_or_create op cid (jn_entries j) of
        (None, es) \<Rightarrow> (mk_JournalDecision, j\<lparr>jn_entries := es\<rparr>)
      | (Some i, es) \<Rightarrow>
          let e = es ! i;
              j = j\<lparr>jn_entries := es\<rparr>;
              j = (if je_state e = ACKED
                   then j\<lparr>jn_duplicate_ack_count := saturating_add (jn_duplicate_ack_count j) 1\<rparr> else j)
          in if je_state e = ACKED \<or> je_state e = IN_FLIGHT then (populate_decision e, j)
             else
               let e = e\<lparr>je_state := IN_FLIGHT, je_attempt := saturating_add (je_attempt e) 1,
                         je_related_client_order_id := related\<rparr>
               in (populate_decision e,
                   j\<lparr>jn_entries := es[i := e], jn_file := append_record io e (jn_file j)\<rparr>))"

definition jn_ack ::
  "bool \<Rightarrow> JournalOperation \<Rightarrow> u64 \<Rightarrow> string \<Rightarrow> u64 \<Rightarrow> IdempotencyJournal \<Rightarrow> IdempotencyJournal" where
  "jn_ack io op cid venue_order_id related j =
     (case jn_find_or_create op cid (jn_entries j) of
        (None, es) \<Rightarrow> j\<lparr>jn_entries := es\<rparr>
      | (Some i, es) \<Rightarrow>
          let e = es ! i;
              j = (if je_state e = ACKED
                   then j\<lparr>jn_duplicate_ack_count := saturating_add (jn_duplicate_ack_count j) 1\<rparr> else j);
              e = e\<lparr>je_state := ACKED, je_related_client_order_id := related,
                    je_venue_order_id := buf_copy 64 venue_order_id\<rparr>
          in j\<lparr>jn_entries := es[i := e], jn_file := append_record io e (jn_file j)\<rparr>)"

definition jn_fail ::
  "bool \<Rightarrow> JournalOperation \<Rightarrow> u64 \<Rightarrow> u64 \<Rightarrow> IdempotencyJournal \<Rightarrow> IdempotencyJournal" where
  "jn_fail io op cid related j =
     (case jn_find_or_create op cid (jn_entries j) of
        (None, es) \<Rightarrow> j\<lparr>jn_entries := es\<rparr>
      | (Some i, es) \<Rightarrow>
          let e = (es ! i)\<lparr>je_state := FAILED, je_related_client_order_id := related\<rparr>
          in j\<lparr>jn_entries := es[i := e], jn_file := append_record io e (jn_file j)\<rparr>)"

definition jn_lookup :: "JournalOperation \<Rightarrow> u64 \<Rightarrow> IdempotencyJournal \<Rightarrow> JournalDecision" where
  "jn_lookup op cid j =
     (case jn_find op cid (jn_entries j) of
        None \<Rightarrow> mk_JournalDecision
      | Some i \<Rightarrow> populate_decision (jn_entries j ! i))"

definition in_flight_count :: "IdempotencyJournal \<Rightarrow> u32" where
  "in_flight_count j = of_nat (length (filter (\<lambda>e. je_used e \<and> je_state e = IN_FLIGHT) (jn_entries j)))"

definition recover_line :: "JournalLine \<Rightarrow> JournalEntry list \<Rightarrow> JournalEntry list" where
  "recover_line l es =
     (if jl_version l \<noteq> 1 then es
      else
        (case jn_find_or_create (jl_op l) (jl_client_order_id l) es of
           (None, es) \<Rightarrow> es
         | (Some i, es) \<Rightarrow> es[i := (es ! i)\<lparr>je_state := jl_state l, je_attempt := jl_attempt l,
              je_related_client_order_id := jl_related_client_order_id l,
              je_venue_order_id := buf_copy 64 (jl_venue_order_id l)\<rparr>]))"

definition recover :: "IdempotencyJournal \<Rightarrow> IdempotencyJournal" where
  "recover j = j\<lparr>jn_entries := fold recover_line (jn_file j) (replicate MAX_RECORDS mk_JournalEntry),
     jn_duplicate_ack_count := 0\<rparr>"

text \<open>The constructor: open the journal at a path whose file has the given lines.\<close>

definition jn_open :: "JournalLine list \<Rightarrow> IdempotencyJournal" where
  "jn_open f = recover \<lparr>jn_entries = replicate MAX_RECORDS mk_JournalEntry, jn_duplicate_ack_count = 0, jn_file = f\<rparr>"

subsection \<open>The entries as a map\<close>

definition je_key :: "JournalEntry \<Rightarrow> JournalOperation \<times> u64" where
  "je_key e = (je_op e, je_client_order_id e)"

definition jn_map :: "JournalEntry list \<Rightarrow> JournalOperation \<times> u64 \<Rightarrow> JournalEntry option" where
  "jn_map es = key_map je_used je_key es"

definition es_ok :: "JournalEntry list \<Rightarrow> bool" where
  "es_ok es \<longleftrightarrow> length es = MAX_RECORDS \<and> unique_keys je_used je_key es \<and>
     (\<forall>e \<in> set es. length (je_venue_order_id e) < 64 \<and> (\<not> je_used e \<longrightarrow> e = mk_JournalEntry))"

definition new_entry :: "JournalOperation \<Rightarrow> u64 \<Rightarrow> JournalEntry" where
  "new_entry op cid = mk_JournalEntry\<lparr>je_used := True, je_op := op, je_client_order_id := cid\<rparr>"

definition entry_at :: "JournalEntry list \<Rightarrow> JournalOperation \<Rightarrow> u64 \<Rightarrow> JournalEntry" where
  "entry_at es op cid = (case jn_map es (op, cid) of Some e \<Rightarrow> e | None \<Rightarrow> new_entry op cid)"

lemma je_is_key: "je_is op cid e \<longleftrightarrow> je_used e \<and> je_key e = (op, cid)"
  by (auto simp: je_is_def je_key_def)

lemma jn_map_find: "jn_map es (op, cid) = map_option ((!) es) (jn_find op cid es)"
  by (simp add: jn_map_def key_map_def jn_find_def je_is_key[abs_def])

lemma entry_at_key [simp]: "je_used (entry_at es op cid)" "je_key (entry_at es op cid) = (op, cid)"
  by (auto simp: entry_at_def new_entry_def je_key_def jn_map_find jn_find_def je_is_def
      dest: find_slot_holds split: option.splits)

text \<open>
  Creating the entry and storing a value in it, the pattern of every operation: the index, and
  the map and the invariant afterwards.
\<close>

lemma jn_find_or_create_cases:
  assumes ok: "es_ok es"
  obtains (slot) i es1 where "jn_find_or_create op cid es = (Some i, es1)" "i < length es" "length es1 = length es"
      "es1 ! i = entry_at es op cid" "\<And>x. es1[i := x] = es[i := x]"
      "je_used (es ! i) \<Longrightarrow> je_key (es ! i) = (op, cid)" "\<forall>e \<in> set es. je_used e \<Longrightarrow> jn_map es (op, cid) \<noteq> None"
      "\<And>j. j < length es \<Longrightarrow> j \<noteq> i \<Longrightarrow> je_used (es ! j) \<Longrightarrow> je_key (es ! j) \<noteq> (op, cid)"
  | (full) "jn_find_or_create op cid es = (None, es)" "jn_map es (op, cid) = None" "\<forall>e \<in> set es. je_used e"
proof (cases "jn_find op cid es")
  case (Some i)
  have i: "i < length es" "je_used (es ! i)" "je_key (es ! i) = (op, cid)"
    using find_slot_SomeD[OF Some[unfolded jn_find_def]] by (auto simp: je_is_key)
  have e: "entry_at es op cid = es ! i" using Some by (simp add: entry_at_def jn_map_find)
  show ?thesis
  proof (rule slot)
    show "je_key (es ! j) \<noteq> (op, cid)" if "j < length es" "j \<noteq> i" "je_used (es ! j)" for j
      using unique_keysD[of je_used je_key es i j] ok i that by (auto simp: es_ok_def)
  qed (use Some i e in \<open>simp_all add: jn_find_or_create_def jn_map_find\<close>)
next
  case None
  note n = None
  have m: "jn_map es (op, cid) = None" using None by (simp add: jn_map_find)
  show ?thesis
  proof (cases "find_slot (\<lambda>e. \<not> je_used e) es")
    case (Some i)
    have i: "i < length es" "\<not> je_used (es ! i)" using find_slot_SomeD[OF Some] by auto
    then have z: "es ! i = mk_JournalEntry" using ok by (auto simp: es_ok_def)
    have e: "entry_at es op cid = new_entry op cid" using m by (simp add: entry_at_def)
    have f: "jn_find_or_create op cid es = (Some i, es[i := new_entry op cid])"
      using n Some by (simp add: jn_find_or_create_def new_entry_def z)
    show ?thesis
    proof (rule slot[OF f])
      show "je_key (es ! j) \<noteq> (op, cid)" if "j < length es" "j \<noteq> i" "je_used (es ! j)" for j
        using n that by (auto simp: jn_find_def find_slot_None je_is_key)
      show "jn_map es (op, cid) \<noteq> None" if "\<forall>e \<in> set es. je_used e" using that i by simp
    qed (use i e in simp_all)
  next
    case None
    have "\<forall>e \<in> set es. je_used e" using None by (simp add: find_slot_None)
    with n None m show ?thesis by (intro full) (simp_all add: jn_find_or_create_def)
  qed
qed

lemma es_put:
  assumes ok: "es_ok es" and i: "i < length es" and e: "je_used e" "je_key e = (op, cid)" "length (je_venue_order_id e) < 64"
    and old: "je_used (es ! i) \<Longrightarrow> je_key (es ! i) = (op, cid)"
    and fresh: "\<And>j. j < length es \<Longrightarrow> j \<noteq> i \<Longrightarrow> je_used (es ! j) \<Longrightarrow> je_key (es ! j) \<noteq> (op, cid)"
  shows "es_ok (es[i := e]) \<and> jn_map (es[i := e]) = (jn_map es)((op, cid) \<mapsto> e)"
proof
  have u: "unique_keys je_used je_key es" using ok by (simp add: es_ok_def)
  have "unique_keys je_used je_key (es[i := e])"
    by (rule unique_keys_update[OF u]) (use fresh e in auto)
  moreover have "length (je_venue_order_id x) < 64 \<and> (\<not> je_used x \<longrightarrow> x = mk_JournalEntry)"
    if "x \<in> set (es[i := e])" for x
    using that set_update_subset_insert[of es i e] ok e(1,3) by (auto simp: es_ok_def)
  ultimately show "es_ok (es[i := e])" using ok by (simp add: es_ok_def)
  show "jn_map (es[i := e]) = (jn_map es)((op, cid) \<mapsto> e)"
    unfolding jn_map_def by (rule key_map_put[OF u i e(1,2)]) (use old fresh in auto)
qed

lemma entry_at_venue: "es_ok es \<Longrightarrow> length (je_venue_order_id (entry_at es op cid)) < 64"
  by (auto simp: entry_at_def new_entry_def mk_JournalEntry_def jn_map_def es_ok_def key_map_Some
      split: option.splits)

definition began :: "JournalEntry \<Rightarrow> u64 \<Rightarrow> JournalEntry" where
  "began e related = e\<lparr>je_state := IN_FLIGHT, je_attempt := saturating_add (je_attempt e) 1,
     je_related_client_order_id := related\<rparr>"

definition acknowledged :: "JournalEntry \<Rightarrow> string \<Rightarrow> u64 \<Rightarrow> JournalEntry" where
  "acknowledged e vid related = e\<lparr>je_state := ACKED, je_related_client_order_id := related,
     je_venue_order_id := buf_copy 64 vid\<rparr>"

definition failed_entry :: "JournalEntry \<Rightarrow> u64 \<Rightarrow> JournalEntry" where
  "failed_entry e related = e\<lparr>je_state := FAILED, je_related_client_order_id := related\<rparr>"

lemma entry_key_simps [simp]:
  "je_key (began e r) = je_key e" "je_used (began e r) = je_used e" "je_venue_order_id (began e r) = je_venue_order_id e"
  "je_key (acknowledged e v r) = je_key e" "je_used (acknowledged e v r) = je_used e"
  "je_key (failed_entry e r) = je_key e" "je_used (failed_entry e r) = je_used e"
  "je_venue_order_id (failed_entry e r) = je_venue_order_id e"
  "je_state (began e r) = IN_FLIGHT" "je_state (acknowledged e v r) = ACKED" "je_state (failed_entry e r) = FAILED"
  "je_venue_order_id (acknowledged e v r) = buf_copy 64 v"
  by (simp_all add: began_def acknowledged_def failed_entry_def je_key_def)

subsection \<open>The file replays to the entries\<close>

text \<open>The only trace of the round trip through the file: an empty venue id comes back as a dash.\<close>

definition dash :: "JournalEntry \<Rightarrow> JournalEntry" where
  "dash e = (if je_used e \<and> je_venue_order_id e = [] then e\<lparr>je_venue_order_id := ''-''\<rparr> else e)"

definition replay :: "JournalLine list \<Rightarrow> JournalEntry list" where
  "replay f = fold recover_line f (replicate MAX_RECORDS mk_JournalEntry)"

definition journal_ok :: "IdempotencyJournal \<Rightarrow> bool" where
  "journal_ok j \<longleftrightarrow> es_ok (jn_entries j) \<and> replay (jn_file j) = map dash (jn_entries j)"

lemma dash_simps [simp]:
  "je_used (dash e) = je_used e" "je_key (dash e) = je_key e" "je_state (dash e) = je_state e"
  "dash (dash e) = dash e" "je_op (dash e) = je_op e" "je_client_order_id (dash e) = je_client_order_id e"
  by (simp_all add: dash_def je_key_def)

lemma find_slot_map: "find_slot P (map f xs) = find_slot (\<lambda>x. P (f x)) xs"
  by (induction xs) auto

lemma jn_map_dash: "jn_map (map dash es) k = map_option dash (jn_map es k)"
proof -
  have "find_slot (\<lambda>e. je_used e \<and> je_key e = k) (map dash es) = find_slot (\<lambda>e. je_used e \<and> je_key e = k) es"
    by (simp add: find_slot_map)
  then show ?thesis
    by (cases "find_slot (\<lambda>e. je_used e \<and> je_key e = k) es") (auto simp: jn_map_def key_map_def dest: find_slot_length)
qed

lemma es_ok_dash:
  assumes "es_ok es" shows "es_ok (map dash es)"
proof -
  have "unique_keys je_used je_key (map dash es)"
    using assms unfolding es_ok_def unique_keys_def by simp
  moreover have "length (je_venue_order_id (dash e)) < 64 \<and> (\<not> je_used (dash e) \<longrightarrow> dash e = mk_JournalEntry)"
    if "e \<in> set es" for e
    using that assms by (simp add: es_ok_def dash_def)
  ultimately show ?thesis using assms by (simp add: es_ok_def)
qed

lemma recover_line_dash:
  assumes f: "jn_find_or_create op cid es = (Some i, es1)" and i: "i < length es"
    and e: "je_used e" "je_key e = (op, cid)" "length (je_venue_order_id e) < 64"
  shows "recover_line (line_of e) (map dash es) = map dash (es[i := e])"
proof -
  have k: "je_op e = op" "je_client_order_id e = cid" using e(2) by (auto simp: je_key_def)
  have fd: "jn_find op cid (map dash es) = jn_find op cid es"
    by (simp add: jn_find_def find_slot_map je_is_def[abs_def])
  have free: "find_slot (\<lambda>e. \<not> je_used e) (map dash es) = find_slot (\<lambda>e. \<not> je_used e) es"
    by (simp add: find_slot_map)
  have rec: "x\<lparr>je_state := je_state e, je_attempt := je_attempt e,
      je_related_client_order_id := je_related_client_order_id e,
      je_venue_order_id := buf_copy 64 (if je_venue_order_id e \<noteq> [] then je_venue_order_id e else ''-'')\<rparr> = dash e"
    if "je_used x" "je_op x = op" "je_client_order_id x = cid" for x
    using that e k by (cases x; cases e) (auto simp: dash_def je_key_def)
  show ?thesis
  proof (cases "jn_find op cid es")
    case (Some j)
    then have "j = i" using f by (simp add: jn_find_or_create_def)
    moreover have "je_is op cid (es ! j)" using Some find_slot_holds unfolding jn_find_def by fast
    ultimately show ?thesis using Some fd i k
      by (simp add: recover_line_def line_of_def jn_find_or_create_def map_update je_is_def rec)
  next
    case None
    then have j: "find_slot (\<lambda>e. \<not> je_used e) es = Some i"
      using f by (auto simp: jn_find_or_create_def split: option.splits)
    then show ?thesis using None fd free i k
      by (simp add: recover_line_def line_of_def jn_find_or_create_def map_update rec)
  qed
qed

lemma journal_write:
  assumes j: "journal_ok j" and f: "jn_find_or_create op cid (jn_entries j) = (Some i, es1)"
    and i: "i < length (jn_entries j)" and e: "je_used e" "je_key e = (op, cid)" "length (je_venue_order_id e) < 64"
    and ok: "es_ok ((jn_entries j)[i := e])"
    and j': "jn_entries j' = (jn_entries j)[i := e]" "jn_file j' = jn_file j @ [line_of e]"
  shows "journal_ok j'"
  using ok j recover_line_dash[OF f i e] by (simp add: journal_ok_def j' replay_def)

lemma recover_ok: "journal_ok j \<Longrightarrow> journal_ok (recover j) \<and> jn_entries (recover j) = map dash (jn_entries j)"
  using es_ok_dash[of "jn_entries j"] by (simp add: journal_ok_def recover_def replay_def[symmetric] o_def)

lemma jn_open_ok: "journal_ok (jn_open [])"
  by (auto simp: jn_open_def recover_def journal_ok_def replay_def es_ok_def unique_keys_def mk_JournalEntry_def dash_def)

subsection \<open>What each operation does\<close>

definition stored :: "JournalEntry list \<Rightarrow> JournalOperation \<Rightarrow> u64 \<Rightarrow> JournalEntry \<Rightarrow> JournalEntry list \<Rightarrow> bool" where
  "stored es op cid e es' \<longleftrightarrow> je_used e \<and> (\<exists>i. es' = es[i := e]) \<and>
     ((\<forall>x \<in> set es. je_used x) \<longrightarrow> jn_map es (op, cid) \<noteq> None) \<and> jn_map es' = (jn_map es)((op, cid) \<mapsto> e)"

lemma stored_map:
  "stored es op cid e es' \<Longrightarrow> jn_map es' k = (if k = (op, cid) then Some e else jn_map es k)"
  by (simp add: stored_def)

definition refused :: "IdempotencyJournal \<Rightarrow> JournalOperation \<Rightarrow> u64 \<Rightarrow> IdempotencyJournal \<Rightarrow> bool" where
  "refused j op cid j' \<longleftrightarrow> j' = j \<and> jn_map (jn_entries j) (op, cid) = None \<and> (\<forall>e \<in> set (jn_entries j). je_used e)"

lemma jn_begin_effect:
  assumes j: "journal_ok j" and b: "jn_begin True op cid r j = (d, j')"
  shows "journal_ok j' \<and>
    ((refused j op cid j' \<and> d = mk_JournalDecision) \<or>
     (let e = entry_at (jn_entries j) op cid;
          e' = (if je_state e = ACKED \<or> je_state e = IN_FLIGHT then e else began e r)
      in d = populate_decision e' \<and> stored (jn_entries j) op cid e' (jn_entries j')))"
proof -
  have ok: "es_ok (jn_entries j)" using j by (simp add: journal_ok_def)
  from ok show ?thesis
  proof (cases rule: jn_find_or_create_cases[where op = op and cid = cid])
    case full
    then have "d = mk_JournalDecision" "j' = j" using b by (auto simp: jn_begin_def)
    with full j show ?thesis by (simp add: refused_def)
  next
    case (slot i es1)
    let ?e = "entry_at (jn_entries j) op cid"
    show ?thesis
    proof (cases "je_state ?e = ACKED \<or> je_state ?e = IN_FLIGHT")
      case True
      have "jn_map (jn_entries j) (op, cid) \<noteq> None"
        using True by (cases "jn_map (jn_entries j) (op, cid)")
          (simp_all add: entry_at_def new_entry_def mk_JournalEntry_def)
      then have m: "jn_map (jn_entries j) (op, cid) = Some ?e" by (auto simp: entry_at_def)
      then have "jn_find op cid (jn_entries j) \<noteq> None" by (auto simp: jn_map_find)
      then have es: "es1 = jn_entries j" using slot(1) by (auto simp: jn_find_or_create_def)
      have d: "d = populate_decision ?e" "jn_entries j' = jn_entries j" "jn_file j' = jn_file j"
        using b slot(1,4) True es by (auto simp: jn_begin_def Let_def split: if_splits)
      have "(jn_map (jn_entries j))((op, cid) \<mapsto> ?e) = jn_map (jn_entries j)" using m by auto
      moreover have "jn_entries j = (jn_entries j)[i := ?e]" using slot(4) es by (metis list_update_id)
      ultimately have "stored (jn_entries j) op cid ?e (jn_entries j')"
        using d m unfolding stored_def by auto
      then show ?thesis using d True j by (simp add: journal_ok_def Let_def)
    next
      case False
      let ?e' = "began ?e r"
      have d: "d = populate_decision ?e'" "jn_entries j' = (jn_entries j)[i := ?e']"
        "jn_file j' = jn_file j @ [line_of ?e']"
        using b slot(1,4,5) False by (auto simp: jn_begin_def Let_def append_record_def began_def)
      note p = es_put[OF ok slot(2), of ?e' op cid]
      have q: "es_ok ((jn_entries j)[i := ?e']) \<and>
          jn_map ((jn_entries j)[i := ?e']) = (jn_map (jn_entries j))((op, cid) \<mapsto> ?e')"
        using p slot(6,8) entry_at_venue[OF ok] by simp
      then have "journal_ok j'"
        using journal_write[OF j slot(1,2), of ?e' j'] d entry_at_venue[OF ok] by simp
      then show ?thesis using q d False slot(7) by (auto simp: Let_def stored_def)
    qed
  qed
qed

lemma jn_write_effect:
  assumes j: "journal_ok j" and e': "\<And>e. je_used (g e) = je_used e \<and> je_key (g e) = je_key e"
    and len: "\<And>e. length (je_venue_order_id e) < 64 \<Longrightarrow> length (je_venue_order_id (g e)) < 64"
    and w: "\<And>i es1. jn_find_or_create op cid (jn_entries j) = (Some i, es1) \<Longrightarrow>
        jn_entries j' = es1[i := g (es1 ! i)] \<and> jn_file j' = jn_file j @ [line_of (g (es1 ! i))]"
    and n: "jn_find_or_create op cid (jn_entries j) = (None, jn_entries j) \<Longrightarrow> j' = j"
  shows "journal_ok j' \<and>
    (refused j op cid j' \<or> stored (jn_entries j) op cid (g (entry_at (jn_entries j) op cid)) (jn_entries j'))"
proof -
  have ok: "es_ok (jn_entries j)" using j by (simp add: journal_ok_def)
  from ok show ?thesis
  proof (cases rule: jn_find_or_create_cases[where op = op and cid = cid])
    case full
    with n j show ?thesis by (simp add: refused_def)
  next
    case (slot i es1)
    let ?e = "g (entry_at (jn_entries j) op cid)"
    have d: "jn_entries j' = (jn_entries j)[i := ?e]" "jn_file j' = jn_file j @ [line_of ?e]"
      using w[OF slot(1)] slot(4,5) by auto
    have e: "je_used ?e" "je_key ?e = (op, cid)" "length (je_venue_order_id ?e) < 64"
      using e' len[OF entry_at_venue[OF ok]] by simp_all
    have q: "es_ok ((jn_entries j)[i := ?e]) \<and>
        jn_map ((jn_entries j)[i := ?e]) = (jn_map (jn_entries j))((op, cid) \<mapsto> ?e)"
      by (rule es_put[OF ok slot(2) e]) (use slot(6,8) in auto)
    then have "journal_ok j'" using journal_write[OF j slot(1,2) e] d by simp
    with q d e(1) slot(7) show ?thesis by (auto simp: stored_def)
  qed
qed

lemma jn_ack_effect:
  assumes j: "journal_ok j"
  shows "journal_ok (jn_ack True op cid vid r j) \<and>
    (refused j op cid (jn_ack True op cid vid r j) \<or>
     stored (jn_entries j) op cid (acknowledged (entry_at (jn_entries j) op cid) vid r) (jn_entries (jn_ack True op cid vid r j)))"
  by (rule jn_write_effect[OF j])
     (auto simp: jn_ack_def acknowledged_def Let_def append_record_def je_key_def length_buf_copy)

lemma jn_fail_effect:
  assumes j: "journal_ok j"
  shows "journal_ok (jn_fail True op cid r j) \<and>
    (refused j op cid (jn_fail True op cid r j) \<or>
     stored (jn_entries j) op cid (failed_entry (entry_at (jn_entries j) op cid) r) (jn_entries (jn_fail True op cid r j)))"
  by (rule jn_write_effect[OF j])
     (auto simp: jn_fail_def failed_entry_def Let_def append_record_def je_key_def)

subsection \<open>Properties of any history\<close>

datatype journal_op = JBegin JournalOperation u64 u64 | JAck JournalOperation u64 string u64
  | JFail JournalOperation u64 u64 | JRecover

fun journal_step :: "journal_op \<Rightarrow> IdempotencyJournal \<Rightarrow> IdempotencyJournal" where
  "journal_step (JBegin op cid r) j = snd (jn_begin True op cid r j)"
| "journal_step (JAck op cid vid r) j = jn_ack True op cid vid r j"
| "journal_step (JFail op cid r) j = jn_fail True op cid r j"
| "journal_step JRecover j = recover j"

lemma journal_step_ok: "journal_ok j \<Longrightarrow> journal_ok (journal_step x j)"
  using jn_begin_effect[of j _ _ _ "fst (jn_begin True _ _ _ j)" "snd (jn_begin True _ _ _ j)"]
    jn_ack_effect[of j] jn_fail_effect[of j] recover_ok[of j]
  by (cases x) (auto simp: prod_eq_iff)

lemma journal_steps_ok: "journal_ok j \<Longrightarrow> journal_ok (fold journal_step xs j)"
  by (induction xs arbitrary: j) (auto intro: journal_step_ok)

lemma jn_lookup_map: "jn_lookup op cid j =
    (case jn_map (jn_entries j) (op, cid) of None \<Rightarrow> mk_JournalDecision | Some e \<Rightarrow> populate_decision e)"
  by (simp add: jn_lookup_def jn_map_find split: option.splits)


definition history_sample :: "journal_op list" where
  "history_sample = [JBegin SUBMIT 1 0, JAck SUBMIT 1 ''V9'' 0, JBegin CANCEL 1 0]"


lemma acked_step:
  assumes j: "journal_ok j" and a: "jn_map (jn_entries j) (op, cid) = Some e" "je_state e = ACKED"
    and x: "\<forall>r. x \<noteq> JFail op cid r"
  shows "\<exists>e'. jn_map (jn_entries (journal_step x j)) (op, cid) = Some e' \<and> je_state e' = ACKED"
proof (cases x)
  case (JBegin op' cid' r)
  obtain d j' where b: "jn_begin True op' cid' r j = (d, j')" by fastforce
  from jn_begin_effect[OF j b] show ?thesis
    using a JBegin b by (auto simp: Let_def entry_at_def stored_map refused_def split: if_splits)
next
  case (JAck op' cid' vid r)
  with jn_ack_effect[OF j, of op' cid' vid r] a show ?thesis by (auto simp: stored_map refused_def)
next
  case (JFail op' cid' r)
  with jn_fail_effect[OF j, of op' cid' r] a x show ?thesis by (auto simp: stored_map refused_def)
next
  case JRecover
  with recover_ok[OF j] a show ?thesis by (simp add: jn_map_dash)
qed

text \<open>
  An acknowledged operation is never sent again: once an operation is acknowledged, then after
  any further history without a failure recorded for it, restarts included, \<open>begin\<close> answers that it is
  already acknowledged and not to be sent.
\<close>

theorem acked_never_resent:
  assumes "journal_ok j" and "jn_map (jn_entries j) (op, cid) = Some e" and "je_state e = ACKED"
    and "\<forall>x \<in> set xs. \<forall>r. x \<noteq> JFail op cid r"
  shows "already_acked (fst (jn_begin True op cid r (fold journal_step xs j))) \<and>
    \<not> should_send_to_venue (fst (jn_begin True op cid r (fold journal_step xs j)))"
proof -
  have "\<exists>e'. journal_ok (fold journal_step xs j) \<and>
      jn_map (jn_entries (fold journal_step xs j)) (op, cid) = Some e' \<and> je_state e' = ACKED"
    using assms
  proof (induction xs arbitrary: j e)
    case (Cons x xs)
    then obtain e' where "jn_map (jn_entries (journal_step x j)) (op, cid) = Some e'" "je_state e' = ACKED"
      using acked_step[OF Cons.prems(1-3), of x] by auto
    from Cons.IH[OF journal_step_ok[OF Cons.prems(1)] this] Cons.prems(4) show ?case by simp
  qed auto
  then obtain e' where e': "journal_ok (fold journal_step xs j)"
    "jn_map (jn_entries (fold journal_step xs j)) (op, cid) = Some e'" "je_state e' = ACKED" by blast
  obtain d j' where b: "jn_begin True op cid r (fold journal_step xs j) = (d, j')" by fastforce
  have "jd_state d = ACKED"
    using jn_begin_effect[OF e'(1) b] e'(2,3) by (auto simp: Let_def entry_at_def populate_decision_def refused_def)
  then show ?thesis by (simp add: b already_acked_def should_send_to_venue_def)
qed

definition acked_entry :: JournalEntry where
  "acked_entry = mk_JournalEntry\<lparr>je_used := True, je_client_order_id := 1, je_attempt := 1, je_state := ACKED,
     je_venue_order_id := ''V9''\<rparr>"

text \<open>A journal as one run leaves it behind: order 1 was submitted and acknowledged.\<close>

definition journal_sample :: IdempotencyJournal where
  "journal_sample = jn_open [line_of acked_entry]"

lemma journal_sample_entries: "jn_entries journal_sample = acked_entry # replicate 255 mk_JournalEntry"
proof -
  have m: "replicate MAX_RECORDS mk_JournalEntry = mk_JournalEntry # replicate 255 mk_JournalEntry"
    by (simp add: MAX_RECORDS_def replicate_Suc[symmetric] numeral_eq_Suc)
  have u: "\<not> je_used mk_JournalEntry" by (simp add: mk_JournalEntry_def)
  have n: "find_slot (je_is SUBMIT 1) (mk_JournalEntry # replicate 255 mk_JournalEntry) = None"
    using u by (auto simp: find_slot_None je_is_def)
  have l: "line_of acked_entry = \<lparr>jl_version = 1, jl_op = SUBMIT, jl_client_order_id = 1,
      jl_related_client_order_id = 0, jl_attempt = 1, jl_state = ACKED, jl_venue_order_id = ''V9''\<rparr>"
    by (simp add: line_of_def acked_entry_def mk_JournalEntry_def)
  have a: "mk_JournalEntry\<lparr>je_used := True, je_op := SUBMIT, je_client_order_id := 1, je_state := ACKED,
      je_attempt := 1, je_related_client_order_id := 0, je_venue_order_id := ''V9''\<rparr> = acked_entry"
    by (simp add: acked_entry_def mk_JournalEntry_def)
  show ?thesis
    by (simp add: journal_sample_def jn_open_def recover_def recover_line_def l
        jn_find_or_create_def jn_find_def m n[simplified] u a)
qed

lemma journal_sample_ok: "journal_ok journal_sample"
proof -
  have l: "length (jn_entries journal_sample) = MAX_RECORDS" by (simp add: journal_sample_entries MAX_RECORDS_def)
  have "replay (jn_file journal_sample) = jn_entries journal_sample"
    by (simp add: journal_sample_def jn_open_def recover_def replay_def)
  moreover have "map dash (jn_entries journal_sample) = jn_entries journal_sample"
    by (simp add: journal_sample_entries dash_def acked_entry_def mk_JournalEntry_def)
  moreover have "unique_keys je_used je_key (jn_entries journal_sample)"
    by (auto simp: unique_keys_def journal_sample_entries acked_entry_def mk_JournalEntry_def nth_Cons split: nat.splits)
  ultimately show ?thesis using l
    by (auto simp: journal_ok_def es_ok_def journal_sample_entries acked_entry_def mk_JournalEntry_def)
qed

lemma journal_sample_acked: "jn_map (jn_entries journal_sample) (SUBMIT, 1) = Some acked_entry"
  by (simp add: jn_map_def key_map_def journal_sample_entries acked_entry_def mk_JournalEntry_def je_key_def)

theorem acked_never_resent_witness:
  "already_acked (fst (jn_begin True SUBMIT 1 0 (fold journal_step [JRecover, JBegin CANCEL 1 0] journal_sample)))"
  using acked_never_resent[OF journal_sample_ok journal_sample_acked, of "[JRecover, JBegin CANCEL 1 0]" 0]
  by (simp add: acked_entry_def del: fold_simps)

lemma full_step:
  assumes j: "journal_ok j" and full: "\<forall>e \<in> set (jn_entries j). je_used e" and n: "jn_map (jn_entries j) k = None"
  shows "(\<forall>e \<in> set (jn_entries (journal_step x j)). je_used e) \<and> jn_map (jn_entries (journal_step x j)) k = None"
proof -
  have st: "(\<forall>e \<in> set es'. je_used e) \<and> jn_map es' k = None" if s: "stored (jn_entries j) op cid e es'" for op cid e es'
  proof -
    have k: "(op, cid) \<noteq> k" and u: "je_used e" using s full n by (auto simp: stored_def)
    obtain i where i: "es' = (jn_entries j)[i := e]" using s unfolding stored_def by blast
    have "\<forall>x \<in> set es'. je_used x" using u full set_update_subset_insert[of "jn_entries j" i e] i by auto
    then show ?thesis using k n stored_map[OF s, of k] by simp
  qed
  have rf: "(\<forall>e \<in> set (jn_entries j'). je_used e) \<and> jn_map (jn_entries j') k = None" if "refused j op cid j'" for op cid j'
    using that full n by (simp add: refused_def)
  show ?thesis
  proof (cases x)
    case (JBegin op cid r)
    obtain d j' where b: "jn_begin True op cid r j = (d, j')" by fastforce
    from jn_begin_effect[OF j b] have "refused j op cid j' \<or> (\<exists>e. stored (jn_entries j) op cid e (jn_entries j'))"
      by (auto simp: Let_def)
    then show ?thesis using st rf JBegin b by auto
  next
    case (JAck op cid vid r)
    with jn_ack_effect[OF j, of op cid vid r] st rf show ?thesis by auto
  next
    case (JFail op cid r)
    with jn_fail_effect[OF j, of op cid r] st rf show ?thesis by auto
  next
    case JRecover
    with recover_ok[OF j] full n show ?thesis by (simp add: jn_map_dash)
  qed
qed

text \<open>
  A full journal never recovers: when all 256 entries are in use, an operation the journal does
  not know yet is answered with neither \<open>already_acked\<close> nor \<open>should_send_to_venue\<close>, and so it is after
  every further history, restarts included, because entries are never released.
\<close>

theorem full_journal_refuses_forever:
  assumes "journal_ok j" and "\<forall>e \<in> set (jn_entries j). je_used e" and "jn_map (jn_entries j) (op, cid) = None"
  shows "fst (jn_begin True op cid r (fold journal_step xs j)) = mk_JournalDecision \<and>
    \<not> should_send_to_venue mk_JournalDecision \<and> \<not> already_acked mk_JournalDecision"
proof -
  have "journal_ok (fold journal_step xs j) \<and> (\<forall>e \<in> set (jn_entries (fold journal_step xs j)). je_used e) \<and>
      jn_map (jn_entries (fold journal_step xs j)) (op, cid) = None"
    using assms
  proof (induction xs arbitrary: j)
    case (Cons x xs)
    from Cons.IH[OF journal_step_ok[OF Cons.prems(1), of x]] full_step[OF Cons.prems, of x] show ?case by simp
  qed simp
  note f = this
  obtain d j' where b: "jn_begin True op cid r (fold journal_step xs j) = (d, j')" by fastforce
  from jn_begin_effect[OF conjunct1[OF f] b] f have "d = mk_JournalDecision"
    by (auto simp: stored_def Let_def)
  then show ?thesis by (simp add: b mk_JournalDecision_def should_send_to_venue_def already_acked_def)
qed

text \<open>A journal after 256 submissions, the client ids 0 to 255.\<close>

definition begun_entry :: "nat \<Rightarrow> JournalEntry" where
  "begun_entry n = began (new_entry SUBMIT (of_nat n)) 0"

definition full_journal :: IdempotencyJournal where
  "full_journal = fold journal_step (map (\<lambda>n. JBegin SUBMIT (of_nat n) 0) [0..<256]) (jn_open [])"

lemma find_slot_prefix: "(\<forall>x \<in> set xs. \<not> P x) \<Longrightarrow> P y \<Longrightarrow> find_slot P (xs @ y # ys) = Some (length xs)"
  by (induction xs) auto

lemma of_nat_small: "m \<noteq> n \<Longrightarrow> m \<le> 256 \<Longrightarrow> n \<le> 256 \<Longrightarrow> (of_nat m :: u64) \<noteq> of_nat n"
  by (simp add: word_of_nat_eq_iff take_bit_nat_eq_self)

lemma begun_entries:
  "n \<le> 256 \<Longrightarrow> jn_entries (fold journal_step (map (\<lambda>n. JBegin SUBMIT (of_nat n) 0) [0..<n]) (jn_open [])) =
     map begun_entry [0..<n] @ replicate (256 - n) mk_JournalEntry"
proof (induction n)
  case 0
  show ?case by (simp add: jn_open_def recover_def MAX_RECORDS_def)
next
  case (Suc n)
  let ?j = "fold journal_step (map (\<lambda>n. JBegin SUBMIT (of_nat n) 0) [0..<n]) (jn_open [])"
  let ?es = "map begun_entry [0..<n] @ mk_JournalEntry # replicate (255 - n) mk_JournalEntry"
  have m: "256 - n = Suc (255 - n)" using Suc.prems by arith
  have es: "jn_entries ?j = ?es" using Suc unfolding m by simp
  have k: "\<not> je_is SUBMIT (word_of_nat n) (begun_entry m)" if "m < n" for m
    using that Suc.prems
    using of_nat_small[of m n] by (auto simp: je_is_def begun_entry_def began_def new_entry_def)
  have fr: "\<not> je_used mk_JournalEntry" by (simp add: mk_JournalEntry_def)
  have f: "jn_find SUBMIT (word_of_nat n) ?es = None"
    using k fr by (auto simp: jn_find_def find_slot_None je_is_def)
  have u: "find_slot (\<lambda>e. \<not> je_used e) ?es = Some n"
    using find_slot_prefix[of "map begun_entry [0..<n]" "\<lambda>e. \<not> je_used e" mk_JournalEntry] fr
    by (simp add: begun_entry_def new_entry_def began_def)
  have "jn_find_or_create SUBMIT (word_of_nat n) ?es =
      (Some n, map begun_entry [0..<n] @ new_entry SUBMIT (word_of_nat n) # replicate (255 - n) mk_JournalEntry)"
    using f u by (simp add: jn_find_or_create_def new_entry_def nth_append list_update_append)
  then have "jn_entries (snd (jn_begin True SUBMIT (word_of_nat n) 0 ?j)) =
      map begun_entry [0..<n] @ begun_entry n # replicate (255 - n) mk_JournalEntry"
    using es by (simp add: jn_begin_def Let_def nth_append list_update_append begun_entry_def began_def
        append_record_def new_entry_def mk_JournalEntry_def)
  then show ?case by simp
qed

theorem full_journal_refuses_forever_witness:
  "fst (jn_begin True SUBMIT 256 0 (fold journal_step [JFail SUBMIT 3 0, JRecover] full_journal)) = mk_JournalDecision"
proof -
  have e: "jn_entries full_journal = map begun_entry [0..<256]"
    using begun_entries[of 256] by (simp add: full_journal_def)
  have ok: "journal_ok full_journal"
    unfolding full_journal_def by (rule journal_steps_ok[OF jn_open_ok])
  have u: "\<forall>e \<in> set (jn_entries full_journal). je_used e" by (simp add: e begun_entry_def began_def new_entry_def)
  have "\<not> (je_used (begun_entry n) \<and> je_key (begun_entry n) = (SUBMIT, 256))" if "n < 256" for n
    using that of_nat_small[of n 256] by (auto simp: je_key_def begun_entry_def began_def new_entry_def)
  then have "jn_map (jn_entries full_journal) (SUBMIT, 256) = None"
    by (simp add: jn_map_def key_map_def e find_slot_None)
  from full_journal_refuses_forever[OF ok u this] show ?thesis by blast
qed

end
