(* ===== verification/Venue_Order_Map.thy ===== *)
theory Venue_Order_Map
  imports Trading_Types
begin

text \<open>
  \<^verbatim>\<open>core/execution/common/connectors/venue_order_map.hpp\<close>: 512 slots from client order ids to
  the venue's ids. \<open>get\<close> and \<open>find\<close> return a pointer to the entry, here the entry itself. A null
  string copies as the empty one. The locale \<open>bounded_map\<close> is what the connector relies on.
\<close>

record VenueOrderEntry =
  ve_client_order_id :: u64
  ve_venue_order_id :: string
  ve_exchange :: Exchange
  ve_symbol :: string
  ve_active :: bool

type_synonym VenueOrderMap = "VenueOrderEntry list"

definition MAX_ENTRIES :: nat where "MAX_ENTRIES = 512"

definition mk_VenueOrderEntry :: VenueOrderEntry where
  "mk_VenueOrderEntry = \<lparr>ve_client_order_id = 0, ve_venue_order_id = [], ve_exchange = BINANCE,
     ve_symbol = [], ve_active = False\<rparr>"

definition vm_init :: VenueOrderMap where "vm_init = replicate MAX_ENTRIES mk_VenueOrderEntry"

text \<open>The copy loop stops at the NUL or after \<open>N - 1\<close> characters.\<close>

fun copy_str :: "nat \<Rightarrow> string \<Rightarrow> string" where
  "copy_str 0 src = []"
| "copy_str (Suc 0) src = []"
| "copy_str (Suc (Suc n)) [] = []"
| "copy_str (Suc (Suc n)) (c # src) = c # copy_str (Suc n) src"

definition vm_find :: "u64 \<Rightarrow> VenueOrderMap \<Rightarrow> nat option" where
  "vm_find cid m = find_slot (\<lambda>e. ve_active e \<and> ve_client_order_id e = cid) m"

definition vm_get :: "u64 \<Rightarrow> VenueOrderMap \<Rightarrow> VenueOrderEntry option" where
  "vm_get cid m = map_option ((!) m) (vm_find cid m)"

definition vm_find_free_slot :: "VenueOrderMap \<Rightarrow> nat option" where
  "vm_find_free_slot m = find_slot (\<lambda>e. \<not> ve_active e) m"

definition upsert :: "u64 \<Rightarrow> string \<Rightarrow> Exchange \<Rightarrow> string \<Rightarrow> VenueOrderMap \<Rightarrow> bool \<times> VenueOrderMap" where
  "upsert cid venue_order_id exchange symbol m =
     (case (case vm_find cid m of Some i \<Rightarrow> Some i | None \<Rightarrow> vm_find_free_slot m) of
        None \<Rightarrow> (False, m)
      | Some i \<Rightarrow> (True, m[i := \<lparr>ve_client_order_id = cid, ve_venue_order_id = copy_str 48 venue_order_id,
          ve_exchange = exchange, ve_symbol = copy_str 16 symbol, ve_active = True\<rparr>]))"

definition erase :: "u64 \<Rightarrow> VenueOrderMap \<Rightarrow> bool \<times> VenueOrderMap" where
  "erase cid m =
     (case vm_find cid m of None \<Rightarrow> (False, m) | Some i \<Rightarrow> (True, m[i := mk_VenueOrderEntry]))"

definition vm_clear :: "VenueOrderMap \<Rightarrow> VenueOrderMap" where
  "vm_clear m = map (\<lambda>_. mk_VenueOrderEntry) m"

definition for_each_active :: "(VenueOrderEntry \<Rightarrow> 's \<Rightarrow> 's) \<Rightarrow> VenueOrderMap \<Rightarrow> 's \<Rightarrow> 's" where
  "for_each_active fn m s = fold (\<lambda>e s. if ve_active e then fn e s else s) m s"

lemma copy_str_take: "copy_str n s = take (n - 1) s"
  by (induction n s rule: copy_str.induct) auto

subsection \<open>The contract\<close>

locale bounded_map =
  fixes view :: "'s \<Rightarrow> 'k \<Rightarrow> 'e option" and put :: "'k \<Rightarrow> 'v \<Rightarrow> 's \<Rightarrow> bool \<times> 's"
    and remove :: "'k \<Rightarrow> 's \<Rightarrow> bool \<times> 's" and reset_all :: "'s \<Rightarrow> 's" and ok :: "'s \<Rightarrow> bool"
    and entry :: "'k \<Rightarrow> 'v \<Rightarrow> 'e" and cap :: "'s \<Rightarrow> nat"
  assumes put_ok: "ok s \<Longrightarrow> fst (put k v s) \<Longrightarrow> ok (snd (put k v s)) \<and>
      view (snd (put k v s)) = (view s)(k \<mapsto> entry k v) \<and> cap (snd (put k v s)) = cap s"
    and put_full: "ok s \<Longrightarrow> \<not> fst (put k v s) \<Longrightarrow>
      snd (put k v s) = s \<and> view s k = None \<and> card (dom (view s)) = cap s"
    and put_room: "ok s \<Longrightarrow> view s k \<noteq> None \<or> card (dom (view s)) < cap s \<Longrightarrow> fst (put k v s)"
    and remove_ok: "ok s \<Longrightarrow> ok (snd (remove k s)) \<and> view (snd (remove k s)) = (view s)(k := None) \<and>
      cap (snd (remove k s)) = cap s"
    and remove_hit: "ok s \<Longrightarrow> fst (remove k s) \<longleftrightarrow> view s k \<noteq> None"
    and reset_ok: "ok s \<Longrightarrow> ok (reset_all s) \<and> view (reset_all s) = Map.empty \<and> cap (reset_all s) = cap s"
begin

lemma put_after_remove: "ok s \<Longrightarrow> view s k \<noteq> None \<Longrightarrow> finite (dom (view s)) \<Longrightarrow>
    card (dom (view s)) \<le> cap s \<Longrightarrow> fst (put j v (snd (remove k s)))"
proof -
  assume a: "ok s" "view s k \<noteq> None" "finite (dom (view s))" "card (dom (view s)) \<le> cap s"
  have r: "ok (snd (remove k s))" "view (snd (remove k s)) = (view s)(k := None)" "cap (snd (remove k s)) = cap s"
    using remove_ok[OF a(1)] by auto
  have "card (dom ((view s)(k := None))) < card (dom (view s))"
    using a(2,3) by (intro psubset_card_mono) auto
  then show ?thesis using put_room[OF r(1), of j] r a(4) by simp
qed

lemma other_keys:
  "ok s \<Longrightarrow> j \<noteq> k \<Longrightarrow> view (snd (put k v s)) j = view s j"
  "ok s \<Longrightarrow> j \<noteq> k \<Longrightarrow> view (snd (remove k s)) j = view s j"
  using put_ok[of s k v] put_full[of s k v] remove_ok[of s k] by (cases "fst (put k v s)"; auto)+

end

subsection \<open>The slots keep the contract\<close>

definition vm_ok :: "VenueOrderMap \<Rightarrow> bool" where
  "vm_ok m \<longleftrightarrow> unique_keys ve_active ve_client_order_id m"

definition vm_view :: "VenueOrderMap \<Rightarrow> u64 \<Rightarrow> VenueOrderEntry option" where
  "vm_view m = key_map ve_active ve_client_order_id m"

definition vm_entry :: "u64 \<Rightarrow> string \<times> Exchange \<times> string \<Rightarrow> VenueOrderEntry" where
  "vm_entry cid v = (case v of (venue_order_id, exchange, symbol) \<Rightarrow>
     \<lparr>ve_client_order_id = cid, ve_venue_order_id = take 47 venue_order_id, ve_exchange = exchange,
      ve_symbol = take 15 symbol, ve_active = True\<rparr>)"

definition vm_put :: "u64 \<Rightarrow> string \<times> Exchange \<times> string \<Rightarrow> VenueOrderMap \<Rightarrow> bool \<times> VenueOrderMap" where
  "vm_put cid v m = (case v of (venue_order_id, exchange, symbol) \<Rightarrow> upsert cid venue_order_id exchange symbol m)"

lemma vm_get_view: "vm_get cid m = vm_view m cid"
  by (simp add: vm_get_def vm_view_def key_map_def vm_find_def)

lemma vm_dom: "vm_ok m \<Longrightarrow> dom (vm_view m) = ve_client_order_id ` {e \<in> set m. ve_active e}"
  by (auto simp: dom_def vm_view_def vm_ok_def key_map_Some in_set_conv_nth image_iff)

lemma vm_card: "vm_ok m \<Longrightarrow> card (dom (vm_view m)) = length (filter ve_active m)"
proof (induction m)
  case Nil
  then show ?case by (simp add: vm_dom)
next
  case (Cons e m)
  have ok: "vm_ok m"
    using Cons.prems unfolding vm_ok_def unique_keys_def
    by (auto dest: spec[of _ "Suc _"]) (metis Suc_less_eq diff_Suc_1 length_Cons nth_Cons_Suc old.nat.inject)
  have new: "ve_active e \<Longrightarrow> ve_client_order_id e \<notin> ve_client_order_id ` {x \<in> set m. ve_active x}"
  proof
    assume "ve_active e" "ve_client_order_id e \<in> ve_client_order_id ` {x \<in> set m. ve_active x}"
    then obtain j where "j < length m" "ve_active (m ! j)" "ve_client_order_id (m ! j) = ve_client_order_id e"
      by (auto simp: in_set_conv_nth)
    with unique_keysD[OF Cons.prems[unfolded vm_ok_def], of 0 "Suc j"] \<open>ve_active e\<close> show False by simp
  qed
  have "dom (vm_view (e # m)) = (if ve_active e then {ve_client_order_id e} else {}) \<union> dom (vm_view m)"
    using vm_dom[OF Cons.prems] vm_dom[OF ok] by auto
  then show ?case using Cons.IH[OF ok] new vm_dom[OF ok] by simp
qed

lemma upsert_cases:
  assumes ok: "vm_ok m"
  obtains (stored) i where "vm_put cid v m = (True, m[i := vm_entry cid v])" "i < length m"
      "ve_active (m ! i) \<Longrightarrow> ve_client_order_id (m ! i) = cid"
      "\<And>j. j < length m \<Longrightarrow> j \<noteq> i \<Longrightarrow> ve_active (m ! j) \<Longrightarrow> ve_client_order_id (m ! j) \<noteq> cid"
  | (full) "vm_put cid v m = (False, m)" "vm_view m cid = None" "\<forall>e \<in> set m. ve_active e"
proof (cases "vm_find cid m")
  case (Some i)
  note i = find_slot_SomeD[OF Some[unfolded vm_find_def]]
  show ?thesis
  proof (rule stored)
    show "vm_put cid v m = (True, m[i := vm_entry cid v])"
      using Some by (cases v) (simp add: vm_put_def upsert_def vm_entry_def copy_str_take)
    show "ve_client_order_id (m ! j) \<noteq> cid" if "j < length m" "j \<noteq> i" "ve_active (m ! j)" for j
      using unique_keysD[OF ok[unfolded vm_ok_def], of i j] i that by auto
  qed (use i in auto)
next
  case None
  note n = None
  show ?thesis
  proof (cases "vm_find_free_slot m")
    case (Some i)
    note i = find_slot_SomeD[OF Some[unfolded vm_find_free_slot_def]]
    show ?thesis
    proof (rule stored)
      show "vm_put cid v m = (True, m[i := vm_entry cid v])"
        using n Some by (cases v) (simp add: vm_put_def upsert_def vm_entry_def copy_str_take)
      show "ve_client_order_id (m ! j) \<noteq> cid" if "j < length m" "j \<noteq> i" "ve_active (m ! j)" for j
        using n that by (auto simp: vm_find_def find_slot_None)
    qed (use i in auto)
  next
    case None
    show ?thesis
    proof (rule full)
      show "vm_put cid v m = (False, m)" using n None by (cases v) (simp add: vm_put_def upsert_def)
      show "vm_view m cid = None" using n by (simp add: vm_view_def key_map_def vm_find_def)
      show "\<forall>e \<in> set m. ve_active e" using None by (simp add: vm_find_free_slot_def find_slot_None)
    qed
  qed
qed

lemma erase_ok:
  assumes ok: "vm_ok m"
  shows "vm_ok (snd (erase cid m)) \<and> vm_view (snd (erase cid m)) = (vm_view m)(cid := None) \<and>
    length (snd (erase cid m)) = length m \<and> (fst (erase cid m) \<longleftrightarrow> vm_view m cid \<noteq> None)"
proof (cases "vm_find cid m")
  case None
  then have "vm_view m cid = None" by (simp add: vm_view_def key_map_def vm_find_def)
  then show ?thesis using ok None by (auto simp: erase_def)
next
  case (Some i)
  note i = find_slot_SomeD[OF Some[unfolded vm_find_def]]
  have "key_map ve_active ve_client_order_id (m[i := mk_VenueOrderEntry]) =
      (key_map ve_active ve_client_order_id m)(cid := None)"
    using ok i by (intro key_map_drop) (auto simp: vm_ok_def mk_VenueOrderEntry_def)
  moreover have "unique_keys ve_active ve_client_order_id (m[i := mk_VenueOrderEntry])"
    using ok unfolding vm_ok_def by (intro unique_keys_update) (auto simp: mk_VenueOrderEntry_def)
  moreover have "vm_view m cid \<noteq> None" using Some by (simp add: vm_view_def key_map_def vm_find_def)
  ultimately show ?thesis using Some by (simp add: erase_def vm_view_def vm_ok_def)
qed

interpretation vm: bounded_map vm_view vm_put erase vm_clear vm_ok vm_entry length
proof
  fix m :: VenueOrderMap and k :: u64 and v
  assume ok: "vm_ok m"
  show "vm_ok (snd (vm_put k v m)) \<and> vm_view (snd (vm_put k v m)) = (vm_view m)(k \<mapsto> vm_entry k v) \<and>
      length (snd (vm_put k v m)) = length m" if "fst (vm_put k v m)"
  using ok
  proof (cases rule: upsert_cases[where cid = k and v = v and m = m])
    case (stored i)
    have e: "ve_active (vm_entry k v)" "ve_client_order_id (vm_entry k v) = k"
      by (cases v; simp add: vm_entry_def)+
    have "key_map ve_active ve_client_order_id (m[i := vm_entry k v]) =
        (key_map ve_active ve_client_order_id m)(k \<mapsto> vm_entry k v)"
      using ok stored e by (intro key_map_put) (auto simp: vm_ok_def)
    moreover have "unique_keys ve_active ve_client_order_id (m[i := vm_entry k v])"
      using ok stored e unfolding vm_ok_def by (intro unique_keys_update) auto
    ultimately show ?thesis using stored(1) by (simp add: vm_view_def vm_ok_def)
  qed (use that in simp)
  show "snd (vm_put k v m) = m \<and> vm_view m k = None \<and> card (dom (vm_view m)) = length m" if "\<not> fst (vm_put k v m)"
  using ok
  proof (cases rule: upsert_cases[where cid = k and v = v and m = m])
    case full
    then show ?thesis using vm_card[OF ok] by simp
  qed (use that in simp)
  show "fst (vm_put k v m)" if "vm_view m k \<noteq> None \<or> card (dom (vm_view m)) < length m"
  using ok
  proof (cases rule: upsert_cases[where cid = k and v = v and m = m])
    case full
    then show ?thesis using that vm_card[OF ok] by simp
  qed simp
  show "vm_ok (snd (erase k m)) \<and> vm_view (snd (erase k m)) = (vm_view m)(k := None) \<and>
      length (snd (erase k m)) = length m" "fst (erase k m) \<longleftrightarrow> vm_view m k \<noteq> None"
    using erase_ok[OF ok, of k] by simp_all
  have "vm_ok (vm_clear m)" by (auto simp: vm_ok_def vm_clear_def unique_keys_def mk_VenueOrderEntry_def)
  moreover have "vm_view (vm_clear m) = Map.empty"
    by (rule ext) (auto simp: vm_view_def key_map_None vm_clear_def mk_VenueOrderEntry_def)
  ultimately show "vm_ok (vm_clear m) \<and> vm_view (vm_clear m) = Map.empty \<and> length (vm_clear m) = length m"
    by (simp add: vm_clear_def)
qed

lemma venue_map_put:
  "vm_ok m \<Longrightarrow> upsert cid vid e sy m = (b, m') \<Longrightarrow> b \<Longrightarrow>
   vm_ok m' \<and> vm_get cid m' = Some (vm_entry cid (vid, e, sy))"
  using vm.put_ok[of m cid "(vid, e, sy)"] by (simp add: vm_get_view vm_put_def)

text \<open>
  C38. The venue order map is a finite map of bounded size: an upsert that succeeds binds the id to the
  venue id (its first 47 characters), exchange and symbol (first 15) and changes no other id; it
  fails, changing nothing, only when 512 other ids are live; an erase unbinds exactly its id and
  reports whether it was bound.
\<close>

theorem venue_order_map_refines_map:
  assumes "vm_ok m" and "upsert cid vid e sy m = (b, m')"
  shows "(b \<longrightarrow> vm_ok m' \<and> (\<forall>k. vm_get k m' = (if k = cid then Some (vm_entry cid (vid, e, sy)) else vm_get k m))) \<and>
    (\<not> b \<longrightarrow> m' = m \<and> vm_get cid m = None \<and> card {k. vm_get k m \<noteq> None} = length m) \<and>
    vm_ok (snd (erase cid m)) \<and>
    (\<forall>k. vm_get k (snd (erase cid m)) = (if k = cid then None else vm_get k m)) \<and>
    (fst (erase cid m) \<longleftrightarrow> vm_get cid m \<noteq> None)"
proof -
  have p: "vm_put cid (vid, e, sy) m = (b, m')" using assms(2) by (simp add: vm_put_def)
  have "{k. vm_get k m \<noteq> None} = dom (vm_view m)" by (auto simp: vm_get_view)
  then show ?thesis
    using vm.put_ok[OF assms(1), of cid "(vid, e, sy)"] vm.put_full[OF assms(1), of cid "(vid, e, sy)"]
      vm.remove_ok[OF assms(1), of cid] vm.remove_hit[OF assms(1), of cid] p
    by (auto simp: vm_get_view)
qed

lemma vm_init_ok: "vm_ok vm_init"
  by (simp add: vm_ok_def vm_init_def mk_VenueOrderEntry_def unique_keys_replicate)

theorem venue_order_map_refines_map_witness:
  "vm_get 7 (snd (upsert 7 ''V1'' OKX ''BTC'' vm_init)) = Some (vm_entry 7 (''V1'', OKX, ''BTC'')) \<and>
   vm_get 8 (snd (upsert 7 ''V1'' OKX ''BTC'' vm_init)) = None"
proof -
  have g: "vm_get k vm_init = None" for k
    by (simp add: vm_get_view vm_view_def key_map_None vm_init_def mk_VenueOrderEntry_def)
  obtain b m' where u: "upsert 7 ''V1'' OKX ''BTC'' vm_init = (b, m')" by fastforce
  have "card {k. vm_get k vm_init \<noteq> None} \<noteq> length vm_init"
    using g by (simp add: vm_init_def MAX_ENTRIES_def)
  then show ?thesis using venue_order_map_refines_map[OF vm_init_ok u] u g by auto
qed

end
