(* ===== verification/Live_Connector.thy ===== *)
theory Live_Connector
  imports Idempotency_Journal Venue_Order_Map
begin

text \<open>
  \<^verbatim>\<open>core/execution/common/connectors/live_connector_base.hpp\<close>: the base class of the venue
  connectors. An operation consults the idempotency journal, calls the venue with retries and
  records the outcome in the journal and in the venue order map. The venue's own calls are the
  pure virtual functions of the subclasses: a record of functions on a state of the venue.
  The sleep between two attempts changes no state. \<open>io\<close> and \<open>io'\<close> say whether the journal file can be
  appended to at the first and at the second record of the operation.
\<close>

record RetryPolicy =
  rp_max_attempts :: int
  rp_backoff_ms :: int

record LiveConnector =
  lc_exchange :: Exchange
  lc_api_key :: string
  lc_api_secret :: string
  lc_api_passphrase :: string
  lc_api_url :: string
  lc_retry_policy :: RetryPolicy
  lc_connected :: bool
  lc_venue_order_map :: VenueOrderMap
  lc_journal :: IdempotencyJournal

text \<open>
  The virtual functions: a result, what the out parameter holds afterwards (it is passed in, since
  a call may leave it alone) and the venue's state.
\<close>

record 'v Venue =
  vn_submit :: "Order \<Rightarrow> string \<Rightarrow> string \<Rightarrow> 'v \<Rightarrow> ConnectorResult \<times> string \<times> 'v"
  vn_cancel :: "VenueOrderEntry \<Rightarrow> 'v \<Rightarrow> ConnectorResult \<times> 'v"
  vn_replace :: "VenueOrderEntry \<Rightarrow> Order \<Rightarrow> string \<Rightarrow> 'v \<Rightarrow> ConnectorResult \<times> string \<times> 'v"
  vn_query :: "VenueOrderEntry \<Rightarrow> FillUpdate \<Rightarrow> 'v \<Rightarrow> ConnectorResult \<times> FillUpdate \<times> 'v"
  vn_cancel_all :: "string \<Rightarrow> 'v \<Rightarrow> ConnectorResult \<times> 'v"

definition mk_LiveConnector ::
  "Exchange \<Rightarrow> string \<Rightarrow> string \<Rightarrow> string \<Rightarrow> RetryPolicy \<Rightarrow> string \<Rightarrow> JournalLine list \<Rightarrow> LiveConnector" where
  "mk_LiveConnector exchange api_key api_secret api_url retry_policy api_passphrase journal_file =
     \<lparr>lc_exchange = exchange, lc_api_key = api_key, lc_api_secret = api_secret,
      lc_api_passphrase = api_passphrase, lc_api_url = api_url, lc_retry_policy = retry_policy,
      lc_connected = False, lc_venue_order_map = vm_init, lc_journal = jn_open journal_file\<rparr>"

definition journal_path :: "Exchange \<Rightarrow> string" where
  "journal_path exchange = ''/tmp/trt_idempotency_'' @ exchange_to_string exchange @ ''.log''"

definition connect :: "LiveConnector \<Rightarrow> ConnectorResult \<times> LiveConnector" where
  "connect c = (if lc_exchange c = OKX \<and> lc_api_passphrase c = [] then (AUTH_FAILED, c\<lparr>lc_connected := False\<rparr>)
     else (C_OK, c\<lparr>lc_connected := True\<rparr>))"

definition disconnect :: "LiveConnector \<Rightarrow> LiveConnector" where
  "disconnect c = c\<lparr>lc_connected := False\<rparr>"

subsection \<open>Retries\<close>

definition is_retryable :: "ConnectorResult \<Rightarrow> bool" where
  "is_retryable code \<longleftrightarrow> code = ERROR_RATE_LIMIT \<or> code = ERROR_REST_FAILURE \<or> code = ERROR_UNKNOWN"

definition classify_http_error :: "int \<Rightarrow> ConnectorResult" where
  "classify_http_error status =
     (if status = 401 \<or> status = 403 then AUTH_FAILED
      else if status = 429 then ERROR_RATE_LIMIT
      else if status \<ge> 500 then ERROR_REST_FAILURE
      else if status \<ge> 400 then ERROR_INVALID_ORDER
      else ERROR_UNKNOWN)"

function retry_from :: "int \<Rightarrow> ('s \<Rightarrow> ConnectorResult \<times> 's) \<Rightarrow> int \<Rightarrow> 's \<Rightarrow> ConnectorResult \<times> 's" where
  "retry_from max_attempts fn attempt s =
     (if attempt \<le> max_attempts then
        case fn s of (res, s) \<Rightarrow>
          if res = C_OK then (res, s)
          else if \<not> is_retryable res \<or> attempt = max_attempts then (res, s)
          else retry_from max_attempts fn (attempt + 1) s
      else (ERROR_UNKNOWN, s))"
  by pat_completeness auto
termination by (relation "measure (\<lambda>(m, _, a, _). nat (m + 1 - a))") auto

declare retry_from.simps [simp del]

definition with_retries :: "RetryPolicy \<Rightarrow> ('s \<Rightarrow> ConnectorResult \<times> 's) \<Rightarrow> 's \<Rightarrow> ConnectorResult \<times> 's" where
  "with_retries p fn s = retry_from (rp_max_attempts p) fn 1 s"

subsection \<open>The operations\<close>

text \<open>\<open>std::to_string\<close> of an unsigned integer.\<close>

function decimal :: "nat \<Rightarrow> string" where
  "decimal n = (if n < 10 then [char_of (48 + n)] else decimal (n div 10) @ [char_of (48 + n mod 10)])"
  by pat_completeness auto
termination by (relation "measure id") auto

declare decimal.simps [simp del]

definition make_idempotency_key :: "u64 \<Rightarrow> LiveConnector \<Rightarrow> string" where
  "make_idempotency_key cid c = ''TRT-'' @ decimal (unat cid) @ ''-'' @ exchange_to_string (lc_exchange c)"

definition has_venue_id :: "JournalDecision \<Rightarrow> bool" where
  "has_venue_id d \<longleftrightarrow> jd_venue_order_id d \<noteq> [] \<and> hd (jd_venue_order_id d) \<noteq> CHR ''-''"

definition submit_order :: "bool \<Rightarrow> bool \<Rightarrow> 'v Venue \<Rightarrow> Order \<Rightarrow> LiveConnector \<times> 'v
    \<Rightarrow> ConnectorResult \<times> LiveConnector \<times> 'v" where
  "submit_order io io' vn order = (\<lambda>(c, v).
     let (recovery, j) = jn_begin io SUBMIT (o_client_order_id order) 0 (lc_journal c);
         c = c\<lparr>lc_journal := j\<rparr>
     in if already_acked recovery then
          if has_venue_id recovery then
            let (stored, m) = upsert (o_client_order_id order) (jd_venue_order_id recovery) (lc_exchange c)
                  (o_symbol order) (lc_venue_order_map c)
            in ((if stored then C_OK else ERROR_UNKNOWN), c\<lparr>lc_venue_order_map := m\<rparr>, v)
          else (C_OK, c, v)
        else if \<not> should_send_to_venue recovery then (ERROR_UNKNOWN, c, v)
        else
          let idempotency_key = make_idempotency_key (o_client_order_id order) c;
              (result, venue_order_id, v) = with_retries (lc_retry_policy c)
                (\<lambda>(venue_order_id, v). vn_submit vn order idempotency_key venue_order_id v) ([], v)
          in if result = C_OK then
               let c = c\<lparr>lc_journal := jn_ack io' SUBMIT (o_client_order_id order) venue_order_id 0 (lc_journal c)\<rparr>;
                   (stored, m) = upsert (o_client_order_id order) venue_order_id (lc_exchange c)
                     (o_symbol order) (lc_venue_order_map c)
               in ((if stored then result else ERROR_UNKNOWN), c\<lparr>lc_venue_order_map := m\<rparr>, v)
             else (result, c\<lparr>lc_journal := jn_fail io' SUBMIT (o_client_order_id order) 0 (lc_journal c)\<rparr>, v))"

definition cancel_order :: "bool \<Rightarrow> bool \<Rightarrow> 'v Venue \<Rightarrow> u64 \<Rightarrow> LiveConnector \<times> 'v
    \<Rightarrow> ConnectorResult \<times> LiveConnector \<times> 'v" where
  "cancel_order io io' vn cid = (\<lambda>(c, v).
     let replace_state = jn_lookup REPLACE cid (lc_journal c)
     in if jd_state replace_state = IN_FLIGHT \<or> jd_state replace_state = ACKED then (ERROR_INVALID_ORDER, c, v)
        else
          let (decision, j) = jn_begin io CANCEL cid 0 (lc_journal c);
              c = c\<lparr>lc_journal := j\<rparr>
          in if already_acked decision then (C_OK, c, v)
             else if \<not> should_send_to_venue decision then (ERROR_UNKNOWN, c, v)
             else
               (case vm_get cid (lc_venue_order_map c) of
                  None \<Rightarrow> (ERROR_INVALID_ORDER, c\<lparr>lc_journal := jn_fail io' CANCEL cid 0 (lc_journal c)\<rparr>, v)
                | Some mapped \<Rightarrow>
                    let (result, v) = with_retries (lc_retry_policy c) (vn_cancel vn mapped) v
                    in if result = C_OK then
                         (result, c\<lparr>lc_journal := jn_ack io' CANCEL cid (ve_venue_order_id mapped) 0 (lc_journal c),
                                    lc_venue_order_map := snd (erase cid (lc_venue_order_map c))\<rparr>, v)
                       else (result, c\<lparr>lc_journal := jn_fail io' CANCEL cid 0 (lc_journal c)\<rparr>, v)))"

definition replace_order :: "bool \<Rightarrow> bool \<Rightarrow> 'v Venue \<Rightarrow> u64 \<Rightarrow> Order \<Rightarrow> LiveConnector \<times> 'v
    \<Rightarrow> ConnectorResult \<times> LiveConnector \<times> 'v" where
  "replace_order io io' vn cid replacement = (\<lambda>(c, v).
     let cancel_state = jn_lookup CANCEL cid (lc_journal c)
     in if jd_state cancel_state = IN_FLIGHT \<or> jd_state cancel_state = ACKED then (ERROR_INVALID_ORDER, c, v)
        else
          (case vm_get cid (lc_venue_order_map c) of
             None \<Rightarrow> (ERROR_INVALID_ORDER, c, v)
           | Some mapped \<Rightarrow>
               let (decision, j) = jn_begin io REPLACE cid (o_client_order_id replacement) (lc_journal c);
                   c = c\<lparr>lc_journal := j\<rparr>
               in if already_acked decision then
                    if has_venue_id decision then
                      let (stored, m) = upsert (o_client_order_id replacement) (jd_venue_order_id decision)
                            (lc_exchange c) (o_symbol replacement) (snd (erase cid (lc_venue_order_map c)))
                      in ((if stored then C_OK else ERROR_UNKNOWN), c\<lparr>lc_venue_order_map := m\<rparr>, v)
                    else (C_OK, c, v)
                  else if \<not> should_send_to_venue decision then (ERROR_UNKNOWN, c, v)
                  else
                    let (result, new_venue_order_id, v) = with_retries (lc_retry_policy c)
                          (\<lambda>(new_id, v). vn_replace vn mapped replacement new_id v) ([], v)
                    in if result \<noteq> C_OK then
                         (result, c\<lparr>lc_journal := jn_fail io' REPLACE cid (o_client_order_id replacement)
                                      (lc_journal c)\<rparr>, v)
                       else
                         let c = c\<lparr>lc_journal := jn_ack io' REPLACE cid new_venue_order_id
                                      (o_client_order_id replacement) (lc_journal c)\<rparr>;
                             (stored, m) = upsert (o_client_order_id replacement) new_venue_order_id
                               (lc_exchange c) (o_symbol replacement) (snd (erase cid (lc_venue_order_map c)))
                         in ((if stored then C_OK else ERROR_UNKNOWN), c\<lparr>lc_venue_order_map := m\<rparr>, v)))"

definition query_order :: "'v Venue \<Rightarrow> u64 \<Rightarrow> LiveConnector \<Rightarrow> FillUpdate \<times> 'v
    \<Rightarrow> ConnectorResult \<times> FillUpdate \<times> 'v" where
  "query_order vn cid c = (\<lambda>(status, v).
     (case vm_get cid (lc_venue_order_map c) of
        None \<Rightarrow> (ERROR_INVALID_ORDER, status, v)
      | Some mapped \<Rightarrow>
          with_retries (lc_retry_policy c) (\<lambda>(status, v). vn_query vn mapped status v) (status, v)))"

definition cancel_all :: "'v Venue \<Rightarrow> string \<Rightarrow> LiveConnector \<times> 'v \<Rightarrow> ConnectorResult \<times> LiveConnector \<times> 'v" where
  "cancel_all vn symbol = (\<lambda>(c, v). case vn_cancel_all vn symbol v of (res, v) \<Rightarrow> (res, c, v))"

definition reconcile :: "LiveConnector \<Rightarrow> ConnectorResult \<times> LiveConnector" where
  "reconcile c = (C_OK, c\<lparr>lc_journal := recover (lc_journal c),
     lc_venue_order_map := vm_clear (lc_venue_order_map c)\<rparr>)"

definition in_flight_recovery_count :: "LiveConnector \<Rightarrow> u32" where
  "in_flight_recovery_count c = in_flight_count (lc_journal c)"

definition duplicate_ack_recovery_count :: "LiveConnector \<Rightarrow> u64" where
  "duplicate_ack_recovery_count c = jn_duplicate_ack_count (lc_journal c)"

subsection \<open>What the connector relies on in the journal\<close>

text \<open>
  The state the journal holds for an operation, and the contract of the guarded attempt: \<open>begin\<close>
  says whether to send, and the outcome of an attempt that was sent is always recorded.
\<close>

definition jstate :: "IdempotencyJournal \<Rightarrow> JournalOperation \<times> u64 \<Rightarrow> JournalState" where
  "jstate j k = (case jn_map (jn_entries j) k of None \<Rightarrow> NONE | Some e \<Rightarrow> je_state e)"

locale op_journal =
  fixes ok :: "'j \<Rightarrow> bool" and st :: "'j \<Rightarrow> 'k \<Rightarrow> JournalState"
    and begin_op :: "'k \<Rightarrow> u64 \<Rightarrow> 'j \<Rightarrow> JournalDecision \<times> 'j"
    and ack_op :: "'k \<Rightarrow> string \<Rightarrow> u64 \<Rightarrow> 'j \<Rightarrow> 'j" and fail_op :: "'k \<Rightarrow> u64 \<Rightarrow> 'j \<Rightarrow> 'j" and reopen :: "'j \<Rightarrow> 'j"
  assumes begin_law: "ok j \<Longrightarrow> begin_op k r j = (d, j') \<Longrightarrow> ok j' \<and>
      (jd_state d = ACKED \<and> st j k = ACKED \<and> st j' = st j \<or>
       jd_state d = IN_FLIGHT \<and> st j k \<noteq> ACKED \<and> st j' = (st j)(k := IN_FLIGHT) \<or>
       jd_state d = NONE \<and> st j k = NONE \<and> st j' = st j)"
    and ack_law: "ok j \<Longrightarrow> st j k \<noteq> NONE \<Longrightarrow> ok (ack_op k w r j) \<and> st (ack_op k w r j) = (st j)(k := ACKED)"
    and fail_law: "ok j \<Longrightarrow> st j k \<noteq> NONE \<Longrightarrow> ok (fail_op k r j) \<and> st (fail_op k r j) = (st j)(k := FAILED)"
    and reopen_law: "ok j \<Longrightarrow> ok (reopen j) \<and> st (reopen j) = st j"
begin

lemma guarded_ack:
  assumes "ok j" "begin_op k r j = (d, j')" "jd_state d = IN_FLIGHT"
  shows "ok (ack_op k w r' j') \<and> st (ack_op k w r' j') = (st j)(k := ACKED)"
  using begin_law[OF assms(1,2)] ack_law[of j' k] assms(3) by auto

lemma guarded_fail:
  assumes "ok j" "begin_op k r j = (d, j')" "jd_state d = IN_FLIGHT"
  shows "ok (fail_op k r' j') \<and> st (fail_op k r' j') = (st j)(k := FAILED)"
  using begin_law[OF assms(1,2)] fail_law[of j' k] assms(3) by auto

lemma not_sent:
  assumes "ok j" "begin_op k r j = (d, j')" "jd_state d \<noteq> IN_FLIGHT"
  shows "ok j' \<and> st j' = st j"
  using begin_law[OF assms(1,2)] assms(3) by auto

lemma acked_not_sent:
  assumes "ok j" "begin_op k r j = (d, j')" "st j k = ACKED"
  shows "jd_state d = ACKED"
  using begin_law[OF assms(1,2)] assms(3) by auto

end

definition begin_at :: "JournalOperation \<times> u64 \<Rightarrow> u64 \<Rightarrow> IdempotencyJournal \<Rightarrow> JournalDecision \<times> IdempotencyJournal" where
  "begin_at k r j = jn_begin True (fst k) (snd k) r j"

definition ack_at :: "JournalOperation \<times> u64 \<Rightarrow> string \<Rightarrow> u64 \<Rightarrow> IdempotencyJournal \<Rightarrow> IdempotencyJournal" where
  "ack_at k w r j = jn_ack True (fst k) (snd k) w r j"

definition fail_at :: "JournalOperation \<times> u64 \<Rightarrow> u64 \<Rightarrow> IdempotencyJournal \<Rightarrow> IdempotencyJournal" where
  "fail_at k r j = jn_fail True (fst k) (snd k) r j"

lemma jstate_stored: "stored (jn_entries j) op cid e (jn_entries j') \<Longrightarrow> jstate j' = (jstate j)((op, cid) := je_state e)"
  by (rule ext) (simp add: jstate_def stored_map)

lemma jstate_refused: "refused j op cid j' \<Longrightarrow> j' = j \<and> jstate j (op, cid) = NONE"
  by (simp add: refused_def jstate_def)

lemma entry_at_state: "je_state (entry_at (jn_entries j) op cid) = jstate j (op, cid)"
  by (simp add: entry_at_def jstate_def new_entry_def mk_JournalEntry_def split: option.splits)

lemma jstate_recover: "journal_ok j \<Longrightarrow> journal_ok (recover j) \<and> jstate (recover j) = jstate j"
  using recover_ok[of j] by (auto simp: jstate_def jn_map_dash fun_eq_iff split: option.splits)

interpretation ij: op_journal journal_ok jstate begin_at ack_at fail_at recover
proof
  fix j j' :: IdempotencyJournal and k :: "JournalOperation \<times> u64" and r :: u64 and d w
  assume j: "journal_ok j"
  obtain op cid where k: "k = (op, cid)" by (cases k)
  show "journal_ok j' \<and>
      (jd_state d = ACKED \<and> jstate j k = ACKED \<and> jstate j' = jstate j \<or>
       jd_state d = IN_FLIGHT \<and> jstate j k \<noteq> ACKED \<and> jstate j' = (jstate j)(k := IN_FLIGHT) \<or>
       jd_state d = NONE \<and> jstate j k = NONE \<and> jstate j' = jstate j)" if b: "begin_at k r j = (d, j')"
  proof -
    let ?e = "entry_at (jn_entries j) op cid"
    consider (no) "refused j op cid j'" "d = mk_JournalDecision"
      | (held) "je_state ?e = ACKED \<or> je_state ?e = IN_FLIGHT" "d = populate_decision ?e"
          "stored (jn_entries j) op cid ?e (jn_entries j')"
      | (new) "\<not> (je_state ?e = ACKED \<or> je_state ?e = IN_FLIGHT)" "d = populate_decision (began ?e r)"
          "stored (jn_entries j) op cid (began ?e r) (jn_entries j')"
      using jn_begin_effect[OF j, of op cid r d j'] b k by (auto simp: begin_at_def Let_def split: if_splits)
    moreover have "journal_ok j'" using jn_begin_effect[OF j, of op cid r d j'] b k by (simp add: begin_at_def)
    ultimately show ?thesis
    proof cases
      case no
      then show ?thesis using jstate_refused[OF no(1)] k \<open>journal_ok j'\<close> by (simp add: mk_JournalDecision_def)
    next
      case held
      then show ?thesis using jstate_stored[OF held(3)] k \<open>journal_ok j'\<close>
        by (auto simp: populate_decision_def entry_at_state fun_upd_idem_iff)
    next
      case new
      then show ?thesis using jstate_stored[OF new(3)] k \<open>journal_ok j'\<close>
        by (auto simp: populate_decision_def entry_at_state)
    qed
  qed
  show "journal_ok (ack_at k w r j) \<and> jstate (ack_at k w r j) = (jstate j)(k := ACKED)" if "jstate j k \<noteq> NONE"
    using jn_ack_effect[OF j, of op cid w r] that k jstate_stored jstate_refused
    by (fastforce simp: ack_at_def)
  show "journal_ok (fail_at k r j) \<and> jstate (fail_at k r j) = (jstate j)(k := FAILED)" if "jstate j k \<noteq> NONE"
    using jn_fail_effect[OF j, of op cid r] that k jstate_stored jstate_refused
    by (fastforce simp: fail_at_def)
  show "journal_ok (recover j) \<and> jstate (recover j) = jstate j" by (rule jstate_recover[OF j])
qed

lemmas begin_cases = ij.begin_law[unfolded begin_at_def, where k = "(op, cid)" for op cid, simplified]
lemmas guarded_ack = ij.guarded_ack[unfolded begin_at_def ack_at_def, where k = "(op, cid)" for op cid, simplified]
lemmas guarded_fail = ij.guarded_fail[unfolded begin_at_def fail_at_def, where k = "(op, cid)" for op cid, simplified]
lemmas not_sent = ij.not_sent[unfolded begin_at_def, where k = "(op, cid)" for op cid, simplified]
lemmas acked_not_sent = ij.acked_not_sent[unfolded begin_at_def, where k = "(op, cid)" for op cid, simplified]

lemma jn_lookup_state: "jd_state (jn_lookup op cid j) = jstate j (op, cid)"
  by (simp add: jn_lookup_map jstate_def populate_decision_def mk_JournalDecision_def split: option.splits)

lemma submit_journal:
  assumes j: "journal_ok (lc_journal c)" and s: "submit_order True True vn o1 (c, v) = (res, c', v')"
  shows "journal_ok (lc_journal c') \<and>
    (jstate (lc_journal c') = jstate (lc_journal c) \<and> v' = v \<or>
     jstate (lc_journal c) (SUBMIT, o_client_order_id o1) \<noteq> ACKED \<and>
     (\<exists>q \<in> {ACKED, FAILED}. jstate (lc_journal c') = (jstate (lc_journal c))((SUBMIT, o_client_order_id o1) := q)))"
proof -
  obtain d j' where b: "jn_begin True SUBMIT (o_client_order_id o1) 0 (lc_journal c) = (d, j')" by fastforce
  show ?thesis
  proof (cases "jd_state d = IN_FLIGHT")
    case True
    note a = guarded_ack[OF j b True] guarded_fail[OF j b True]
    have "jstate (lc_journal c) (SUBMIT, o_client_order_id o1) \<noteq> ACKED"
      using acked_not_sent[OF j b] True by auto
    then show ?thesis using s b True a
      by (auto simp: submit_order_def Let_def already_acked_def should_send_to_venue_def split: prod.splits if_splits)
  next
    case False
    with not_sent[OF j b False] s b show ?thesis
      by (auto simp: submit_order_def Let_def already_acked_def should_send_to_venue_def split: prod.splits if_splits)
  qed
qed

lemma cancel_journal:
  assumes j: "journal_ok (lc_journal c)" and s: "cancel_order True True vn cid (c, v) = (res, c', v')"
  shows "journal_ok (lc_journal c') \<and>
    (jstate (lc_journal c') = jstate (lc_journal c) \<and> v' = v \<or>
     jstate (lc_journal c) (REPLACE, cid) \<notin> {IN_FLIGHT, ACKED} \<and> jstate (lc_journal c) (CANCEL, cid) \<noteq> ACKED \<and>
     (\<exists>q \<in> {ACKED, FAILED}. jstate (lc_journal c') = (jstate (lc_journal c))((CANCEL, cid) := q)))"
proof (cases "jstate (lc_journal c) (REPLACE, cid) \<in> {IN_FLIGHT, ACKED}")
  case True
  with s j show ?thesis by (auto simp: cancel_order_def Let_def jn_lookup_state)
next
  case ok: False
  obtain d j' where b: "jn_begin True CANCEL cid 0 (lc_journal c) = (d, j')" by fastforce
  show ?thesis
  proof (cases "jd_state d = IN_FLIGHT")
    case True
    note a = guarded_ack[OF j b True] guarded_fail[OF j b True]
    have "jstate (lc_journal c) (CANCEL, cid) \<noteq> ACKED"
      using acked_not_sent[OF j b] True by auto
    then show ?thesis using s b True a ok
      by (auto simp: cancel_order_def Let_def already_acked_def should_send_to_venue_def jn_lookup_state
          split: prod.splits if_splits option.splits)
  next
    case False
    with not_sent[OF j b False] s b ok show ?thesis
      by (auto simp: cancel_order_def Let_def already_acked_def should_send_to_venue_def jn_lookup_state
          split: prod.splits if_splits option.splits)
  qed
qed

lemma replace_journal:
  assumes j: "journal_ok (lc_journal c)" and s: "replace_order True True vn cid rep (c, v) = (res, c', v')"
  shows "journal_ok (lc_journal c') \<and>
    (jstate (lc_journal c') = jstate (lc_journal c) \<and> v' = v \<or>
     jstate (lc_journal c) (CANCEL, cid) \<notin> {IN_FLIGHT, ACKED} \<and> jstate (lc_journal c) (REPLACE, cid) \<noteq> ACKED \<and>
     (\<exists>q \<in> {ACKED, FAILED}. jstate (lc_journal c') = (jstate (lc_journal c))((REPLACE, cid) := q)))"
proof (cases "jstate (lc_journal c) (CANCEL, cid) \<in> {IN_FLIGHT, ACKED} \<or> vm_get cid (lc_venue_order_map c) = None")
  case True
  with s j show ?thesis by (auto simp: replace_order_def Let_def jn_lookup_state split: if_splits)
next
  case ok: False
  then obtain mapped where m: "vm_get cid (lc_venue_order_map c) = Some mapped" by auto
  obtain d j' where b: "jn_begin True REPLACE cid (o_client_order_id rep) (lc_journal c) = (d, j')" by fastforce
  show ?thesis
  proof (cases "jd_state d = IN_FLIGHT")
    case True
    note a = guarded_ack[OF j b True] guarded_fail[OF j b True]
    have "jstate (lc_journal c) (REPLACE, cid) \<noteq> ACKED"
      using acked_not_sent[OF j b] True by auto
    then show ?thesis using s b True a ok m
      by (auto simp: replace_order_def Let_def already_acked_def should_send_to_venue_def jn_lookup_state
          split: prod.splits if_splits)
  next
    case False
    with not_sent[OF j b False] s b ok m show ?thesis
      by (auto simp: replace_order_def Let_def already_acked_def should_send_to_venue_def jn_lookup_state
          split: prod.splits if_splits)
  qed
qed

subsection \<open>Histories of a connector\<close>

text \<open>
  A restart builds a new connector on the journal file the old one left; a crash inside an
  operation leaves the first record only, here for a submission.
\<close>

datatype conn_op = CSubmit Order | CCancel u64 | CReplace u64 Order | CCancelAll string | CReconcile | CRestart

definition restart :: "LiveConnector \<Rightarrow> LiveConnector" where
  "restart c = mk_LiveConnector (lc_exchange c) (lc_api_key c) (lc_api_secret c) (lc_api_url c)
     (lc_retry_policy c) (lc_api_passphrase c) (jn_file (lc_journal c))"

fun conn_step :: "'v Venue \<Rightarrow> conn_op \<Rightarrow> LiveConnector \<times> 'v \<Rightarrow> LiveConnector \<times> 'v" where
  "conn_step vn (CSubmit o1) s = snd (submit_order True True vn o1 s)"
| "conn_step vn (CCancel cid) s = snd (cancel_order True True vn cid s)"
| "conn_step vn (CReplace cid o1) s = snd (replace_order True True vn cid o1 s)"
| "conn_step vn (CCancelAll sy) s = snd (cancel_all vn sy s)"
| "conn_step vn CReconcile s = (snd (reconcile (fst s)), snd s)"
| "conn_step vn CRestart s = (restart (fst s), snd s)"

lemma restart_journal: "lc_journal (restart c) = recover (lc_journal c)"
  by (simp add: restart_def mk_LiveConnector_def jn_open_def recover_def)

definition exclusive :: "IdempotencyJournal \<Rightarrow> bool" where
  "exclusive j \<longleftrightarrow> (\<forall>cid. \<not> (jstate j (CANCEL, cid) \<in> {IN_FLIGHT, ACKED} \<and> jstate j (REPLACE, cid) \<in> {IN_FLIGHT, ACKED}))"

text \<open>What one operation may do to the journal.\<close>

lemma conn_step_journal:
  assumes j: "journal_ok (lc_journal (fst s))"
  shows "journal_ok (lc_journal (fst (conn_step vn x s))) \<and>
    (jstate (lc_journal (fst (conn_step vn x s))) = jstate (lc_journal (fst s)) \<or>
     (\<exists>op cid. \<exists>q \<in> {ACKED, FAILED}. jstate (lc_journal (fst s)) (op, cid) \<noteq> ACKED \<and>
        (op = CANCEL \<longrightarrow> jstate (lc_journal (fst s)) (REPLACE, cid) \<notin> {IN_FLIGHT, ACKED}) \<and>
        (op = REPLACE \<longrightarrow> jstate (lc_journal (fst s)) (CANCEL, cid) \<notin> {IN_FLIGHT, ACKED}) \<and>
        jstate (lc_journal (fst (conn_step vn x s))) = (jstate (lc_journal (fst s)))((op, cid) := q)))"
proof -
  obtain c v where s: "s = (c, v)" by (cases s)
  show ?thesis
  proof (cases x)
    case (CSubmit o1)
    obtain res c' v' where r: "submit_order True True vn o1 (c, v) = (res, c', v')" by (cases "submit_order True True vn o1 (c, v)") auto
    from submit_journal[OF _ r] j show ?thesis by (auto simp: s r CSubmit)
  next
    case (CCancel cid)
    obtain res c' v' where r: "cancel_order True True vn cid (c, v) = (res, c', v')" by (cases "cancel_order True True vn cid (c, v)") auto
    from cancel_journal[OF _ r] j show ?thesis by (fastforce simp: s r CCancel)
  next
    case (CReplace cid o1)
    obtain res c' v' where r: "replace_order True True vn cid o1 (c, v) = (res, c', v')" by (cases "replace_order True True vn cid o1 (c, v)") auto
    from replace_journal[OF _ r] j show ?thesis by (fastforce simp: s r CReplace)
  qed (use j jstate_recover[of "lc_journal c"] in
        \<open>simp_all add: s cancel_all_def reconcile_def restart_journal split: prod.splits\<close>)
qed

lemma conn_steps_acked:
  assumes "journal_ok (lc_journal (fst s))" and "jstate (lc_journal (fst s)) k = ACKED"
  shows "journal_ok (lc_journal (fst (fold (conn_step vn) xs s))) \<and>
    jstate (lc_journal (fst (fold (conn_step vn) xs s))) k = ACKED"
  using assms
proof (induction xs arbitrary: s)
  case (Cons x xs)
  from conn_step_journal[OF Cons.prems(1), of vn x] Cons.prems(2)
  have "journal_ok (lc_journal (fst (conn_step vn x s))) \<and> jstate (lc_journal (fst (conn_step vn x s))) k = ACKED"
    by auto
  with Cons.IH show ?case by simp
qed simp

lemma conn_steps_exclusive:
  assumes "journal_ok (lc_journal (fst s))" and "exclusive (lc_journal (fst s))"
  shows "exclusive (lc_journal (fst (fold (conn_step vn) xs s)))"
  using assms
proof (induction xs arbitrary: s)
  case (Cons x xs)
  let ?j = "lc_journal (fst s)" and ?j' = "lc_journal (fst (conn_step vn x s))"
  note st = conn_step_journal[OF Cons.prems(1), of vn x]
  have "exclusive ?j'"
  proof (cases "jstate ?j' = jstate ?j")
    case True
    with Cons.prems(2) show ?thesis by (simp add: exclusive_def)
  next
    case False
    with st obtain op cid q where u: "jstate ?j' = (jstate ?j)((op, cid) := q)"
      "op = CANCEL \<Longrightarrow> jstate ?j (REPLACE, cid) \<notin> {IN_FLIGHT, ACKED}"
      "op = REPLACE \<Longrightarrow> jstate ?j (CANCEL, cid) \<notin> {IN_FLIGHT, ACKED}" by blast
    show ?thesis unfolding exclusive_def
    proof
      fix cid'
      show "\<not> (jstate ?j' (CANCEL, cid') \<in> {IN_FLIGHT, ACKED} \<and> jstate ?j' (REPLACE, cid') \<in> {IN_FLIGHT, ACKED})"
        using u Cons.prems(2)[unfolded exclusive_def, rule_format, of cid'] by (cases op) (simp_all split: if_splits)
    qed
  qed
  with Cons.IH st show ?case by simp
qed simp

lemma jstate_empty: "jstate (jn_open []) k = NONE"
proof -
  have "jn_map (jn_entries (jn_open [])) k = None"
    by (simp add: jn_open_def recover_def jn_map_def key_map_None mk_JournalEntry_def)
  then show ?thesis by (simp add: jstate_def)
qed

lemma jn_begin_acked:
  assumes j: "journal_ok j" and s: "jstate j (op, cid) = ACKED" and b: "jn_begin True op cid r j = (d, j')"
  shows "already_acked d \<and> \<not> should_send_to_venue d"
  using acked_not_sent[OF j b s] by (simp add: already_acked_def should_send_to_venue_def)

lemma acked_submission_effect:
  assumes "journal_ok (lc_journal c)" and "jstate (lc_journal c) (SUBMIT, o_client_order_id o1) = ACKED"
    and "fold (conn_step vn) xs (c, v) = (c1, v1)" and "submit_order True True vn o1 (c1, v1) = (res, c2, v2)"
  shows "v2 = v1 \<and> (res = C_OK \<or> res = ERROR_UNKNOWN \<and> vm_find_free_slot (lc_venue_order_map c1) = None)"
proof -
  have a: "journal_ok (lc_journal c1)" "jstate (lc_journal c1) (SUBMIT, o_client_order_id o1) = ACKED"
    using conn_steps_acked[of "(c, v)" _ vn xs] assms(1-3) by auto
  obtain d j' where b: "jn_begin True SUBMIT (o_client_order_id o1) 0 (lc_journal c1) = (d, j')" by fastforce
  from jn_begin_acked[OF a b] assms(4) b show ?thesis
    by (auto simp: submit_order_def Let_def upsert_def split: prod.splits if_splits option.splits)
qed



text \<open>The state after \<open>n\<close> calls.\<close>

definition after_calls :: "('s \<Rightarrow> ConnectorResult \<times> 's) \<Rightarrow> nat \<Rightarrow> 's \<Rightarrow> 's" where
  "after_calls fn n s = ((\<lambda>s. snd (fn s)) ^^ n) s"

lemma after_calls_Suc: "after_calls fn (Suc n) s = after_calls fn n (snd (fn s))"
  by (simp add: after_calls_def funpow_Suc_right del: funpow.simps)

lemma retry_from_spec:
  "a \<le> m \<Longrightarrow> \<exists>k. int k \<le> m - a \<and> retry_from m fn a s = fn (after_calls fn k s) \<and>
     (\<forall>i < k. is_retryable (fst (fn (after_calls fn i s)))) \<and>
     (is_retryable (fst (fn (after_calls fn k s))) \<longrightarrow> int k = m - a)"
proof (induction m fn a s rule: retry_from.induct)
  case (1 m fn a s)
  obtain res s' where f: "fn s = (res, s')" by fastforce
  show ?case
  proof (cases "res = C_OK \<or> \<not> is_retryable res \<or> a = m")
    case True
    then have "retry_from m fn a s = fn (after_calls fn 0 s)"
      using "1.prems" f by (subst retry_from.simps) (auto simp: after_calls_def)
    with True "1.prems" f show ?thesis
      by (intro exI[of _ 0]) (auto simp: after_calls_def is_retryable_def)
  next
    case False
    then have r: "retry_from m fn a s = retry_from m fn (a + 1) s'"
      using "1.prems" f by (subst retry_from.simps) auto
    from "1.IH"[OF "1.prems" f[symmetric] _ _ _] False "1.prems" obtain k where k: "int k \<le> m - (a + 1)"
      "retry_from m fn (a + 1) s' = fn (after_calls fn k s')"
      "\<forall>i < k. is_retryable (fst (fn (after_calls fn i s')))"
      "is_retryable (fst (fn (after_calls fn k s'))) \<longrightarrow> int k = m - (a + 1)" by auto
    have "is_retryable (fst (fn (after_calls fn i s)))" if "i < Suc k" for i
      using that k(3) False f by (cases i) (auto simp: after_calls_Suc, simp add: after_calls_def)
    with k r show ?thesis
      by (intro exI[of _ "Suc k"]) (auto simp: after_calls_Suc f)
  qed
qed

text \<open>
  Retries are bounded and stop at the first final answer: a call with retries makes between one
  and \<open>max_attempts\<close> calls, returns the answer and state of the last one, every earlier answer was
  retryable, and it gives up on a retryable answer only after \<open>max_attempts\<close> calls; with no
  attempts allowed it makes no call and reports an unknown error.
\<close>

theorem retries_bounded:
  shows "(rp_max_attempts p < 1 \<longrightarrow> with_retries p fn s = (ERROR_UNKNOWN, s)) \<and>
    (1 \<le> rp_max_attempts p \<longrightarrow> (\<exists>k. int k < rp_max_attempts p \<and> with_retries p fn s = fn (after_calls fn k s) \<and>
       (\<forall>i < k. is_retryable (fst (fn (after_calls fn i s)))) \<and>
       (is_retryable (fst (fn (after_calls fn k s))) \<longrightarrow> int (Suc k) = rp_max_attempts p)))"
proof (cases "1 \<le> rp_max_attempts p")
  case True
  from retry_from_spec[OF True, of fn s] obtain k where "int k \<le> rp_max_attempts p - 1"
    "with_retries p fn s = fn (after_calls fn k s)" "\<forall>i < k. is_retryable (fst (fn (after_calls fn i s)))"
    "is_retryable (fst (fn (after_calls fn k s))) \<longrightarrow> int k = rp_max_attempts p - 1"
    by (auto simp: with_retries_def)
  then show ?thesis using True by (auto intro!: exI[of _ k])
qed (simp add: with_retries_def retry_from.simps)

text \<open>
  Reconciling forgets the live orders: after \<open>reconcile\<close> the connector has no order in its map, so a
  cancel, a replace or a query of any order, live at the venue or not, never reaches the venue, and
  a cancel succeeds only if it was acknowledged before.
\<close>

theorem reconcile_forgets_orders:
  assumes "c' = snd (reconcile c)"
  shows "(\<forall>cid v. case cancel_order io io' vn cid (c', v) of (res, c'', v'') \<Rightarrow>
        v'' = v \<and> (res = C_OK \<longrightarrow> already_acked (fst (jn_begin io CANCEL cid 0 (lc_journal c'))))) \<and>
    (\<forall>cid rep v. replace_order io io' vn cid rep (c', v) = (ERROR_INVALID_ORDER, c', v)) \<and>
    (\<forall>cid st v. query_order vn cid c' (st, v) = (ERROR_INVALID_ORDER, st, v))"
proof -
  have m: "vm_get cid (lc_venue_order_map c') = None" for cid
    by (simp add: assms reconcile_def vm_get_def vm_find_def vm_clear_def find_slot_None mk_VenueOrderEntry_def)
  show ?thesis
    by (auto simp: cancel_order_def replace_order_def query_order_def m Let_def split: prod.splits)
qed

text \<open>
  What a submission does when the journal does not hold it as acknowledged and can record it, a
  submission interrupted by a crash included: the venue is called with the idempotency key that
  depends on the order id and the venue only; if it accepts, the journal holds the order as
  acknowledged and, when the map has room, the order is bound to the venue's id; if not, the answer
  is the venue's, the journal holds the order as failed and the map is unchanged.
\<close>

theorem submission_effect:
  assumes "journal_ok (lc_journal c)" and "vm_ok (lc_venue_order_map c)"
    and "jstate (lc_journal c) (SUBMIT, o_client_order_id o1) \<noteq> ACKED"
    and "\<exists>e \<in> set (jn_entries (lc_journal c)). \<not> je_used e \<or> je_key e = (SUBMIT, o_client_order_id o1)"
    and "with_retries (lc_retry_policy c)
        (\<lambda>(vid, v). vn_submit vn o1 (''TRT-'' @ decimal (unat (o_client_order_id o1)) @ ''-'' @ exchange_to_string (lc_exchange c)) vid v)
        ([], v) = (r, vid, v1)"
    and "submit_order True True vn o1 (c, v) = (res, c2, v2)"
  shows "v2 = v1 \<and>
    (r = C_OK \<longrightarrow> jstate (lc_journal c2) (SUBMIT, o_client_order_id o1) = ACKED \<and>
       (vm_find_free_slot (lc_venue_order_map c) \<noteq> None \<longrightarrow> res = C_OK \<and>
          vm_get (o_client_order_id o1) (lc_venue_order_map c2) =
            Some (vm_entry (o_client_order_id o1) (vid, lc_exchange c, o_symbol o1)))) \<and>
    (r \<noteq> C_OK \<longrightarrow> res = r \<and> jstate (lc_journal c2) (SUBMIT, o_client_order_id o1) = FAILED \<and>
       lc_venue_order_map c2 = lc_venue_order_map c)"
proof -
  let ?k = "o_client_order_id o1"
  obtain d j' where b: "jn_begin True SUBMIT ?k 0 (lc_journal c) = (d, j')" by fastforce
  have "jd_state d = IN_FLIGHT"
  proof -
    have "\<not> refused (lc_journal c) SUBMIT ?k j'"
      using assms(4) by (auto simp: refused_def jn_map_def key_map_None)
    then show ?thesis using jn_begin_effect[OF assms(1) b] assms(3)
      by (auto simp: Let_def populate_decision_def entry_at_state split: if_splits)
  qed
  note a = guarded_ack[OF assms(1) b this] guarded_fail[OF assms(1) b this] this
  obtain st m where u: "upsert ?k vid (lc_exchange c) (o_symbol o1) (lc_venue_order_map c) = (st, m)" by fastforce
  have st: "vm_find_free_slot (lc_venue_order_map c) = None" if "\<not> st"
    using u that by (auto simp: upsert_def split: option.splits)
  have "vm_get ?k m = Some (vm_entry ?k (vid, lc_exchange c, o_symbol o1))" if "st"
    using venue_map_put[OF assms(2) u] that by simp
  with st a assms(5,6) b u show ?thesis
    by (cases st) (auto simp: submit_order_def Let_def already_acked_def should_send_to_venue_def make_idempotency_key_def
        split: prod.splits if_splits)
qed

subsection \<open>Witnesses\<close>

text \<open>A venue call that is rate limited twice and then accepted.\<close>

definition flaky_call :: "int \<Rightarrow> ConnectorResult \<times> int" where
  "flaky_call n = ((if n < 2 then ERROR_RATE_LIMIT else C_OK), n + 1)"

theorem retries_bounded_witness:
  "\<exists>k. int k < 5 \<and> with_retries \<lparr>rp_max_attempts = 5, rp_backoff_ms = 1\<rparr> flaky_call 0 = flaky_call (after_calls flaky_call k 0)"
  using retries_bounded[of "\<lparr>rp_max_attempts = 5, rp_backoff_ms = 1\<rparr>" flaky_call 0] by auto

text \<open>A venue that accepts everything and remembers the orders it was sent.\<close>

definition echo_submit :: "Order \<Rightarrow> string \<Rightarrow> string \<Rightarrow> u64 list \<Rightarrow> ConnectorResult \<times> string \<times> u64 list" where
  "echo_submit o1 key vid v = (C_OK, ''V'' @ key, v @ [o_client_order_id o1])"

definition echo_venue :: "u64 list Venue" where
  "echo_venue = \<lparr>vn_submit = echo_submit, vn_cancel = (\<lambda>e v. (C_OK, v)),
     vn_replace = (\<lambda>e o1 vid v. (C_OK, ''R'', v @ [o_client_order_id o1])),
     vn_query = (\<lambda>e st v. (C_OK, st, v)), vn_cancel_all = (\<lambda>sy v. (C_OK, v))\<rparr>"

definition okx_connector :: LiveConnector where
  "okx_connector = mk_LiveConnector OKX ''k'' ''s'' ''u'' \<lparr>rp_max_attempts = 3, rp_backoff_ms = 10\<rparr> ''p'' [line_of acked_entry]"

definition order_1 :: Order where "order_1 = mk_Order\<lparr>o_client_order_id := 1, o_symbol := ''BTCUSDT''\<rparr>"

definition order_2 :: Order where "order_2 = mk_Order\<lparr>o_client_order_id := 2, o_symbol := ''BTCUSDT''\<rparr>"

lemma okx_journal: "lc_journal okx_connector = journal_sample"
  by (simp add: okx_connector_def mk_LiveConnector_def journal_sample_def)

lemma okx_states: "jstate (lc_journal okx_connector) (SUBMIT, 1) = ACKED"
  "jstate (lc_journal okx_connector) (SUBMIT, 2) = NONE"
proof -
  show "jstate (lc_journal okx_connector) (SUBMIT, 1) = ACKED"
    by (simp add: jstate_def okx_journal journal_sample_acked) (simp add: acked_entry_def)
  have "jn_map (jn_entries journal_sample) (SUBMIT, 2) = None"
    by (simp add: jn_map_def key_map_None journal_sample_entries acked_entry_def mk_JournalEntry_def je_key_def)
  then show "jstate (lc_journal okx_connector) (SUBMIT, 2) = NONE" by (simp add: jstate_def okx_journal)
qed


theorem reconcile_forgets_orders_witness:
  "query_order echo_venue 1 (snd (reconcile okx_connector)) (mk_FillUpdate, [1]) = (ERROR_INVALID_ORDER, mk_FillUpdate, [1])"
  using reconcile_forgets_orders[OF refl, where vn = echo_venue and c = okx_connector] by blast

theorem submission_effect_witness:
  "snd (snd (submit_order True True echo_venue order_2 (okx_connector, []))) = [2] \<and>
   vm_get 2 (lc_venue_order_map (fst (snd (submit_order True True echo_venue order_2 (okx_connector, []))))) =
     Some (vm_entry 2 (''VTRT-2-OKX'', OKX, ''BTCUSDT''))"
proof -
  obtain res c2 v2 where s: "submit_order True True echo_venue order_2 (okx_connector, []) = (res, c2, v2)"
    by (cases "submit_order True True echo_venue order_2 (okx_connector, [])") auto
  have d: "decimal (unat (2 :: u64)) = ''2''"
  proof -
    have "char_of (50 :: nat) = CHR ''2''" by code_simp
    then have "decimal 2 = ''2''" by (subst decimal.simps) simp
    then show ?thesis by simp
  qed
  have m: "lc_venue_order_map okx_connector = vm_init" "lc_exchange okx_connector = OKX"
    "lc_retry_policy okx_connector = \<lparr>rp_max_attempts = 3, rp_backoff_ms = 10\<rparr>"
    by (simp_all add: okx_connector_def mk_LiveConnector_def)
  have fr: "vm_find_free_slot vm_init \<noteq> None"
    by (simp add: vm_find_free_slot_def vm_init_def MAX_ENTRIES_def mk_VenueOrderEntry_def find_slot_None del: not_None_eq)
  have o2: "o_client_order_id order_2 = 2" "o_symbol order_2 = ''BTCUSDT''" by (simp_all add: order_2_def)
  have w: "with_retries (lc_retry_policy okx_connector)
      (\<lambda>(vid, v). vn_submit echo_venue order_2 (''TRT-'' @ decimal (unat (o_client_order_id order_2)) @ ''-'' @
        exchange_to_string (lc_exchange okx_connector)) vid v) ([], []) = (C_OK, ''VTRT-2-OKX'', [2])"
    by (simp add: m o2 with_retries_def retry_from.simps echo_venue_def echo_submit_def d[simplified])
  have e: "\<exists>e \<in> set (jn_entries (lc_journal okx_connector)). \<not> je_used e \<or> je_key e = (SUBMIT, o_client_order_id order_2)"
    by (simp add: okx_journal journal_sample_entries mk_JournalEntry_def)
  have n: "jstate (lc_journal okx_connector) (SUBMIT, o_client_order_id order_2) \<noteq> ACKED"
    by (simp add: o2 okx_states)
  from submission_effect[OF _ _ n e w s] fr show ?thesis
    by (simp add: s m o2 vm_init_ok okx_journal journal_sample_ok)
qed

end
