(* ===== verification/Smart_Router.thy ===== *)
theory Smart_Router
  imports Trading_Types
begin

text \<open>
  \<^verbatim>\<open>core/execution/router/smart_order_router.cpp\<close>: splitting an order over the venues by expected
  shortfall. The code declares a \<open>RoutingDecision\<close> and a \<open>RoutingRegime\<close> without initialising their
  scalar members; their indeterminate content is an argument here (\<open>out0\<close>, \<open>regime0\<close>).
\<close>

record VenueQuote =
  vq_exchange :: Exchange
  vq_best_bid :: double
  vq_best_ask :: double
  vq_depth_qty :: double
  vq_taker_fee_bps :: double
  vq_latency_penalty_bps :: double
  vq_risk_penalty_bps :: double
  vq_fill_probability :: double
  vq_queue_ahead_qty :: double
  vq_toxicity_bps :: double
  vq_healthy :: bool
  vq_enabled :: bool
  vq_adaptive_fill_probability :: double
  vq_passive_markout_bps :: double
  vq_taker_markout_bps :: double
  vq_reject_rate :: double
  vq_cancel_latency_penalty_bps :: double
  vq_health_penalty_bps :: double
  vq_stability_penalty_bps :: double
  vq_quality_penalty_bps :: double

record RoutingRegime =
  rr_fill_weight_bps :: double
  rr_queue_weight_bps :: double
  rr_toxicity_weight :: double

record SmartOrderRouterConfig =
  sor_high_toxicity_threshold :: double
  sor_low_fill_threshold :: double
  sor_high_fill_threshold :: double
  sor_high_toxicity_fill_weight :: double
  sor_high_toxicity_queue_weight :: double
  sor_high_toxicity_tox_weight :: double
  sor_low_fill_fill_weight :: double
  sor_low_fill_queue_weight :: double
  sor_low_fill_tox_weight :: double
  sor_high_fill_fill_weight :: double
  sor_high_fill_queue_weight :: double
  sor_high_fill_tox_weight :: double
  sor_min_fill_probability :: double

record ChildOrder =
  co_exchange :: Exchange
  co_quantity :: double
  co_limit_price :: double
  co_tif :: TimeInForce

record RoutingDecision =
  rd_children :: "ChildOrder list"
  rd_child_count :: nat
  rd_blocked_by_alpha :: bool

record RoutingConstraints =
  rc_alpha_min_signal_bps :: double
  rc_alpha_risk_max :: double
  rc_alpha_qty_scale :: double

record AlphaSignal =
  as_signal_bps :: double
  as_risk_score :: double
  as_size_fraction :: double
  as_horizon_ticks :: int
  as_ts_ns :: int

definition k_infinite_price :: double where "k_infinite_price = lit (10 ^ 18)"
definition k_missing_best_price :: double where "k_missing_best_price = lit (10 ^ 17)"
definition k_min_remaining_qty :: double where "k_min_remaining_qty = lit (1 / 10 ^ 12)"

definition quote_price_for_side :: "VenueQuote \<Rightarrow> Side \<Rightarrow> double" where
  "quote_price_for_side v side = (if side = BID then vq_best_ask v else vq_best_bid v)"

definition lower_price_is_better :: "Side \<Rightarrow> bool" where
  "lower_price_is_better side \<longleftrightarrow> side = BID"

fun best_price_loop :: "Side \<Rightarrow> VenueQuote list \<Rightarrow> double \<Rightarrow> bool \<Rightarrow> double" where
  "best_price_loop side [] best_px found = (if found then best_px else k_infinite_price)"
| "best_price_loop side (v # vs) best_px found =
     (if \<not> vq_healthy v \<or> vq_depth_qty v \<le> 0 then best_price_loop side vs best_px found
      else
        let quote_price = quote_price_for_side v side
        in if quote_price \<le> 0 then best_price_loop side vs best_px found
           else if \<not> found \<or> (if lower_price_is_better side then quote_price < best_px else quote_price > best_px)
           then best_price_loop side vs quote_price True
           else best_price_loop side vs best_px found)"

definition find_best_price :: "Side \<Rightarrow> VenueQuote list \<Rightarrow> double" where
  "find_best_price side venues = best_price_loop side venues 0 False"

definition effective_price_bps :: "VenueQuote \<Rightarrow> Side \<Rightarrow> double" where
  "effective_price_bps v side =
     (if quote_price_for_side v side \<le> 0 then lit (10 ^ 12)
      else vq_taker_fee_bps v + vq_latency_penalty_bps v + vq_risk_penalty_bps v)"

definition fill_estimate :: "VenueQuote \<Rightarrow> double" where
  "fill_estimate v =
     (if vq_adaptive_fill_probability v \<ge> 0 then vq_adaptive_fill_probability v else vq_fill_probability v)"

definition infer_regime :: "RoutingRegime \<Rightarrow> VenueQuote list \<Rightarrow> SmartOrderRouterConfig \<Rightarrow> RoutingRegime" where
  "infer_regime regime0 venues cfg =
     (let (healthy_count, total_toxicity, total_fill) =
            fold (\<lambda>v (n, t, f). if \<not> vq_healthy v then (n, t, f)
                                else (n + 1, t + vq_toxicity_bps v, f + fill_estimate v)) venues (0, 0, 0)
      in if healthy_count \<le> 0 then regime0
      else
        let avg_toxicity = total_toxicity / healthy_count;
            avg_fill = total_fill / healthy_count
        in if avg_toxicity \<ge> sor_high_toxicity_threshold cfg then
             \<lparr>rr_fill_weight_bps = sor_high_toxicity_fill_weight cfg,
              rr_queue_weight_bps = sor_high_toxicity_queue_weight cfg,
              rr_toxicity_weight = sor_high_toxicity_tox_weight cfg\<rparr>
           else if avg_fill < sor_low_fill_threshold cfg then
             \<lparr>rr_fill_weight_bps = sor_low_fill_fill_weight cfg,
              rr_queue_weight_bps = sor_low_fill_queue_weight cfg,
              rr_toxicity_weight = sor_low_fill_tox_weight cfg\<rparr>
           else if avg_fill > sor_high_fill_threshold cfg then
             \<lparr>rr_fill_weight_bps = sor_high_fill_fill_weight cfg,
              rr_queue_weight_bps = sor_high_fill_queue_weight cfg,
              rr_toxicity_weight = sor_high_fill_tox_weight cfg\<rparr>
           else regime0)"

definition score_venue_bps :: "VenueQuote \<Rightarrow> Side \<Rightarrow> RoutingRegime \<Rightarrow> double \<Rightarrow> double" where
  "score_venue_bps v side regime min_fill_probability =
     (let base_cost = effective_price_bps v side;
          effective_fill_probability = fill_estimate v;
          clipped_fill = (if effective_fill_probability < min_fill_probability
                          then min_fill_probability else effective_fill_probability);
          fill_penalty = rr_fill_weight_bps regime * (1 - clipped_fill);
          queue_penalty = rr_queue_weight_bps regime * vq_queue_ahead_qty v;
          toxicity_penalty = rr_toxicity_weight regime * vq_toxicity_bps v
      in base_cost + fill_penalty + queue_penalty + toxicity_penalty +
         vq_taker_markout_bps v + vq_quality_penalty_bps v)"

definition expected_shortfall_bps ::
  "VenueQuote \<Rightarrow> Side \<Rightarrow> RoutingRegime \<Rightarrow> double \<Rightarrow> double \<Rightarrow> double \<Rightarrow> double" where
  "expected_shortfall_bps v side regime best_px inventory_age_penalty_bps min_fill_probability =
     (let quote_px = quote_price_for_side v side
      in if quote_px \<le> 0 \<or> best_px \<le> 0 then k_infinite_price
         else
           let price_penalty_bps =
                 (if lower_price_is_better side then (quote_px - best_px) / best_px * lit 10000
                  else (best_px - quote_px) / best_px * lit 10000)
           in score_venue_bps v side regime min_fill_probability + price_penalty_bps +
              inventory_age_penalty_bps)"

definition routable :: "VenueQuote \<Rightarrow> bool" where
  "routable v \<longleftrightarrow> \<not> (\<not> vq_healthy v \<or> vq_depth_qty v \<le> 0)"

fun best_venue_loop ::
  "(VenueQuote \<Rightarrow> double) \<Rightarrow> (bool \<times> VenueQuote) list \<Rightarrow> nat \<Rightarrow> nat option \<Rightarrow> double \<Rightarrow> nat option" where
  "best_venue_loop sc [] i best_idx best_score = best_idx"
| "best_venue_loop sc ((u, v) # vs) i best_idx best_score =
     (if u \<or> \<not> routable v then best_venue_loop sc vs (i + 1) best_idx best_score
      else if sc v < best_score then best_venue_loop sc vs (i + 1) (Some i) (sc v)
      else best_venue_loop sc vs (i + 1) best_idx best_score)"

definition find_best_venue_index :: "(VenueQuote \<Rightarrow> double) \<Rightarrow> VenueQuote list \<Rightarrow> bool list \<Rightarrow> nat option" where
  "find_best_venue_index sc venues used = best_venue_loop sc (zip used venues) 0 None k_infinite_price"

definition clip_to_depth :: "double \<Rightarrow> VenueQuote \<Rightarrow> double" where
  "clip_to_depth remaining v = (if remaining < vq_depth_qty v then remaining else vq_depth_qty v)"

definition child_order :: "Side \<Rightarrow> double \<Rightarrow> VenueQuote \<Rightarrow> ChildOrder" where
  "child_order side remaining v =
     \<lparr>co_exchange = vq_exchange v, co_quantity = clip_to_depth remaining v,
      co_limit_price = quote_price_for_side v side, co_tif = IOC\<rparr>"

definition append_child_order :: "RoutingDecision \<Rightarrow> ChildOrder \<Rightarrow> RoutingDecision" where
  "append_child_order out child = out\<lparr>rd_children := (rd_children out)[rd_child_count out := child],
     rd_child_count := rd_child_count out + 1\<rparr>"

lemma best_venue_loop_SomeD:
  assumes "best_venue_loop sc vs i b s = Some k"
  shows "b = Some k \<or> (\<exists>j. k = i + j \<and> j < length vs \<and> \<not> fst (vs ! j) \<and> routable (snd (vs ! j)))"
  using assms
proof (induction sc vs i b s rule: best_venue_loop.induct)
  case (2 sc u v vs i b s)
  have shift: "\<exists>j. k = i + j \<and> j < length ((u, v) # vs) \<and> \<not> fst (((u, v) # vs) ! j) \<and> routable (snd (((u, v) # vs) ! j))"
    if "\<exists>j. k = i + 1 + j \<and> j < length vs \<and> \<not> fst (vs ! j) \<and> routable (snd (vs ! j))"
  proof -
    from that obtain j where "k = i + 1 + j" "j < length vs" "\<not> fst (vs ! j)" "routable (snd (vs ! j))" by blast
    then show ?thesis by (intro exI[of _ "Suc j"]) simp
  qed
  show ?case
  proof (cases "u \<or> \<not> routable v")
    case True
    with "2.IH"(1) "2.prems" shift show ?thesis by auto
  next
    case False
    with "2.IH"(2,3) "2.prems" shift show ?thesis by (cases "sc v < s") (auto intro: exI[of _ 0])
  qed
qed simp

lemma find_best_venue_index_SomeD:
  assumes "find_best_venue_index sc venues used = Some k"
  shows "k < length used" "k < length venues" "\<not> used ! k" "routable (venues ! k)"
  using best_venue_loop_SomeD[OF assms[unfolded find_best_venue_index_def]] by auto

lemma count_used:
  "k < length us \<Longrightarrow> \<not> us ! k \<Longrightarrow> length (filter Not (us[k := True])) < length (filter Not us)"
proof (induction us arbitrary: k)
  case (Cons u us)
  then show ?case by (cases k) auto
qed simp

function route_loop ::
  "(VenueQuote \<Rightarrow> double) \<Rightarrow> Side \<Rightarrow> VenueQuote list \<Rightarrow> RoutingDecision \<Rightarrow> bool list \<Rightarrow> double \<Rightarrow> RoutingDecision" where
  "route_loop sc side venues out used remaining =
     (if remaining > k_min_remaining_qty \<and> rd_child_count out < length (rd_children out) then
        (case find_best_venue_index sc venues used of
           None \<Rightarrow> out
         | Some best_idx \<Rightarrow>
             let winner = venues ! best_idx
             in route_loop sc side venues (append_child_order out (child_order side remaining winner))
                  (used[best_idx := True]) (remaining - clip_to_depth remaining winner))
      else out)"
  by pat_completeness auto
termination
  by (relation "measure (\<lambda>(_, _, _, _, used, _). length (filter Not used))")
     (auto intro: count_used dest: find_best_venue_index_SomeD)

declare route_loop.simps [simp del]

definition mk_ChildOrder :: ChildOrder where
  "mk_ChildOrder = \<lparr>co_exchange = BINANCE, co_quantity = 0, co_limit_price = 0, co_tif = GTC\<rparr>"

definition mk_RoutingDecision :: "nat \<times> bool \<Rightarrow> RoutingDecision" where
  "mk_RoutingDecision out0 = \<lparr>rd_children = replicate 8 mk_ChildOrder, rd_child_count = fst out0,
     rd_blocked_by_alpha = snd out0\<rparr>"

definition route :: "nat \<times> bool \<Rightarrow> RoutingRegime \<Rightarrow> Side \<Rightarrow> double \<Rightarrow> VenueQuote list
    \<Rightarrow> SmartOrderRouterConfig \<Rightarrow> RoutingDecision" where
  "route out0 regime0 side quantity venues cfg =
     (let out = mk_RoutingDecision out0;
          regime = infer_regime regime0 venues cfg;
          best_px = find_best_price side venues
      in if best_px \<ge> k_missing_best_price then out
         else route_loop (\<lambda>v. expected_shortfall_bps v side regime best_px 0 (sor_min_fill_probability cfg))
                side venues out (replicate (length venues) False) quantity)"

definition route_with_alpha :: "nat \<times> bool \<Rightarrow> nat \<times> bool \<Rightarrow> RoutingRegime \<Rightarrow> Side \<Rightarrow> double \<Rightarrow> AlphaSignal
    \<Rightarrow> VenueQuote list \<Rightarrow> RoutingConstraints \<Rightarrow> SmartOrderRouterConfig \<Rightarrow> RoutingDecision" where
  "route_with_alpha out0 out1 regime0 side base_quantity alpha venues cfg sor_cfg =
     (let out = mk_RoutingDecision out0
      in if as_risk_score alpha \<ge> rc_alpha_risk_max cfg then out\<lparr>rd_blocked_by_alpha := True\<rparr>
         else
           let direction_allowed =
                 (side = BID \<and> as_signal_bps alpha \<ge> rc_alpha_min_signal_bps cfg) \<or>
                 (side = ASK \<and> as_signal_bps alpha \<le> - rc_alpha_min_signal_bps cfg)
           in if \<not> direction_allowed then out\<lparr>rd_blocked_by_alpha := True\<rparr>
              else
                let signal_mag = \<bar>as_signal_bps alpha\<bar>;
                    scale = 1 + rc_alpha_qty_scale cfg * signal_mag
                in route out1 regime0 side (base_quantity * scale) venues sor_cfg)"

subsection \<open>Greedy allocation\<close>

text \<open>
  The specification: as long as something remains and a venue is left, take a venue whose score no
  other routable venue beats, up to its depth. \<open>greedy\<close> says which sequences of venues that allows,
  \<open>allocate\<close> which orders they carry.
\<close>

inductive greedy :: "(VenueQuote \<Rightarrow> double) \<Rightarrow> VenueQuote list \<Rightarrow> nat set \<Rightarrow> double \<Rightarrow> nat list \<Rightarrow> bool"
  for sc :: "VenueQuote \<Rightarrow> double" and venues :: "VenueQuote list" where
  done_: "\<not> remaining > k_min_remaining_qty \<or>
      (\<forall>i < length venues. i \<notin> used \<longrightarrow> routable (venues ! i) \<longrightarrow> \<not> sc (venues ! i) < k_infinite_price) \<Longrightarrow>
    greedy sc venues used remaining []"
| take_: "remaining > k_min_remaining_qty \<Longrightarrow> i < length venues \<Longrightarrow> i \<notin> used \<Longrightarrow> routable (venues ! i) \<Longrightarrow>
    \<forall>j < length venues. j \<notin> used \<longrightarrow> routable (venues ! j) \<longrightarrow> \<not> sc (venues ! j) < sc (venues ! i) \<Longrightarrow>
    greedy sc venues (insert i used) (remaining - clip_to_depth remaining (venues ! i)) is \<Longrightarrow>
    greedy sc venues used remaining (i # is)"

inductive_simps greedy_Cons: "greedy sc venues used remaining (i # is)"

fun allocate :: "Side \<Rightarrow> VenueQuote list \<Rightarrow> double \<Rightarrow> nat list \<Rightarrow> ChildOrder list" where
  "allocate side venues remaining [] = []"
| "allocate side venues remaining (i # is) =
     child_order side remaining (venues ! i) #
     allocate side venues (remaining - clip_to_depth remaining (venues ! i)) is"

lemma length_allocate [simp]: "length (allocate side venues remaining is) = length is"
  by (induction side venues remaining "is" rule: allocate.induct) auto

lemma greedy_distinct: "greedy sc venues used remaining is \<Longrightarrow> distinct is \<and> set is \<inter> used = {} \<and> set is \<subseteq> {..<length venues}"
  by (induction rule: greedy.induct) auto

definition unbeaten :: "(VenueQuote \<Rightarrow> double) \<Rightarrow> (bool \<times> VenueQuote) list \<Rightarrow> double \<Rightarrow> bool" where
  "unbeaten sc vs t \<longleftrightarrow> (\<forall>(u, v) \<in> set vs. \<not> u \<longrightarrow> routable v \<longrightarrow> \<not> sc v < t)"

definition scored_at :: "(VenueQuote \<Rightarrow> double) \<Rightarrow> (bool \<times> VenueQuote) list \<Rightarrow> nat \<Rightarrow> nat \<Rightarrow> double \<Rightarrow> bool" where
  "scored_at sc vs i k t \<longleftrightarrow> i \<le> k \<and> k - i < length vs \<and> sc (snd (vs ! (k - i))) = t"

lemma unbeaten_Cons: "unbeaten sc ((u, v) # vs) t \<longleftrightarrow> (\<not> u \<longrightarrow> routable v \<longrightarrow> \<not> sc v < t) \<and> unbeaten sc vs t"
  by (auto simp: unbeaten_def)

lemma scored_at_Cons: "scored_at sc vs (i + 1) k t \<Longrightarrow> scored_at sc (p # vs) i k t"
proof -
  assume a: "scored_at sc vs (i + 1) k t"
  then have "k - i = Suc (k - (i + 1))" by (auto simp: scored_at_def)
  with a show ?thesis by (auto simp: scored_at_def)
qed

lemma best_venue_loop_min:
  "\<not> isnan s \<Longrightarrow>
   (best_venue_loop sc vs i b s = b \<and> unbeaten sc vs s) \<or>
   (\<exists>k t. best_venue_loop sc vs i b s = Some k \<and> t < s \<and> unbeaten sc vs t \<and> scored_at sc vs i k t)"
proof (induction sc vs i b s rule: best_venue_loop.induct)
  case (1 sc i b s)
  then show ?case by (simp add: unbeaten_def)
next
  case (2 sc u v vs i b s)
  show ?case
  proof (cases "u \<or> \<not> routable v \<or> \<not> sc v < s")
    case True
    then have e: "best_venue_loop sc ((u, v) # vs) i b s = best_venue_loop sc vs (i + 1) b s" by auto
    have "(best_venue_loop sc vs (i + 1) b s = b \<and> unbeaten sc vs s) \<or>
      (\<exists>k t. best_venue_loop sc vs (i + 1) b s = Some k \<and> t < s \<and> unbeaten sc vs t \<and> scored_at sc vs (i + 1) k t)"
    proof (cases "u \<or> \<not> routable v")
      case t: True
      from "2.IH"(1)[OF t "2.prems"] show ?thesis .
    next
      case f: False
      with True have "\<not> sc v < s" by blast
      from "2.IH"(3)[OF f this "2.prems"] show ?thesis .
    qed
    note IH = this
    have v: "\<not> u \<longrightarrow> routable v \<longrightarrow> \<not> sc v < t" if "t < s \<or> t = s" for t
      using True that dbl_less_trans[of "sc v" t s] by auto
    from IH show ?thesis unfolding e unbeaten_Cons
    proof (elim disjE exE conjE)
      fix k t assume a: "best_venue_loop sc vs (i + 1) b s = Some k" "t < s" "unbeaten sc vs t" "scored_at sc vs (i + 1) k t"
      then show "(best_venue_loop sc vs (i + 1) b s = b \<and> (\<not> u \<longrightarrow> routable v \<longrightarrow> \<not> sc v < s) \<and> unbeaten sc vs s) \<or>
        (\<exists>k t. best_venue_loop sc vs (i + 1) b s = Some k \<and> t < s \<and> ((\<not> u \<longrightarrow> routable v \<longrightarrow> \<not> sc v < t) \<and> unbeaten sc vs t) \<and>
           scored_at sc ((u, v) # vs) i k t)"
        using v[of t] scored_at_Cons[OF a(4)] by auto
    qed (use v in auto)
  next
    case False
    then have e: "best_venue_loop sc ((u, v) # vs) i b s = best_venue_loop sc vs (i + 1) (Some i) (sc v)"
      and lt: "sc v < s" by auto
    have here: "scored_at sc ((u, v) # vs) i i (sc v)" by (simp add: scored_at_def)
    have nn: "\<not> isnan (sc v)" using lt by (cases "sc v") auto
    then have "(best_venue_loop sc vs (i + 1) (Some i) (sc v) = Some i \<and> unbeaten sc vs (sc v)) \<or>
      (\<exists>k t. best_venue_loop sc vs (i + 1) (Some i) (sc v) = Some k \<and> t < sc v \<and> unbeaten sc vs t \<and> scored_at sc vs (i + 1) k t)"
      using "2.IH"(2)[OF _ lt nn] False by blast
    then show ?thesis unfolding e unbeaten_Cons
      using lt here scored_at_Cons dbl_less_trans dbl_less_asym dbl_irrefl by metis
  qed
qed

lemma unbeaten_zip:
  "length used = length venues \<Longrightarrow> unbeaten sc (zip used venues) t \<longleftrightarrow>
   (\<forall>j < length venues. \<not> used ! j \<longrightarrow> routable (venues ! j) \<longrightarrow> \<not> sc (venues ! j) < t)"
  unfolding unbeaten_def set_zip by simp blast

lemma find_best_None:
  assumes "length used = length venues" "find_best_venue_index sc venues used = None"
  shows "\<forall>j < length venues. \<not> used ! j \<longrightarrow> routable (venues ! j) \<longrightarrow> \<not> sc (venues ! j) < k_infinite_price"
proof -
  have k: "\<not> isnan k_infinite_price" by (simp add: k_infinite_price_def lit_def)
  from best_venue_loop_min[OF k, of sc "zip used venues" 0 None] assms(2)
  show ?thesis unfolding find_best_venue_index_def unbeaten_zip[OF assms(1), symmetric] by simp
qed

lemma find_best_Some:
  assumes "length used = length venues" "find_best_venue_index sc venues used = Some k"
  shows "\<forall>j < length venues. \<not> used ! j \<longrightarrow> routable (venues ! j) \<longrightarrow> \<not> sc (venues ! j) < sc (venues ! k)"
proof -
  have n: "\<not> isnan k_infinite_price" by (simp add: k_infinite_price_def lit_def)
  from best_venue_loop_min[OF n, of sc "zip used venues" 0 None] assms(2)
  obtain t where t: "unbeaten sc (zip used venues) t" "scored_at sc (zip used venues) 0 k t"
    unfolding find_best_venue_index_def by auto
  have "t = sc (venues ! k)" using t(2) assms(1) by (auto simp: scored_at_def)
  with t(1) show ?thesis unfolding unbeaten_zip[OF assms(1), symmetric] by simp
qed

lemma route_loop_greedy:
  assumes "length used = length venues" "length (filter Not used) + rd_child_count out \<le> length (rd_children out)"
  shows "\<exists>is. greedy sc venues {i. i < length used \<and> used ! i} remaining is \<and>
    rd_child_count (route_loop sc side venues out used remaining) = rd_child_count out + length is \<and>
    take (rd_child_count out + length is) (rd_children (route_loop sc side venues out used remaining)) =
      take (rd_child_count out) (rd_children out) @ allocate side venues remaining is"
  using assms
proof (induction sc side venues out used remaining rule: route_loop.induct)
  case (1 sc side venues out used remaining)
  let ?U = "{i. i < length used \<and> used ! i}"
  have nonempty: "filter Not used \<noteq> []" if "find_best_venue_index sc venues used = Some k" for k
  proof -
    have "used ! k \<in> set (filter Not used)" using find_best_venue_index_SomeD[OF that] nth_mem[of k used] by simp
    then show ?thesis by (metis empty_iff list.set(1))
  qed
  note min = find_best_None[OF "1.prems"(1), of sc] find_best_Some[OF "1.prems"(1), of sc]
  show ?case
  proof (cases "remaining > k_min_remaining_qty \<and> find_best_venue_index sc venues used \<noteq> None")
    case False
    have "route_loop sc side venues out used remaining = out"
    proof (cases "remaining > k_min_remaining_qty")
      case True
      with False have "find_best_venue_index sc venues used = None" by simp
      then show ?thesis by (subst route_loop.simps) simp
    next
      case False
      then show ?thesis by (subst route_loop.simps) simp
    qed
    moreover have "greedy sc venues ?U remaining []"
      using False min "1.prems"(1) by (intro done_) auto
    ultimately show ?thesis by (intro exI[of _ "[]"]) simp
  next
    case True
    then obtain k where k: "find_best_venue_index sc venues used = Some k" by auto
    note kd = find_best_venue_index_SomeD[OF k]
    have room: "rd_child_count out < length (rd_children out)" using nonempty[OF k] "1.prems"(2) by (cases "filter Not used") auto
    let ?out = "append_child_order out (child_order side remaining (venues ! k))"
    let ?rem = "remaining - clip_to_depth remaining (venues ! k)"
    have e: "route_loop sc side venues out used remaining = route_loop sc side venues ?out (used[k := True]) ?rem"
      using True k room by (subst route_loop.simps) (simp add: Let_def)
    have U: "{i. i < length (used[k := True]) \<and> used[k := True] ! i} = insert k ?U"
      using kd(1) by (auto simp: nth_list_update)
    have n: "rd_child_count ?out = Suc (rd_child_count out)" "length (rd_children ?out) = length (rd_children out)"
      by (simp_all add: append_child_order_def)
    have "length (filter Not (used[k := True])) + rd_child_count ?out \<le> length (rd_children ?out)"
      using count_used[OF kd(1,3)] "1.prems"(2) n by simp
    with "1.IH"[OF _ k refl] True room "1.prems"(1) obtain "is" where g:
      "greedy sc venues (insert k ?U) ?rem is"
      "rd_child_count (route_loop sc side venues ?out (used[k := True]) ?rem) = Suc (rd_child_count out) + length is"
      "take (Suc (rd_child_count out) + length is) (rd_children (route_loop sc side venues ?out (used[k := True]) ?rem)) =
        take (Suc (rd_child_count out)) (rd_children ?out) @ allocate side venues ?rem is"
      unfolding U n by auto
    have "greedy sc venues ?U remaining (k # is)"
      using True kd g(1) min k "1.prems"(1) by (intro take_) auto
    moreover have "take (Suc (rd_child_count out)) (rd_children ?out) =
        take (rd_child_count out) (rd_children out) @ [child_order side remaining (venues ! k)]"
      using room by (simp add: append_child_order_def take_Suc_conv_app_nth)
    ultimately show ?thesis using g(2,3) unfolding e by (intro exI[of _ "k # is"]) simp
  qed
qed

definition route_score :: "RoutingRegime \<Rightarrow> Side \<Rightarrow> VenueQuote list \<Rightarrow> SmartOrderRouterConfig \<Rightarrow> VenueQuote \<Rightarrow> double" where
  "route_score regime0 side venues cfg v = expected_shortfall_bps v side (infer_regime regime0 venues cfg)
     (find_best_price side venues) 0 (sor_min_fill_probability cfg)"

lemma route_loop_eq:
  "\<not> find_best_price side venues \<ge> k_missing_best_price \<Longrightarrow>
   route out0 regime0 side quantity venues cfg =
     route_loop (route_score regime0 side venues cfg) side venues (mk_RoutingDecision out0)
       (replicate (length venues) False) quantity"
  by (simp add: route_def Let_def route_score_def[abs_def])

lemma filter_Not_replicate: "length (filter Not (replicate n False)) = n"
  by (induction n) auto

lemma route_greedy_children:
  assumes "length venues \<le> 8" and "out = route (0, blocked) regime0 side quantity venues cfg"
    and "\<not> find_best_price side venues \<ge> k_missing_best_price"
  obtains "is" where "greedy (route_score regime0 side venues cfg) venues {} quantity is" "distinct is"
    "rd_child_count out = length is" "take (length is) (rd_children out) = allocate side venues quantity is"
proof -
  let ?used = "replicate (length venues) False"
  have n: "length (filter Not ?used) + rd_child_count (mk_RoutingDecision (0, blocked)) \<le> length (rd_children (mk_RoutingDecision (0, blocked)))"
    using assms(1) by (simp add: mk_RoutingDecision_def)
  have u: "{i. i < length ?used \<and> ?used ! i} = {}" by auto
  from route_loop_greedy[OF _ n, of venues "route_score regime0 side venues cfg" quantity side, unfolded u] obtain "is" where g:
    "greedy (route_score regime0 side venues cfg) venues {} quantity is"
    "rd_child_count out = length is" "take (length is) (rd_children out) = allocate side venues quantity is"
    unfolding assms(2) route_loop_eq[OF assms(3)] by (auto simp: mk_RoutingDecision_def)
  with greedy_distinct[OF g(1)] that show ?thesis by blast
qed


lemma clip_bounds:
  assumes "remaining > k_min_remaining_qty" "routable v" "\<not> isnan (vq_depth_qty v)"
  shows "0 < clip_to_depth remaining v" "clip_to_depth remaining v \<le> vq_depth_qty v"
proof -
  have e: "0 < k_min_remaining_qty" by (simp add: k_min_remaining_qty_def) code_simp
  have d: "0 < vq_depth_qty v" using assms(2,3) by (simp add: routable_def dbl_not_le)
  show "0 < clip_to_depth remaining v" using dbl_less_trans[OF e assms(1)] d by (simp add: clip_to_depth_def)
  show "clip_to_depth remaining v \<le> vq_depth_qty v"
    using assms(3) dbl_less_imp_le by (simp add: clip_to_depth_def)
qed

definition child_ok :: "Side \<Rightarrow> VenueQuote list \<Rightarrow> ChildOrder \<Rightarrow> bool" where
  "child_ok side venues c \<longleftrightarrow> 0 < co_quantity c \<and> co_tif c = IOC \<and>
     (\<exists>v \<in> set venues. routable v \<and> co_exchange c = vq_exchange v \<and> co_quantity c \<le> vq_depth_qty v \<and>
        co_limit_price c = quote_price_for_side v side)"

lemma greedy_child_ok:
  "greedy sc venues used remaining is \<Longrightarrow> \<forall>v \<in> set venues. \<not> isnan (vq_depth_qty v) \<Longrightarrow>
   \<forall>c \<in> set (allocate side venues remaining is). child_ok side venues c"
proof (induction rule: greedy.induct)
  case (take_ remaining i used "is")
  have v: "venues ! i \<in> set venues" using take_.hyps(2) by simp
  have "child_ok side venues (child_order side remaining (venues ! i))"
    using clip_bounds[OF take_.hyps(1,4)] take_.prems v take_.hyps(4)
    unfolding child_ok_def child_order_def by (simp, blast)
  with take_.IH take_.prems show ?case by simp
qed simp

text \<open>
  What a child order may be: if no depth is NaN, every child has a positive quantity, at most the
  depth of a healthy venue with depth, that venue's exchange, its price for the side as limit, and
  is immediate-or-cancel.
\<close>

theorem route_child_bounds:
  assumes "length venues \<le> 8" and "\<forall>v \<in> set venues. \<not> isnan (vq_depth_qty v)"
    and "out = route (0, blocked) regime0 side quantity venues cfg"
    and "c \<in> set (take (rd_child_count out) (rd_children out))"
  shows "child_ok side venues c"
proof (cases "find_best_price side venues \<ge> k_missing_best_price")
  case True
  then show ?thesis using assms(3,4) by (simp add: route_def Let_def mk_RoutingDecision_def)
next
  case False
  from route_greedy_children[OF assms(1,3) False] obtain "is" where
    "greedy (route_score regime0 side venues cfg) venues {} quantity is"
    "rd_child_count out = length is" "take (length is) (rd_children out) = allocate side venues quantity is" by metis
  with greedy_child_ok[OF _ assms(2)] assms(4) show ?thesis by metis
qed

text \<open>
  C41. What the uninitialised members do: with an indeterminate child count of eight or more the decision
  carries that count and no child at all; and in the normal regime, with average toxicity below the
  high threshold and average fill between its two thresholds, the weights that score the venues are the
  indeterminate ones.
\<close>

definition regime_averages :: "VenueQuote list \<Rightarrow> double \<times> double \<times> double" where
  "regime_averages venues = fold (\<lambda>v (n, t, f). if \<not> vq_healthy v then (n, t, f)
     else (n + 1, t + vq_toxicity_bps v, f + fill_estimate v)) venues (0, 0, 0)"

theorem route_uninitialised:
  assumes "n \<ge> 8" and "regime_averages venues = (k, t, f)"
    and "t / k < sor_high_toxicity_threshold cfg" and "sor_low_fill_threshold cfg \<le> f / k"
    and "f / k \<le> sor_high_fill_threshold cfg"
  shows "route (n, blocked) regime0 side quantity venues cfg = mk_RoutingDecision (n, blocked) \<and>
    infer_regime regime0 venues cfg = regime0"
proof
  show "route (n, blocked) regime0 side quantity venues cfg = mk_RoutingDecision (n, blocked)"
  proof (cases "find_best_price side venues \<ge> k_missing_best_price")
    case False
    show ?thesis unfolding route_loop_eq[OF False]
      by (subst route_loop.simps) (use assms(1) in \<open>simp add: mk_RoutingDecision_def\<close>)
  qed (simp add: route_def Let_def)
  show "infer_regime regime0 venues cfg = regime0"
    using assms(2-5) dbl_leD[OF assms(4)] dbl_leD[OF assms(5)] dbl_leD[of "sor_high_toxicity_threshold cfg" "t / k"]
    by (auto simp: infer_regime_def regime_averages_def Let_def)
qed

subsection \<open>Instances\<close>

definition quote_sample :: "Exchange \<Rightarrow> rat \<Rightarrow> rat \<Rightarrow> VenueQuote" where
  "quote_sample e ask depth = \<lparr>vq_exchange = e, vq_best_bid = Fin 99, vq_best_ask = Fin ask, vq_depth_qty = Fin depth,
     vq_taker_fee_bps = Fin 1, vq_latency_penalty_bps = 0, vq_risk_penalty_bps = 0, vq_fill_probability = Fin (1/2),
     vq_queue_ahead_qty = 0, vq_toxicity_bps = 0, vq_healthy = True, vq_enabled = True,
     vq_adaptive_fill_probability = Fin (1/2), vq_passive_markout_bps = 0, vq_taker_markout_bps = 0,
     vq_reject_rate = 0, vq_cancel_latency_penalty_bps = 0, vq_health_penalty_bps = 0,
     vq_stability_penalty_bps = 0, vq_quality_penalty_bps = 0\<rparr>"

definition quotes_sample :: "VenueQuote list" where
  "quotes_sample = [quote_sample BINANCE 101 3, quote_sample OKX 100 2]"

definition sor_sample :: SmartOrderRouterConfig where
  "sor_sample = \<lparr>sor_high_toxicity_threshold = Fin 3, sor_low_fill_threshold = Fin (1/4), sor_high_fill_threshold = Fin (3/4),
     sor_high_toxicity_fill_weight = 0, sor_high_toxicity_queue_weight = 0, sor_high_toxicity_tox_weight = 0,
     sor_low_fill_fill_weight = 0, sor_low_fill_queue_weight = 0, sor_low_fill_tox_weight = 0,
     sor_high_fill_fill_weight = 0, sor_high_fill_queue_weight = 0, sor_high_fill_tox_weight = 0,
     sor_min_fill_probability = 0\<rparr>"

definition regime_sample :: RoutingRegime where
  "regime_sample = \<lparr>rr_fill_weight_bps = 0, rr_queue_weight_bps = 0, rr_toxicity_weight = 0\<rparr>"

theorem route_uninitialised_witness:
  "route (9, False) regime_sample BID (Fin 4) quotes_sample sor_sample = mk_RoutingDecision (9, False) \<and>
   infer_regime \<lparr>rr_fill_weight_bps = Fin 77, rr_queue_weight_bps = 0, rr_toxicity_weight = 0\<rparr> quotes_sample sor_sample =
     \<lparr>rr_fill_weight_bps = Fin 77, rr_queue_weight_bps = 0, rr_toxicity_weight = 0\<rparr>"
proof -
  have "regime_averages quotes_sample = (Fin 2, 0, Fin 1)" by code_simp
  moreover have "(0 :: double) / Fin 2 < sor_high_toxicity_threshold sor_sample" by code_simp
  moreover have "sor_low_fill_threshold sor_sample \<le> Fin 1 / Fin 2" "Fin 1 / Fin 2 \<le> sor_high_fill_threshold sor_sample"
    by code_simp+
  ultimately show ?thesis using route_uninitialised[of 9 quotes_sample "Fin 2" 0 "Fin 1" sor_sample] by simp
qed


theorem route_child_bounds_witness:
  "list_all (child_ok BID quotes_sample)
     (take (rd_child_count (route (0, False) regime_sample BID (Fin 4) quotes_sample sor_sample))
        (rd_children (route (0, False) regime_sample BID (Fin 4) quotes_sample sor_sample)))"
  using route_child_bounds[OF _ _ refl, of quotes_sample _ False regime_sample BID "Fin 4" sor_sample]
  by (auto simp: list_all_iff quotes_sample_def quote_sample_def)

end
