(* ===== verification/Parent_Orders.thy ===== *)
theory Parent_Orders
  imports Trading_Types
begin

text \<open>
  \<^verbatim>\<open>core/execution/common/orders/parent_order_manager.hpp\<close>: the execution plan of a parent order.
  Time points and durations are nanoseconds. The code leaves three things uninitialised, which
  are arguments here: the first plan id, the filled quantity of a plan it builds (\<open>filled0\<close>) and the
  action and flags of a result (\<open>result0\<close>).
\<close>

datatype ShadowUrgency = PASSIVE | BALANCED | AGGRESSIVE

datatype ParentPlanState = PP_IDLE | PP_WORKING | PP_COMPLETED | PP_CANCELED | PP_REPLACED | PP_EXPIRED | PP_REJECTED

datatype ParentPlanAction = PA_NONE | PA_CREATED | PA_UPDATED | PA_REPLACED | PA_EXPIRED | PA_ESCALATED
  | PA_COMPLETED | PA_CANCELED | PA_REJECTED

record ParentExecutionPlan =
  pp_plan_id :: u64
  pp_side :: Side
  pp_total_qty :: double
  pp_filled_qty :: double
  pp_remaining_qty :: double
  pp_urgency :: ShadowUrgency
  pp_allow_passive :: bool
  pp_allow_aggressive :: bool
  pp_created_at :: int
  pp_deadline :: int
  pp_state :: ParentPlanState
  pp_revision :: u32

definition plan_active :: "ParentExecutionPlan \<Rightarrow> bool" where
  "plan_active p \<longleftrightarrow> pp_state p = PP_WORKING"

record ParentPlanUpdateResult =
  pr_action :: ParentPlanAction
  pr_plan :: ParentExecutionPlan
  pr_should_cancel_working_children :: bool
  pr_deadline_passed :: bool

record ParentConfig =
  pc_replace_qty_threshold :: double
  pc_default_deadline_ms :: int
  pc_min_deadline_extension_ms :: int

record ParentOrderManager =
  pm_cfg :: ParentConfig
  pm_plan :: ParentExecutionPlan
  pm_next_plan_id :: u64

definition mk_ParentExecutionPlan :: ParentExecutionPlan where
  "mk_ParentExecutionPlan = \<lparr>pp_plan_id = 0, pp_side = BID, pp_total_qty = 0, pp_filled_qty = 0,
     pp_remaining_qty = 0, pp_urgency = PASSIVE, pp_allow_passive = False, pp_allow_aggressive = False,
     pp_created_at = 0, pp_deadline = 0, pp_state = PP_IDLE, pp_revision = 0\<rparr>"

definition pm_init :: "ParentConfig \<Rightarrow> u64 \<Rightarrow> ParentOrderManager" where
  "pm_init cfg next_plan_id0 = \<lparr>pm_cfg = cfg, pm_plan = mk_ParentExecutionPlan, pm_next_plan_id = next_plan_id0\<rparr>"

definition qty_epsilon :: double where "qty_epsilon = lit (1 / 10 ^ 9)"

definition ms :: "int \<Rightarrow> int" where "ms d = d * 1000000"

definition build_plan :: "double \<Rightarrow> Side \<Rightarrow> double \<Rightarrow> ShadowUrgency \<Rightarrow> int \<Rightarrow> int \<Rightarrow> u64 \<Rightarrow> ParentExecutionPlan" where
  "build_plan filled0 side qty urgency now deadline plan_id =
     \<lparr>pp_plan_id = plan_id, pp_side = side, pp_total_qty = qty, pp_filled_qty = filled0, pp_remaining_qty = qty,
      pp_urgency = urgency, pp_allow_passive = (urgency \<noteq> AGGRESSIVE), pp_allow_aggressive = True,
      pp_created_at = now, pp_deadline = deadline, pp_state = PP_WORKING, pp_revision = 1\<rparr>"

definition maybe_expire :: "int \<Rightarrow> ParentPlanUpdateResult \<times> ParentOrderManager \<Rightarrow> ParentPlanUpdateResult \<times> ParentOrderManager" where
  "maybe_expire now s =
     (let (result, pm) = s; plan = pm_plan pm
      in if \<not> plan_active plan \<or> now < pp_deadline plan then (result, pm)
         else
           let plan = plan\<lparr>pp_state := PP_EXPIRED, pp_urgency := AGGRESSIVE, pp_allow_passive := False,
                           pp_revision := pp_revision plan + 1\<rparr>
           in (result\<lparr>pr_action := PA_EXPIRED, pr_plan := plan,
                 pr_should_cancel_working_children := (pp_remaining_qty plan > qty_epsilon),
                 pr_deadline_passed := True\<rparr>, pm\<lparr>pm_plan := plan\<rparr>))"

definition new_plan :: "double \<Rightarrow> Side \<Rightarrow> double \<Rightarrow> ShadowUrgency \<Rightarrow> int \<Rightarrow> int \<Rightarrow> ParentOrderManager \<Rightarrow> ParentOrderManager" where
  "new_plan filled0 side qty urgency now deadline pm =
     pm\<lparr>pm_plan := build_plan filled0 side qty urgency now deadline (pm_next_plan_id pm),
        pm_next_plan_id := pm_next_plan_id pm + 1\<rparr>"

definition adjust_plan :: "double \<Rightarrow> ShadowUrgency \<Rightarrow> int \<Rightarrow> ParentExecutionPlan \<Rightarrow> ParentExecutionPlan" where
  "adjust_plan requested_qty urgency effective_deadline plan =
     plan\<lparr>pp_total_qty := std_max (pp_filled_qty plan) requested_qty,
          pp_remaining_qty := std_max 0 (std_min (pp_remaining_qty plan) requested_qty),
          pp_urgency := urgency, pp_deadline := max (pp_deadline plan) effective_deadline,
          pp_allow_passive := (urgency \<noteq> AGGRESSIVE), pp_allow_aggressive := True,
          pp_revision := pp_revision plan + 1\<rparr>"

definition update_target :: "ParentPlanUpdateResult \<Rightarrow> double \<Rightarrow> double \<Rightarrow> ShadowUrgency \<Rightarrow> int \<Rightarrow> int
    \<Rightarrow> ParentOrderManager \<Rightarrow> ParentPlanUpdateResult \<times> ParentOrderManager" where
  "update_target result0 filled0 position_delta urgency now deadline_ms pm =
     (let (result, pm) = maybe_expire now (result0\<lparr>pr_plan := mk_ParentExecutionPlan\<rparr>, pm);
          requested_qty = \<bar>position_delta\<bar>;
          plan = pm_plan pm
      in if requested_qty \<le> qty_epsilon then
           if plan_active plan then
             let plan = plan\<lparr>pp_state := PP_CANCELED, pp_revision := pp_revision plan + 1\<rparr>
             in (result\<lparr>pr_action := PA_CANCELED, pr_should_cancel_working_children := True, pr_plan := plan\<rparr>,
                 pm\<lparr>pm_plan := plan\<rparr>)
           else if pr_action result = PA_NONE then (result\<lparr>pr_plan := plan\<rparr>, pm)
           else (result, pm)
         else
           let requested_side = (if position_delta > 0 then BID else ASK);
               effective_deadline = now + ms (if deadline_ms = 0 then pc_default_deadline_ms (pm_cfg pm) else deadline_ms)
           in if \<not> plan_active plan then
                let pm = new_plan filled0 requested_side requested_qty urgency now effective_deadline pm
                in (result\<lparr>pr_action := PA_CREATED, pr_plan := pm_plan pm\<rparr>, pm)
              else if pp_side plan \<noteq> requested_side \<or>
                \<bar>pp_total_qty plan - requested_qty\<bar> \<ge> pc_replace_qty_threshold (pm_cfg pm) then
                let pm = new_plan filled0 requested_side requested_qty urgency now effective_deadline pm
                in (result\<lparr>pr_action := PA_REPLACED, pr_should_cancel_working_children := True, pr_plan := pm_plan pm\<rparr>, pm)
              else
                let urgency_changed = (pp_urgency plan \<noteq> urgency);
                    deadline_extended = (effective_deadline > pp_deadline plan + ms (pc_min_deadline_extension_ms (pm_cfg pm)));
                    capped_remaining_qty = std_min (pp_remaining_qty plan) requested_qty;
                    quantity_changed = (\<bar>pp_total_qty plan - requested_qty\<bar> \<ge> qty_epsilon \<or>
                      \<bar>pp_remaining_qty plan - capped_remaining_qty\<bar> \<ge> qty_epsilon);
                    plan = adjust_plan requested_qty urgency effective_deadline plan
                in (result\<lparr>pr_action := (if urgency_changed \<or> deadline_extended \<or> quantity_changed then PA_UPDATED else PA_NONE),
                      pr_plan := plan\<rparr>, pm\<lparr>pm_plan := plan\<rparr>))"

definition fill_plan :: "double \<Rightarrow> ParentExecutionPlan \<Rightarrow> ParentExecutionPlan" where
  "fill_plan fill_qty plan =
     (if \<not> plan_active plan \<or> fill_qty \<le> 0 then plan
      else
        let plan = plan\<lparr>pp_filled_qty := std_min (pp_total_qty plan) (pp_filled_qty plan + fill_qty)\<rparr>;
            plan = plan\<lparr>pp_remaining_qty := std_max 0 (pp_total_qty plan - pp_filled_qty plan)\<rparr>
        in if pp_remaining_qty plan \<le> qty_epsilon
           then plan\<lparr>pp_remaining_qty := 0, pp_state := PP_COMPLETED\<rparr> else plan)"

definition cancel_plan :: "double \<Rightarrow> ParentExecutionPlan \<Rightarrow> ParentExecutionPlan" where
  "cancel_plan canceled_qty plan =
     (if \<not> plan_active plan \<or> canceled_qty \<le> 0 then plan
      else
        let plan = plan\<lparr>pp_remaining_qty := std_max 0 (pp_remaining_qty plan - canceled_qty)\<rparr>;
            plan = plan\<lparr>pp_total_qty := std_max (pp_filled_qty plan) (pp_filled_qty plan + pp_remaining_qty plan)\<rparr>
        in if pp_remaining_qty plan \<le> qty_epsilon
           then plan\<lparr>pp_remaining_qty := 0, pp_state := (if pp_filled_qty plan > 0 then PP_COMPLETED else PP_CANCELED)\<rparr>
           else plan)"

definition reject_plan :: "ParentExecutionPlan \<Rightarrow> ParentExecutionPlan" where
  "reject_plan plan =
     (if \<not> plan_active plan then plan
      else plan\<lparr>pp_state := PP_REJECTED, pp_remaining_qty := std_max 0 (pp_total_qty plan - pp_filled_qty plan)\<rparr>)"

definition on_child_fill :: "double \<Rightarrow> ParentOrderManager \<Rightarrow> ParentOrderManager" where
  "on_child_fill fill_qty pm = pm\<lparr>pm_plan := fill_plan fill_qty (pm_plan pm)\<rparr>"

definition on_child_cancel :: "double \<Rightarrow> ParentOrderManager \<Rightarrow> ParentOrderManager" where
  "on_child_cancel canceled_qty pm = pm\<lparr>pm_plan := cancel_plan canceled_qty (pm_plan pm)\<rparr>"

definition on_child_reject :: "ParentOrderManager \<Rightarrow> ParentOrderManager" where
  "on_child_reject pm = pm\<lparr>pm_plan := reject_plan (pm_plan pm)\<rparr>"

definition poll :: "ParentPlanUpdateResult \<Rightarrow> int \<Rightarrow> ParentOrderManager \<Rightarrow> ParentPlanUpdateResult \<times> ParentOrderManager" where
  "poll result0 now pm =
     (let (result, pm) = maybe_expire now (result0\<lparr>pr_plan := mk_ParentExecutionPlan\<rparr>, pm)
      in (if pr_action result = PA_NONE then result\<lparr>pr_plan := pm_plan pm\<rparr> else result, pm))"

definition has_active_plan :: "ParentOrderManager \<Rightarrow> bool" where
  "has_active_plan pm \<longleftrightarrow> plan_active (pm_plan pm)"

subsection \<open>The quantities of a plan\<close>

lemma std_max_0_le: "0 \<le> c \<Longrightarrow> (\<not> isnan x \<Longrightarrow> x \<le> c) \<Longrightarrow> std_max 0 x \<le> c"
  by (cases "isnan x"; cases x) (auto simp: std_max_def)

lemma add_ge:
  assumes "0 \<le> a" "0 \<le> b" "dwf b" shows "b \<le> (a + b :: double)"
proof -
  have n: "\<not> isnan (a + b)" "\<not> isnan a" "\<not> isnan b"
    using nonneg_add_not_nan[OF assms(1,2)] add_not_nan by blast+
  consider "isfinite a" "isfinite b" | "a = PInf \<or> b = PInf"
    using nonneg_not_NInf[OF assms(1)] nonneg_not_NInf[OF assms(2)] isfiniteI n by blast
  then show ?thesis
  proof cases
    case 1
    have "0 \<le> fval a" using assms(1) 1(1) finite_le[of 0 a] by simp
    then have "pack False (fval b) \<le> a + b"
      using finite_add[OF 1] pack_mono[of "fval b" "fval a + fval b"] by simp
    moreover have "b \<le> pack False (fval b)" using pack_fval_deq[OF assms(3) 1(2), of False]
      by (simp add: dbl_ord_defs)
    ultimately show ?thesis using dbl_trans by blast
  next
    case 2
    then show ?thesis using add_inf(1)[OF n(1)] n(3) by simp
  qed
qed

lemma add_comm: "a + b = b + (a :: double)"
  by (cases a; cases b) (simp_all add: plus_double_def add.commute)

definition plan_ok :: "ParentExecutionPlan \<Rightarrow> bool" where
  "plan_ok p \<longleftrightarrow> dwf (pp_total_qty p) \<and> dwf (pp_filled_qty p) \<and> dwf (pp_remaining_qty p) \<and>
     0 \<le> pp_filled_qty p \<and> pp_filled_qty p \<le> pp_total_qty p \<and>
     0 \<le> pp_remaining_qty p \<and> pp_remaining_qty p \<le> pp_total_qty p"

lemma plan_ok_simps [simp]:
  "plan_ok (p\<lparr>pp_state := st, pp_revision := r\<rparr>) = plan_ok p"
  "plan_ok (p\<lparr>pp_state := st, pp_urgency := u, pp_allow_passive := b, pp_revision := r\<rparr>) = plan_ok p"
  by (simp_all add: plan_ok_def)

lemma le_not_nan: "a \<le> b \<Longrightarrow> \<not> isnan a \<and> \<not> isnan (b :: double)"
  by (cases a; cases b) (auto simp: dbl_ord_defs)

lemma fill_plan_ok:
  assumes ok: "plan_ok p" and f: "dwf f" shows "plan_ok (fill_plan f p)"
proof (cases "plan_active p \<and> \<not> f \<le> 0 \<and> \<not> isnan f")
  case True
  let ?f = "std_min (pp_total_qty p) (pp_filled_qty p + f)"
  let ?r = "std_max 0 (pp_total_qty p - ?f)"
  have f0: "0 \<le> f" using True dbl_not_le[of f 0] dbl_less_imp_le by auto
  have t: "0 \<le> pp_total_qty p" "\<not> isnan (pp_total_qty p)"
    using ok dbl_trans le_not_nan unfolding plan_ok_def by blast+
  have "0 \<le> pp_filled_qty p + f" using ok f0 by (simp add: plan_ok_def add_nonneg)
  then have fl: "0 \<le> ?f" "?f \<le> pp_total_qty p" "dwf ?f"
    using std_min_cases[of "pp_total_qty p" "pp_filled_qty p + f"] std_min_le(1)[OF t(2)] t(1) ok f
    by (auto simp: plan_ok_def)
  have r: "?r \<le> pp_total_qty p"
    using fl ok t(1) by (intro std_max_0_le) (auto simp: plan_ok_def intro: sub_le)
  have "fill_plan f p = (if ?r \<le> qty_epsilon
      then p\<lparr>pp_filled_qty := ?f, pp_remaining_qty := 0, pp_state := PP_COMPLETED\<rparr>
      else p\<lparr>pp_filled_qty := ?f, pp_remaining_qty := ?r\<rparr>)"
    using True by (simp add: fill_plan_def Let_def)
  then show ?thesis using fl r t ok by (simp add: plan_ok_def)
next
  case False
  then consider "\<not> plan_active p \<or> f \<le> 0" | "f = NaN" by (cases f) auto
  then show ?thesis
  proof cases
    case 1
    then show ?thesis using ok by (simp add: fill_plan_def)
  next
    case 2
    have t: "0 \<le> pp_total_qty p" using ok dbl_trans unfolding plan_ok_def by blast
    have m: "std_min a NaN = a" for a by (simp add: std_min_def)
    have z: "std_max 0 (pp_total_qty p - pp_total_qty p) \<le> pp_total_qty p"
      using ok t by (intro std_max_0_le) (auto simp: plan_ok_def intro: sub_le)
    show ?thesis using ok t z dbl_refl le_not_nan[OF t] by (simp add: 2 fill_plan_def Let_def m plan_ok_def)
  qed
qed

lemma cancel_plan_ok:
  assumes ok: "plan_ok p" and f: "dwf f" shows "plan_ok (cancel_plan f p)"
proof (cases "plan_active p \<and> \<not> f \<le> 0")
  case True
  let ?r = "std_max 0 (pp_remaining_qty p - f)"
  let ?t = "std_max (pp_filled_qty p) (pp_filled_qty p + ?r)"
  have r: "0 \<le> ?r" "dwf ?r" using ok f by (simp_all add: plan_ok_def)
  have fl: "0 \<le> pp_filled_qty p" "\<not> isnan (pp_filled_qty p)"
    using ok le_not_nan by (auto simp: plan_ok_def)
  have s: "\<not> isnan (pp_filled_qty p + ?r)" "?r \<le> pp_filled_qty p + ?r"
    using add_ge[OF fl(1) r] nonneg_add_not_nan[OF fl(1) r(1)] by auto
  then have t: "pp_filled_qty p \<le> ?t" "?r \<le> ?t" "0 \<le> ?t"
    using std_max_ge[OF fl(2), of "pp_filled_qty p + ?r"] fl(1) dbl_trans by blast+
  have d: "dwf ?t" using ok r by (simp add: plan_ok_def)
  have "cancel_plan f p = (if ?r \<le> qty_epsilon
      then p\<lparr>pp_total_qty := ?t, pp_remaining_qty := 0,
             pp_state := (if pp_filled_qty p > 0 then PP_COMPLETED else PP_CANCELED)\<rparr>
      else p\<lparr>pp_remaining_qty := ?r, pp_total_qty := ?t\<rparr>)"
    using True by (simp add: cancel_plan_def Let_def)
  then show ?thesis using ok r t d by (simp add: plan_ok_def)
qed (use ok in \<open>auto simp: cancel_plan_def\<close>)

lemma reject_plan_ok: "plan_ok p \<Longrightarrow> plan_ok (reject_plan p)"
proof -
  assume ok: "plan_ok p"
  have t: "0 \<le> pp_total_qty p" using ok dbl_trans unfolding plan_ok_def by blast
  have "std_max 0 (pp_total_qty p - pp_filled_qty p) \<le> pp_total_qty p"
    using ok t by (intro std_max_0_le) (auto simp: plan_ok_def intro: sub_le)
  then show ?thesis using ok by (simp add: reject_plan_def plan_ok_def)
qed

lemma adjust_plan_ok:
  assumes ok: "plan_ok p" and q: "dwf q" "0 \<le> q" shows "plan_ok (adjust_plan q u d p)"
proof -
  have n: "\<not> isnan (pp_filled_qty p)" "\<not> isnan (pp_remaining_qty p)" "\<not> isnan q"
    using ok q le_not_nan by (auto simp: plan_ok_def)
  have f: "pp_filled_qty p \<le> std_max (pp_filled_qty p) q" "q \<le> std_max (pp_filled_qty p) q"
    using std_max_ge n by blast+
  have "std_min (pp_remaining_qty p) q \<le> q" using std_min_le(2) n by blast
  then have "std_max 0 (std_min (pp_remaining_qty p) q) \<le> q" using q by (intro std_max_0_le) auto
  then have "std_max 0 (std_min (pp_remaining_qty p) q) \<le> std_max (pp_filled_qty p) q"
    using f(2) dbl_trans by blast
  then show ?thesis using ok q f by (simp add: plan_ok_def adjust_plan_def)
qed

lemma maybe_expire_frame:
  "pm_cfg (snd (maybe_expire now (r, pm))) = pm_cfg pm \<and>
   (plan_ok (pm_plan pm) \<longrightarrow> plan_ok (pm_plan (snd (maybe_expire now (r, pm)))))"
  by (simp add: maybe_expire_def Let_def)

lemma update_target_plan:
  obtains (same) "pm_plan (snd (update_target r0 f0 d u now dl pm)) = pm_plan (snd (maybe_expire now (r0\<lparr>pr_plan := mk_ParentExecutionPlan\<rparr>, pm)))"
  | (cancel) rv where "pm_plan (snd (update_target r0 f0 d u now dl pm)) =
      (pm_plan (snd (maybe_expire now (r0\<lparr>pr_plan := mk_ParentExecutionPlan\<rparr>, pm))))\<lparr>pp_state := PP_CANCELED, pp_revision := rv\<rparr>"
  | (new) side dl' n where "pm_plan (snd (update_target r0 f0 d u now dl pm)) = build_plan f0 side \<bar>d\<bar> u now dl' n"
      "\<not> \<bar>d\<bar> \<le> qty_epsilon"
  | (adjust) dl' where "pm_plan (snd (update_target r0 f0 d u now dl pm)) =
      adjust_plan \<bar>d\<bar> u dl' (pm_plan (snd (maybe_expire now (r0\<lparr>pr_plan := mk_ParentExecutionPlan\<rparr>, pm))))"
      "\<not> \<bar>d\<bar> \<le> qty_epsilon"
proof -
  obtain r' pm' where m: "maybe_expire now (r0\<lparr>pr_plan := mk_ParentExecutionPlan\<rparr>, pm) = (r', pm')" by fastforce
  let ?p = "pm_plan (snd (update_target r0 f0 d u now dl pm))"
  consider (a) "\<bar>d\<bar> \<le> qty_epsilon" "plan_active (pm_plan pm')" | (b) "\<bar>d\<bar> \<le> qty_epsilon" "\<not> plan_active (pm_plan pm')"
    | (c) "\<not> \<bar>d\<bar> \<le> qty_epsilon" "\<not> plan_active (pm_plan pm')"
    | (d) "\<not> \<bar>d\<bar> \<le> qty_epsilon" "plan_active (pm_plan pm')" "pp_side (pm_plan pm') \<noteq> (if d > 0 then BID else ASK) \<or>
        \<bar>pp_total_qty (pm_plan pm') - \<bar>d\<bar>\<bar> \<ge> pc_replace_qty_threshold (pm_cfg pm')"
    | (e) "\<not> \<bar>d\<bar> \<le> qty_epsilon" "plan_active (pm_plan pm')" "\<not> (pp_side (pm_plan pm') \<noteq> (if d > 0 then BID else ASK) \<or>
        \<bar>pp_total_qty (pm_plan pm') - \<bar>d\<bar>\<bar> \<ge> pc_replace_qty_threshold (pm_cfg pm'))" by blast
  then show thesis
  proof cases
    case a
    then have "?p = (pm_plan pm')\<lparr>pp_state := PP_CANCELED, pp_revision := pp_revision (pm_plan pm') + 1\<rparr>"
      by (simp add: update_target_def m Let_def)
    then show thesis using cancel m by simp
  next
    case b
    then have "?p = pm_plan pm'" by (simp add: update_target_def m Let_def)
    then show thesis using same m by simp
  next
    case c
    then have "\<exists>side dl' n. ?p = build_plan f0 side \<bar>d\<bar> u now dl' n"
      unfolding update_target_def m Let_def new_plan_def by simp blast
    then show thesis using new c by blast
  next
    case d
    then have "\<exists>side dl' n. ?p = build_plan f0 side \<bar>d\<bar> u now dl' n"
      unfolding update_target_def m Let_def new_plan_def by simp blast
    then show thesis using new d by blast
  next
    case e
    then have "\<exists>dl'. ?p = adjust_plan \<bar>d\<bar> u dl' (pm_plan pm')"
      unfolding update_target_def m Let_def by simp blast
    then show thesis using adjust m e by auto
  qed
qed

datatype parent_op = Target double ShadowUrgency int int | Child_Fill double | Child_Cancel double | Child_Reject | Poll int

fun parent_step :: "(nat \<Rightarrow> ParentPlanUpdateResult) \<Rightarrow> parent_op \<times> nat \<Rightarrow> ParentOrderManager \<Rightarrow> ParentOrderManager" where
  "parent_step r0 (Target d u now dl, n) pm = snd (update_target (r0 n) 0 d u now dl pm)"
| "parent_step r0 (Child_Fill q, n) pm = on_child_fill q pm"
| "parent_step r0 (Child_Cancel q, n) pm = on_child_cancel q pm"
| "parent_step r0 (Child_Reject, n) pm = on_child_reject pm"
| "parent_step r0 (Poll now, n) pm = snd (poll (r0 n) now pm)"

fun op_ok :: "parent_op \<Rightarrow> bool" where
  "op_ok (Target d u now dl) = (dwf d \<and> \<not> isnan d)"
| "op_ok (Child_Fill q) = dwf q"
| "op_ok (Child_Cancel q) = dwf q"
| "op_ok Child_Reject = True"
| "op_ok (Poll now) = True"

lemma parent_step_ok:
  assumes ok: "plan_ok (pm_plan pm)" and x: "op_ok (fst x)"
  shows "plan_ok (pm_plan (parent_step r0 x pm))"
proof -
  obtain y n where xy: "x = (y, n)" by (cases x)
  show ?thesis
  proof (cases y)
    case (Target d u now dl)
    have d: "dwf \<bar>d\<bar>" "0 \<le> \<bar>d\<bar>" "\<not> isnan \<bar>d\<bar>" using x by (auto simp: xy Target)
    note m = maybe_expire_frame[of now "r0 n\<lparr>pr_plan := mk_ParentExecutionPlan\<rparr>" pm]
    have "plan_ok (pm_plan (snd (update_target (r0 n) 0 d u now dl pm)))"
    proof (cases rule: update_target_plan[where ?r0.0 = "r0 n" and ?f0.0 = 0 and d = d and u = u and now = now and dl = dl and pm = pm])
      case (new side dl' k)
      then show ?thesis using d by (simp add: build_plan_def plan_ok_def)
    next
      case (adjust dl')
      then show ?thesis using d m ok adjust_plan_ok by simp
    qed (use m ok in simp_all)
    then show ?thesis by (simp add: xy Target)
  next
    case (Poll now)
    then show ?thesis using ok maybe_expire_frame[of now "r0 n\<lparr>pr_plan := mk_ParentExecutionPlan\<rparr>" pm]
      by (auto simp: xy poll_def split: prod.splits)
  qed (use ok x in \<open>auto simp: xy on_child_fill_def on_child_cancel_def on_child_reject_def
         fill_plan_ok cancel_plan_ok reject_plan_ok\<close>)
qed


text \<open>
  What the uninitialised filled quantity does: a new plan starts with whatever was in memory as
  its filled quantity. If that is at least the plan's finite quantity, the first child fill,
  however small, completes the plan with nothing remaining.
\<close>

theorem garbage_fill_completes_plan:
  assumes "\<not> plan_active (pm_plan pm)" and "\<not> \<bar>d\<bar> \<le> qty_epsilon" and "isfinite d" and "\<bar>d\<bar> \<le> filled0" and "isfinite filled0"
    and "0 < q" and "isfinite q" and "dwf filled0"
    and "pm' = snd (update_target result0 filled0 d u now dl pm)"
  shows "plan_active (pm_plan pm') \<and> pp_remaining_qty (pm_plan pm') = \<bar>d\<bar> \<and>
    pp_state (pm_plan (on_child_fill q pm')) = PP_COMPLETED \<and> pp_remaining_qty (pm_plan (on_child_fill q pm')) = 0"
proof -
  obtain side dl' n where p: "pm_plan pm' = build_plan filled0 side \<bar>d\<bar> u now dl' n"
    using assms(1,2) unfolding assms(9) update_target_def maybe_expire_def new_plan_def by (auto simp: Let_def)
  have q: "\<not> q \<le> 0" "0 \<le> q" using assms(6) dbl_leD dbl_less_imp_le by auto
  have "0 \<le> \<bar>d\<bar>" using assms(3) by simp
  then have "0 \<le> filled0" using assms(4) dbl_trans by blast
  then have "filled0 \<le> q + filled0" using add_ge[OF q(2) _ assms(8)] by simp
  then have "filled0 \<le> filled0 + q" by (simp add: add_comm)
  then have "\<not> filled0 + q < \<bar>d\<bar>" using assms(4) dbl_leD dbl_trans by blast
  then have m: "std_min \<bar>d\<bar> (filled0 + q) = \<bar>d\<bar>" by (simp add: std_min_def)
  have z: "\<bar>d\<bar> - \<bar>d\<bar> = 0" using assms(3) by (simp add: sub_self)
  have e: "std_max 0 (0 :: double) \<le> qty_epsilon" by code_simp
  show ?thesis using q(1) by (simp add: p on_child_fill_def fill_plan_def build_plan_def plan_active_def Let_def m z e)
qed

text \<open>
  A raised target is recorded but not worked: while a plan works, a new target on the same side
  whose size differs from the plan's total by less than the replacement threshold never raises the
  remaining quantity, however much larger than the old total it is; the total becomes the new size.
\<close>

theorem raised_target_not_worked:
  assumes "plan_ok (pm_plan pm)" and "plan_active (pm_plan pm)" and "now < pp_deadline (pm_plan pm)"
    and "\<not> \<bar>d\<bar> \<le> qty_epsilon" and "\<not> isnan d" and "pp_side (pm_plan pm) = (if d > 0 then BID else ASK)"
    and "\<not> \<bar>pp_total_qty (pm_plan pm) - \<bar>d\<bar>\<bar> \<ge> pc_replace_qty_threshold (pm_cfg pm)"
    and "pm' = snd (update_target result0 filled0 d u now dl pm)"
  shows "pp_remaining_qty (pm_plan pm') \<le> pp_remaining_qty (pm_plan pm) \<and>
    pp_total_qty (pm_plan pm') = std_max (pp_filled_qty (pm_plan pm)) \<bar>d\<bar> \<and> plan_active (pm_plan pm')"
proof -
  have m: "maybe_expire now (result0\<lparr>pr_plan := mk_ParentExecutionPlan\<rparr>, pm) = (result0\<lparr>pr_plan := mk_ParentExecutionPlan\<rparr>, pm)"
    using assms(3) by (simp add: maybe_expire_def)
  obtain dl' where p: "pm_plan pm' = adjust_plan \<bar>d\<bar> u dl' (pm_plan pm)"
    using assms(2,4,6,7) unfolding assms(8) update_target_def m Let_def by simp
  have n: "0 \<le> pp_remaining_qty (pm_plan pm)" using assms(1) by (simp add: plan_ok_def)
  then have "std_min (pp_remaining_qty (pm_plan pm)) \<bar>d\<bar> \<le> pp_remaining_qty (pm_plan pm)"
    using std_min_le(1) le_not_nan by blast
  then have "std_max 0 (std_min (pp_remaining_qty (pm_plan pm)) \<bar>d\<bar>) \<le> pp_remaining_qty (pm_plan pm)"
    using n by (intro std_max_0_le)
  then show ?thesis using assms(2) by (simp add: p adjust_plan_def plan_active_def)
qed

subsection \<open>Instances\<close>

definition parent_cfg_sample :: ParentConfig where
  "parent_cfg_sample = \<lparr>pc_replace_qty_threshold = Fin 2, pc_default_deadline_ms = 1500, pc_min_deadline_extension_ms = 250\<rparr>"

definition result_sample :: ParentPlanUpdateResult where
  "result_sample = \<lparr>pr_action = PA_NONE, pr_plan = mk_ParentExecutionPlan, pr_should_cancel_working_children = False,
     pr_deadline_passed = False\<rparr>"

definition working_sample :: ParentOrderManager where
  "working_sample = (pm_init parent_cfg_sample 1)\<lparr>pm_plan := build_plan 0 BID (Fin 4) BALANCED 0 1000 1\<rparr>"


theorem garbage_fill_completes_plan_witness:
  "pp_state (pm_plan (on_child_fill (Fin (1/8))
     (snd (update_target result_sample (Fin 7) (Fin 5) PASSIVE 0 0 (pm_init parent_cfg_sample 1))))) = PP_COMPLETED"
proof -
  have "\<not> plan_active (pm_plan (pm_init parent_cfg_sample 1))"
    by (simp add: pm_init_def mk_ParentExecutionPlan_def plan_active_def)
  moreover have "\<not> \<bar>Fin 5\<bar> \<le> qty_epsilon" "\<bar>Fin 5\<bar> \<le> Fin 7" "(0 :: double) < Fin (1/8)" "dwf (Fin 7)" by code_simp+
  ultimately show ?thesis
    using garbage_fill_completes_plan[OF _ _ _ _ _ _ _ _ refl, of "pm_init parent_cfg_sample 1" "Fin 5" "Fin 7" "Fin (1/8)"]
    by simp
qed

theorem raised_target_not_worked_witness:
  "pp_remaining_qty (pm_plan (snd (update_target result_sample 0 (Fin 5) BALANCED 10 0 working_sample))) \<le> Fin 4 \<and>
   pp_total_qty (pm_plan (snd (update_target result_sample 0 (Fin 5) BALANCED 10 0 working_sample))) = Fin 5"
proof -
  have ok: "plan_ok (pm_plan working_sample)" by code_simp
  have a: "plan_active (pm_plan working_sample)" "10 < pp_deadline (pm_plan working_sample)"
    "pp_side (pm_plan working_sample) = (if (Fin 5 :: double) > 0 then BID else ASK)" by code_simp+
  have b: "\<not> \<bar>Fin 5\<bar> \<le> qty_epsilon"
    "\<not> \<bar>pp_total_qty (pm_plan working_sample) - \<bar>Fin 5\<bar>\<bar> \<ge> pc_replace_qty_threshold (pm_cfg working_sample)" by code_simp+
  have c: "std_max (pp_filled_qty (pm_plan working_sample)) \<bar>Fin 5\<bar> = Fin 5"
    "pp_remaining_qty (pm_plan working_sample) = Fin 4" by code_simp+
  from raised_target_not_worked[OF ok a(1,2) b(1) _ a(3) b(2) refl, of result_sample 0 BALANCED 0] show ?thesis
    by (simp add: c)
qed

end
