(* ===== verification/Child_Scheduler.thy ===== *)
theory Child_Scheduler
  imports Smart_Router Parent_Orders
begin

text \<open>
  \<^verbatim>\<open>core/execution/common/orders/child_order_scheduler.hpp\<close>: from the plan of a parent order to child
  orders on the venues, in one of four styles. \<open>SchedulerDecision out;\<close> leaves the style and the
  expected shortfall indeterminate (\<open>out0\<close>), and \<open>infer_regime\<close> may return an indeterminate regime
  (\<open>regime0\<close>).
\<close>

datatype ChildExecutionStyle = PASSIVE_JOIN | PASSIVE_IMPROVE | STYLE_IOC | SWEEP

record SchedulerDecision =
  sd_routing :: RoutingDecision
  sd_style :: ChildExecutionStyle
  sd_expected_shortfall_bps :: double

record SchedulerConfig =
  sc_short_horizon_ticks :: int
  sc_sweep_horizon_ticks :: int
  sc_long_horizon_ticks :: int
  sc_passive_join_inventory_age_bps :: double
  sc_passive_improve_inventory_age_bps :: double
  sc_aggressive_inventory_age_bps :: double
  sc_passive_improve_fraction :: double
  sc_price_cross_epsilon :: double
  sc_sor :: SmartOrderRouterConfig

definition passive_style :: "ChildExecutionStyle \<Rightarrow> bool" where
  "passive_style style \<longleftrightarrow> style = PASSIVE_JOIN \<or> style = PASSIVE_IMPROVE"

definition style_lower_price_is_better :: "Side \<Rightarrow> ChildExecutionStyle \<Rightarrow> bool" where
  "style_lower_price_is_better side style = (if passive_style style then side = ASK else side = BID)"

definition choose_style :: "SchedulerConfig \<Rightarrow> ParentExecutionPlan \<Rightarrow> int \<Rightarrow> ChildExecutionStyle" where
  "choose_style cfg plan horizon_ticks =
     (if pp_urgency plan = AGGRESSIVE then
        if horizon_ticks \<le> sc_sweep_horizon_ticks cfg then SWEEP else STYLE_IOC
      else if pp_urgency plan = PASSIVE then
        if horizon_ticks \<ge> sc_long_horizon_ticks cfg then PASSIVE_JOIN else PASSIVE_IMPROVE
      else if horizon_ticks \<le> sc_sweep_horizon_ticks cfg then SWEEP
      else if horizon_ticks \<le> sc_short_horizon_ticks cfg then STYLE_IOC
      else PASSIVE_IMPROVE)"

definition max_venue_count :: "ChildExecutionStyle \<Rightarrow> nat" where
  "max_venue_count style = (if style = SWEEP then 4 else 1)"

definition inventory_age_penalty_bps :: "SchedulerConfig \<Rightarrow> ChildExecutionStyle \<Rightarrow> int \<Rightarrow> double" where
  "inventory_age_penalty_bps cfg style inventory_age_ms =
     (let age_scale = std_clamp (of_integer (max 0 inventory_age_ms) / lit 1000) 0 (lit 10)
      in case style of
           PASSIVE_JOIN \<Rightarrow> age_scale * sc_passive_join_inventory_age_bps cfg
         | PASSIVE_IMPROVE \<Rightarrow> age_scale * sc_passive_improve_inventory_age_bps cfg
         | STYLE_IOC \<Rightarrow> age_scale * sc_aggressive_inventory_age_bps cfg
         | SWEEP \<Rightarrow> age_scale * sc_aggressive_inventory_age_bps cfg)"

definition quote_price_for_style :: "VenueQuote \<Rightarrow> Side \<Rightarrow> ChildExecutionStyle \<Rightarrow> double" where
  "quote_price_for_style v side style =
     (if passive_style style then if side = BID then vq_best_bid v else vq_best_ask v
      else if side = BID then vq_best_ask v else vq_best_bid v)"

fun reference_price_loop :: "Side \<Rightarrow> ChildExecutionStyle \<Rightarrow> VenueQuote list \<Rightarrow> double \<Rightarrow> bool \<Rightarrow> double" where
  "reference_price_loop side style [] best_px found = (if found then best_px else 0)"
| "reference_price_loop side style (v # vs) best_px found =
     (if \<not> vq_healthy v \<or> vq_depth_qty v \<le> 0 then reference_price_loop side style vs best_px found
      else
        let px = quote_price_for_style v side style
        in if px \<le> 0 then reference_price_loop side style vs best_px found
           else if \<not> found \<or> (if style_lower_price_is_better side style then px < best_px else px > best_px)
           then reference_price_loop side style vs px True
           else reference_price_loop side style vs best_px found)"

definition best_reference_price :: "Side \<Rightarrow> ChildExecutionStyle \<Rightarrow> VenueQuote list \<Rightarrow> double" where
  "best_reference_price side style venues = reference_price_loop side style venues 0 False"

definition venue_expected_shortfall ::
  "SchedulerConfig \<Rightarrow> Side \<Rightarrow> ChildExecutionStyle \<Rightarrow> RoutingRegime \<Rightarrow> double \<Rightarrow> int \<Rightarrow> VenueQuote \<Rightarrow> double" where
  "venue_expected_shortfall cfg side style regime best_px inventory_age_ms v =
     (let score = expected_shortfall_bps v side regime best_px (inventory_age_penalty_bps cfg style inventory_age_ms)
                    (sor_min_fill_probability (sc_sor cfg))
      in if style = PASSIVE_JOIN then score - lit (1 / 2) * vq_taker_fee_bps v + vq_passive_markout_bps v
         else if style = PASSIVE_IMPROVE then
           score - lit (1 / 4) * vq_taker_fee_bps v + lit (1 / 10) * vq_queue_ahead_qty v + vq_passive_markout_bps v
         else if style = SWEEP then score - lit (1 / 5) * vq_latency_penalty_bps v + vq_taker_markout_bps v
         else score + vq_taker_markout_bps v)"

definition select_best_venue :: "(VenueQuote \<Rightarrow> double) \<Rightarrow> bool list \<Rightarrow> VenueQuote list \<Rightarrow> nat option" where
  "select_best_venue score used venues = best_venue_loop score (zip used venues) 0 None (lit (10 ^ 18))"

definition tif_for_style :: "ChildExecutionStyle \<Rightarrow> TimeInForce" where
  "tif_for_style style =
     (case style of PASSIVE_JOIN \<Rightarrow> GTX | PASSIVE_IMPROVE \<Rightarrow> GTX | STYLE_IOC \<Rightarrow> IOC | SWEEP \<Rightarrow> IOC)"

definition limit_price_for_style :: "SchedulerConfig \<Rightarrow> VenueQuote \<Rightarrow> Side \<Rightarrow> ChildExecutionStyle \<Rightarrow> double" where
  "limit_price_for_style cfg v side style =
     (if style = PASSIVE_JOIN then if side = BID then vq_best_bid v else vq_best_ask v
      else if style = PASSIVE_IMPROVE then
        let same_side = (if side = BID then vq_best_bid v else vq_best_ask v);
            opposite_side = (if side = BID then vq_best_ask v else vq_best_bid v)
        in if same_side \<le> 0 \<or> opposite_side \<le> 0 \<or> opposite_side \<le> same_side then same_side
           else
             let spread = opposite_side - same_side;
                 improvement = std_max 0 (std_min (spread * sc_passive_improve_fraction cfg)
                                                  (spread - sc_price_cross_epsilon cfg))
             in if side = BID then same_side + improvement else same_side - improvement
      else if side = BID then vq_best_ask v else vq_best_bid v)"

definition style_child :: "SchedulerConfig \<Rightarrow> Side \<Rightarrow> ChildExecutionStyle \<Rightarrow> double \<Rightarrow> VenueQuote \<Rightarrow> ChildOrder" where
  "style_child cfg side style clip v =
     \<lparr>co_exchange = vq_exchange v, co_quantity = clip, co_limit_price = limit_price_for_style cfg v side style,
      co_tif = tif_for_style style\<rparr>"

function schedule_loop :: "SchedulerConfig \<Rightarrow> Side \<Rightarrow> ChildExecutionStyle \<Rightarrow> (VenueQuote \<Rightarrow> double) \<Rightarrow> VenueQuote list \<Rightarrow>
    RoutingDecision \<Rightarrow> bool list \<Rightarrow> double \<Rightarrow> double \<Rightarrow> RoutingDecision \<times> double \<times> double" where
  "schedule_loop cfg side style score venues routing used remaining shortfall =
     (if remaining > qty_epsilon \<and> rd_child_count routing < length (rd_children routing) \<and>
         rd_child_count routing < max_venue_count style then
        (case select_best_venue score used venues of
           None \<Rightarrow> (routing, remaining, shortfall)
         | Some best_idx \<Rightarrow>
             let v = venues ! best_idx;
                 clip = std_min remaining (vq_depth_qty v)
             in if clip \<le> qty_epsilon
                then schedule_loop cfg side style score venues routing (used[best_idx := True]) remaining shortfall
                else
                  let routing = append_child_order routing (style_child cfg side style clip v);
                      shortfall = shortfall + clip * score v;
                      remaining = remaining - clip
                  in if style \<noteq> SWEEP then (routing, remaining, shortfall)
                     else schedule_loop cfg side style score venues routing (used[best_idx := True]) remaining shortfall)
      else (routing, remaining, shortfall))"
  by pat_completeness auto

lemma select_best_venue_SomeD:
  assumes "select_best_venue sc used venues = Some k"
  shows "k < length used" "k < length venues" "\<not> used ! k" "routable (venues ! k)"
  using best_venue_loop_SomeD[OF assms[unfolded select_best_venue_def]] by auto

termination schedule_loop
  by (relation "measure (\<lambda>(_, _, _, _, _, _, used, _, _). length (filter Not used))")
     (auto intro: count_used dest: select_best_venue_SomeD)

declare schedule_loop.simps [simp del]

definition schedule :: "ChildExecutionStyle \<times> double \<Rightarrow> RoutingRegime \<Rightarrow> SchedulerConfig \<Rightarrow> ParentExecutionPlan \<Rightarrow> int
    \<Rightarrow> int \<Rightarrow> VenueQuote list \<Rightarrow> SchedulerDecision" where
  "schedule out0 regime0 cfg plan horizon_ticks inventory_age_ms venues =
     (let out = \<lparr>sd_routing = mk_RoutingDecision (0, False), sd_style = fst out0, sd_expected_shortfall_bps = snd out0\<rparr>
      in if \<not> plan_active plan \<or> pp_remaining_qty plan \<le> 0 then out
      else
        let style = choose_style cfg plan horizon_ticks;
            out = out\<lparr>sd_style := style\<rparr>;
            side = pp_side plan;
            best_px = best_reference_price side style venues
        in if best_px \<le> 0 then out
           else
             let regime = infer_regime regime0 venues (sc_sor cfg);
                 score = venue_expected_shortfall cfg side style regime best_px inventory_age_ms;
                 (routing, remaining, shortfall) = schedule_loop cfg side style score venues (sd_routing out)
                   (replicate (length venues) False) (pp_remaining_qty plan) 0;
                 out = out\<lparr>sd_routing := routing\<rparr>
             in if rd_child_count routing = 0 then out
                else
                  let routed_qty = pp_remaining_qty plan - remaining
                  in if routed_qty > qty_epsilon
                     then out\<lparr>sd_expected_shortfall_bps := shortfall / routed_qty\<rparr> else out)"

subsection \<open>What is scheduled\<close>

definition scheduled_ok :: "SchedulerConfig \<Rightarrow> Side \<Rightarrow> ChildExecutionStyle \<Rightarrow> VenueQuote list \<Rightarrow> ChildOrder \<Rightarrow> bool" where
  "scheduled_ok cfg side style venues c \<longleftrightarrow> qty_epsilon < co_quantity c \<and> co_tif c = tif_for_style style \<and>
     (\<exists>v \<in> set venues. routable v \<and> co_exchange c = vq_exchange v \<and> co_quantity c \<le> vq_depth_qty v \<and>
        co_limit_price c = limit_price_for_style cfg v side style)"

definition venues_ok :: "VenueQuote list \<Rightarrow> bool" where
  "venues_ok venues \<longleftrightarrow> (\<forall>v \<in> set venues. dwf (vq_depth_qty v) \<and> \<not> isnan (vq_depth_qty v))"

lemma qty_epsilon_pos: "0 < qty_epsilon" by code_simp

lemma between_finite: "0 \<le> x \<Longrightarrow> x \<le> y \<Longrightarrow> isfinite y \<Longrightarrow> isfinite (x :: double)"
  by (cases x; cases y) (auto simp: dbl_ord_defs)

lemma clip_step:
  assumes r: "isfinite r" "dwf r" "r > qty_epsilon" and v: "routable v" "dwf (vq_depth_qty v)" "\<not> isnan (vq_depth_qty v)"
    and c: "\<not> std_min r (vq_depth_qty v) \<le> qty_epsilon"
  shows "qty_epsilon < std_min r (vq_depth_qty v)" "std_min r (vq_depth_qty v) \<le> vq_depth_qty v"
    "std_min r (vq_depth_qty v) \<le> r"
    "0 \<le> r - std_min r (vq_depth_qty v)" "isfinite (r - std_min r (vq_depth_qty v))" "dwf (r - std_min r (vq_depth_qty v))"
proof -
  let ?c = "std_min r (vq_depth_qty v)"
  have n: "\<not> isnan r" "\<not> isnan ?c" using r v std_min_cases[of r "vq_depth_qty v"] by auto
  have eps: "\<not> isnan qty_epsilon" by code_simp
  show lt: "qty_epsilon < ?c" using c n(2) eps dbl_not_le by blast
  show "?c \<le> vq_depth_qty v" and le: "?c \<le> r" using std_min_le n v by blast+
  have c0: "0 \<le> ?c" using lt qty_epsilon_pos dbl_less_trans dbl_less_imp_le by blast
  have cf: "isfinite ?c" using between_finite[OF c0 le r(1)] .
  have nn: "\<not> isnan (r - ?c)" using finite_add_not_nan[of r "- ?c"] r(1) cf by (simp add: minus_double_def)
  show z: "0 \<le> r - ?c" by (rule sub_nonneg[OF le nn])
  have "r - ?c \<le> r" by (rule sub_le[OF c0 r(2) nn])
  then show "isfinite (r - ?c)" using between_finite z r(1) by blast
  show "dwf (r - ?c)" using r v by simp
qed

lemma schedule_loop_ok:
  assumes "venues_ok venues" "isfinite remaining" "dwf remaining" "0 \<le> remaining" "rd_child_count routing \<le> length (rd_children routing)"
    and "schedule_loop cfg side style score venues routing used remaining shortfall = (routing', remaining', shortfall')"
  shows "\<exists>cs. rd_child_count routing' = rd_child_count routing + length cs \<and>
    length (rd_children routing') = length (rd_children routing) \<and>
    take (rd_child_count routing') (rd_children routing') = take (rd_child_count routing) (rd_children routing) @ cs \<and>
    (\<forall>c \<in> set cs. scheduled_ok cfg side style venues c) \<and>
    remaining' = foldl (-) remaining (map co_quantity cs) \<and> 0 \<le> remaining' \<and>
    (cs \<noteq> [] \<longrightarrow> rd_child_count routing' \<le> max_venue_count style)"
  using assms
proof (induction cfg side style score venues routing used remaining shortfall rule: schedule_loop.induct)
  case (1 cfg side style score venues routing used remaining shortfall)
  let ?go = "remaining > qty_epsilon \<and> rd_child_count routing < length (rd_children routing) \<and> rd_child_count routing < max_venue_count style"
  show ?case
  proof (cases "?go \<and> select_best_venue score used venues \<noteq> None")
    case False
    have "schedule_loop cfg side style score venues routing used remaining shortfall = (routing, remaining, shortfall)"
    proof (cases ?go)
      case True
      with False have "select_best_venue score used venues = None" by simp
      then show ?thesis by (subst schedule_loop.simps) simp
    next
      case False
      then show ?thesis by (subst schedule_loop.simps) (simp only: if_False)
    qed
    then show ?thesis using "1.prems" by (intro exI[of _ "[]"]) simp
  next
    case True
    then obtain k where k: "select_best_venue score used venues = Some k" and go: ?go by auto
    let ?v = "venues ! k" and ?c = "std_min remaining (vq_depth_qty (venues ! k))"
    note kd = select_best_venue_SomeD[OF k]
    have v: "?v \<in> set venues" "dwf (vq_depth_qty ?v)" "\<not> isnan (vq_depth_qty ?v)"
      using kd(2) "1.prems"(1) by (auto simp: venues_ok_def)
    show ?thesis
    proof (cases "?c \<le> qty_epsilon")
      case small: True
      have "schedule_loop cfg side style score venues routing used remaining shortfall =
          schedule_loop cfg side style score venues routing (used[k := True]) remaining shortfall"
        using go k small by (subst schedule_loop.simps) (simp add: Let_def)
      then show ?thesis using "1.IH"(1)[OF go k refl refl small "1.prems"(1-5)] "1.prems"(6) by simp
    next
      case big: False
      note c = clip_step[OF "1.prems"(2,3) conjunct1[OF go] kd(4) v(2,3) big]
      let ?r = "append_child_order routing (style_child cfg side style ?c ?v)"
      have ch: "scheduled_ok cfg side style venues (style_child cfg side style ?c ?v)"
        using c(1,2) v(1) kd(4) by (auto simp: scheduled_ok_def style_child_def)
      have n: "rd_child_count ?r = Suc (rd_child_count routing)" "length (rd_children ?r) = length (rd_children routing)"
        "take (Suc (rd_child_count routing)) (rd_children ?r) =
           take (rd_child_count routing) (rd_children routing) @ [style_child cfg side style ?c ?v]"
        using go by (simp_all add: append_child_order_def take_Suc_conv_app_nth)
      show ?thesis
      proof (cases "style = SWEEP")
        case False
        have "schedule_loop cfg side style score venues routing used remaining shortfall = (?r, remaining - ?c, shortfall + ?c * score ?v)"
          using go k big False by (subst schedule_loop.simps) (simp add: Let_def)
        then show ?thesis using "1.prems"(6) n ch c(4) go
          by (intro exI[of _ "[style_child cfg side style ?c ?v]"]) (auto simp: style_child_def)
      next
        case sw: True
        have e: "schedule_loop cfg side style score venues routing used remaining shortfall =
            schedule_loop cfg side style score venues ?r (used[k := True]) (remaining - ?c) (shortfall + ?c * score ?v)"
          using go k big sw by (subst schedule_loop.simps) (simp add: Let_def)
        have len: "rd_child_count ?r \<le> length (rd_children ?r)" using go n by simp
        have "\<exists>cs. rd_child_count routing' = rd_child_count ?r + length cs \<and>
            length (rd_children routing') = length (rd_children ?r) \<and>
            take (rd_child_count routing') (rd_children routing') = take (rd_child_count ?r) (rd_children ?r) @ cs \<and>
            (\<forall>c \<in> set cs. scheduled_ok cfg side style venues c) \<and>
            remaining' = foldl (-) (remaining - ?c) (map co_quantity cs) \<and> 0 \<le> remaining' \<and>
            (cs \<noteq> [] \<longrightarrow> rd_child_count routing' \<le> max_venue_count style)"
          using "1.IH"(2)[OF go k refl refl big refl refl refl _ "1.prems"(1) c(5,6,4) len] sw "1.prems"(6) e by simp
        then obtain cs where cs: "rd_child_count routing' = Suc (rd_child_count routing) + length cs"
            "length (rd_children routing') = length (rd_children routing)"
            "take (rd_child_count routing') (rd_children routing') =
               (take (rd_child_count routing) (rd_children routing) @ [style_child cfg side style ?c ?v]) @ cs"
            "\<forall>c \<in> set cs. scheduled_ok cfg side style venues c"
            "remaining' = foldl (-) (remaining - ?c) (map co_quantity cs)" "0 \<le> remaining'"
            "cs \<noteq> [] \<longrightarrow> rd_child_count routing' \<le> max_venue_count style"
          unfolding n by blast
        show ?thesis
          by (intro exI[of _ "style_child cfg side style ?c ?v # cs"])
            (use cs ch go in \<open>auto simp: style_child_def\<close>)
      qed
    qed
  qed
qed


text \<open>
  The passive-improve style never improves an ask: on an uncrossed quote a buy is placed at or above the
  best bid, up by the configured part of the spread, but a sell is placed exactly at the best ask, because
  the guard against a crossed quote compares the two sides the same way for both.
\<close>

theorem ask_is_never_improved:
  assumes "0 < vq_best_bid v" and "vq_best_bid v < vq_best_ask v" and "dwf (vq_best_bid v)"
  shows "limit_price_for_style cfg v ASK PASSIVE_IMPROVE = vq_best_ask v \<and>
    limit_price_for_style cfg v BID PASSIVE_IMPROVE = vq_best_bid v +
      std_max 0 (std_min ((vq_best_ask v - vq_best_bid v) * sc_passive_improve_fraction cfg)
                         (vq_best_ask v - vq_best_bid v - sc_price_cross_epsilon cfg)) \<and>
    vq_best_bid v \<le> limit_price_for_style cfg v BID PASSIVE_IMPROVE"
proof -
  have a: "\<not> vq_best_bid v \<le> 0" "\<not> vq_best_ask v \<le> 0" "\<not> vq_best_ask v \<le> vq_best_bid v" "vq_best_bid v \<le> vq_best_ask v"
    using dbl_less_trans[OF assms(1,2)] assms(1,2) by (auto dest: dbl_leD intro: dbl_less_imp_le)
  have "vq_best_bid v \<le> vq_best_bid v + std_max 0 x" for x
    using add_ge[OF std_max_zero(1)[of x] dbl_less_imp_le[OF assms(1)] assms(3)] by (simp add: add_comm)
  then show ?thesis using a by (simp add: limit_price_for_style_def Let_def)
qed

subsection \<open>Instances\<close>

definition scheduler_sample :: SchedulerConfig where
  "scheduler_sample = \<lparr>sc_short_horizon_ticks = 5, sc_sweep_horizon_ticks = 2, sc_long_horizon_ticks = 20,
     sc_passive_join_inventory_age_bps = 0, sc_passive_improve_inventory_age_bps = 0, sc_aggressive_inventory_age_bps = 0,
     sc_passive_improve_fraction = Fin (1/2), sc_price_cross_epsilon = Fin (1/8), sc_sor = sor_sample\<rparr>"


theorem ask_is_never_improved_witness:
  "limit_price_for_style scheduler_sample (quote_sample OKX 101 2) ASK PASSIVE_IMPROVE = Fin 101 \<and>
   limit_price_for_style scheduler_sample (quote_sample OKX 101 2) BID PASSIVE_IMPROVE = Fin 100"
proof -
  let ?v = "quote_sample OKX 101 2"
  have a: "0 < vq_best_bid ?v" "vq_best_bid ?v < vq_best_ask ?v" "dwf (vq_best_bid ?v)" by code_simp+
  have b: "vq_best_bid ?v + std_max 0 (std_min ((vq_best_ask ?v - vq_best_bid ?v) * sc_passive_improve_fraction scheduler_sample)
      (vq_best_ask ?v - vq_best_bid ?v - sc_price_cross_epsilon scheduler_sample)) = Fin 100" by code_simp
  from ask_is_never_improved[OF a, of scheduler_sample] show ?thesis by (simp add: b) (simp add: quote_sample_def)
qed

end
