(* ===== verification/Reconciliation_Service.thy ===== *)
theory Reconciliation_Service
  imports Position_Ledger Live_Connector
begin

text \<open>
  \<open>core/execution/common/reconciliation/reconciliation_service.hpp\<close>: the service that
  compares what each venue reports with the canonical state, counts the drifts, quarantines a
  venue and brings the position ledger up to date. The arrays of the class are lists of
  \<open>MAX_CONNECTORS\<close> slots; a connector pointer is \<open>None\<close> while it is null. The connectors,
  the fetchers, the hooks and the clocks are code outside the class and act on a state
  \<open>'w\<close> of their own. A decision declared as \<open>DriftDecision out;\<close> starts from indeterminate
  fields: the garbage is an argument, and a reason pointer nothing was assigned to is \<open>None\<close>.
\<close>

section \<open>Data\<close>

datatype MismatchClass = M_NONE | MISSING_ORDER | QTY_DRIFT | FILL_GAP | BALANCE_DRIFT | POSITION_DRIFT

datatype DriftAction = A_NONE | QUARANTINE_VENUE | REQUEST_FILL_REPLAY | RISK_HALT_RECOMMENDED
  | CANCEL_ALL_ORDERS

datatype SeverityLevel = INFO | WARNING | CRITICAL

record RemediationPolicy =
  po_order_drift_retry_budget :: u32
  po_fill_gap_retry_budget :: u32
  po_snapshot_failure_retry_budget :: u32

record DriftThresholds =
  th_max_balance_drift :: double
  th_max_position_drift :: double
  th_max_order_fill_gap :: double
  th_max_fill_notional_drift :: double
  th_max_fill_fee_drift :: double

record VenueState =
  st_exchange :: Exchange
  st_registered :: bool
  st_quarantined :: bool
  st_last_reconcile_ts_ns :: int
  st_last_drift_check_ts_ns :: int
  st_mismatch_count :: u32
  st_order_drift_retries :: u32
  st_fill_gap_retries :: u32
  st_snapshot_failure_retries :: u32
  st_fill_replay_requests :: u32
  st_last_mismatch :: MismatchClass
  st_last_action :: DriftAction
  st_last_severity :: SeverityLevel

record ReconciliationIncident =
  in_ts_ns :: int
  in_exchange :: Exchange
  in_mismatch_class :: MismatchClass
  in_action :: DriftAction
  in_severity :: SeverityLevel
  in_reconnect_phase :: bool
  in_retry_count :: u32
  in_reason :: string

record DriftDecision =
  dd_mismatch :: bool
  dd_mismatch_class :: MismatchClass
  dd_action :: DriftAction
  dd_severity :: SeverityLevel
  dd_retry_count :: u32
  dd_quarantine :: bool
  dd_reason :: "string option"

record FillLedger =
  fl_cum_qty :: double
  fl_cum_notional :: double
  fl_cum_fee :: double
  fl_unique_fill_count :: u32
  fl_overflow :: bool

record FillIdentity =
  fi_client_order_id :: u64
  fi_venue_order_id :: string
  fi_venue_trade_id :: string
  fi_exchange_ts_ns :: int
  fi_quantity :: double
  fi_price :: double
  fi_exchange :: Exchange

definition MAX_CONNECTORS :: nat where "MAX_CONNECTORS = 4"
definition MAX_FILL_KEYS :: nat where "MAX_FILL_KEYS = 1024"
definition MAX_INCIDENT_TRAIL :: nat where "MAX_INCIDENT_TRAIL = 256"

type_synonym 'w Fetcher = "ReconciliationSnapshot \<Rightarrow> 'w \<Rightarrow> bool \<times> ReconciliationSnapshot \<times> 'w"
type_synonym 'w Hook = "Exchange \<Rightarrow> MismatchClass \<Rightarrow> string \<Rightarrow> 'w \<Rightarrow> 'w"

record 'w ReconciliationService =
  rc_thresholds :: DriftThresholds
  rc_policy :: RemediationPolicy
  rc_connectors :: "nat option list"
  rc_states :: "VenueState list"
  rc_canonical_snapshots :: "ReconciliationSnapshot list"
  rc_latest_snapshots :: "ReconciliationSnapshot list"
  rc_canonical_snapshot_fetchers :: "'w Fetcher option list"
  rc_has_canonical_snapshot :: "bool list"
  rc_has_latest_snapshot :: "bool list"
  rc_reconnect_required :: "bool list"
  rc_cancel_all_hook :: "'w Hook option"
  rc_risk_halt_hook :: "'w Hook option"
  rc_position_ledger :: "PositionLedger option"
  rc_incident_trail :: "ReconciliationIncident list"
  rc_incident_count :: nat
  rc_dropped_incident_count :: u32
  rc_connector_count :: nat

record 'w World =
  wd_reconcile :: "nat \<Rightarrow> 'w \<Rightarrow> ConnectorResult \<times> 'w"
  wd_fetch :: "nat \<Rightarrow> ReconciliationSnapshot \<Rightarrow> 'w \<Rightarrow> ConnectorResult \<times> ReconciliationSnapshot \<times> 'w"
  wd_now_ns :: "'w \<Rightarrow> int"
  wd_steady_ns :: "'w \<Rightarrow> int"

datatype rc_fault = Null_Connector | Wild_Reason

definition mk_VenueState :: VenueState where
  "mk_VenueState = \<lparr>st_exchange = BINANCE, st_registered = False, st_quarantined = False,
     st_last_reconcile_ts_ns = 0, st_last_drift_check_ts_ns = 0, st_mismatch_count = 0,
     st_order_drift_retries = 0, st_fill_gap_retries = 0, st_snapshot_failure_retries = 0,
     st_fill_replay_requests = 0, st_last_mismatch = M_NONE, st_last_action = A_NONE,
     st_last_severity = INFO\<rparr>"

definition mk_ReconciliationIncident :: ReconciliationIncident where
  "mk_ReconciliationIncident = \<lparr>in_ts_ns = 0, in_exchange = BINANCE, in_mismatch_class = M_NONE,
     in_action = A_NONE, in_severity = INFO, in_reconnect_phase = False, in_retry_count = 0, in_reason = []\<rparr>"

text \<open>The two-argument constructor; the three counters have no initialiser.\<close>

definition mk_ReconciliationService ::
  "DriftThresholds \<Rightarrow> RemediationPolicy \<Rightarrow> nat \<Rightarrow> u32 \<Rightarrow> nat \<Rightarrow> 'w ReconciliationService" where
  "mk_ReconciliationService thresholds policy incidents dropped connectors =
     \<lparr>rc_thresholds = thresholds, rc_policy = policy,
      rc_connectors = replicate MAX_CONNECTORS None,
      rc_states = replicate MAX_CONNECTORS mk_VenueState,
      rc_canonical_snapshots = replicate MAX_CONNECTORS rs_empty,
      rc_latest_snapshots = replicate MAX_CONNECTORS rs_empty,
      rc_canonical_snapshot_fetchers = replicate MAX_CONNECTORS None,
      rc_has_canonical_snapshot = replicate MAX_CONNECTORS False,
      rc_has_latest_snapshot = replicate MAX_CONNECTORS False,
      rc_reconnect_required = replicate MAX_CONNECTORS False,
      rc_cancel_all_hook = None, rc_risk_halt_hook = None, rc_position_ledger = None,
      rc_incident_trail = replicate MAX_INCIDENT_TRAIL mk_ReconciliationIncident,
      rc_incident_count = incidents, rc_dropped_incident_count = dropped,
      rc_connector_count = connectors\<rparr>"

section \<open>Registration and lookups\<close>

definition update_state :: "nat \<Rightarrow> (VenueState \<Rightarrow> VenueState) \<Rightarrow> 'w ReconciliationService \<Rightarrow> 'w ReconciliationService" where
  "update_state i f s = s\<lparr>rc_states := (rc_states s)[i := f (rc_states s ! i)]\<rparr>"

definition register_connector ::
  "nat \<Rightarrow> Exchange \<Rightarrow> 'w ReconciliationService \<Rightarrow> bool \<times> 'w ReconciliationService" where
  "register_connector connector exchange_id s =
     (let n = rc_connector_count s in
      if Some connector \<in> set (take n (rc_connectors s)) then (True, s)
      else if n \<ge> MAX_CONNECTORS then (False, s)
      else (True, (update_state n (\<lambda>st. st\<lparr>st_exchange := exchange_id, st_registered := True\<rparr>) s)
                    \<lparr>rc_connectors := (rc_connectors s)[n := Some connector],
                     rc_reconnect_required := (rc_reconnect_required s)[n := False],
                     rc_connector_count := n + 1\<rparr>))"

definition index_for :: "Exchange \<Rightarrow> 'w ReconciliationService \<Rightarrow> nat option" where
  "index_for exchange s =
     find_slot (\<lambda>st. st_exchange st = exchange) (take (rc_connector_count s) (rc_states s))"

definition find_state :: "Exchange \<Rightarrow> 'w ReconciliationService \<Rightarrow> VenueState option" where
  "find_state exchange s =
     map_option ((!) (rc_states s))
       (find_slot (\<lambda>st. st_registered st \<and> st_exchange st = exchange)
         (take (rc_connector_count s) (rc_states s)))"

definition set_canonical_snapshot ::
  "Exchange \<Rightarrow> ReconciliationSnapshot \<Rightarrow> 'w ReconciliationService \<Rightarrow> bool \<times> 'w ReconciliationService" where
  "set_canonical_snapshot exchange snap s =
     (case index_for exchange s of
        None \<Rightarrow> (False, s)
      | Some i \<Rightarrow> (True, s\<lparr>rc_canonical_snapshots := (rc_canonical_snapshots s)[i := snap],
                           rc_has_canonical_snapshot := (rc_has_canonical_snapshot s)[i := True]\<rparr>))"

definition set_canonical_snapshot_fetcher ::
  "Exchange \<Rightarrow> 'w Fetcher option \<Rightarrow> 'w ReconciliationService \<Rightarrow> bool \<times> 'w ReconciliationService" where
  "set_canonical_snapshot_fetcher exchange fetcher s =
     (case index_for exchange s of
        None \<Rightarrow> (False, s)
      | Some i \<Rightarrow> (True, s\<lparr>rc_canonical_snapshot_fetchers := (rc_canonical_snapshot_fetchers s)[i := fetcher]\<rparr>))"

definition bind_position_ledger :: "PositionLedger option \<Rightarrow> 'w ReconciliationService \<Rightarrow> 'w ReconciliationService" where
  "bind_position_ledger ledger s = s\<lparr>rc_position_ledger := ledger\<rparr>"

definition mark_reconnect_required :: "Exchange \<Rightarrow> 'w ReconciliationService \<Rightarrow> bool \<times> 'w ReconciliationService" where
  "mark_reconnect_required exchange s =
     (case index_for exchange s of
        None \<Rightarrow> (False, s)
      | Some i \<Rightarrow> (True, s\<lparr>rc_reconnect_required := (rc_reconnect_required s)[i := True]\<rparr>))"

definition is_quarantined :: "Exchange \<Rightarrow> 'w ReconciliationService \<Rightarrow> bool" where
  "is_quarantined exchange s = (case find_state exchange s of Some st \<Rightarrow> st_quarantined st | None \<Rightarrow> False)"

definition latest_snapshot_for :: "Exchange \<Rightarrow> 'w ReconciliationService \<Rightarrow> ReconciliationSnapshot option" where
  "latest_snapshot_for exchange s =
     (case index_for exchange s of
        None \<Rightarrow> None
      | Some i \<Rightarrow> if \<not> rc_has_latest_snapshot s ! i then None else Some (rc_latest_snapshots s ! i))"

definition set_cancel_all_hook :: "'w Hook option \<Rightarrow> 'w ReconciliationService \<Rightarrow> 'w ReconciliationService" where
  "set_cancel_all_hook hook s = s\<lparr>rc_cancel_all_hook := hook\<rparr>"

definition set_risk_halt_hook :: "'w Hook option \<Rightarrow> 'w ReconciliationService \<Rightarrow> 'w ReconciliationService" where
  "set_risk_halt_hook hook s = s\<lparr>rc_risk_halt_hook := hook\<rparr>"

section \<open>Classifying a snapshot\<close>

definition drift :: "double \<Rightarrow> double \<Rightarrow> double" where
  "drift a b = \<bar>a - b\<bar>"

definition mismatch ::
  "MismatchClass \<Rightarrow> DriftAction \<Rightarrow> SeverityLevel \<Rightarrow> string \<Rightarrow> bool \<Rightarrow> DriftDecision \<Rightarrow> DriftDecision" where
  "mismatch mismatch_class action severity reason quarantine out =
     out\<lparr>dd_mismatch := True, dd_mismatch_class := mismatch_class, dd_action := action,
         dd_severity := severity, dd_quarantine := quarantine, dd_reason := Some reason\<rparr>"

definition classify_order_drift :: "MismatchClass \<Rightarrow> string \<Rightarrow> DriftDecision \<Rightarrow> DriftDecision" where
  "classify_order_drift mismatch_class reason out =
     out\<lparr>dd_mismatch := True, dd_mismatch_class := mismatch_class, dd_reason := Some reason,
         dd_action := CANCEL_ALL_ORDERS, dd_severity := WARNING\<rparr>"

definition classify_fill_gap :: "DriftDecision \<Rightarrow> DriftDecision" where
  "classify_fill_gap out =
     out\<lparr>dd_mismatch := True, dd_mismatch_class := FILL_GAP, dd_reason := Some ''fill_gap'',
         dd_action := REQUEST_FILL_REPLAY, dd_severity := WARNING\<rparr>"

definition classify_snapshot_failure ::
  "RemediationPolicy \<Rightarrow> VenueState \<Rightarrow> ConnectorResult \<Rightarrow> string \<Rightarrow> DriftDecision \<Rightarrow> VenueState \<times> DriftDecision" where
  "classify_snapshot_failure policy state res failure_reason out =
     (let retries = st_snapshot_failure_retries state + 1;
          state = state\<lparr>st_snapshot_failure_retries := retries\<rparr>;
          out = out\<lparr>dd_mismatch := True, dd_retry_count := retries, dd_reason := Some failure_reason\<rparr>
      in (state,
          if res = AUTH_FAILED \<or> retries > po_snapshot_failure_retry_budget policy then
            out\<lparr>dd_action := QUARANTINE_VENUE, dd_severity := CRITICAL, dd_quarantine := True\<rparr>
          else out\<lparr>dd_action := CANCEL_ALL_ORDERS, dd_severity := WARNING\<rparr>))"

text \<open>The reason a record fails the sanity check, in the order of the tests.\<close>

definition order_insane :: "DriftThresholds \<Rightarrow> ReconciledOrder \<Rightarrow> string option" where
  "order_insane th order =
     (if ro_quantity order < 0 \<or> ro_filled_quantity order < 0 then Some ''negative order quantity''
      else let remaining = ro_quantity order - ro_filled_quantity order in
        if remaining < - th_max_order_fill_gap th then Some ''order overfilled'' else None)"

definition balance_insane :: "DriftThresholds \<Rightarrow> ReconciledBalance \<Rightarrow> string option" where
  "balance_insane th balance =
     (if rb_total balance - rb_available balance < - th_max_balance_drift th
      then Some ''balance available exceeds total'' else None)"

definition position_insane :: "DriftThresholds \<Rightarrow> ReconciledPosition \<Rightarrow> string option" where
  "position_insane th position =
     (if rp_avg_entry_price position < 0 then Some ''negative average entry price''
      else if rp_quantity position > 0 \<and> rp_avg_entry_price position \<le> th_max_position_drift th
      then Some ''positive position with invalid entry''
      else if rp_leverage position < 0 then Some ''negative leverage'' else None)"

definition fill_insane :: "DriftThresholds \<Rightarrow> ReconciledFill \<Rightarrow> string option" where
  "fill_insane th fill =
     (if rf_quantity fill < 0 \<or> rf_price fill < 0 \<or> rf_notional fill < 0 \<or> rf_fee fill < 0
      then Some ''negative fill values''
      else if rf_notional fill > 0 \<and>
              drift (rf_notional fill) (rf_quantity fill * rf_price fill) > th_max_fill_notional_drift th
      then Some ''fill notional mismatch'' else None)"

primrec first_reason :: "('a \<Rightarrow> string option) \<Rightarrow> 'a list \<Rightarrow> string option" where
  "first_reason f [] = None"
| "first_reason f (x # xs) = (case f x of Some r \<Rightarrow> Some r | None \<Rightarrow> first_reason f xs)"

definition insane_reason :: "DriftThresholds \<Rightarrow> ReconciliationSnapshot \<Rightarrow> string option" where
  "insane_reason th snap =
     (case first_reason (order_insane th) (rs_open_orders snap) of Some r \<Rightarrow> Some r | None \<Rightarrow>
      (case first_reason (balance_insane th) (rs_balances snap) of Some r \<Rightarrow> Some r | None \<Rightarrow>
      (case first_reason (position_insane th) (rs_positions snap) of Some r \<Rightarrow> Some r | None \<Rightarrow>
       first_reason (fill_insane th) (rs_fills snap))))"

text \<open>\<open>out\<close> is the function's own uninitialised decision, \<open>made\<close> the one a helper fills in.\<close>

definition evaluate_snapshot_sanity ::
  "DriftThresholds \<Rightarrow> ReconciliationSnapshot \<Rightarrow> DriftDecision \<Rightarrow> DriftDecision \<Rightarrow> DriftDecision" where
  "evaluate_snapshot_sanity th snap out made =
     (case insane_reason th snap of
        Some r \<Rightarrow> mismatch M_NONE QUARANTINE_VENUE CRITICAL r True made
      | None \<Rightarrow> out)"

definition order_matches :: "ReconciledOrder \<Rightarrow> ReconciledOrder \<Rightarrow> bool" where
  "order_matches key candidate \<longleftrightarrow>
     (ro_client_order_id candidate \<noteq> 0 \<and> ro_client_order_id key \<noteq> 0 \<and>
      ro_client_order_id candidate = ro_client_order_id key) \<or>
     (ro_venue_order_id candidate \<noteq> [] \<and> ro_venue_order_id key \<noteq> [] \<and>
      ro_venue_order_id candidate = ro_venue_order_id key)"

definition find_order :: "ReconciliationSnapshot \<Rightarrow> ReconciledOrder \<Rightarrow> ReconciledOrder option" where
  "find_order snap key = find (order_matches key) (rs_open_orders snap)"

definition find_balance :: "ReconciliationSnapshot \<Rightarrow> string \<Rightarrow> ReconciledBalance option" where
  "find_balance snap asset = find (\<lambda>c. rb_asset c = asset) (rs_balances snap)"

definition find_position :: "ReconciliationSnapshot \<Rightarrow> string \<Rightarrow> string \<Rightarrow> ReconciledPosition option" where
  "find_position snap symbol position_side =
     find (\<lambda>c. rp_symbol c = symbol \<and> rp_position_side c = position_side) (rs_positions snap)"

section \<open>The ledger of fills\<close>

definition fill_same_identity :: "FillIdentity \<Rightarrow> FillIdentity \<Rightarrow> bool" where
  "fill_same_identity lhs rhs \<longleftrightarrow>
     (if fi_exchange lhs \<noteq> fi_exchange rhs then False
      else if fi_venue_trade_id lhs \<noteq> [] \<and> fi_venue_trade_id rhs \<noteq> [] \<and>
              fi_venue_trade_id lhs = fi_venue_trade_id rhs then True
      else if fi_client_order_id lhs \<noteq> 0 \<and> fi_client_order_id rhs \<noteq> 0 \<and>
              fi_client_order_id lhs = fi_client_order_id rhs \<and>
              fi_exchange_ts_ns lhs = fi_exchange_ts_ns rhs \<and>
              drift (fi_quantity lhs) (fi_quantity rhs) \<le> lit (1 / 10 ^ 12) \<and>
              drift (fi_price lhs) (fi_price rhs) \<le> lit (1 / 10 ^ 12) then True
      else if fi_venue_order_id lhs \<noteq> [] \<and> fi_venue_order_id rhs \<noteq> [] \<and>
              fi_venue_order_id lhs = fi_venue_order_id rhs \<and>
              fi_exchange_ts_ns lhs = fi_exchange_ts_ns rhs \<and>
              drift (fi_quantity lhs) (fi_quantity rhs) \<le> lit (1 / 10 ^ 12) \<and>
              drift (fi_price lhs) (fi_price rhs) \<le> lit (1 / 10 ^ 12) then True
      else False)"

definition identity_of :: "ReconciledFill \<Rightarrow> FillIdentity" where
  "identity_of fill = \<lparr>fi_client_order_id = rf_client_order_id fill,
     fi_venue_order_id = rf_venue_order_id fill, fi_venue_trade_id = rf_venue_trade_id fill,
     fi_exchange_ts_ns = rf_exchange_ts_ns fill, fi_quantity = rf_quantity fill,
     fi_price = rf_price fill, fi_exchange = rf_exchange fill\<rparr>"

definition mk_FillLedger :: FillLedger where
  "mk_FillLedger = \<lparr>fl_cum_qty = 0, fl_cum_notional = 0, fl_cum_fee = 0, fl_unique_fill_count = 0,
     fl_overflow = False\<rparr>"

definition ledger_add :: "ReconciledFill \<Rightarrow> FillLedger \<Rightarrow> FillLedger" where
  "ledger_add fill ledger =
     (let computed_notional = (if rf_notional fill > 0 then rf_notional fill
                               else rf_quantity fill * rf_price fill)
      in ledger\<lparr>fl_cum_qty := fl_cum_qty ledger + rf_quantity fill,
                fl_cum_notional := fl_cum_notional ledger + computed_notional,
                fl_cum_fee := fl_cum_fee ledger + rf_fee fill,
                fl_unique_fill_count := fl_unique_fill_count ledger + 1\<rparr>)"

fun fill_loop :: "ReconciledFill list \<Rightarrow> FillIdentity list \<Rightarrow> FillLedger \<Rightarrow> bool \<times> FillLedger" where
  "fill_loop [] dedupe_keys ledger = (True, ledger)"
| "fill_loop (fill # fills) dedupe_keys ledger =
     (let key = identity_of fill in
      if list_ex (fill_same_identity key) dedupe_keys then fill_loop fills dedupe_keys ledger
      else if length dedupe_keys \<ge> MAX_FILL_KEYS then (False, ledger\<lparr>fl_overflow := True\<rparr>)
      else fill_loop fills (dedupe_keys @ [key]) (ledger_add fill ledger))"

definition build_fill_ledger :: "ReconciliationSnapshot \<Rightarrow> bool \<times> FillLedger" where
  "build_fill_ledger snap = fill_loop (rs_fills snap) [] mk_FillLedger"

definition fill_gap_detected :: "DriftThresholds \<Rightarrow> ReconciliationSnapshot \<Rightarrow> ReconciliationSnapshot \<Rightarrow> bool" where
  "fill_gap_detected th venue canonical =
     (case build_fill_ledger venue of (False, _) \<Rightarrow> True | (True, venue_ledger) \<Rightarrow>
      (case build_fill_ledger canonical of (False, _) \<Rightarrow> True | (True, canonical_ledger) \<Rightarrow>
        drift (fl_cum_qty venue_ledger) (fl_cum_qty canonical_ledger) > th_max_order_fill_gap th \<or>
        drift (fl_cum_notional venue_ledger) (fl_cum_notional canonical_ledger) > th_max_fill_notional_drift th \<or>
        drift (fl_cum_fee venue_ledger) (fl_cum_fee canonical_ledger) > th_max_fill_fee_drift th))"

section \<open>Drift against the canonical snapshot\<close>

primrec order_drift_loop ::
  "DriftThresholds \<Rightarrow> ReconciliationSnapshot \<Rightarrow> ReconciledOrder list \<Rightarrow> DriftDecision \<Rightarrow> DriftDecision option" where
  "order_drift_loop th venue [] made = None"
| "order_drift_loop th venue (internal_order # orders) made =
     (case find_order venue internal_order of
        None \<Rightarrow> Some (classify_order_drift MISSING_ORDER ''missing_order'' made)
      | Some venue_order \<Rightarrow>
          if drift (ro_quantity venue_order) (ro_quantity internal_order) > th_max_order_fill_gap th \<or>
             drift (ro_filled_quantity venue_order) (ro_filled_quantity internal_order) > th_max_order_fill_gap th
          then Some (classify_order_drift QTY_DRIFT ''qty_drift'' made)
          else order_drift_loop th venue orders made)"

definition balance_drifts :: "DriftThresholds \<Rightarrow> ReconciliationSnapshot \<Rightarrow> ReconciledBalance \<Rightarrow> bool" where
  "balance_drifts th venue internal_balance =
     (case find_balance venue (rb_asset internal_balance) of
        None \<Rightarrow> True
      | Some venue_balance \<Rightarrow>
          drift (rb_total venue_balance) (rb_total internal_balance) > th_max_balance_drift th \<or>
          drift (rb_available venue_balance) (rb_available internal_balance) > th_max_balance_drift th)"

definition position_drifts :: "DriftThresholds \<Rightarrow> ReconciliationSnapshot \<Rightarrow> ReconciledPosition \<Rightarrow> bool" where
  "position_drifts th venue internal_position =
     (case find_position venue (rp_symbol internal_position) (rp_position_side internal_position) of
        None \<Rightarrow> True
      | Some venue_position \<Rightarrow>
          drift (rp_quantity venue_position) (rp_quantity internal_position) > th_max_position_drift th \<or>
          drift (rp_avg_entry_price venue_position) (rp_avg_entry_price internal_position) > th_max_position_drift th)"

definition evaluate_drift ::
  "DriftThresholds \<Rightarrow> ReconciliationSnapshot \<Rightarrow> ReconciliationSnapshot \<Rightarrow> DriftDecision \<Rightarrow> DriftDecision \<Rightarrow> DriftDecision" where
  "evaluate_drift th venue canonical uninit made =
     (let out = evaluate_snapshot_sanity th venue uninit made in
      if dd_mismatch out then out
      else case order_drift_loop th venue (rs_open_orders canonical) made of
        Some decision \<Rightarrow> decision
      | None \<Rightarrow>
        if list_ex (\<lambda>venue_order. find_order canonical venue_order = None) (rs_open_orders venue)
        then classify_order_drift MISSING_ORDER ''missing_order'' made
        else if fill_gap_detected th venue canonical then classify_fill_gap made
        else if list_ex (balance_drifts th venue) (rs_balances canonical)
        then mismatch BALANCE_DRIFT RISK_HALT_RECOMMENDED CRITICAL ''balance_drift'' True made
        else if list_ex (position_drifts th venue) (rs_positions canonical)
        then mismatch POSITION_DRIFT RISK_HALT_RECOMMENDED CRITICAL ''position_drift'' True made
        else out)"

section \<open>Applying a decision\<close>

definition record_incident ::
  "nat \<Rightarrow> DriftDecision \<Rightarrow> bool \<Rightarrow> int \<Rightarrow> 'w ReconciliationService \<Rightarrow> rc_fault + 'w ReconciliationService" where
  "record_incident idx decision reconnect_phase now s =
     (let n = rc_incident_count s in
      if n \<ge> MAX_INCIDENT_TRAIL then
        Inr (s\<lparr>rc_dropped_incident_count := rc_dropped_incident_count s + 1\<rparr>)
      else case dd_reason decision of
        None \<Rightarrow> Inl Wild_Reason
      | Some reason \<Rightarrow>
          Inr (s\<lparr>rc_incident_trail := (rc_incident_trail s)[n :=
                   \<lparr>in_ts_ns = now, in_exchange = st_exchange (rc_states s ! idx),
                    in_mismatch_class = dd_mismatch_class decision, in_action = dd_action decision,
                    in_severity = dd_severity decision, in_reconnect_phase = reconnect_phase,
                    in_retry_count = dd_retry_count decision, in_reason = buf_copy 48 reason\<rparr>],
                 rc_incident_count := n + 1\<rparr>))"

definition run_hook ::
  "DriftAction \<Rightarrow> 'w Hook option \<Rightarrow> Exchange \<Rightarrow> DriftDecision \<Rightarrow> 'w \<Rightarrow> rc_fault + 'w" where
  "run_hook action hook exchange decision w =
     (case hook of
        None \<Rightarrow> Inr w
      | Some h \<Rightarrow>
          if dd_action decision = action then
            (case dd_reason decision of
               None \<Rightarrow> Inl Wild_Reason
             | Some reason \<Rightarrow> Inr (h exchange (dd_mismatch_class decision) reason w))
          else Inr w)"

definition fire_hook ::
  "Exchange \<Rightarrow> DriftDecision \<Rightarrow> 'w ReconciliationService \<Rightarrow> 'w \<Rightarrow> rc_fault + 'w" where
  "fire_hook exchange decision s w =
     (case run_hook CANCEL_ALL_ORDERS (rc_cancel_all_hook s) exchange decision w of
        Inl e \<Rightarrow> Inl e
      | Inr w \<Rightarrow> run_hook RISK_HALT_RECOMMENDED (rc_risk_halt_hook s) exchange decision w)"

text \<open>The retry counters and what becomes of the decision once a budget is spent.\<close>

definition escalate :: "RemediationPolicy \<Rightarrow> VenueState \<Rightarrow> DriftDecision \<Rightarrow> VenueState \<times> DriftDecision" where
  "escalate policy state decision =
     (let halt = (\<lambda>d. d\<lparr>dd_mismatch_class := M_NONE, dd_action := RISK_HALT_RECOMMENDED,
                        dd_severity := CRITICAL, dd_quarantine := True\<rparr>) in
      if dd_mismatch_class decision = FILL_GAP then
        (let retries = st_fill_gap_retries state + 1;
             state = state\<lparr>st_fill_gap_retries := retries\<rparr>;
             decision = decision\<lparr>dd_retry_count := retries\<rparr>
         in if retries > po_fill_gap_retry_budget policy then (state, halt decision)
            else (state\<lparr>st_fill_replay_requests := st_fill_replay_requests state + 1\<rparr>, decision))
      else if dd_mismatch_class decision = MISSING_ORDER \<or> dd_mismatch_class decision = QTY_DRIFT then
        (let retries = st_order_drift_retries state + 1;
             state = state\<lparr>st_order_drift_retries := retries\<rparr>;
             decision = decision\<lparr>dd_retry_count := retries\<rparr>
         in if retries > po_order_drift_retry_budget policy then (state, halt decision)
            else (state, decision))
      else (state, decision))"

definition decision_quarantines :: "DriftDecision \<Rightarrow> bool" where
  "decision_quarantines d \<longleftrightarrow>
     dd_quarantine d \<or> dd_action d = QUARANTINE_VENUE \<or> dd_action d = RISK_HALT_RECOMMENDED"

definition apply_decision ::
  "'w World \<Rightarrow> nat \<Rightarrow> DriftDecision \<Rightarrow> bool \<Rightarrow> 'w ReconciliationService \<times> 'w
    \<Rightarrow> rc_fault + ('w ReconciliationService \<times> 'w)" where
  "apply_decision wd idx decision reconnect_phase = (\<lambda>(s, w).
     (case escalate (rc_policy s) (rc_states s ! idx) decision of
        (state, decision) \<Rightarrow>
          let state = state\<lparr>st_last_mismatch := dd_mismatch_class decision,
                            st_last_action := dd_action decision,
                            st_last_severity := dd_severity decision\<rparr>;
              s = update_state idx (\<lambda>_. state) s
          in case record_incident idx decision reconnect_phase (wd_now_ns wd w) s of
               Inl e \<Rightarrow> Inl e
             | Inr s \<Rightarrow>
          (case fire_hook (st_exchange state) decision s w of
               Inl e \<Rightarrow> Inl e
             | Inr w \<Rightarrow>
                 if decision_quarantines decision then
                   (case dd_reason decision of
                      None \<Rightarrow> Inl Wild_Reason
                    | Some _ \<Rightarrow>
                        Inr (update_state idx (\<lambda>st. st\<lparr>st_quarantined := True,
                               st_mismatch_count := st_mismatch_count st + 1\<rparr>) s, w))
                 else Inr (s, w))))"

definition reset_drift_retries :: "nat \<Rightarrow> 'w ReconciliationService \<Rightarrow> 'w ReconciliationService" where
  "reset_drift_retries idx = update_state idx (\<lambda>st. st\<lparr>st_order_drift_retries := 0, st_fill_gap_retries := 0\<rparr>)"

definition reset_snapshot_failures :: "nat \<Rightarrow> 'w ReconciliationService \<Rightarrow> 'w ReconciliationService" where
  "reset_snapshot_failures idx = update_state idx (\<lambda>st. st\<lparr>st_snapshot_failure_retries := 0\<rparr>)"

section \<open>A cycle\<close>

text \<open>
  One iteration of the loop: \<open>Some res\<close> is a return out of the loop, \<open>None\<close> goes on with the
  next connector. \<open>g\<close> holds the garbage of the decisions the iteration declares.
\<close>

definition give_up ::
  "ConnectorResult \<Rightarrow> rc_fault + ('w ReconciliationService \<times> 'w)
    \<Rightarrow> rc_fault + (ConnectorResult option \<times> 'w ReconciliationService \<times> 'w)" where
  "give_up res = map_sum id (\<lambda>(s, w). (Some res, s, w))"

definition snapshot_failed ::
  "'w World \<Rightarrow> DriftDecision \<Rightarrow> nat \<Rightarrow> bool \<Rightarrow> ConnectorResult \<Rightarrow> string \<Rightarrow> 'w ReconciliationService \<times> 'w
    \<Rightarrow> rc_fault + (ConnectorResult option \<times> 'w ReconciliationService \<times> 'w)" where
  "snapshot_failed wd out i reconnect_phase res reason = (\<lambda>(s, w).
     (case classify_snapshot_failure (rc_policy s) (rc_states s ! i) res reason out of
        (state, decision) \<Rightarrow>
          give_up res (apply_decision wd i decision reconnect_phase (update_state i (\<lambda>_. state) s, w))))"

definition accept_snapshot ::
  "'w World \<Rightarrow> nat \<Rightarrow> bool \<Rightarrow> ReconciliationSnapshot \<Rightarrow> 'w ReconciliationService \<times> 'w \<Rightarrow> 'w ReconciliationService" where
  "accept_snapshot wd i reconnect_phase snap = (\<lambda>(s, w).
     (let ts_ns = wd_now_ns wd w;
          s = update_state i (\<lambda>st. if reconnect_phase
                then st\<lparr>st_last_reconcile_ts_ns := ts_ns, st_mismatch_count := 0\<rparr>
                else st\<lparr>st_last_drift_check_ts_ns := ts_ns\<rparr>) s;
          s = s\<lparr>rc_position_ledger := map_option
                  (reconcile_positions (st_exchange (rc_states s ! i)) snap (wd_now_ns wd w) (wd_steady_ns wd w))
                  (rc_position_ledger s)\<rparr>;
          s = update_state i (\<lambda>st. st\<lparr>st_last_mismatch := M_NONE, st_last_action := A_NONE,
                st_last_severity := INFO\<rparr>) s
      in reset_drift_retries i s))"

definition judge_snapshot ::
  "'w World \<Rightarrow> DriftDecision \<times> DriftDecision \<Rightarrow> nat \<Rightarrow> bool \<Rightarrow> ReconciliationSnapshot
    \<Rightarrow> 'w ReconciliationService \<times> 'w
    \<Rightarrow> rc_fault + (ConnectorResult option \<times> 'w ReconciliationService \<times> 'w)" where
  "judge_snapshot wd g i reconnect_phase snap = (\<lambda>(s, w).
     (let judge = (\<lambda>decision s w.
            if dd_mismatch decision
            then give_up ERROR_UNKNOWN (apply_decision wd i decision reconnect_phase (s, w))
            else Inr (None, accept_snapshot wd i reconnect_phase snap (s, w), w))
      in case rc_canonical_snapshot_fetchers s ! i of
           Some fetcher \<Rightarrow>
             (case fetcher rs_empty w of
                (False, _, w) \<Rightarrow>
                  give_up ERROR_UNKNOWN (apply_decision wd i
                    (mismatch M_NONE QUARANTINE_VENUE CRITICAL ''canonical snapshot fetch failed'' True (snd g))
                    reconnect_phase (s, w))
              | (True, canonical, w) \<Rightarrow>
                  judge (evaluate_drift (rc_thresholds s) snap canonical (fst g) (snd g)) s w)
         | None \<Rightarrow>
             if rc_has_canonical_snapshot s ! i
             then judge (evaluate_drift (rc_thresholds s) snap (rc_canonical_snapshots s ! i) (fst g) (snd g)) s w
             else judge (evaluate_snapshot_sanity (rc_thresholds s) snap (fst g) (snd g)) s w))"

definition take_snapshot ::
  "'w World \<Rightarrow> DriftDecision \<times> DriftDecision \<Rightarrow> nat \<Rightarrow> nat \<Rightarrow> bool \<Rightarrow> 'w ReconciliationService \<times> 'w
    \<Rightarrow> rc_fault + (ConnectorResult option \<times> 'w ReconciliationService \<times> 'w)" where
  "take_snapshot wd g connector i reconnect_phase = (\<lambda>(s, w).
     (case wd_fetch wd connector rs_empty w of
        (res, snap, w) \<Rightarrow>
          if res \<noteq> C_OK then
            snapshot_failed wd (snd g) i reconnect_phase res
              (if reconnect_phase then ''snapshot fetch failed'' else ''periodic snapshot fetch failed'') (s, w)
          else
            judge_snapshot wd g i reconnect_phase snap
              (reset_snapshot_failures i
                 (s\<lparr>rc_latest_snapshots := (rc_latest_snapshots s)[i := snap],
                    rc_has_latest_snapshot := (rc_has_latest_snapshot s)[i := True]\<rparr>), w)))"

definition visit_connector ::
  "'w World \<Rightarrow> (nat \<Rightarrow> DriftDecision \<times> DriftDecision) \<Rightarrow> bool \<Rightarrow> nat \<Rightarrow> 'w ReconciliationService \<times> 'w
    \<Rightarrow> rc_fault + (ConnectorResult option \<times> 'w ReconciliationService \<times> 'w)" where
  "visit_connector wd g reconnect_phase i = (\<lambda>(s, w).
     (if st_quarantined (rc_states s ! i) then Inr (None, s, w)
      else case rc_connectors s ! i of
        None \<Rightarrow> Inl Null_Connector
      | Some connector \<Rightarrow>
          if reconnect_phase \<and> rc_reconnect_required s ! i then
            (case wd_reconcile wd connector w of
               (local_res, w) \<Rightarrow>
                 let s = s\<lparr>rc_reconnect_required := (rc_reconnect_required s)[i := False]\<rparr> in
                 if local_res \<noteq> C_OK
                 then snapshot_failed wd (snd (g i)) i reconnect_phase local_res ''local reconcile failed'' (s, w)
                 else take_snapshot wd (g i) connector i reconnect_phase (s, w))
          else take_snapshot wd (g i) connector i reconnect_phase (s, w)))"

primrec cycle_loop ::
  "'w World \<Rightarrow> (nat \<Rightarrow> DriftDecision \<times> DriftDecision) \<Rightarrow> bool \<Rightarrow> nat list \<Rightarrow> 'w ReconciliationService \<times> 'w
    \<Rightarrow> rc_fault + (ConnectorResult \<times> 'w ReconciliationService \<times> 'w)" where
  "cycle_loop wd g reconnect_phase [] sw = Inr (C_OK, sw)"
| "cycle_loop wd g reconnect_phase (i # is) sw =
     (case visit_connector wd g reconnect_phase i sw of
        Inl e \<Rightarrow> Inl e
      | Inr (Some res, sw) \<Rightarrow> Inr (res, sw)
      | Inr (None, sw) \<Rightarrow> cycle_loop wd g reconnect_phase is sw)"

definition run_reconciliation_cycle ::
  "'w World \<Rightarrow> (nat \<Rightarrow> DriftDecision \<times> DriftDecision) \<Rightarrow> bool \<Rightarrow> 'w ReconciliationService \<times> 'w
    \<Rightarrow> rc_fault + (ConnectorResult \<times> 'w ReconciliationService \<times> 'w)" where
  "run_reconciliation_cycle wd g reconnect_phase sw =
     cycle_loop wd g reconnect_phase [0..<rc_connector_count (fst sw)] sw"

definition reconcile_on_reconnect where
  "reconcile_on_reconnect wd g sw = run_reconciliation_cycle wd g True sw"

definition run_periodic_drift_check where
  "run_periodic_drift_check wd g sw = run_reconciliation_cycle wd g False sw"

section \<open>What an operation leaves alone\<close>

text \<open>
  A call for slot \<open>i\<close> changes no other slot's state, and the incident trail only grows: an
  incident, once recorded, stays as it was.
\<close>

definition frame :: "nat \<Rightarrow> 'w ReconciliationService \<Rightarrow> 'w ReconciliationService \<Rightarrow> bool" where
  "frame i s s' \<longleftrightarrow>
     length (rc_states s') = length (rc_states s) \<and> rc_connectors s' = rc_connectors s \<and>
     rc_connector_count s' = rc_connector_count s \<and> rc_policy s' = rc_policy s \<and>
     rc_thresholds s' = rc_thresholds s \<and>
     (\<forall>j. j \<noteq> i \<longrightarrow> rc_states s' ! j = rc_states s ! j) \<and>
     length (rc_incident_trail s') = length (rc_incident_trail s) \<and>
     rc_incident_count s \<le> rc_incident_count s' \<and>
     (rc_incident_count s \<le> MAX_INCIDENT_TRAIL \<longrightarrow> rc_incident_count s' \<le> MAX_INCIDENT_TRAIL) \<and>
     (\<forall>k < rc_incident_count s. rc_incident_trail s' ! k = rc_incident_trail s ! k)"

lemma frame_refl [simp]: "frame i s s"
  by (simp add: frame_def)

lemma frame_trans: "frame i s s' \<Longrightarrow> frame i s' s'' \<Longrightarrow> frame i s s''"
  by (auto simp: frame_def)

lemma frame_state: "frame i s s' \<Longrightarrow> j \<noteq> i \<Longrightarrow> rc_states s' ! j = rc_states s ! j"
  by (simp add: frame_def)

lemma frame_update_state [simp]: "frame i s (update_state i f s)"
  by (simp add: frame_def update_state_def)

lemma frame_resets [simp]: "frame i s (reset_drift_retries i s)" "frame i s (reset_snapshot_failures i s)"
  by (simp_all add: reset_drift_retries_def reset_snapshot_failures_def)

lemma frame_fields [simp]:
  "frame i s (s\<lparr>rc_reconnect_required := r\<rparr>)" "frame i s (s\<lparr>rc_position_ledger := l\<rparr>)"
  "frame i s (s\<lparr>rc_latest_snapshots := ls, rc_has_latest_snapshot := h\<rparr>)"
  by (simp_all add: frame_def)

lemma frame_record_incident:
  assumes "record_incident i d ph now s = Inr s'" shows "frame i s s'"
proof (cases "rc_incident_count s \<ge> MAX_INCIDENT_TRAIL")
  case True
  with assms show ?thesis by (auto simp: record_incident_def frame_def)
next
  case False
  with assms show ?thesis by (cases "dd_reason d") (auto simp: record_incident_def frame_def Let_def)
qed

lemma frame_apply_decision:
  assumes "apply_decision wd i d ph (s, w) = Inr (s', w')" shows "frame i s s'"
proof -
  obtain st d1 where e: "escalate (rc_policy s) (rc_states s ! i) d = (st, d1)" by (cases "escalate (rc_policy s) (rc_states s ! i) d")
  let ?st = "st\<lparr>st_last_mismatch := dd_mismatch_class d1, st_last_action := dd_action d1, st_last_severity := dd_severity d1\<rparr>"
  let ?s1 = "update_state i (\<lambda>_. ?st) s"
  obtain s2 where r: "record_incident i d1 ph (wd_now_ns wd w) ?s1 = Inr s2"
    using assms e by (cases "record_incident i d1 ph (wd_now_ns wd w) ?s1") (auto simp: apply_decision_def Let_def)
  have 2: "frame i s s2"
    by (rule frame_trans[OF frame_update_state frame_record_incident[OF r]])
  obtain w2 where f: "fire_hook (st_exchange ?st) d1 s2 w = Inr w2"
    using assms e r by (cases "fire_hook (st_exchange ?st) d1 s2 w") (auto simp: apply_decision_def Let_def)
  from assms e r f have "s' = s2 \<or> (\<exists>f. s' = update_state i f s2)"
    by (auto simp: apply_decision_def Let_def split: if_splits option.splits)
  then show ?thesis using frame_trans[OF 2 frame_update_state] 2 by auto
qed

lemma give_up_Inr: "give_up res x = Inr (r, s, w) \<longleftrightarrow> r = Some res \<and> x = Inr (s, w)"
  by (cases x) (auto simp: give_up_def)

lemma frame_snapshot_failed:
  assumes "snapshot_failed wd out i ph res why (s, w) = Inr (r, s', w')" shows "frame i s s'"
proof -
  obtain st d where c: "classify_snapshot_failure (rc_policy s) (rc_states s ! i) res why out = (st, d)"
    by (cases "classify_snapshot_failure (rc_policy s) (rc_states s ! i) res why out")
  with assms have "apply_decision wd i d ph (update_state i (\<lambda>_. st) s, w) = Inr (s', w')"
    by (simp add: snapshot_failed_def give_up_Inr)
  from frame_trans[OF frame_update_state frame_apply_decision[OF this]] show ?thesis .
qed

lemma frame_accept_snapshot [simp]: "frame i s (accept_snapshot wd i ph snap (s, w))"
proof -
  have "frame i s (update_state i f ((update_state i h s)\<lparr>rc_position_ledger := l\<rparr>))" for f h l
    by (intro frame_trans[OF frame_trans[OF frame_update_state frame_fields(2)] frame_update_state])
  from frame_trans[OF this frame_resets(1)] show ?thesis by (simp add: accept_snapshot_def Let_def)
qed

lemma frame_judge_snapshot:
  assumes "judge_snapshot wd g i ph snap (s, w) = Inr (r, s', w')" shows "frame i s s'"
proof -
  consider (applied) d v where "apply_decision wd i d ph (s, v) = Inr (s', w')"
    | (accepted) v where "s' = accept_snapshot wd i ph snap (s, v)"
  proof (cases "rc_canonical_snapshot_fetchers s ! i")
    case None
    with assms that show ?thesis by (auto simp: judge_snapshot_def Let_def give_up_Inr split: if_splits)
  next
    case (Some fetcher)
    obtain ok c v where "fetcher rs_empty w = (ok, c, v)" by (cases "fetcher rs_empty w")
    with Some assms that show ?thesis
      by (cases ok) (auto simp: judge_snapshot_def Let_def give_up_Inr split: if_splits)
  qed
  then show ?thesis by cases (auto dest: frame_apply_decision)
qed

lemma frame_take_snapshot:
  assumes "take_snapshot wd g c i ph (s, w) = Inr (r, s', w')" shows "frame i s s'"
proof -
  obtain res snap v where f: "wd_fetch wd c rs_empty w = (res, snap, v)" by (cases "wd_fetch wd c rs_empty w")
  show ?thesis
  proof (cases "res = C_OK")
    case True
    with f assms show ?thesis
      by (auto simp: take_snapshot_def intro: frame_trans[OF frame_trans[OF frame_fields(3) frame_resets(2)] frame_judge_snapshot])
  next
    case False
    with f assms show ?thesis by (auto simp: take_snapshot_def dest: frame_snapshot_failed)
  qed
qed

lemma frame_visit_connector:
  assumes "visit_connector wd g ph i (s, w) = Inr (r, s', w')" shows "frame i s s'"
proof (cases "st_quarantined (rc_states s ! i)")
  case False
  with assms obtain c where c: "rc_connectors s ! i = Some c"
    by (cases "rc_connectors s ! i") (auto simp: visit_connector_def)
  show ?thesis
  proof (cases "ph \<and> rc_reconnect_required s ! i")
    case True
    obtain res v where r: "wd_reconcile wd c w = (res, v)" by (cases "wd_reconcile wd c w")
    let ?s = "s\<lparr>rc_reconnect_required := (rc_reconnect_required s)[i := False]\<rparr>"
    from True r c False assms have "frame i ?s s'"
      by (auto simp: visit_connector_def Let_def split: if_splits dest: frame_snapshot_failed frame_take_snapshot)
    from frame_trans[OF frame_fields(1) this] show ?thesis .
  next
    case no: False
    with c False assms show ?thesis by (auto simp: visit_connector_def dest: frame_take_snapshot)
  qed
qed (use assms in \<open>simp add: visit_connector_def\<close>)

lemma visit_quarantined:
  "st_quarantined (rc_states s ! i) \<Longrightarrow> visit_connector wd g ph i (s, w) = Inr (None, s, w)"
  by (simp add: visit_connector_def)

text \<open>What holds of a cycle: it keeps what every visit keeps.\<close>

definition keeps :: "('w ReconciliationService \<Rightarrow> 'w ReconciliationService \<Rightarrow> bool) \<Rightarrow> bool" where
  "keeps R \<longleftrightarrow> (\<forall>s. R s s) \<and> (\<forall>s s' s''. R s s' \<longrightarrow> R s' s'' \<longrightarrow> R s s'')"

lemma cycle_keeps:
  assumes R: "keeps R"
    and v: "\<And>i s w r s' w'. visit_connector wd g ph i (s, w) = Inr (r, s', w') \<Longrightarrow> R s s'"
  shows "cycle_loop wd g ph is (s, w) = Inr (res, s', w') \<Longrightarrow> R s s'"
proof (induction "is" arbitrary: s w)
  case Nil
  with R show ?case by (simp add: keeps_def)
next
  case (Cons i is')
  from Cons.prems obtain r s1 w1 where 1: "visit_connector wd g ph i (s, w) = Inr (r, s1, w1)"
    by (cases "visit_connector wd g ph i (s, w)") auto
  show ?case
  proof (cases r)
    case None
    with 1 Cons.prems have "R s1 s'" by (intro Cons.IH) simp
    with v[OF 1] R show ?thesis unfolding keeps_def by blast
  next
    case (Some x)
    with 1 Cons.prems v[OF 1] show ?thesis by simp
  qed
qed

definition slot_frozen :: "nat \<Rightarrow> 'w ReconciliationService \<Rightarrow> 'w ReconciliationService \<Rightarrow> bool" where
  "slot_frozen j s s' \<longleftrightarrow> rc_connectors s' = rc_connectors s \<and> rc_connector_count s' = rc_connector_count s \<and>
     length (rc_states s') = length (rc_states s) \<and>
     (st_quarantined (rc_states s ! j) \<longrightarrow> rc_states s' ! j = rc_states s ! j)"

lemma slot_frozen_visit:
  assumes "visit_connector wd g ph i (s, w) = Inr (r, s', w')" shows "slot_frozen j s s'"
proof (cases "j = i \<and> st_quarantined (rc_states s ! i)")
  case True
  with assms show ?thesis by (simp add: visit_quarantined slot_frozen_def)
next
  case False
  with frame_visit_connector[OF assms] show ?thesis by (auto simp: slot_frozen_def frame_def)
qed

lemma slot_frozen_cycle:
  "run_reconciliation_cycle wd g ph (s, w) = Inr (res, s', w') \<Longrightarrow> slot_frozen j s s'"
  unfolding run_reconciliation_cycle_def
  by (rule cycle_keeps[where R = "slot_frozen j", OF _ slot_frozen_visit]) (auto simp: keeps_def slot_frozen_def)

section \<open>Quarantine\<close>

text \<open>The service's calls as a history: \<open>rc_run\<close> stops at the first undefined behaviour.\<close>

datatype 'w rc_op = Register nat Exchange | SetCanonical Exchange ReconciliationSnapshot
  | SetFetcher Exchange "'w Fetcher option" | BindLedger "PositionLedger option" | MarkReconnect Exchange
  | CancelAllHook "'w Hook option" | RiskHaltHook "'w Hook option"
  | Cycle "nat \<Rightarrow> DriftDecision \<times> DriftDecision" bool

fun rc_step ::
  "'w World \<Rightarrow> 'w rc_op \<Rightarrow> 'w ReconciliationService \<times> 'w \<Rightarrow> rc_fault + ('w ReconciliationService \<times> 'w)" where
  "rc_step wd (Register c e) (s, w) = Inr (snd (register_connector c e s), w)"
| "rc_step wd (SetCanonical e snap) (s, w) = Inr (snd (set_canonical_snapshot e snap s), w)"
| "rc_step wd (SetFetcher e f) (s, w) = Inr (snd (set_canonical_snapshot_fetcher e f s), w)"
| "rc_step wd (BindLedger l) (s, w) = Inr (bind_position_ledger l s, w)"
| "rc_step wd (MarkReconnect e) (s, w) = Inr (snd (mark_reconnect_required e s), w)"
| "rc_step wd (CancelAllHook h) (s, w) = Inr (set_cancel_all_hook h s, w)"
| "rc_step wd (RiskHaltHook h) (s, w) = Inr (set_risk_halt_hook h s, w)"
| "rc_step wd (Cycle g ph) (s, w) = map_sum id snd (run_reconciliation_cycle wd g ph (s, w))"

fun rc_run ::
  "'w World \<Rightarrow> 'w rc_op list \<Rightarrow> 'w ReconciliationService \<times> 'w \<Rightarrow> rc_fault + ('w ReconciliationService \<times> 'w)" where
  "rc_run wd [] sw = Inr sw"
| "rc_run wd (x # xs) sw = (case rc_step wd x sw of Inl e \<Rightarrow> Inl e | Inr sw \<Rightarrow> rc_run wd xs sw)"

definition latched :: "nat \<Rightarrow> 'w ReconciliationService \<Rightarrow> 'w ReconciliationService \<Rightarrow> bool" where
  "latched j s s' \<longleftrightarrow> (j < rc_connector_count s \<longrightarrow>
     j < rc_connector_count s' \<and> rc_connectors s' ! j = rc_connectors s ! j \<and>
     (st_quarantined (rc_states s ! j) \<longrightarrow> rc_states s' ! j = rc_states s ! j))"

lemma latched_trans: "latched j s s' \<Longrightarrow> latched j s' s'' \<Longrightarrow> latched j s s''"
  by (auto simp: latched_def)

lemma latched_step: "rc_step wd x (s, w) = Inr (s', w') \<Longrightarrow> latched j s s'"
proof (cases x)
  case (Cycle g ph)
  assume "rc_step wd x (s, w) = Inr (s', w')"
  then obtain res where "run_reconciliation_cycle wd g ph (s, w) = Inr (res, s', w')" by (auto simp: Cycle)
  from slot_frozen_cycle[OF this] show ?thesis by (auto simp: slot_frozen_def latched_def)
qed (auto simp: latched_def register_connector_def set_canonical_snapshot_def Let_def update_state_def
  set_canonical_snapshot_fetcher_def bind_position_ledger_def mark_reconnect_required_def
  set_cancel_all_hook_def set_risk_halt_hook_def split: option.splits)

lemma latched_run: "rc_run wd ops (s, w) = Inr (s', w') \<Longrightarrow> latched j s s'"
proof (induction ops arbitrary: s w)
  case Nil
  then show ?case by (simp add: latched_def)
next
  case (Cons x xs)
  then obtain s1 w1 where 1: "rc_step wd x (s, w) = Inr (s1, w1)" "rc_run wd xs (s1, w1) = Inr (s', w')"
    by (cases "rc_step wd x (s, w)") auto
  show ?case by (rule latched_trans[OF latched_step[OF 1(1)] Cons.IH[OF 1(2)]])
qed

definition quiet :: DriftDecision where
  "quiet = \<lparr>dd_mismatch = False, dd_mismatch_class = M_NONE, dd_action = A_NONE, dd_severity = INFO,
     dd_retry_count = 0, dd_quarantine = False, dd_reason = None\<rparr>"

text \<open>The engine's thresholds and budgets, and two venues: connector 7 refuses its credentials.\<close>

definition engine_thresholds :: DriftThresholds where
  "engine_thresholds = \<lparr>th_max_balance_drift = 0, th_max_position_drift = 0, th_max_order_fill_gap = 0,
     th_max_fill_notional_drift = 0, th_max_fill_fee_drift = 0\<rparr>"

definition engine_policy :: RemediationPolicy where
  "engine_policy = \<lparr>po_order_drift_retry_budget = 3, po_fill_gap_retry_budget = 3, po_snapshot_failure_retry_budget = 3\<rparr>"

definition two_venues :: "nat World" where
  "two_venues = \<lparr>wd_reconcile = (\<lambda>p w. (C_OK, w)),
     wd_fetch = (\<lambda>p snap w. (if p = 7 then AUTH_FAILED else C_OK, snap, w + 1)),
     wd_now_ns = int, wd_steady_ns = int\<rparr>"

definition rc_start :: "nat ReconciliationService" where
  "rc_start = mk_ReconciliationService engine_thresholds engine_policy 0 0 0"

lemmas rc_eval = two_venues_def rc_start_def mk_ReconciliationService_def engine_policy_def engine_thresholds_def
  register_connector_def update_state_def MAX_CONNECTORS_def run_reconciliation_cycle_def numeral_eq_Suc
  visit_connector_def take_snapshot_def snapshot_failed_def classify_snapshot_failure_def apply_decision_def
  escalate_def record_incident_def fire_hook_def run_hook_def decision_quarantines_def give_up_def
  judge_snapshot_def evaluate_snapshot_sanity_def insane_reason_def reset_snapshot_failures_def
  reset_drift_retries_def accept_snapshot_def rs_empty_def mk_VenueState_def Let_def quiet_def MAX_INCIDENT_TRAIL_def

text \<open>
  C32. Quarantine latches: whatever sequence of calls follows, registrations, canonical snapshots,
  reconnects and cycles included, the state of a quarantined venue never changes again. No
  operation of the service releases a venue.
\<close>
theorem quarantine_is_permanent:
  assumes "rc_run wd ops (s, w) = Inr (s', w')" "j < rc_connector_count s" "st_quarantined (rc_states s ! j)"
  shows "rc_states s' ! j = rc_states s ! j \<and> rc_connectors s' ! j = rc_connectors s ! j \<and> j < rc_connector_count s'"
  using latched_run[OF assms(1), of j] assms(2,3) by (simp add: latched_def)

theorem quarantine_is_permanent_witness:
  "\<exists>s w s' w'. rc_run two_venues [Register 7 OKX, Register 8 KRAKEN, Cycle (\<lambda>_. (quiet, quiet)) False] (rc_start, 0) = Inr (s, w) \<and>
     st_quarantined (rc_states s ! 0) \<and>
     rc_run two_venues [MarkReconnect OKX, Cycle (\<lambda>_. (quiet, quiet)) True] (s, w) = Inr (s', w') \<and>
     rc_states s' ! 0 = rc_states s ! 0 \<and> rc_connectors s' ! 0 = Some 7"
proof -
  let ?ops = "[MarkReconnect OKX, Cycle (\<lambda>_. (quiet, quiet)) True]"
  obtain s w where 1: "rc_run two_venues [Register 7 OKX, Register 8 KRAKEN, Cycle (\<lambda>_. (quiet, quiet)) False] (rc_start, 0) = Inr (s, w)"
      "st_quarantined (rc_states s ! 0)" "rc_connectors s ! 0 = Some 7" "rc_connector_count s = 2"
      "\<exists>x. rc_run two_venues ?ops (s, w) = Inr x"
    by (simp add: rc_eval mark_reconnect_required_def index_for_def)
  then obtain s' w' where 2: "rc_run two_venues ?ops (s, w) = Inr (s', w')" by auto
  from quarantine_is_permanent[OF 2, of 0] 1 2 show ?thesis by auto
qed

text \<open>A cycle does not depend on what a quarantined venue's connector would do.\<close>

definition replace_connector ::
  "nat \<Rightarrow> ('w \<Rightarrow> ConnectorResult \<times> 'w) \<Rightarrow> (ReconciliationSnapshot \<Rightarrow> 'w \<Rightarrow> ConnectorResult \<times> ReconciliationSnapshot \<times> 'w)
    \<Rightarrow> 'w World \<Rightarrow> 'w World" where
  "replace_connector c rec fetch wd =
     wd\<lparr>wd_reconcile := (wd_reconcile wd)(c := rec), wd_fetch := (wd_fetch wd)(c := fetch)\<rparr>"

lemma replace_connector_clocks [simp]:
  "wd_now_ns (replace_connector c rec fetch wd) = wd_now_ns wd"
  "wd_steady_ns (replace_connector c rec fetch wd) = wd_steady_ns wd"
  by (simp_all add: replace_connector_def)

lemma apply_decision_clock:
  "wd_now_ns wd' = wd_now_ns wd \<Longrightarrow> apply_decision wd' = apply_decision wd"
  by (intro ext) (simp add: apply_decision_def)

lemma judge_snapshot_clock:
  assumes "wd_now_ns wd' = wd_now_ns wd" "wd_steady_ns wd' = wd_steady_ns wd"
  shows "judge_snapshot wd' = judge_snapshot wd"
proof -
  have "accept_snapshot wd' = accept_snapshot wd"
    using assms by (intro ext) (simp add: accept_snapshot_def)
  then show ?thesis by (intro ext) (simp only: judge_snapshot_def apply_decision_clock[OF assms(1)])
qed

lemma visit_replaced:
  assumes "st_quarantined (rc_states s ! i) \<or> rc_connectors s ! i \<noteq> Some c"
  shows "visit_connector (replace_connector c rec fetch wd) g ph i (s, w) = visit_connector wd g ph i (s, w)"
proof -
  let ?wd = "replace_connector c rec fetch wd"
  have f: "snapshot_failed ?wd = snapshot_failed wd"
    by (intro ext) (simp only: snapshot_failed_def apply_decision_clock[of ?wd wd, OF replace_connector_clocks(1)])
  have t: "take_snapshot ?wd gg p = take_snapshot wd gg p" if "p \<noteq> c" for p and gg :: "DriftDecision \<times> DriftDecision"
    by (intro ext) (simp only: take_snapshot_def f judge_snapshot_clock[of ?wd wd, OF replace_connector_clocks],
      simp add: replace_connector_def that)
  have r: "wd_reconcile ?wd p = wd_reconcile wd p" if "p \<noteq> c" for p
    using that by (simp add: replace_connector_def)
  show ?thesis
  proof (cases "st_quarantined (rc_states s ! i) \<or> rc_connectors s ! i = None")
    case False
    with assms obtain p where p: "rc_connectors s ! i = Some p" "p \<noteq> c" by auto
    have "take_snapshot ?wd (g i) p = take_snapshot wd (g i) p" by (rule t) (rule p)
    with p show ?thesis by (simp only: visit_connector_def f r option.case prod.case not_False_eq_True)
  qed (auto simp: visit_connector_def)
qed

text \<open>
  A cycle neither calls nor changes a quarantined venue: its outcome is the same whatever the
  venue's connector would answer, and the venue's state is the one before the cycle.
\<close>
theorem quarantined_venue_untouched:
  assumes "st_quarantined (rc_states s ! j)" and own: "\<forall>i < rc_connector_count s. i \<noteq> j \<longrightarrow> rc_connectors s ! i \<noteq> Some c"
  shows "run_reconciliation_cycle (replace_connector c rec fetch wd) g ph (s, w) = run_reconciliation_cycle wd g ph (s, w) \<and>
    (case run_reconciliation_cycle wd g ph (s, w) of Inl e \<Rightarrow> True | Inr (res, s', w') \<Rightarrow> rc_states s' ! j = rc_states s ! j)"
proof
  have "cycle_loop (replace_connector c rec fetch wd) g ph is (s1, w) = cycle_loop wd g ph is (s1, w)"
    if "slot_frozen j s s1" "set is \<subseteq> {..<rc_connector_count s}" for "is" s1 w
    using that
  proof (induction "is" arbitrary: s1 w)
    case (Cons i is')
    from Cons.prems assms own have "st_quarantined (rc_states s1 ! i) \<or> rc_connectors s1 ! i \<noteq> Some c"
      by (cases "i = j") (auto simp: slot_frozen_def)
    note v = visit_replaced[OF this, of rec fetch wd g ph w]
    show ?case
    proof (cases "visit_connector wd g ph i (s1, w)")
      case (Inr x)
      then obtain r s2 w2 where 2: "visit_connector wd g ph i (s1, w) = Inr (r, s2, w2)" by (cases x) auto
      have "slot_frozen j s s2"
        using Cons.prems(1) slot_frozen_visit[OF 2, of j] by (auto simp: slot_frozen_def)
      from Cons.IH[OF this] Cons.prems(2) v 2 show ?thesis by (cases r) simp_all
    qed (simp add: v)
  qed simp
  from this[of s "[0..<rc_connector_count s]" w]
  show "run_reconciliation_cycle (replace_connector c rec fetch wd) g ph (s, w) = run_reconciliation_cycle wd g ph (s, w)"
    by (simp add: run_reconciliation_cycle_def slot_frozen_def subset_eq)
  show "case run_reconciliation_cycle wd g ph (s, w) of Inl e \<Rightarrow> True | Inr (res, s', w') \<Rightarrow> rc_states s' ! j = rc_states s ! j"
    using assms(1) slot_frozen_cycle[of wd g ph s w _ _ _ j]
    by (auto simp: slot_frozen_def split: sum.splits)
qed

section \<open>The retry budget\<close>

lemma escalate_reason:
  "escalate po st d = (st', d') \<Longrightarrow> dd_reason d' = dd_reason d"
  by (auto simp: escalate_def Let_def split: if_splits)

lemma run_hook_reason: "dd_reason d = Some why \<Longrightarrow> \<exists>w'. run_hook a h e d w = Inr w'"
  by (auto simp: run_hook_def split: option.split)

lemma apply_decision_state:
  assumes i: "i < length (rc_states s)" and r: "dd_reason d = Some why"
    and e: "escalate (rc_policy s) (rc_states s ! i) d = (st, d')"
  shows "\<exists>s' w'. apply_decision wd i d ph (s, w) = Inr (s', w') \<and>
    rc_states s' ! i = (let st = st\<lparr>st_last_mismatch := dd_mismatch_class d', st_last_action := dd_action d',
                                     st_last_severity := dd_severity d'\<rparr>
      in if decision_quarantines d' then st\<lparr>st_quarantined := True, st_mismatch_count := st_mismatch_count st + 1\<rparr> else st)"
proof -
  let ?st = "st\<lparr>st_last_mismatch := dd_mismatch_class d', st_last_action := dd_action d', st_last_severity := dd_severity d'\<rparr>"
  let ?s1 = "update_state i (\<lambda>_. ?st) s"
  have r': "dd_reason d' = Some why" using escalate_reason[OF e] r by simp
  then obtain s2 where 2: "record_incident i d' ph (wd_now_ns wd w) ?s1 = Inr s2" "rc_states s2 = rc_states ?s1"
    by (cases "rc_incident_count s \<ge> MAX_INCIDENT_TRAIL") (auto simp: record_incident_def update_state_def Let_def)
  obtain w2 where 3: "fire_hook (st_exchange ?st) d' s2 w = Inr w2"
    using run_hook_reason[OF r', of _ _ "st_exchange ?st"] unfolding fire_hook_def by (metis sum.case(2))
  show ?thesis
    using i e r' 2 3 by (auto simp: apply_decision_def Let_def update_state_def)
qed

text \<open>The order drifts of consecutive cycles; the quarantine flag of the helper's decision is the garbage's.\<close>

definition order_drift :: "DriftDecision \<Rightarrow> bool" where
  "order_drift d \<longleftrightarrow> dd_mismatch_class d \<in> {MISSING_ORDER, QTY_DRIFT} \<and> dd_action d = CANCEL_ALL_ORDERS \<and>
     \<not> dd_quarantine d \<and> dd_reason d \<noteq> None"

lemma order_drift_classified:
  "m \<in> {MISSING_ORDER, QTY_DRIFT} \<Longrightarrow> \<not> dd_quarantine made \<Longrightarrow> order_drift (classify_order_drift m why made)"
  by (auto simp: order_drift_def classify_order_drift_def)

fun apply_all ::
  "'w World \<Rightarrow> nat \<Rightarrow> DriftDecision list \<Rightarrow> bool \<Rightarrow> 'w ReconciliationService \<times> 'w
    \<Rightarrow> rc_fault + ('w ReconciliationService \<times> 'w)" where
  "apply_all wd i [] ph sw = Inr sw"
| "apply_all wd i (d # ds) ph sw =
     (case apply_decision wd i d ph sw of Inl e \<Rightarrow> Inl e | Inr sw \<Rightarrow> apply_all wd i ds ph sw)"

lemma apply_order_drift:
  assumes i: "i < length (rc_states s)" and d: "order_drift d" and q: "\<not> st_quarantined (rc_states s ! i)"
  shows "\<exists>s' w'. apply_decision wd i d ph (s, w) = Inr (s', w') \<and>
    st_order_drift_retries (rc_states s' ! i) = st_order_drift_retries (rc_states s ! i) + 1 \<and>
    (st_quarantined (rc_states s' ! i) \<longleftrightarrow>
       st_order_drift_retries (rc_states s ! i) + 1 > po_order_drift_retry_budget (rc_policy s))"
proof -
  obtain why where r: "dd_reason d = Some why" using d by (auto simp: order_drift_def)
  obtain st d' where e: "escalate (rc_policy s) (rc_states s ! i) d = (st, d')"
    by (cases "escalate (rc_policy s) (rc_states s ! i) d")
  from apply_decision_state[OF i r e, of wd ph w] e d q show ?thesis
    by (auto simp: escalate_def order_drift_def decision_quarantines_def Let_def split: if_splits)
qed

text \<open>
  The retry budget: when orders drift in \<open>n\<close> consecutive cycles, up to one more than the
  budget, the counter is \<open>n\<close> and the venue is quarantined exactly when \<open>n\<close> exceeds the budget,
  neither earlier nor later, provided the indeterminate quarantine flag of the decisions is clear.
\<close>
theorem drift_budget_quarantines:
  assumes i: "i < length (rc_states s)" and q: "\<not> st_quarantined (rc_states s ! i)"
    and z: "st_order_drift_retries (rc_states s ! i) = 0"
    and n: "length ds \<le> unat (po_order_drift_retry_budget (rc_policy s)) + 1"
    and b: "po_order_drift_retry_budget (rc_policy s) < 2 ^ 32 - 1" and d: "list_all order_drift ds"
  shows "\<exists>s' w'. apply_all wd i ds ph (s, w) = Inr (s', w') \<and>
    unat (st_order_drift_retries (rc_states s' ! i)) = length ds \<and>
    (st_quarantined (rc_states s' ! i) \<longleftrightarrow> length ds > unat (po_order_drift_retry_budget (rc_policy s)))"
proof -
  let ?B = "unat (po_order_drift_retry_budget (rc_policy s))"
  have B: "?B < 2 ^ 32 - 1" using b by (simp add: word_less_nat_alt)
  have "\<exists>s' w'. apply_all wd i es ph (s, w) = Inr (s', w') \<and>
      unat (st_order_drift_retries (rc_states s' ! i)) = k + length es \<and>
      (st_quarantined (rc_states s' ! i) \<longleftrightarrow> k + length es > ?B)"
    if "k + length es \<le> ?B + 1" "list_all order_drift es" "unat (st_order_drift_retries (rc_states s ! i)) = k"
       "st_quarantined (rc_states s ! i) \<longleftrightarrow> k > ?B" "i < length (rc_states s)"
       "unat (po_order_drift_retry_budget (rc_policy s)) = ?B" for k es s w
    using that
  proof (induction es arbitrary: k s w)
    case (Cons e es)
    then have k: "k \<le> ?B" and nq: "\<not> st_quarantined (rc_states s ! i)" by auto
    from Cons.prems apply_order_drift[of i s e wd ph w] nq obtain s1 w1 where
      1: "apply_decision wd i e ph (s, w) = Inr (s1, w1)"
        "st_order_drift_retries (rc_states s1 ! i) = st_order_drift_retries (rc_states s ! i) + 1"
        "st_quarantined (rc_states s1 ! i) \<longleftrightarrow>
           st_order_drift_retries (rc_states s ! i) + 1 > po_order_drift_retry_budget (rc_policy s)" by auto
    have u: "unat (st_order_drift_retries (rc_states s ! i) + 1) = Suc k"
      using Cons.prems(3) k B by (simp add: unat_word_ariths)
    from frame_apply_decision[OF 1(1)] have f: "length (rc_states s1) = length (rc_states s)" "rc_policy s1 = rc_policy s"
      by (simp_all add: frame_def)
    have "\<exists>s' w'. apply_all wd i es ph (s1, w1) = Inr (s', w') \<and>
        unat (st_order_drift_retries (rc_states s' ! i)) = Suc k + length es \<and>
        (st_quarantined (rc_states s' ! i) \<longleftrightarrow> Suc k + length es > ?B)"
      by (rule Cons.IH) (use Cons.prems 1 f u in \<open>simp_all add: word_less_nat_alt\<close>)
    with 1(1) show ?case by simp
  qed simp
  from this[of 0 ds s w] assms show ?thesis by simp
qed

definition drifting :: DriftDecision where
  "drifting = classify_order_drift QTY_DRIFT ''qty_drift'' quiet"

theorem drift_budget_quarantines_witness:
  "\<exists>s w s' w'. apply_all two_venues 1 (replicate 3 drifting) False (rc_start, 0) = Inr (s, w) \<and>
     \<not> st_quarantined (rc_states s ! 1) \<and>
     apply_all two_venues 1 (replicate 4 drifting) False (rc_start, 0) = Inr (s', w') \<and>
     st_quarantined (rc_states s' ! 1)"
proof -
  have h: "1 < length (rc_states rc_start)" "\<not> st_quarantined (rc_states rc_start ! 1)"
    "st_order_drift_retries (rc_states rc_start ! 1) = 0" "po_order_drift_retry_budget (rc_policy rc_start) = 3"
    "list_all order_drift (replicate n drifting)" for n
    by (simp_all add: rc_start_def mk_ReconciliationService_def MAX_CONNECTORS_def mk_VenueState_def
      engine_policy_def drifting_def order_drift_def classify_order_drift_def quiet_def list_all_iff)
  show ?thesis
    using drift_budget_quarantines[OF h(1-3), of "replicate 3 drifting" two_venues False 0]
      drift_budget_quarantines[OF h(1-3), of "replicate 4 drifting" two_venues False 0]
    unfolding h(4) by (simp add: h(5)) blast
qed

definition rc_halted :: "nat ReconciliationService" where
  "rc_halted = (update_state 0 (\<lambda>st. st\<lparr>st_quarantined := True\<rparr>) (snd (register_connector 8 KRAKEN (snd (register_connector 7 OKX rc_start)))))"

theorem quarantined_venue_untouched_witness:
  "run_reconciliation_cycle (replace_connector 7 (\<lambda>w. (ERROR_REST_FAILURE, w)) (\<lambda>snap w. (C_OK, snap, w)) two_venues)
     (\<lambda>_. (quiet, quiet)) False (rc_halted, 0) =
   run_reconciliation_cycle two_venues (\<lambda>_. (quiet, quiet)) False (rc_halted, 0)"
proof -
  have "rc_connector_count rc_halted = 2" "rc_connectors rc_halted ! 1 = Some 8" "st_quarantined (rc_states rc_halted ! 0)"
    by (simp_all add: rc_halted_def rc_start_def mk_ReconciliationService_def register_connector_def
          MAX_CONNECTORS_def update_state_def numeral_eq_Suc Let_def)
  then have "\<forall>i < rc_connector_count rc_halted. i \<noteq> 0 \<longrightarrow> rc_connectors rc_halted ! i \<noteq> Some 7"
    by (auto simp: less_2_cases_iff)
  from quarantined_venue_untouched[OF \<open>st_quarantined (rc_states rc_halted ! 0)\<close> this] show ?thesis by blast
qed

section \<open>What a verdict means\<close>

text \<open>
  The specification: two snapshots agree when every record of the canonical one has a
  counterpart at the venue whose amounts do not exceed the thresholds, every venue order is
  known, and the fills, replays left out, add up to the same amounts.
\<close>

definition close_to :: "double \<Rightarrow> double \<Rightarrow> double \<Rightarrow> bool" where
  "close_to bound a b \<longleftrightarrow> \<not> drift a b > bound"

definition agrees :: "DriftThresholds \<Rightarrow> ReconciliationSnapshot \<Rightarrow> ReconciliationSnapshot \<Rightarrow> bool" where
  "agrees th venue canonical \<longleftrightarrow>
     (\<forall>k \<in> set (rs_open_orders canonical). \<exists>v \<in> set (rs_open_orders venue). order_matches k v \<and>
        close_to (th_max_order_fill_gap th) (ro_quantity v) (ro_quantity k) \<and>
        close_to (th_max_order_fill_gap th) (ro_filled_quantity v) (ro_filled_quantity k)) \<and>
     (\<forall>v \<in> set (rs_open_orders venue). \<exists>k \<in> set (rs_open_orders canonical). order_matches v k) \<and>
     \<not> fill_gap_detected th venue canonical \<and>
     (\<forall>k \<in> set (rs_balances canonical). \<exists>v \<in> set (rs_balances venue). rb_asset v = rb_asset k \<and>
        close_to (th_max_balance_drift th) (rb_total v) (rb_total k) \<and>
        close_to (th_max_balance_drift th) (rb_available v) (rb_available k)) \<and>
     (\<forall>k \<in> set (rs_positions canonical). \<exists>v \<in> set (rs_positions venue).
        rp_symbol v = rp_symbol k \<and> rp_position_side v = rp_position_side k \<and>
        close_to (th_max_position_drift th) (rp_quantity v) (rp_quantity k) \<and>
        close_to (th_max_position_drift th) (rp_avg_entry_price v) (rp_avg_entry_price k))"

lemma made_mismatch [simp]:
  "dd_mismatch (mismatch m a sv why q made)" "dd_mismatch (classify_order_drift m why made)"
  "dd_mismatch (classify_fill_gap made)"
  by (simp_all add: mismatch_def classify_order_drift_def classify_fill_gap_def)

lemma rec_find_order_SomeD: "find_order snap k = Some v \<Longrightarrow> v \<in> set (rs_open_orders snap) \<and> order_matches k v"
  unfolding find_order_def by (metis find_Some_iff nth_mem)

lemma find_order_None: "find_order snap k = None \<longleftrightarrow> (\<forall>v \<in> set (rs_open_orders snap). \<not> order_matches k v)"
  by (auto simp: find_order_def find_None_iff)

lemma order_drift_loop_None:
  "order_drift_loop th venue ks made = None \<longleftrightarrow>
     (\<forall>k \<in> set ks. \<exists>v. find_order venue k = Some v \<and>
        close_to (th_max_order_fill_gap th) (ro_quantity v) (ro_quantity k) \<and>
        close_to (th_max_order_fill_gap th) (ro_filled_quantity v) (ro_filled_quantity k))"
  by (induction ks) (auto simp: close_to_def split: option.splits)

lemma order_drift_loop_mismatch: "order_drift_loop th venue ks made = Some d \<Longrightarrow> dd_mismatch d"
  by (induction ks) (auto split: option.splits if_splits)

lemma not_balance_drifts:
  "\<not> balance_drifts th venue k \<longleftrightarrow> (\<exists>v. find_balance venue (rb_asset k) = Some v \<and>
     close_to (th_max_balance_drift th) (rb_total v) (rb_total k) \<and>
     close_to (th_max_balance_drift th) (rb_available v) (rb_available k))"
  by (auto simp: balance_drifts_def close_to_def split: option.splits)

lemma not_position_drifts:
  "\<not> position_drifts th venue k \<longleftrightarrow> (\<exists>v. find_position venue (rp_symbol k) (rp_position_side k) = Some v \<and>
     close_to (th_max_position_drift th) (rp_quantity v) (rp_quantity k) \<and>
     close_to (th_max_position_drift th) (rp_avg_entry_price v) (rp_avg_entry_price k))"
  by (auto simp: position_drifts_def close_to_def split: option.splits)

lemma evaluate_drift_clean:
  "\<not> dd_mismatch (evaluate_drift th venue canonical uninit made) \<longleftrightarrow>
     insane_reason th venue = None \<and> \<not> dd_mismatch uninit \<and>
     order_drift_loop th venue (rs_open_orders canonical) made = None \<and>
     (\<forall>v \<in> set (rs_open_orders venue). find_order canonical v \<noteq> None) \<and>
     \<not> fill_gap_detected th venue canonical \<and>
     (\<forall>k \<in> set (rs_balances canonical). \<not> balance_drifts th venue k) \<and>
     (\<forall>k \<in> set (rs_positions canonical). \<not> position_drifts th venue k)"
  by (cases "insane_reason th venue"; cases "order_drift_loop th venue (rs_open_orders canonical) made")
     (auto simp: evaluate_drift_def evaluate_snapshot_sanity_def Let_def list_ex_iff dest: order_drift_loop_mismatch)


definition recon_order :: ReconciledOrder where
  "recon_order = \<lparr>ro_client_order_id = 1, ro_venue_order_id = ''v1'', ro_symbol = ''BTC'', ro_side = BID,
     ro_quantity = Fin 2, ro_filled_quantity = Fin 1, ro_price = Fin 100, ro_state = OPEN\<rparr>"

definition recon_snapshot :: ReconciliationSnapshot where
  "recon_snapshot = \<lparr>rs_open_orders = [recon_order], rs_fills = [],
     rs_balances = [\<lparr>rb_asset = ''USD'', rb_total = Fin 5, rb_available = Fin 4\<rparr>],
     rs_positions = [\<lparr>rp_symbol = ''BTC'', rp_position_side = [], rp_quantity = Fin 1,
        rp_avg_entry_price = Fin 100, rp_leverage = 1, rp_opened_at_ns = 0\<rparr>]\<rparr>"

lemma close_to_refl: "0 \<le> t \<Longrightarrow> close_to t x x"
  by (cases x) (auto simp: close_to_def drift_def minus_double_def plus_double_def uminus_double_def abs_double_def
    pack_def zero_double_def dbl_leD Let_def)

lemma fill_loop_fits: "length ks + length fs \<le> MAX_FILL_KEYS \<Longrightarrow> fst (fill_loop fs ks l)"
  by (induction fs ks l rule: fill_loop.induct) (auto simp: Let_def)

text \<open>What makes the records of a snapshot tell apart, within the capacity of the tables.\<close>

definition unambiguous :: "ReconciliationSnapshot \<Rightarrow> bool" where
  "unambiguous snap \<longleftrightarrow>
     (\<forall>a \<in> set (rs_open_orders snap). order_matches a a \<and> (\<forall>b \<in> set (rs_open_orders snap). order_matches a b \<longrightarrow> a = b)) \<and>
     length (rs_fills snap) \<le> 512 \<and> distinct (map rb_asset (rs_balances snap)) \<and>
     distinct (map (\<lambda>p. (rp_symbol p, rp_position_side p)) (rs_positions snap))"

lemma find_distinct:
  assumes "distinct (map f xs)" "x \<in> set xs" shows "find (\<lambda>c. f c = f x) xs = Some x"
  using assms by (induction xs) auto

lemma find_order_self:
  assumes "unambiguous snap" "a \<in> set (rs_open_orders snap)" shows "find_order snap a = Some a"
proof (cases "find_order snap a")
  case None
  with assms show ?thesis by (auto simp: find_order_None unambiguous_def)
next
  case (Some b)
  with rec_find_order_SomeD[OF Some] assms show ?thesis by (auto simp: unambiguous_def)
qed

text \<open>
  The clean verdict is indeterminate: a sane snapshot compared with an identical canonical one
  yields the function's own decision, which it never initialised. Whether the cycle then sees a
  mismatch, and of which class, is whatever the stack held.
\<close>
theorem clean_verdict_is_uninitialised:
  assumes sane: "insane_reason th snap = None" and u: "unambiguous snap"
    and t: "0 \<le> th_max_balance_drift th" "0 \<le> th_max_position_drift th" "0 \<le> th_max_order_fill_gap th"
      "0 \<le> th_max_fill_notional_drift th" "0 \<le> th_max_fill_fee_drift th"
  shows "evaluate_drift th snap snap uninit made = uninit"
proof (cases "dd_mismatch uninit")
  case True
  then show ?thesis using sane by (simp add: evaluate_drift_def evaluate_snapshot_sanity_def)
next
  case False
  have o: "order_drift_loop th snap (rs_open_orders snap) made = None"
    unfolding order_drift_loop_None using find_order_self[OF u] close_to_refl[OF t(3)] by blast
  have f: "\<not> fill_gap_detected th snap snap"
  proof -
    from u fill_loop_fits[of "[]" "rs_fills snap" mk_FillLedger]
    have "fst (build_fill_ledger snap)" by (simp add: build_fill_ledger_def unambiguous_def MAX_FILL_KEYS_def)
    then obtain l where "build_fill_ledger snap = (True, l)" by (cases "build_fill_ledger snap") simp
    then show ?thesis using t(3-5)[THEN close_to_refl] by (simp add: fill_gap_detected_def close_to_def)
  qed
  have b: "\<not> balance_drifts th snap k" if "k \<in> set (rs_balances snap)" for k
    unfolding not_balance_drifts find_balance_def
    using u that find_distinct[of rb_asset "rs_balances snap" k] close_to_refl[OF t(1)] by (auto simp: unambiguous_def)
  have p: "\<not> position_drifts th snap k" if "k \<in> set (rs_positions snap)" for k
    unfolding not_position_drifts find_position_def
    using u that find_distinct[of "\<lambda>p. (rp_symbol p, rp_position_side p)" "rs_positions snap" k] close_to_refl[OF t(2)]
    by (auto simp: unambiguous_def)
  have "\<not> list_ex (\<lambda>v. find_order snap v = None) (rs_open_orders snap)"
    using find_order_self[OF u] by (auto simp: list_ex_iff)
  then show ?thesis
    using o f b p sane False by (auto simp: evaluate_drift_def evaluate_snapshot_sanity_def Let_def list_ex_iff)
qed

section \<open>Replayed fills\<close>

text \<open>The keys kept after a run of the loop.\<close>

fun kept :: "ReconciledFill list \<Rightarrow> FillIdentity list \<Rightarrow> FillIdentity list" where
  "kept [] ks = ks"
| "kept (f # fs) ks =
     (if list_ex (fill_same_identity (identity_of f)) ks then kept fs ks else kept fs (ks @ [identity_of f]))"

lemma fill_loop_append:
  "fst (fill_loop xs ks l) \<Longrightarrow> fill_loop (xs @ ys) ks l = fill_loop ys (kept xs ks) (snd (fill_loop xs ks l))"
  by (induction xs ks l rule: fill_loop.induct) (auto simp: Let_def split: if_splits)

lemma kept_mono: "set ks \<subseteq> set (kept fs ks)"
  by (induction fs ks rule: kept.induct) auto

lemma kept_covers:
  "f \<in> set fs \<Longrightarrow> fill_same_identity (identity_of f) (identity_of f) \<Longrightarrow>
   list_ex (fill_same_identity (identity_of f)) (kept fs ks)"
proof (induction fs ks rule: kept.induct)
  case (2 a fs ks)
  show ?case
  proof (cases "f = a")
    case True
    with 2(4) kept_mono[of ks fs] kept_mono[of "ks @ [identity_of a]" fs] show ?thesis
      by (auto simp: list_ex_iff)
  next
    case False
    with 2 show ?thesis by auto
  qed
qed simp

lemma fill_loop_duplicates:
  "\<forall>f \<in> set fs. list_ex (fill_same_identity (identity_of f)) ks \<Longrightarrow> fill_loop fs ks l = (True, l)"
  by (induction fs) (auto simp: Let_def)

text \<open>
  Replayed fills count once: fills reported again, in any number and order, leave the ledger
  as it was, as long as each can be identified, by its trade id or by an order id with its time,
  quantity and price.
\<close>
theorem replayed_fills_ignored:
  assumes "length (rs_fills snap) \<le> 512" "set again \<subseteq> set (rs_fills snap)"
    and "list_all (\<lambda>f. fill_same_identity (identity_of f) (identity_of f)) again"
  shows "build_fill_ledger (snap\<lparr>rs_fills := rs_fills snap @ again\<rparr>) = build_fill_ledger snap"
proof -
  have 1: "fst (fill_loop (rs_fills snap) [] mk_FillLedger)"
    using assms(1) fill_loop_fits[of "[]" "rs_fills snap" mk_FillLedger] by (simp add: MAX_FILL_KEYS_def)
  have "\<forall>f \<in> set again. list_ex (fill_same_identity (identity_of f)) (kept (rs_fills snap) [])"
    using assms(2,3) kept_covers[of _ "rs_fills snap" "[]"] by (auto simp: list_all_iff)
  from fill_loop_append[OF 1, of again] fill_loop_duplicates[OF this] 1 show ?thesis
    by (cases "fill_loop (rs_fills snap) [] mk_FillLedger") (simp add: build_fill_ledger_def)
qed

section \<open>The uninitialised counters\<close>

text \<open>
  The constructor leaves \<open>connector_count_\<close> uninitialised: when the memory holds a count
  from 1 to 4, the first cycle dereferences a null connector, and with 4 no connector can ever
  be registered.
\<close>
theorem uninitialised_connector_count:
  assumes "0 < n" "n \<le> MAX_CONNECTORS"
  shows "run_reconciliation_cycle wd g ph (mk_ReconciliationService th po k d n, w) = Inl Null_Connector \<and>
    register_connector c e (mk_ReconciliationService th po k d MAX_CONNECTORS) =
      (False, mk_ReconciliationService th po k d MAX_CONNECTORS)"
proof -
  let ?s = "mk_ReconciliationService th po k d n"
  have "[0..<n] = 0 # [1..<n]" using assms(1) by (simp add: upt_conv_Cons)
  moreover have "visit_connector wd g ph 0 (?s, w) = Inl Null_Connector"
    by (simp add: visit_connector_def mk_ReconciliationService_def MAX_CONNECTORS_def mk_VenueState_def)
  moreover have "rc_connector_count ?s = n" by (simp add: mk_ReconciliationService_def)
  ultimately show ?thesis
    by (simp add: run_reconciliation_cycle_def register_connector_def mk_ReconciliationService_def Let_def)
qed

theorem uninitialised_connector_count_witness:
  "run_reconciliation_cycle two_venues (\<lambda>_. (quiet, quiet)) True
     (mk_ReconciliationService engine_thresholds engine_policy 0 0 3, 0) = Inl Null_Connector"
  by (rule conjunct1[OF uninitialised_connector_count]) (simp_all add: MAX_CONNECTORS_def)


theorem clean_verdict_is_uninitialised_witness:
  "\<not> dd_mismatch (evaluate_drift engine_thresholds recon_snapshot recon_snapshot quiet quiet) \<and>
   dd_mismatch (evaluate_drift engine_thresholds recon_snapshot recon_snapshot (quiet\<lparr>dd_mismatch := True\<rparr>) quiet)"
proof -
  have i: "insane_reason engine_thresholds recon_snapshot = None" by code_simp
  have u: "unambiguous recon_snapshot"
    by (simp add: unambiguous_def recon_snapshot_def recon_order_def order_matches_def)
  have t: "0 \<le> th_max_balance_drift engine_thresholds" "0 \<le> th_max_position_drift engine_thresholds"
    "0 \<le> th_max_order_fill_gap engine_thresholds" "0 \<le> th_max_fill_notional_drift engine_thresholds"
    "0 \<le> th_max_fill_fee_drift engine_thresholds"
    by (simp_all add: engine_thresholds_def)
  show ?thesis
    using clean_verdict_is_uninitialised[OF i u t, of _ quiet] by (simp add: quiet_def)
qed

definition recon_fill :: ReconciledFill where
  "recon_fill = \<lparr>rf_client_order_id = 1, rf_venue_order_id = ''v1'', rf_venue_trade_id = ''t1'', rf_symbol = ''BTC'',
     rf_exchange = OKX, rf_side = BID, rf_quantity = Fin 1, rf_price = Fin 100, rf_notional = 0, rf_fee = 0,
     rf_fee_asset = [], rf_exchange_ts_ns = 5\<rparr>"

theorem replayed_fills_ignored_witness:
  "build_fill_ledger (recon_snapshot\<lparr>rs_fills := [recon_fill, recon_fill, recon_fill]\<rparr>) =
   build_fill_ledger (recon_snapshot\<lparr>rs_fills := [recon_fill]\<rparr>)"
  using replayed_fills_ignored[of "recon_snapshot\<lparr>rs_fills := [recon_fill]\<rparr>" "[recon_fill, recon_fill]"]
  by (simp add: fill_same_identity_def identity_of_def recon_fill_def)


section \<open>The incident trail\<close>

definition trail_grows :: "'w ReconciliationService \<Rightarrow> 'w ReconciliationService \<Rightarrow> bool" where
  "trail_grows s s' \<longleftrightarrow> rc_incident_count s \<le> rc_incident_count s' \<and>
     (rc_incident_count s \<le> MAX_INCIDENT_TRAIL \<longrightarrow> rc_incident_count s' \<le> MAX_INCIDENT_TRAIL) \<and>
     take (rc_incident_count s) (rc_incident_trail s') = take (rc_incident_count s) (rc_incident_trail s)"

lemma trail_grows_trans:
  assumes "trail_grows s s'" "trail_grows s' s''" shows "trail_grows s s''"
proof -
  have "take (rc_incident_count s) (rc_incident_trail s'') =
      take (rc_incident_count s) (take (rc_incident_count s') (rc_incident_trail s''))"
    using assms(1) by (simp add: trail_grows_def min.absorb1)
  also have "\<dots> = take (rc_incident_count s) (take (rc_incident_count s') (rc_incident_trail s'))"
    using assms(2) by (simp add: trail_grows_def)
  finally show ?thesis using assms by (auto simp: trail_grows_def min.absorb1)
qed

lemma frame_trail: "frame i s s' \<Longrightarrow> trail_grows s s'"
  by (auto simp: frame_def trail_grows_def intro!: nth_equalityI)

lemma trail_grows_cycle:
  "run_reconciliation_cycle wd g ph (s, w) = Inr (res, s', w') \<Longrightarrow> trail_grows s s'"
  unfolding run_reconciliation_cycle_def
  by (rule cycle_keeps[where R = trail_grows, OF _ frame_trail[OF frame_visit_connector]])
     (auto simp: keeps_def intro: trail_grows_trans, simp add: trail_grows_def)

lemma trail_grows_step: "rc_step wd x (s, w) = Inr (s', w') \<Longrightarrow> trail_grows s s'"
proof (cases x)
  case (Cycle g ph)
  assume "rc_step wd x (s, w) = Inr (s', w')"
  then obtain res where "run_reconciliation_cycle wd g ph (s, w) = Inr (res, s', w')" by (auto simp: Cycle)
  then show ?thesis by (rule trail_grows_cycle)
qed (auto simp: trail_grows_def register_connector_def set_canonical_snapshot_def Let_def update_state_def
  set_canonical_snapshot_fetcher_def bind_position_ledger_def mark_reconnect_required_def
  set_cancel_all_hook_def set_risk_halt_hook_def split: option.splits)

text \<open>
  The incident trail is append-only and bounded: over any history the recorded incidents keep
  their places and contents, and a trail within its 256 entries stays within them.
\<close>
theorem incident_trail_append_only:
  "rc_run wd ops (s, w) = Inr (s', w') \<Longrightarrow> trail_grows s s'"
proof (induction ops arbitrary: s w)
  case Nil
  then show ?case by (simp add: trail_grows_def)
next
  case (Cons x xs)
  then obtain s1 w1 where 1: "rc_step wd x (s, w) = Inr (s1, w1)" "rc_run wd xs (s1, w1) = Inr (s', w')"
    by (cases "rc_step wd x (s, w)") auto
  show ?case by (rule trail_grows_trans[OF trail_grows_step[OF 1(1)] Cons.IH[OF 1(2)]])
qed

theorem incident_trail_append_only_witness:
  "\<exists>s w. rc_run two_venues [Register 7 OKX, Cycle (\<lambda>_. (quiet, quiet)) False] (rc_start, 0) = Inr (s, w) \<and>
     rc_incident_count s = 1 \<and> trail_grows rc_start s"
proof -
  obtain s w where 1: "rc_run two_venues [Register 7 OKX, Cycle (\<lambda>_. (quiet, quiet)) False] (rc_start, 0) = Inr (s, w)"
      "rc_incident_count s = 1"
    by (simp add: rc_eval)
  from incident_trail_append_only[OF 1(1)] 1 show ?thesis by blast
qed

end
