(* ===== verification/Shadow_Engine.thy ===== *)
theory Shadow_Engine
  imports Order_Book Parent_Orders
begin

text \<open>
  \<open>core/shadow/shadow_engine.hpp\<close>: paper trading. A shadow connector keeps a pool of resting
  orders, fills them against the book of its venue after a modelled latency, and accounts for
  position, fees and profit; the shadow engine adds four connectors up and keeps the execution
  state. The book is an argument of each call, as it is when the call is made, and so is the
  clock: the readings of one call are equal. The reports passed to the fill callback are
  collected in \<open>sc_reports\<close>, oldest first. The log files are left out.
\<close>

section \<open>The execution state\<close>

datatype ShadowExecutionState = FLAT | ENTERING | HOLDING | REDUCING | FLATTENING | HALTED

record ShadowIntentMetadata =
  si_intent :: string
  si_reason :: string
  si_signal_bps :: double
  si_risk_score :: double
  si_target_position :: double
  si_current_position :: double
  si_expected_cost_bps :: double
  si_expected_edge_bps :: double
  si_max_shortfall_bps :: double
  si_decision_ts_ns :: int
  si_urgency :: ShadowUrgency

record ShadowConfig =
  sf_binance_maker_fee_bps :: double
  sf_binance_taker_fee_bps :: double
  sf_kraken_maker_fee_bps :: double
  sf_kraken_taker_fee_bps :: double
  sf_okx_maker_fee_bps :: double
  sf_okx_taker_fee_bps :: double
  sf_coinbase_maker_fee_bps :: double
  sf_coinbase_taker_fee_bps :: double
  sf_base_latency_ns :: int
  sf_latency_jitter_ns :: int
  sf_impact_slippage_per_notional_bps :: double
  sf_queue_match_fraction_per_check :: double
  sf_log_path :: string

text \<open>\<open>from_yaml_values\<close> leaves the latencies, the slippage and the match fraction as they are in \<open>c\<close>.\<close>

definition from_yaml_values ::
  "double \<Rightarrow> double \<Rightarrow> double \<Rightarrow> double \<Rightarrow> double \<Rightarrow> double \<Rightarrow> double \<Rightarrow> double \<Rightarrow> string \<Rightarrow> ShadowConfig \<Rightarrow> ShadowConfig" where
  "from_yaml_values bin_maker bin_taker kra_maker kra_taker okx_maker okx_taker cb_maker cb_taker log_file c =
     c\<lparr>sf_binance_maker_fee_bps := bin_maker, sf_binance_taker_fee_bps := bin_taker,
       sf_kraken_maker_fee_bps := kra_maker, sf_kraken_taker_fee_bps := kra_taker,
       sf_okx_maker_fee_bps := okx_maker, sf_okx_taker_fee_bps := okx_taker,
       sf_coinbase_maker_fee_bps := cb_maker, sf_coinbase_taker_fee_bps := cb_taker,
       sf_log_path := buf_copy 256 log_file\<rparr>"

record ShadowStateTransition =
  tr_previous :: ShadowExecutionState
  tr_current :: ShadowExecutionState
  tr_reason :: string
  tr_current_position :: double
  tr_target_position :: double
  tr_changed :: bool

fun state_to_string :: "ShadowExecutionState \<Rightarrow> string" where
  "state_to_string FLAT = ''FLAT''"
| "state_to_string ENTERING = ''ENTERING''"
| "state_to_string HOLDING = ''HOLDING''"
| "state_to_string REDUCING = ''REDUCING''"
| "state_to_string FLATTENING = ''FLATTENING''"
| "state_to_string HALTED = ''HALTED''"

definition k_pos_epsilon :: double where "k_pos_epsilon = lit (1 / 10 ^ 6)"

definition next_state :: "double \<Rightarrow> double \<Rightarrow> bool \<Rightarrow> bool \<Rightarrow> ShadowExecutionState" where
  "next_state current_position target_position flatten_now halted =
     (let e = k_pos_epsilon; current_abs = \<bar>current_position\<bar>; target_abs = \<bar>target_position\<bar> in
      if halted then HALTED
      else if flatten_now then (if current_abs \<le> e then FLAT else FLATTENING)
      else if current_abs \<le> e \<and> target_abs \<le> e then FLAT
      else let same_direction = current_abs \<le> e \<or> target_abs \<le> e \<or>
                 ((current_position > 0) = (target_position > 0)) in
        if current_abs \<le> e \<and> target_abs > e then ENTERING
        else if \<not> same_direction then FLATTENING
        else let delta = target_abs - current_abs in
          if delta > e then ENTERING
          else if delta < - e then (if target_abs \<le> e then FLATTENING else REDUCING)
          else if current_abs > e then HOLDING else FLAT)"

text \<open>The state machine is the state it keeps; a null reason pointer is \<open>None\<close>.\<close>

definition sm_evaluate ::
  "double \<Rightarrow> double \<Rightarrow> bool \<Rightarrow> bool \<Rightarrow> string option \<Rightarrow> ShadowExecutionState \<Rightarrow> ShadowStateTransition \<times> ShadowExecutionState" where
  "sm_evaluate current_position target_position flatten_now halted reason st =
     (let current = next_state current_position target_position flatten_now halted
      in (\<lparr>tr_previous = st, tr_current = current,
           tr_reason = (case reason of None \<Rightarrow> [] | Some r \<Rightarrow> buf_copy 48 r),
           tr_current_position = current_position, tr_target_position = target_position,
           tr_changed = (st \<noteq> current)\<rparr>, current))"

section \<open>The connector\<close>

record ShadowOrder =
  so_client_order_id :: u64
  so_symbol :: string
  so_exchange :: Exchange
  so_side :: Side
  so_type :: OrderType
  so_tif :: TimeInForce
  so_price :: double
  so_quantity :: double
  so_filled_qty :: double
  so_notional_filled :: double
  so_queue_ahead_qty :: double
  so_submit_ts_ns :: int
  so_release_ts_ns :: int
  so_active :: bool
  so_is_maker :: bool
  so_intent :: ShadowIntentMetadata
  so_decision_price :: double
  so_decision_mid :: double

definition MAX_SHADOW_ORDERS :: nat where "MAX_SHADOW_ORDERS = 256"

definition mk_ShadowIntentMetadata :: ShadowIntentMetadata where
  "mk_ShadowIntentMetadata = \<lparr>si_intent = [], si_reason = [], si_signal_bps = 0, si_risk_score = 0,
     si_target_position = 0, si_current_position = 0, si_expected_cost_bps = 0,
     si_expected_edge_bps = 0, si_max_shortfall_bps = 0, si_decision_ts_ns = 0, si_urgency = PASSIVE\<rparr>"

definition mk_ShadowOrder :: ShadowOrder where
  "mk_ShadowOrder = \<lparr>so_client_order_id = 0, so_symbol = [], so_exchange = BINANCE, so_side = BID,
     so_type = MARKET, so_tif = GTC, so_price = 0, so_quantity = 0, so_filled_qty = 0,
     so_notional_filled = 0, so_queue_ahead_qty = 0, so_submit_ts_ns = 0, so_release_ts_ns = 0,
     so_active = False, so_is_maker = False, so_intent = mk_ShadowIntentMetadata,
     so_decision_price = 0, so_decision_mid = 0\<rparr>"

record ShadowConnector =
  sc_ex :: Exchange
  sc_cfg :: ShadowConfig
  sc_orders :: "ShadowOrder list"
  sc_next_intent :: ShadowIntentMetadata
  sc_gross_notional :: double
  sc_total_fills :: u64
  sc_opened_positions :: u64
  sc_net_position :: double
  sc_avg_entry_price :: double
  sc_realized_pnl :: double
  sc_total_fees :: double
  sc_net_cashflow :: double
  sc_position_opened_at_ns :: int
  sc_reports :: "FillUpdate list"

definition sc_init :: "Exchange \<Rightarrow> ShadowConfig \<Rightarrow> ShadowConnector" where
  "sc_init ex cfg = \<lparr>sc_ex = ex, sc_cfg = cfg, sc_orders = replicate MAX_SHADOW_ORDERS mk_ShadowOrder,
     sc_next_intent = mk_ShadowIntentMetadata, sc_gross_notional = 0, sc_total_fills = 0,
     sc_opened_positions = 0, sc_net_position = 0, sc_avg_entry_price = 0, sc_realized_pnl = 0,
     sc_total_fees = 0, sc_net_cashflow = 0, sc_position_opened_at_ns = 0, sc_reports = []\<rparr>"

definition update_order :: "nat \<Rightarrow> (ShadowOrder \<Rightarrow> ShadowOrder) \<Rightarrow> ShadowConnector \<Rightarrow> ShadowConnector" where
  "update_order i f c = c\<lparr>sc_orders := (sc_orders c)[i := f (sc_orders c ! i)]\<rparr>"

definition emit :: "FillUpdate \<Rightarrow> ShadowConnector \<Rightarrow> ShadowConnector" where
  "emit u c = c\<lparr>sc_reports := sc_reports c @ [u]\<rparr>"

definition set_intent_metadata :: "ShadowIntentMetadata \<Rightarrow> ShadowConnector \<Rightarrow> ShadowConnector" where
  "set_intent_metadata intent c = c\<lparr>sc_next_intent := intent\<rparr>"

subsection \<open>Reading the book\<close>

definition is_immediately_fillable :: "OrderBook \<Rightarrow> ShadowOrder \<Rightarrow> bool" where
  "is_immediately_fillable book s =
     (if so_type s = MARKET then True
      else if so_side s = BID then (let best_ask = get_best_ask book in best_ask > 0 \<and> so_price s \<ge> best_ask)
      else (let best_bid = get_best_bid book in best_bid > 0 \<and> so_price s \<le> best_bid))"

definition modeled_latency_ns :: "ShadowConfig \<Rightarrow> u64 \<Rightarrow> int" where
  "modeled_latency_ns cfg client_order_id =
     (if sf_latency_jitter_ns cfg \<le> 0 then sf_base_latency_ns cfg
      else let spread = (sf_latency_jitter_ns cfg * 2 + 1) mod 2 ^ 64;
               r = uint client_order_id mod spread;
               jitter = (if r < 2 ^ 63 then r else r - 2 ^ 64) - sf_latency_jitter_ns cfg
           in sf_base_latency_ns cfg + jitter)"

definition queue_ahead_at_submit :: "OrderBook \<Rightarrow> ShadowOrder \<Rightarrow> double" where
  "queue_ahead_at_submit book s =
     (case get_top_levels book 8 of (bids, asks) \<Rightarrow>
       (case find (\<lambda>lvl. deq (pl_price lvl) (so_price s)) (if so_side s = BID then bids else asks) of
          Some lvl \<Rightarrow> pl_size lvl * lit (6 / 10) | None \<Rightarrow> 0))"

definition top_opposite_size :: "OrderBook \<Rightarrow> Side \<Rightarrow> double" where
  "top_opposite_size book side =
     (case get_top_levels book 1 of (bids, asks) \<Rightarrow>
       (case (if side = BID then asks else bids) of [] \<Rightarrow> 0 | lvl # _ \<Rightarrow> pl_size lvl))"

definition apply_slippage :: "OrderBook \<Rightarrow> ShadowConfig \<Rightarrow> double \<Rightarrow> double \<Rightarrow> Side \<Rightarrow> double" where
  "apply_slippage book cfg px qty side =
     (let top_size = top_opposite_size book side in
      if top_size \<le> 0 then px
      else let impact_bps = sf_impact_slippage_per_notional_bps cfg * (qty / top_size);
               sign = (if side = BID then 1 else - 1)
           in px * (1 + sign * (impact_bps / lit 10000)))"

definition decision_price :: "OrderBook \<Rightarrow> Side \<Rightarrow> double" where
  "decision_price book side = (if side = BID then get_best_ask book else get_best_bid book)"

definition fee_for :: "ShadowConfig \<Rightarrow> ShadowOrder \<Rightarrow> double" where
  "fee_for cfg s =
     (let maker = so_is_maker s in
      case so_exchange s of
        BINANCE \<Rightarrow> if maker then sf_binance_maker_fee_bps cfg else sf_binance_taker_fee_bps cfg
      | KRAKEN \<Rightarrow> if maker then sf_kraken_maker_fee_bps cfg else sf_kraken_taker_fee_bps cfg
      | OKX \<Rightarrow> if maker then sf_okx_maker_fee_bps cfg else sf_okx_taker_fee_bps cfg
      | COINBASE \<Rightarrow> if maker then sf_coinbase_maker_fee_bps cfg else sf_coinbase_taker_fee_bps cfg
      | _ \<Rightarrow> if maker then sf_kraken_maker_fee_bps cfg else sf_kraken_taker_fee_bps cfg)"

definition implementation_shortfall_bps :: "ShadowOrder \<Rightarrow> double \<Rightarrow> double" where
  "implementation_shortfall_bps s fill_px =
     (if so_decision_price s \<le> 0 then 0
      else let raw_bps = (fill_px - so_decision_price s) / so_decision_price s * lit 10000
           in if so_side s = BID then raw_bps else - raw_bps)"

definition edge_at_entry_bps :: "ShadowOrder \<Rightarrow> double \<Rightarrow> double" where
  "edge_at_entry_bps s fill_px =
     (if so_side s = BID then si_signal_bps (so_intent s) else - si_signal_bps (so_intent s)) -
     implementation_shortfall_bps s fill_px"

definition markout_bps :: "OrderBook \<Rightarrow> ShadowOrder \<Rightarrow> double \<Rightarrow> double" where
  "markout_bps book s fill_px =
     (let mark = get_mid_price book in
      if mark \<le> 0 \<or> fill_px \<le> 0 then 0
      else let raw_bps = (mark - fill_px) / fill_px * lit 10000
           in if so_side s = BID then raw_bps else - raw_bps)"

subsection \<open>Reports\<close>

definition emit_fill_report :: "ShadowOrder \<Rightarrow> double \<Rightarrow> double \<Rightarrow> int \<Rightarrow> ShadowConnector \<Rightarrow> ShadowConnector" where
  "emit_fill_report s fill_px fill_qty now =
     emit (mk_FillUpdate\<lparr>fu_client_order_id := so_client_order_id s, fu_fill_price := fill_px,
       fu_fill_qty := fill_qty, fu_cumulative_filled_qty := so_filled_qty s,
       fu_avg_fill_price := (if so_filled_qty s > 0 then so_notional_filled s / so_filled_qty s else 0),
       fu_new_state := (if so_filled_qty s \<ge> so_quantity s then FILLED else PARTIALLY_FILLED),
       fu_local_ts_ns := now\<rparr>)"

definition emit_cancel :: "ShadowOrder \<Rightarrow> int \<Rightarrow> ShadowConnector \<Rightarrow> ShadowConnector" where
  "emit_cancel s now = emit (mk_FillUpdate\<lparr>fu_client_order_id := so_client_order_id s,
     fu_new_state := CANCELED, fu_local_ts_ns := now\<rparr>)"

definition emit_reject :: "ShadowOrder \<Rightarrow> string \<Rightarrow> int \<Rightarrow> ShadowConnector \<Rightarrow> ShadowConnector" where
  "emit_reject s reason now = emit (mk_FillUpdate\<lparr>fu_client_order_id := so_client_order_id s,
     fu_new_state := REJECTED, fu_local_ts_ns := now, fu_reject_reason := take 63 reason\<rparr>)"

subsection \<open>Position and profit\<close>

definition sign_of :: "double \<Rightarrow> int" where
  "sign_of x = (if x > 0 then 1 else 0) - (if x < 0 then 1 else 0)"

definition apply_position_fill :: "Side \<Rightarrow> double \<Rightarrow> double \<Rightarrow> int \<Rightarrow> ShadowConnector \<Rightarrow> ShadowConnector" where
  "apply_position_fill side fill_qty fill_px now c =
     (let signed_qty = (if side = BID then fill_qty else - fill_qty);
          prior_pos = sc_net_position c;
          prior_sign = sign_of prior_pos;
          fill_sign = sign_of signed_qty
      in if prior_sign = 0 \<or> prior_sign = fill_sign then
           (let abs_prior = \<bar>prior_pos\<bar>;
                total_qty = abs_prior + fill_qty;
                c = c\<lparr>sc_avg_entry_price :=
                       (if total_qty > 0 then (sc_avg_entry_price c * abs_prior + fill_px * fill_qty) / total_qty else 0),
                      sc_net_position := prior_pos + signed_qty\<rparr>
            in if prior_sign = 0 then c\<lparr>sc_position_opened_at_ns := now\<rparr> else c)
         else
           (let closing_qty = std_min \<bar>prior_pos\<bar> fill_qty;
                c = c\<lparr>sc_realized_pnl := sc_realized_pnl c +
                       (if prior_pos > 0 then (fill_px - sc_avg_entry_price c) * closing_qty
                        else (sc_avg_entry_price c - fill_px) * closing_qty)\<rparr>;
                net = prior_pos + signed_qty;
                net = (if \<bar>net\<bar> \<le> k_pos_epsilon then 0 else net);
                c = c\<lparr>sc_net_position := net\<rparr>
            in if deq net 0 then c\<lparr>sc_avg_entry_price := 0, sc_position_opened_at_ns := 0\<rparr>
               else if (net > 0) \<noteq> (prior_pos > 0)
               then c\<lparr>sc_avg_entry_price := fill_px, sc_position_opened_at_ns := now\<rparr>
               else c))"

definition sc_unrealized_pnl :: "OrderBook \<Rightarrow> ShadowConnector \<Rightarrow> double" where
  "sc_unrealized_pnl book c =
     (if deq (sc_net_position c) 0 \<or> sc_avg_entry_price c \<le> 0 then 0
      else let mid = get_mid_price book in
        if mid \<le> 0 then 0
        else if sc_net_position c > 0 then (mid - sc_avg_entry_price c) * sc_net_position c
        else (sc_avg_entry_price c - mid) * (- sc_net_position c))"

definition sc_total_pnl :: "OrderBook \<Rightarrow> ShadowConnector \<Rightarrow> double" where
  "sc_total_pnl book c = (sc_realized_pnl c - sc_total_fees c) + sc_unrealized_pnl book c"

definition sc_inventory_age_ms :: "int \<Rightarrow> ShadowConnector \<Rightarrow> int" where
  "sc_inventory_age_ms now c =
     (if \<bar>sc_net_position c\<bar> \<le> k_pos_epsilon \<or> sc_position_opened_at_ns c = 0 then 0
      else (now - sc_position_opened_at_ns c) sdiv 1000000)"

definition sc_active_orders :: "ShadowConnector \<Rightarrow> u32" where
  "sc_active_orders c = of_nat (length (filter so_active (sc_orders c)))"

subsection \<open>Filling an order\<close>

definition k_fill_epsilon :: double where "k_fill_epsilon = lit (1 / 10 ^ 12)"

text \<open>\<open>fill_order\<close> is the part of \<open>apply_fill\<close> that updates the order itself.\<close>

definition fill_order :: "double \<Rightarrow> double \<Rightarrow> ShadowOrder \<Rightarrow> ShadowOrder" where
  "fill_order fill_px fill_qty s =
     (let s = s\<lparr>so_filled_qty := so_filled_qty s + fill_qty,
                so_notional_filled := so_notional_filled s + fill_px * fill_qty\<rparr>
      in if so_filled_qty s \<ge> so_quantity s - k_fill_epsilon
         then s\<lparr>so_filled_qty := so_quantity s, so_active := False\<rparr> else s)"

definition sc_apply_fill :: "nat \<Rightarrow> double \<Rightarrow> double \<Rightarrow> int \<Rightarrow> ShadowConnector \<Rightarrow> ShadowConnector" where
  "sc_apply_fill i fill_px fill_qty now c =
     (if fill_qty \<le> 0 then c
      else
        let opened_position = so_filled_qty (sc_orders c ! i) \<le> k_fill_epsilon;
            c = update_order i (fill_order fill_px fill_qty) c;
            s = sc_orders c ! i;
            fee_bps = fee_for (sc_cfg c) s;
            fee = (fee_bps / lit 10000) * fill_px * fill_qty;
            cash_sign = (if so_side s = ASK then 1 else - 1);
            cashflow = cash_sign * fill_px * fill_qty - fee;
            c = c\<lparr>sc_gross_notional := sc_gross_notional c + fill_px * fill_qty,
                  sc_total_fills := sc_total_fills c + 1\<rparr>;
            c = (if opened_position then c\<lparr>sc_opened_positions := sc_opened_positions c + 1\<rparr> else c);
            c = c\<lparr>sc_net_cashflow := sc_net_cashflow c + cashflow,
                  sc_total_fees := sc_total_fees c + fee\<rparr>;
            c = apply_position_fill (so_side s) fill_qty fill_px now c
        in emit_fill_report s fill_px fill_qty now c)"

definition deactivate :: "nat \<Rightarrow> ShadowConnector \<Rightarrow> ShadowConnector" where
  "deactivate i = update_order i (\<lambda>s. s\<lparr>so_active := False\<rparr>)"

definition fill_at_best :: "OrderBook \<Rightarrow> nat \<Rightarrow> double \<Rightarrow> int \<Rightarrow> ShadowConnector \<Rightarrow> ShadowConnector" where
  "fill_at_best book i qty now c =
     (if qty \<le> 0 then c
      else let s = sc_orders c ! i;
               fill_px = (if so_side s = BID then get_best_ask book else get_best_bid book)
           in if fill_px \<le> 0 then deactivate i (emit_reject s ''no_liquidity'' now c)
              else sc_apply_fill i (apply_slippage book (sc_cfg c) fill_px qty (so_side s)) qty now c)"

definition fill_passive_or_cross :: "OrderBook \<Rightarrow> nat \<Rightarrow> int \<Rightarrow> ShadowConnector \<Rightarrow> ShadowConnector" where
  "fill_passive_or_cross book i now c =
     (let s = sc_orders c ! i;
          remaining = so_quantity s - so_filled_qty s
      in if remaining \<le> 0 then deactivate i c
         else let top_size = top_opposite_size book (so_side s) in
           if top_size \<le> 0 then deactivate i (emit_reject s ''no_liquidity'' now c)
           else
             let available = top_size * sf_queue_match_fraction_per_check (sc_cfg c);
                 queue = so_queue_ahead_qty s;
                 consumed = (if queue > 0 then (if available > queue then queue else available) else 0);
                 c = (if queue > 0 then update_order i (\<lambda>s. s\<lparr>so_queue_ahead_qty := queue - consumed\<rparr>) c else c);
                 available = (if queue > 0 then available - consumed else available)
             in if available \<le> 0 then c
                else fill_at_best book i (if available > remaining then remaining else available) now c)"

subsection \<open>The connector's operations\<close>

definition new_shadow_order :: "OrderBook \<Rightarrow> ShadowConfig \<Rightarrow> ShadowIntentMetadata \<Rightarrow> int \<Rightarrow> Order \<Rightarrow> ShadowOrder" where
  "new_shadow_order book cfg intent now order =
     (let s = mk_ShadowOrder\<lparr>so_client_order_id := o_client_order_id order,
            so_symbol := buf_copy 16 (o_symbol order), so_exchange := o_exchange order,
            so_side := o_side order, so_type := o_type order, so_tif := o_tif order,
            so_price := o_price order, so_quantity := o_quantity order, so_submit_ts_ns := now,
            so_release_ts_ns := now + modeled_latency_ns cfg (o_client_order_id order),
            so_active := True, so_is_maker := False\<rparr>
      in s\<lparr>so_queue_ahead_qty := queue_ahead_at_submit book s,
           so_intent := (if si_decision_ts_ns intent \<le> 0 then intent\<lparr>si_decision_ts_ns := now\<rparr> else intent),
           so_decision_price := decision_price book (o_side order),
           so_decision_mid := get_mid_price book\<rparr>)"

definition sc_submit_order :: "OrderBook \<Rightarrow> int \<Rightarrow> Order \<Rightarrow> ShadowConnector \<Rightarrow> ConnectorResult \<times> ShadowConnector" where
  "sc_submit_order book now order c =
     (case find_slot (\<lambda>s. \<not> so_active s) (sc_orders c) of
        None \<Rightarrow> (ERROR_UNKNOWN, c)
      | Some i \<Rightarrow>
          let s = new_shadow_order book (sc_cfg c) (sc_next_intent c) now order;
              c = update_order i (\<lambda>_. s) c;
              fillable_now = is_immediately_fillable book s;
              released = so_submit_ts_ns s \<ge> so_release_ts_ns s
          in if released \<and> (o_type order = MARKET \<or> fillable_now)
             then (C_OK, fill_at_best book i (so_quantity s) now c)
             else (C_OK, update_order i (\<lambda>s. s\<lparr>so_is_maker := True\<rparr>) c))"

definition sc_cancel_order :: "int \<Rightarrow> u64 \<Rightarrow> ShadowConnector \<Rightarrow> ConnectorResult \<times> ShadowConnector" where
  "sc_cancel_order now client_id c =
     (case find_slot (\<lambda>s. so_active s \<and> so_client_order_id s = client_id) (sc_orders c) of
        None \<Rightarrow> (ERROR_UNKNOWN, c)
      | Some i \<Rightarrow> (C_OK, deactivate i (emit_cancel (sc_orders c ! i) now c)))"

definition sc_replace_order :: "OrderBook \<Rightarrow> int \<Rightarrow> u64 \<Rightarrow> Order \<Rightarrow> ShadowConnector \<Rightarrow> ConnectorResult \<times> ShadowConnector" where
  "sc_replace_order book now client_order_id replacement c =
     (case sc_cancel_order now client_order_id c of
        (cancel_res, c) \<Rightarrow>
          if cancel_res \<noteq> C_OK then (cancel_res, c) else sc_submit_order book now replacement c)"

definition sc_query_order :: "int \<Rightarrow> u64 \<Rightarrow> FillUpdate \<Rightarrow> ShadowConnector \<Rightarrow> ConnectorResult \<times> FillUpdate" where
  "sc_query_order now client_order_id status c =
     (case find_slot (\<lambda>s. so_active s \<and> so_client_order_id s = client_order_id) (sc_orders c) of
        None \<Rightarrow> (ERROR_INVALID_ORDER, status)
      | Some i \<Rightarrow>
          let s = sc_orders c ! i in
          (C_OK, status\<lparr>fu_client_order_id := client_order_id, fu_fill_qty := so_filled_qty s,
             fu_cumulative_filled_qty := so_filled_qty s,
             fu_avg_fill_price := (if so_filled_qty s > 0 then so_notional_filled s / so_filled_qty s else 0),
             fu_new_state := (if so_filled_qty s > 0 then PARTIALLY_FILLED else OPEN),
             fu_local_ts_ns := now\<rparr>))"

definition cancel_slot :: "int \<Rightarrow> string \<Rightarrow> nat \<Rightarrow> ShadowConnector \<Rightarrow> ShadowConnector" where
  "cancel_slot now symbol i c =
     (let s = sc_orders c ! i in
      if so_active s \<and> strncmp_eq 15 (so_symbol s) symbol then deactivate i (emit_cancel s now c) else c)"

definition sc_cancel_all :: "int \<Rightarrow> string \<Rightarrow> ShadowConnector \<Rightarrow> ConnectorResult \<times> ShadowConnector" where
  "sc_cancel_all now symbol c = (C_OK, fold (cancel_slot now symbol) [0..<length (sc_orders c)] c)"

definition check_slot :: "OrderBook \<Rightarrow> int \<Rightarrow> nat \<Rightarrow> ShadowConnector \<Rightarrow> ShadowConnector" where
  "check_slot book now i c =
     (let s = sc_orders c ! i in
      if \<not> so_active s \<or> now < so_release_ts_ns s then c
      else if so_type s = MARKET then fill_at_best book i (so_quantity s - so_filled_qty s) now c
      else let fillable = is_immediately_fillable book s in
        if so_tif s = IOC \<and> \<not> fillable then deactivate i (emit_cancel s now c)
        else if fillable then fill_passive_or_cross book i now c else c)"

definition sc_check_fills :: "OrderBook \<Rightarrow> int \<Rightarrow> ShadowConnector \<Rightarrow> ShadowConnector" where
  "sc_check_fills book now c = fold (check_slot book now) [0..<length (sc_orders c)] c"

section \<open>The engine\<close>

record ShadowEngine =
  se_state :: ShadowExecutionState
  se_binance :: ShadowConnector
  se_kraken :: ShadowConnector
  se_okx :: ShadowConnector
  se_coinbase :: ShadowConnector

record ShadowBooks =
  bk_binance :: OrderBook
  bk_kraken :: OrderBook
  bk_okx :: OrderBook
  bk_coinbase :: OrderBook

definition se_init :: "ShadowConfig \<Rightarrow> ShadowEngine" where
  "se_init cfg = \<lparr>se_state = FLAT, se_binance = sc_init BINANCE cfg, se_kraken = sc_init KRAKEN cfg,
     se_okx = sc_init OKX cfg, se_coinbase = sc_init COINBASE cfg\<rparr>"

definition se_check_fills :: "ShadowBooks \<Rightarrow> int \<Rightarrow> ShadowEngine \<Rightarrow> ShadowEngine" where
  "se_check_fills bk now e =
     e\<lparr>se_binance := sc_check_fills (bk_binance bk) now (se_binance e),
       se_kraken := sc_check_fills (bk_kraken bk) now (se_kraken e),
       se_okx := sc_check_fills (bk_okx bk) now (se_okx e),
       se_coinbase := sc_check_fills (bk_coinbase bk) now (se_coinbase e)\<rparr>"

definition se_sum :: "(ShadowConnector \<Rightarrow> 'a::plus) \<Rightarrow> ShadowEngine \<Rightarrow> 'a" where
  "se_sum f e = f (se_binance e) + f (se_kraken e) + f (se_okx e) + f (se_coinbase e)"

definition se_net_pnl :: "ShadowBooks \<Rightarrow> ShadowEngine \<Rightarrow> double" where
  "se_net_pnl bk e = sc_total_pnl (bk_binance bk) (se_binance e) + sc_total_pnl (bk_kraken bk) (se_kraken e)
     + sc_total_pnl (bk_okx bk) (se_okx e) + sc_total_pnl (bk_coinbase bk) (se_coinbase e)"

definition se_unrealized_pnl :: "ShadowBooks \<Rightarrow> ShadowEngine \<Rightarrow> double" where
  "se_unrealized_pnl bk e = sc_unrealized_pnl (bk_binance bk) (se_binance e) + sc_unrealized_pnl (bk_kraken bk) (se_kraken e)
     + sc_unrealized_pnl (bk_okx bk) (se_okx e) + sc_unrealized_pnl (bk_coinbase bk) (se_coinbase e)"

definition se_realized_pnl :: "ShadowEngine \<Rightarrow> double" where "se_realized_pnl = se_sum sc_realized_pnl"
definition se_total_fees :: "ShadowEngine \<Rightarrow> double" where "se_total_fees = se_sum sc_total_fees"
definition se_net_cashflow :: "ShadowEngine \<Rightarrow> double" where "se_net_cashflow = se_sum sc_net_cashflow"
definition se_gross_notional :: "ShadowEngine \<Rightarrow> double" where "se_gross_notional = se_sum sc_gross_notional"
definition se_total_fills :: "ShadowEngine \<Rightarrow> u64" where "se_total_fills = se_sum sc_total_fills"
definition se_opened_positions :: "ShadowEngine \<Rightarrow> u64" where "se_opened_positions = se_sum sc_opened_positions"
definition se_net_position :: "ShadowEngine \<Rightarrow> double" where "se_net_position = se_sum sc_net_position"

definition se_inventory_age_ms :: "int \<Rightarrow> ShadowEngine \<Rightarrow> int" where
  "se_inventory_age_ms now e =
     max (max (max (sc_inventory_age_ms now (se_binance e)) (sc_inventory_age_ms now (se_kraken e)))
       (sc_inventory_age_ms now (se_okx e))) (sc_inventory_age_ms now (se_coinbase e))"

definition se_update_state ::
  "double \<Rightarrow> bool \<Rightarrow> bool \<Rightarrow> string option \<Rightarrow> ShadowEngine \<Rightarrow> ShadowStateTransition \<times> ShadowEngine" where
  "se_update_state target_position flatten_now halted reason e =
     (case sm_evaluate (se_net_position e) target_position flatten_now halted reason (se_state e) of
        (transition, st) \<Rightarrow> (transition, e\<lparr>se_state := st\<rparr>))"

section \<open>The moves of a connector\<close>

text \<open>
  Every operation is a sequence of the following moves; \<open>strict\<close> adds that quantities are numbers.
  Invariants are proved once for the moves.
\<close>

definition sane_quantity :: "double \<Rightarrow> bool" where
  "sane_quantity q \<longleftrightarrow> dwf q \<and> isfinite q \<and> 0 \<le> q"

inductive sc_move :: "bool \<Rightarrow> ShadowConnector \<Rightarrow> ShadowConnector \<Rightarrow> bool" for strict where
  fill: "\<not> qty \<le> 0 \<Longrightarrow> strict \<longrightarrow> \<not> isnan qty \<Longrightarrow> i < length (sc_orders c) \<Longrightarrow> so_active (sc_orders c ! i) \<Longrightarrow>
    sc_move strict c (sc_apply_fill i px qty now c)"
| reject: "i < length (sc_orders c) \<Longrightarrow> so_active (sc_orders c ! i) \<Longrightarrow>
    sc_move strict c (deactivate i (emit_reject (sc_orders c ! i) why now c))"
| cancel: "i < length (sc_orders c) \<Longrightarrow> so_active (sc_orders c ! i) \<Longrightarrow>
    sc_move strict c (deactivate i (emit_cancel (sc_orders c ! i) now c))"
| drop: "sc_move strict c (deactivate i c)"
| place: "i < length (sc_orders c) \<Longrightarrow> \<not> so_active (sc_orders c ! i) \<Longrightarrow> so_active s \<Longrightarrow> so_filled_qty s = 0 \<Longrightarrow>
    strict \<longrightarrow> sane_quantity (so_quantity s) \<Longrightarrow> sc_move strict c (update_order i (\<lambda>_. s) c)"
| queue: "sc_move strict c (update_order i (\<lambda>s. s\<lparr>so_queue_ahead_qty := q\<rparr>) c)"
| maker: "sc_move strict c (update_order i (\<lambda>s. s\<lparr>so_is_maker := True\<rparr>) c)"
| intent: "sc_move strict c (set_intent_metadata m c)"

abbreviation sc_moves :: "bool \<Rightarrow> ShadowConnector \<Rightarrow> ShadowConnector \<Rightarrow> bool" where
  "sc_moves strict \<equiv> (sc_move strict)\<^sup>*\<^sup>*"

lemma length_update_order [simp]: "length (sc_orders (update_order i f c)) = length (sc_orders c)"
  by (simp add: update_order_def)

lemma nth_update_order [simp]:
  "i < length (sc_orders c) \<Longrightarrow> sc_orders (update_order i f c) ! j = (if j = i then f (sc_orders c ! i) else sc_orders c ! j)"
  by (simp add: update_order_def)

lemma cfg_update_order [simp]: "sc_cfg (update_order i f c) = sc_cfg c"
  by (simp add: update_order_def)

lemma sc_moves_fill_at_best:
  assumes "strict \<longrightarrow> \<not> isnan qty" "i < length (sc_orders c)" "so_active (sc_orders c ! i)"
  shows "sc_moves strict c (fill_at_best book i qty now c)"
proof (cases "qty \<le> 0")
  case False
  then show ?thesis using assms
    by (auto simp: fill_at_best_def Let_def intro!: r_into_rtranclp sc_move.fill sc_move.reject)
qed (simp add: fill_at_best_def)

text \<open>What the strict moves ask of a call: a sane order, and a finite share of the touch.\<close>

definition finite_touch :: "OrderBook \<Rightarrow> ShadowConnector \<Rightarrow> bool" where
  "finite_touch book c \<longleftrightarrow>
     isfinite (top_opposite_size book BID * sf_queue_match_fraction_per_check (sc_cfg c)) \<and>
     isfinite (top_opposite_size book ASK * sf_queue_match_fraction_per_check (sc_cfg c))"

definition sane_slot :: "ShadowOrder \<Rightarrow> bool" where
  "sane_slot s \<longleftrightarrow> sane_quantity (so_quantity s) \<and> 0 \<le> so_filled_qty s \<and> so_filled_qty s \<le> so_quantity s"

definition sane_slots :: "ShadowConnector \<Rightarrow> bool" where
  "sane_slots c \<longleftrightarrow> (\<forall>s \<in> set (sc_orders c). sane_slot s)"

lemma sane_slotsD: "sane_slots c \<Longrightarrow> i < length (sc_orders c) \<Longrightarrow> sane_slot (sc_orders c ! i)"
  by (simp add: sane_slots_def)

lemma sane_slot_finite:
  assumes "sane_slot s" shows "isfinite (so_filled_qty s)" "isfinite (so_quantity s)"
proof -
  show q: "isfinite (so_quantity s)" using assms by (simp add: sane_slot_def sane_quantity_def)
  show "isfinite (so_filled_qty s)"
    using assms q by (cases "so_filled_qty s"; cases "so_quantity s") (auto simp: sane_slot_def dbl_ord_defs zero_double_def)
qed

lemma sane_update:
  assumes "sane_slots c" "sane_slot (f (sc_orders c ! i))" shows "sane_slots (update_order i f c)"
  using assms set_update_subset_insert[of "sc_orders c" i "f (sc_orders c ! i)"]
  by (auto simp: sane_slots_def update_order_def)

lemma sane_deactivate: "sane_slots c \<Longrightarrow> sane_slots (deactivate i c)"
proof (cases "i < length (sc_orders c)")
  case True
  assume "sane_slots c"
  then show ?thesis unfolding deactivate_def
    by (rule sane_update) (use sane_slotsD[OF \<open>sane_slots c\<close> True] in \<open>simp add: sane_slot_def\<close>)
qed (simp add: deactivate_def update_order_def list_update_beyond)

lemma orders_emit [simp]: "sc_orders (emit u c) = sc_orders c" "sc_cfg (emit u c) = sc_cfg c"
  by (simp_all add: emit_def)

lemma orders_reports [simp]:
  "sc_orders (emit_reject s why now c) = sc_orders c" "sc_orders (emit_cancel s now c) = sc_orders c"
  "sc_orders (emit_fill_report s px q now c) = sc_orders c"
  "sc_cfg (emit_reject s why now c) = sc_cfg c" "sc_cfg (emit_cancel s now c) = sc_cfg c"
  "sc_cfg (emit_fill_report s px q now c) = sc_cfg c"
  by (simp_all add: emit_reject_def emit_cancel_def emit_fill_report_def)

lemma orders_position [simp]:
  "sc_orders (apply_position_fill side q px now c) = sc_orders c"
  "sc_cfg (apply_position_fill side q px now c) = sc_cfg c"
  "sc_total_fees (apply_position_fill side q px now c) = sc_total_fees c"
  "sc_total_fills (apply_position_fill side q px now c) = sc_total_fills c"
  "sc_reports (apply_position_fill side q px now c) = sc_reports c"
  by (simp_all add: apply_position_fill_def Let_def)

lemma orders_apply_fill:
  "sc_orders (sc_apply_fill i px q now c) = (if q \<le> 0 then sc_orders c else sc_orders (update_order i (fill_order px q) c))"
  "sc_cfg (sc_apply_fill i px q now c) = sc_cfg c"
  by (auto simp: sc_apply_fill_def Let_def)

lemma sane_fill_order:
  assumes s: "sane_slot s" and q: "\<not> q \<le> 0" "\<not> isnan q" shows "sane_slot (fill_order px q s)"
proof -
  have pos: "0 \<le> q" using q dbl_not_le[of q 0] dbl_less_imp_le by auto
  have f: "isfinite (so_filled_qty s)" "isfinite (so_quantity s)" using sane_slot_finite[OF s] by auto
  have nn: "0 \<le> so_filled_qty s + q" using s pos by (intro add_nonneg) (simp_all add: sane_slot_def)
  have e: "0 \<le> k_fill_epsilon" "isfinite k_fill_epsilon" by code_simp+
  show ?thesis
  proof (cases "so_filled_qty s + q \<ge> so_quantity s - k_fill_epsilon")
    case True
    then show ?thesis using s f by (simp add: fill_order_def sane_slot_def sane_quantity_def)
  next
    case False
    have "so_filled_qty s + q < so_quantity s - k_fill_epsilon"
      using False dbl_not_le[of "so_quantity s - k_fill_epsilon" "so_filled_qty s + q"] sub_not_nan[OF f(2) e(2)] le_nanD[OF nn] by auto
    moreover have "so_quantity s - k_fill_epsilon \<le> so_quantity s"
      using s sub_le[OF e(1), of "so_quantity s"] sub_not_nan[OF f(2) e(2)] by (simp add: sane_slot_def sane_quantity_def)
    ultimately have "so_filled_qty s + q \<le> so_quantity s"
      by (blast intro: dbl_less_imp_le dbl_less_le_trans)
    with False nn s show ?thesis by (simp add: fill_order_def sane_slot_def)
  qed
qed

lemma sane_move: "sc_move True c c' \<Longrightarrow> sane_slots c \<Longrightarrow> sane_slots c'"
proof (induction rule: sc_move.induct)
  case (fill qty i c px now)
  then have "sane_slots (update_order i (fill_order px qty) c)"
    by (intro sane_update sane_fill_order sane_slotsD) auto
  with fill(1) show ?case by (simp add: sane_slots_def orders_apply_fill)
next
  case (reject i c why now)
  then show ?case using sane_deactivate[of "emit_reject (sc_orders c ! i) why now c" i] by (simp add: sane_slots_def)
next
  case (cancel i c now)
  then show ?case using sane_deactivate[of "emit_cancel (sc_orders c ! i) now c" i] by (simp add: sane_slots_def)
next
  case (drop c i)
  then show ?case by (rule sane_deactivate)
next
  case (place i c s)
  then show ?case by (intro sane_update) (auto simp: sane_slot_def sane_quantity_def)
next
  case (queue c i q)
  then show ?case
    by (cases "i < length (sc_orders c)")
       (auto simp: sane_slot_def update_order_def list_update_beyond sane_slots_def dest!: set_update_subset_insert[THEN subsetD])
next
  case (maker c i)
  then show ?case
    by (cases "i < length (sc_orders c)")
       (auto simp: sane_slot_def update_order_def list_update_beyond sane_slots_def dest!: set_update_subset_insert[THEN subsetD])
next
  case (intent c m)
  then show ?case by (simp add: sane_slots_def set_intent_metadata_def)
qed

lemma cfg_move: "sc_move strict c c' \<Longrightarrow> sc_cfg c' = sc_cfg c \<and> length (sc_orders c') = length (sc_orders c)"
  by (induction rule: sc_move.induct)
     (auto simp: orders_apply_fill deactivate_def set_intent_metadata_def update_order_def)

lemma cfg_moves: "sc_moves strict c c' \<Longrightarrow> sc_cfg c' = sc_cfg c \<and> length (sc_orders c') = length (sc_orders c)"
  by (induction rule: rtranclp_induct) (auto dest: cfg_move)

lemma sane_moves: "sc_moves True c c' \<Longrightarrow> sane_slots c \<Longrightarrow> sane_slots c'"
  by (induction rule: rtranclp_induct) (auto dest: sane_move)

definition strict_ok :: "bool \<Rightarrow> OrderBook \<Rightarrow> ShadowConnector \<Rightarrow> bool" where
  "strict_ok strict book c \<longleftrightarrow> (strict \<longrightarrow> finite_touch book c \<and> sane_slots c)"

lemma strict_ok_moves: "strict_ok strict book c \<Longrightarrow> sc_moves strict c c' \<Longrightarrow> strict_ok strict book c'"
  using sane_moves[of c c'] cfg_moves[of strict c c'] by (auto simp: strict_ok_def finite_touch_def)

lemma finite_consume:
  assumes a: "isfinite a" and q: "q > 0" shows "\<not> isnan (a - (if a > q then q else a))"
proof (cases "a > q")
  case True
  with a q have "isfinite q" by (cases q; cases a) (auto simp: dbl_ord_defs zero_double_def)
  with True a show ?thesis by (simp add: sub_not_nan)
qed (simp add: sub_not_nan a)

lemma sc_moves_passive:
  assumes ok: "strict_ok strict book c" and i: "i < length (sc_orders c)" and act: "so_active (sc_orders c ! i)"
  shows "sc_moves strict c (fill_passive_or_cross book i now c)"
proof -
  let ?s = "sc_orders c ! i" and ?top = "top_opposite_size book (so_side (sc_orders c ! i))"
  let ?rem = "so_quantity ?s - so_filled_qty ?s" and ?q = "so_queue_ahead_qty ?s"
  let ?a = "?top * sf_queue_match_fraction_per_check (sc_cfg c)"
  let ?used = "if ?a > ?q then ?q else ?a"
  let ?c = "if ?q > 0 then update_order i (\<lambda>s. s\<lparr>so_queue_ahead_qty := ?q - ?used\<rparr>) c else c"
  let ?b = "if ?q > 0 then ?a - ?used else ?a"
  consider (full) "?rem \<le> 0" | (dry) "\<not> ?rem \<le> 0" "?top \<le> 0" | (wait) "\<not> ?rem \<le> 0" "\<not> ?top \<le> 0" "?b \<le> 0"
    | (fill) "\<not> ?rem \<le> 0" "\<not> ?top \<le> 0" "\<not> ?b \<le> 0" by blast
  then show ?thesis
  proof cases
    case full
    then show ?thesis by (auto simp: fill_passive_or_cross_def Let_def intro!: r_into_rtranclp sc_move.drop)
  next
    case dry
    then show ?thesis using i act
      by (auto simp: fill_passive_or_cross_def Let_def intro!: r_into_rtranclp sc_move.reject)
  next
    case wait
    then have "fill_passive_or_cross book i now c = ?c"
      by (cases "?q > 0") (simp_all add: fill_passive_or_cross_def Let_def)
    then show ?thesis by (simp add: r_into_rtranclp sc_move.queue)
  next
    case fill
    then have e: "fill_passive_or_cross book i now c = fill_at_best book i (if ?b > ?rem then ?rem else ?b) now ?c"
      by (cases "?q > 0") (simp_all add: fill_passive_or_cross_def Let_def)
    have "\<not> isnan (if ?b > ?rem then ?rem else ?b)" if strict
    proof -
      from ok that have "isfinite ?a" "sane_slot ?s"
        using sane_slotsD[of c i] i by (auto simp: strict_ok_def finite_touch_def split: Side.splits) (metis (full_types) Side.exhaust)
      then show ?thesis using finite_consume[of ?a ?q] sane_slot_finite[of ?s] sub_not_nan by auto
    qed
    then have "sc_moves strict ?c (fill_at_best book i (if ?b > ?rem then ?rem else ?b) now ?c)"
      using i act by (intro sc_moves_fill_at_best) auto
    moreover have "sc_moves strict c ?c" by (auto intro: sc_move.queue)
    ultimately show ?thesis unfolding e by (rule rtranclp_trans[rotated])
  qed
qed

lemma sc_moves_check_slot:
  assumes ok: "strict_ok strict book c" and i: "i < length (sc_orders c)"
  shows "sc_moves strict c (check_slot book now i c)"
proof -
  let ?s = "sc_orders c ! i"
  consider (skip) "\<not> so_active ?s \<or> now < so_release_ts_ns ?s"
    | (live) "so_active ?s" "\<not> now < so_release_ts_ns ?s" by blast
  then show ?thesis
  proof cases
    case live
    have m: "sc_moves strict c (fill_at_best book i (so_quantity ?s - so_filled_qty ?s) now c)"
      using ok i live sane_slot_finite[OF sane_slotsD] sub_not_nan
      by (intro sc_moves_fill_at_best) (auto simp: strict_ok_def)
    show ?thesis
      using m sc_moves_passive[OF ok i live(1)] live i
      by (auto simp: check_slot_def Let_def intro!: r_into_rtranclp sc_move.cancel)
  qed (auto simp: check_slot_def Let_def)
qed

lemma sc_moves_fold:
  assumes "\<And>i c. strict_ok strict book c \<Longrightarrow> i < length (sc_orders c) \<Longrightarrow> sc_moves strict c (f i c)"
  shows "strict_ok strict book c \<Longrightarrow> \<forall>i \<in> set is. i < length (sc_orders c) \<Longrightarrow> sc_moves strict c (fold f is c)"
proof (induction "is" arbitrary: c)
  case (Cons i is')
  then have 1: "sc_moves strict c (f i c)" by (intro assms) auto
  from cfg_moves[OF 1] Cons.prems(2) have "\<forall>j \<in> set is'. j < length (sc_orders (f i c))" by auto
  from Cons.IH[OF strict_ok_moves[OF Cons.prems(1) 1] this] 1 show ?case by simp
qed simp

lemma sc_moves_check_fills: "strict_ok strict book c \<Longrightarrow> sc_moves strict c (sc_check_fills book now c)"
  unfolding sc_check_fills_def by (rule sc_moves_fold[OF sc_moves_check_slot]) auto

lemma sc_moves_cancel_all: "sc_moves strict c (snd (sc_cancel_all now symbol c))"
proof -
  have "sc_moves strict c (fold (cancel_slot now symbol) is c)" if "\<forall>i \<in> set is. i < length (sc_orders c)" for "is"
    using that
  proof (induction "is" arbitrary: c)
    case (Cons i is')
    then have 1: "sc_moves strict c (cancel_slot now symbol i c)"
      by (auto simp: cancel_slot_def Let_def intro!: r_into_rtranclp sc_move.cancel)
    from cfg_moves[OF 1] Cons.prems have "\<forall>j \<in> set is'. j < length (sc_orders (cancel_slot now symbol i c))" by auto
    from Cons.IH[OF this] 1 show ?case by simp
  qed simp
  then show ?thesis by (simp add: sc_cancel_all_def)
qed

lemma sc_moves_cancel: "sc_moves strict c (snd (sc_cancel_order now cid c))"
proof (cases "find_slot (\<lambda>s. so_active s \<and> so_client_order_id s = cid) (sc_orders c)")
  case (Some i)
  then show ?thesis using find_slot_SomeD[OF Some]
    by (auto simp: sc_cancel_order_def intro!: r_into_rtranclp sc_move.cancel)
qed (simp add: sc_cancel_order_def)

lemma new_shadow_order_fields [simp]:
  "so_active (new_shadow_order book cfg m now o1)" "so_filled_qty (new_shadow_order book cfg m now o1) = 0"
  "so_quantity (new_shadow_order book cfg m now o1) = o_quantity o1"
  "so_type (new_shadow_order book cfg m now o1) = o_type o1"
  "so_exchange (new_shadow_order book cfg m now o1) = o_exchange o1"
  "so_side (new_shadow_order book cfg m now o1) = o_side o1"
  "so_submit_ts_ns (new_shadow_order book cfg m now o1) = now"
  "so_release_ts_ns (new_shadow_order book cfg m now o1) = now + modeled_latency_ns cfg (o_client_order_id o1)"
  by (simp_all add: new_shadow_order_def Let_def mk_ShadowOrder_def)

lemma sc_moves_submit:
  assumes q: "strict \<longrightarrow> sane_quantity (o_quantity o1)"
  shows "sc_moves strict c (snd (sc_submit_order book now o1 c))"
proof (cases "find_slot (\<lambda>s. \<not> so_active s) (sc_orders c)")
  case (Some i)
  let ?s = "new_shadow_order book (sc_cfg c) (sc_next_intent c) now o1"
  let ?c = "update_order i (\<lambda>_. ?s) c"
  have i: "i < length (sc_orders c)" "\<not> so_active (sc_orders c ! i)" using find_slot_SomeD[OF Some] by auto
  have p: "sc_move strict c ?c" using i q by (intro sc_move.place) auto
  have f: "sc_moves strict ?c (fill_at_best book i (o_quantity o1) now ?c)"
    using i q by (intro sc_moves_fill_at_best) (auto simp: sane_quantity_def)
  have m: "sc_moves strict ?c (update_order i (\<lambda>s. s\<lparr>so_is_maker := True\<rparr>) ?c)"
    by (intro r_into_rtranclp sc_move.maker)
  have "sc_moves strict ?c (snd (sc_submit_order book now o1 c))"
    using Some f m by (auto simp: sc_submit_order_def Let_def)
  with p show ?thesis by (rule converse_rtranclp_into_rtranclp)
qed (simp add: sc_submit_order_def)

subsection \<open>Histories\<close>

datatype sc_op = SSubmit Order | SCancel u64 | SReplace u64 Order | SCancelAll string | SCheck
  | SIntent ShadowIntentMetadata

fun sc_step :: "OrderBook \<times> int \<times> sc_op \<Rightarrow> ShadowConnector \<Rightarrow> ShadowConnector" where
  "sc_step (book, now, SSubmit o1) c = snd (sc_submit_order book now o1 c)"
| "sc_step (book, now, SCancel cid) c = snd (sc_cancel_order now cid c)"
| "sc_step (book, now, SReplace cid o1) c = snd (sc_replace_order book now cid o1 c)"
| "sc_step (book, now, SCancelAll symbol) c = snd (sc_cancel_all now symbol c)"
| "sc_step (book, now, SCheck) c = sc_check_fills book now c"
| "sc_step (book, now, SIntent m) c = set_intent_metadata m c"

fun sane_call :: "ShadowConfig \<Rightarrow> OrderBook \<times> int \<times> sc_op \<Rightarrow> bool" where
  "sane_call cfg (book, now, SSubmit o1) = sane_quantity (o_quantity o1)"
| "sane_call cfg (book, now, SReplace cid o1) = sane_quantity (o_quantity o1)"
| "sane_call cfg (book, now, SCheck) \<longleftrightarrow>
     isfinite (top_opposite_size book BID * sf_queue_match_fraction_per_check cfg) \<and>
     isfinite (top_opposite_size book ASK * sf_queue_match_fraction_per_check cfg)"
| "sane_call cfg _ = True"

lemma sc_moves_step:
  assumes "strict \<longrightarrow> sane_call (sc_cfg c) x \<and> sane_slots c"
  shows "sc_moves strict c (sc_step x c)"
proof -
  obtain book now op where x: "x = (book, now, op)" by (cases x)
  show ?thesis
  proof (cases op)
    case (SReplace cid o1)
    obtain r c1 where 1: "sc_cancel_order now cid c = (r, c1)" by (cases "sc_cancel_order now cid c")
    with sc_moves_cancel[of strict c now cid] have m: "sc_moves strict c c1" by simp
    have "sc_moves strict c1 (snd (sc_submit_order book now o1 c1))"
      using assms x SReplace by (intro sc_moves_submit) auto
    with m have "sc_moves strict c (snd (sc_submit_order book now o1 c1))" by (rule rtranclp_trans)
    with m 1 x SReplace show ?thesis by (auto simp: sc_replace_order_def)
  next
    case SIntent
    then show ?thesis using x by (auto intro: r_into_rtranclp sc_move.intent)
  next
    case SCheck
    then show ?thesis using x assms
      by (auto intro!: sc_moves_check_fills simp: strict_ok_def finite_touch_def)
  qed (use x assms in \<open>auto intro: sc_moves_submit sc_moves_cancel sc_moves_cancel_all\<close>)
qed

definition sc_run :: "(OrderBook \<times> int \<times> sc_op) list \<Rightarrow> ShadowConnector \<Rightarrow> ShadowConnector" where
  "sc_run xs c = fold sc_step xs c"

lemma sc_moves_run: "sc_moves False c (sc_run xs c)"
  unfolding sc_run_def
proof (induction xs arbitrary: c)
  case (Cons x xs)
  from rtranclp_trans[OF sc_moves_step[of False c x] Cons.IH] show ?case by simp
qed simp

lemma sane_run:
  "list_all (sane_call (sc_cfg c)) xs \<Longrightarrow> sane_slots c \<Longrightarrow> sane_slots (sc_run xs c)"
  unfolding sc_run_def
proof (induction xs arbitrary: c)
  case (Cons x xs)
  then have m: "sc_moves True c (sc_step x c)" by (intro sc_moves_step) simp
  from Cons.IH[of "sc_step x c"] Cons.prems cfg_moves[OF m] sane_moves[OF m] show ?case by simp
qed simp

section \<open>What holds over every history\<close>

lemma sane_init: "sane_slots (sc_init ex cfg)"
proof -
  have "sane_slot mk_ShadowOrder"
    by (simp add: sane_slot_def sane_quantity_def mk_ShadowOrder_def)
  then show ?thesis by (simp add: sane_slots_def sc_init_def)
qed

text \<open>A book with one ask level of 2 at 100 and one bid level of 3 at 99.\<close>

definition shadow_cfg :: ShadowConfig where
  "shadow_cfg = \<lparr>sf_binance_maker_fee_bps = Fin 1, sf_binance_taker_fee_bps = Fin 10,
     sf_kraken_maker_fee_bps = 0, sf_kraken_taker_fee_bps = 0, sf_okx_maker_fee_bps = 0,
     sf_okx_taker_fee_bps = 0, sf_coinbase_maker_fee_bps = 0, sf_coinbase_taker_fee_bps = 0,
     sf_base_latency_ns = 150000, sf_latency_jitter_ns = 0, sf_impact_slippage_per_notional_bps = 0,
     sf_queue_match_fraction_per_check = 1, sf_log_path = []\<rparr>"

definition shadow_book :: OrderBook where
  "shadow_book = (ob_init ''BTC'' BINANCE 1 3)\<lparr>ob_base_price := Fin 99, ob_active_levels := 3,
     ob_bid_sizes := [Fin 3, 0, 0], ob_ask_sizes := [0, Fin 2, 0]\<rparr>"

definition shadow_order :: Order where
  "shadow_order = mk_Order\<lparr>o_client_order_id := 1, o_symbol := ''BTC'', o_exchange := BINANCE,
     o_type := LIMIT, o_tif := FOK, o_price := Fin 101, o_quantity := Fin 5\<rparr>"


definition fill_report :: "FillUpdate \<Rightarrow> bool" where
  "fill_report u \<longleftrightarrow> fu_new_state u = FILLED \<or> fu_new_state u = PARTIALLY_FILLED"

definition fills_counted :: "ShadowConnector \<Rightarrow> bool" where
  "fills_counted c \<longleftrightarrow> sc_total_fills c = of_nat (length (filter fill_report (sc_reports c)))"

lemma fills_counted_move: "sc_move strict c c' \<Longrightarrow> fills_counted c \<Longrightarrow> fills_counted c'"
proof (induction rule: sc_move.induct)
  case (fill qty i c px now)
  then show ?case
    by (simp add: sc_apply_fill_def Let_def emit_fill_report_def emit_def fills_counted_def fill_report_def
        mk_FillUpdate_def update_order_def)
qed (auto simp: fills_counted_def deactivate_def update_order_def emit_reject_def emit_cancel_def emit_def
  fill_report_def mk_FillUpdate_def set_intent_metadata_def)

text \<open>
  The fill counter is exact: over any history it is the number of fill reports the connector
  has passed to its callback (modulo the 64 bits of the counter).
\<close>
theorem shadow_fills_reported:
  "sc_total_fills (sc_run xs (sc_init ex cfg)) =
   of_nat (length (filter fill_report (sc_reports (sc_run xs (sc_init ex cfg)))))"
proof -
  have "fills_counted c' \<or> \<not> fills_counted c" if "sc_moves False c c'" for c c'
    using that by (induction rule: rtranclp_induct) (auto dest: fills_counted_move)
  from this[OF sc_moves_run[of "sc_init ex cfg" xs]] show ?thesis
    by (simp add: fills_counted_def sc_init_def)
qed

section \<open>The fee of a market order\<close>

lemma fee_apply_fill:
  assumes "i < length (sc_orders c)" "\<not> q \<le> 0"
  shows "sc_total_fees (sc_apply_fill i px q now c) =
    sc_total_fees c + (fee_for (sc_cfg c) (sc_orders c ! i) / lit 10000) * px * q"
proof -
  have "fee_for cfg (fill_order px q s) = fee_for cfg s" for cfg s
    by (simp add: fee_for_def fill_order_def Let_def)
  then show ?thesis
    using assms by (simp add: sc_apply_fill_def Let_def emit_fill_report_def emit_def update_order_def fill_order_def)
qed

lemma first_slot: "find_slot (\<lambda>s. \<not> so_active s) (sc_orders (sc_init ex cfg)) = Some 0"
proof -
  have "find_slot P (replicate (Suc n) x) = Some 0" if "P x" for P n and x :: ShadowOrder using that by simp
  from this[of "\<lambda>s. \<not> so_active s" mk_ShadowOrder 255] show ?thesis
    by (simp add: sc_init_def MAX_SHADOW_ORDERS_def mk_ShadowOrder_def del: replicate_Suc)
qed

lemma submit_rests:
  "0 < modeled_latency_ns (sc_cfg c) (o_client_order_id o1) \<Longrightarrow> find_slot (\<lambda>s. \<not> so_active s) (sc_orders c) = Some i \<Longrightarrow>
   snd (sc_submit_order book now o1 c) = update_order i (\<lambda>s. s\<lparr>so_is_maker := True\<rparr>)
      (update_order i (\<lambda>_. new_shadow_order book (sc_cfg c) (sc_next_intent c) now o1) c)"
  by (simp add: sc_submit_order_def Let_def)

lemma sc_init_fields [simp]:
  "sc_cfg (sc_init ex cfg) = cfg" "sc_next_intent (sc_init ex cfg) = mk_ShadowIntentMetadata"
  "length (sc_orders (sc_init ex cfg)) = 256" "sc_total_fees (sc_init ex cfg) = 0"
  by (simp_all add: sc_init_def MAX_SHADOW_ORDERS_def)

lemma sub_zero: "dwf q \<Longrightarrow> \<not> q \<le> 0 \<Longrightarrow> q - 0 = (q :: double)"
  by (cases q) (auto simp: minus_double_def uminus_double_def zero_double_def plus_double_def pack_def dwf_def)

definition maker_fee_bps :: "ShadowConfig \<Rightarrow> Exchange \<Rightarrow> double" where
  "maker_fee_bps cfg ex = (case ex of BINANCE \<Rightarrow> sf_binance_maker_fee_bps cfg | OKX \<Rightarrow> sf_okx_maker_fee_bps cfg
     | COINBASE \<Rightarrow> sf_coinbase_maker_fee_bps cfg | _ \<Rightarrow> sf_kraken_maker_fee_bps cfg)"

lemma fee_for_maker: "so_is_maker s \<Longrightarrow> fee_for cfg s = maker_fee_bps cfg (so_exchange s)"
  by (cases "so_exchange s") (simp_all add: fee_for_def maker_fee_bps_def)

text \<open>
  Market orders pay the maker fee: with any positive latency a market order is put to rest as a
  maker, so the check that later fills it at the opposite touch charges the maker fee of its
  exchange, never the taker fee.
\<close>
theorem market_order_pays_maker_fee:
  assumes o: "o_type o1 = MARKET" "dwf (o_quantity o1)" "\<not> o_quantity o1 \<le> 0"
    and lat: "0 < modeled_latency_ns (sc_cfg c) (o_client_order_id o1)"
    and slot: "find_slot (\<lambda>s. \<not> so_active s) (sc_orders c) = Some i"
    and later: "now + modeled_latency_ns (sc_cfg c) (o_client_order_id o1) \<le> now'"
    and touch: "\<not> decision_price book' (o_side o1) \<le> 0"
  shows "sc_total_fees (check_slot book' now' i (snd (sc_submit_order book now o1 c))) = sc_total_fees c +
    (maker_fee_bps (sc_cfg c) (o_exchange o1) / lit 10000) *
      apply_slippage book' (sc_cfg c) (decision_price book' (o_side o1)) (o_quantity o1) (o_side o1) * o_quantity o1"
proof -
  let ?s = "(new_shadow_order book (sc_cfg c) (sc_next_intent c) now o1)\<lparr>so_is_maker := True\<rparr>"
  let ?c1 = "snd (sc_submit_order book now o1 c)"
  have i: "i < length (sc_orders c)" using find_slot_length[OF slot] .
  note c1 = submit_rests[OF lat slot, of book now]
  have s: "sc_orders ?c1 ! i = ?s" "i < length (sc_orders ?c1)" "sc_cfg ?c1 = sc_cfg c" "sc_total_fees ?c1 = sc_total_fees c"
    using i unfolding c1 by (simp_all add: update_order_def)
  have p: "(if o_side o1 = BID then get_best_ask book' else get_best_bid book') = decision_price book' (o_side o1)"
    by (simp add: decision_price_def)
  have "check_slot book' now' i ?c1 = sc_apply_fill i
      (apply_slippage book' (sc_cfg c) (decision_price book' (o_side o1)) (o_quantity o1) (o_side o1)) (o_quantity o1) now' ?c1"
    using o later touch s sub_zero[OF o(2,3)] by (simp add: check_slot_def fill_at_best_def Let_def p)
  then show ?thesis
    using fee_apply_fill[OF s(2) o(3)] s fee_for_maker[of ?s] by simp
qed

definition shadow_market :: Order where
  "shadow_market = mk_Order\<lparr>o_client_order_id := 1, o_symbol := ''BTC'', o_exchange := BINANCE,
     o_type := MARKET, o_quantity := Fin 1\<rparr>"

theorem market_order_pays_maker_fee_witness:
  "sc_total_fees (check_slot shadow_book 150000 0 (snd (sc_submit_order shadow_book 0 shadow_market (sc_init BINANCE shadow_cfg)))) =
   0 + (Fin 1 / lit 10000) * apply_slippage shadow_book shadow_cfg (Fin 100) (Fin 1) BID * Fin 1"
proof -
  let ?c = "sc_init BINANCE shadow_cfg"
  have d: "decision_price shadow_book (o_side shadow_market) = Fin 100" by code_simp
  have h: "dwf (o_quantity shadow_market)" "\<not> o_quantity shadow_market \<le> 0" "\<not> decision_price shadow_book (o_side shadow_market) \<le> 0"
    by code_simp+
  have l: "modeled_latency_ns shadow_cfg cid = 150000" for cid by (simp add: modeled_latency_ns_def shadow_cfg_def)
  note f = first_slot[of BINANCE shadow_cfg]
  have m: "o_type shadow_market = MARKET" "o_side shadow_market = BID" "o_exchange shadow_market = BINANCE"
    "o_quantity shadow_market = Fin 1"
    by (simp_all add: shadow_market_def mk_Order_def)
  have k: "sc_cfg ?c = shadow_cfg" "sc_total_fees ?c = 0" "maker_fee_bps shadow_cfg BINANCE = Fin 1"
    by (simp_all add: maker_fee_bps_def, simp add: shadow_cfg_def)
  from market_order_pays_maker_fee[OF m(1) h(1,2) _ f _ h(3), of 0 150000 shadow_book] show ?thesis
    unfolding d by (simp add: l k m)
qed

text \<open>
  Fill-or-kill is not honoured: a resting fill-or-kill order that the touch can only fill in part
  is partly filled, reported as such, and stays in the pool.
\<close>
theorem fok_order_partially_filled:
  assumes i: "i < length (sc_orders c)" and s: "s = sc_orders c ! i"
    and o: "so_active s" "so_release_ts_ns s \<le> now" "so_type s = LIMIT" "so_tif s = FOK"
      "is_immediately_fillable book s" "\<not> so_queue_ahead_qty s > 0"
    and a: "a = top_opposite_size book (so_side s) * sf_queue_match_fraction_per_check (sc_cfg c)"
    and part: "0 < a" "a \<le> so_quantity s - so_filled_qty s" "so_filled_qty s + a < so_quantity s - k_fill_epsilon"
      "so_filled_qty s + a < so_quantity s"
    and top: "0 < top_opposite_size book (so_side s)"
  shows "so_active (sc_orders (check_slot book now i c) ! i) \<and>
    so_filled_qty (sc_orders (check_slot book now i c) ! i) = so_filled_qty s + a \<and>
    fu_new_state (last (sc_reports (check_slot book now i c))) = PARTIALLY_FILLED"
proof -
  let ?px = "if so_side s = BID then get_best_ask book else get_best_bid book"
  have px: "\<not> ?px \<le> 0"
    using o(3,5) dbl_leD by (cases "so_side s") (auto simp: is_immediately_fillable_def Let_def)
  have rem: "\<not> so_quantity s - so_filled_qty s \<le> 0"
    using dbl_less_le_trans[OF part(1,2)] dbl_leD by blast
  have gt: "\<not> so_quantity s - so_filled_qty s < a" "\<not> top_opposite_size book (so_side s) \<le> 0" "\<not> a \<le> 0"
    using part(1,2) top dbl_leD by blast+
  have "check_slot book now i c = fill_at_best book i a now c"
    using o rem gt unfolding s a
    by (simp add: check_slot_def fill_passive_or_cross_def Let_def)
  also have "\<dots> = sc_apply_fill i (apply_slippage book (sc_cfg c) ?px a (so_side s)) a now c"
    using gt px unfolding s by (simp add: fill_at_best_def Let_def)
  finally have e: "check_slot book now i c = \<dots>" .
  have ng: "\<not> so_quantity s - k_fill_epsilon \<le> so_filled_qty s + a" "\<not> so_quantity s \<le> so_filled_qty s + a"
    using part(3,4) dbl_leD by blast+
  then have f: "fill_order px a s = s\<lparr>so_filled_qty := so_filled_qty s + a, so_notional_filled := so_notional_filled s + px * a\<rparr>" for px
    by (simp add: fill_order_def)
  show ?thesis
    using i gt(3) ng o(1) unfolding e s[symmetric]
    by (simp add: sc_apply_fill_def Let_def emit_fill_report_def emit_def s[symmetric] f update_order_def)
qed

definition resting_fok :: ShadowOrder where
  "resting_fok = mk_ShadowOrder\<lparr>so_client_order_id := 1, so_type := LIMIT, so_tif := FOK, so_price := Fin 101,
     so_quantity := Fin 5, so_release_ts_ns := 150000, so_active := True, so_is_maker := True\<rparr>"

theorem fok_order_partially_filled_witness:
  "fu_new_state (last (sc_reports (check_slot shadow_book 150000 0
     (update_order 0 (\<lambda>_. resting_fok) (sc_init BINANCE shadow_cfg))))) = PARTIALLY_FILLED"
proof -
  let ?c = "update_order 0 (\<lambda>_. resting_fok) (sc_init BINANCE shadow_cfg)"
  have c: "0 < length (sc_orders ?c)" "sc_orders ?c ! 0 = resting_fok" "sc_cfg ?c = shadow_cfg" by simp_all
  have t: "top_opposite_size shadow_book BID = Fin 2" "get_best_ask shadow_book = Fin 100" by code_simp+
  have n: "Fin 2 * 1 = Fin 2" "Fin 2 \<le> Fin 5 - 0" "0 + Fin 2 < Fin 5 - k_fill_epsilon" "0 + Fin 2 < Fin 5" by code_simp+
  have f: "so_side resting_fok = BID" "so_quantity resting_fok = Fin 5" "so_filled_qty resting_fok = 0" "so_type resting_fok = LIMIT"
    "so_tif resting_fok = FOK" "so_price resting_fok = Fin 101" "so_release_ts_ns resting_fok = 150000" "so_active resting_fok"
    "so_queue_ahead_qty resting_fok = 0"
    by (simp_all add: resting_fok_def mk_ShadowOrder_def)
  have g: "sf_queue_match_fraction_per_check shadow_cfg = 1" by (simp add: shadow_cfg_def)
  have "is_immediately_fillable shadow_book resting_fok"
    using f t by (simp add: is_immediately_fillable_def zero_double_def)
  moreover have "0 < Fin 2" by (simp add: zero_double_def)
  ultimately show ?thesis
    using fok_order_partially_filled[OF c(1) refl, of 150000 shadow_book "Fin 2"]
    unfolding c t f g n by (simp add: n f(8))
qed


section \<open>The execution state\<close>

text \<open>
  The execution state says what it means: halted exactly when halted, flat only at a position
  within the tolerance, and otherwise entering only to grow, reducing only to shrink on the same
  side, holding only an existing position, and flattening whenever the target is on the other side.
\<close>
theorem shadow_state_sound:
  assumes "\<not> isnan p" "\<not> isnan t"
  shows "(next_state p t f h = HALTED) = h \<and>
    (next_state p t f h = FLAT \<longrightarrow> \<bar>p\<bar> \<le> k_pos_epsilon) \<and>
    (next_state p t f h = ENTERING \<longrightarrow> \<bar>p\<bar> < \<bar>t\<bar> \<and> \<not> f) \<and>
    (next_state p t f h = REDUCING \<longrightarrow> \<bar>t\<bar> < \<bar>p\<bar> \<and> (p > 0) = (t > 0)) \<and>
    (next_state p t f h = HOLDING \<longrightarrow> \<bar>p\<bar> > k_pos_epsilon \<and> \<not> f) \<and>
    (\<not> h \<and> \<bar>p\<bar> > k_pos_epsilon \<and> \<bar>t\<bar> > k_pos_epsilon \<and> (p > 0) \<noteq> (t > 0) \<longrightarrow> next_state p t f h = FLATTENING)"
proof -
  have e: "0 < k_pos_epsilon" "- k_pos_epsilon < 0" by code_simp+
  have n: "\<not> isnan \<bar>p\<bar>" "\<not> isnan \<bar>t\<bar>" "\<not> isnan k_pos_epsilon" using assms less_nanD[OF e(1)] by simp_all
  have grow: "\<bar>p\<bar> < \<bar>t\<bar>" if "k_pos_epsilon < \<bar>t\<bar> - \<bar>p\<bar>"
    by (rule sub_sign(1)[OF dbl_less_trans[OF e(1) that]])
  have shrink: "\<bar>t\<bar> < \<bar>p\<bar>" if "\<bar>t\<bar> - \<bar>p\<bar> < - k_pos_epsilon"
    by (rule sub_sign(2)[OF dbl_less_trans[OF that e(2)]])
  have start: "\<bar>p\<bar> < \<bar>t\<bar>" if "\<bar>p\<bar> \<le> k_pos_epsilon" "k_pos_epsilon < \<bar>t\<bar>"
    by (rule dbl_le_less_trans[OF that])
  have opp: "\<not> \<bar>p\<bar> \<le> k_pos_epsilon" if "\<bar>p\<bar> > k_pos_epsilon" using that dbl_leD by blast
  have opt: "\<not> \<bar>t\<bar> \<le> k_pos_epsilon" if "\<bar>t\<bar> > k_pos_epsilon" using that dbl_leD by blast
  have big: "\<bar>p\<bar> > k_pos_epsilon" if "\<not> \<bar>p\<bar> \<le> k_pos_epsilon" using that n dbl_not_le by blast
  have bigt: "\<bar>t\<bar> > k_pos_epsilon" if "\<not> \<bar>t\<bar> \<le> k_pos_epsilon" using that n dbl_not_le by blast
  have small: "\<bar>p\<bar> \<le> k_pos_epsilon" if "\<not> \<bar>p\<bar> > k_pos_epsilon" using that n dbl_not_less by blast
  show ?thesis
  proof (intro conjI)
    show "(next_state p t f h = HALTED) = h" by (simp add: next_state_def Let_def)
    show "next_state p t f h = FLAT \<longrightarrow> \<bar>p\<bar> \<le> k_pos_epsilon"
      using small by (simp add: next_state_def Let_def split: if_splits)
    show "next_state p t f h = ENTERING \<longrightarrow> \<bar>p\<bar> < \<bar>t\<bar> \<and> \<not> f"
      using start grow by (simp add: next_state_def Let_def split: if_splits)
    show "next_state p t f h = REDUCING \<longrightarrow> \<bar>t\<bar> < \<bar>p\<bar> \<and> (p > 0) = (t > 0)"
      using shrink bigt by (auto simp: next_state_def Let_def split: if_splits)
    show "next_state p t f h = HOLDING \<longrightarrow> \<bar>p\<bar> > k_pos_epsilon \<and> \<not> f"
      by (simp add: next_state_def Let_def split: if_splits)
    show "\<not> h \<and> \<bar>p\<bar> > k_pos_epsilon \<and> \<bar>t\<bar> > k_pos_epsilon \<and> (p > 0) \<noteq> (t > 0) \<longrightarrow> next_state p t f h = FLATTENING"
      using opp opt by (simp add: next_state_def Let_def)
  qed
qed


theorem shadow_state_sound_witness:
  "next_state (Fin 2) (Fin 1) False False = REDUCING \<and> \<bar>Fin 1\<bar> < \<bar>Fin 2\<bar>"
proof -
  have "next_state (Fin 2) (Fin 1) False False = REDUCING" by code_simp
  moreover have "next_state (Fin 2) (Fin 1) False False = REDUCING \<longrightarrow> \<bar>Fin 1\<bar> < \<bar>Fin 2\<bar> \<and> (Fin 2 > 0) = (Fin 1 > 0)"
    by (rule shadow_state_sound[THEN conjunct2, THEN conjunct2, THEN conjunct2, THEN conjunct1]) simp_all
  ultimately show ?thesis by blast
qed

text \<open>The modelled latency stays within the jitter around the base latency.\<close>

lemma modeled_latency_bounds:
  assumes "0 \<le> sf_latency_jitter_ns cfg" "sf_latency_jitter_ns cfg < 2 ^ 62"
  shows "sf_base_latency_ns cfg - sf_latency_jitter_ns cfg \<le> modeled_latency_ns cfg cid \<and>
    modeled_latency_ns cfg cid \<le> sf_base_latency_ns cfg + sf_latency_jitter_ns cfg"
proof (cases "sf_latency_jitter_ns cfg \<le> 0")
  case False
  let ?j = "sf_latency_jitter_ns cfg"
  have m: "(?j * 2 + 1) mod 2 ^ 64 = ?j * 2 + 1" using assms False by simp
  have "0 \<le> uint cid mod (?j * 2 + 1)" "uint cid mod (?j * 2 + 1) < ?j * 2 + 1" using False by (simp_all only: pos_mod_sign pos_mod_bound)
  moreover have "uint cid mod (?j * 2 + 1) < 2 ^ 63" using calculation(2) assms(2) by simp
  ultimately show ?thesis using assms False by (simp add: modeled_latency_ns_def Let_def m)
qed (use assms in \<open>simp add: modeled_latency_ns_def\<close>)

end
