(* ===== verification/Portfolio_Intent.thy ===== *)
theory Portfolio_Intent
  imports Position_Ledger Child_Scheduler
begin

text \<open>
  \<open>core/execution/common/portfolio/portfolio_intent_engine.hpp\<close>: from the alpha signal, the
  regime signal, the ledger and the venue quotes to a target position. The engine keeps two regime
  flags with hysteresis. \<open>PortfolioIntent out;\<close> leaves its members uninitialised, reasons apart:
  the garbage is an argument of \<open>evaluate\<close>. The list of reasons is the first \<open>reason_count\<close> codes.
\<close>

datatype PortfolioIntentReasonCode = R_NONE | ALPHA_POSITIVE | ALPHA_NEGATIVE | ALPHA_DECAY
  | NEGATIVE_REVERSAL | POSITIVE_REVERSAL | RISK_OFF | SHOCK_REGIME | ILLIQUID_REGIME
  | STALE_INVENTORY | STALE_SIGNAL | BASIS_TOO_WIDE | HEALTH_DEGRADED | NO_HEALTHY_VENUES

fun reason_code_to_string :: "PortfolioIntentReasonCode \<Rightarrow> string" where
  "reason_code_to_string ALPHA_POSITIVE = ''alpha_positive''"
| "reason_code_to_string ALPHA_NEGATIVE = ''alpha_negative''"
| "reason_code_to_string ALPHA_DECAY = ''alpha_decay''"
| "reason_code_to_string NEGATIVE_REVERSAL = ''negative_reversal''"
| "reason_code_to_string POSITIVE_REVERSAL = ''positive_reversal''"
| "reason_code_to_string RISK_OFF = ''risk_off''"
| "reason_code_to_string SHOCK_REGIME = ''shock_regime''"
| "reason_code_to_string ILLIQUID_REGIME = ''illiquid_regime''"
| "reason_code_to_string STALE_INVENTORY = ''stale_inventory''"
| "reason_code_to_string STALE_SIGNAL = ''stale_signal''"
| "reason_code_to_string BASIS_TOO_WIDE = ''basis_too_wide''"
| "reason_code_to_string HEALTH_DEGRADED = ''health_degraded''"
| "reason_code_to_string NO_HEALTHY_VENUES = ''no_healthy_venues''"
| "reason_code_to_string R_NONE = ''none''"

record PortfolioIntentConfig =
  ic_max_position :: double
  ic_min_entry_signal_bps :: double
  ic_alpha_exit_buffer_bps :: double
  ic_negative_reversal_signal_bps :: double
  ic_positive_reversal_signal_bps :: double
  ic_deadband_signal_bps :: double
  ic_max_risk_score :: double
  ic_shock_enter_threshold :: double
  ic_shock_exit_threshold :: double
  ic_illiquid_enter_threshold :: double
  ic_illiquid_exit_threshold :: double
  ic_regime_persistence_ticks :: int
  ic_stale_inventory_ms :: int
  ic_stale_signal_ms :: int
  ic_max_basis_divergence_bps :: double
  ic_stale_inventory_alpha_hold_bps :: double
  ic_health_reduce_ratio :: double

record PortfolioIntentContext =
  ix_spot_mid_price :: double
  ix_futures_mid_price :: double
  ix_signal_age_ms :: int

record RegimeSignal =
  rg_p_calm :: double
  rg_p_trending :: double
  rg_p_shock :: double
  rg_p_illiquid :: double
  rg_ts_ns :: int

record PortfolioIntent =
  it_target_global_position :: double
  it_position_delta :: double
  it_urgency :: ShadowUrgency
  it_flatten_now :: bool
  it_max_shortfall_bps :: double
  it_expected_cost_bps :: double
  it_basis_slippage_bps :: double
  it_alpha_edge_bps :: double
  it_reason_codes :: "PortfolioIntentReasonCode list"

definition primary_reason :: "PortfolioIntent \<Rightarrow> PortfolioIntentReasonCode" where
  "primary_reason i = (case it_reason_codes i of [] \<Rightarrow> R_NONE | r # _ \<Rightarrow> r)"

record PortfolioIntentEngine =
  ie_cfg :: PortfolioIntentConfig
  ie_illiquid_active :: bool
  ie_illiquid_ticks :: int
  ie_shock_active :: bool
  ie_shock_ticks :: int

definition ie_init :: "PortfolioIntentConfig \<Rightarrow> PortfolioIntentEngine" where
  "ie_init cfg = \<lparr>ie_cfg = cfg, ie_illiquid_active = False, ie_illiquid_ticks = 0,
     ie_shock_active = False, ie_shock_ticks = 0\<rparr>"

definition update_regime_hysteresis ::
  "double \<Rightarrow> double \<Rightarrow> double \<Rightarrow> int \<Rightarrow> bool \<times> int \<Rightarrow> bool \<times> int" where
  "update_regime_hysteresis p enter_thresh exit_thresh persistence = (\<lambda>(active, ticks).
     (if \<not> active then
        (let ticks = (if p \<ge> enter_thresh then ticks + 1 else 0)
         in if ticks \<ge> persistence then (True, 0) else (active, ticks))
      else
        (let ticks = (if p < exit_thresh then ticks + 1 else 0)
         in if ticks \<ge> persistence then (False, 0) else (active, ticks))))"

fun expected_cost_loop :: "VenueQuote list \<Rightarrow> double \<times> bool \<Rightarrow> double \<times> bool" where
  "expected_cost_loop [] bf = bf"
| "expected_cost_loop (venue # venues) (best_cost, found) =
     (if \<not> vq_healthy venue \<or> vq_depth_qty venue \<le> 0 then expected_cost_loop venues (best_cost, found)
      else let cost = vq_taker_fee_bps venue + vq_latency_penalty_bps venue + vq_risk_penalty_bps venue +
                 vq_toxicity_bps venue + std_max 0 (1 - vq_fill_probability venue) * lit 2
           in if \<not> found \<or> cost < best_cost then expected_cost_loop venues (cost, True)
              else expected_cost_loop venues (best_cost, found))"

definition estimate_expected_cost_bps :: "VenueQuote list \<Rightarrow> double" where
  "estimate_expected_cost_bps venues =
     (case expected_cost_loop venues (0, False) of (best_cost, found) \<Rightarrow> if found then best_cost else 0)"

definition compute_basis_bps :: "double \<Rightarrow> double \<Rightarrow> double" where
  "compute_basis_bps spot_mid futures_mid =
     (if spot_mid \<le> 0 \<or> futures_mid \<le> 0 then 0
      else \<bar>futures_mid - spot_mid\<bar> / spot_mid * lit 10000)"

definition count_healthy_venues :: "VenueQuote list \<Rightarrow> nat" where
  "count_healthy_venues venues = length (filter (\<lambda>v. vq_enabled v \<and> vq_healthy v \<and> vq_depth_qty v > 0) venues)"

definition count_enabled_venues :: "VenueQuote list \<Rightarrow> nat" where
  "count_enabled_venues venues = length (filter vq_enabled venues)"

definition append_reason :: "PortfolioIntentReasonCode \<Rightarrow> PortfolioIntent \<Rightarrow> PortfolioIntent" where
  "append_reason code i =
     (if code = R_NONE then i
      else if code \<in> set (it_reason_codes i) then i
      else if length (it_reason_codes i) < 8 then i\<lparr>it_reason_codes := it_reason_codes i @ [code]\<rparr> else i)"

definition append_reason_if :: "bool \<Rightarrow> PortfolioIntentReasonCode \<Rightarrow> PortfolioIntent \<Rightarrow> PortfolioIntent" where
  "append_reason_if b code i = (if b then append_reason code i else i)"

definition clamp_position :: "PortfolioIntentConfig \<Rightarrow> double \<Rightarrow> double" where
  "clamp_position cfg position = std_clamp position (- ic_max_position cfg) (ic_max_position cfg)"

definition tiny :: double where "tiny = lit (1 / 10 ^ 9)"

definition clamp_reduce_target :: "double \<Rightarrow> double \<Rightarrow> double" where
  "clamp_reduce_target current target =
     (if \<bar>current\<bar> \<le> tiny then target
      else if (current > 0 \<and> target < 0) \<or> (current < 0 \<and> target > 0) then 0
      else if \<bar>target\<bar> > \<bar>current\<bar> then current * lit (1 / 2) else target)"

definition urgency_buffer_bps :: "AlphaSignal \<Rightarrow> double \<Rightarrow> double" where
  "urgency_buffer_bps alpha position_delta =
     (let delta = \<bar>position_delta\<bar> in
      if as_horizon_ticks alpha \<le> 2 \<or> delta \<ge> lit (30 / 100) then 1
      else if as_horizon_ticks alpha \<ge> 8 \<and> delta \<le> lit (10 / 100) then lit 3 else lit 2)"

definition choose_urgency :: "AlphaSignal \<Rightarrow> double \<Rightarrow> double \<Rightarrow> bool \<Rightarrow> nat \<Rightarrow> ShadowUrgency" where
  "choose_urgency alpha current_position target_position stale_inventory healthy_venues =
     (let delta = \<bar>target_position - current_position\<bar> in
      if stale_inventory \<or> healthy_venues \<le> 1 \<or> as_horizon_ticks alpha \<le> 2 \<or> delta \<ge> lit (30 / 100) \<or>
         as_risk_score alpha \<ge> lit (55 / 100) then AGGRESSIVE
      else if as_horizon_ticks alpha \<ge> 8 \<and> delta \<le> lit (10 / 100) \<and> as_risk_score alpha < lit (35 / 100) then PASSIVE
      else BALANCED)"

text \<open>The target of an entry, before the reductions.\<close>

definition entry_magnitude ::
  "PortfolioIntentConfig \<Rightarrow> AlphaSignal \<Rightarrow> RegimeSignal \<Rightarrow> double \<Rightarrow> nat \<Rightarrow> nat \<Rightarrow> double" where
  "entry_magnitude cfg alpha regime expected_cost_bps healthy_venues enabled_venues =
     (let alpha_scale = std_clamp ((\<bar>as_signal_bps alpha\<bar> - expected_cost_bps) /
            std_max (ic_min_entry_signal_bps cfg) 1) 0 1;
          risk_scale = std_clamp (1 - as_risk_score alpha) 0 1;
          health_scale = (if enabled_venues > 0 \<and> healthy_venues < enabled_venues then ic_health_reduce_ratio cfg else 1);
          regime_scale = std_clamp (1 - (lit (1 / 2) * rg_p_illiquid regime + lit (35 / 100) * rg_p_shock regime)) 0 1
      in ic_max_position cfg * std_clamp (as_size_fraction alpha) 0 1 * alpha_scale * risk_scale * health_scale * regime_scale)"

definition update_regimes :: "RegimeSignal \<Rightarrow> PortfolioIntentEngine \<Rightarrow> PortfolioIntentEngine" where
  "update_regimes regime e =
     (let cfg = ie_cfg e in
      case update_regime_hysteresis (rg_p_illiquid regime) (ic_illiquid_enter_threshold cfg)
             (ic_illiquid_exit_threshold cfg) (ic_regime_persistence_ticks cfg) (ie_illiquid_active e, ie_illiquid_ticks e) of
        (ia, it) \<Rightarrow>
      (case update_regime_hysteresis (rg_p_shock regime) (ic_shock_enter_threshold cfg)
             (ic_shock_exit_threshold cfg) (ic_regime_persistence_ticks cfg) (ie_shock_active e, ie_shock_ticks e) of
        (sa, st) \<Rightarrow> e\<lparr>ie_illiquid_active := ia, ie_illiquid_ticks := it, ie_shock_active := sa, ie_shock_ticks := st\<rparr>))"

definition choose_target ::
  "PortfolioIntentEngine \<Rightarrow> AlphaSignal \<Rightarrow> RegimeSignal \<Rightarrow> double \<Rightarrow> double \<Rightarrow> nat \<Rightarrow> nat \<Rightarrow> bool
    \<Rightarrow> PortfolioIntent \<Rightarrow> PortfolioIntent" where
  "choose_target e alpha regime current_position expected_cost_bps healthy_venues enabled_venues stale_inventory out =
     (let cfg = ie_cfg e;
          signal = as_signal_bps alpha;
          in_deadband = \<bar>signal\<bar> \<le> ic_deadband_signal_bps cfg;
          positive_entry = \<not> in_deadband \<and> signal \<ge> ic_min_entry_signal_bps cfg \<and> signal > expected_cost_bps;
          negative_entry = \<not> in_deadband \<and> signal \<le> - ic_min_entry_signal_bps cfg \<and> - signal > expected_cost_bps;
          magnitude = entry_magnitude cfg alpha regime expected_cost_bps healthy_venues enabled_venues;
          target = (if positive_entry then magnitude else if negative_entry then - magnitude else 0);
          out = append_reason (if positive_entry then ALPHA_POSITIVE
                               else if negative_entry then ALPHA_NEGATIVE else ALPHA_DECAY) out;
          alpha_strong = \<bar>signal\<bar> \<ge> ic_stale_inventory_alpha_hold_bps cfg;
          target = (if ie_illiquid_active e \<or> (stale_inventory \<and> \<not> alpha_strong)
                    then clamp_reduce_target current_position target else target);
          target = clamp_position cfg target;
          delta = target - current_position
      in out\<lparr>it_target_global_position := target, it_position_delta := delta,
             it_max_shortfall_bps := expected_cost_bps + urgency_buffer_bps alpha delta,
             it_urgency := choose_urgency alpha current_position target stale_inventory healthy_venues,
             it_flatten_now := \<bar>target\<bar> \<le> tiny \<and> \<bar>current_position\<bar> > tiny \<and> \<bar>delta\<bar> > tiny\<rparr>)"

definition flatten :: "double \<Rightarrow> double \<Rightarrow> double \<Rightarrow> PortfolioIntent \<Rightarrow> PortfolioIntent" where
  "flatten current_position expected_cost_bps buffer out =
     out\<lparr>it_flatten_now := \<bar>current_position\<bar> > 0, it_max_shortfall_bps := expected_cost_bps + buffer,
         it_urgency := AGGRESSIVE, it_position_delta := - current_position\<rparr>"

text \<open>The conditions that end an evaluation with a request to flatten.\<close>

definition must_flatten ::
  "PortfolioIntentEngine \<Rightarrow> AlphaSignal \<Rightarrow> PortfolioIntentContext \<Rightarrow> double \<Rightarrow> double \<Rightarrow> bool" where
  "must_flatten e alpha ctx current_position basis_bps \<longleftrightarrow>
     (let cfg = ie_cfg e in
      as_risk_score alpha \<ge> ic_max_risk_score cfg \<or>
      as_signal_bps alpha \<le> ic_negative_reversal_signal_bps cfg \<or>
      (current_position < 0 \<and> as_signal_bps alpha \<ge> ic_positive_reversal_signal_bps cfg) \<or>
      ie_shock_active e \<or>
      (ic_stale_signal_ms cfg > 0 \<and> ix_signal_age_ms ctx > ic_stale_signal_ms cfg) \<or>
      (ic_max_basis_divergence_bps cfg > 0 \<and> basis_bps > ic_max_basis_divergence_bps cfg))"

definition append_risk_reasons ::
  "PortfolioIntentEngine \<Rightarrow> AlphaSignal \<Rightarrow> PortfolioIntentContext \<Rightarrow> double \<Rightarrow> double \<Rightarrow> bool \<Rightarrow> bool \<Rightarrow> PortfolioIntent \<Rightarrow> PortfolioIntent" where
  "append_risk_reasons e alpha ctx current_position basis_bps stale_inventory degraded out =
     (let cfg = ie_cfg e;
          out = append_reason_if (as_risk_score alpha \<ge> ic_max_risk_score cfg) RISK_OFF out;
          out = append_reason_if (as_signal_bps alpha \<le> ic_negative_reversal_signal_bps cfg) NEGATIVE_REVERSAL out;
          out = append_reason_if (current_position < 0 \<and> as_signal_bps alpha \<ge> ic_positive_reversal_signal_bps cfg) POSITIVE_REVERSAL out;
          out = append_reason_if (ie_shock_active e) SHOCK_REGIME out;
          out = append_reason_if (ie_illiquid_active e) ILLIQUID_REGIME out;
          out = append_reason_if stale_inventory STALE_INVENTORY out;
          out = append_reason_if (ic_stale_signal_ms cfg > 0 \<and> ix_signal_age_ms ctx > ic_stale_signal_ms cfg) STALE_SIGNAL out;
          out = append_reason_if (ic_max_basis_divergence_bps cfg > 0 \<and> basis_bps > ic_max_basis_divergence_bps cfg) BASIS_TOO_WIDE out
      in append_reason_if degraded HEALTH_DEGRADED out)"

definition evaluate ::
  "PortfolioIntent \<Rightarrow> AlphaSignal \<Rightarrow> RegimeSignal \<Rightarrow> PositionLedgerSnapshot \<Rightarrow> VenueQuote list \<Rightarrow> PortfolioIntentContext
    \<Rightarrow> PortfolioIntentEngine \<Rightarrow> PortfolioIntent \<times> PortfolioIntentEngine" where
  "evaluate garbage alpha regime ledger venues ctx e =
     (let e = update_regimes regime e;
          cfg = ie_cfg e;
          current_position = clamp_position cfg (ls_global_position ledger);
          expected_cost_bps = estimate_expected_cost_bps venues;
          healthy_venues = count_healthy_venues venues;
          enabled_venues = count_enabled_venues venues;
          basis_bps = compute_basis_bps (ix_spot_mid_price ctx) (ix_futures_mid_price ctx);
          out = garbage\<lparr>it_reason_codes := [], it_expected_cost_bps := expected_cost_bps,
                  it_basis_slippage_bps := basis_bps,
                  it_alpha_edge_bps := as_signal_bps alpha - expected_cost_bps\<rparr>
      in if healthy_venues = 0 then
           (flatten current_position expected_cost_bps (lit 3) (append_reason NO_HEALTHY_VENUES out), e)
         else
           let stale_inventory = ls_oldest_inventory_age_ms ledger \<ge> ic_stale_inventory_ms cfg \<and> \<bar>current_position\<bar> > 0;
               degraded = (enabled_venues > 0 \<and> healthy_venues < enabled_venues);
               out = append_risk_reasons e alpha ctx current_position basis_bps stale_inventory degraded out
           in if must_flatten e alpha ctx current_position basis_bps
              then (flatten current_position expected_cost_bps (lit (5 / 2)) out, e)
              else (choose_target e alpha regime current_position expected_cost_bps healthy_venues enabled_venues
                      stale_inventory out, e))"

section \<open>The decision\<close>

lemma it_append_reason [simp]:
  "it_target_global_position (append_reason r i) = it_target_global_position i"
  by (simp add: append_reason_def)

lemma it_append_reason_if [simp]:
  "it_target_global_position (append_reason_if b r i) = it_target_global_position i"
  by (simp add: append_reason_if_def)

lemma it_append_risk_reasons [simp]:
  "it_target_global_position (append_risk_reasons e alpha ctx p bb st dg i) = it_target_global_position i"
  by (simp add: append_risk_reasons_def Let_def)

text \<open>The engine as it is when the conditions are tested, and the position it works with.\<close>

definition derisking ::
  "AlphaSignal \<Rightarrow> RegimeSignal \<Rightarrow> PositionLedgerSnapshot \<Rightarrow> VenueQuote list \<Rightarrow> PortfolioIntentContext \<Rightarrow> PortfolioIntentEngine \<Rightarrow> bool" where
  "derisking alpha regime ledger venues ctx e \<longleftrightarrow>
     count_healthy_venues venues = 0 \<or>
     must_flatten (update_regimes regime e) alpha ctx (clamp_position (ie_cfg e) (ls_global_position ledger))
       (compute_basis_bps (ix_spot_mid_price ctx) (ix_futures_mid_price ctx))"

lemma cfg_update_regimes [simp]: "ie_cfg (update_regimes regime e) = ie_cfg e"
  by (simp add: update_regimes_def Let_def split: prod.splits)

definition target_number :: "AlphaSignal \<Rightarrow> RegimeSignal \<Rightarrow> VenueQuote list \<Rightarrow> PortfolioIntentEngine \<Rightarrow> bool" where
  "target_number alpha regime venues e \<longleftrightarrow> \<not> isnan (entry_magnitude (ie_cfg e) alpha regime
     (estimate_expected_cost_bps venues) (count_healthy_venues venues) (count_enabled_venues venues))"

lemma clamp_reduce_number: "\<not> isnan t \<Longrightarrow> isfinite c \<Longrightarrow> \<not> isnan (clamp_reduce_target c t)"
proof -
  assume t: "\<not> isnan t" and c: "isfinite c"
  have "lit (1 / 2) = Fin (1 / 2)" by code_simp
  with t c show ?thesis by (auto simp: clamp_reduce_target_def times_double_def)
qed

lemma choose_target_clamped:
  assumes m: "\<not> isnan (entry_magnitude (ie_cfg e) alpha regime cost healthy enabled)" and c: "isfinite current"
  shows "\<exists>t. \<not> isnan t \<and>
    it_target_global_position (choose_target e alpha regime current cost healthy enabled stale out) = clamp_position (ie_cfg e) t \<and>
    it_position_delta (choose_target e alpha regime current cost healthy enabled stale out) = clamp_position (ie_cfg e) t - current"
proof -
  let ?m = "entry_magnitude (ie_cfg e) alpha regime cost healthy enabled" and ?sg = "as_signal_bps alpha"
  let ?live = "\<not> \<bar>?sg\<bar> \<le> ic_deadband_signal_bps (ie_cfg e)"
  let ?raw = "if ?live \<and> ?sg \<ge> ic_min_entry_signal_bps (ie_cfg e) \<and> ?sg > cost then ?m
     else if ?live \<and> ?sg \<le> - ic_min_entry_signal_bps (ie_cfg e) \<and> - ?sg > cost then - ?m else 0"
  let ?t = "if ie_illiquid_active e \<or> (stale \<and> \<not> \<bar>?sg\<bar> \<ge> ic_stale_inventory_alpha_hold_bps (ie_cfg e))
     then clamp_reduce_target current ?raw else ?raw"
  have "\<not> isnan ?raw" using m by simp
  then have "\<not> isnan ?t" using clamp_reduce_number[OF _ c] by simp
  then show ?thesis by (intro exI[of _ ?t]) (simp add: choose_target_def Let_def)
qed



definition intent_config :: PortfolioIntentConfig where
  "intent_config = \<lparr>ic_max_position = Fin 2, ic_min_entry_signal_bps = Fin 3, ic_alpha_exit_buffer_bps = 0,
     ic_negative_reversal_signal_bps = Fin (- 5), ic_positive_reversal_signal_bps = Fin 5, ic_deadband_signal_bps = 1,
     ic_max_risk_score = 1, ic_shock_enter_threshold = 1, ic_shock_exit_threshold = 0, ic_illiquid_enter_threshold = 1,
     ic_illiquid_exit_threshold = 0, ic_regime_persistence_ticks = 3, ic_stale_inventory_ms = 1000,
     ic_stale_signal_ms = 0, ic_max_basis_divergence_bps = 0, ic_stale_inventory_alpha_hold_bps = 1,
     ic_health_reduce_ratio = 1\<rparr>"

definition intent_quote :: VenueQuote where
  "intent_quote = \<lparr>vq_exchange = OKX, vq_best_bid = Fin 99, vq_best_ask = Fin 100, vq_depth_qty = 1,
     vq_taker_fee_bps = 1, vq_latency_penalty_bps = 0, vq_risk_penalty_bps = 0, vq_fill_probability = 1,
     vq_queue_ahead_qty = 0, vq_toxicity_bps = 0, vq_healthy = True, vq_enabled = True,
     vq_adaptive_fill_probability = 0, vq_passive_markout_bps = 0, vq_taker_markout_bps = 0, vq_reject_rate = 0,
     vq_cancel_latency_penalty_bps = 0, vq_health_penalty_bps = 0, vq_stability_penalty_bps = 0, vq_quality_penalty_bps = 0\<rparr>"

definition intent_alpha :: AlphaSignal where
  "intent_alpha = \<lparr>as_signal_bps = Fin 7, as_risk_score = 0, as_size_fraction = 1, as_horizon_ticks = 4, as_ts_ns = 1\<rparr>"

definition intent_calm :: RegimeSignal where
  "intent_calm = \<lparr>rg_p_calm = 1, rg_p_trending = 0, rg_p_shock = 0, rg_p_illiquid = 0, rg_ts_ns = 1\<rparr>"

definition intent_garbage :: PortfolioIntent where
  "intent_garbage = \<lparr>it_target_global_position = Fin 9, it_position_delta = 0, it_urgency = PASSIVE, it_flatten_now = False,
     it_max_shortfall_bps = 0, it_expected_cost_bps = 0, it_basis_slippage_bps = 0, it_alpha_edge_bps = 0, it_reason_codes = []\<rparr>"

definition intent_ctx :: PortfolioIntentContext where
  "intent_ctx = \<lparr>ix_spot_mid_price = 0, ix_futures_mid_price = 0, ix_signal_age_ms = 0\<rparr>"


section \<open>Regimes\<close>

definition regime_run :: "double \<Rightarrow> double \<Rightarrow> int \<Rightarrow> double list \<Rightarrow> bool \<times> int \<Rightarrow> bool \<times> int" where
  "regime_run en ex n ps st = fold (\<lambda>p. update_regime_hysteresis p en ex n) ps st"

text \<open>
  A regime is entered exactly after the configured number of consecutive ticks: within the first
  \<open>n\<close> ticks the flag is raised if and only if all \<open>n\<close> of them reached the entry threshold; a single
  tick below it starts the count again.
\<close>
theorem regime_needs_persistence:
  assumes "0 < n" "int (length ps) \<le> n"
  shows "fst (regime_run en ex n ps (False, 0)) = (int (length ps) = n \<and> list_all (\<lambda>p. p \<ge> en) ps)"
proof -
  have "fst (regime_run en ex n qs (False, k)) = (k + int (length qs) = n \<and> list_all (\<lambda>p. p \<ge> en) qs)"
    if "0 \<le> k" "k < n" "k + int (length qs) \<le> n" for k qs
    using that
  proof (induction qs arbitrary: k)
    case (Cons p qs)
    consider (low) "\<not> p \<ge> en" | (last) "p \<ge> en" "k + 1 = n" | (count) "p \<ge> en" "k + 1 < n"
      using Cons.prems by linarith
    then show ?case
    proof cases
      case low
      with Cons.IH[of 0] Cons.prems show ?thesis
        by (simp add: regime_run_def update_regime_hysteresis_def)
    next
      case last
      have "k + (1 + int (length qs)) \<le> n" using Cons.prems(3) by simp
      with last(2) have "length qs = 0" by linarith
      then have "qs = []" by simp
      with last show ?thesis by (simp add: regime_run_def update_regime_hysteresis_def)
    next
      case count
      with Cons.IH[of "k + 1"] Cons.prems show ?thesis
        by (auto simp: regime_run_def update_regime_hysteresis_def)
    qed
  qed (simp add: regime_run_def)
  from this[of 0 ps] assms show ?thesis by simp
qed

theorem regime_needs_persistence_witness:
  "fst (regime_run 1 0 3 [1, 1, 1] (False, 0)) \<and> \<not> fst (regime_run 1 0 3 [1, 0, 1] (False, 0))"
proof -
  have "\<not> (1 :: double) \<le> 0" by code_simp
  then show ?thesis
    using regime_needs_persistence[of 3 "[1, 1, 1]" 1 0] regime_needs_persistence[of 3 "[1, 0, 1]" 1 0] by simp
qed

text \<open>In an illiquid regime or with stale inventory a target never exceeds the position.\<close>

lemma reduce_only:
  assumes "dwf c" "isfinite c" "\<not> isnan t" "\<not> \<bar>c\<bar> \<le> tiny"
  shows "\<bar>clamp_reduce_target c t\<bar> \<le> \<bar>c\<bar>"
proof -
  have h: "0 \<le> lit (1 / 2)" "lit (1 / 2) \<le> 1" by code_simp+
  have z: "\<bar>0 :: double\<bar> \<le> \<bar>c\<bar>" using assms(2) by (simp add: finite_le)
  have "\<bar>t\<bar> \<le> \<bar>c\<bar>" if "\<not> \<bar>t\<bar> > \<bar>c\<bar>" using that assms dbl_not_less[of "\<bar>c\<bar>" "\<bar>t\<bar>"] by simp
  with scale_le[OF h assms(1,2)] z assms(4) show ?thesis by (auto simp: clamp_reduce_target_def)
qed

end
