(* ===== verification/Session_Accounting.thy ===== *)
theory Session_Accounting
  imports Position_Ledger
begin

text \<open>
  \<open>core/execution/common/portfolio/live_session_accounting.hpp\<close>: equity, profit and fees of every
  venue from its reconciliation snapshots, and whether an order is affordable. The fees of a fill
  are counted when the fill is new; a ring of 4096 keys remembers the fills seen.
\<close>

section \<open>State\<close>

record LiveSessionVenueMetrics =
  lm_exchange :: Exchange
  lm_configured :: bool
  lm_start_equity :: double
  lm_end_equity :: double
  lm_realized_pnl :: double
  lm_unrealized_pnl :: double
  lm_fees :: double
  lm_net_pnl :: double
  lm_return_pct :: double
  lm_free_collateral :: double
  lm_min_free_collateral_buffer :: double
  lm_has_reconciled_equity :: bool

record LiveSessionGlobalMetrics =
  lg_start_equity :: double
  lg_end_equity :: double
  lg_realized_pnl :: double
  lg_unrealized_pnl :: double
  lg_fees :: double
  lg_net_pnl :: double
  lg_return_pct :: double

record SeenFillKey =
  sk_venue_trade_id :: string
  sk_exchange_ts_ns :: int
  sk_active :: bool

record AccountingVenue =
  av_metrics :: LiveSessionVenueMetrics
  av_last_snapshot :: ReconciliationSnapshot
  av_seen_fill_keys :: "SeenFillKey list"
  av_seen_fill_cursor :: nat

record LiveSessionAccounting =
  la_venues :: "AccountingVenue list"
  la_last_update_ts_ns :: int

definition MAX_SEEN_FILLS_PER_VENUE :: nat where "MAX_SEEN_FILLS_PER_VENUE = 4096"

fun venue_slot :: "Exchange \<Rightarrow> nat" where
  "venue_slot BINANCE = 0"
| "venue_slot OKX = 1"
| "venue_slot COINBASE = 2"
| "venue_slot KRAKEN = 3"
| "venue_slot UNKNOWN = 0"

definition index_to_exchange :: "nat \<Rightarrow> Exchange" where
  "index_to_exchange i = (if i = 0 then BINANCE else if i = 1 then OKX else if i = 2 then COINBASE
     else if i = 3 then KRAKEN else UNKNOWN)"

definition mk_LiveSessionVenueMetrics :: LiveSessionVenueMetrics where
  "mk_LiveSessionVenueMetrics = \<lparr>lm_exchange = UNKNOWN, lm_configured = False, lm_start_equity = 0,
     lm_end_equity = 0, lm_realized_pnl = 0, lm_unrealized_pnl = 0, lm_fees = 0, lm_net_pnl = 0,
     lm_return_pct = 0, lm_free_collateral = 0, lm_min_free_collateral_buffer = 0,
     lm_has_reconciled_equity = False\<rparr>"

definition mk_SeenFillKey :: SeenFillKey where
  "mk_SeenFillKey = \<lparr>sk_venue_trade_id = [], sk_exchange_ts_ns = 0, sk_active = False\<rparr>"

definition mk_AccountingVenue :: AccountingVenue where
  "mk_AccountingVenue = \<lparr>av_metrics = mk_LiveSessionVenueMetrics, av_last_snapshot = rs_empty,
     av_seen_fill_keys = replicate MAX_SEEN_FILLS_PER_VENUE mk_SeenFillKey, av_seen_fill_cursor = 0\<rparr>"

definition la_init :: LiveSessionAccounting where
  "la_init = \<lparr>la_venues = map (\<lambda>i. mk_AccountingVenue\<lparr>av_metrics :=
       mk_LiveSessionVenueMetrics\<lparr>lm_exchange := index_to_exchange i\<rparr>\<rparr>) [0..<4],
     la_last_update_ts_ns = 0\<rparr>"

section \<open>Sums and lookups\<close>

definition sum_total :: "ReconciliationSnapshot \<Rightarrow> double" where
  "sum_total snap = fold (\<lambda>b total. total + std_max 0 (rb_total b)) (rs_balances snap) 0"

definition sum_available :: "ReconciliationSnapshot \<Rightarrow> double" where
  "sum_available snap = fold (\<lambda>b total. total + std_max 0 (rb_available b)) (rs_balances snap) 0"

definition is_stable_quote :: "string \<Rightarrow> bool" where
  "is_stable_quote asset \<longleftrightarrow> asset = ''USDT'' \<or> asset = ''USD'' \<or> asset = ''USDC''"

definition suffix_from :: "nat \<Rightarrow> string \<Rightarrow> string" where
  "suffix_from n s = drop (length s - n) s"

definition infer_quote_asset :: "string \<Rightarrow> string" where
  "infer_quote_asset s =
     (if length s \<ge> 4 \<and> suffix_from 4 s = ''USDT'' then suffix_from 4 s
      else if length s \<ge> 4 \<and> suffix_from 4 s = ''USDC'' then suffix_from 4 s
      else if length s \<ge> 3 \<and> suffix_from 3 s = ''USD'' then suffix_from 3 s
      else [])"

definition infer_base_asset :: "string \<Rightarrow> string \<Rightarrow> string" where
  "infer_base_asset s quote_asset =
     (if quote_asset = [] \<or> length s \<le> length quote_asset then s
      else take (length s - length quote_asset) s)"

definition find_available_asset :: "ReconciliationSnapshot \<Rightarrow> string \<Rightarrow> double" where
  "find_available_asset snap asset =
     (if asset = [] then 0
      else case find (\<lambda>b. rb_asset b = asset) (rs_balances snap) of
        Some b \<Rightarrow> std_max 0 (rb_available b) | None \<Rightarrow> 0)"

definition position_unrealized :: "string \<Rightarrow> double \<Rightarrow> ReconciledPosition \<Rightarrow> double \<Rightarrow> double" where
  "position_unrealized symbol mark_price p unrealized =
     (if symbol \<noteq> [] \<and> rp_symbol p \<noteq> symbol then unrealized
      else if \<not> isfinite (rp_quantity p) \<or> \<not> isfinite (rp_avg_entry_price p) \<or> rp_avg_entry_price p \<le> 0
      then unrealized
      else if rp_quantity p > 0 then unrealized + (mark_price - rp_avg_entry_price p) * rp_quantity p
      else unrealized + (rp_avg_entry_price p - mark_price) * (- rp_quantity p))"

text \<open>A null symbol pointer is the empty string: it selects every position.\<close>

definition compute_unrealized :: "ReconciliationSnapshot \<Rightarrow> string \<Rightarrow> double \<Rightarrow> double" where
  "compute_unrealized snap symbol mark_price =
     (if \<not> isfinite mark_price \<or> mark_price \<le> 0 then 0
      else fold (position_unrealized symbol mark_price) (rs_positions snap) 0)"

section \<open>Fees\<close>

definition key_matches :: "ReconciledFill \<Rightarrow> SeenFillKey \<Rightarrow> bool" where
  "key_matches fill key \<longleftrightarrow> sk_active key \<and> sk_exchange_ts_ns key = rf_exchange_ts_ns fill \<and>
     strncmp_eq 64 (sk_venue_trade_id key) (rf_venue_trade_id fill)"

definition is_fill_seen :: "AccountingVenue \<Rightarrow> ReconciledFill \<Rightarrow> bool" where
  "is_fill_seen st fill \<longleftrightarrow> list_ex (key_matches fill) (av_seen_fill_keys st)"

definition remember_fill :: "ReconciledFill \<Rightarrow> AccountingVenue \<Rightarrow> AccountingVenue" where
  "remember_fill fill st =
     (if av_seen_fill_keys st = [] then st
      else st\<lparr>av_seen_fill_keys := (av_seen_fill_keys st)
               [av_seen_fill_cursor st mod length (av_seen_fill_keys st) :=
                  \<lparr>sk_venue_trade_id = buf_copy 64 (rf_venue_trade_id fill),
                   sk_exchange_ts_ns = rf_exchange_ts_ns fill, sk_active = True\<rparr>],
              av_seen_fill_cursor := av_seen_fill_cursor st + 1\<rparr>)"

definition fee_to_usd :: "ReconciledFill \<Rightarrow> double" where
  "fee_to_usd fill =
     (if \<not> isfinite (rf_fee fill) \<or> rf_fee fill \<le> 0 then 0
      else if is_stable_quote (rf_fee_asset fill) then rf_fee fill
      else if length (rf_symbol fill) \<ge> length (rf_fee_asset fill) \<and> rf_fee_asset fill \<noteq> []
      then rf_fee fill * std_max 0 (rf_price fill)
      else rf_fee fill)"

fun fee_loop :: "ReconciledFill list \<Rightarrow> double \<times> AccountingVenue \<Rightarrow> double \<times> AccountingVenue" where
  "fee_loop [] fs = fs"
| "fee_loop (fill # fills) (fees, st) =
     (if is_fill_seen st fill then fee_loop fills (fees, st)
      else fee_loop fills (fees + fee_to_usd fill, remember_fill fill st))"

definition collect_new_fees :: "ReconciliationSnapshot \<Rightarrow> AccountingVenue \<Rightarrow> double \<times> AccountingVenue" where
  "collect_new_fees snap st =
     (case fee_loop (rs_fills snap) (0, st) of (fees, st) \<Rightarrow> (fees, st\<lparr>av_last_snapshot := snap\<rparr>))"

section \<open>Operations\<close>

definition update_derived :: "LiveSessionVenueMetrics \<Rightarrow> LiveSessionVenueMetrics" where
  "update_derived m =
     (let net = lm_end_equity m - lm_start_equity m
      in m\<lparr>lm_net_pnl := net, lm_realized_pnl := net - lm_unrealized_pnl m + lm_fees m,
           lm_return_pct := (if lm_start_equity m > 0 then (net / lm_start_equity m) * lit 100 else 0)\<rparr>)"

definition update_accounting :: "Exchange \<Rightarrow> (AccountingVenue \<Rightarrow> AccountingVenue) \<Rightarrow> LiveSessionAccounting \<Rightarrow> LiveSessionAccounting" where
  "update_accounting exchange f la =
     la\<lparr>la_venues := (la_venues la)[venue_slot exchange := f (la_venues la ! venue_slot exchange)]\<rparr>"

definition configure_venue :: "Exchange \<Rightarrow> double \<Rightarrow> double \<Rightarrow> LiveSessionAccounting \<Rightarrow> LiveSessionAccounting" where
  "configure_venue exchange start_equity min_free_collateral_buffer =
     update_accounting exchange (\<lambda>st. st\<lparr>av_metrics := update_derived ((av_metrics st)
       \<lparr>lm_configured := True, lm_start_equity := std_max 0 start_equity,
        lm_end_equity := std_max 0 start_equity,
        lm_min_free_collateral_buffer := std_max 0 min_free_collateral_buffer\<rparr>)\<rparr>)"

definition ingest_venue :: "ReconciliationSnapshot \<Rightarrow> string \<Rightarrow> double \<Rightarrow> AccountingVenue \<Rightarrow> AccountingVenue" where
  "ingest_venue snap symbol mark_price st =
     (let st = st\<lparr>av_metrics := (av_metrics st)\<lparr>lm_free_collateral := sum_available snap,
            lm_end_equity := sum_total snap, lm_has_reconciled_equity := True,
            lm_unrealized_pnl := compute_unrealized snap symbol mark_price\<rparr>\<rparr>
      in case collect_new_fees snap st of
           (fees, st) \<Rightarrow> st\<lparr>av_metrics := update_derived ((av_metrics st)\<lparr>lm_fees := lm_fees (av_metrics st) + fees\<rparr>)\<rparr>)"

definition ingest_reconciliation ::
  "Exchange \<Rightarrow> ReconciliationSnapshot \<Rightarrow> string \<Rightarrow> double \<Rightarrow> int \<Rightarrow> LiveSessionAccounting \<Rightarrow> LiveSessionAccounting" where
  "ingest_reconciliation exchange snap symbol mark_price now la =
     (update_accounting exchange (ingest_venue snap symbol mark_price) la)\<lparr>la_last_update_ts_ns := now\<rparr>"

definition can_afford_spot_order ::
  "Exchange \<Rightarrow> string \<Rightarrow> Side \<Rightarrow> double \<Rightarrow> double \<Rightarrow> double \<Rightarrow> LiveSessionAccounting \<Rightarrow> bool" where
  "can_afford_spot_order exchange symbol side quantity price fee_bps la =
     (if \<not> isfinite quantity \<or> \<not> isfinite price \<or> quantity \<le> 0 \<or> price \<le> 0 then False
      else let st = la_venues la ! venue_slot exchange; m = av_metrics st in
        if \<not> lm_configured m then False
        else let quote_asset = infer_quote_asset symbol;
                 base_asset = infer_base_asset symbol quote_asset in
          if side = BID then
            (let buy_notional = quantity * price;
                 fee = buy_notional * std_max 0 fee_bps / lit 10000;
                 available_quote = find_available_asset (av_last_snapshot st) quote_asset;
                 available_quote = (if available_quote \<le> 0 \<and> is_stable_quote quote_asset
                                    then lm_start_equity m else available_quote)
             in available_quote \<ge> buy_notional + fee + lm_min_free_collateral_buffer m)
          else find_available_asset (av_last_snapshot st) base_asset \<ge> quantity)"

definition can_afford_futures_order ::
  "Exchange \<Rightarrow> double \<Rightarrow> double \<Rightarrow> double \<Rightarrow> double \<Rightarrow> LiveSessionAccounting \<Rightarrow> bool" where
  "can_afford_futures_order exchange quantity price fee_bps leverage la =
     (if \<not> isfinite quantity \<or> \<not> isfinite price \<or> quantity \<le> 0 \<or> price \<le> 0 then False
      else let m = av_metrics (la_venues la ! venue_slot exchange) in
        if \<not> lm_configured m then False
        else let applied_leverage = std_max 1 leverage;
                 notional = quantity * price;
                 initial_margin = notional / applied_leverage;
                 fee = notional * std_max 0 fee_bps / lit 10000;
                 required = initial_margin + fee + lm_min_free_collateral_buffer m;
                 available = (if lm_free_collateral m > 0 then lm_free_collateral m else lm_start_equity m)
             in available \<ge> required)"

definition venue_metrics :: "Exchange \<Rightarrow> LiveSessionAccounting \<Rightarrow> LiveSessionVenueMetrics" where
  "venue_metrics exchange la = av_metrics (la_venues la ! venue_slot exchange)"

definition global_add :: "AccountingVenue \<Rightarrow> LiveSessionGlobalMetrics \<Rightarrow> LiveSessionGlobalMetrics" where
  "global_add st out =
     (let m = av_metrics st in
      if \<not> lm_configured m then out
      else out\<lparr>lg_start_equity := lg_start_equity out + lm_start_equity m,
               lg_end_equity := lg_end_equity out + lm_end_equity m,
               lg_unrealized_pnl := lg_unrealized_pnl out + lm_unrealized_pnl m,
               lg_fees := lg_fees out + lm_fees m\<rparr>)"

definition global_metrics :: "LiveSessionAccounting \<Rightarrow> LiveSessionGlobalMetrics" where
  "global_metrics la =
     (let out = fold global_add (la_venues la) \<lparr>lg_start_equity = 0, lg_end_equity = 0, lg_realized_pnl = 0,
                  lg_unrealized_pnl = 0, lg_fees = 0, lg_net_pnl = 0, lg_return_pct = 0\<rparr>;
          net = lg_end_equity out - lg_start_equity out
      in out\<lparr>lg_net_pnl := net, lg_realized_pnl := net - lg_unrealized_pnl out + lg_fees out,
             lg_return_pct := (if lg_start_equity out > 0 then (net / lg_start_equity out) * lit 100 else 0)\<rparr>)"

section \<open>Fees are counted once\<close>

text \<open>Before the ring wraps, the slots from the cursor on are free.\<close>

definition ring_fresh :: "AccountingVenue \<Rightarrow> bool" where
  "ring_fresh st \<longleftrightarrow> length (av_seen_fill_keys st) = MAX_SEEN_FILLS_PER_VENUE \<and>
     (\<forall>i. av_seen_fill_cursor st \<le> i \<and> i < MAX_SEEN_FILLS_PER_VENUE \<longrightarrow> \<not> sk_active (av_seen_fill_keys st ! i))"

lemma seen_iff: "is_fill_seen st fill \<longleftrightarrow>
    (\<exists>i < length (av_seen_fill_keys st). key_matches fill (av_seen_fill_keys st ! i))"
  by (auto simp: is_fill_seen_def list_ex_length)

lemma remember_fill_step:
  assumes r: "ring_fresh st" and room: "av_seen_fill_cursor st < MAX_SEEN_FILLS_PER_VENUE"
    and len: "length (rf_venue_trade_id fill) < 64"
  shows "ring_fresh (remember_fill fill st)" "is_fill_seen (remember_fill fill st) fill"
    "is_fill_seen st g \<Longrightarrow> is_fill_seen (remember_fill fill st) g"
    "av_seen_fill_cursor (remember_fill fill st) = av_seen_fill_cursor st + 1"
proof -
  let ?c = "av_seen_fill_cursor st" and ?k = "\<lparr>sk_venue_trade_id = buf_copy 64 (rf_venue_trade_id fill),
      sk_exchange_ts_ns = rf_exchange_ts_ns fill, sk_active = True\<rparr>"
  have l: "length (av_seen_fill_keys st) = MAX_SEEN_FILLS_PER_VENUE" and free: "\<not> sk_active (av_seen_fill_keys st ! ?c)"
    using r room by (auto simp: ring_fresh_def)
  have e: "remember_fill fill st = st\<lparr>av_seen_fill_keys := (av_seen_fill_keys st)[?c := ?k], av_seen_fill_cursor := ?c + 1\<rparr>"
    using l room by (auto simp: remember_fill_def MAX_SEEN_FILLS_PER_VENUE_def)
  show "ring_fresh (remember_fill fill st)" using r by (simp add: e ring_fresh_def)
  show "av_seen_fill_cursor (remember_fill fill st) = ?c + 1" by (simp add: e)
  have "key_matches fill ?k" using len by (simp add: key_matches_def)
  then show "is_fill_seen (remember_fill fill st) fill"
    using l room by (auto simp: seen_iff e intro!: exI[of _ ?c])
  assume "is_fill_seen st g"
  then obtain i where i: "i < length (av_seen_fill_keys st)" "key_matches g (av_seen_fill_keys st ! i)" by (auto simp: seen_iff)
  with free have "i \<noteq> ?c" by (auto simp: key_matches_def)
  with i show "is_fill_seen (remember_fill fill st) g" by (auto simp: seen_iff e intro!: exI[of _ i])
qed

lemma fee_loop_seen:
  assumes "ring_fresh st" "av_seen_fill_cursor st + length fills \<le> MAX_SEEN_FILLS_PER_VENUE"
    "\<forall>f \<in> set fills. length (rf_venue_trade_id f) < 64" "fee_loop fills (fees, st) = (fees', st')"
  shows "ring_fresh st' \<and> (\<forall>f \<in> set fills. is_fill_seen st' f) \<and> (\<forall>f. is_fill_seen st f \<longrightarrow> is_fill_seen st' f) \<and>
    av_seen_fill_cursor st' \<le> av_seen_fill_cursor st + length fills"
  using assms
proof (induction fills arbitrary: fees st)
  case (Cons f fs)
  show ?case
  proof (cases "is_fill_seen st f")
    case True
    with Cons.IH[of st fees] Cons.prems show ?thesis by auto
  next
    case False
    let ?st = "remember_fill f st"
    have room: "av_seen_fill_cursor st < MAX_SEEN_FILLS_PER_VENUE" "length (rf_venue_trade_id f) < 64"
      using Cons.prems by auto
    note s = remember_fill_step[OF Cons.prems(1) room]
    from Cons.IH[of ?st "fees + fee_to_usd f"] False Cons.prems s show ?thesis by auto
  qed
qed simp

lemma fee_loop_all_seen: "\<forall>f \<in> set fills. is_fill_seen st f \<Longrightarrow> fee_loop fills (fees, st) = (fees, st)"
  by (induction fills) auto

lemma seen_last_snapshot [simp]: "is_fill_seen (st\<lparr>av_last_snapshot := snap\<rparr>) f = is_fill_seen st f"
  by (simp add: is_fill_seen_def)

text \<open>
  Fees are counted once: as long as the ring of seen fills has room, every fill of a collected
  snapshot is remembered, so that collecting any fills of it again adds no fee and changes no key.
\<close>
theorem fees_counted_once:
  assumes "ring_fresh st" "av_seen_fill_cursor st + length (rs_fills snap) \<le> MAX_SEEN_FILLS_PER_VENUE"
    and "\<forall>f \<in> set (rs_fills snap). length (rf_venue_trade_id f) < 64"
    and c: "collect_new_fees snap st = (fees, st')" and sub: "set (rs_fills again) \<subseteq> set (rs_fills snap)"
  shows "collect_new_fees again st' = (0, st'\<lparr>av_last_snapshot := again\<rparr>) \<and> ring_fresh st'"
proof -
  obtain st1 where 1: "fee_loop (rs_fills snap) (0, st) = (fees, st1)" "st' = st1\<lparr>av_last_snapshot := snap\<rparr>"
    using c by (auto simp: collect_new_fees_def split: prod.splits)
  from fee_loop_seen[OF assms(1-3) 1(1)] have "\<forall>f \<in> set (rs_fills again). is_fill_seen st' f" "ring_fresh st1"
    using sub by (auto simp: 1(2))
  with fee_loop_all_seen[of "rs_fills again" st' 0] show ?thesis
    by (simp add: collect_new_fees_def 1(2) ring_fresh_def)
qed

definition fee_snapshot :: ReconciliationSnapshot where
  "fee_snapshot = rs_empty\<lparr>rs_fills := [\<lparr>rf_client_order_id = 1, rf_venue_order_id = ''v'', rf_venue_trade_id = ''t1'',
     rf_symbol = ''BTCUSDT'', rf_exchange = OKX, rf_side = BID, rf_quantity = 1, rf_price = Fin 100, rf_notional = 0,
     rf_fee = Fin 2, rf_fee_asset = ''USDT'', rf_exchange_ts_ns = 10\<rparr>],
     rs_balances := [\<lparr>rb_asset = ''USDT'', rb_total = 0, rb_available = 0\<rparr>]\<rparr>"

lemma ring_fresh_init: "ring_fresh mk_AccountingVenue"
  by (simp add: ring_fresh_def mk_AccountingVenue_def mk_SeenFillKey_def)

theorem fees_counted_once_witness:
  "\<exists>st. fst (collect_new_fees fee_snapshot mk_AccountingVenue) = 0 + Fin 2 \<and>
     st = snd (collect_new_fees fee_snapshot mk_AccountingVenue) \<and> fst (collect_new_fees fee_snapshot st) = 0"
proof -
  have s: "\<not> is_fill_seen mk_AccountingVenue f" for f
    using ring_fresh_init by (auto simp: seen_iff ring_fresh_def key_matches_def mk_AccountingVenue_def)
  obtain fees st where c: "collect_new_fees fee_snapshot mk_AccountingVenue = (fees, st)" "fees = 0 + Fin 2"
    by (simp add: collect_new_fees_def fee_snapshot_def rs_empty_def s fee_to_usd_def is_stable_quote_def zero_double_def)
  from fees_counted_once[OF ring_fresh_init _ _ c(1), of fee_snapshot] c show ?thesis
    by (auto simp: fee_snapshot_def rs_empty_def mk_AccountingVenue_def MAX_SEEN_FILLS_PER_VENUE_def)
qed

section \<open>Affordability\<close>

text \<open>
  An exhausted balance affords the starting equity: after a snapshot that reports no available
  quote currency, a buy is accepted whenever the equity configured at the start of the session
  would pay for it.
\<close>
theorem exhausted_quote_uses_start_equity:
  assumes z: "find_available_asset snap (infer_quote_asset symbol) \<le> 0" and q: "is_stable_quote (infer_quote_asset symbol)"
    and o: "isfinite quantity" "isfinite price" "0 < quantity" "0 < price"
    and v: "venue_slot exchange < length (la_venues la)" "lm_configured (venue_metrics exchange la)"
  shows "can_afford_spot_order exchange symbol BID quantity price fee_bps
      (ingest_reconciliation exchange snap symbol mark_price now la) =
    (quantity * price + quantity * price * std_max 0 fee_bps / lit 10000 +
       lm_min_free_collateral_buffer (venue_metrics exchange la) \<le> lm_start_equity (venue_metrics exchange la))"
proof -
  let ?la = "ingest_reconciliation exchange snap symbol mark_price now la"
  have c: "av_metrics (snd (fee_loop fs (f0, st))) = av_metrics st" for fs f0 st
    by (induction fs arbitrary: f0 st) (auto simp: remember_fill_def)
  have s: "av_last_snapshot (la_venues ?la ! venue_slot exchange) = snap"
    "lm_start_equity (av_metrics (la_venues ?la ! venue_slot exchange)) = lm_start_equity (venue_metrics exchange la)"
    "lm_configured (av_metrics (la_venues ?la ! venue_slot exchange)) = lm_configured (venue_metrics exchange la)"
    "lm_min_free_collateral_buffer (av_metrics (la_venues ?la ! venue_slot exchange)) =
       lm_min_free_collateral_buffer (venue_metrics exchange la)"
    using v(1) c[of "rs_fills snap" 0 "(la_venues la ! venue_slot exchange)\<lparr>av_metrics := (av_metrics (la_venues la ! venue_slot exchange))
        \<lparr>lm_free_collateral := sum_available snap, lm_end_equity := sum_total snap, lm_has_reconciled_equity := True,
          lm_unrealized_pnl := compute_unrealized snap symbol mark_price\<rparr>\<rparr>"]
    by (auto simp: ingest_reconciliation_def update_accounting_def ingest_venue_def collect_new_fees_def Let_def
        update_derived_def venue_metrics_def split: prod.splits)
  have "\<not> quantity \<le> 0" "\<not> price \<le> 0" using o dbl_leD by blast+
  then show ?thesis using o z q v(2) by (simp add: can_afford_spot_order_def Let_def s)
qed

theorem exhausted_quote_uses_start_equity_witness:
  "can_afford_spot_order BINANCE ''BTCUSDT'' BID 1 (Fin 100) 0
     (ingest_reconciliation BINANCE fee_snapshot ''BTCUSDT'' 0 5 (configure_venue BINANCE (Fin 1000) 0 la_init))"
proof -
  have q: "infer_quote_asset ''BTCUSDT'' = ''USDT''" by (simp add: infer_quote_asset_def suffix_from_def)
  have z: "find_available_asset fee_snapshot ''USDT'' \<le> 0"
    by (simp add: find_available_asset_def fee_snapshot_def rs_empty_def std_max_def)
  let ?la = "configure_venue BINANCE (Fin 1000) 0 la_init"
  have v: "venue_slot BINANCE < length (la_venues ?la)" "lm_configured (venue_metrics BINANCE ?la)"
    "lm_start_equity (venue_metrics BINANCE ?la) = Fin 1000" "lm_min_free_collateral_buffer (venue_metrics BINANCE ?la) = 0"
    by (simp_all add: configure_venue_def update_accounting_def la_init_def venue_metrics_def update_derived_def Let_def
        std_max_def zero_double_def)
  have a: "isfinite (1 :: double)" "isfinite (Fin 100)" "0 < (1 :: double)" "0 < Fin 100"
    by (simp_all add: one_double_def zero_double_def)
  have n: "1 * Fin 100 + 1 * Fin 100 * std_max 0 0 / lit 10000 + 0 \<le> Fin 1000" by code_simp
  show ?thesis
    using exhausted_quote_uses_start_equity[of fee_snapshot "''BTCUSDT''", OF _ _ a v(1,2), of 0 0 5] z n
    unfolding q v(3,4) by (simp add: is_stable_quote_def)
qed

end
