(* ===== verification/Book_Manager.thy ===== *)
theory Book_Manager
  imports Order_Book Circuit_Breaker
begin

text \<open>
  \<open>core/feeds/common/book_manager.hpp\<close> and \<open>core/ipc/lob_publisher.hpp\<close>: the manager that applies a
  feed's snapshots, deltas and trades to an order book, watches the time stamps and publishes the
  top of the book to a ring of slots in shared memory. The mapped file is the record
  \<open>LobPublisher\<close>, with the slots and the write sequence of its header; opening and mapping the file
  are left out. A publisher pointer that is null or not open is \<open>None\<close>. The clocks are arguments.
\<close>

section \<open>The publisher\<close>

definition k_capacity :: nat where "k_capacity = 10000"
definition k_levels :: nat where "k_levels = 10"

record LobSlot =
  sl_exchange_id :: Exchange
  sl_symbol :: string
  sl_timestamp_ns :: int
  sl_mid_price :: double
  sl_bid_price :: "double list"
  sl_bid_size :: "double list"
  sl_ask_price :: "double list"
  sl_ask_size :: "double list"
  sl_bid_order_count :: "u32 list"
  sl_ask_order_count :: "u32 list"
  sl_trade_direction :: "8 word"

record LobPublisher =
  lp_write_seq :: u64
  lp_slots :: "LobSlot list"

definition zero_slot :: LobSlot where
  "zero_slot = \<lparr>sl_exchange_id = BINANCE, sl_symbol = [], sl_timestamp_ns = 0, sl_mid_price = 0,
     sl_bid_price = replicate k_levels 0, sl_bid_size = replicate k_levels 0,
     sl_ask_price = replicate k_levels 0, sl_ask_size = replicate k_levels 0,
     sl_bid_order_count = replicate k_levels 0, sl_ask_order_count = replicate k_levels 0,
     sl_trade_direction = 0\<rparr>"

text \<open>\<open>init_header\<close> clears the mapping.\<close>

definition lp_init :: LobPublisher where
  "lp_init = \<lparr>lp_write_seq = 0, lp_slots = replicate k_capacity zero_slot\<rparr>"

definition level_column :: "(PriceLevel \<Rightarrow> 'a) \<Rightarrow> 'a \<Rightarrow> PriceLevel list \<Rightarrow> 'a list" where
  "level_column f z levels = map (\<lambda>i. if i < length levels then f (levels ! i) else z) [0..<k_levels]"

definition lob_slot ::
  "Exchange \<Rightarrow> string \<Rightarrow> int \<Rightarrow> double \<Rightarrow> PriceLevel list \<Rightarrow> PriceLevel list \<Rightarrow> TradeFlow \<Rightarrow> LobSlot" where
  "lob_slot exchange symbol timestamp_ns mid_price bids asks trade_flow =
     \<lparr>sl_exchange_id = exchange, sl_symbol = buf_copy 15 symbol, sl_timestamp_ns = timestamp_ns,
      sl_mid_price = mid_price, sl_bid_price = level_column pl_price 0 bids,
      sl_bid_size = level_column pl_size 0 bids, sl_ask_price = level_column pl_price 0 asks,
      sl_ask_size = level_column pl_size 0 asks, sl_bid_order_count = level_column pl_order_count 0 bids,
      sl_ask_order_count = level_column pl_order_count 0 asks,
      sl_trade_direction = tf_trade_direction trade_flow\<rparr>"

definition publish :: "LobSlot \<Rightarrow> LobPublisher \<Rightarrow> LobPublisher" where
  "publish slot p = p\<lparr>lp_slots := (lp_slots p)[unat (lp_write_seq p) mod k_capacity := slot],
                      lp_write_seq := lp_write_seq p + 1\<rparr>"

section \<open>The manager\<close>

record BookManager =
  bm_book :: OrderBook
  bm_last_update_steady_ns :: int
  bm_publisher :: "LobPublisher option"
  bm_last_publish_local_ts_ns :: int
  bm_last_publish_exchange_ts_ns :: int
  bm_timestamp_issue_count :: u64
  bm_last_trade_flow :: TradeFlow
  bm_trade_window_start_ns :: int
  bm_trade_window_volume :: double

definition bm_init :: "string \<Rightarrow> Exchange \<Rightarrow> double \<Rightarrow> nat \<Rightarrow> BookManager" where
  "bm_init symbol exchange tick_size max_levels =
     \<lparr>bm_book = ob_init symbol exchange tick_size max_levels, bm_last_update_steady_ns = 0,
      bm_publisher = None, bm_last_publish_local_ts_ns = 0, bm_last_publish_exchange_ts_ns = 0,
      bm_timestamp_issue_count = 0, bm_last_trade_flow = mk_TradeFlow,
      bm_trade_window_start_ns = 0, bm_trade_window_volume = 0\<rparr>"

definition k_max_local_gap_ns :: int where "k_max_local_gap_ns = 60 * 1000 * 1000 * 1000"

definition timestamp_issue :: "int \<Rightarrow> int \<Rightarrow> int \<Rightarrow> int \<Rightarrow> bool" where
  "timestamp_issue prev_local prev_exchange local_ts exchange_ts =
     (if local_ts \<le> 0 then True
      else if prev_local > 0 \<and> local_ts < prev_local then True
      else if prev_local > 0 \<and> local_ts - prev_local > k_max_local_gap_ns then True
      else exchange_ts > 0 \<and> prev_exchange > 0 \<and> exchange_ts < prev_exchange)"

definition inspect_timestamp :: "int \<Rightarrow> int \<Rightarrow> BookManager \<Rightarrow> BookManager" where
  "inspect_timestamp local_ts exchange_ts m =
     (let issue = timestamp_issue (bm_last_publish_local_ts_ns m) (bm_last_publish_exchange_ts_ns m) local_ts exchange_ts;
          m = (if issue then m\<lparr>bm_timestamp_issue_count := bm_timestamp_issue_count m + 1\<rparr> else m);
          m = (if local_ts > 0 then m\<lparr>bm_last_publish_local_ts_ns := local_ts\<rparr> else m)
      in if exchange_ts > 0 then m\<lparr>bm_last_publish_exchange_ts_ns := exchange_ts\<rparr> else m)"

definition book_slot :: "int \<Rightarrow> BookManager \<Rightarrow> LobSlot" where
  "book_slot timestamp_ns m =
     (case get_top_levels (bm_book m) 10 of (bids, asks) \<Rightarrow>
        lob_slot (ob_exchange (bm_book m)) (ob_symbol (bm_book m)) timestamp_ns (get_mid_price (bm_book m))
          bids asks (bm_last_trade_flow m))"

definition publish_lob :: "int \<Rightarrow> BookManager \<Rightarrow> BookManager" where
  "publish_lob timestamp_ns m = m\<lparr>bm_publisher := map_option (publish (book_slot timestamp_ns m)) (bm_publisher m)\<rparr>"

text \<open>What both handlers do after an update that the book accepted.\<close>

definition accepted :: "int \<Rightarrow> int \<Rightarrow> int \<Rightarrow> int \<Rightarrow> BookManager \<Rightarrow> BookManager" where
  "accepted wall_now steady_now local_ts exchange_ts m =
     (let wall_ts = (if local_ts > 0 then local_ts else wall_now);
          m = inspect_timestamp wall_ts exchange_ts m;
          m = m\<lparr>bm_last_update_steady_ns := steady_now\<rparr>
      in publish_lob wall_ts m)"

definition snapshot_handler :: "int \<Rightarrow> int \<Rightarrow> Snapshot \<Rightarrow> BookManager \<Rightarrow> BookManager" where
  "snapshot_handler wall_now steady_now s m =
     (case apply_snapshot s (bm_book m) of
        (result, book) \<Rightarrow>
          let m = m\<lparr>bm_book := book\<rparr> in
          if result \<noteq> SUCCESS then m
          else accepted wall_now steady_now (sn_timestamp_local_ns s) (sn_timestamp_exchange_ns s) m)"

definition delta_handler :: "int \<Rightarrow> int \<Rightarrow> Delta \<Rightarrow> BookManager \<Rightarrow> BookManager" where
  "delta_handler wall_now steady_now d m =
     (case apply_delta d (bm_book m) of
        (result, book) \<Rightarrow>
          let m = m\<lparr>bm_book := book\<rparr> in
          if result = ERROR_INVALID_PRICE then m
          else if result = SUCCESS
          then accepted wall_now steady_now (dl_timestamp_local_ns d) (dl_timestamp_exchange_ns d) m
          else m)"

definition trade_handler :: "int \<Rightarrow> TradeFlow \<Rightarrow> BookManager \<Rightarrow> BookManager" where
  "trade_handler now_ns trade m =
     (let m = (if bm_trade_window_start_ns m = 0 \<or> now_ns - bm_trade_window_start_ns m \<ge> 1000000000
               then m\<lparr>bm_trade_window_start_ns := now_ns, bm_trade_window_volume := 0\<rparr> else m);
          volume = bm_trade_window_volume m + tf_last_trade_size trade
      in m\<lparr>bm_trade_window_volume := volume, bm_last_trade_flow := trade\<lparr>tf_recent_traded_volume := volume\<rparr>\<rparr>)"

definition bm_age_ms :: "int \<Rightarrow> BookManager \<Rightarrow> int" where
  "bm_age_ms steady_now m = book_age_ms (bm_last_update_steady_ns m) steady_now"

section \<open>The ring of published books\<close>

definition publish_all :: "LobSlot list \<Rightarrow> LobPublisher \<Rightarrow> LobPublisher" where
  "publish_all slots p = fold publish slots p"

lemma mod_apart: "a < b \<Longrightarrow> b < a + n \<Longrightarrow> a mod n \<noteq> b mod (n :: nat)"
proof
  assume "a < b" "b < a + n" "a mod n = b mod n"
  then have "n dvd b - a" by (metis mod_eq_dvd_iff_nat less_imp_le)
  with \<open>a < b\<close> \<open>b < a + n\<close> show False by (auto dest!: dvd_imp_le)
qed

text \<open>
  The ring keeps the last 10000 books: after any series of publications, each of the last ten
  thousand of them stands complete in the slot of its number, and the write sequence is the number
  of publications.
\<close>
theorem ring_keeps_last_books:
  assumes "length slots < 2 ^ 64" "i < length slots" "length slots \<le> i + k_capacity"
  shows "lp_slots (publish_all slots lp_init) ! (i mod k_capacity) = slots ! i \<and>
    unat (lp_write_seq (publish_all slots lp_init)) = length slots"
proof -
  have "unat (lp_write_seq (publish_all slots lp_init)) = length slots \<and>
      length (lp_slots (publish_all slots lp_init)) = k_capacity \<and>
      (\<forall>i < length slots. length slots \<le> i + k_capacity \<longrightarrow>
         lp_slots (publish_all slots lp_init) ! (i mod k_capacity) = slots ! i)"
    using assms(1)
  proof (induction slots rule: rev_induct)
    case Nil
    show ?case by (simp add: publish_all_def lp_init_def)
  next
    case (snoc x xs)
    let ?p = "publish_all xs lp_init"
    have p: "unat (lp_write_seq ?p) = length xs" "length (lp_slots ?p) = k_capacity"
      and old: "\<And>i. i < length xs \<Longrightarrow> length xs \<le> i + k_capacity \<Longrightarrow> lp_slots ?p ! (i mod k_capacity) = xs ! i"
      using snoc by auto
    have e: "publish_all (xs @ [x]) lp_init = publish x ?p" by (simp add: publish_all_def)
    have k: "0 < k_capacity" by (simp add: k_capacity_def)
    have "unat (lp_write_seq ?p + 1) = length xs + 1"
      using p snoc.prems by (simp add: unat_word_ariths)
    moreover have "(lp_slots ?p)[length xs mod k_capacity := x] ! (i mod k_capacity) = (xs @ [x]) ! i"
      if i: "i < length (xs @ [x])" "length (xs @ [x]) \<le> i + k_capacity" for i
    proof (cases "i = length xs")
      case True
      then show ?thesis using p k by simp
    next
      case False
      with i have "i < length xs" "length xs < i + k_capacity" by auto
      with mod_apart[OF this] old[of i] show ?thesis by (simp add: nth_append)
    qed
    ultimately show ?case using p by (simp add: e publish_def)
  qed
  with assms show ?thesis by blast
qed

theorem ring_keeps_last_books_witness:
  "lp_slots (publish_all [zero_slot, zero_slot\<lparr>sl_timestamp_ns := 7\<rparr>] lp_init) ! (1 mod k_capacity) = zero_slot\<lparr>sl_timestamp_ns := 7\<rparr>"
  using ring_keeps_last_books[of "[zero_slot, zero_slot\<lparr>sl_timestamp_ns := 7\<rparr>]" 1] by (simp add: k_capacity_def)

section \<open>What the handlers publish\<close>

lemma accepted_fields:
  "bm_book (accepted wn sn l x m) = bm_book m" "bm_last_update_steady_ns (accepted wn sn l x m) = sn"
  "bm_publisher (accepted wn sn l x m) = map_option (publish (book_slot (if l > 0 then l else wn) m)) (bm_publisher m)"
  by (simp_all add: accepted_def publish_lob_def inspect_timestamp_def Let_def book_slot_def)

text \<open>
  A delta is published exactly when the book accepts it: then the next slot of the ring is the
  top ten levels, the mid price and the last trade of the new book, and the book counts as updated
  now; a rejected delta publishes nothing and leaves the age of the book alone.
\<close>
theorem delta_publishes_new_book:
  assumes "apply_delta d (bm_book m) = (result, book)"
  shows "let m' = delta_handler wn sn d m in bm_book m' = book \<and>
    (if result = SUCCESS
     then bm_publisher m' = map_option (publish (book_slot (if dl_timestamp_local_ns d > 0 then dl_timestamp_local_ns d else wn)
            (m\<lparr>bm_book := book\<rparr>))) (bm_publisher m) \<and> bm_last_update_steady_ns m' = sn
     else bm_publisher m' = bm_publisher m \<and> bm_last_update_steady_ns m' = bm_last_update_steady_ns m)"
  using assms by (simp add: delta_handler_def accepted_fields Let_def)

theorem delta_publishes_new_book_witness:
  "bm_publisher (delta_handler 5 6 mk_Delta ((bm_init ''BTC'' OKX 1 4)\<lparr>bm_publisher := Some lp_init\<rparr>)) = Some lp_init"
proof -
  let ?m = "(bm_init ''BTC'' OKX 1 4)\<lparr>bm_publisher := Some lp_init\<rparr>"
  have "apply_delta mk_Delta (bm_book ?m) = (ERROR_BOOK_CORRUPTED, bm_book ?m)"
    by (simp add: apply_delta_def bm_init_def ob_init_def)
  from delta_publishes_new_book[OF this, of 5 6] show ?thesis by (simp add: Let_def)
qed

text \<open>
  Outdated deltas keep a book fresh: a delta older than the book changes no level, but counts as
  an update. The age the circuit breaker sees starts again at zero, and the unchanged book is
  published under a new time stamp, however long ago the last real update was.
\<close>
theorem outdated_delta_refreshes_age:
  assumes "ob_initialized (bm_book m)" "0 < dl_sequence d" "dl_sequence d < ob_sequence (bm_book m)" "\<not> dl_size d < 0"
    and "0 < sn" "0 \<le> max_book_age_ms (cb_cfg cb)"
  shows "bm_book (delta_handler wn sn d m) = bm_book m \<and>
    bm_publisher (delta_handler wn sn d m) = map_option (publish (book_slot (if dl_timestamp_local_ns d > 0
      then dl_timestamp_local_ns d else wn) m)) (bm_publisher m) \<and>
    check_book_age (bm_age_ms sn (delta_handler wn sn d m)) (cb, ks) = (CB_OK, cb, ks)"
proof -
  have a: "apply_delta d (bm_book m) = (SUCCESS, bm_book m)"
    using assms by (simp add: apply_delta_def)
  have "bm_age_ms sn (delta_handler wn sn d m) = 0"
    using assms(5) by (simp add: bm_age_ms_def delta_handler_def a accepted_fields book_age_ms_def)
  then show ?thesis
    using assms(6) by (simp add: delta_handler_def a accepted_fields check_book_age_def)
qed

theorem outdated_delta_refreshes_age_witness:
  "let m = (bm_init ''BTC'' OKX 1 4)\<lparr>bm_book := (ob_init ''BTC'' OKX 1 4)\<lparr>ob_initialized := True, ob_sequence := 5\<rparr>\<rparr> in
   bm_book (delta_handler 5 6 (mk_Delta\<lparr>dl_sequence := 1\<rparr>) m) = bm_book m"
proof -
  let ?m = "(bm_init ''BTC'' OKX 1 4)\<lparr>bm_book := (ob_init ''BTC'' OKX 1 4)\<lparr>ob_initialized := True, ob_sequence := 5\<rparr>\<rparr>"
  have "ob_initialized (bm_book ?m)" "0 < dl_sequence (mk_Delta\<lparr>dl_sequence := 1\<rparr>)"
    "dl_sequence (mk_Delta\<lparr>dl_sequence := 1\<rparr>) < ob_sequence (bm_book ?m)"
    "\<not> dl_size (mk_Delta\<lparr>dl_sequence := 1\<rparr>) < 0" "0 \<le> max_book_age_ms (cb_cfg (cb_init mk_CircuitBreakerConfig))"
    by (simp_all add: mk_Delta_def cb_init_def mk_CircuitBreakerConfig_def)
  from outdated_delta_refreshes_age[OF this(1-4) _ this(5), of 6 5] show ?thesis by (simp add: Let_def)
qed

section \<open>The trade window\<close>

text \<open>Within a second of the first trade the reported volume is the sum of the sizes.\<close>

lemma trade_window_sum:
  assumes "bm_trade_window_start_ns m = t0" "t0 \<noteq> 0" "list_all (\<lambda>(now, tr). now - t0 < 1000000000) trades"
  shows "bm_trade_window_volume (fold (\<lambda>(now, tr). trade_handler now tr) trades m) =
    fold (\<lambda>(now, tr) v. v + tf_last_trade_size tr) trades (bm_trade_window_volume m)"
  using assms
proof (induction trades arbitrary: m)
  case (Cons x xs)
  obtain now tr where x: "x = (now, tr)" by (cases x)
  have "bm_trade_window_start_ns (trade_handler now tr m) = t0"
    "bm_trade_window_volume (trade_handler now tr m) = bm_trade_window_volume m + tf_last_trade_size tr"
    using Cons.prems x by (auto simp: trade_handler_def Let_def)
  with Cons.IH[of "trade_handler now tr m"] Cons.prems x show ?case by simp
qed simp

end
