(* ===== verification/Ipc_Signals.thy ===== *)
theory Ipc_Signals
  imports Portfolio_Intent
begin

text \<open>
  The shared memory signals of \<open>core/ipc/alpha_signal.hpp\<close> and \<open>core/ipc/regime_signal.hpp\<close>: a sequence
  counter and five fields, written by a Python process and read without a lock. The publisher
  makes the counter odd, writes the fields and makes it even again. \<open>read()\<close> is a function of the
  memory that each of its loads observes; an aligned load of eight bytes is atomic.
\<close>

section \<open>The reader\<close>

record 'd SignalMemory =
  sm_seq :: u64
  sm_data :: 'd

definition k_max_retries :: nat where "k_max_retries = 16"

text \<open>Copy the fields one after the other, the \<open>i\<close>-th from the memory at the time \<open>t + i\<close>.\<close>

fun copy_fields :: "('d \<Rightarrow> 'd \<Rightarrow> 'd) list \<Rightarrow> (nat \<Rightarrow> 'd SignalMemory) \<Rightarrow> nat \<Rightarrow> 'd \<Rightarrow> 'd" where
  "copy_fields [] obs t s = s"
| "copy_fields (c # cs) obs t s = copy_fields cs obs (Suc t) (c (sm_data (obs t)) s)"

text \<open>The retry loop; the local \<open>s\<close> is not initialised.\<close>

fun read_loop :: "('d \<Rightarrow> 'd \<Rightarrow> 'd) list \<Rightarrow> 'd \<Rightarrow> 'd \<Rightarrow> nat \<Rightarrow> (nat \<Rightarrow> 'd SignalMemory) \<Rightarrow> nat \<Rightarrow> 'd" where
  "read_loop copies garbage dflt 0 obs t = dflt"
| "read_loop copies garbage dflt (Suc n) obs t =
     (let seq1 = sm_seq (obs t) in
      if odd (unat seq1) then read_loop copies garbage dflt n obs (Suc t)
      else
        let s = copy_fields copies obs (Suc t) garbage;
            seq2 = sm_seq (obs (Suc t + length copies))
        in if seq1 = seq2 then s
           else read_loop copies garbage dflt n obs (Suc t + length copies + 1))"

definition alpha_copies :: "(AlphaSignal \<Rightarrow> AlphaSignal \<Rightarrow> AlphaSignal) list" where
  "alpha_copies = [\<lambda>m s. s\<lparr>as_signal_bps := as_signal_bps m\<rparr>, \<lambda>m s. s\<lparr>as_risk_score := as_risk_score m\<rparr>,
     \<lambda>m s. s\<lparr>as_size_fraction := as_size_fraction m\<rparr>, \<lambda>m s. s\<lparr>as_horizon_ticks := as_horizon_ticks m\<rparr>,
     \<lambda>m s. s\<lparr>as_ts_ns := as_ts_ns m\<rparr>]"

definition empty_alpha :: AlphaSignal where
  "empty_alpha = \<lparr>as_signal_bps = 0, as_risk_score = 0, as_size_fraction = 0, as_horizon_ticks = 0, as_ts_ns = 0\<rparr>"

definition alpha_read :: "AlphaSignal \<Rightarrow> (nat \<Rightarrow> AlphaSignal SignalMemory) \<Rightarrow> AlphaSignal" where
  "alpha_read garbage obs = read_loop alpha_copies garbage empty_alpha k_max_retries obs 0"

definition regime_copies :: "(RegimeSignal \<Rightarrow> RegimeSignal \<Rightarrow> RegimeSignal) list" where
  "regime_copies = [\<lambda>m s. s\<lparr>rg_p_calm := rg_p_calm m\<rparr>, \<lambda>m s. s\<lparr>rg_p_trending := rg_p_trending m\<rparr>,
     \<lambda>m s. s\<lparr>rg_p_shock := rg_p_shock m\<rparr>, \<lambda>m s. s\<lparr>rg_p_illiquid := rg_p_illiquid m\<rparr>,
     \<lambda>m s. s\<lparr>rg_ts_ns := rg_ts_ns m\<rparr>]"

definition empty_regime :: RegimeSignal where
  "empty_regime = \<lparr>rg_p_calm = 0, rg_p_trending = 0, rg_p_shock = 0, rg_p_illiquid = 0, rg_ts_ns = 0\<rparr>"

text \<open>The test \<open>!(seq2 & 1)\<close> of the regime reader adds nothing: \<open>seq1\<close> is even there.\<close>

definition regime_read :: "RegimeSignal \<Rightarrow> (nat \<Rightarrow> RegimeSignal SignalMemory) \<Rightarrow> RegimeSignal" where
  "regime_read garbage obs = read_loop regime_copies garbage empty_regime k_max_retries obs 0"

definition regime_is_stale :: "int \<Rightarrow> RegimeSignal \<Rightarrow> int \<Rightarrow> bool" where
  "regime_is_stale now s stale_ns \<longleftrightarrow> rg_ts_ns s = 0 \<or> now - rg_ts_ns s > stale_ns"

section \<open>The alpha gate\<close>

record AlphaSignalReader =
  ar_signal_min_bps :: double
  ar_risk_max :: double
  ar_stale_ns :: int
  ar_warn_throttle_ns :: int
  ar_last_warn_ns :: int
  ar_ipc_warn_count :: u64

definition alpha_is_stale :: "int \<Rightarrow> AlphaSignal \<Rightarrow> AlphaSignalReader \<Rightarrow> bool" where
  "alpha_is_stale now s r \<longleftrightarrow> as_ts_ns s = 0 \<or> now - as_ts_ns s > ar_stale_ns r"

definition maybe_warn_ipc_unavailable :: "int \<Rightarrow> AlphaSignalReader \<Rightarrow> AlphaSignalReader" where
  "maybe_warn_ipc_unavailable now r =
     (if now - ar_last_warn_ns r \<ge> ar_warn_throttle_ns r
      then r\<lparr>ar_last_warn_ns := now, ar_ipc_warn_count := ar_ipc_warn_count r + 1\<rparr> else r)"

text \<open>The signal that was read, or \<open>None\<close> when the memory is not mapped.\<close>

definition allows_long :: "int \<Rightarrow> AlphaSignal option \<Rightarrow> AlphaSignalReader \<Rightarrow> bool \<times> AlphaSignalReader" where
  "allows_long now signal r = (case signal of
     None \<Rightarrow> (True, maybe_warn_ipc_unavailable now r)
   | Some s \<Rightarrow> (alpha_is_stale now s r \<or> as_signal_bps s \<ge> ar_signal_min_bps r \<and> as_risk_score s < ar_risk_max r, r))"

definition allows_short :: "int \<Rightarrow> AlphaSignal option \<Rightarrow> AlphaSignalReader \<Rightarrow> bool \<times> AlphaSignalReader" where
  "allows_short now signal r = (case signal of
     None \<Rightarrow> (True, maybe_warn_ipc_unavailable now r)
   | Some s \<Rightarrow> (alpha_is_stale now s r \<or> as_signal_bps s \<le> - ar_signal_min_bps r \<and> as_risk_score s < ar_risk_max r, r))"

definition allows_mm :: "int \<Rightarrow> AlphaSignal option \<Rightarrow> AlphaSignalReader \<Rightarrow> bool" where
  "allows_mm now signal r = (case signal of
     None \<Rightarrow> True | Some s \<Rightarrow> alpha_is_stale now s r \<or> as_risk_score s < ar_risk_max r)"

section \<open>The publisher\<close>

text \<open>
  The publisher's protocol. While it writes, the data may be anything. Packing a counter beyond
  64 bits is an error in Python, so there is no such step.
\<close>

record 'd signal_conf =
  sc_mem :: "'d SignalMemory"
  sc_writing :: "'d option"
  sc_published :: "'d list"

inductive writer_step :: "'d signal_conf \<Rightarrow> 'd signal_conf \<Rightarrow> bool" where
  begin_write: "sc_writing c = None \<Longrightarrow> unat (sm_seq (sc_mem c)) + 2 < 2 ^ 64 \<Longrightarrow>
    writer_step c (c\<lparr>sc_mem := (sc_mem c)\<lparr>sm_seq := sm_seq (sc_mem c) + 1\<rparr>, sc_writing := Some x\<rparr>)"
| write_data: "sc_writing c = Some x \<Longrightarrow> writer_step c (c\<lparr>sc_mem := (sc_mem c)\<lparr>sm_data := d\<rparr>\<rparr>)"
| end_write: "sc_writing c = Some x \<Longrightarrow> sm_data (sc_mem c) = x \<Longrightarrow>
    writer_step c (c\<lparr>sc_mem := (sc_mem c)\<lparr>sm_seq := sm_seq (sc_mem c) + 1\<rparr>, sc_writing := None,
                     sc_published := sc_published c @ [x]\<rparr>)"

definition signal_start :: "'d \<Rightarrow> 'd signal_conf" where
  "signal_start d = \<lparr>sc_mem = \<lparr>sm_seq = 0, sm_data = d\<rparr>, sc_writing = None, sc_published = [d]\<rparr>"

text \<open>The counter counts the publications; between two of them the data is the last one.\<close>

definition signal_inv :: "'d signal_conf \<Rightarrow> bool" where
  "signal_inv c \<longleftrightarrow>
     unat (sm_seq (sc_mem c)) + 2 = 2 * length (sc_published c) + (if sc_writing c = None then 0 else 1) \<and>
     (sc_writing c \<noteq> None \<longrightarrow> unat (sm_seq (sc_mem c)) + 1 < 2 ^ 64) \<and>
     (sc_writing c = None \<longrightarrow> sm_data (sc_mem c) = last (sc_published c))"

definition grows :: "'d signal_conf \<Rightarrow> 'd signal_conf \<Rightarrow> bool" where
  "grows c c' \<longleftrightarrow> (\<exists>zs. sc_published c' = sc_published c @ zs) \<and>
     unat (sm_seq (sc_mem c)) \<le> unat (sm_seq (sc_mem c'))"

lemma grows_refl [simp]: "grows c c"
  by (simp add: grows_def)

lemma grows_trans: "grows a b \<Longrightarrow> grows b c \<Longrightarrow> grows a c"
  by (auto simp: grows_def)

lemma writer_step_inv: "writer_step c c' \<Longrightarrow> signal_inv c \<Longrightarrow> signal_inv c' \<and> grows c c'"
  by (induction rule: writer_step.induct) (auto simp: signal_inv_def grows_def unat_word_ariths)

lemma writer_steps_inv: "writer_step\<^sup>*\<^sup>* c c' \<Longrightarrow> signal_inv c \<Longrightarrow> signal_inv c' \<and> grows c c'"
  by (induction rule: rtranclp_induct) (auto dest: writer_step_inv intro: grows_trans)

text \<open>What successive loads observe: any number of steps of the publisher between two loads of the reader.\<close>

definition observations :: "(nat \<Rightarrow> 'd signal_conf) \<Rightarrow> bool" where
  "observations w \<longleftrightarrow> signal_inv (w 0) \<and> (\<forall>t. writer_step\<^sup>*\<^sup>* (w t) (w (Suc t)))"

lemma observations_steps: "observations w \<Longrightarrow> writer_step\<^sup>*\<^sup>* (w t) (w (t + n))"
  by (induction n) (auto simp: observations_def intro: rtranclp_trans)

lemma observations_inv:
  assumes "observations w"
  shows "signal_inv (w t)" "grows (w t) (w (t + n))"
proof -
  show i: "signal_inv (w t)" for t
    using writer_steps_inv[OF observations_steps[OF assms, of 0 t]] assms by (simp add: observations_def)
  show "grows (w t) (w (t + n))" using writer_steps_inv[OF observations_steps[OF assms] i] by simp
qed

lemma even_idle: "signal_inv c \<Longrightarrow> even (unat (sm_seq (sc_mem c))) \<longleftrightarrow> sc_writing c = None"
  by (cases "sc_writing c") (auto simp: signal_inv_def, presburger+)

text \<open>As long as the even counter is the same, nothing was written.\<close>

lemma quiet_between:
  assumes s: "observations w" and e: "even (unat (sm_seq (sc_mem (w t))))"
    and q: "sm_seq (sc_mem (w (t + n))) = sm_seq (sc_mem (w t))" and i: "i \<le> n"
  shows "sm_data (sc_mem (w (t + i))) = last (sc_published (w t))"
proof -
  have "unat (sm_seq (sc_mem (w (t + i)))) = unat (sm_seq (sc_mem (w t)))"
    using observations_inv(2)[OF s, of t i] observations_inv(2)[OF s, of "t + i" "n - i"] q i
    by (simp add: grows_def)
  moreover obtain zs where "sc_published (w (t + i)) = sc_published (w t) @ zs"
    using observations_inv(2)[OF s, of t i] by (auto simp: grows_def)
  ultimately show ?thesis
    using observations_inv(1)[OF s, of t] observations_inv(1)[OF s, of "t + i"] e
    by (cases "sc_writing (w t)"; cases "sc_writing (w (t + i))") (auto simp: signal_inv_def, presburger+)
qed

section \<open>What a read returns\<close>

text \<open>
  What the reader needs of the copies: taken one after the other from one value they give this
  value, whatever the buffer held before.
\<close>

locale seqlock =
  fixes copies :: "('d \<Rightarrow> 'd \<Rightarrow> 'd) list"
  assumes whole: "fold (\<lambda>c. c d) copies s = d"
begin

lemma copy_quiet:
  "(\<And>i. i < length cs \<Longrightarrow> sm_data (obs (t + i)) = d) \<Longrightarrow> copy_fields cs obs t s = fold (\<lambda>c. c d) cs s"
proof (induction cs arbitrary: t s)
  case (Cons c cs)
  have "sm_data (obs t) = d" using Cons.prems[of 0] by simp
  moreover have "sm_data (obs (Suc t + i)) = d" if "i < length cs" for i
    using Cons.prems[of "Suc i"] that by simp
  ultimately show ?case using Cons.IH[of "Suc t"] by simp
qed simp

lemma read_untorn:
  assumes "observations w"
  shows "read_loop copies garbage dflt n (\<lambda>t. sc_mem (w t)) t = dflt \<or>
    (\<exists>u \<ge> t. sc_writing (w u) = None \<and> read_loop copies garbage dflt n (\<lambda>t. sc_mem (w t)) t = last (sc_published (w u)))"
proof (induction n arbitrary: t)
  case (Suc n)
  let ?k = "length copies"
  have later: ?case if "read_loop copies garbage dflt (Suc n) (\<lambda>t. sc_mem (w t)) t =
      read_loop copies garbage dflt n (\<lambda>t. sc_mem (w t)) v" "t \<le> v" for v
    using Suc.IH[of v] that by (metis order_trans)
  show ?case
  proof (cases "even (unat (sm_seq (sc_mem (w t)))) \<and> sm_seq (sc_mem (w (t + (?k + 1)))) = sm_seq (sc_mem (w t))")
    case True
    have "copy_fields copies (\<lambda>t. sc_mem (w t)) (Suc t) garbage = last (sc_published (w t))"
      using copy_quiet[of copies "\<lambda>t. sc_mem (w t)" "Suc t" "last (sc_published (w t))" garbage]
        quiet_between[OF assms, of t "?k + 1" "Suc _"] True whole by simp
    moreover have "sc_writing (w t) = None"
      using even_idle[OF observations_inv(1)[OF assms]] True by simp
    ultimately show ?thesis using True by (auto simp: Let_def intro!: exI[of _ t])
  next
    case False
    then show ?thesis
      using later[of "Suc t"] later[of "Suc (Suc (t + ?k))"] by (auto simp: Let_def)
  qed
qed simp

lemma read_fresh:
  assumes "\<And>i. i \<le> length copies + 1 \<Longrightarrow> obs (t + i) = m" "even (unat (sm_seq m))"
  shows "read_loop copies garbage dflt (Suc n) obs t = sm_data m"
proof -
  have "obs t = m" "obs (Suc t + length copies) = m" using assms(1)[of 0] assms(1)[of "length copies + 1"] by simp_all
  moreover have "copy_fields copies obs (Suc t) garbage = sm_data m"
    using copy_quiet[of copies obs "Suc t" "sm_data m" garbage] assms(1)[of "Suc _"] whole by simp
  ultimately show ?thesis using assms(2) by (simp add: Let_def)
qed

end

lemma read_stalled: "(\<And>i. odd (unat (sm_seq (obs (t + i))))) \<Longrightarrow> read_loop copies garbage dflt n obs t = dflt"
proof (induction n arbitrary: t)
  case (Suc n)
  from Suc.prems[of 0] Suc.IH[of "Suc t"] Suc.prems[of "Suc _"] show ?case by (simp add: Let_def)
qed simp

interpretation alpha: seqlock alpha_copies
  by unfold_locales (simp add: alpha_copies_def)

interpretation regime: seqlock regime_copies
  by unfold_locales (simp add: regime_copies_def)

text \<open>
  C29. A signal is never torn: however the publisher's writes fall between the loads of a read, what
  \<open>read()\<close> returns is a signal that was published as a whole and was the latest one at some
  moment of the read, or the neutral signal after sixteen failed attempts.
\<close>
theorem signals_never_torn:
  assumes "observations wa" "observations wr"
  shows "(alpha_read ga (\<lambda>t. sc_mem (wa t)) = empty_alpha \<or>
      (\<exists>u. sc_writing (wa u) = None \<and> alpha_read ga (\<lambda>t. sc_mem (wa t)) = last (sc_published (wa u)))) \<and>
    (regime_read gr (\<lambda>t. sc_mem (wr t)) = empty_regime \<or>
      (\<exists>u. sc_writing (wr u) = None \<and> regime_read gr (\<lambda>t. sc_mem (wr t)) = last (sc_published (wr u))))"
  using alpha.read_untorn[OF assms(1), of ga empty_alpha k_max_retries 0]
    regime.read_untorn[OF assms(2), of gr empty_regime k_max_retries 0]
  unfolding alpha_read_def regime_read_def by blast

text \<open>
  A publication that begins after the reader has copied two fields: the reader retries and returns
  the new signal.
\<close>

definition overlapping :: "'d \<Rightarrow> 'd \<Rightarrow> nat \<Rightarrow> 'd signal_conf" where
  "overlapping old new t =
     (if t \<le> 2 then signal_start old
      else if t = 3 then (signal_start old)\<lparr>sc_mem := \<lparr>sm_seq = 1, sm_data = old\<rparr>, sc_writing := Some new\<rparr>
      else if t = 4 then (signal_start old)\<lparr>sc_mem := \<lparr>sm_seq = 1, sm_data = new\<rparr>, sc_writing := Some new\<rparr>
      else (signal_start old)\<lparr>sc_mem := \<lparr>sm_seq = 2, sm_data = new\<rparr>, sc_published := [old, new]\<rparr>)"

lemma signal_start_inv: "signal_inv (signal_start d)"
  by (simp add: signal_inv_def signal_start_def)

lemma overlapping_observations: "observations (overlapping old new)"
proof -
  have "writer_step\<^sup>*\<^sup>* (overlapping old new t) (overlapping old new (Suc t))" for t
  proof -
    consider "t < 2" | "t = 2" | "t = 3" | "t = 4" | "4 < t" by linarith
    then show ?thesis
    proof cases
      case 2
      have "writer_step (overlapping old new t) (overlapping old new (Suc t))"
        using writer_step.begin_write[of "signal_start old" new] 2 by (simp add: overlapping_def signal_start_def)
      then show ?thesis ..
    next
      case 3
      have "writer_step (overlapping old new t) (overlapping old new (Suc t))"
        using writer_step.write_data[of "overlapping old new 3" new new] 3 by (simp add: overlapping_def signal_start_def)
      then show ?thesis ..
    next
      case 4
      have "writer_step (overlapping old new t) (overlapping old new (Suc t))"
        using writer_step.end_write[of "overlapping old new 4" new] 4 by (simp add: overlapping_def signal_start_def)
      then show ?thesis ..
    qed (simp_all add: overlapping_def)
  qed
  then show ?thesis using signal_start_inv by (simp add: observations_def overlapping_def)
qed

definition sample_alpha :: AlphaSignal where
  "sample_alpha = \<lparr>as_signal_bps = Fin 5, as_risk_score = Fin (1 / 4), as_size_fraction = 1, as_horizon_ticks = 3, as_ts_ns = 100\<rparr>"

theorem signals_never_torn_witness:
  "alpha_read empty_alpha (\<lambda>t. sc_mem (overlapping empty_alpha sample_alpha t)) = sample_alpha \<and>
   (\<exists>u. sc_published (overlapping empty_alpha sample_alpha u) = [empty_alpha, sample_alpha])"
proof -
  let ?r = "alpha_read empty_alpha (\<lambda>t. sc_mem (overlapping empty_alpha sample_alpha t))"
  have e: "empty_alpha \<noteq> sample_alpha" by (simp add: empty_alpha_def sample_alpha_def zero_double_def)
  have "read_loop alpha_copies empty_alpha empty_alpha (Suc (Suc n))
      (\<lambda>t. sc_mem (overlapping empty_alpha sample_alpha t)) 0 = sample_alpha" for n
    by (simp add: alpha_copies_def overlapping_def signal_start_def Let_def)
  from this[of 14] have "?r = sample_alpha" by (simp add: alpha_read_def k_max_retries_def)
  moreover from this signals_never_torn[OF overlapping_observations[of empty_alpha sample_alpha]
      overlapping_observations[of empty_regime empty_regime], of empty_alpha empty_regime] e
  obtain u where "sc_writing (overlapping empty_alpha sample_alpha u) = None"
      "last (sc_published (overlapping empty_alpha sample_alpha u)) = sample_alpha" by auto
  ultimately show ?thesis
    using e by (intro conjI exI[of _ u]) (auto simp: overlapping_def signal_start_def split: if_splits)
qed

text \<open>
  A read that no publication overlaps returns the latest signal at the first attempt, for both
  signals.
\<close>
theorem quiet_read_is_fresh:
  assumes "\<forall>i \<le> 6. obs i = m" "even (unat (sm_seq m))" "\<forall>i \<le> 6. obs' i = m'" "even (unat (sm_seq m'))"
  shows "alpha_read ga obs = sm_data m \<and> regime_read gr obs' = sm_data m'"
  using alpha.read_fresh[of obs 0 m ga empty_alpha 15] regime.read_fresh[of obs' 0 m' gr empty_regime 15] assms
  by (simp add: alpha_read_def regime_read_def k_max_retries_def alpha_copies_def regime_copies_def numeral_eq_Suc)

theorem quiet_read_is_fresh_witness:
  "alpha_read empty_alpha (\<lambda>_. \<lparr>sm_seq = 2, sm_data = sample_alpha\<rparr>) = sample_alpha \<and>
   regime_read empty_regime (\<lambda>_. \<lparr>sm_seq = 0, sm_data = empty_regime\<rparr>) = empty_regime"
  using quiet_read_is_fresh[of "\<lambda>_. \<lparr>sm_seq = 2, sm_data = sample_alpha\<rparr>" "\<lparr>sm_seq = 2, sm_data = sample_alpha\<rparr>"
      "\<lambda>_. \<lparr>sm_seq = 0, sm_data = empty_regime\<rparr>" "\<lparr>sm_seq = 0, sm_data = empty_regime\<rparr>"] by simp

text \<open>
  A publisher that dies in the middle of a publication opens the gate: the counter stays odd,
  every read gives up, and longs, shorts and market making are allowed whatever the risk limit.
\<close>
theorem stalled_publisher_opens_gate:
  assumes "\<forall>t. odd (unat (sm_seq (obs t)))"
  shows "alpha_read ga obs = empty_alpha \<and> allows_long now (Some (alpha_read ga obs)) r = (True, r) \<and>
    allows_short now (Some (alpha_read ga obs)) r = (True, r) \<and> allows_mm now (Some (alpha_read ga obs)) r"
proof -
  have "alpha_read ga obs = empty_alpha" using read_stalled[of obs 0] assms by (simp add: alpha_read_def)
  then show ?thesis by (simp add: allows_long_def allows_short_def allows_mm_def alpha_is_stale_def) (simp add: empty_alpha_def)
qed

theorem stalled_publisher_opens_gate_witness:
  "alpha_read empty_alpha (\<lambda>_. \<lparr>sm_seq = 1, sm_data = sample_alpha\<rparr>) = empty_alpha"
  using stalled_publisher_opens_gate[of "\<lambda>_. \<lparr>sm_seq = 1, sm_data = sample_alpha\<rparr>"] by simp

text \<open>With a fresh signal the gate is closed exactly by a weak signal or by the risk limit.\<close>

lemma gate_closed:
  assumes "as_ts_ns s \<noteq> 0" "now - as_ts_ns s \<le> ar_stale_ns r"
  shows "fst (allows_long now (Some s) r) \<longleftrightarrow> as_signal_bps s \<ge> ar_signal_min_bps r \<and> as_risk_score s < ar_risk_max r"
    "fst (allows_short now (Some s) r) \<longleftrightarrow> as_signal_bps s \<le> - ar_signal_min_bps r \<and> as_risk_score s < ar_risk_max r"
    "allows_mm now (Some s) r \<longleftrightarrow> as_risk_score s < ar_risk_max r"
  using assms by (simp_all add: allows_long_def allows_short_def allows_mm_def alpha_is_stale_def)

end
