(* ===== verification/Std_Strings.thy ===== *)
theory Std_Strings
  imports Trading_Prelude
begin

text \<open>
  The conversions between numbers and text that the program takes from the C++ library: \<open>std::stoull\<close>,
  \<open>std::stoll\<close>, \<open>std::stod\<close> and \<open>operator<<\<close>. A \<open>std::string\<close> is the list of its bytes. The two exceptions
  these functions throw are values. The formats and ranges are those of \<open>strtoull\<close>, \<open>strtoll\<close> and \<open>strtod\<close>
  in the C locale: leading white space and a sign are read, text after the number is ignored.
\<close>

datatype std_error = Invalid_argument | Out_of_range

section \<open>Characters and digits\<close>

definition code :: "char \<Rightarrow> nat" where "code c = of_char c"

definition is_digit :: "char \<Rightarrow> bool" where "is_digit c \<longleftrightarrow> 48 \<le> code c \<and> code c \<le> 57"

definition digit_value :: "char \<Rightarrow> nat" where "digit_value c = code c - 48"

definition is_space :: "char \<Rightarrow> bool" where "is_space c \<longleftrightarrow> code c = 32 \<or> (9 \<le> code c \<and> code c \<le> 13)"

definition to_lower :: "char \<Rightarrow> char" where
  "to_lower c = (if 65 \<le> code c \<and> code c \<le> 90 then char_of (code c + 32) else c)"

definition hex_value :: "char \<Rightarrow> nat option" where
  "hex_value c = (let n = code c in
     if 48 \<le> n \<and> n \<le> 57 then Some (n - 48)
     else if 97 \<le> n \<and> n \<le> 102 then Some (n - 87)
     else if 65 \<le> n \<and> n \<le> 70 then Some (n - 55) else None)"

definition int_of_digits :: "string \<Rightarrow> int" where
  "int_of_digits ds = fold (\<lambda>c n. 10 * n + int (digit_value c)) ds 0"

definition int_of_hex :: "string \<Rightarrow> int" where
  "int_of_hex ds = fold (\<lambda>c n. 16 * n + int (the (hex_value c))) ds 0"

definition digit :: "nat \<Rightarrow> char" where "digit n = char_of (48 + n)"

text \<open>The decimal digits of a number that is not negative.\<close>

function show_nat :: "int \<Rightarrow> string" where
  "show_nat n = (if n < 10 then [digit (nat n)] else show_nat (n div 10) @ [digit (nat (n mod 10))])"
  by pat_completeness auto
termination by (relation "measure nat") auto

declare show_nat.simps [simp del]

definition show_int :: "int \<Rightarrow> string" where
  "show_int i = (if i < 0 then CHR ''-'' # show_nat (- i) else show_nat i)"

section \<open>Reading integers\<close>

definition split_sign :: "string \<Rightarrow> bool \<times> string" where
  "split_sign s = (case s of
     [] \<Rightarrow> (False, [])
   | c # t \<Rightarrow> if c = CHR ''-'' then (True, t) else if c = CHR ''+'' then (False, t) else (False, s))"

definition int_token :: "string \<Rightarrow> (bool \<times> int) option" where
  "int_token s =
     (case split_sign (dropWhile is_space s) of (neg, t) \<Rightarrow>
        let ds = takeWhile is_digit t in if ds = [] then None else Some (neg, int_of_digits ds))"

text \<open>\<open>strtoull\<close> negates in the unsigned type: ''-1'' is the largest value.\<close>

definition stoull :: "string \<Rightarrow> std_error + u64" where
  "stoull s = (case int_token s of
     None \<Rightarrow> Inl Invalid_argument
   | Some (neg, n) \<Rightarrow>
       if n \<ge> 2 ^ 64 then Inl Out_of_range
       else Inr (if neg then - word_of_int n else word_of_int n))"

definition signed_token :: "nat \<Rightarrow> string \<Rightarrow> std_error + int" where
  "signed_token w s = (case int_token s of
     None \<Rightarrow> Inl Invalid_argument
   | Some (neg, n) \<Rightarrow>
       let v = (if neg then - n else n)
       in if v < - (2 ^ (w - 1)) \<or> v \<ge> 2 ^ (w - 1) then Inl Out_of_range else Inr v)"

definition stoll :: "string \<Rightarrow> std_error + int" where "stoll = signed_token 64"

definition stoi :: "string \<Rightarrow> std_error + int" where "stoi = signed_token 32"

section \<open>Reading floating-point numbers\<close>

text \<open>
  The exact value is rounded once. A value beyond the range, and a tiny value that is not
  representable, set \<open>errno\<close> to \<open>ERANGE\<close> (glibc), which \<open>std::stod\<close> turns into \<open>out_of_range\<close>.
\<close>

definition ranged :: "bool \<Rightarrow> rat \<Rightarrow> std_error + double" where
  "ranged neg q =
     (let v = (if neg then - q else q); d = pack neg v
      in if \<not> isfinite d then Inl Out_of_range
         else if fval d = v then Inr d
         else if fval d = 0 \<or> binexp (fval d) < - 1022 then Inl Out_of_range
         else Inr d)"

text \<open>An exponent counts only when it has a digit.\<close>

definition exponent_of :: "char \<Rightarrow> string \<Rightarrow> int" where
  "exponent_of mark s = (case s of
     [] \<Rightarrow> 0
   | c # t \<Rightarrow>
       if to_lower c \<noteq> mark then 0
       else case split_sign t of (neg, u) \<Rightarrow>
         let n = int_of_digits (takeWhile is_digit u) in if neg then - n else n)"

text \<open>The digits before and after the point, and what follows them.\<close>

definition mantissa :: "(char \<Rightarrow> bool) \<Rightarrow> string \<Rightarrow> string \<times> string \<times> string" where
  "mantissa p s =
     (let ds = takeWhile p s; r = dropWhile p s in
      case r of
        c # t \<Rightarrow> if c = CHR ''.'' then (ds, takeWhile p t, dropWhile p t) else (ds, [], r)
      | [] \<Rightarrow> (ds, [], []))"

definition decimal_value :: "string \<Rightarrow> rat option" where
  "decimal_value s = (case mantissa is_digit s of (ip, fp, r) \<Rightarrow>
     if ip = [] \<and> fp = [] then None
     else Some (of_int (int_of_digits (ip @ fp)) * 10 powi (exponent_of (CHR ''e'') r - int (length fp))))"

definition hex_float_value :: "string \<Rightarrow> rat option" where
  "hex_float_value s = (case mantissa (\<lambda>c. hex_value c \<noteq> None) s of (ip, fp, r) \<Rightarrow>
     if ip = [] \<and> fp = [] then None
     else Some (of_int (int_of_hex (ip @ fp)) * 2 powi (exponent_of (CHR ''p'') r - 4 * int (length fp))))"

definition stod :: "string \<Rightarrow> std_error + double" where
  "stod s =
     (case split_sign (dropWhile is_space s) of (neg, t) \<Rightarrow>
        let word = map to_lower t in
        if take 3 word = ''inf'' then Inr (inf_of neg)
        else if take 3 word = ''nan'' then Inr NaN
        else case (if take 2 word = ''0x'' then hex_float_value (drop 2 t) else None) of
          Some q \<Rightarrow> ranged neg q
        | None \<Rightarrow> (case decimal_value t of None \<Rightarrow> Inl Invalid_argument | Some q \<Rightarrow> ranged neg q))"

section \<open>Printing floating-point numbers\<close>

text \<open>\<open>operator<<\<close> prints a \<open>double\<close> as \<open>printf\<close> does with the format \<open>%g\<close>: six significant digits.\<close>

definition dec_exp :: "rat \<Rightarrow> int" where
  "dec_exp q = (case quotient_of q of (n, d) \<Rightarrow>
     let k = int (length (show_nat n)) - int (length (show_nat d))
     in if 10 powi k \<le> q then k else k - 1)"

definition strip_zeros :: "string \<Rightarrow> string" where
  "strip_zeros s = rev (dropWhile (\<lambda>c. c = CHR ''0'') (rev s))"

definition with_fraction :: "string \<Rightarrow> string \<Rightarrow> string" where
  "with_fraction ip fp = (let f = strip_zeros fp in if f = [] then ip else ip @ CHR ''.'' # f)"

definition show_exponent :: "int \<Rightarrow> string" where
  "show_exponent e = ''e'' @ (if e < 0 then ''-'' else ''+'') @
     (let ds = show_nat \<bar>e\<bar> in if length ds < 2 then CHR ''0'' # ds else ds)"

definition show_pos :: "rat \<Rightarrow> string" where
  "show_pos q =
     (let x = dec_exp q; m = rne (q / 10 powi (x - 5));
          (m, x) = (if m = 10 ^ 6 then (10 ^ 5, x + 1) else (m, x));
          ds = show_nat m
      in if - 4 \<le> x \<and> x < 6 then
           (if 0 \<le> x then with_fraction (take (nat x + 1) ds) (drop (nat x + 1) ds)
            else with_fraction ''0'' (replicate (nat (- x - 1)) (CHR ''0'') @ ds))
         else with_fraction (take 1 ds) (drop 1 ds) @ show_exponent x)"

fun show_double :: "double \<Rightarrow> string" where
  "show_double NaN = ''nan''"
| "show_double PInf = ''inf''"
| "show_double NInf = ''-inf''"
| "show_double NZero = ''-0''"
| "show_double (Fin q) = (if q = 0 then ''0'' else if q < 0 then CHR ''-'' # show_pos (- q) else show_pos q)"

section \<open>Printing and reading integers\<close>

lemma is_digit_digit [simp]: "n < 10 \<Longrightarrow> is_digit (digit n)"
  by (simp add: is_digit_def digit_def code_def)

lemma digit_value_digit [simp]: "n < 10 \<Longrightarrow> digit_value (digit n) = n"
  by (simp add: digit_value_def digit_def code_def)

lemma show_nat_digits: "0 \<le> n \<Longrightarrow> \<forall>c \<in> set (show_nat n). is_digit c"
  by (induction n rule: show_nat.induct) (subst show_nat.simps, auto)

lemma show_nat_not_Nil [simp]: "show_nat n \<noteq> []"
  by (subst show_nat.simps) simp

lemma int_of_digits_snoc: "int_of_digits (ds @ [c]) = 10 * int_of_digits ds + int (digit_value c)"
  by (simp add: int_of_digits_def)

lemma int_of_show_nat [simp]: "0 \<le> n \<Longrightarrow> int_of_digits (show_nat n) = n"
proof (induction n rule: show_nat.induct)
  case (1 n)
  show ?case
  proof (cases "n < 10")
    case True
    with 1 show ?thesis by (subst show_nat.simps) (simp add: int_of_digits_def)
  next
    case False
    with 1 show ?thesis by (subst show_nat.simps) (simp add: int_of_digits_snoc)
  qed
qed

text \<open>A printed number, followed by text that does not start with a digit, is read back whole.\<close>

lemma take_digits_show [simp]:
  "0 \<le> n \<Longrightarrow> takeWhile is_digit (show_nat n @ r) = show_nat n @ takeWhile is_digit r"
  "0 \<le> n \<Longrightarrow> dropWhile is_digit (show_nat n @ r) = dropWhile is_digit r"
  "0 \<le> n \<Longrightarrow> takeWhile is_digit (show_nat n) = show_nat n"
  using show_nat_digits[of n] by auto

lemma digit_not_space: "is_digit c \<Longrightarrow> \<not> is_space c" "is_digit c \<Longrightarrow> c \<noteq> CHR ''-''" "is_digit c \<Longrightarrow> c \<noteq> CHR ''+''"
  by (auto simp: is_digit_def is_space_def code_def)

lemma show_nat_Cons:
  assumes "0 \<le> n"
  obtains c cs where "show_nat n = c # cs" "is_digit c"
  using show_nat_digits[OF assms] by (cases "show_nat n") auto

lemma int_token_show_nat:
  assumes "0 \<le> n"
  shows "int_token (show_nat n) = Some (False, n)"
proof -
  obtain c cs where c: "show_nat n = c # cs" "is_digit c" using assms by (rule show_nat_Cons)
  then have "split_sign (dropWhile is_space (show_nat n)) = (False, show_nat n)"
    using digit_not_space[OF c(2)] by (simp add: split_sign_def)
  then show ?thesis using assms by (simp add: int_token_def)
qed

lemma int_token_show_neg:
  assumes "0 \<le> n"
  shows "int_token (CHR ''-'' # show_nat n) = Some (True, n)"
proof -
  have "\<not> is_space (CHR ''-'')" by (simp add: is_space_def code_def)
  then show ?thesis using assms by (simp add: int_token_def split_sign_def)
qed

lemma stoull_show: "stoull (show_nat (uint w)) = Inr w"
  using uint_lt2p[of w] by (simp add: stoull_def int_token_show_nat)

lemma stoll_show:
  assumes "- (2 ^ 63) \<le> i" "i < 0"
  shows "stoll (show_int i) = Inr i"
  using assms by (simp add: stoll_def signed_token_def show_int_def int_token_show_neg)

end
