(* ===== verification/Json.thy ===== *)
theory Json
  imports Std_Strings
begin

text \<open>
  \<open>core/common/json.hpp\<close>: the JSON values, their parser, serializer and accessors. A value is a
  datatype; a null array or object pointer is the empty one. The parser's position in the buffer
  is the remaining text, and an exception is an error value. The three mutually recursive
  functions of the parser take fuel; twice the length of the text and one more is always enough.
\<close>

datatype json =
  JNull | JBool bool | JInt int | JUint u64 | JFloat double | JString string
  | JArray "json list" | JObject "(string \<times> json) list" | JDiscarded

datatype json_error =
  Unexpected_char | Expected_key | Expected_colon | Expected_separator | Short_escape | Bad_hex
  | Unterminated_string | Expected_literal | Trailing_chars | Number_error std_error | Out_of_fuel

definition quote :: char where "quote = CHR 0x22"
definition backslash :: char where "backslash = CHR 0x5C"

section \<open>The lexical level\<close>

definition is_ws :: "char \<Rightarrow> bool" where
  "is_ws c \<longleftrightarrow> c = CHR '' '' \<or> c = CHR 0x09 \<or> c = CHR 0x0A \<or> c = CHR 0x0D"

definition skip_ws :: "string \<Rightarrow> string" where "skip_ws = dropWhile is_ws"

definition consume :: "string \<Rightarrow> char \<times> string" where
  "consume s = (case s of [] \<Rightarrow> (CHR 0x00, []) | c # t \<Rightarrow> (c, t))"

definition peek :: "string \<Rightarrow> char" where "peek s = fst (consume (skip_ws s))"

definition expect :: "string \<Rightarrow> json \<Rightarrow> string \<Rightarrow> json_error + json \<times> string" where
  "expect str j s = (if take (length str) s = str then Inr (j, drop (length str) s) else Inl Expected_literal)"

definition unescape :: "char \<Rightarrow> char" where
  "unescape c = (if c = CHR ''b'' then CHR 0x08 else if c = CHR ''f'' then CHR 0x0C
     else if c = CHR ''n'' then CHR 0x0A else if c = CHR ''r'' then CHR 0x0D
     else if c = CHR ''t'' then CHR 0x09 else c)"

definition code_point :: "string \<Rightarrow> nat option" where
  "code_point hs = (if list_all (\<lambda>h. hex_value h \<noteq> None) hs then Some (nat (int_of_hex hs)) else None)"

definition encode_code_point :: "nat \<Rightarrow> string" where
  "encode_code_point cp =
     (if cp < 0x80 then [char_of cp]
      else if cp < 0x800 then [char_of (0xC0 + cp div 64), char_of (0x80 + cp mod 64)]
      else [char_of (0xE0 + cp div 4096), char_of (0x80 + cp div 64 mod 64), char_of (0x80 + cp mod 64)])"

text \<open>The loop of \<open>parse_string\<close>, after the opening quote.\<close>

fun string_loop :: "string \<Rightarrow> string \<Rightarrow> json_error + string \<times> string" where
  "string_loop acc [] = Inl Unterminated_string"
| "string_loop acc (c # s) =
     (if c = quote then Inr (acc, s)
      else if c = backslash then
        (case s of
           [] \<Rightarrow> Inl Unterminated_string
         | esc # t \<Rightarrow>
             if esc = CHR ''u'' then
               (if length t < 4 then Inl Short_escape
                else case code_point (take 4 t) of
                  None \<Rightarrow> Inl Bad_hex
                | Some cp \<Rightarrow> string_loop (acc @ encode_code_point cp) (drop 4 t))
             else string_loop (acc @ [unescape esc]) t)
      else string_loop (acc @ [c]) s)"

definition parse_string :: "string \<Rightarrow> json_error + string \<times> string" where
  "parse_string s = string_loop [] (snd (consume s))"

definition number_result :: "(std_error + 'a) \<Rightarrow> ('a \<Rightarrow> json) \<Rightarrow> string \<Rightarrow> json_error + json \<times> string" where
  "number_result r f rest = (case r of Inl e \<Rightarrow> Inl (Number_error e) | Inr v \<Rightarrow> Inr (f v, rest))"

definition skip_fraction :: "string \<Rightarrow> string" where
  "skip_fraction s = (if take 1 s = ''.'' then dropWhile is_digit (drop 1 s) else s)"

definition skip_exponent :: "string \<Rightarrow> string" where
  "skip_exponent s =
     (if take 1 s = ''e'' \<or> take 1 s = ''E'' then
        (let t = drop 1 s in dropWhile is_digit (if take 1 t = ''+'' \<or> take 1 t = ''-'' then drop 1 t else t))
      else s)"

definition parse_number :: "string \<Rightarrow> json_error + json \<times> string" where
  "parse_number s =
     (let neg = take 1 s = ''-'';
          s1 = dropWhile is_digit (if neg then drop 1 s else s);
          s2 = skip_fraction s1;
          s3 = skip_exponent s2;
          is_float = take 1 s1 = ''.'' \<or> take 1 s2 = ''e'' \<or> take 1 s2 = ''E'';
          tok = take (length s - length s3) s
      in if is_float then number_result (stod tok) JFloat s3
         else if neg then number_result (stoll tok) JInt s3
         else number_result (stoull tok) JUint s3)"

section \<open>The parser\<close>

fun parse_value :: "nat \<Rightarrow> string \<Rightarrow> json_error + json \<times> string"
and parse_members :: "nat \<Rightarrow> (string \<times> json) list \<Rightarrow> string \<Rightarrow> json_error + json \<times> string"
and parse_elements :: "nat \<Rightarrow> json list \<Rightarrow> string \<Rightarrow> json_error + json \<times> string"
where
  "parse_value 0 s = Inl Out_of_fuel"
| "parse_value (Suc n) s =
     (let c = peek s; s = skip_ws s in
      if c = CHR ''{'' then
        (if peek (tl s) = CHR ''}'' then Inr (JObject [], tl (skip_ws (tl s))) else parse_members n [] (tl s))
      else if c = CHR ''['' then
        (if peek (tl s) = CHR '']'' then Inr (JArray [], tl (skip_ws (tl s))) else parse_elements n [] (tl s))
      else if c = quote then (case parse_string s of Inl e \<Rightarrow> Inl e | Inr (str, r) \<Rightarrow> Inr (JString str, r))
      else if c = CHR ''t'' then expect ''true'' (JBool True) s
      else if c = CHR ''f'' then expect ''false'' (JBool False) s
      else if c = CHR ''n'' then expect ''null'' JNull s
      else if c = CHR ''-'' \<or> is_digit c then parse_number s
      else Inl Unexpected_char)"
| "parse_members 0 acc s = Inl Out_of_fuel"
| "parse_members (Suc n) acc s =
     (if peek s \<noteq> quote then Inl Expected_key
      else case parse_string (skip_ws s) of
        Inl e \<Rightarrow> Inl e
      | Inr (key, s1) \<Rightarrow>
          (case consume (skip_ws s1) of (colon, s2) \<Rightarrow>
             if colon \<noteq> CHR '':'' then Inl Expected_colon
             else case parse_value n s2 of
               Inl e \<Rightarrow> Inl e
             | Inr (val, s3) \<Rightarrow>
                 (case consume (skip_ws s3) of (sep, s4) \<Rightarrow>
                    if sep = CHR ''}'' then Inr (JObject (acc @ [(key, val)]), s4)
                    else if sep = CHR '','' then parse_members n (acc @ [(key, val)]) s4
                    else Inl Expected_separator)))"
| "parse_elements 0 acc s = Inl Out_of_fuel"
| "parse_elements (Suc n) acc s =
     (case parse_value n s of
        Inl e \<Rightarrow> Inl e
      | Inr (val, s1) \<Rightarrow>
          (case consume (skip_ws s1) of (sep, s2) \<Rightarrow>
             if sep = CHR '']'' then Inr (JArray (acc @ [val]), s2)
             else if sep = CHR '','' then parse_elements n (acc @ [val]) s2
             else Inl Expected_separator))"

declare parse_value.simps [simp del] parse_members.simps [simp del] parse_elements.simps [simp del]

definition parse_json :: "string \<Rightarrow> json_error + json" where
  "parse_json s =
     (case parse_value (2 * length s + 1) s of
        Inl e \<Rightarrow> Inl e
      | Inr (j, r) \<Rightarrow> if skip_ws r = [] then Inr j else Inl Trailing_chars)"

text \<open>\<open>parse(s, nullptr, false)\<close> answers a discarded value instead of throwing.\<close>

definition parse_or_discard :: "string \<Rightarrow> json" where
  "parse_or_discard s = (case parse_json s of Inl _ \<Rightarrow> JDiscarded | Inr j \<Rightarrow> j)"

section \<open>The serializer\<close>

definition escape :: "char \<Rightarrow> string" where
  "escape c = (if c = quote then [backslash, quote] else if c = backslash then [backslash, backslash]
     else if c = CHR 0x08 then [backslash, CHR ''b''] else if c = CHR 0x0C then [backslash, CHR ''f'']
     else if c = CHR 0x0A then [backslash, CHR ''n''] else if c = CHR 0x0D then [backslash, CHR ''r'']
     else if c = CHR 0x09 then [backslash, CHR ''t''] else [c])"

fun dump :: "json \<Rightarrow> string"
and dump_elements :: "json list \<Rightarrow> string"
and dump_members :: "(string \<times> json) list \<Rightarrow> string" where
  "dump JNull = ''null''"
| "dump (JBool b) = (if b then ''true'' else ''false'')"
| "dump (JInt i) = show_int i"
| "dump (JUint w) = show_nat (uint w)"
| "dump (JFloat d) = show_double d"
| "dump (JString s) = quote # concat (map escape s) @ [quote]"
| "dump (JArray js) = ''['' @ dump_elements js @ '']''"
| "dump (JObject kvs) = ''{'' @ dump_members kvs @ ''}''"
| "dump JDiscarded = ''null''"
| "dump_elements [] = []"
| "dump_elements (j # js) = dump j @ (if js = [] then [] else '','' @ dump_elements js)"
| "dump_members [] = []"
| "dump_members ((k, j) # kvs) =
     quote # k @ [quote, CHR '':''] @ dump j @ (if kvs = [] then [] else '','' @ dump_members kvs)"

section \<open>Access\<close>

text \<open>Lookups of absent keys and indices answer null; \<open>find\<close> answers the end iterator, here \<open>None\<close>.\<close>

definition json_find :: "string \<Rightarrow> json \<Rightarrow> json option" where
  "json_find key j = (case j of JObject kvs \<Rightarrow> map_of kvs key | _ \<Rightarrow> None)"

definition at_key :: "string \<Rightarrow> json \<Rightarrow> json" where
  "at_key key j = (case json_find key j of Some v \<Rightarrow> v | None \<Rightarrow> JNull)"

definition at_index :: "json \<Rightarrow> nat \<Rightarrow> json" where
  "at_index j i = (case j of JArray js \<Rightarrow> if i < length js then js ! i else JNull | _ \<Rightarrow> JNull)"

definition json_size :: "json \<Rightarrow> nat" where
  "json_size j = (case j of JArray js \<Rightarrow> length js | JObject kvs \<Rightarrow> length kvs | _ \<Rightarrow> 0)"

definition json_contains :: "string \<Rightarrow> json \<Rightarrow> bool" where
  "json_contains key j \<longleftrightarrow> json_find key j \<noteq> None"

text \<open>The mutable \<open>operator[]\<close>: any value becomes an object, an absent key is added with a null.\<close>

definition at_key_mut :: "string \<Rightarrow> (json \<Rightarrow> json) \<Rightarrow> json \<Rightarrow> json" where
  "at_key_mut key f j =
     (let kvs = (case j of JObject kvs \<Rightarrow> kvs | _ \<Rightarrow> []) in
      JObject (case find_slot (\<lambda>kv. fst kv = key) kvs of
        Some i \<Rightarrow> kvs[i := (key, f (snd (kvs ! i)))]
      | None \<Rightarrow> kvs @ [(key, f JNull)]))"

definition is_pair :: "json \<Rightarrow> bool" where
  "is_pair j \<longleftrightarrow> json_size j = 2 \<and> (case at_index j 0 of JString _ \<Rightarrow> True | _ \<Rightarrow> False)"

definition string_of :: "json \<Rightarrow> string" where
  "string_of j = (case j of JString s \<Rightarrow> s | _ \<Rightarrow> [])"

text \<open>The constructor from a braced list: a list of pairs whose first half is a string is an object.\<close>

definition json_of_list :: "json list \<Rightarrow> json" where
  "json_of_list init =
     (if list_all is_pair init
      then JObject (map (\<lambda>e. (string_of (at_index e 0), at_index e 1)) init) else JArray init)"

text \<open>
  \<open>get<T>\<close> throws \<open>bad_cast\<close> (\<open>None\<close>) on a value of another kind. A number is converted to the
  requested type. A \<open>double\<close> outside the range of the integer type is undefined behaviour in
  C++; \<open>cvttsd2si\<close> of the deployment target answers the least integer then.
\<close>

definition truncate :: "double \<Rightarrow> int" where
  "truncate d =
     (if \<not> isfinite d then i64_min
      else let q = fval d; n = (if q < 0 then - \<lfloor>- q\<rfloor> else \<lfloor>q\<rfloor>)
           in if - (2 ^ 63) \<le> n \<and> n < 2 ^ 63 then n else i64_min)"

definition get_string :: "json \<Rightarrow> string option" where
  "get_string j = (case j of JString s \<Rightarrow> Some s | _ \<Rightarrow> None)"

definition get_bool :: "json \<Rightarrow> bool option" where
  "get_bool j = (case j of JBool b \<Rightarrow> Some b | _ \<Rightarrow> None)"

definition get_int64 :: "json \<Rightarrow> int option" where
  "get_int64 j = (case j of JInt i \<Rightarrow> Some i | JUint w \<Rightarrow> Some (sint w) | JFloat d \<Rightarrow> Some (truncate d) | _ \<Rightarrow> None)"

definition get_uint64 :: "json \<Rightarrow> u64 option" where
  "get_uint64 j = (case j of JUint w \<Rightarrow> Some w | JInt i \<Rightarrow> Some (word_of_int i)
     | JFloat d \<Rightarrow> Some (if d < of_integer (2 ^ 63) then word_of_int (truncate d)
                          else word_of_int (truncate (d - of_integer (2 ^ 63))) + word_of_int (2 ^ 63)) | _ \<Rightarrow> None)"

definition get_double :: "json \<Rightarrow> double option" where
  "get_double j = (case j of JFloat d \<Rightarrow> Some d | JUint w \<Rightarrow> Some (of_integer (uint w))
     | JInt i \<Rightarrow> Some (of_integer i) | _ \<Rightarrow> None)"

text \<open>\<open>value(key, default)\<close> for a typed and for a JSON default.\<close>

definition value_or :: "(json \<Rightarrow> 'a option) \<Rightarrow> string \<Rightarrow> 'a \<Rightarrow> json \<Rightarrow> 'a" where
  "value_or get key d j = (case json_find key j of
     None \<Rightarrow> d | Some v \<Rightarrow> (case get v of None \<Rightarrow> d | Some x \<Rightarrow> x))"

definition value_json :: "string \<Rightarrow> json \<Rightarrow> json \<Rightarrow> json" where
  "value_json key d j = (case json_find key j of None \<Rightarrow> d | Some v \<Rightarrow> v)"

section \<open>The parser consumes its input and stops\<close>

lemma length_skip_ws: "length (skip_ws s) \<le> length s"
  by (simp add: skip_ws_def length_dropWhile_le)

lemma consume_length: "consume s = (c, r) \<Longrightarrow> length r \<le> length s"
  "consume s = (c, r) \<Longrightarrow> c \<noteq> CHR 0x00 \<Longrightarrow> length r < length s"
  by (auto simp: consume_def split: list.splits)

lemma peek_skip: "peek s = c \<Longrightarrow> c \<noteq> CHR 0x00 \<Longrightarrow> skip_ws s = c # tl (skip_ws s)"
  by (auto simp: peek_def consume_def split: list.splits)

lemma string_loop_length: "string_loop acc s = Inr (str, r) \<Longrightarrow> length r < length s"
proof (induction acc s rule: string_loop.induct)
  case (2 acc c s)
  consider "c = quote" | "c \<noteq> quote" "c \<noteq> backslash" | (esc) "c \<noteq> quote" "c = backslash" by blast
  then show ?case
  proof cases
    case esc
    with 2 show ?thesis
      by (cases s) (force split: if_splits option.splits simp del: string_loop.simps(1) simp: string_loop.simps(2)[of acc c])+
  qed (use 2 in \<open>auto simp: less_Suc_eq\<close>)
qed simp

lemma parse_string_length:
  assumes "parse_string s = Inr (str, r)"
  shows "length r < length s"
  using string_loop_length[OF assms[unfolded parse_string_def]] by (cases s) (auto simp: consume_def)

lemma drop_digits_le: "length (dropWhile is_digit (drop n s)) \<le> length s"
  by (rule order_trans[OF length_dropWhile_le]) simp

lemma length_skip_fraction: "length (skip_fraction s) \<le> length s"
  using drop_digits_le[of 1 s] by (simp add: skip_fraction_def)

lemma length_skip_exponent: "length (skip_exponent s) \<le> length s"
  using drop_digits_le[of 1 s] drop_digits_le[of 2 s] by (simp add: skip_exponent_def Let_def numeral_2_eq_2)

lemma parse_number_length:
  assumes "parse_number s = Inr (j, r)" "s = c # t" "c = CHR ''-'' \<or> is_digit c"
  shows "length r < length s"
proof -
  let ?s1 = "dropWhile is_digit (if take 1 s = ''-'' then drop 1 s else s)"
  have "length ?s1 < length s"
    using assms(2,3) length_dropWhile_le[of is_digit t] by (auto simp: less_Suc_eq_le)
  moreover have "r = skip_exponent (skip_fraction ?s1)"
    using assms(1) by (simp add: parse_number_def Let_def number_result_def split: if_splits sum.splits)
  ultimately show ?thesis
    using length_skip_exponent[of "skip_fraction ?s1"] length_skip_fraction[of ?s1] by simp
qed

lemma parse_value_Cons:
  assumes "peek s = c" "c \<noteq> CHR 0x00"
  obtains t where "skip_ws s = c # t" "length t < length s"
  using peek_skip[OF assms] length_skip_ws[of s] by (metis length_Cons less_eq_Suc_le that)

lemma length_expect: "expect str j s = Inr (j', r) \<Longrightarrow> length r = length s - length str \<and> length str \<le> length s"
  by (auto simp: expect_def dest!: arg_cong[of "take _ s" _ length] split: if_splits)

lemma parse_length:
  "parse_value n s = Inr (j, r) \<Longrightarrow> length r < length s"
  "parse_members n acc s = Inr (j, r) \<Longrightarrow> length r < length s"
  "parse_elements n acc' s = Inr (j, r) \<Longrightarrow> length r < length s"
proof (induction n s and n acc s and n acc' s arbitrary: j r and j r and j r
    rule: parse_value_parse_members_parse_elements.induct)
  case (2 n s)
  obtain c where c: "peek s = c" by simp
  have "c \<noteq> CHR 0x00" using 2(3) c by (auto simp: parse_value.simps quote_def is_digit_def code_def)
  with c obtain t where t: "skip_ws s = c # t" "length t < length s" by (rule parse_value_Cons)
  have e: "length (tl (skip_ws t)) \<le> length t" using length_skip_ws[of t] by simp
  consider "c = CHR ''{''" | "c = CHR ''[''" | "c = quote" | "c = CHR ''t''" | "c = CHR ''f''" | "c = CHR ''n''"
    | (num) "c \<noteq> CHR ''{''" "c \<noteq> CHR ''[''" "c \<noteq> quote" "c \<noteq> CHR ''t''" "c \<noteq> CHR ''f''" "c \<noteq> CHR ''n''" by blast
  then show ?case
  proof cases
    case num
    then have "c = CHR ''-'' \<or> is_digit c" "parse_number (c # t) = Inr (j, r)"
      using 2(3) c t by (auto simp: parse_value.simps Let_def split: if_splits)
    from parse_number_length[OF this(2) refl this(1)] t show ?thesis by simp
  qed (use 2 c t e parse_string_length[of "c # t"] in
      \<open>fastforce simp: parse_value.simps Let_def quote_def split: if_splits sum.splits dest!: length_expect\<close>)+
next
  case (4 n acc s)
  then obtain key s1 s2 val s3 sep s4 where
    1: "peek s = quote" "parse_string (skip_ws s) = Inr (key, s1)" "consume (skip_ws s1) = (CHR '':'', s2)"
       "parse_value n s2 = Inr (val, s3)" "consume (skip_ws s3) = (sep, s4)"
    and 2: "sep = CHR ''}'' \<and> r = s4 \<or> sep = CHR '','' \<and> parse_members n (acc @ [(key, val)]) s4 = Inr (j, r)"
    by (auto simp: parse_members.simps split: if_splits sum.splits prod.splits)
  have "length s3 < length s"
    using parse_string_length[OF 1(2)] length_skip_ws[of s] length_skip_ws[of s1] consume_length(1)[OF 1(3)] 4(1)[OF _ 1(2) refl 1(3)[symmetric] _ 1(4)] 1(1)
    by auto
  moreover have "length s4 \<le> length s3" using length_skip_ws[of s3] consume_length(1)[OF 1(5)] by simp
  ultimately show ?case using 2 4(2)[OF _ 1(2) refl 1(3)[symmetric] _ 1(4) refl 1(5)[symmetric]] 1(1) by force
next
  case (6 n acc s)
  then obtain val s1 sep s2 where
    1: "parse_value n s = Inr (val, s1)" "consume (skip_ws s1) = (sep, s2)"
    and 2: "sep = CHR '']'' \<and> r = s2 \<or> sep = CHR '','' \<and> parse_elements n (acc @ [val]) s2 = Inr (j, r)"
    by (auto simp: parse_elements.simps split: if_splits sum.splits prod.splits)
  have "length s1 < length s" using 6(1)[OF 1(1)] .
  moreover have "length s2 \<le> length s1" using length_skip_ws[of s1] consume_length(1)[OF 1(2)] by simp
  ultimately show ?case using 2 6(2)[OF 1(1) refl 1(2)[symmetric]] by force
qed (simp_all add: parse_value.simps parse_members.simps parse_elements.simps)

lemma string_loop_fuel: "string_loop acc s \<noteq> Inl Out_of_fuel"
proof (induction acc s rule: string_loop.induct)
  case (2 acc c s)
  show ?case
  proof (cases "c = backslash \<and> c \<noteq> quote")
    case True
    with 2 show ?thesis
      by (cases s) (force split: if_splits option.splits simp del: string_loop.simps(1) simp: string_loop.simps(2)[of acc c])+
  qed (use 2 in auto)
qed simp

lemma parse_number_fuel: "parse_number s \<noteq> Inl Out_of_fuel"
  by (simp add: parse_number_def Let_def number_result_def split: sum.splits)

lemma parse_fuel:
  "2 * length s < n \<Longrightarrow> parse_value n s \<noteq> Inl Out_of_fuel"
  "2 * length s < n \<Longrightarrow> parse_members n acc s \<noteq> Inl Out_of_fuel"
  "2 * length s + 1 < n \<Longrightarrow> parse_elements n acc' s \<noteq> Inl Out_of_fuel"
proof (induction n s and n acc s and n acc' s rule: parse_value_parse_members_parse_elements.induct)
  case (2 n s)
  have t: "length (tl (skip_ws s)) < length s" if "peek s \<noteq> CHR 0x00"
    using parse_value_Cons[OF refl that] by (metis list.sel(3))
  show ?case
  proof
    assume a: "parse_value (Suc n) s = Inl Out_of_fuel"
    then have "(peek s = CHR ''{'' \<and> parse_members n [] (tl (skip_ws s)) = Inl Out_of_fuel) \<or>
        (peek s = CHR ''['' \<and> parse_elements n [] (tl (skip_ws s)) = Inl Out_of_fuel)"
      using string_loop_fuel[of "[]"] parse_number_fuel
      by (auto simp: parse_value.simps Let_def expect_def parse_string_def split: if_splits sum.splits)
    with 2 t a show False by (auto simp: parse_value.simps Let_def quote_def split: if_splits)
  qed
next
  case (4 n acc s)
  show ?case
  proof
    assume a: "parse_members (Suc n) acc s = Inl Out_of_fuel"
    then obtain key s1 s2 where
      1: "peek s = quote" "parse_string (skip_ws s) = Inr (key, s1)" "consume (skip_ws s1) = (CHR '':'', s2)"
      by (auto simp: parse_members.simps parse_string_def string_loop_fuel split: if_splits sum.splits prod.splits)
    have l2: "length s2 < length s"
      using parse_string_length[OF 1(2)] length_skip_ws[of s] length_skip_ws[of s1] consume_length(1)[OF 1(3)] by simp
    with 4(1)[OF _ 1(2) refl 1(3)[symmetric]] 4(3) 1(1) have "parse_value n s2 \<noteq> Inl Out_of_fuel" by simp
    with a 1 obtain val s3 s4 where
      2: "parse_value n s2 = Inr (val, s3)" "consume (skip_ws s3) = (CHR '','', s4)"
         "parse_members n (acc @ [(key, val)]) s4 = Inl Out_of_fuel"
      by (auto simp: parse_members.simps split: if_splits sum.splits prod.splits)
    have "length s4 < length s"
      using l2 parse_length(1)[OF 2(1)] length_skip_ws[of s3] consume_length(1)[OF 2(2)] by simp
    with 4(2)[OF _ 1(2) refl 1(3)[symmetric] _ 2(1) refl 2(2)[symmetric]] 4(3) 1(1) 2(3) show False by simp
  qed
next
  case (6 n acc s)
  show ?case
  proof
    assume a: "parse_elements (Suc n) acc s = Inl Out_of_fuel"
    have "parse_value n s \<noteq> Inl Out_of_fuel" using 6(1,3) by simp
    with a obtain val s1 s2 where
      1: "parse_value n s = Inr (val, s1)" "consume (skip_ws s1) = (CHR '','', s2)"
         "parse_elements n (acc @ [val]) s2 = Inl Out_of_fuel"
      by (auto simp: parse_elements.simps split: if_splits sum.splits prod.splits)
    have "length s2 < length s"
      using parse_length(1)[OF 1(1)] length_skip_ws[of s1] consume_length(1)[OF 1(2)] by simp
    with 6(2)[OF 1(1) refl 1(2)[symmetric]] 6(3) 1(3) show False by simp
  qed
qed simp_all

text \<open>
  C40. The parser always stops: for every text it answers a value or one of the exceptions of the
  code, within one level of recursion or one turn of a loop per half byte; the fuel of the model
  never runs out.
\<close>
theorem json_parser_terminates:
  "parse_json s \<noteq> Inl Out_of_fuel \<and> (\<exists>e. parse_json s = Inl e \<and> parse_or_discard s = JDiscarded \<or>
     (\<exists>j. parse_json s = Inr j \<and> parse_or_discard s = j))"
proof -
  have "parse_json s \<noteq> Inl Out_of_fuel"
    using parse_fuel(1)[of s "2 * length s + 1"] by (auto simp: parse_json_def split: sum.splits)
  then show ?thesis by (cases "parse_json s") (auto simp: parse_or_discard_def)
qed

section \<open>Serializing and parsing\<close>

text \<open>
  What a value becomes on the way: an integer that is not negative is read back as unsigned, a
  discarded value as null. A float is printed with six digits and may change; a key is printed
  unescaped and must not hold a quote or a backslash.
\<close>

definition plain_key :: "string \<Rightarrow> bool" where
  "plain_key k \<longleftrightarrow> quote \<notin> set k \<and> backslash \<notin> set k"

fun storable :: "json \<Rightarrow> bool" and storable_elements :: "json list \<Rightarrow> bool"
and storable_members :: "(string \<times> json) list \<Rightarrow> bool" where
  "storable (JInt i) \<longleftrightarrow> - (2 ^ 63) \<le> i \<and> i < 2 ^ 63"
| "storable (JFloat d) \<longleftrightarrow> False"
| "storable (JArray js) \<longleftrightarrow> storable_elements js"
| "storable (JObject kvs) \<longleftrightarrow> storable_members kvs"
| "storable _ \<longleftrightarrow> True"
| "storable_elements [] \<longleftrightarrow> True"
| "storable_elements (j # js) \<longleftrightarrow> storable j \<and> storable_elements js"
| "storable_members [] \<longleftrightarrow> True"
| "storable_members ((k, j) # kvs) \<longleftrightarrow> plain_key k \<and> storable j \<and> storable_members kvs"

fun read_back :: "json \<Rightarrow> json" and read_back_elements :: "json list \<Rightarrow> json list"
and read_back_members :: "(string \<times> json) list \<Rightarrow> (string \<times> json) list" where
  "read_back (JInt i) = (if i < 0 then JInt i else JUint (word_of_int i))"
| "read_back JDiscarded = JNull"
| "read_back (JArray js) = JArray (read_back_elements js)"
| "read_back (JObject kvs) = JObject (read_back_members kvs)"
| "read_back j = j"
| "read_back_elements [] = []"
| "read_back_elements (j # js) = read_back j # read_back_elements js"
| "read_back_members [] = []"
| "read_back_members ((k, j) # kvs) = (k, read_back j) # read_back_members kvs"

lemma string_loop_escape1: "string_loop acc (escape c @ t) = string_loop (acc @ [c]) t"
proof -
  consider "c = quote" | "c = backslash" | "c = CHR 0x08" | "c = CHR 0x0C" | "c = CHR 0x0A" | "c = CHR 0x0D"
    | "c = CHR 0x09" | (other) "c \<noteq> quote" "c \<noteq> backslash" "c \<noteq> CHR 0x08" "c \<noteq> CHR 0x0C" "c \<noteq> CHR 0x0A"
      "c \<noteq> CHR 0x0D" "c \<noteq> CHR 0x09" by blast
  then show ?thesis
    by cases (simp_all add: escape_def unescape_def backslash_def quote_def)
qed

lemma string_loop_escape: "string_loop acc (concat (map escape s) @ quote # r) = Inr (acc @ s, r)"
  by (induction s arbitrary: acc) (simp_all add: string_loop_escape1)

lemma string_loop_plain: "plain_key k \<Longrightarrow> string_loop acc (k @ quote # r) = Inr (acc @ k, r)"
  by (induction k arbitrary: acc) (auto simp: plain_key_def)

text \<open>A number must not run into the text behind it.\<close>

definition ends_number :: "string \<Rightarrow> bool" where
  "ends_number r \<longleftrightarrow> (case r of [] \<Rightarrow> True | c # _ \<Rightarrow> \<not> is_digit c \<and> c \<noteq> CHR ''.'' \<and> c \<noteq> CHR ''e'' \<and> c \<noteq> CHR ''E'')"

lemma ends_number_skip:
  assumes "ends_number r"
  shows "dropWhile is_digit r = r" "skip_fraction r = r" "skip_exponent r = r"
    "take 1 r \<noteq> ''.''" "take 1 r \<noteq> ''e''" "take 1 r \<noteq> ''E''"
  using assms by (auto simp: ends_number_def skip_fraction_def skip_exponent_def split: list.splits)

lemma parse_number_nat:
  assumes "0 \<le> n" "ends_number r"
  shows "parse_number (show_nat n @ r) = number_result (stoull (show_nat n)) JUint r"
proof -
  obtain c cs where c: "show_nat n = c # cs" "is_digit c" using show_nat_Cons[OF assms(1)] .
  then have "take 1 (show_nat n @ r) \<noteq> ''-''" using digit_not_space(2)[OF c(2)] by simp
  moreover have "dropWhile is_digit (show_nat n @ r) = r" using assms ends_number_skip(1) by simp
  ultimately show ?thesis using ends_number_skip[OF assms(2)] by (simp add: parse_number_def Let_def)
qed

lemma parse_number_neg:
  assumes "0 \<le> n" "ends_number r"
  shows "parse_number (CHR ''-'' # show_nat n @ r) = number_result (stoll (CHR ''-'' # show_nat n)) JInt r"
proof -
  have "dropWhile is_digit (show_nat n @ r) = r" using assms ends_number_skip(1) by simp
  then show ?thesis using ends_number_skip[OF assms(2)] by (simp add: parse_number_def Let_def Suc_diff_le)
qed

lemma dump_head:
  assumes "storable j"
  obtains c t where "dump j = c # t" "\<not> is_ws c" "c \<noteq> CHR '']''" "c \<noteq> CHR ''}''"
proof (cases j)
  case (JInt i)
  obtain c t where "show_nat (if i < 0 then - i else i) = c # t" "is_digit c"
    by (rule show_nat_Cons[of "if i < 0 then - i else i"]) auto
  moreover from this(2) have "\<not> is_ws c" "c \<noteq> CHR '']''" "c \<noteq> CHR ''}''" by (auto simp: is_digit_def code_def is_ws_def)
  ultimately show ?thesis using JInt that by (auto simp: show_int_def is_ws_def split: if_splits)
next
  case (JBool b)
  then show ?thesis using that[of "CHR ''t''"] that[of "CHR ''f''"] by (cases b) (simp_all add: is_ws_def)
next
  case (JUint w)
  obtain c t where "show_nat (uint w) = c # t" "is_digit c" by (rule show_nat_Cons[of "uint w"]) auto
  moreover from this(2) have "\<not> is_ws c" "c \<noteq> CHR '']''" "c \<noteq> CHR ''}''" by (auto simp: is_digit_def code_def is_ws_def)
  ultimately show ?thesis using JUint that by simp
qed (use assms that in \<open>auto simp: is_ws_def quote_def split: if_splits\<close>)

lemma skip_ws_Cons [simp]: "\<not> is_ws c \<Longrightarrow> skip_ws (c # t) = c # t"
  by (simp add: skip_ws_def)

lemma peek_Cons [simp]: "\<not> is_ws c \<Longrightarrow> peek (c # t) = c"
  by (simp add: peek_def consume_def)

lemma consume_Cons [simp]: "consume (c # t) = (c, t)"
  by (simp add: consume_def)

lemma not_ws: "\<not> is_ws (CHR ''{'')" "\<not> is_ws (CHR ''}'')" "\<not> is_ws (CHR ''['')" "\<not> is_ws (CHR '']'')"
  "\<not> is_ws (CHR '','')" "\<not> is_ws (CHR '':'')" "\<not> is_ws quote" "\<not> is_ws (CHR ''t'')" "\<not> is_ws (CHR ''f'')"
  "\<not> is_ws (CHR ''n'')" "\<not> is_ws (CHR ''-'')"
  by (simp_all add: is_ws_def quote_def)

lemma ends_number_sep: "ends_number (CHR '','' # r)" "ends_number (CHR '']'' # r)" "ends_number (CHR ''}'' # r)"
  by (simp_all add: ends_number_def is_digit_def code_def)

lemma parse_string_read:
  "parse_string (quote # concat (map escape s) @ quote # r) = Inr (s, r)"
  "plain_key s \<Longrightarrow> parse_string (quote # s @ quote # r) = Inr (s, r)"
  by (simp_all add: parse_string_def string_loop_escape string_loop_plain)

lemma read_nat:
  assumes "0 \<le> i" "i < 2 ^ 64" "ends_number r"
  shows "parse_value (Suc n) (show_nat i @ r) = Inr (JUint (word_of_int i), r)"
proof -
  obtain c t where c: "show_nat i = c # t" "is_digit c" by (rule show_nat_Cons[OF assms(1)])
  then have "\<not> is_ws c" "c \<noteq> CHR ''{''" "c \<noteq> CHR ''[''" "c \<noteq> quote" "c \<noteq> CHR ''t''" "c \<noteq> CHR ''f''" "c \<noteq> CHR ''n''"
    by (auto simp: is_digit_def code_def is_ws_def quote_def)
  moreover have "stoull (show_nat i) = Inr (word_of_int i)"
    using assms by (simp add: stoull_def int_token_show_nat)
  ultimately show ?thesis
    using c parse_number_nat[OF assms(1,3)] by (simp add: parse_value.simps Let_def number_result_def)
qed

lemma read_neg:
  assumes "- (2 ^ 63) \<le> i" "i < 0" "ends_number r"
  shows "parse_value (Suc n) (show_int i @ r) = Inr (JInt i, r)"
  using assms parse_number_neg[of "- i" r] stoll_show[of i]
  by (simp add: parse_value.simps Let_def show_int_def not_ws quote_def number_result_def)

lemma read_leaf:
  assumes "0 < n"
  shows "parse_value n (CHR ''n'' # CHR ''u'' # CHR ''l'' # CHR ''l'' # r) = Inr (JNull, r)"
    "parse_value n (CHR ''t'' # CHR ''r'' # CHR ''u'' # CHR ''e'' # r) = Inr (JBool True, r)"
    "parse_value n (CHR ''f'' # CHR ''a'' # CHR ''l'' # CHR ''s'' # CHR ''e'' # r) = Inr (JBool False, r)"
    "parse_value n (quote # concat (map escape s) @ quote # r) = Inr (JString s, r)"
proof -
  obtain m where "n = Suc m" using assms by (cases n) auto
  then show "parse_value n (CHR ''n'' # CHR ''u'' # CHR ''l'' # CHR ''l'' # r) = Inr (JNull, r)"
    "parse_value n (CHR ''t'' # CHR ''r'' # CHR ''u'' # CHR ''e'' # r) = Inr (JBool True, r)"
    "parse_value n (CHR ''f'' # CHR ''a'' # CHR ''l'' # CHR ''s'' # CHR ''e'' # r) = Inr (JBool False, r)"
    "parse_value n (quote # concat (map escape s) @ quote # r) = Inr (JString s, r)"
    by (simp_all add: parse_value.simps Let_def not_ws expect_def parse_string_read(1)) (simp_all add: quote_def)
qed

lemma dump_reads:
  "storable j \<Longrightarrow> ends_number r \<Longrightarrow> 2 * length (dump j @ r) < n \<Longrightarrow> parse_value n (dump j @ r) = Inr (read_back j, r)"
  "js \<noteq> [] \<Longrightarrow> storable_elements js \<Longrightarrow> 2 * length (dump_elements js @ CHR '']'' # r) + 1 < n \<Longrightarrow>
     parse_elements n acc (dump_elements js @ CHR '']'' # r) = Inr (JArray (acc @ read_back_elements js), r)"
  "kvs \<noteq> [] \<Longrightarrow> storable_members kvs \<Longrightarrow> 2 * length (dump_members kvs @ CHR ''}'' # r) < n \<Longrightarrow>
     parse_members n acc' (dump_members kvs @ CHR ''}'' # r) = Inr (JObject (acc' @ read_back_members kvs), r)"
proof (induction j and js and kvs arbitrary: n r and n acc r and n acc' r rule: dump_dump_elements_dump_members.induct)
  case (3 i)
  then obtain m where n: "n = Suc m" by (cases n) auto
  show ?case
  proof (cases "i < 0")
    case True
    with 3 n read_neg[of i r m] show ?thesis by simp
  next
    case False
    with 3 n read_nat[of i r m] show ?thesis by (simp add: show_int_def)
  qed
next
  case (4 w)
  then obtain m where n: "n = Suc m" by (cases n) auto
  with 4 read_nat[of "uint w" r m] uint_lt2p[of w] show ?case by simp
next
  case (7 js)
  then obtain m where n: "n = Suc m" by (cases n) auto
  show ?case
  proof (cases js)
    case Nil
    with n show ?thesis by (simp add: parse_value.simps Let_def not_ws)
  next
    case (Cons j js')
    with 7 obtain c t where h: "dump j = c # t" "\<not> is_ws c" "c \<noteq> CHR '']''" by (auto elim: dump_head)
    have "parse_elements m [] (dump_elements js @ CHR '']'' # r) = Inr (JArray (read_back_elements js), r)"
      using 7(1)[of r m "[]"] 7(2-) n Cons by simp
    with Cons h n show ?thesis by (simp add: parse_value.simps Let_def not_ws)
  qed
next
  case (8 kvs)
  then obtain m where n: "n = Suc m" by (cases n) auto
  show ?case
  proof (cases kvs)
    case Nil
    with n show ?thesis by (simp add: parse_value.simps Let_def not_ws)
  next
    case (Cons kv kvs')
    then obtain k j where kv: "kv = (k, j)" by (cases kv)
    have "parse_members m [] (dump_members kvs @ CHR ''}'' # r) = Inr (JObject (read_back_members kvs), r)"
      using 8(1)[of r m "[]"] 8(2-) n Cons by simp
    with Cons kv n show ?thesis by (simp add: parse_value.simps Let_def not_ws) (simp add: quote_def)
  qed
next
  case (11 j js)
  then obtain m where n: "n = Suc m" by (cases n) auto
  show ?case
  proof (cases "js = []")
    case True
    with 11(1)[of "CHR '']'' # r" m] 11(4-) n show ?thesis
      by (simp add: parse_elements.simps ends_number_sep not_ws)
  next
    case False
    have "parse_elements m (acc @ [read_back j]) (dump_elements js @ CHR '']'' # r) =
        Inr (JArray ((acc @ [read_back j]) @ read_back_elements js), r)"
      using 11(2)[OF False, of r m "acc @ [read_back j]"] 11(4-) n False by simp
    moreover have "parse_value m (dump j @ CHR '','' # dump_elements js @ CHR '']'' # r) =
        Inr (read_back j, CHR '','' # dump_elements js @ CHR '']'' # r)"
      using 11(1)[of "CHR '','' # dump_elements js @ CHR '']'' # r" m] 11(4-) n False by (simp add: ends_number_sep)
    ultimately show ?thesis using n False by (simp add: parse_elements.simps not_ws)
  qed
next
  case (13 k j kvs)
  then obtain m where n: "n = Suc m" by (cases n) auto
  have key: "plain_key k" using 13 by simp
  show ?case
  proof (cases "kvs = []")
    case True
    with 13(1)[of "CHR ''}'' # r" m] 13(4-) n show ?thesis
      by (simp add: parse_members.simps ends_number_sep not_ws parse_string_read(2)[OF key])
  next
    case False
    have "parse_members m (acc' @ [(k, read_back j)]) (dump_members kvs @ CHR ''}'' # r) =
        Inr (JObject ((acc' @ [(k, read_back j)]) @ read_back_members kvs), r)"
      using 13(2)[OF False, of r m "acc' @ [(k, read_back j)]"] 13(4-) n False by simp
    moreover have "parse_value m (dump j @ CHR '','' # dump_members kvs @ CHR ''}'' # r) =
        Inr (read_back j, CHR '','' # dump_members kvs @ CHR ''}'' # r)"
      using 13(1)[of "CHR '','' # dump_members kvs @ CHR ''}'' # r" m] 13(4-) n False by (simp add: ends_number_sep)
    ultimately show ?thesis using n False
      by (simp add: parse_members.simps not_ws parse_string_read(2)[OF key])
  qed
qed (auto simp: read_leaf)

lemma dump_parses: "storable j \<Longrightarrow> parse_json (dump j) = Inr (read_back j)"
  using dump_reads(1)[of j "[]" "2 * length (dump j) + 1"] by (simp add: parse_json_def ends_number_def skip_ws_def)



text \<open>
  Keys are not escaped: an object with the one key \<open>a":1,"b\<close> is serialized to the text of an object
  with the two members \<open>a\<close> and \<open>b\<close>, and is parsed again as such.
\<close>
theorem key_injection:
  assumes "plain_key a" "plain_key b" "storable j"
  shows "parse_json (dump (JObject [(a @ quote # '':1,'' @ quote # b, j)])) =
    Inr (JObject [(a, JUint 1), (b, read_back j)])"
proof -
  have one: "show_nat 1 = ''1''" by code_simp
  then have "dump (JObject [(a @ quote # '':1,'' @ quote # b, j)]) = dump (JObject [(a, JUint 1), (b, j)])" by simp
  moreover have "storable (JObject [(a, JUint 1), (b, j)])" using assms by simp
  ultimately show ?thesis using dump_parses[of "JObject [(a, JUint 1), (b, j)]"] by (simp add: one)
qed

theorem key_injection_witness:
  "parse_json (dump (JObject [(''a'' @ quote # '':1,'' @ quote # ''b'', JNull)])) =
   Inr (JObject [(''a'', JUint 1), (''b'', JNull)])"
  using key_injection[of "''a''" "''b''" JNull] by (simp add: plain_key_def quote_def backslash_def)

text \<open>A float keeps six digits when it is serialized.\<close>

lemma dump_keeps_six_digits: "dump (JFloat (lit (50000 + 1 / 4))) = ''50000.2''"
  by code_simp

section \<open>Access after update\<close>

lemma map_of_update_slot:
  "map_of (case find_slot (\<lambda>kv. fst kv = key) kvs of
       Some i \<Rightarrow> kvs[i := (key, f (snd (kvs ! i)))] | None \<Rightarrow> kvs @ [(key, f d)]) k =
   (if k = key then Some (f (case map_of kvs key of Some v \<Rightarrow> v | None \<Rightarrow> d)) else map_of kvs k)"
  by (induction kvs) (auto split: option.splits)

lemma at_key_update:
  "at_key k (at_key_mut key f j) = (if k = key then f (at_key key j) else at_key k j)"
  using map_of_update_slot[where key = key and f = f and d = JNull and k = k]
  by (cases j) (auto simp: at_key_mut_def at_key_def json_find_def)

end
