(* ===== verification/Feed_Common.thy ===== *)
theory Feed_Common
  imports Json Trading_Types
begin

text \<open>
  What the four feed handlers under \<^verbatim>\<open>core/feeds/\<close> share: the JSON library they call, the callbacks,
  the local copy of a book side, the CRC-32 of the books, the tick size
  (\<^verbatim>\<open>feeds/common/tick_size.hpp\<close>), the address of the web socket and the reassembly of fragments.

  The build takes \<^verbatim>\<open>nlohmann::json\<close> from a package, so the library is an argument: the record \<open>json_lib\<close>
  holds the operations the handlers call, over an abstract type of values. \<^verbatim>\<open>core/common/json.hpp\<close> has the
  same interface and is the instance \<open>repo_json\<close>. An operation that throws answers \<open>Inl\<close>. An
  exception that no handler catches leaves through the C callback and ends the process.
\<close>

section \<open>The JSON library\<close>

datatype exn = Std std_error | Json_type_error

record 'j json_lib =
  jl_parse :: "string \<Rightarrow> 'j"
  jl_is_discarded :: "'j \<Rightarrow> bool"
  jl_is_string :: "'j \<Rightarrow> bool"
  jl_is_boolean :: "'j \<Rightarrow> bool"
  jl_is_array :: "'j \<Rightarrow> bool"
  jl_is_object :: "'j \<Rightarrow> bool"
  jl_is_unsigned :: "'j \<Rightarrow> bool"
  jl_is_integer :: "'j \<Rightarrow> bool"
  jl_find :: "string \<Rightarrow> 'j \<Rightarrow> 'j option"
  jl_elems :: "'j \<Rightarrow> 'j list"
  jl_string :: "'j \<Rightarrow> exn + string"
  jl_bool :: "'j \<Rightarrow> exn + bool"
  jl_u64 :: "'j \<Rightarrow> exn + u64"
  jl_i64 :: "'j \<Rightarrow> exn + int"
  jl_value :: "string \<Rightarrow> 'j \<Rightarrow> 'j \<Rightarrow> exn + 'j"
  jl_value_string :: "string \<Rightarrow> string \<Rightarrow> 'j \<Rightarrow> exn + string"
  jl_value_bool :: "string \<Rightarrow> bool \<Rightarrow> 'j \<Rightarrow> exn + bool"
  jl_empty_array :: 'j
  jl_dump :: "'j \<Rightarrow> string"

definition thrown :: "'a option \<Rightarrow> exn + 'a" where
  "thrown x = (case x of None \<Rightarrow> Inl Json_type_error | Some y \<Rightarrow> Inr y)"

definition json_elems :: "json \<Rightarrow> json list" where
  "json_elems j = (case j of JArray js \<Rightarrow> js | JObject kvs \<Rightarrow> map snd kvs | _ \<Rightarrow> [])"

definition repo_json :: "json json_lib" where
  "repo_json = \<lparr>jl_parse = parse_or_discard, jl_is_discarded = (\<lambda>j. j = JDiscarded),
     jl_is_string = (\<lambda>j. case j of JString _ \<Rightarrow> True | _ \<Rightarrow> False),
     jl_is_boolean = (\<lambda>j. case j of JBool _ \<Rightarrow> True | _ \<Rightarrow> False),
     jl_is_array = (\<lambda>j. case j of JArray _ \<Rightarrow> True | _ \<Rightarrow> False),
     jl_is_object = (\<lambda>j. case j of JObject _ \<Rightarrow> True | _ \<Rightarrow> False),
     jl_is_unsigned = (\<lambda>j. case j of JUint _ \<Rightarrow> True | _ \<Rightarrow> False),
     jl_is_integer = (\<lambda>j. case j of JInt _ \<Rightarrow> True | _ \<Rightarrow> False),
     jl_find = json_find, jl_elems = json_elems,
     jl_string = (\<lambda>j. thrown (get_string j)), jl_bool = (\<lambda>j. thrown (get_bool j)),
     jl_u64 = (\<lambda>j. thrown (get_uint64 j)), jl_i64 = (\<lambda>j. thrown (get_int64 j)),
     jl_value = (\<lambda>k d j. Inr (value_json k d j)),
     jl_value_string = (\<lambda>k d j. Inr (value_or get_string k d j)),
     jl_value_bool = (\<lambda>k d j. Inr (value_or get_bool k d j)),
     jl_empty_array = JArray [], jl_dump = dump\<rparr>"

text \<open>The same library on a table of parsed messages; any other text is no JSON.\<close>

definition table_json :: "(string \<times> json) list \<Rightarrow> json json_lib" where
  "table_json t = repo_json\<lparr>jl_parse := \<lambda>s. case map_of t s of Some j \<Rightarrow> j | None \<Rightarrow> JDiscarded\<rparr>"

definition lift_std :: "std_error + 'a \<Rightarrow> exn + 'a" where
  "lift_std x = (case x of Inl e \<Rightarrow> Inl (Std e) | Inr y \<Rightarrow> Inr y)"

lemma lift_std_simps [simp]: "lift_std (Inl e) = Inl (Std e)" "lift_std (Inr y) = Inr y"
  by (simp_all add: lift_std_def)

text \<open>\<open>std::stod(j.get<std::string>())\<close>, and a number that may be written as a string.\<close>

definition stod_of :: "'j json_lib \<Rightarrow> 'j \<Rightarrow> exn + double" where
  "stod_of L j = and_then (jl_string L j) (\<lambda>s. lift_std (stod s))"

definition stoull_of :: "'j json_lib \<Rightarrow> 'j \<Rightarrow> exn + u64" where
  "stoull_of L j = and_then (jl_string L j) (\<lambda>s. lift_std (stoull s))"

definition u64_or_string :: "'j json_lib \<Rightarrow> 'j \<Rightarrow> exn + u64" where
  "u64_or_string L j = (if jl_is_string L j then stoull_of L j else jl_u64 L j)"

text \<open>A sequence number that counts as 0 when its key is absent.\<close>

definition seq_field :: "'j json_lib \<Rightarrow> string \<Rightarrow> 'j \<Rightarrow> exn + u64" where
  "seq_field L key j = (case jl_find L key j of None \<Rightarrow> Inr 0 | Some x \<Rightarrow> u64_or_string L x)"

text \<open>The value of a key when it is a non-empty array.\<close>

definition array_at :: "'j json_lib \<Rightarrow> string \<Rightarrow> 'j \<Rightarrow> 'j list option" where
  "array_at L key j = (case jl_find L key j of None \<Rightarrow> None
     | Some a \<Rightarrow> if jl_is_array L a then Some (jl_elems L a) else None)"

definition string_at :: "'j json_lib \<Rightarrow> string \<Rightarrow> 'j \<Rightarrow> 'j option" where
  "string_at L key j = (case jl_find L key j of None \<Rightarrow> None
     | Some a \<Rightarrow> if jl_is_string L a then Some a else None)"

text \<open>\<open>value(key, json::array())\<close>, read as an array; anything else has no elements.\<close>

definition level_array :: "'j json_lib \<Rightarrow> string \<Rightarrow> 'j \<Rightarrow> exn + 'j list" where
  "level_array L key j = and_then (jl_value L key (jl_empty_array L) j)
     (\<lambda>a. Inr (if jl_is_array L a then jl_elems L a else []))"

text \<open>A level of a book is an array of two or more elements; others are skipped.\<close>

definition is_level :: "'j json_lib \<Rightarrow> 'j \<Rightarrow> bool" where
  "is_level L lvl \<longleftrightarrow> jl_is_array L lvl \<and> length (jl_elems L lvl) \<ge> 2"

section \<open>Callbacks\<close>

datatype feed_event =
    Ev_Snapshot Snapshot | Ev_Delta Delta | Ev_Trade TradeFlow | Ev_Error string

datatype feed_state = DISCONNECTED | BUFFERING | STREAMING

section \<open>Book sides\<close>

text \<open>
  \<open>std::map<double, V, Cmp>\<close> as the list of its entries in the order of \<open>Cmp\<close>. Two keys are the same
  when neither is less than the other; the entry then keeps its key.
\<close>

fun side_put :: "('k \<Rightarrow> 'k \<Rightarrow> bool) \<Rightarrow> 'k \<Rightarrow> 'v \<Rightarrow> ('k \<times> 'v) list \<Rightarrow> ('k \<times> 'v) list" where
  "side_put lt p v [] = [(p, v)]"
| "side_put lt p v ((q, w) # es) =
     (if lt q p then (q, w) # side_put lt p v es
      else if lt p q then (p, v) # (q, w) # es else (q, v) # es)"

fun side_erase :: "('k \<Rightarrow> 'k \<Rightarrow> bool) \<Rightarrow> 'k \<Rightarrow> ('k \<times> 'v) list \<Rightarrow> ('k \<times> 'v) list" where
  "side_erase lt p [] = []"
| "side_erase lt p ((q, w) # es) =
     (if lt q p then (q, w) # side_erase lt p es else if lt p q then (q, w) # es else es)"

lemma side_put_map: "map (apsnd f) (side_put lt p v b) = side_put lt p (f v) (map (apsnd f) b)"
  by (induction lt p v b rule: side_put.induct) auto

lemma side_erase_map: "map (apsnd f) (side_erase lt p b) = side_erase lt p (map (apsnd f) b)"
  by (induction lt p b rule: side_erase.induct) auto

text \<open>\<open>std::greater\<close> orders the bids, \<open>std::less\<close> the asks.\<close>

definition bid_before :: "double \<Rightarrow> double \<Rightarrow> bool" where "bid_before p q \<longleftrightarrow> p > q"
definition ask_before :: "double \<Rightarrow> double \<Rightarrow> bool" where "ask_before p q \<longleftrightarrow> p < q"

text \<open>The two strings of a level, as the exchange wrote them.\<close>

type_synonym text_side = "(double \<times> string \<times> string) list"

text \<open>
  A subscriber of the callbacks keeps the same two maps with the sizes: a snapshot replaces them, a
  delta sets one level, and a level of size zero is no level.
\<close>

type_synonym sized_side = "(double \<times> double) list"

definition set_size :: "(double \<Rightarrow> double \<Rightarrow> bool) \<Rightarrow> double \<Rightarrow> double \<Rightarrow> sized_side \<Rightarrow> sized_side" where
  "set_size lt p s b = (if deq s 0 then side_erase lt p b else side_put lt p s b)"

definition load_side :: "(double \<Rightarrow> double \<Rightarrow> bool) \<Rightarrow> PriceLevel list \<Rightarrow> sized_side" where
  "load_side lt ls = fold (\<lambda>l. set_size lt (pl_price l) (pl_size l)) ls []"

fun subscriber :: "feed_event \<Rightarrow> sized_side \<times> sized_side \<Rightarrow> sized_side \<times> sized_side" where
  "subscriber (Ev_Snapshot sn) b = (load_side bid_before (sn_bids sn), load_side ask_before (sn_asks sn))"
| "subscriber (Ev_Delta d) (bs, as) =
     (if dl_side d = BID then (set_size bid_before (dl_price d) (dl_size d) bs, as)
      else (bs, set_size ask_before (dl_price d) (dl_size d) as))"
| "subscriber (Ev_Trade t) b = b"
| "subscriber (Ev_Error e) b = b"

text \<open>The size of a level of the local book.\<close>

definition text_size :: "string \<Rightarrow> double" where
  "text_size s = (case stod s of Inr d \<Rightarrow> d | Inl _ \<Rightarrow> 0)"

definition sizes :: "text_side \<Rightarrow> sized_side" where
  "sizes = map (apsnd (\<lambda>l. text_size (snd l)))"

lemma sizes_put: "sizes (side_put lt p (ps, ss) b) = side_put lt p (text_size ss) (sizes b)"
  by (simp add: sizes_def side_put_map)

lemma sizes_erase: "sizes (side_erase lt p b) = side_erase lt p (sizes b)"
  by (simp add: sizes_def side_erase_map)

section \<open>CRC-32\<close>

unbundle bit_operations_syntax

definition crc32_bit :: "u32 \<Rightarrow> u32" where
  "crc32_bit crc = (drop_bit 1 crc) XOR (0xEDB88320 AND (- (crc AND 1)))"

definition crc32_bytes :: "string \<Rightarrow> u32" where
  "crc32_bytes s = NOT (foldl (\<lambda>crc c. (crc32_bit ^^ 8) (crc XOR of_nat (code c))) 0xFFFFFFFF s)"

section \<open>Tick size\<close>

text \<open>The rightmost zeros of the fraction are dropped; \<open>pow(10, -n)\<close> is the C library's.\<close>

definition tick_from_string :: "(int \<Rightarrow> double) \<Rightarrow> string \<Rightarrow> std_error + double" where
  "tick_from_string pow10 s =
     (if CHR ''.'' \<notin> set s then stod s
      else
        let frac = rev (dropWhile (\<lambda>c. c = CHR ''0'') (rev (tl (dropWhile (\<lambda>c. c \<noteq> CHR ''.'') s))))
        in if frac = [] then stod s
           else if last frac = CHR ''1'' \<and> list_all (\<lambda>c. c = CHR ''0'') (butlast frac)
                then Inr (pow10 (- int (length frac)))
           else stod s)"

text \<open>The response of \<^verbatim>\<open>common/rest_client.hpp\<close> to a request is an argument of the operations that send one.\<close>

record HttpResponse =
  hr_status :: int
  hr_body :: string

definition http_ok :: "HttpResponse \<Rightarrow> bool" where
  "http_ok r \<longleftrightarrow> 200 \<le> hr_status r \<and> hr_status r < 300"

section \<open>The address of the web socket\<close>

fun find_str :: "string \<Rightarrow> string \<Rightarrow> nat option" where
  "find_str pat [] = (if pat = [] then Some 0 else None)"
| "find_str pat (c # s) = (if take (length pat) (c # s) = pat then Some 0 else map_option Suc (find_str pat s))"

text \<open>The part before the last colon and the part behind it.\<close>

definition split_last_colon :: "string \<Rightarrow> (string \<times> string) option" where
  "split_last_colon s =
     (if CHR '':'' \<in> set s
      then let port = rev (takeWhile (\<lambda>c. c \<noteq> CHR '':'') (rev s))
           in Some (take (length s - length port - 1) s, port)
      else None)"

text \<open>Host, port and path of \<open>ws_url\<close>; the defaults are used where it has none. \<open>stoi\<close> may throw.\<close>

definition parse_ws_url :: "string \<Rightarrow> int \<Rightarrow> string \<Rightarrow> string \<Rightarrow> std_error + string \<times> int \<times> string" where
  "parse_ws_url host0 port0 path0 url =
     (let rest = drop (case find_str ''://'' url of Some p \<Rightarrow> p + 3 | None \<Rightarrow> 0) url;
          authority = takeWhile (\<lambda>c. c \<noteq> CHR ''/'') rest;
          path = (if CHR ''/'' \<in> set rest then dropWhile (\<lambda>c. c \<noteq> CHR ''/'') rest else path0)
      in case split_last_colon authority of
           Some (host, port) \<Rightarrow> (case stoi port of Inl e \<Rightarrow> Inl e | Inr n \<Rightarrow> Inr (host, n, path))
         | None \<Rightarrow> Inr (if authority = [] then host0 else authority, port0, path))"

section \<open>Fragments\<close>

text \<open>
  The buffer in which a web socket callback collects the fragments of a message. A fragment that
  does not fit empties it. The result is the message handed to the handler.
\<close>

definition receive_fragment :: "nat \<Rightarrow> string \<Rightarrow> bool \<Rightarrow> string \<Rightarrow> string \<times> string option" where
  "receive_fragment cap data is_final buf =
     (let buf = (if length buf + length data \<le> cap then buf @ data else [])
      in if is_final \<and> buf \<noteq> [] then ([], Some buf) else (buf, None))"

fun receive_message :: "nat \<Rightarrow> string list \<Rightarrow> string \<Rightarrow> string \<times> string option" where
  "receive_message cap [] buf = (buf, None)"
| "receive_message cap [f] buf = receive_fragment cap f True buf"
| "receive_message cap (f # fs) buf = receive_message cap fs (fst (receive_fragment cap f False buf))"

lemma receive_fits:
  "fs \<noteq> [] \<Longrightarrow> length (buf @ concat fs) \<le> cap \<Longrightarrow> buf @ concat fs \<noteq> [] \<Longrightarrow>
   receive_message cap fs buf = ([], Some (buf @ concat fs))"
  by (induction cap fs buf rule: receive_message.induct) (auto simp: receive_fragment_def Let_def)

text \<open>A message that does not fit is cut: what arrives behind the overflow is taken for a message.\<close>

lemma receive_overflow:
  assumes "length f \<le> cap" "f \<noteq> []" "length f + length g > cap" "length h \<le> cap" "h \<noteq> []"
  shows "receive_message cap [f, g, h] [] = ([], Some h)"
  using assms by (simp add: receive_fragment_def)

lemma crc32_bit_eight: "(crc32_bit ^^ 8) x =
   crc32_bit (crc32_bit (crc32_bit (crc32_bit (crc32_bit (crc32_bit (crc32_bit (crc32_bit x)))))))"
  by (simp add: eval_nat_numeral)

lemma crc32_check: "crc32_bytes ''123456789'' = 0xCBF43926"
  by (simp add: crc32_bytes_def crc32_bit_eight code_def) (simp add: crc32_bit_def)

lemma tick_ignores_integer_part: "tick_from_string pow10 ''1.01'' = Inr (pow10 (- 2))"
  by (simp add: tick_from_string_def)

end
