(* ===== verification/Okx_Feed.thy ===== *)
theory Okx_Feed
  imports Feed_Common
begin

text \<open>
  \<^verbatim>\<open>core/feeds/okx/okx_feed_handler.cpp\<close>. The handler buffers updates until a snapshot has arrived,
  follows the sequence numbers, checks the venue's checksum against its own copy of the book and
  passes every level on to its callbacks; \<open>ok_events\<close> lists these calls, oldest first. The callbacks
  are all set; one that is not misses its events. The clock is read once per message here.
\<close>

section \<open>State and parsing\<close>

record OkxFeedHandler =
  ok_symbol :: string
  ok_instrument_id :: string
  ok_tick_size :: double
  ok_running :: bool
  ok_force_reconnect :: bool
  ok_last_sequence :: u64
  ok_state :: feed_state
  ok_delta_buffer :: "string list"
  ok_bids :: text_side
  ok_asks :: text_side
  ok_events :: "feed_event list"

definition okx_init :: "string \<Rightarrow> string \<Rightarrow> OkxFeedHandler" where
  "okx_init symbol inst = \<lparr>ok_symbol = symbol, ok_instrument_id = inst, ok_tick_size = 0,
     ok_running = False, ok_force_reconnect = False, ok_last_sequence = 0, ok_state = DISCONNECTED,
     ok_delta_buffer = [], ok_bids = [], ok_asks = [], ok_events = []\<rparr>"

definition OKX_MAX_BUFFER_SIZE :: nat where "OKX_MAX_BUFFER_SIZE = 1000"

definition okx_trigger_resnapshot :: "string \<Rightarrow> OkxFeedHandler \<Rightarrow> OkxFeedHandler" where
  "okx_trigger_resnapshot reason h = h\<lparr>ok_events := ok_events h @ [Ev_Error (''Re-snapshot: '' @ reason)],
     ok_delta_buffer := [], ok_state := BUFFERING, ok_force_reconnect := True\<rparr>"

text \<open>The number of orders at a level, where the venue gives one.\<close>

definition okx_order_count :: "'j json_lib \<Rightarrow> 'j list \<Rightarrow> exn + u32" where
  "okx_order_count L lvl =
     (if length lvl > 3 then
        if jl_is_string L (lvl ! 3) then and_then (stoull_of L (lvl ! 3)) (\<lambda>n. Inr (ucast n))
        else if jl_is_unsigned L (lvl ! 3) then and_then (jl_u64 L (lvl ! 3)) (\<lambda>n. Inr (ucast n))
        else if jl_is_integer L (lvl ! 3) then
          and_then (jl_i64 L (lvl ! 3)) (\<lambda>v. Inr (if v > 0 then word_of_int v else 0))
        else Inr 0
      else Inr 0)"

text \<open>\<open>parse_levels\<close> of a snapshot: a level that throws is left out.\<close>

definition okx_parse_level :: "'j json_lib \<Rightarrow> 'j \<Rightarrow> exn + PriceLevel" where
  "okx_parse_level L lvl =
     (let e = jl_elems L lvl in
      and_then (okx_order_count L e) (\<lambda>c.
      and_then (stod_of L (e ! 0)) (\<lambda>p.
      and_then (stod_of L (e ! 1)) (\<lambda>s. Inr (mk_PriceLevel p s c)))))"

definition okx_parse_levels :: "'j json_lib \<Rightarrow> 'j list \<Rightarrow> PriceLevel list" where
  "okx_parse_levels L arr = List.map_filter (\<lambda>lvl. catching (okx_parse_level L lvl)) (filter (is_level L) arr)"

section \<open>The local book\<close>

definition is_zero_text :: "string \<Rightarrow> exn + bool" where
  "is_zero_text s = (if s = ''0'' \<or> s = ''0.0'' then Inr True else and_then (lift_std (stod s)) (\<lambda>d. Inr (deq d 0)))"

definition okx_apply_level :: "(double \<Rightarrow> double \<Rightarrow> bool) \<Rightarrow> 'j json_lib \<Rightarrow> 'j \<Rightarrow> text_side \<Rightarrow> exn + text_side" where
  "okx_apply_level lt L lvl b =
     (if \<not> is_level L lvl then Inr b
      else let e = jl_elems L lvl in
        and_then (stod_of L (e ! 0)) (\<lambda>price.
        and_then (jl_string L (e ! 0)) (\<lambda>price_str.
        and_then (jl_string L (e ! 1)) (\<lambda>size_str.
        and_then (is_zero_text size_str) (\<lambda>gone.
          Inr (if gone then side_erase lt price b else side_put lt price (price_str, size_str) b))))))"

text \<open>\<open>apply_local_book_levels\<close> on the two sides; \<open>validate_checksum\<close> does the same to copies.\<close>

definition okx_apply_local :: "'j json_lib \<Rightarrow> 'j \<Rightarrow> text_side \<times> text_side \<Rightarrow> exn + text_side \<times> text_side" where
  "okx_apply_local L data b =
     and_then (level_array L ''bids'' data) (\<lambda>bl.
     and_then (foldE (okx_apply_level bid_before L) bl (fst b)) (\<lambda>bs.
     and_then (level_array L ''asks'' data) (\<lambda>al.
     and_then (foldE (okx_apply_level ask_before L) al (snd b)) (\<lambda>as. Inr (bs, as)))))"

section \<open>The checksum\<close>

text \<open>
  The text under the checksum: up to 25 levels of both sides in turn. \<open>n\<close> rounds are left, \<open>out\<close> is
  the stream; its position is positive once something was written.
\<close>

definition level_text :: "double \<times> string \<times> string \<Rightarrow> string" where
  "level_text l = fst (snd l) @ '':'' @ snd (snd l)"

fun okx_checksum_rounds :: "nat \<Rightarrow> bool \<Rightarrow> text_side \<Rightarrow> text_side \<Rightarrow> string \<Rightarrow> string" where
  "okx_checksum_rounds 0 later bs as out = out"
| "okx_checksum_rounds (Suc n) later bs as out =
     (if bs = [] \<and> as = [] then out
      else
        let out = (if later then out @ '':'' else out);
            out = (case bs of [] \<Rightarrow> out | b # _ \<Rightarrow> out @ level_text b);
            out = (case as of [] \<Rightarrow> out | a # _ \<Rightarrow> (if out \<noteq> [] then out @ '':'' else out) @ level_text a)
        in okx_checksum_rounds n True (tl bs) (tl as) out)"

definition okx_checksum_text :: "text_side \<Rightarrow> text_side \<Rightarrow> string" where
  "okx_checksum_text bs as = okx_checksum_rounds 25 False bs as []"

definition okx_validate_checksum :: "'j json_lib \<Rightarrow> 'j \<Rightarrow> OkxFeedHandler \<Rightarrow> exn + bool" where
  "okx_validate_checksum L data h =
     (case jl_find L ''checksum'' data of
        None \<Rightarrow> Inr True
      | Some c \<Rightarrow>
          and_then (if jl_is_string L c then and_then (jl_string L c) (\<lambda>s. lift_std (stoll s)) else jl_i64 L c) (\<lambda>remote.
          and_then (okx_apply_local L data (ok_bids h, ok_asks h)) (\<lambda>(bs, as).
            Inr (sint (crc32_bytes (okx_checksum_text bs as)) = remote))))"

definition okx_validate_delta_sequence :: "u64 \<Rightarrow> u64 \<Rightarrow> OkxFeedHandler \<Rightarrow> bool" where
  "okx_validate_delta_sequence seq prev_seq h =
     (if prev_seq \<noteq> 0 then prev_seq = ok_last_sequence h else seq > ok_last_sequence h)"

section \<open>Updates\<close>

definition okx_emit_level :: "'j json_lib \<Rightarrow> int \<Rightarrow> u64 \<Rightarrow> Side \<Rightarrow> 'j \<Rightarrow> feed_event list \<Rightarrow> exn + feed_event list" where
  "okx_emit_level L now seq side lvl evs =
     (if \<not> is_level L lvl then Inr evs
      else let e = jl_elems L lvl in
        and_then (stod_of L (e ! 0)) (\<lambda>price.
        and_then (stod_of L (e ! 1)) (\<lambda>size.
        and_then (okx_order_count L e) (\<lambda>count.
          Inr (evs @ [Ev_Delta (mk_Delta\<lparr>dl_side := side, dl_price := price, dl_size := size,
            dl_order_count := count, dl_sequence := seq, dl_timestamp_local_ns := now\<rparr>)])))))"

definition okx_process_delta :: "'j json_lib \<Rightarrow> int \<Rightarrow> 'j \<Rightarrow> u64 \<Rightarrow> OkxFeedHandler \<Rightarrow> exn + Result \<times> OkxFeedHandler" where
  "okx_process_delta L now json seq h =
     (let h = h\<lparr>ok_last_sequence := seq\<rparr>;
          src = (case array_at L ''data'' json of Some (d # _) \<Rightarrow> d | _ \<Rightarrow> json)
      in and_then (okx_apply_local L src (ok_bids h, ok_asks h)) (\<lambda>(bs, as).
         and_then (level_array L ''bids'' src) (\<lambda>bl.
         and_then (foldE (okx_emit_level L now seq BID) bl (ok_events h)) (\<lambda>evs.
         and_then (level_array L ''asks'' src) (\<lambda>al.
         and_then (foldE (okx_emit_level L now seq ASK) al evs) (\<lambda>evs'.
           Inr (SUCCESS, h\<lparr>ok_bids := bs, ok_asks := as, ok_events := evs'\<rparr>)))))))"

text \<open>\<open>apply_buffered_deltas\<close>: the loop over the messages that are left in the buffer.\<close>

fun okx_replay :: "'j json_lib \<Rightarrow> int \<Rightarrow> string list \<Rightarrow> OkxFeedHandler \<Rightarrow> exn + Result \<times> OkxFeedHandler" where
  "okx_replay L now [] h = Inr (SUCCESS, h\<lparr>ok_delta_buffer := []\<rparr>)"
| "okx_replay L now (m # ms) h =
     (let json = jl_parse L m in
      if jl_is_discarded L json then okx_replay L now ms h
      else case array_at L ''data'' json of
        Some (data # _) \<Rightarrow>
          and_then (seq_field L ''seqId'' data) (\<lambda>seq.
          and_then (seq_field L ''prevSeqId'' data) (\<lambda>prev_seq.
            if seq \<le> ok_last_sequence h then okx_replay L now ms h
            else if \<not> okx_validate_delta_sequence seq prev_seq h
            then Inr (ERROR_SEQUENCE_GAP, h\<lparr>ok_delta_buffer := []\<rparr>)
            else and_then (okx_validate_checksum L data h) (\<lambda>valid.
              if \<not> valid then Inr (ERROR_BOOK_CORRUPTED, h\<lparr>ok_delta_buffer := []\<rparr>)
              else and_then (okx_process_delta L now json seq h) (\<lambda>(_, h'). okx_replay L now ms h'))))
      | _ \<Rightarrow> okx_replay L now ms h)"

definition okx_apply_buffered_deltas :: "'j json_lib \<Rightarrow> int \<Rightarrow> OkxFeedHandler \<Rightarrow> exn + Result \<times> OkxFeedHandler" where
  "okx_apply_buffered_deltas L now h = okx_replay L now (ok_delta_buffer h) h"

section \<open>Snapshots and messages\<close>

definition okx_process_snapshot :: "'j json_lib \<Rightarrow> int \<Rightarrow> 'j \<Rightarrow> OkxFeedHandler \<Rightarrow> exn + Result \<times> OkxFeedHandler" where
  "okx_process_snapshot L now json h =
     (case array_at L ''data'' json of
        Some (book # _) \<Rightarrow>
          and_then (seq_field L ''seqId'' book) (\<lambda>seq.
          and_then (level_array L ''bids'' book) (\<lambda>bl.
          and_then (level_array L ''asks'' book) (\<lambda>al.
            let snap = mk_Snapshot\<lparr>sn_symbol := ok_symbol h, sn_exchange := OKX, sn_timestamp_local_ns := now,
                  sn_sequence := seq, sn_bids := okx_parse_levels L bl, sn_asks := okx_parse_levels L al\<rparr>
            in if sn_bids snap = [] \<or> sn_asks snap = []
               then Inr (ERROR_BOOK_CORRUPTED, okx_trigger_resnapshot ''OKX WS snapshot has empty book'' h)
               else and_then (okx_apply_local L book ([], [])) (\<lambda>(bs, as).
                 let h = h\<lparr>ok_bids := bs, ok_asks := as, ok_last_sequence := seq,
                           ok_events := ok_events h @ [Ev_Snapshot snap]\<rparr>
                 in and_then (okx_apply_buffered_deltas L now h) (\<lambda>(r, h).
                   if r \<noteq> SUCCESS
                   then Inr (ERROR_BOOK_CORRUPTED,
                     okx_trigger_resnapshot ''Failed to apply buffered deltas after WS snapshot'' h)
                   else Inr (SUCCESS, h\<lparr>ok_state := STREAMING\<rparr>))))))
      | _ \<Rightarrow> Inr (ERROR_BOOK_CORRUPTED, okx_trigger_resnapshot ''OKX snapshot missing data'' h))"

definition okx_trade :: "'j json_lib \<Rightarrow> 'j \<Rightarrow> 'j \<Rightarrow> 'j \<Rightarrow> exn + feed_event" where
  "okx_trade L entry px sz =
     and_then (stod_of L px) (\<lambda>p. and_then (stod_of L sz) (\<lambda>s. and_then (jl_value_string L ''side'' [] entry) (\<lambda>side.
       Inr (Ev_Trade (mk_TradeFlow\<lparr>tf_last_trade_price := p, tf_last_trade_size := s,
         tf_trade_direction := (if side = ''buy'' then 0 else if side = ''sell'' then 1
           else tf_trade_direction mk_TradeFlow)\<rparr>)))))"

definition okx_trades :: "'j json_lib \<Rightarrow> 'j list \<Rightarrow> feed_event list" where
  "okx_trades L entries = List.map_filter (\<lambda>entry.
     if \<not> jl_is_object L entry then None
     else case (jl_find L ''px'' entry, jl_find L ''sz'' entry) of
       (Some px, Some sz) \<Rightarrow> catching (okx_trade L entry px sz) | _ \<Rightarrow> None) entries"

text \<open>The part of \<open>process_message\<close> that follows the test of the channel \<open>books\<close>.\<close>

definition okx_book_message :: "'j json_lib \<Rightarrow> int \<Rightarrow> string \<Rightarrow> 'j \<Rightarrow> OkxFeedHandler \<Rightarrow> exn + Result \<times> OkxFeedHandler" where
  "okx_book_message L now message json h =
     and_then (case string_at L ''action'' json of None \<Rightarrow> Inr [] | Some a \<Rightarrow> jl_string L a) (\<lambda>action.
       if action = ''snapshot'' then okx_process_snapshot L now json h
       else case array_at L ''data'' json of
         Some (data # _) \<Rightarrow>
           and_then (seq_field L ''seqId'' data) (\<lambda>seq.
           and_then (seq_field L ''prevSeqId'' data) (\<lambda>prev_seq.
             if ok_state h = BUFFERING \<or> ok_state h = DISCONNECTED
             then Inr (SUCCESS, if length (ok_delta_buffer h) < OKX_MAX_BUFFER_SIZE
               then h\<lparr>ok_delta_buffer := ok_delta_buffer h @ [message]\<rparr>
               else okx_trigger_resnapshot ''Buffer overflow'' h)
             else if \<not> okx_validate_delta_sequence seq prev_seq h
             then Inr (ERROR_SEQUENCE_GAP, okx_trigger_resnapshot ''OKX sequence gap'' h)
             else and_then (okx_validate_checksum L data h) (\<lambda>valid.
               if \<not> valid then Inr (ERROR_BOOK_CORRUPTED, okx_trigger_resnapshot ''OKX checksum mismatch'' h)
               else okx_process_delta L now json seq h)))
       | _ \<Rightarrow> Inr (SUCCESS, h))"

definition okx_process_message :: "'j json_lib \<Rightarrow> int \<Rightarrow> string \<Rightarrow> OkxFeedHandler \<Rightarrow> exn + Result \<times> OkxFeedHandler" where
  "okx_process_message L now message h =
     (let json = jl_parse L message in
      if jl_is_discarded L json then Inr (SUCCESS, h)
      else and_then (case string_at L ''event'' json of None \<Rightarrow> Inr [] | Some a \<Rightarrow> jl_string L a) (\<lambda>event.
        if event = ''error'' then
          and_then (jl_value_string L ''msg'' ''unknown'' json) (\<lambda>msg.
            Inr (ERROR_CONNECTION_LOST, okx_trigger_resnapshot (''OKX error event: '' @ msg) h))
        else case jl_find L ''arg'' json of
          None \<Rightarrow> Inr (SUCCESS, h)
        | Some arg \<Rightarrow>
            if \<not> jl_is_object L arg then Inr (SUCCESS, h)
            else case (string_at L ''channel'' arg, string_at L ''instId'' arg) of
              (Some ch, Some inst) \<Rightarrow>
                and_then (jl_string L ch) (\<lambda>channel. and_then (jl_string L inst) (\<lambda>inst_id.
                  if inst_id \<noteq> ok_instrument_id h then Inr (SUCCESS, h)
                  else if channel = ''trades''
                  then Inr (SUCCESS, case array_at L ''data'' json of None \<Rightarrow> h
                    | Some entries \<Rightarrow> h\<lparr>ok_events := ok_events h @ okx_trades L entries\<rparr>)
                  else if channel \<noteq> ''books'' then Inr (SUCCESS, h)
                  else okx_book_message L now message json h))
            | _ \<Rightarrow> Inr (SUCCESS, h)))"

text \<open>What the event loop does to the handler once a connection is established, and \<open>stop()\<close>.\<close>

definition okx_established :: "OkxFeedHandler \<Rightarrow> OkxFeedHandler" where
  "okx_established h = h\<lparr>ok_state := BUFFERING, ok_delta_buffer := [], ok_bids := [], ok_asks := [],
     ok_last_sequence := 0, ok_force_reconnect := False\<rparr>"

definition okx_stop :: "OkxFeedHandler \<Rightarrow> OkxFeedHandler" where
  "okx_stop h = h\<lparr>ok_running := False, ok_state := DISCONNECTED\<rparr>"

text \<open>\<open>fetch_tick_size\<close>, with the venue's response.\<close>

definition okx_fetch_tick_size :: "'j json_lib \<Rightarrow> (int \<Rightarrow> double) \<Rightarrow> HttpResponse \<Rightarrow> OkxFeedHandler \<Rightarrow> exn + Result \<times> OkxFeedHandler" where
  "okx_fetch_tick_size L pow10 resp h =
     (if \<not> http_ok resp \<or> hr_body resp = [] then Inr (ERROR_CONNECTION_LOST, h)
      else let json = jl_parse L (hr_body resp) in
        if jl_is_discarded L json then Inr (ERROR_BOOK_CORRUPTED, h)
        else and_then (jl_value_string L ''code'' [] json) (\<lambda>code.
          if code \<noteq> ''0'' then Inr (ERROR_BOOK_CORRUPTED, h)
          else case array_at L ''data'' json of
            Some (d # _) \<Rightarrow> and_then (jl_value_string L ''tickSz'' [] d) (\<lambda>ts.
              if ts = [] then Inr (ERROR_BOOK_CORRUPTED, h)
              else and_then (lift_std (tick_from_string pow10 ts)) (\<lambda>tick.
                Inr (SUCCESS, h\<lparr>ok_tick_size := tick\<rparr>)))
          | _ \<Rightarrow> Inr (ERROR_BOOK_CORRUPTED, h)))"

section \<open>The subscriber mirrors the local book\<close>

lemma stod_zero: "stod ''0'' = Inr 0" "stod ''0.0'' = Inr 0"
  by code_simp+

lemma deq_zero [simp]: "deq 0 0"
  by (simp add: zero_double_def)

text \<open>A level changes the local side as its size changes the subscriber's.\<close>

lemma apply_level_sizes:
  assumes "okx_apply_level lt L lvl b = Inr b'" "is_level L lvl"
    and "stod_of L (jl_elems L lvl ! 0) = Inr p" "stod_of L (jl_elems L lvl ! 1) = Inr s"
  shows "sizes b' = set_size lt p s (sizes b)"
proof -
  obtain ps ss gone where e: "jl_string L (jl_elems L lvl ! 1) = Inr ss" "is_zero_text ss = Inr gone"
    "b' = (if gone then side_erase lt p b else side_put lt p (ps, ss) b)"
    using assms by (auto simp: okx_apply_level_def Let_def and_then_Inr)
  have s: "stod ss = Inr s" using assms(4) e(1)
    by (cases "stod ss") (auto simp: stod_of_def)
  then have "gone \<longleftrightarrow> deq s 0" "text_size ss = s" using e(2)
    by (auto simp: is_zero_text_def stod_zero text_size_def split: if_splits)
  then show ?thesis by (simp add: e(3) set_size_def sizes_put sizes_erase)
qed

text \<open>The number of orders can be read at every level of a side, and of a message.\<close>

definition counts_readable :: "'j json_lib \<Rightarrow> 'j list \<Rightarrow> bool" where
  "counts_readable L arr \<longleftrightarrow> list_all (\<lambda>lvl. is_level L lvl \<longrightarrow> catching (okx_order_count L (jl_elems L lvl)) \<noteq> None) arr"

lemma load_levels:
  assumes "foldE (okx_apply_level lt L) arr b = Inr b'" "counts_readable L arr"
  shows "fold (\<lambda>l. set_size lt (pl_price l) (pl_size l)) (okx_parse_levels L arr) (sizes b) = sizes b'"
  using assms
proof (induction arr arbitrary: b)
  case (Cons lvl arr)
  from Cons.prems(1) obtain b1 where b1: "okx_apply_level lt L lvl b = Inr b1"
    "foldE (okx_apply_level lt L) arr b1 = Inr b'" by (auto simp: and_then_Inr)
  have r: "counts_readable L arr" using Cons.prems(2) by (simp add: counts_readable_def)
  note IH = Cons.IH[OF b1(2) r]
  show ?case
  proof (cases "is_level L lvl")
    case True
    obtain c where c: "okx_order_count L (jl_elems L lvl) = Inr c"
      using Cons.prems(2) True by (cases "okx_order_count L (jl_elems L lvl)") (auto simp: counts_readable_def)
    obtain p where p: "stod_of L (jl_elems L lvl ! 0) = Inr p"
      using b1(1) True by (auto simp: okx_apply_level_def Let_def and_then_Inr)
    show ?thesis
    proof (cases "stod_of L (jl_elems L lvl ! 1)")
      case (Inr s)
      then show ?thesis using IH True c p apply_level_sizes[OF b1(1) True p Inr]
        by (simp add: okx_parse_levels_def okx_parse_level_def Let_def List.map_filter_simps mk_PriceLevel_def)
    next
      case (Inl e)
      obtain ss gone where "jl_string L (jl_elems L lvl ! 1) = Inr ss" "is_zero_text ss = Inr gone"
        using b1(1) True by (auto simp: okx_apply_level_def Let_def and_then_Inr)
      with Inl have False
        by (cases "stod ss") (auto simp: stod_of_def is_zero_text_def stod_zero split: if_splits)
      then show ?thesis ..
    qed
  qed (use IH b1(1) in \<open>simp add: okx_parse_levels_def okx_apply_level_def\<close>)
qed (simp add: okx_parse_levels_def List.map_filter_simps)

text \<open>What a subscriber holds after the events, and that it is the local book.\<close>

definition mirrors :: "sized_side \<times> sized_side \<Rightarrow> OkxFeedHandler \<Rightarrow> bool" where
  "mirrors v h \<longleftrightarrow> fold subscriber (ok_events h) v = (sizes (ok_bids h), sizes (ok_asks h))"

lemma emit_level_event:
  assumes "okx_emit_level L now seq side lvl evs = Inr evs'" "is_level L lvl"
  obtains d where "evs' = evs @ [Ev_Delta d]" "dl_side d = side"
    "stod_of L (jl_elems L lvl ! 0) = Inr (dl_price d)" "stod_of L (jl_elems L lvl ! 1) = Inr (dl_size d)"
proof -
  have "\<exists>d. evs' = evs @ [Ev_Delta d] \<and> dl_side d = side \<and> stod_of L (jl_elems L lvl ! 0) = Inr (dl_price d) \<and>
    stod_of L (jl_elems L lvl ! 1) = Inr (dl_size d)"
    using assms by (auto simp: okx_emit_level_def Let_def and_then_Inr)
  then show thesis using that by blast
qed

lemma emit_bids:
  assumes "foldE (okx_emit_level L now seq BID) arr evs = Inr evs'"
    and "foldE (okx_apply_level bid_before L) arr b = Inr b'" and "fold subscriber evs v = (sizes b, y)"
  shows "fold subscriber evs' v = (sizes b', y)"
  using assms
proof (induction arr arbitrary: evs b)
  case (Cons lvl arr)
  obtain evs1 b1 where 1: "okx_emit_level L now seq BID lvl evs = Inr evs1"
    "foldE (okx_emit_level L now seq BID) arr evs1 = Inr evs'"
    "okx_apply_level bid_before L lvl b = Inr b1" "foldE (okx_apply_level bid_before L) arr b1 = Inr b'"
    using Cons.prems by (auto simp: and_then_Inr)
  have "fold subscriber evs1 v = (sizes b1, y)"
  proof (cases "is_level L lvl")
    case True
    from emit_level_event[OF 1(1) True] obtain d where d: "evs1 = evs @ [Ev_Delta d]" "dl_side d = BID"
      "stod_of L (jl_elems L lvl ! 0) = Inr (dl_price d)" "stod_of L (jl_elems L lvl ! 1) = Inr (dl_size d)" .
    from apply_level_sizes[OF 1(3) True d(3,4)] show ?thesis by (simp add: d(1,2) Cons.prems(3))
  qed (use 1 Cons.prems(3) in \<open>simp add: okx_emit_level_def okx_apply_level_def\<close>)
  from Cons.IH[OF 1(2,4) this] show ?case .
qed simp

lemma emit_asks:
  assumes "foldE (okx_emit_level L now seq ASK) arr evs = Inr evs'"
    and "foldE (okx_apply_level ask_before L) arr b = Inr b'" and "fold subscriber evs v = (x, sizes b)"
  shows "fold subscriber evs' v = (x, sizes b')"
  using assms
proof (induction arr arbitrary: evs b)
  case (Cons lvl arr)
  obtain evs1 b1 where 1: "okx_emit_level L now seq ASK lvl evs = Inr evs1"
    "foldE (okx_emit_level L now seq ASK) arr evs1 = Inr evs'"
    "okx_apply_level ask_before L lvl b = Inr b1" "foldE (okx_apply_level ask_before L) arr b1 = Inr b'"
    using Cons.prems by (auto simp: and_then_Inr)
  have "fold subscriber evs1 v = (x, sizes b1)"
  proof (cases "is_level L lvl")
    case True
    from emit_level_event[OF 1(1) True] obtain d where d: "evs1 = evs @ [Ev_Delta d]" "dl_side d = ASK"
      "stod_of L (jl_elems L lvl ! 0) = Inr (dl_price d)" "stod_of L (jl_elems L lvl ! 1) = Inr (dl_size d)" .
    from apply_level_sizes[OF 1(3) True d(3,4)] show ?thesis by (simp add: d(1,2) Cons.prems(3))
  qed (use 1 Cons.prems(3) in \<open>simp add: okx_emit_level_def okx_apply_level_def\<close>)
  from Cons.IH[OF 1(2,4) this] show ?case .
qed simp

lemma process_delta_mirrors:
  assumes "okx_process_delta L now json seq h = Inr (r, h')" "mirrors v h"
  shows "r = SUCCESS \<and> mirrors v h' \<and> ok_state h' = ok_state h"
proof -
  let ?src = "case array_at L ''data'' json of Some (d # _) \<Rightarrow> d | _ \<Rightarrow> json"
  obtain bl al bs as evs evs' where x: "level_array L ''bids'' ?src = Inr bl" "level_array L ''asks'' ?src = Inr al"
    "foldE (okx_apply_level bid_before L) bl (ok_bids h) = Inr bs"
    "foldE (okx_apply_level ask_before L) al (ok_asks h) = Inr as"
    "foldE (okx_emit_level L now seq BID) bl (ok_events h) = Inr evs"
    "foldE (okx_emit_level L now seq ASK) al evs = Inr evs'"
    "r = SUCCESS" "h' = h\<lparr>ok_last_sequence := seq, ok_bids := bs, ok_asks := as, ok_events := evs'\<rparr>"
    using assms(1) by (auto simp: okx_process_delta_def okx_apply_local_def Let_def and_then_Inr)
  have "fold subscriber evs v = (sizes bs, sizes (ok_asks h))"
    using emit_bids[OF x(5,3)] assms(2) by (simp add: mirrors_def)
  from emit_asks[OF x(6,4) this] show ?thesis by (simp add: x(7,8) mirrors_def)
qed

lemma replay_mirrors:
  "okx_replay L now ms h = Inr (r, h') \<Longrightarrow> mirrors v h \<Longrightarrow> mirrors v h'"
proof (induction L now ms h rule: okx_replay.induct)
  case (2 L now m ms h)
  then show ?case
    by (auto simp: Let_def and_then_Inr mirrors_def dest: process_delta_mirrors[where v = v]
        split: if_splits option.splits list.splits)
qed (auto simp: mirrors_def)

text \<open>A message is readable when the numbers of orders in it are.\<close>

definition readable_message :: "'j json_lib \<Rightarrow> string \<Rightarrow> bool" where
  "readable_message L m = (case array_at L ''data'' (jl_parse L m) of
     Some (d # _) \<Rightarrow> list_all (\<lambda>key. case level_array L key d of Inr arr \<Rightarrow> counts_readable L arr | Inl _ \<Rightarrow> True)
       [''bids'', ''asks'']
   | _ \<Rightarrow> True)"

definition synced :: "sized_side \<times> sized_side \<Rightarrow> OkxFeedHandler \<Rightarrow> bool" where
  "synced v h \<longleftrightarrow> (ok_state h = STREAMING \<longrightarrow> mirrors v h)"

lemma synced_resnapshot [simp]: "synced v (okx_trigger_resnapshot reason h)"
  by (simp add: synced_def okx_trigger_resnapshot_def)

lemma process_snapshot_synced:
  assumes "okx_process_snapshot L now (jl_parse L m) h = Inr (r, h')" "readable_message L m"
  shows "synced v h'"
proof (cases "array_at L ''data'' (jl_parse L m)")
  case (Some ds)
  show ?thesis
  proof (cases ds)
    case (Cons d rest)
    note D = Some[unfolded Cons]
    obtain seq bl al where l: "level_array L ''bids'' d = Inr bl" "level_array L ''asks'' d = Inr al"
      "seq_field L ''seqId'' d = Inr seq"
      using assms(1) D by (auto simp: okx_process_snapshot_def and_then_Inr)
    have c: "counts_readable L bl" "counts_readable L al"
      using assms(2) D l by (simp_all add: readable_message_def)
    show ?thesis
    proof (cases "okx_parse_levels L bl = [] \<or> okx_parse_levels L al = []")
      case True
      then show ?thesis using assms(1) D l by (auto simp: okx_process_snapshot_def Let_def)
    next
      case False
      let ?sn = "mk_Snapshot\<lparr>sn_symbol := ok_symbol h, sn_exchange := OKX, sn_timestamp_local_ns := now,
                  sn_sequence := seq, sn_bids := okx_parse_levels L bl, sn_asks := okx_parse_levels L al\<rparr>"
      obtain bs as where b: "foldE (okx_apply_level bid_before L) bl [] = Inr bs"
        "foldE (okx_apply_level ask_before L) al [] = Inr as"
        using assms(1) D l False by (auto simp: okx_process_snapshot_def okx_apply_local_def Let_def and_then_Inr)
      let ?h = "h\<lparr>ok_bids := bs, ok_asks := as, ok_last_sequence := seq, ok_events := ok_events h @ [Ev_Snapshot ?sn]\<rparr>"
      have m: "mirrors v ?h"
        using load_levels[OF b(1) c(1)] load_levels[OF b(2) c(2)]
        by (simp add: mirrors_def load_side_def sizes_def)
      have "okx_apply_local L d ([], []) = Inr (bs, as)" using b l by (simp add: okx_apply_local_def)
      then obtain r1 h1 where 1: "okx_replay L now (ok_delta_buffer ?h) ?h = Inr (r1, h1)"
        "h' = (if r1 \<noteq> SUCCESS then okx_trigger_resnapshot ''Failed to apply buffered deltas after WS snapshot'' h1
               else h1\<lparr>ok_state := STREAMING\<rparr>)"
        using assms(1) D l False
        by (auto simp: okx_process_snapshot_def okx_apply_buffered_deltas_def Let_def and_then_Inr split: if_splits)
      from replay_mirrors[OF 1(1) m] have "mirrors v (h1\<lparr>ok_state := STREAMING\<rparr>)" by (simp add: mirrors_def)
      then show ?thesis by (cases "r1 = SUCCESS") (simp_all add: 1(2), simp add: synced_def)
    qed
  qed (use assms Some in \<open>auto simp: okx_process_snapshot_def\<close>)
qed (use assms in \<open>auto simp: okx_process_snapshot_def\<close>)

lemma book_message_synced:
  assumes m: "okx_book_message L now m (jl_parse L m) h = Inr (r, h')" and "readable_message L m" "synced v h"
  shows "synced v h'"
proof -
  obtain act where act: "(case string_at L ''action'' (jl_parse L m) of None \<Rightarrow> Inr [] | Some a \<Rightarrow> jl_string L a) = Inr act"
    using m by (auto simp: okx_book_message_def and_then_Inr)
  show ?thesis
  proof (cases "act = ''snapshot''")
    case True
    then show ?thesis using m act process_snapshot_synced[OF _ assms(2)] by (simp add: okx_book_message_def)
  next
    case False
    show ?thesis
    proof (cases "\<exists>d ds. array_at L ''data'' (jl_parse L m) = Some (d # ds)")
      case True
      then obtain d ds where d: "array_at L ''data'' (jl_parse L m) = Some (d # ds)" by blast
      obtain seq prev_seq where q: "seq_field L ''seqId'' d = Inr seq" "seq_field L ''prevSeqId'' d = Inr prev_seq"
        using m act False d by (auto simp: okx_book_message_def and_then_Inr)
      show ?thesis
      proof (cases "ok_state h")
        case STREAMING
        with assms(3) have v: "mirrors v h" by (simp add: synced_def)
        show ?thesis
        proof (cases "okx_validate_delta_sequence seq prev_seq h")
          case True
          then obtain valid where "okx_validate_checksum L d h = Inr valid"
            using m act False d q STREAMING by (auto simp: okx_book_message_def and_then_Inr)
          then show ?thesis using m act False d q STREAMING True process_delta_mirrors[OF _ v, of L now "jl_parse L m" seq r h']
            by (cases valid) (auto simp: okx_book_message_def synced_def okx_trigger_resnapshot_def)
        qed (use m act False d q STREAMING in \<open>auto simp: okx_book_message_def\<close>)
      qed (use m act False d q in \<open>auto simp: okx_book_message_def synced_def okx_trigger_resnapshot_def\<close>)
    next
      case none: False
      then have "h' = h" using m act False
        by (auto simp: okx_book_message_def split: option.splits list.splits)
      then show ?thesis using assms(3) by simp
    qed
  qed
qed

lemma trades_quiet: "fold subscriber (okx_trades L es) b = b"
  by (induction es arbitrary: b)
    (auto simp: okx_trades_def List.map_filter_simps okx_trade_def catching_def and_then_Inr split: option.splits sum.splits if_splits)

lemma message_synced:
  assumes "okx_process_message L now m h = Inr (r, h')" "readable_message L m" "synced v h"
  shows "synced v h'"
  using assms book_message_synced[OF _ assms(2,3), of now r h']
  by (auto simp: okx_process_message_def Let_def and_then_Inr synced_def mirrors_def trades_quiet
      okx_trigger_resnapshot_def split: option.splits if_splits)

fun okx_run :: "'j json_lib \<Rightarrow> (int \<times> string) list \<Rightarrow> OkxFeedHandler \<Rightarrow> exn + OkxFeedHandler" where
  "okx_run L [] h = Inr h"
| "okx_run L ((now, m) # ms) h = and_then (okx_process_message L now m h) (\<lambda>(_, h'). okx_run L ms h')"

lemma run_synced:
  "okx_run L msgs h = Inr h' \<Longrightarrow> list_all (\<lambda>(_, m). readable_message L m) msgs \<Longrightarrow> synced v h \<Longrightarrow> synced v h'"
  by (induction L msgs h rule: okx_run.induct) (auto simp: and_then_Inr dest!: message_synced[where v = v])


definition okx_sample_json :: "(string \<times> json) list" where
  "okx_sample_json =
    (let arg = JObject [(''channel'', JString ''books''), (''instId'', JString ''X'')];
         lvl = (\<lambda>p s. JArray [JString p, JString s])
     in [(''update'', JObject [(''arg'', arg), (''data'', JArray [JObject [(''seqId'', JUint 8),
            (''prevSeqId'', JUint 7), (''bids'', JArray [lvl ''1'' ''0''])]])]),
         (''snapshot'', JObject [(''arg'', arg), (''action'', JString ''snapshot''), (''data'', JArray [JObject [(''seqId'', JUint 7),
            (''bids'', JArray [lvl ''1'' ''2'', lvl ''3'' ''4'']), (''asks'', JArray [lvl ''5'' ''6''])]])])])"

abbreviation okx_sample_run :: "exn + OkxFeedHandler" where
  "okx_sample_run \<equiv> okx_run (table_json okx_sample_json) [(1, ''update''), (2, ''snapshot'')] (okx_established (okx_init ''X'' ''X''))"

lemma okx_sample_streams:
  "(case okx_sample_run of Inl _ \<Rightarrow> False
    | Inr h \<Rightarrow> ok_state h = STREAMING \<and> sizes (ok_bids h) = [(Fin 3, Fin 4)] \<and> sizes (ok_asks h) = [(Fin 5, Fin 6)])"
  by code_simp

lemma okx_sample_readable: "list_all (\<lambda>(_, m). readable_message (table_json okx_sample_json) m) [(1 :: int, ''update''), (2, ''snapshot'')]"
  by code_simp


section \<open>The text under the checksum\<close>

text \<open>The levels of the two sides in turn; the rest of the longer side follows.\<close>

fun in_turn :: "'a list \<Rightarrow> 'a list \<Rightarrow> 'a list" where
  "in_turn [] ys = ys"
| "in_turn (x # xs) [] = x # xs"
| "in_turn (x # xs) (y # ys) = x # y # in_turn xs ys"

definition colon_separated :: "string list \<Rightarrow> string" where
  "colon_separated xs = tl (concat (map (\<lambda>x. CHR '':'' # x) xs))"

lemma in_turn_Nil [simp]: "in_turn xs [] = xs"
  by (cases xs) auto

lemma level_text_not_Nil [simp]: "level_text l \<noteq> []"
  by (simp add: level_text_def)

lemma rounds_behind:
  "out \<noteq> [] \<Longrightarrow> length (take n as) \<le> length (take n bs) \<Longrightarrow>
   okx_checksum_rounds n True bs as out =
   out @ concat (map (\<lambda>x. CHR '':'' # x) (in_turn (map level_text (take n bs)) (map level_text (take n as))))"
proof (induction n True bs as out rule: okx_checksum_rounds.induct)
  case (2 n bs as out)
  then show ?case by (cases bs; cases as) auto
qed simp

lemma rounds_length:
  "out \<noteq> [] \<Longrightarrow>
   length (okx_checksum_rounds n True bs as out) =
   length out + length (concat (map (\<lambda>x. CHR '':'' # x) (in_turn (map level_text (take n bs)) (map level_text (take n as)))))
   + (length (take n as) - length (take n bs))"
proof (induction n True bs as out rule: okx_checksum_rounds.induct)
  case (2 n bs as out)
  then show ?case by (cases bs; cases as) auto
qed simp

lemma colon_separated_Cons: "colon_separated (x # xs) = x @ concat (map (\<lambda>x. CHR '':'' # x) xs)"
  by (simp add: colon_separated_def)

text \<open>
  The text under the OKX checksum is the levels of the two sides in turn, separated by colons,
  exactly when the asks are no more than the bids among the first 25 of each side, or there is one
  ask and no bid. With more asks than bids a second colon is written before every surplus ask.
\<close>

theorem okx_checksum_text_spec:
  "okx_checksum_text bs as = colon_separated (in_turn (map level_text (take 25 bs)) (map level_text (take 25 as))) \<longleftrightarrow>
   length (take 25 as) \<le> length (take 25 bs) \<or> bs = [] \<and> length as = 1"
proof -
  have n: "25 = Suc 24" by simp
  have step: "okx_checksum_text bs as = (if bs = [] \<and> as = [] then []
    else okx_checksum_rounds 24 True (tl bs) (tl as)
      (case as of [] \<Rightarrow> (case bs of [] \<Rightarrow> [] | b # _ \<Rightarrow> level_text b)
       | a # _ \<Rightarrow> (case bs of [] \<Rightarrow> level_text a | b # _ \<Rightarrow> level_text b @ CHR '':'' # level_text a)))" for bs as
    unfolding okx_checksum_text_def n by (cases bs; cases as) (simp_all del: Suc_numeral)
  have n24: "okx_checksum_rounds 24 True [] [] out = out" for out
    using okx_checksum_rounds.simps(2)[of 23 True "[]" "[]" out] by simp
  have t: "take 25 (x # xs) = x # take 24 xs" for x :: "double \<times> string \<times> string" and xs by (simp add: numeral_eq_Suc)
  show ?thesis
  proof (cases bs)
    case bs: (Cons b bs')
    show ?thesis
    proof (cases as)
      case Nil
      then show ?thesis using rounds_behind[of "level_text b" 24 "[]" bs']
        by (simp add: step bs t colon_separated_Cons)
    next
      case (Cons a as')
      let ?out = "level_text b @ CHR '':'' # level_text a"
      show ?thesis
      proof (cases "length (take 24 as') \<le> length (take 24 bs')")
        case True
        then show ?thesis using rounds_behind[of ?out 24 as' bs']
          by (simp add: step bs Cons t colon_separated_Cons)
      next
        case False
        have "length (okx_checksum_text bs as) \<noteq>
          length (colon_separated (in_turn (map level_text (take 25 bs)) (map level_text (take 25 as))))"
          using rounds_length[of ?out 24 bs' as'] False by (simp add: step bs Cons t colon_separated_Cons)
        then show ?thesis using False by (auto simp: bs Cons t)
      qed
    qed
  next
    case bs: Nil
    show ?thesis
    proof (cases as)
      case Nil
      then show ?thesis by (simp add: step bs colon_separated_def)
    next
      case (Cons a as')
      show ?thesis
      proof (cases as')
        case Nil
        then show ?thesis by (simp add: step bs Cons t colon_separated_Cons n24)
      next
        case (Cons a2 rest)
        have "length (okx_checksum_text bs as) \<noteq>
          length (colon_separated (in_turn (map level_text (take 25 bs)) (map level_text (take 25 as))))"
          using rounds_length[of "level_text a" 24 "[]" as'] Cons
          by (simp add: step bs \<open>as = a # as'\<close> t colon_separated_Cons)
        then show ?thesis using Cons by (auto simp: bs \<open>as = a # as'\<close>)
      qed
    qed
  qed
qed

section \<open>The connection\<close>

definition okx_ws_address :: "string \<Rightarrow> std_error + string \<times> int \<times> string" where
  "okx_ws_address = parse_ws_url ''ws.okx.com'' 8443 ''/ws/v5/public''"

definition okx_receive :: "string \<Rightarrow> bool \<Rightarrow> string \<Rightarrow> string \<times> string option" where
  "okx_receive = receive_fragment 131072"

end
