(* ===== verification/Binance_Feed.thy ===== *)
theory Binance_Feed
  imports Feed_Common Order_Book
begin

text \<open>
  \<^verbatim>\<open>core/feeds/binance/binance_feed_handler.cpp\<close>. A depth update covers the update ids \<open>U\<close> to \<open>u\<close>.
  The handler buffers updates while it fetches a snapshot, drops the ones the snapshot covers and
  applies the others as long as each starts where the last one ended. As in \<open>Okx_Feed\<close> the
  callbacks are the list \<open>bn_events\<close>; the response to a request is an argument.
\<close>

section \<open>State and parsing\<close>

record ParsedLevel =
  lv_price :: double
  lv_size :: double

record BufferedDelta =
  bd_first_update_id :: u64
  bd_last_update_id :: u64
  bd_timestamp_exchange_ns :: int
  bd_bids :: "ParsedLevel list"
  bd_asks :: "ParsedLevel list"

record BinanceFeedHandler =
  bn_symbol :: string
  bn_tick_size :: double
  bn_running :: bool
  bn_reconnect_requested :: bool
  bn_last_sequence :: u64
  bn_state :: feed_state
  bn_delta_buffer :: "BufferedDelta list"
  bn_buffer_high_water_mark :: nat
  bn_buffered_applied :: u64
  bn_buffered_skipped :: u64
  bn_resync_count :: u64
  bn_snapshot_latency_ms :: u64
  bn_last_resync_reason :: string
  bn_events :: "feed_event list"

definition binance_init :: "string \<Rightarrow> BinanceFeedHandler" where
  "binance_init symbol = \<lparr>bn_symbol = symbol, bn_tick_size = 0, bn_running = False,
     bn_reconnect_requested = False, bn_last_sequence = 0, bn_state = DISCONNECTED, bn_delta_buffer = [],
     bn_buffer_high_water_mark = 0, bn_buffered_applied = 0, bn_buffered_skipped = 0, bn_resync_count = 0,
     bn_snapshot_latency_ms = 0, bn_last_resync_reason = [], bn_events = []\<rparr>"

definition BINANCE_MAX_BUFFER_SIZE :: nat where "BINANCE_MAX_BUFFER_SIZE = 8192"

definition binance_trigger_resnapshot :: "string \<Rightarrow> BinanceFeedHandler \<Rightarrow> BinanceFeedHandler" where
  "binance_trigger_resnapshot reason h = h\<lparr>bn_resync_count := bn_resync_count h + 1,
     bn_last_resync_reason := reason, bn_events := bn_events h @ [Ev_Error (''Re-snapshot: '' @ reason)],
     bn_delta_buffer := [], bn_state := BUFFERING, bn_reconnect_requested := True\<rparr>"

text \<open>The checksum over the bytes of the parsed levels, \<open>double_bytes\<close> as in \<open>Order_Book\<close>.\<close>

definition binance_fnv1a_bytes :: "int list \<Rightarrow> u32 \<Rightarrow> u32" where
  "binance_fnv1a_bytes data seed = fold (\<lambda>byte hash. xor hash (word_of_int byte) * 16777619) data seed"

definition binance_hash_level :: "PriceLevel \<Rightarrow> u32 \<Rightarrow> u32" where
  "binance_hash_level level hash =
     binance_fnv1a_bytes (double_bytes (pl_size level)) (binance_fnv1a_bytes (double_bytes (pl_price level)) hash)"

definition binance_snapshot_checksum :: "PriceLevel list \<Rightarrow> PriceLevel list \<Rightarrow> u32" where
  "binance_snapshot_checksum bids asks = fold binance_hash_level asks (fold binance_hash_level bids 2166136261)"

definition parse_exchange_timestamp_ns :: "'j json_lib \<Rightarrow> 'j \<Rightarrow> exn + int" where
  "parse_exchange_timestamp_ns L json = (case jl_find L ''E'' json of
     None \<Rightarrow> Inr 0
   | Some t \<Rightarrow> if jl_is_unsigned L t then and_then (jl_u64 L t) (\<lambda>n. Inr (sint n * 1000000)) else Inr 0)"

definition two_numbers :: "'j json_lib \<Rightarrow> 'j \<Rightarrow> exn + double \<times> double" where
  "two_numbers L lvl = (let e = jl_elems L lvl in
     and_then (stod_of L (e ! 0)) (\<lambda>p. and_then (stod_of L (e ! 1)) (\<lambda>s. Inr (p, s))))"

text \<open>A level of a snapshot that cannot be read is left out, one of an update spoils the update.\<close>

definition binance_parse_levels :: "'j json_lib \<Rightarrow> 'j list \<Rightarrow> PriceLevel list" where
  "binance_parse_levels L arr = List.map_filter
     (\<lambda>lvl. map_option (\<lambda>(p, s). mk_PriceLevel p s 0) (catching (two_numbers L lvl))) (filter (is_level L) arr)"

fun binance_parse_side :: "'j json_lib \<Rightarrow> 'j list \<Rightarrow> ParsedLevel list option" where
  "binance_parse_side L [] = Some []"
| "binance_parse_side L (lvl # arr) =
     (if \<not> is_level L lvl then binance_parse_side L arr
      else case catching (two_numbers L lvl) of
        None \<Rightarrow> None
      | Some (p, s) \<Rightarrow> map_option (Cons \<lparr>lv_price = p, lv_size = s\<rparr>) (binance_parse_side L arr))"

definition unsigned_at :: "'j json_lib \<Rightarrow> string \<Rightarrow> 'j \<Rightarrow> 'j option" where
  "unsigned_at L key j = (case jl_find L key j of None \<Rightarrow> None
     | Some x \<Rightarrow> if jl_is_unsigned L x then Some x else None)"

definition parse_delta_message :: "'j json_lib \<Rightarrow> 'j \<Rightarrow> exn + Result + BufferedDelta" where
  "parse_delta_message L json =
     (case (unsigned_at L ''U'' json, unsigned_at L ''u'' json) of
        (Some U, Some u) \<Rightarrow>
          and_then (jl_u64 L U) (\<lambda>f. and_then (jl_u64 L u) (\<lambda>l.
          and_then (parse_exchange_timestamp_ns L json) (\<lambda>ts.
          and_then (level_array L ''b'' json) (\<lambda>b. case binance_parse_side L b of
            None \<Rightarrow> Inr (Inl ERROR_BOOK_CORRUPTED)
          | Some bids \<Rightarrow> and_then (level_array L ''a'' json) (\<lambda>a. case binance_parse_side L a of
              None \<Rightarrow> Inr (Inl ERROR_BOOK_CORRUPTED)
            | Some asks \<Rightarrow> Inr (Inr \<lparr>bd_first_update_id = f, bd_last_update_id = l,
                bd_timestamp_exchange_ns = ts, bd_bids = bids, bd_asks = asks\<rparr>))))))
      | _ \<Rightarrow> Inr (Inl ERROR_INVALID_SEQUENCE))"

section \<open>Updates\<close>

definition binance_level_event :: "int \<Rightarrow> BufferedDelta \<Rightarrow> Side \<Rightarrow> ParsedLevel \<Rightarrow> feed_event" where
  "binance_level_event now d side l = Ev_Delta \<lparr>dl_side = side, dl_price = lv_price l, dl_size = lv_size l,
     dl_order_count = 0, dl_sequence = bd_last_update_id d,
     dl_timestamp_exchange_ns = bd_timestamp_exchange_ns d, dl_timestamp_local_ns = now\<rparr>"

definition delta_events :: "int \<Rightarrow> BufferedDelta \<Rightarrow> feed_event list" where
  "delta_events now d = map (binance_level_event now d BID) (bd_bids d) @ map (binance_level_event now d ASK) (bd_asks d)"

definition binance_apply_delta :: "int \<Rightarrow> BufferedDelta \<Rightarrow> BinanceFeedHandler \<Rightarrow> Result \<times> BinanceFeedHandler" where
  "binance_apply_delta now d h = (SUCCESS, h\<lparr>bn_events := bn_events h @ delta_events now d,
     bn_last_sequence := bd_last_update_id d\<rparr>)"

definition binance_validate_delta_sequence :: "u64 \<Rightarrow> u64 \<Rightarrow> BinanceFeedHandler \<Rightarrow> bool" where
  "binance_validate_delta_sequence U u h =
     (let expected = bn_last_sequence h + 1 in U \<le> expected \<and> expected \<le> u)"

text \<open>
  The first loop of \<open>apply_buffered_deltas\<close>: the index of the update that covers the one after the
  snapshot (\<open>None\<close> when every update is outdated, \<open>Inl\<close> when one precedes the gap) and the number of
  outdated updates before it.
\<close>

fun find_bridge :: "u64 \<Rightarrow> BufferedDelta list \<Rightarrow> nat \<Rightarrow> nat \<Rightarrow> unit + nat option \<times> nat" where
  "find_bridge s [] i skipped = Inr (None, skipped)"
| "find_bridge s (d # ds) i skipped =
     (if bd_last_update_id d \<le> s then find_bridge s ds (Suc i) (Suc skipped)
      else if bd_first_update_id d \<le> s + 1 \<and> s + 1 \<le> bd_last_update_id d then Inr (Some i, skipped)
      else Inl ())"

text \<open>The second loop.\<close>

fun replay_buffered :: "int \<Rightarrow> BufferedDelta list \<Rightarrow> BinanceFeedHandler \<Rightarrow> Result \<times> BinanceFeedHandler" where
  "replay_buffered now [] h = (SUCCESS, h)"
| "replay_buffered now (d # ds) h =
     (if \<not> binance_validate_delta_sequence (bd_first_update_id d) (bd_last_update_id d) h
      then (ERROR_SEQUENCE_GAP, binance_trigger_resnapshot ''buffered_sequence_gap'' h)
      else case binance_apply_delta now d h of (r, h) \<Rightarrow>
        if r \<noteq> SUCCESS then (ERROR_BOOK_CORRUPTED, binance_trigger_resnapshot ''buffered_delta_apply_failed'' h)
        else replay_buffered now ds h)"

definition binance_apply_buffered_deltas :: "int \<Rightarrow> u64 \<Rightarrow> BinanceFeedHandler \<Rightarrow> Result \<times> BinanceFeedHandler" where
  "binance_apply_buffered_deltas now s h =
     (let buf = bn_delta_buffer h in
      case find_bridge s buf 0 0 of
        Inl _ \<Rightarrow> (ERROR_SEQUENCE_GAP, binance_trigger_resnapshot ''snapshot_handoff_gap'' h)
      | Inr (None, skipped) \<Rightarrow>
          if buf = [] \<or> skipped = length buf
          then (SUCCESS, h\<lparr>bn_buffered_skipped := bn_buffered_skipped h + of_nat skipped, bn_delta_buffer := []\<rparr>)
          else (ERROR_SEQUENCE_GAP, binance_trigger_resnapshot ''snapshot_handoff_missing_bridge'' h)
      | Inr (Some i, skipped) \<Rightarrow>
          (case replay_buffered now (drop i buf) h of (r, h) \<Rightarrow>
             if r \<noteq> SUCCESS then (r, h)
             else (SUCCESS, h\<lparr>bn_buffered_applied := bn_buffered_applied h + of_nat (length buf - i),
               bn_buffered_skipped := bn_buffered_skipped h + of_nat skipped, bn_delta_buffer := []\<rparr>)))"

section \<open>Messages and snapshots\<close>

definition binance_trade :: "'j json_lib \<Rightarrow> 'j \<Rightarrow> 'j \<Rightarrow> 'j \<Rightarrow> exn + feed_event" where
  "binance_trade L payload price qty =
     and_then (stod_of L price) (\<lambda>p. and_then (stod_of L qty) (\<lambda>q. and_then (jl_value_bool L ''m'' False payload) (\<lambda>m.
       Inr (Ev_Trade (mk_TradeFlow\<lparr>tf_last_trade_price := p, tf_last_trade_size := q,
         tf_trade_direction := (if m then 1 else 0)\<rparr>)))))"

definition binance_trades :: "'j json_lib \<Rightarrow> 'j \<Rightarrow> feed_event list" where
  "binance_trades L payload = (case (jl_find L ''p'' payload, jl_find L ''q'' payload) of
     (Some price, Some qty) \<Rightarrow> (case catching (binance_trade L payload price qty) of None \<Rightarrow> [] | Some e \<Rightarrow> [e])
   | _ \<Rightarrow> [])"

text \<open>A depth update that was parsed: buffered, outdated, rejected or applied.\<close>

definition binance_take_delta :: "int \<Rightarrow> BufferedDelta \<Rightarrow> BinanceFeedHandler \<Rightarrow> Result \<times> BinanceFeedHandler" where
  "binance_take_delta now d h =
     (if bn_state h = BUFFERING then
        if length (bn_delta_buffer h) \<ge> BINANCE_MAX_BUFFER_SIZE
        then (ERROR_CONNECTION_LOST, binance_trigger_resnapshot ''buffer_overflow'' h)
        else (SUCCESS, h\<lparr>bn_delta_buffer := bn_delta_buffer h @ [d],
          bn_buffer_high_water_mark := max (bn_buffer_high_water_mark h) (length (bn_delta_buffer h) + 1)\<rparr>)
      else if bd_last_update_id d \<le> bn_last_sequence h then (SUCCESS, h)
      else if \<not> binance_validate_delta_sequence (bd_first_update_id d) (bd_last_update_id d) h
      then (ERROR_SEQUENCE_GAP, binance_trigger_resnapshot ''sequence_gap'' h)
      else binance_apply_delta now d h)"

definition binance_payload :: "'j json_lib \<Rightarrow> 'j \<Rightarrow> 'j" where
  "binance_payload L json = (case jl_find L ''data'' json of None \<Rightarrow> json
     | Some d \<Rightarrow> if jl_is_object L d then d else json)"

definition binance_process_message :: "'j json_lib \<Rightarrow> int \<Rightarrow> string \<Rightarrow> BinanceFeedHandler \<Rightarrow> exn + Result \<times> BinanceFeedHandler" where
  "binance_process_message L now message h =
     (let json = jl_parse L message in
      if jl_is_discarded L json then Inr (SUCCESS, h)
      else
        let payload = binance_payload L json in
        case string_at L ''e'' payload of
          None \<Rightarrow> Inr (SUCCESS, h)
        | Some e \<Rightarrow> and_then (jl_string L e) (\<lambda>event_type.
            if event_type = ''aggTrade'' then Inr (SUCCESS, h\<lparr>bn_events := bn_events h @ binance_trades L payload\<rparr>)
            else if event_type \<noteq> ''depthUpdate'' then Inr (SUCCESS, h)
            else and_then (parse_delta_message L payload) (\<lambda>p. case p of
                Inl r \<Rightarrow> Inr (r, h)
              | Inr d \<Rightarrow> Inr (binance_take_delta now d h))))"

text \<open>\<open>process_snapshot\<close> after the response has arrived, \<open>latency\<close> milliseconds later.\<close>

definition binance_process_snapshot :: "'j json_lib \<Rightarrow> int \<Rightarrow> u64 \<Rightarrow> HttpResponse \<Rightarrow> BinanceFeedHandler \<Rightarrow>
    exn + Result \<times> BinanceFeedHandler" where
  "binance_process_snapshot L now latency resp h =
     (let h = h\<lparr>bn_snapshot_latency_ms := latency\<rparr> in
      if hr_status resp = 429 \<or> hr_status resp = 418 then Inr (ERROR_CONNECTION_LOST, h)
      else if \<not> http_ok resp \<or> hr_body resp = [] then Inr (ERROR_CONNECTION_LOST, h)
      else let json = jl_parse L (hr_body resp) in
        if jl_is_discarded L json then Inr (ERROR_BOOK_CORRUPTED, h)
        else case unsigned_at L ''lastUpdateId'' json of
          None \<Rightarrow> Inr (ERROR_BOOK_CORRUPTED, h)
        | Some lid \<Rightarrow>
            and_then (jl_u64 L lid) (\<lambda>seq.
            and_then (level_array L ''bids'' json) (\<lambda>b.
            and_then (level_array L ''asks'' json) (\<lambda>a.
            and_then (case unsigned_at L ''checksum'' json of None \<Rightarrow> Inr None
                      | Some c \<Rightarrow> and_then (jl_u64 L c) (\<lambda>n. Inr (Some (ucast n :: u32)))) (\<lambda>checksum.
              let bids = binance_parse_levels L b; asks = binance_parse_levels L a;
                  snap = mk_Snapshot\<lparr>sn_symbol := bn_symbol h, sn_exchange := BINANCE,
                    sn_timestamp_local_ns := now, sn_sequence := seq, sn_bids := bids, sn_asks := asks,
                    sn_checksum := (case checksum of None \<Rightarrow> 0 | Some c \<Rightarrow> c),
                    sn_checksum_present := checksum \<noteq> None\<rparr>
              in if sn_checksum_present snap \<and> binance_snapshot_checksum bids asks \<noteq> sn_checksum snap
                 then Inr (ERROR_BOOK_CORRUPTED, h)
                 else if bids = [] \<or> asks = [] then Inr (ERROR_BOOK_CORRUPTED, h)
                 else Inr (SUCCESS, h\<lparr>bn_last_sequence := seq, bn_events := bn_events h @ [Ev_Snapshot snap]\<rparr>))))))"

text \<open>
  The event loop between the establishment of a connection and the streaming state: it asks for
  snapshots until one reaches the head of the buffer, then replays the buffer. The list holds the answers
  to these requests. No message arrives meanwhile, because the loop does not serve the socket.
\<close>

fun binance_synchronise :: "'j json_lib \<Rightarrow> int \<Rightarrow> (u64 \<times> HttpResponse) list \<Rightarrow> BinanceFeedHandler \<Rightarrow>
    exn + bool \<times> BinanceFeedHandler" where
  "binance_synchronise L now [] h = Inr (False, h)"
| "binance_synchronise L now ((latency, resp) # rs) h =
     and_then (binance_process_snapshot L now latency resp h) (\<lambda>(r, h).
       if r \<noteq> SUCCESS then Inr (False, h)
       else if bn_delta_buffer h = [] \<or> bn_last_sequence h \<ge> bd_first_update_id (hd (bn_delta_buffer h))
       then (case binance_apply_buffered_deltas now (bn_last_sequence h) h of (r, h) \<Rightarrow>
               if r \<noteq> SUCCESS then Inr (False, h) else Inr (True, h\<lparr>bn_state := STREAMING\<rparr>))
       else binance_synchronise L now rs h)"

definition binance_established :: "BinanceFeedHandler \<Rightarrow> BinanceFeedHandler" where
  "binance_established h = h\<lparr>bn_state := BUFFERING, bn_delta_buffer := []\<rparr>"

definition binance_stop :: "BinanceFeedHandler \<Rightarrow> BinanceFeedHandler" where
  "binance_stop h = h\<lparr>bn_running := False, bn_reconnect_requested := False, bn_state := DISCONNECTED\<rparr>"

text \<open>\<open>fetch_tick_size\<close>: the tick size of the price filter of the first symbol.\<close>

fun find_price_filter :: "'j json_lib \<Rightarrow> 'j list \<Rightarrow> exn + string option" where
  "find_price_filter L [] = Inr None"
| "find_price_filter L (f # fs) =
     and_then (jl_value_string L ''filterType'' [] f) (\<lambda>t.
       if t = ''PRICE_FILTER'' then
         and_then (jl_value_string L ''tickSize'' [] f) (\<lambda>ts. Inr (if ts = [] then None else Some ts))
       else find_price_filter L fs)"

definition binance_fetch_tick_size :: "'j json_lib \<Rightarrow> (int \<Rightarrow> double) \<Rightarrow> HttpResponse \<Rightarrow> BinanceFeedHandler \<Rightarrow>
    exn + Result \<times> BinanceFeedHandler" where
  "binance_fetch_tick_size L pow10 resp h =
     (if \<not> http_ok resp \<or> hr_body resp = [] then Inr (ERROR_CONNECTION_LOST, h)
      else let json = jl_parse L (hr_body resp) in
        if jl_is_discarded L json then Inr (ERROR_BOOK_CORRUPTED, h)
        else case array_at L ''symbols'' json of
          Some (s # _) \<Rightarrow>
            and_then (jl_value L ''filters'' (jl_empty_array L) s) (\<lambda>fs.
            and_then (find_price_filter L (jl_elems L fs)) (\<lambda>found. case found of
                None \<Rightarrow> Inr (ERROR_BOOK_CORRUPTED, h)
              | Some ts \<Rightarrow> and_then (lift_std (tick_from_string pow10 ts)) (\<lambda>tick.
                  Inr (SUCCESS, h\<lparr>bn_tick_size := tick\<rparr>))))
        | _ \<Rightarrow> Inr (ERROR_BOOK_CORRUPTED, h))"

text \<open>
  The futures handler (\<^verbatim>\<open>binance_futures_feed_handler.cpp\<close>) passes on the mark price of a message if it is
  positive; every exception is caught.
\<close>

definition futures_mark_price :: "'j json_lib \<Rightarrow> string \<Rightarrow> double option" where
  "futures_mark_price L message =
     (let json = jl_parse L message in
      if jl_is_discarded L json then None
      else case string_at L ''p'' json of
        None \<Rightarrow> None
      | Some p \<Rightarrow> (case catching (stod_of L p) of
          Some price \<Rightarrow> if price > 0 then Some price else None | None \<Rightarrow> None))"

lemma futures_mark_price_positive: "futures_mark_price L m = Some p \<Longrightarrow> p > 0"
  by (auto simp: futures_mark_price_def Let_def split: option.splits if_splits)

text \<open>A checksum that the feed accepts is also accepted by the order book.\<close>

lemma binance_checksum_agrees:
  "binance_snapshot_checksum (sn_bids s) (sn_asks s) = compute_snapshot_checksum s"
proof -
  have h: "binance_hash_level = (\<lambda>level hash. fnv1a_bytes (double_bytes (pl_size level))
      (fnv1a_bytes (double_bytes (pl_price level)) hash))"
    by (simp add: fun_eq_iff binance_hash_level_def binance_fnv1a_bytes_def fnv1a_bytes_def)
  show ?thesis by (simp add: binance_snapshot_checksum_def compute_snapshot_checksum_def h)
qed

section \<open>The handoff from a snapshot to the stream\<close>

text \<open>An update continues a sequence that has reached \<open>s\<close>; the longest prefix of updates that do.\<close>

definition continues :: "u64 \<Rightarrow> BufferedDelta \<Rightarrow> bool" where
  "continues s d \<longleftrightarrow> bd_first_update_id d \<le> s + 1 \<and> s + 1 \<le> bd_last_update_id d"

fun linked_prefix :: "u64 \<Rightarrow> BufferedDelta list \<Rightarrow> BufferedDelta list" where
  "linked_prefix s [] = []"
| "linked_prefix s (d # ds) = (if continues s d then d # linked_prefix (bd_last_update_id d) ds else [])"

definition reached :: "u64 \<Rightarrow> BufferedDelta list \<Rightarrow> u64" where
  "reached s ds = fold (\<lambda>d _. bd_last_update_id d) ds s"

definition after_updates :: "int \<Rightarrow> BufferedDelta list \<Rightarrow> BinanceFeedHandler \<Rightarrow> BinanceFeedHandler" where
  "after_updates now ds h = h\<lparr>bn_events := bn_events h @ concat (map (delta_events now) ds),
     bn_last_sequence := reached (bn_last_sequence h) ds\<rparr>"

lemma replay_spec:
  "replay_buffered now ds h =
     (let good = linked_prefix (bn_last_sequence h) ds in
      if good = ds then (SUCCESS, after_updates now ds h)
      else (ERROR_SEQUENCE_GAP, binance_trigger_resnapshot ''buffered_sequence_gap'' (after_updates now good h)))"
  by (induction ds arbitrary: h)
    (simp_all add: after_updates_def reached_def binance_apply_delta_def binance_validate_delta_sequence_def
      continues_def Let_def)

lemma find_bridge_spec:
  "find_bridge s ds i k =
     (case dropWhile (\<lambda>d. bd_last_update_id d \<le> s) ds of
        [] \<Rightarrow> Inr (None, k + length ds)
      | d # _ \<Rightarrow> let n = length (takeWhile (\<lambda>d. bd_last_update_id d \<le> s) ds) in
          if continues s d then Inr (Some (i + n), k + n) else Inl ())"
  by (induction s ds i k rule: find_bridge.induct)
    (simp_all add: continues_def Let_def split: list.split del: dropWhile_eq_Nil_conv takeWhile_eq_all_conv)

text \<open>
  The handoff from a Binance snapshot to the stream: of the buffered updates the ones that the
  snapshot covers are dropped, and the rest is passed on, in order and each exactly once, as
  long as every update continues the sequence ids. If all of them do, the handoff succeeds, at the
  last id and with an empty buffer; at the first one that does not, the handler drops the buffer
  and asks for a new connection, with the error that tells which of the two happened.
\<close>

theorem binance_handoff:
  "binance_apply_buffered_deltas now (bn_last_sequence h) h =
     (let buf = bn_delta_buffer h;
          rest = dropWhile (\<lambda>d. bd_last_update_id d \<le> bn_last_sequence h) buf;
          good = linked_prefix (bn_last_sequence h) rest
      in if good = rest
         then (SUCCESS, (after_updates now rest h)\<lparr>
           bn_buffered_applied := bn_buffered_applied h + of_nat (length rest),
           bn_buffered_skipped := bn_buffered_skipped h + of_nat (length buf - length rest), bn_delta_buffer := []\<rparr>)
         else (ERROR_SEQUENCE_GAP, binance_trigger_resnapshot
           (if good = [] then ''snapshot_handoff_gap'' else ''buffered_sequence_gap'') (after_updates now good h)))"
proof -
  let ?out = "\<lambda>d. bd_last_update_id d \<le> bn_last_sequence h" and ?buf = "bn_delta_buffer h"
  have split: "drop (length (takeWhile ?out ?buf)) ?buf = dropWhile ?out ?buf"
    by (simp add: dropWhile_eq_drop)
  have "length (takeWhile ?out ?buf) + length (dropWhile ?out ?buf) = length ?buf"
    unfolding length_append[symmetric] by simp
  then have len: "length ?buf - length (dropWhile ?out ?buf) = length (takeWhile ?out ?buf)"
    "length ?buf - length (takeWhile ?out ?buf) = length (dropWhile ?out ?buf)"
    by linarith+
  show ?thesis
  proof (cases "dropWhile ?out ?buf")
    case Nil
    then show ?thesis
      by (simp add: binance_apply_buffered_deltas_def find_bridge_spec Let_def after_updates_def reached_def
          del: dropWhile_eq_Nil_conv)
  next
    case (Cons d ds)
    show ?thesis
    proof (cases "continues (bn_last_sequence h) d")
      case True
      have "drop (length (takeWhile ?out ?buf)) ?buf = d # ds" using split Cons by simp
      then show ?thesis using Cons True len
        by (simp add: binance_apply_buffered_deltas_def find_bridge_spec Let_def replay_spec after_updates_def
            binance_trigger_resnapshot_def)
    next
      case False
      then show ?thesis using Cons
        by (simp add: binance_apply_buffered_deltas_def find_bridge_spec Let_def after_updates_def reached_def)
    qed
  qed
qed

section \<open>The stream\<close>

text \<open>The depth update that a message carries.\<close>

definition update_of :: "'j json_lib \<Rightarrow> string \<Rightarrow> BufferedDelta option" where
  "update_of L message =
     (let json = jl_parse L message; payload = binance_payload L json in
      if jl_is_discarded L json then None
      else case string_at L ''e'' payload of
        None \<Rightarrow> None
      | Some e \<Rightarrow>
          if jl_string L e = Inr ''depthUpdate''
          then (case parse_delta_message L payload of Inr (Inr d) \<Rightarrow> Some d | _ \<Rightarrow> None) else None)"

text \<open>
  The reference: from the sequence id \<open>s\<close> on, outdated updates are ignored and every other one has to
  continue the ids; \<open>None\<close> is a gap.
\<close>

fun follow :: "u64 \<Rightarrow> (int \<times> BufferedDelta) list \<Rightarrow> (int \<times> BufferedDelta) list option" where
  "follow s [] = Some []"
| "follow s ((t, d) # ds) =
     (if bd_last_update_id d \<le> s then follow s ds
      else if continues s d then map_option (Cons (t, d)) (follow (bd_last_update_id d) ds) else None)"

fun binance_run :: "'j json_lib \<Rightarrow> (int \<times> string) list \<Rightarrow> BinanceFeedHandler \<Rightarrow> exn + BinanceFeedHandler" where
  "binance_run L [] h = Inr h"
| "binance_run L ((now, m) # ms) h = and_then (binance_process_message L now m h) (\<lambda>(_, h'). binance_run L ms h')"

definition updates_of :: "'j json_lib \<Rightarrow> (int \<times> string) list \<Rightarrow> (int \<times> BufferedDelta) list" where
  "updates_of L msgs = List.map_filter (\<lambda>(t, m). map_option (Pair t) (update_of L m)) msgs"

definition is_delta :: "feed_event \<Rightarrow> bool" where
  "is_delta e = (case e of Ev_Delta _ \<Rightarrow> True | _ \<Rightarrow> False)"

lemma filter_delta_events [simp]: "filter is_delta (delta_events t d) = delta_events t d"
  by (auto simp: delta_events_def binance_level_event_def is_delta_def intro!: filter_True)

lemma filter_trades [simp]: "filter is_delta (binance_trades L p) = []"
  by (auto simp: binance_trades_def binance_trade_def is_delta_def catching_def and_then_Inr
      split: option.splits sum.splits)

text \<open>What one message does while the handler streams: its update is taken, anything else is not a delta.\<close>

lemma message_effect:
  assumes "binance_process_message L now m h = Inr (r, h')"
  shows "case update_of L m of
      Some d \<Rightarrow> (r, h') = binance_take_delta now d h
    | None \<Rightarrow> bn_state h' = bn_state h \<and> bn_last_sequence h' = bn_last_sequence h \<and>
        bn_reconnect_requested h' = bn_reconnect_requested h \<and> filter is_delta (bn_events h') = filter is_delta (bn_events h)"
proof (cases "jl_is_discarded L (jl_parse L m) \<or> string_at L ''e'' (binance_payload L (jl_parse L m)) = None")
  case True
  then show ?thesis using assms by (auto simp: binance_process_message_def update_of_def Let_def)
next
  case False
  then obtain e where e: "\<not> jl_is_discarded L (jl_parse L m)"
    "string_at L ''e'' (binance_payload L (jl_parse L m)) = Some e" by auto
  then obtain kind where kind: "jl_string L e = Inr kind"
    using assms by (auto simp: binance_process_message_def Let_def and_then_Inr)
  show ?thesis
  proof (cases "kind = ''depthUpdate''")
    case True
    then obtain p where p: "parse_delta_message L (binance_payload L (jl_parse L m)) = Inr p"
      using assms e kind by (auto simp: binance_process_message_def Let_def and_then_Inr)
    then show ?thesis using assms e kind True
      by (cases p) (simp_all add: binance_process_message_def update_of_def Let_def)
  qed (use assms e kind in \<open>auto simp: binance_process_message_def update_of_def Let_def split: if_splits\<close>)
qed

text \<open>A handler that buffers does not get to streaming by messages, and emits no delta.\<close>

lemma buffering_run:
  "binance_run L msgs h = Inr h' \<Longrightarrow> bn_state h = BUFFERING \<Longrightarrow>
   bn_state h' = BUFFERING \<and> filter is_delta (bn_events h') = filter is_delta (bn_events h) \<and>
   (bn_reconnect_requested h \<longrightarrow> bn_reconnect_requested h')"
proof (induction L msgs h rule: binance_run.induct)
  case (2 L now m ms h)
  then obtain r h1 where h1: "binance_process_message L now m h = Inr (r, h1)" "binance_run L ms h1 = Inr h'"
    by (auto simp: and_then_Inr)
  have "bn_state h1 = BUFFERING \<and> filter is_delta (bn_events h1) = filter is_delta (bn_events h) \<and>
      (bn_reconnect_requested h \<longrightarrow> bn_reconnect_requested h1)"
    using message_effect[OF h1(1)] 2(3)
    by (auto simp: binance_take_delta_def binance_trigger_resnapshot_def is_delta_def split: option.splits if_splits)
  with 2(1)[OF h1(2)] show ?case by auto
qed simp


definition binance_sample_json :: "(string \<times> json) list" where
  "binance_sample_json =
    (let upd = (\<lambda>U u p s. JObject [(''e'', JString ''depthUpdate''), (''U'', JUint U), (''u'', JUint u),
           (''b'', JArray [JArray [JString p, JString s]])])
     in [(''old'', upd 3 5 ''9'' ''9''), (''next'', upd 5 8 ''1'' ''2''), (''gap'', upd 11 12 ''1'' ''0''),
         (''trade'', JObject [(''data'', JObject [(''e'', JString ''aggTrade''), (''p'', JString ''1''), (''q'', JString ''2'')])])])"

abbreviation binance_sample_start :: BinanceFeedHandler where
  "binance_sample_start \<equiv> (binance_init ''X'')\<lparr>bn_state := STREAMING, bn_last_sequence := 6\<rparr>"

abbreviation binance_sample_run :: "string list \<Rightarrow> exn + BinanceFeedHandler" where
  "binance_sample_run ms \<equiv> binance_run (table_json binance_sample_json) (map (Pair 1) ms) binance_sample_start"

lemma binance_sample_runs:
  "(case binance_sample_run [''old'', ''trade'', ''next''] of Inl _ \<Rightarrow> False | Inr h \<Rightarrow> True)"
  "(case binance_sample_run [''next'', ''gap''] of Inl _ \<Rightarrow> False | Inr h \<Rightarrow> True)"
  by code_simp+

lemma binance_sample_follow:
  "map_option (map (\<lambda>(t, d). delta_events t d)) (follow 6 (updates_of (table_json binance_sample_json) (map (Pair 1) [''old'', ''trade'', ''next'']))) =
     Some [[Ev_Delta (mk_Delta\<lparr>dl_side := BID, dl_price := Fin 1, dl_size := Fin 2, dl_sequence := 8, dl_timestamp_local_ns := 1\<rparr>)]]"
  "follow 6 (updates_of (table_json binance_sample_json) (map (Pair 1) [''next'', ''gap''])) = None"
  by code_simp+


section \<open>The connection\<close>

text \<open>The path is made of the symbol; the one in the address is ignored.\<close>

definition binance_ws_address :: "string \<Rightarrow> string \<Rightarrow> std_error + string \<times> int \<times> string" where
  "binance_ws_address symbol url =
     (let low = map to_lower symbol
      in case parse_ws_url ''stream.binance.com'' 9443 [] url of Inl e \<Rightarrow> Inl e
         | Inr (host, port, _) \<Rightarrow> Inr (host, port, ''/stream?streams='' @ low @ ''@depth@100ms/'' @ low @ ''@aggTrade''))"

definition binance_receive :: "string \<Rightarrow> bool \<Rightarrow> string \<Rightarrow> string \<times> string option" where
  "binance_receive = receive_fragment 131072"

definition futures_ws_address :: "string \<Rightarrow> string \<Rightarrow> std_error + string \<times> int \<times> string" where
  "futures_ws_address futures_symbol url =
     (case parse_ws_url ''fstream.binance.com'' 443 [] url of Inl e \<Rightarrow> Inl e
      | Inr (host, port, _) \<Rightarrow> Inr (host, port, ''/ws/'' @ futures_symbol @ ''@markPrice''))"

definition futures_receive :: "string \<Rightarrow> bool \<Rightarrow> string \<Rightarrow> string \<times> string option" where
  "futures_receive = receive_fragment 65536"

end
