(* ===== verification/Coinbase_Feed.thy ===== *)
theory Coinbase_Feed
  imports Feed_Common
begin

text \<open>
  \<^verbatim>\<open>core/feeds/coinbase/coinbase_feed_handler.cpp\<close>. Every message of the level 2 channel carries a number
  that has to be one more than the last one. The handler also watches the heartbeats of the
  connection. As in \<open>Okx_Feed\<close> the callbacks are the list \<open>cn_events\<close>. The C library's reading of a
  date and \<open>std::sort\<close>, which leaves the order of equal prices open, are arguments.
\<close>

section \<open>State and parsing\<close>

record CoinbaseFeedHandler =
  cn_symbol :: string
  cn_tick_size :: double
  cn_running :: bool
  cn_last_sequence :: u64
  cn_state :: feed_state
  cn_reconnect_requested :: bool
  cn_last_heartbeat_ns :: int
  cn_last_event_time_exchange_ns :: int
  cn_auth_rejected :: bool
  cn_subscription_rejected :: bool
  cn_last_start_failure_reason :: string
  cn_delta_buffer :: "string list"
  cn_events :: "feed_event list"

definition coinbase_init :: "string \<Rightarrow> CoinbaseFeedHandler" where
  "coinbase_init symbol = \<lparr>cn_symbol = symbol, cn_tick_size = 0, cn_running = False, cn_last_sequence = 0,
     cn_state = DISCONNECTED, cn_reconnect_requested = False, cn_last_heartbeat_ns = 0,
     cn_last_event_time_exchange_ns = 0, cn_auth_rejected = False, cn_subscription_rejected = False,
     cn_last_start_failure_reason = [], cn_delta_buffer = [], cn_events = []\<rparr>"

definition COINBASE_MAX_BUFFER_SIZE :: nat where "COINBASE_MAX_BUFFER_SIZE = 1000"

definition coinbase_trigger_resnapshot :: "string \<Rightarrow> CoinbaseFeedHandler \<Rightarrow> CoinbaseFeedHandler" where
  "coinbase_trigger_resnapshot reason h = h\<lparr>cn_events := cn_events h @ [Ev_Error (''Re-sync: '' @ reason)],
     cn_delta_buffer := [], cn_state := BUFFERING, cn_reconnect_requested := True\<rparr>"

text \<open>
  \<open>read_time\<close> is \<open>std::get_time\<close> with the format of the first 19 characters followed by \<open>timegm\<close>, in
  seconds; \<open>None\<close> when the text is no such date.
\<close>

definition nanos_of_digits :: "string \<Rightarrow> int" where
  "nanos_of_digits s = (let ds = take 9 (takeWhile is_digit s) in int_of_digits ds * 10 ^ (9 - length ds))"

definition parse_rfc3339_ns :: "(string \<Rightarrow> int option) \<Rightarrow> string \<Rightarrow> int" where
  "parse_rfc3339_ns read_time s =
     (if length s < 20 then 0
      else case read_time (take 19 s) of
        None \<Rightarrow> 0
      | Some seconds \<Rightarrow>
          let nanos = (if s ! 19 = CHR ''.'' then nanos_of_digits (drop 20 s) else 0)
          in if seconds < 0 then 0 else seconds * 1000000000 + nanos)"

text \<open>The time of the first event that has one.\<close>

fun event_time_ns :: "'j json_lib \<Rightarrow> (string \<Rightarrow> int option) \<Rightarrow> 'j list \<Rightarrow> exn + int" where
  "event_time_ns L rt [] = Inr 0"
| "event_time_ns L rt (e # es) =
     (case string_at L ''event_time'' e of
        Some t \<Rightarrow> and_then (jl_string L t) (\<lambda>s. Inr (parse_rfc3339_ns rt s))
      | None \<Rightarrow> (case string_at L ''current_time'' e of
          Some t \<Rightarrow> and_then (jl_string L t) (\<lambda>s. Inr (parse_rfc3339_ns rt s))
        | None \<Rightarrow> event_time_ns L rt es))"

definition extract_exchange_timestamp_ns :: "'j json_lib \<Rightarrow> (string \<Rightarrow> int option) \<Rightarrow> 'j \<Rightarrow> exn + int" where
  "extract_exchange_timestamp_ns L rt json =
     (case string_at L ''timestamp'' json of
        Some t \<Rightarrow> and_then (jl_string L t) (\<lambda>s. Inr (parse_rfc3339_ns rt s))
      | None \<Rightarrow> event_time_ns L rt (case array_at L ''events'' json of None \<Rightarrow> [] | Some es \<Rightarrow> es))"

text \<open>The elements of an array that every event may have.\<close>

definition within_events :: "'j json_lib \<Rightarrow> string \<Rightarrow> 'j list \<Rightarrow> 'j list" where
  "within_events L key events =
     concat (map (\<lambda>e. case array_at L key e of None \<Rightarrow> [] | Some us \<Rightarrow> us) events)"

text \<open>Side, price and quantity of an update; one without the fields or with unreadable ones is skipped.\<close>

definition coinbase_level :: "'j json_lib \<Rightarrow> 'j \<Rightarrow> (string \<times> double \<times> double) option" where
  "coinbase_level L upd =
     (case (jl_find L ''side'' upd, jl_find L ''price_level'' upd, jl_find L ''new_quantity'' upd) of
        (Some side, Some px, Some qty) \<Rightarrow>
          catching (and_then (stod_of L px) (\<lambda>p. and_then (stod_of L qty) (\<lambda>q.
            and_then (jl_string L side) (\<lambda>s. Inr (s, p, q)))))
      | _ \<Rightarrow> None)"

definition coinbase_levels :: "'j json_lib \<Rightarrow> 'j list \<Rightarrow> (string \<times> double \<times> double) list" where
  "coinbase_levels L events = List.map_filter (coinbase_level L) (within_events L ''updates'' events)"

section \<open>Snapshots and updates\<close>

type_synonym level_sort = "(PriceLevel \<Rightarrow> PriceLevel \<Rightarrow> bool) \<Rightarrow> PriceLevel list \<Rightarrow> PriceLevel list"

definition coinbase_process_snapshot :: "'j json_lib \<Rightarrow> (string \<Rightarrow> int option) \<Rightarrow> level_sort \<Rightarrow> int \<Rightarrow> 'j \<Rightarrow> u64 \<Rightarrow>
    CoinbaseFeedHandler \<Rightarrow> exn + Result \<times> CoinbaseFeedHandler" where
  "coinbase_process_snapshot L rt std_sort now json seq h =
     and_then (extract_exchange_timestamp_ns L rt json) (\<lambda>ts.
       case array_at L ''events'' json of
         None \<Rightarrow> Inr (ERROR_BOOK_CORRUPTED, h)
       | Some events \<Rightarrow>
           let ls = coinbase_levels L events;
               bids = map (\<lambda>(_, p, q). mk_PriceLevel p q 0) (filter (\<lambda>l. fst l = ''bid'') ls);
               asks = map (\<lambda>(_, p, q). mk_PriceLevel p q 0) (filter (\<lambda>l. fst l = ''offer'' \<or> fst l = ''ask'') ls);
               snap = mk_Snapshot\<lparr>sn_symbol := cn_symbol h, sn_exchange := COINBASE, sn_sequence := seq,
                 sn_timestamp_local_ns := now, sn_timestamp_exchange_ns := ts,
                 sn_bids := std_sort (\<lambda>a b. pl_price a > pl_price b) bids,
                 sn_asks := std_sort (\<lambda>a b. pl_price a < pl_price b) asks\<rparr>
           in if bids = [] \<or> asks = [] then Inr (ERROR_BOOK_CORRUPTED, h)
              else Inr (SUCCESS, h\<lparr>cn_last_sequence := seq, cn_last_event_time_exchange_ns := ts,
                cn_events := cn_events h @ [Ev_Snapshot snap]\<rparr>))"

definition coinbase_delta :: "int \<Rightarrow> int \<Rightarrow> u64 \<Rightarrow> string \<times> double \<times> double \<Rightarrow> feed_event" where
  "coinbase_delta now ts seq l = (case l of (side, p, q) \<Rightarrow>
     Ev_Delta \<lparr>dl_side = (if side = ''bid'' then BID else ASK), dl_price = p, dl_size = q, dl_order_count = 0,
       dl_sequence = seq, dl_timestamp_exchange_ns = ts, dl_timestamp_local_ns = now\<rparr>)"

definition coinbase_process_delta :: "'j json_lib \<Rightarrow> (string \<Rightarrow> int option) \<Rightarrow> int \<Rightarrow> 'j \<Rightarrow> u64 \<Rightarrow>
    CoinbaseFeedHandler \<Rightarrow> exn + Result \<times> CoinbaseFeedHandler" where
  "coinbase_process_delta L rt now json seq h =
     and_then (extract_exchange_timestamp_ns L rt json) (\<lambda>ts.
       let h = h\<lparr>cn_last_sequence := seq, cn_last_event_time_exchange_ns := ts\<rparr>
       in Inr (SUCCESS, case array_at L ''events'' json of
         None \<Rightarrow> h
       | Some events \<Rightarrow> h\<lparr>cn_events := cn_events h @ map (coinbase_delta now ts seq) (coinbase_levels L events)\<rparr>))"

fun coinbase_replay :: "'j json_lib \<Rightarrow> (string \<Rightarrow> int option) \<Rightarrow> int \<Rightarrow> string list \<Rightarrow> CoinbaseFeedHandler \<Rightarrow>
    exn + Result \<times> CoinbaseFeedHandler" where
  "coinbase_replay L rt now [] h = Inr (SUCCESS, h\<lparr>cn_delta_buffer := []\<rparr>)"
| "coinbase_replay L rt now (m # ms) h =
     (let json = jl_parse L m in
      if jl_is_discarded L json then coinbase_replay L rt now ms h
      else and_then (seq_field L ''sequence_num'' json) (\<lambda>seq.
        if seq \<le> cn_last_sequence h then coinbase_replay L rt now ms h
        else if seq \<noteq> cn_last_sequence h + 1 then Inr (ERROR_SEQUENCE_GAP, h\<lparr>cn_delta_buffer := []\<rparr>)
        else and_then (coinbase_process_delta L rt now json seq h) (\<lambda>(_, h'). coinbase_replay L rt now ms h')))"

definition coinbase_apply_buffered_deltas :: "'j json_lib \<Rightarrow> (string \<Rightarrow> int option) \<Rightarrow> int \<Rightarrow> CoinbaseFeedHandler \<Rightarrow>
    exn + Result \<times> CoinbaseFeedHandler" where
  "coinbase_apply_buffered_deltas L rt now h = coinbase_replay L rt now (cn_delta_buffer h) h"

definition coinbase_validate_delta_sequence :: "u64 \<Rightarrow> CoinbaseFeedHandler \<Rightarrow> bool" where
  "coinbase_validate_delta_sequence seq h \<longleftrightarrow> seq = cn_last_sequence h + 1"

section \<open>Messages\<close>

definition coinbase_trade :: "'j json_lib \<Rightarrow> 'j \<Rightarrow> feed_event option" where
  "coinbase_trade L t =
     (case (jl_find L ''price'' t, jl_find L ''size'' t) of
        (Some price, Some sz) \<Rightarrow>
          catching (and_then (stod_of L price) (\<lambda>p. and_then (stod_of L sz) (\<lambda>s.
            and_then (jl_value_string L ''side'' [] t) (\<lambda>side.
              Inr (Ev_Trade (mk_TradeFlow\<lparr>tf_last_trade_price := p, tf_last_trade_size := s,
                tf_trade_direction := (if side = ''BUY'' then 0 else if side = ''SELL'' then 1
                  else tf_trade_direction mk_TradeFlow)\<rparr>))))))
      | _ \<Rightarrow> None)"

text \<open>An error message: the venue refuses the credentials or the subscription, and the handler stops.\<close>

definition mentions :: "string \<Rightarrow> string \<Rightarrow> bool" where
  "mentions pat s \<longleftrightarrow> find_str pat s \<noteq> None"

definition coinbase_rejected :: "string \<Rightarrow> CoinbaseFeedHandler \<Rightarrow> CoinbaseFeedHandler" where
  "coinbase_rejected reason h =
     (let lower = map to_lower reason;
          auth = mentions ''auth'' lower \<or> mentions ''jwt'' lower \<or> mentions ''signature'' lower;
          why = (if auth then ''authentication rejected: '' else ''subscription rejected: '') @ reason
      in h\<lparr>cn_auth_rejected := cn_auth_rejected h \<or> auth,
           cn_subscription_rejected := cn_subscription_rejected h \<or> \<not> auth,
           cn_last_start_failure_reason := why, cn_running := False, cn_events := cn_events h @ [Ev_Error why]\<rparr>)"

definition has_snapshot :: "'j json_lib \<Rightarrow> 'j \<Rightarrow> bool" where
  "has_snapshot L json = (case array_at L ''events'' json of
     None \<Rightarrow> False
   | Some events \<Rightarrow> list_ex (\<lambda>e. case string_at L ''type'' e of
       None \<Rightarrow> False | Some t \<Rightarrow> jl_string L t = Inr ''snapshot'') events)"

text \<open>The part of \<open>process_message\<close> that follows the tests of the channel.\<close>

definition coinbase_level2_message :: "'j json_lib \<Rightarrow> (string \<Rightarrow> int option) \<Rightarrow> level_sort \<Rightarrow> int \<Rightarrow> string \<Rightarrow> 'j \<Rightarrow>
    CoinbaseFeedHandler \<Rightarrow> exn + Result \<times> CoinbaseFeedHandler" where
  "coinbase_level2_message L rt std_sort now message json h =
     and_then (seq_field L ''sequence_num'' json) (\<lambda>seq.
       if has_snapshot L json then
         and_then (coinbase_process_snapshot L rt std_sort now json seq h) (\<lambda>(r, h).
           if r \<noteq> SUCCESS
           then Inr (r, coinbase_trigger_resnapshot ''Invalid Coinbase snapshot''
             (h\<lparr>cn_last_start_failure_reason := ''invalid snapshot payload''\<rparr>))
           else and_then (coinbase_apply_buffered_deltas L rt now h) (\<lambda>(r, h).
             if r \<noteq> SUCCESS
             then Inr (ERROR_SEQUENCE_GAP, coinbase_trigger_resnapshot ''Buffered Coinbase deltas invalid after snapshot''
               (h\<lparr>cn_last_start_failure_reason := ''buffered delta replay failed''\<rparr>))
             else Inr (SUCCESS, h\<lparr>cn_state := STREAMING\<rparr>)))
       else if cn_state h = BUFFERING \<or> cn_state h = DISCONNECTED then
         Inr (SUCCESS, if length (cn_delta_buffer h) < COINBASE_MAX_BUFFER_SIZE
           then h\<lparr>cn_delta_buffer := cn_delta_buffer h @ [message]\<rparr>
           else coinbase_trigger_resnapshot ''Buffer overflow''
             (h\<lparr>cn_last_start_failure_reason := ''buffer overflow before snapshot''\<rparr>))
       else if \<not> coinbase_validate_delta_sequence seq h
       then Inr (ERROR_SEQUENCE_GAP, coinbase_trigger_resnapshot ''Coinbase sequence gap''
         (h\<lparr>cn_last_start_failure_reason := ''sequence gap resync''\<rparr>))
       else coinbase_process_delta L rt now json seq h)"

definition coinbase_process_message :: "'j json_lib \<Rightarrow> (string \<Rightarrow> int option) \<Rightarrow> level_sort \<Rightarrow> int \<Rightarrow> string \<Rightarrow>
    CoinbaseFeedHandler \<Rightarrow> exn + Result \<times> CoinbaseFeedHandler" where
  "coinbase_process_message L rt std_sort now message h =
     (let json = jl_parse L message in
      if jl_is_discarded L json then Inr (SUCCESS, h)
      else and_then (case string_at L ''type'' json of None \<Rightarrow> Inr [] | Some t \<Rightarrow> jl_string L t) (\<lambda>type.
        if type = ''error'' then
          and_then (jl_value_string L ''message'' ''unknown error'' json) (\<lambda>reason.
            Inr (ERROR_CONNECTION_LOST, coinbase_rejected reason h))
        else case string_at L ''channel'' json of
          None \<Rightarrow> Inr (SUCCESS, h)
        | Some ch \<Rightarrow> and_then (jl_string L ch) (\<lambda>channel.
            if channel = ''subscriptions'' then Inr (SUCCESS, h)
            else if channel = ''heartbeats'' then
              and_then (extract_exchange_timestamp_ns L rt json) (\<lambda>ts.
                let h = h\<lparr>cn_last_heartbeat_ns := now\<rparr>
                in Inr (SUCCESS, if ts > 0 then h\<lparr>cn_last_event_time_exchange_ns := ts\<rparr> else h))
            else if channel = ''market_trades'' then
              Inr (SUCCESS, case array_at L ''events'' json of
                None \<Rightarrow> h
              | Some events \<Rightarrow> h\<lparr>cn_events := cn_events h @
                  List.map_filter (coinbase_trade L) (within_events L ''trades'' events)\<rparr>)
            else if channel \<noteq> ''l2_data'' then Inr (SUCCESS, h)
            else coinbase_level2_message L rt std_sort now message json h)))"

section \<open>Starting, stopping and the supervision of a connection\<close>

text \<open>What \<open>start()\<close> sets before it starts the thread, and \<open>stop()\<close>.\<close>

definition coinbase_start :: "CoinbaseFeedHandler \<Rightarrow> CoinbaseFeedHandler" where
  "coinbase_start h = h\<lparr>cn_running := True, cn_state := BUFFERING, cn_last_sequence := 0, cn_last_heartbeat_ns := 0,
     cn_last_event_time_exchange_ns := 0, cn_last_start_failure_reason := ''timeout waiting for snapshot'',
     cn_delta_buffer := [], cn_reconnect_requested := False, cn_auth_rejected := False,
     cn_subscription_rejected := False\<rparr>"

definition coinbase_stop :: "CoinbaseFeedHandler \<Rightarrow> CoinbaseFeedHandler" where
  "coinbase_stop h = h\<lparr>cn_running := False, cn_state := DISCONNECTED\<rparr>"

text \<open>
  One round of the loop on an established connection, up to the point where the socket is served:
  \<open>True\<close> when it is served, \<open>False\<close> when the loop is left and the handler reconnects.
\<close>

definition k_heartbeat_grace_ns :: int where "k_heartbeat_grace_ns = 5 * 1000000000"

definition coinbase_supervise :: "int \<Rightarrow> CoinbaseFeedHandler \<Rightarrow> bool \<times> CoinbaseFeedHandler" where
  "coinbase_supervise now h =
     (if cn_reconnect_requested h then (False, h\<lparr>cn_reconnect_requested := False\<rparr>)
      else if cn_last_heartbeat_ns h > 0 \<and> now - cn_last_heartbeat_ns h > k_heartbeat_grace_ns
      then (False, coinbase_trigger_resnapshot ''Coinbase heartbeat timeout''
        (h\<lparr>cn_last_start_failure_reason := ''heartbeat timeout''\<rparr>))
      else (True, h))"

definition coinbase_left_loop :: "CoinbaseFeedHandler \<Rightarrow> CoinbaseFeedHandler" where
  "coinbase_left_loop h = h\<lparr>cn_state := BUFFERING\<rparr>"

text \<open>The first round on each of a series of connections, made at the given times.\<close>

fun coinbase_connections :: "int list \<Rightarrow> CoinbaseFeedHandler \<Rightarrow> bool list" where
  "coinbase_connections [] h = []"
| "coinbase_connections (now # ts) h =
     (case coinbase_supervise now h of
        (True, h) \<Rightarrow> [True]
      | (False, h) \<Rightarrow> False # coinbase_connections ts (coinbase_left_loop h))"

definition coinbase_fetch_tick_size :: "'j json_lib \<Rightarrow> (int \<Rightarrow> double) \<Rightarrow> HttpResponse \<Rightarrow> CoinbaseFeedHandler \<Rightarrow>
    exn + Result \<times> CoinbaseFeedHandler" where
  "coinbase_fetch_tick_size L pow10 resp h =
     (if \<not> http_ok resp \<or> hr_body resp = [] then Inr (ERROR_CONNECTION_LOST, h)
      else let json = jl_parse L (hr_body resp) in
        if jl_is_discarded L json then Inr (ERROR_BOOK_CORRUPTED, h)
        else and_then (jl_value_string L ''quote_increment'' [] json) (\<lambda>ts.
          if ts = [] then Inr (ERROR_BOOK_CORRUPTED, h)
          else and_then (lift_std (tick_from_string pow10 ts)) (\<lambda>tick. Inr (SUCCESS, h\<lparr>cn_tick_size := tick\<rparr>))))"

section \<open>Dates\<close>

lemma int_of_digits_bound:
  "list_all is_digit s \<Longrightarrow> 0 \<le> int_of_digits s \<and> int_of_digits s < 10 ^ length s"
proof (induction s rule: rev_induct)
  case (snoc c s)
  have "digit_value c \<le> 9" using snoc.prems by (auto simp: digit_value_def is_digit_def)
  then show ?case using snoc by (simp add: int_of_digits_snoc)
qed (simp add: int_of_digits_def)

text \<open>The fraction of a second is less than a second.\<close>

lemma nanos_bound: "0 \<le> nanos_of_digits s \<and> nanos_of_digits s < 1000000000"
proof -
  let ?ds = "take 9 (takeWhile is_digit s)"
  have d: "list_all is_digit ?ds" by (auto simp: list_all_iff dest: set_takeWhileD in_set_takeD)
  note b = int_of_digits_bound[OF d]
  have l: "length ?ds \<le> 9" by simp
  have "int_of_digits ?ds * 10 ^ (9 - length ?ds) < 10 ^ length ?ds * 10 ^ (9 - length ?ds)"
    using b by (intro mult_strict_right_mono) auto
  also have "(10 :: int) ^ length ?ds * 10 ^ (9 - length ?ds) = 10 ^ 9"
    unfolding power_add[symmetric] using l by (simp only: le_add_diff_inverse)
  finally have "int_of_digits ?ds * 10 ^ (9 - length ?ds) < 1000000000" by simp
  moreover have "0 \<le> int_of_digits ?ds * 10 ^ (9 - length ?ds)" using b by simp
  ultimately show ?thesis unfolding nanos_of_digits_def Let_def by blast
qed

section \<open>Heartbeats\<close>

text \<open>
  After a heartbeat timeout the Coinbase handler never serves a connection again: the time of the
  last heartbeat survives the reconnection, so in the first round on every later connection the
  handler either consumes the request to reconnect or finds the timeout again, and leaves the loop
  before it reads from the socket. Only a heartbeat could end this.
\<close>

theorem heartbeat_timeout_is_final:
  assumes "cn_last_heartbeat_ns h > 0"
    and "list_all (\<lambda>now. now - cn_last_heartbeat_ns h > k_heartbeat_grace_ns) ts"
  shows "coinbase_connections ts h = replicate (length ts) False"
  using assms
proof (induction ts arbitrary: h)
  case (Cons now ts)
  obtain h1 where h1: "coinbase_supervise now h = (False, h1)"
    using Cons.prems by (cases "cn_reconnect_requested h") (simp_all add: coinbase_supervise_def)
  have "cn_last_heartbeat_ns (coinbase_left_loop h1) = cn_last_heartbeat_ns h"
    using h1 by (auto simp: coinbase_supervise_def coinbase_left_loop_def coinbase_trigger_resnapshot_def split: if_splits)
  with Cons show ?case by (simp add: h1)
qed simp

theorem heartbeat_timeout_is_final_witness:
  "coinbase_connections [7000000000, 7000100000, 9000000000, 90000000000] ((coinbase_init ''X'')\<lparr>cn_last_heartbeat_ns := 1000000000\<rparr>) =
   [False, False, False, False]"
  using heartbeat_timeout_is_final[of "(coinbase_init ''X'')\<lparr>cn_last_heartbeat_ns := 1000000000\<rparr>"
      "[7000000000, 7000100000, 9000000000, 90000000000]"]
  by (simp add: k_heartbeat_grace_ns_def)

section \<open>The stream\<close>

text \<open>The level 2 message that a text is, with its number.\<close>

definition level2_of :: "'j json_lib \<Rightarrow> string \<Rightarrow> (u64 \<times> 'j) option" where
  "level2_of L message =
     (let json = jl_parse L message in
      if jl_is_discarded L json then None
      else case (case string_at L ''type'' json of None \<Rightarrow> Inr [] | Some t \<Rightarrow> jl_string L t) of
          Inl _ \<Rightarrow> None
        | Inr type \<Rightarrow>
            if type = ''error'' then None
            else case string_at L ''channel'' json of
              None \<Rightarrow> None
            | Some ch \<Rightarrow> if jl_string L ch = Inr ''l2_data''
                then map_option (\<lambda>n. (n, json)) (catching (seq_field L ''sequence_num'' json)) else None)"

fun coinbase_run :: "'j json_lib \<Rightarrow> (string \<Rightarrow> int option) \<Rightarrow> level_sort \<Rightarrow> (int \<times> string) list \<Rightarrow>
    CoinbaseFeedHandler \<Rightarrow> exn + CoinbaseFeedHandler" where
  "coinbase_run L rt srt [] h = Inr h"
| "coinbase_run L rt srt ((now, m) # ms) h =
     and_then (coinbase_process_message L rt srt now m h) (\<lambda>(_, h'). coinbase_run L rt srt ms h')"

definition coinbase_is_delta :: "feed_event \<Rightarrow> bool" where
  "coinbase_is_delta e = (case e of Ev_Delta _ \<Rightarrow> True | _ \<Rightarrow> False)"

text \<open>The events of the level 2 messages, in order, and the numbers they must have.\<close>

definition level2_events :: "'j json_lib \<Rightarrow> (string \<Rightarrow> int option) \<Rightarrow> int \<Rightarrow> u64 \<times> 'j \<Rightarrow> feed_event list" where
  "level2_events L rt now n =
     (case extract_exchange_timestamp_ns L rt (snd n) of
        Inl _ \<Rightarrow> []
      | Inr ts \<Rightarrow> map (coinbase_delta now ts (fst n)) (coinbase_levels L
          (case array_at L ''events'' (snd n) of None \<Rightarrow> [] | Some es \<Rightarrow> es)))"

fun counts_up :: "u64 \<Rightarrow> u64 list \<Rightarrow> bool" where
  "counts_up s [] \<longleftrightarrow> True"
| "counts_up s (n # ns) \<longleftrightarrow> n = s + 1 \<and> counts_up n ns"

definition numbered :: "'j json_lib \<Rightarrow> (int \<times> string) list \<Rightarrow> (int \<times> u64 \<times> 'j) list" where
  "numbered L msgs = List.map_filter (\<lambda>(t, m). map_option (Pair t) (level2_of L m)) msgs"

lemma rejected_quiet:
  "cn_state (coinbase_rejected reason h) = cn_state h"
  "cn_last_sequence (coinbase_rejected reason h) = cn_last_sequence h"
  "filter coinbase_is_delta (cn_events (coinbase_rejected reason h)) = filter coinbase_is_delta (cn_events h)"
  by (simp_all add: coinbase_rejected_def Let_def coinbase_is_delta_def)

lemma other_message:
  assumes "coinbase_process_message L rt srt now m h = Inr (r, h')" "level2_of L m = None"
  shows "cn_state h' = cn_state h \<and> cn_last_sequence h' = cn_last_sequence h \<and>
    filter coinbase_is_delta (cn_events h') = filter coinbase_is_delta (cn_events h)"
proof -
  have q: "filter coinbase_is_delta (List.map_filter (coinbase_trade L) xs) = []" for xs
    by (induction xs) (auto simp: List.map_filter_simps coinbase_trade_def coinbase_is_delta_def catching_def and_then_Inr
        split: option.splits sum.splits)
  show ?thesis
  proof (cases "jl_is_discarded L (jl_parse L m)")
    case False
    obtain type where t: "(case string_at L ''type'' (jl_parse L m) of None \<Rightarrow> Inr [] | Some t \<Rightarrow> jl_string L t) = Inr type"
      using assms(1) False by (auto simp: coinbase_process_message_def Let_def and_then_Inr)
    show ?thesis
    proof (cases "type = ''error'' \<or> string_at L ''channel'' (jl_parse L m) = None")
      case True
      then show ?thesis using assms(1) False t
        by (cases "type = ''error''") (auto simp: coinbase_process_message_def Let_def and_then_Inr rejected_quiet)
    next
      case no: False
      then obtain ch channel where ch: "string_at L ''channel'' (jl_parse L m) = Some ch" "jl_string L ch = Inr channel"
        using assms(1) False t by (auto simp: coinbase_process_message_def Let_def and_then_Inr)
      have "channel \<noteq> ''l2_data''"
      proof
        assume c: "channel = ''l2_data''"
        then obtain n where "seq_field L ''sequence_num'' (jl_parse L m) = Inr n"
          using assms(1) False t no ch
          by (auto simp: coinbase_process_message_def coinbase_level2_message_def Let_def and_then_Inr)
        then show False using assms(2) False t no ch c
          by (auto simp: level2_of_def Let_def split: option.splits)
      qed
      then show ?thesis using assms(1) False t no ch
        by (auto simp: coinbase_process_message_def Let_def and_then_Inr q split: if_splits option.splits)
    qed
  qed (use assms in \<open>auto simp: coinbase_process_message_def\<close>)
qed

lemma level2_message:
  assumes "coinbase_process_message L rt srt now m h = Inr (r, h')" "level2_of L m = Some (n, json)"
  shows "json = jl_parse L m \<and> seq_field L ''sequence_num'' json = Inr n \<and>
    coinbase_level2_message L rt srt now m json h = Inr (r, h')"
proof -
  have d: "\<not> jl_is_discarded L (jl_parse L m)" using assms(2) by (auto simp: level2_of_def Let_def)
  obtain type where t: "(case string_at L ''type'' (jl_parse L m) of None \<Rightarrow> Inr [] | Some t \<Rightarrow> jl_string L t) = Inr type"
    using assms(1) d by (auto simp: coinbase_process_message_def Let_def and_then_Inr)
  with assms(2) d obtain ch where c: "type \<noteq> ''error''" "string_at L ''channel'' (jl_parse L m) = Some ch" "jl_string L ch = Inr ''l2_data''"
    "map_option (\<lambda>n. (n, jl_parse L m)) (catching (seq_field L ''sequence_num'' (jl_parse L m))) = Some (n, json)"
    by (auto simp: level2_of_def Let_def split: if_splits option.splits)
  then have "json = jl_parse L m \<and> seq_field L ''sequence_num'' json = Inr n"
    by (cases "seq_field L ''sequence_num'' (jl_parse L m)") auto
  then show ?thesis using assms(1) d t c by (auto simp: coinbase_process_message_def Let_def)
qed

text \<open>One level 2 message, no snapshot, while the handler streams.\<close>

lemma level2_effect:
  assumes "coinbase_level2_message L rt srt now m json h = Inr (r, h')" "seq_field L ''sequence_num'' json = Inr n"
    and "\<not> has_snapshot L json" "cn_state h = STREAMING"
  shows "if n = cn_last_sequence h + 1
    then cn_state h' = STREAMING \<and> cn_last_sequence h' = n \<and> cn_events h' = cn_events h @ level2_events L rt now (n, json)
    else cn_state h' = BUFFERING"
proof (cases "n = cn_last_sequence h + 1")
  case True
  then obtain ts where ts: "extract_exchange_timestamp_ns L rt json = Inr ts"
    using assms by (auto simp: coinbase_level2_message_def coinbase_process_delta_def coinbase_validate_delta_sequence_def and_then_Inr)
  have w: "coinbase_levels L [] = []" by (simp add: coinbase_levels_def within_events_def List.map_filter_simps)
  show ?thesis using assms True ts
    by (cases "array_at L ''events'' json")
      (auto simp: coinbase_level2_message_def coinbase_process_delta_def coinbase_validate_delta_sequence_def level2_events_def w Let_def)
next
  case False
  then show ?thesis using assms
    by (auto simp: coinbase_level2_message_def coinbase_validate_delta_sequence_def coinbase_trigger_resnapshot_def)
qed

lemma level2_buffering:
  assumes "coinbase_level2_message L rt srt now m json h = Inr (r, h')" "seq_field L ''sequence_num'' json = Inr n"
    and "\<not> has_snapshot L json" "cn_state h = BUFFERING"
  shows "cn_state h' = BUFFERING"
  using assms by (auto simp: coinbase_level2_message_def coinbase_trigger_resnapshot_def)

abbreviation no_snapshot :: "'j json_lib \<Rightarrow> int \<times> string \<Rightarrow> bool" where
  "no_snapshot L tm \<equiv> (case level2_of L (snd tm) of None \<Rightarrow> True | Some (_, json) \<Rightarrow> \<not> has_snapshot L json)"

lemma coinbase_buffering_run:
  "coinbase_run L rt srt msgs h = Inr h' \<Longrightarrow> list_all (no_snapshot L) msgs \<Longrightarrow> cn_state h = BUFFERING \<Longrightarrow> cn_state h' = BUFFERING"
proof (induction L rt srt msgs h rule: coinbase_run.induct)
  case (2 L rt srt now m ms h)
  then obtain r h1 where h1: "coinbase_process_message L rt srt now m h = Inr (r, h1)" "coinbase_run L rt srt ms h1 = Inr h'"
    by (auto simp: and_then_Inr)
  have "cn_state h1 = BUFFERING"
  proof (cases "level2_of L m")
    case None
    from other_message[OF h1(1) None] 2(4) show ?thesis by simp
  next
    case (Some nj)
    obtain n json where nj: "nj = (n, json)" by (cases nj)
    note l = level2_message[OF h1(1) Some[unfolded nj]]
    then have "\<not> has_snapshot L json" using 2(3) Some nj by simp
    then show ?thesis using level2_buffering[of L rt srt now m json h r h1 n] l 2(4) by auto
  qed
  with 2(1)[OF h1(2)] 2(3) show ?case by simp
qed simp


definition coinbase_sample_json :: "(string \<times> json) list" where
  "coinbase_sample_json =
    (let msg = (\<lambda>n p q. JObject [(''channel'', JString ''l2_data''), (''sequence_num'', JUint n),
           (''events'', JArray [JObject [(''type'', JString ''update''), (''updates'', JArray [JObject
             [(''side'', JString ''bid''), (''price_level'', JString p), (''new_quantity'', JString q)]])]])])
     in [(''first'', msg 8 ''1'' ''2''), (''second'', msg 9 ''1'' ''0''),
         (''beat'', JObject [(''channel'', JString ''heartbeats'')])])"

abbreviation coinbase_sample_msgs :: "(int \<times> string) list" where
  "coinbase_sample_msgs \<equiv> [(5, ''first''), (6, ''beat''), (7, ''second'')]"

abbreviation coinbase_sample_run :: "exn + CoinbaseFeedHandler" where
  "coinbase_sample_run \<equiv> coinbase_run (table_json coinbase_sample_json) (\<lambda>_. None) (\<lambda>_ ls. ls) coinbase_sample_msgs
     ((coinbase_init ''X'')\<lparr>cn_state := STREAMING, cn_last_sequence := 7\<rparr>)"

lemma coinbase_sample_facts:
  "(case coinbase_sample_run of Inl _ \<Rightarrow> False | Inr h \<Rightarrow> cn_state h = STREAMING)"
  "list_all (no_snapshot (table_json coinbase_sample_json)) coinbase_sample_msgs"
  "map (\<lambda>(_, n, _). n) (numbered (table_json coinbase_sample_json) coinbase_sample_msgs) = [8, 9]"
  "length (concat (map (\<lambda>(now, n). level2_events (table_json coinbase_sample_json) (\<lambda>_. None) now n)
     (numbered (table_json coinbase_sample_json) coinbase_sample_msgs))) = 2"
  by code_simp+


section \<open>Base64 of the token\<close>

text \<open>\<open>base64url_encode\<close>, without padding; the bytes are naturals below 256.\<close>

definition base64_chars :: string where
  "base64_chars = ''ABCDEFGHIJKLMNOPQRSTUVWXYZabcdefghijklmnopqrstuvwxyz0123456789-_''"

fun base64url_encode :: "nat list \<Rightarrow> string" where
  "base64url_encode [] = []"
| "base64url_encode [a] = (let triple = a * 65536 in
     [base64_chars ! (triple div 262144 mod 64), base64_chars ! (triple div 4096 mod 64)])"
| "base64url_encode [a, b] = (let triple = a * 65536 + b * 256 in
     [base64_chars ! (triple div 262144 mod 64), base64_chars ! (triple div 4096 mod 64), base64_chars ! (triple div 64 mod 64)])"
| "base64url_encode (a # b # c # bs) = (let triple = a * 65536 + b * 256 + c in
     [base64_chars ! (triple div 262144 mod 64), base64_chars ! (triple div 4096 mod 64),
      base64_chars ! (triple div 64 mod 64), base64_chars ! (triple mod 64)] @ base64url_encode bs)"

text \<open>The reader of the alphabet of RFC 4648.\<close>

definition sextet :: "char \<Rightarrow> nat" where
  "sextet c = (case find_slot (\<lambda>x. x = c) base64_chars of None \<Rightarrow> 64 | Some i \<Rightarrow> i)"

fun base64url_decode :: "string \<Rightarrow> nat list" where
  "base64url_decode [p, q] = [(sextet p * 64 + sextet q) div 16]"
| "base64url_decode [p, q, r] = (let n = (sextet p * 64 + sextet q) * 64 + sextet r in [n div 1024, n div 4 mod 256])"
| "base64url_decode (p # q # r # s # t) =
     (let n = ((sextet p * 64 + sextet q) * 64 + sextet r) * 64 + sextet s
      in [n div 65536, n div 256 mod 256, n mod 256] @ base64url_decode t)"
| "base64url_decode t = []"

lemma sextet_nth [simp]: "i < 64 \<Longrightarrow> sextet (base64_chars ! i) = i"
proof -
  have "list_all (\<lambda>i. sextet (base64_chars ! i) = i) [0..<64]" by code_simp
  then show "i < 64 \<Longrightarrow> sextet (base64_chars ! i) = i" by (simp add: list_all_iff)
qed

lemma sextets:
  fixes t :: nat
  assumes "t < 16777216"
  shows "t div 262144 mod 64 * 64 + t div 4096 mod 64 = t div 4096"
    and "t div 4096 * 64 + t div 64 mod 64 = t div 64"
    and "t div 64 * 64 + t mod 64 = t"
proof -
  have d: "t div 4096 = t div 64 div 64" "t div 262144 = t div 64 div 64 div 64"
    by (simp_all add: div_mult2_eq[symmetric])
  have "t div 64 div 64 div 64 < 64" using assms by (simp add: div_mult2_eq[symmetric] less_mult_imp_div_less)
  then show "t div 262144 mod 64 * 64 + t div 4096 mod 64 = t div 4096" unfolding d by simp
  show "t div 4096 * 64 + t div 64 mod 64 = t div 64" unfolding d by simp
qed simp

lemma octets:
  fixes a b c :: nat
  assumes "a < 256" "b < 256" "c < 256"
  shows "(a * 65536 + b * 256 + c) div 65536 = a" "(a * 65536 + b * 256 + c) div 256 mod 256 = b"
    and "(a * 65536 + b * 256 + c) mod 256 = c" "a * 65536 + b * 256 + c < 16777216"
proof -
  show "(a * 65536 + b * 256 + c) div 65536 = a" using assms by (intro div_nat_eqI) auto
  have "(a * 65536 + b * 256 + c) div 256 = a * 256 + b" using assms by (intro div_nat_eqI) auto
  then show "(a * 65536 + b * 256 + c) div 256 mod 256 = b" using assms by simp
  have "(a * 65536 + b * 256 + c) mod 256 = (c + 256 * (a * 256 + b)) mod 256" by (simp add: algebra_simps)
  then show "(a * 65536 + b * 256 + c) mod 256 = c" using assms(3) by (simp only: mod_mult_self2 mod_less)
qed (use assms in simp)

text \<open>
  The base64url text of a token reads back: decoding what the handler encodes gives the bytes,
  for every length of the input.
\<close>

theorem base64url_round_trip:
  assumes "list_all (\<lambda>b. b < 256) bs"
  shows "base64url_decode (base64url_encode bs) = bs"
  using assms
proof (induction bs rule: base64url_encode.induct)
  case (2 a)
  then have "a * 65536 < 16777216" "a * 65536 div 65536 = a" by simp_all
  moreover have "a * 65536 div 4096 div 16 = a * 65536 div 65536" by (simp add: div_mult2_eq[symmetric])
  ultimately show ?case using sextets(1)[of "a * 65536"] by (simp only: base64url_encode.simps base64url_decode.simps Let_def
      sextet_nth pos_mod_bound mod_less_divisor zero_less_numeral)
next
  case (3 a b)
  let ?t = "a * 65536 + b * 256"
  have o: "?t div 65536 = a" "?t div 256 mod 256 = b" "?t < 16777216" using octets[of a b 0] 3 by simp_all
  have "?t div 64 div 1024 = ?t div 65536" "?t div 64 div 4 = ?t div 256" by (simp_all add: div_mult2_eq[symmetric])
  then show ?case using sextets(1,2)[OF o(3)] o(1,2)
    by (simp only: base64url_encode.simps base64url_decode.simps Let_def sextet_nth mod_less_divisor zero_less_numeral)
next
  case (4 a b c bs)
  then have "a < 256" "b < 256" "c < 256" by simp_all
  note o = octets[OF this]
  have IH: "base64url_decode (base64url_encode bs) = bs" using 4 by simp
  show ?case using sextets[OF o(4)] o(1-3) IH
    by (simp only: base64url_encode.simps base64url_decode.simps Let_def sextet_nth mod_less_divisor zero_less_numeral
        append_Cons append_Nil)
qed simp

theorem base64url_round_trip_witness:
  "base64url_decode (base64url_encode [255, 0, 16, 250]) = [255, 0, 16, 250] \<and> base64url_encode [255, 0, 16, 250] = ''_wAQ-g''"
  using base64url_round_trip[of "[255, 0, 16, 250]"] by (simp add: base64_chars_def)

section \<open>The connection\<close>

definition coinbase_ws_address :: "string \<Rightarrow> std_error + string \<times> int \<times> string" where
  "coinbase_ws_address = parse_ws_url ''advanced-trade-ws.coinbase.com'' 443 ''/''"

definition coinbase_receive :: "string \<Rightarrow> bool \<Rightarrow> string \<Rightarrow> string \<times> string option" where
  "coinbase_receive = receive_fragment (8 * 1024 * 1024)"

end
