(* ===== verification/Kraken_Feed.thy ===== *)
theory Kraken_Feed
  imports Feed_Common
begin

text \<open>
  \<^verbatim>\<open>core/feeds/kraken/kraken_feed_handler.cpp\<close>. Kraken numbers no updates; a lost one shows only in the
  checksum over the ten best levels of both sides, for which the digits of a level are cut out of
  the raw message by a regular expression. The local book is kept at the subscribed depth. As in
  \<open>Okx_Feed\<close> the callbacks are the list \<open>kf_events\<close>; the C library's reading of a date is an argument.
\<close>

section \<open>State\<close>

record KrakenFeedHandler =
  kf_symbol :: string
  kf_tick_size :: double
  kf_subscribed_depth :: nat
  kf_running :: bool
  kf_force_reconnect :: bool
  kf_last_sequence :: u64
  kf_state :: feed_state
  kf_delta_buffer :: "string list"
  kf_bids :: text_side
  kf_asks :: text_side
  kf_events :: "feed_event list"

definition kraken_init :: "string \<Rightarrow> KrakenFeedHandler" where
  "kraken_init symbol = \<lparr>kf_symbol = symbol, kf_tick_size = 0, kf_subscribed_depth = 100, kf_running = False,
     kf_force_reconnect = False, kf_last_sequence = 0, kf_state = DISCONNECTED, kf_delta_buffer = [],
     kf_bids = [], kf_asks = [], kf_events = []\<rparr>"

definition KRAKEN_MAX_BUFFER_SIZE :: nat where "KRAKEN_MAX_BUFFER_SIZE = 1000"

definition kraken_trigger_resnapshot :: "string \<Rightarrow> KrakenFeedHandler \<Rightarrow> KrakenFeedHandler" where
  "kraken_trigger_resnapshot reason h = h\<lparr>kf_events := kf_events h @ [Ev_Error (''Re-snapshot: '' @ reason)],
     kf_delta_buffer := [], kf_bids := [], kf_asks := [], kf_last_sequence := 0, kf_state := BUFFERING,
     kf_force_reconnect := True\<rparr>"

section \<open>The digits of a level\<close>

definition strip_prefix :: "string \<Rightarrow> string \<Rightarrow> string option" where
  "strip_prefix pre s = (if take (length pre) s = pre then Some (drop (length pre) s) else None)"

definition quote_mark :: char where "quote_mark = CHR 0x22"

definition number_char :: "char \<Rightarrow> bool" where
  "number_char c \<longleftrightarrow> is_digit c \<or> c = CHR ''-'' \<or> c = CHR ''+'' \<or> c = CHR ''.'' \<or> c = CHR ''e'' \<or> c = CHR ''E''"

text \<open>
  A match of \<^verbatim>\<open>"?[-+0-9.eE]+"?\<close> at the front. What may follow it is disjoint from what it is made of, so
  the greedy match is the only one.
\<close>

definition number_token :: "string \<Rightarrow> (string \<times> string) option" where
  "number_token s =
     (let (q1, s1) = (if take 1 s = [quote_mark] then ([quote_mark], tl s) else ([], s));
          ds = takeWhile number_char s1; s2 = dropWhile number_char s1;
          (q2, s3) = (if take 1 s2 = [quote_mark] then ([quote_mark], tl s2) else ([], s2))
      in if ds = [] then None else Some (q1 @ ds @ q2, s3))"

definition field_token :: "string \<Rightarrow> string \<Rightarrow> (string \<times> string) option" where
  "field_token name s =
     (case strip_prefix (quote_mark # name @ [quote_mark]) s of
        None \<Rightarrow> None
      | Some s \<Rightarrow> (case strip_prefix '':'' (dropWhile is_space s) of
          None \<Rightarrow> None
        | Some s \<Rightarrow> number_token (dropWhile is_space s)))"

text \<open>A match of \<open>level_pattern\<close> at the front: the two groups and the rest.\<close>

definition level_pattern :: "string \<Rightarrow> (string \<times> string \<times> string) option" where
  "level_pattern s =
     (case field_token ''price'' s of
        None \<Rightarrow> None
      | Some (p, s) \<Rightarrow> (case strip_prefix '','' (dropWhile is_space s) of
          None \<Rightarrow> None
        | Some s \<Rightarrow> (case field_token ''qty'' (dropWhile is_space s) of
            None \<Rightarrow> None
          | Some (q, s) \<Rightarrow> Some (p, q, s))))"

definition unquote :: "string \<Rightarrow> string" where
  "unquote s = (if length s \<ge> 2 \<and> hd s = quote_mark \<and> last s = quote_mark then tl (butlast s) else s)"

lemma strip_prefix_length: "strip_prefix pre s = Some r \<Longrightarrow> length r + length pre = length s"
proof -
  assume "strip_prefix pre s = Some r"
  then have t: "take (length pre) s = pre" "r = drop (length pre) s"
    by (simp_all add: strip_prefix_def split: if_splits)
  from arg_cong[OF t(1), of length] show ?thesis by (simp add: t(2))
qed

lemma number_token_length: "number_token s = Some (t, r) \<Longrightarrow> length r \<le> length s"
proof -
  assume a: "number_token s = Some (t, r)"
  have d: "length (dropWhile number_char x) \<le> length x" for x by (rule length_dropWhile_le)
  show ?thesis using a d[of s] d[of "tl s"]
    by (auto simp: number_token_def Let_def split: if_splits)
qed

lemma field_token_length: "field_token name s = Some (t, r) \<Longrightarrow> length r < length s"
proof -
  assume "field_token name s = Some (t, r)"
  then obtain s1 s2 where s: "strip_prefix (quote_mark # name @ [quote_mark]) s = Some s1"
    "strip_prefix '':'' (dropWhile is_space s1) = Some s2" "number_token (dropWhile is_space s2) = Some (t, r)"
    by (auto simp: field_token_def split: option.splits)
  note l = strip_prefix_length[OF s(1)] strip_prefix_length[OF s(2)] number_token_length[OF s(3)]
    length_dropWhile_le[of is_space s1] length_dropWhile_le[of is_space s2]
  then show ?thesis by simp
qed

lemma level_pattern_length: "level_pattern s = Some (p, q, r) \<Longrightarrow> length r < length s"
proof -
  assume "level_pattern s = Some (p, q, r)"
  then obtain s1 s2 where s: "field_token ''price'' s = Some (p, s1)"
    "strip_prefix '','' (dropWhile is_space s1) = Some s2" "field_token ''qty'' (dropWhile is_space s2) = Some (q, r)"
    by (auto simp: level_pattern_def split: option.splits)
  note l = field_token_length[OF s(1)] strip_prefix_length[OF s(2)] field_token_length[OF s(3)]
    length_dropWhile_le[of is_space s1] length_dropWhile_le[of is_space s2]
  then show ?thesis by simp
qed

text \<open>The iterator over all matches, from left to right.\<close>

function all_levels :: "string \<Rightarrow> (string \<times> string) list" where
  "all_levels s =
     (if s = [] then []
      else case level_pattern s of
        None \<Rightarrow> all_levels (tl s)
      | Some (p, q, r) \<Rightarrow> (unquote p, unquote q) # all_levels r)"
  by auto
termination
  by (relation "measure length") (auto dest: level_pattern_length)

declare all_levels.simps [simp del]

text \<open>The text from an opening bracket to the one that closes it.\<close>

fun bracketed :: "nat \<Rightarrow> string \<Rightarrow> string option" where
  "bracketed depth [] = None"
| "bracketed depth (c # s) =
     (if c = CHR ''['' then map_option (Cons c) (bracketed (Suc depth) s)
      else if c = CHR '']'' then (if depth - 1 = 0 then Some [c] else map_option (Cons c) (bracketed (depth - 1) s))
      else map_option (Cons c) (bracketed depth s))"

definition extract_levels_from_message :: "string \<Rightarrow> string \<Rightarrow> (string \<times> string) list" where
  "extract_levels_from_message message side =
     (case find_str (quote_mark # side @ [quote_mark]) message of
        None \<Rightarrow> []
      | Some key_pos \<Rightarrow>
          (case bracketed 0 (dropWhile (\<lambda>c. c \<noteq> CHR ''['') (drop key_pos message)) of
             None \<Rightarrow> [] | Some body \<Rightarrow> all_levels body))"

definition json_number_to_wire_string :: "'j json_lib \<Rightarrow> 'j \<Rightarrow> exn + string" where
  "json_number_to_wire_string L v = (if jl_is_string L v then jl_string L v else Inr (jl_dump L v))"

definition normalize_checksum_field :: "string \<Rightarrow> string" where
  "normalize_checksum_field s =
     (let out = dropWhile (\<lambda>c. c = CHR ''0'') (filter (\<lambda>c. c \<noteq> CHR ''.'') s) in if out = [] then ''0'' else out)"

section \<open>The local book\<close>

fun kraken_apply_side :: "(double \<Rightarrow> double \<Rightarrow> bool) \<Rightarrow> 'j json_lib \<Rightarrow> 'j list \<Rightarrow> (string \<times> string) list \<Rightarrow>
    text_side \<Rightarrow> exn + text_side" where
  "kraken_apply_side lt L [] raw b = Inr b"
| "kraken_apply_side lt L (lvl # arr) raw b =
     (case (jl_find L ''price'' lvl, jl_find L ''qty'' lvl) of
        (Some p, Some q) \<Rightarrow>
          and_then (case raw of r # _ \<Rightarrow> Inr (fst r) | [] \<Rightarrow> json_number_to_wire_string L p) (\<lambda>price_str.
          and_then (case raw of r # _ \<Rightarrow> Inr (snd r) | [] \<Rightarrow> json_number_to_wire_string L q) (\<lambda>qty_str.
          and_then (lift_std (stod price_str)) (\<lambda>price.
          and_then (lift_std (stod qty_str)) (\<lambda>qty.
            kraken_apply_side lt L arr (tl raw)
              (if deq qty 0 then side_erase lt price b else side_put lt price (price_str, qty_str) b)))))
      | _ \<Rightarrow> kraken_apply_side lt L arr (tl raw) b)"

definition kraken_apply_local :: "'j json_lib \<Rightarrow> 'j \<Rightarrow> string \<Rightarrow> KrakenFeedHandler \<Rightarrow> exn + KrakenFeedHandler" where
  "kraken_apply_local L data message h =
     and_then (level_array L ''bids'' data) (\<lambda>bl.
     and_then (kraken_apply_side bid_before L bl (extract_levels_from_message message ''bids'') (kf_bids h)) (\<lambda>bs.
     and_then (level_array L ''asks'' data) (\<lambda>al.
     and_then (kraken_apply_side ask_before L al (extract_levels_from_message message ''asks'') (kf_asks h)) (\<lambda>as.
       Inr (h\<lparr>kf_bids := bs, kf_asks := as\<rparr>)))))"

text \<open>The last entries are erased until the side has the subscribed depth.\<close>

definition truncate_book :: "KrakenFeedHandler \<Rightarrow> KrakenFeedHandler" where
  "truncate_book h = h\<lparr>kf_bids := take (kf_subscribed_depth h) (kf_bids h),
     kf_asks := take (kf_subscribed_depth h) (kf_asks h)\<rparr>"

definition checksum_side :: "text_side \<Rightarrow> string" where
  "checksum_side b = concat (map (\<lambda>(_, p, q). normalize_checksum_field p @ normalize_checksum_field q) (take 10 b))"

definition kraken_validate_checksum :: "'j json_lib \<Rightarrow> 'j \<Rightarrow> KrakenFeedHandler \<Rightarrow> exn + bool" where
  "kraken_validate_checksum L data h =
     (case jl_find L ''checksum'' data of
        None \<Rightarrow> Inr True
      | Some c \<Rightarrow> and_then (jl_u64 L c) (\<lambda>n.
          Inr (crc32_bytes (checksum_side (kf_asks h) @ checksum_side (kf_bids h)) = ucast n)))"

section \<open>Dates\<close>

definition index_of :: "char \<Rightarrow> string \<Rightarrow> nat option" where
  "index_of c s = find_slot (\<lambda>x. x = c) s"

definition kraken_fraction :: "string \<Rightarrow> exn + int" where
  "kraken_fraction s =
     (case (index_of (CHR ''.'') s, index_of (CHR ''Z'') s) of
        (Some dot, Some z) \<Rightarrow>
          if z > dot + 1 then
            (let frac = take 9 (take (z - dot - 1) (drop (dot + 1) s))
             in lift_std (stoll (frac @ replicate (9 - length frac) (CHR ''0''))))
          else Inr 0
      | _ \<Rightarrow> Inr 0)"

definition parse_rfc3339_timestamp_ns :: "(string \<Rightarrow> int option) \<Rightarrow> string \<Rightarrow> exn + int" where
  "parse_rfc3339_timestamp_ns read_time s =
     (if s = [] then Inr 0
      else case read_time (take 19 s) of
        None \<Rightarrow> Inr 0
      | Some seconds \<Rightarrow>
          if seconds < 0 then Inr 0
          else and_then (kraken_fraction s) (\<lambda>nanos. Inr (seconds * 1000000000 + nanos)))"

section \<open>Updates, snapshots and messages\<close>

fun kraken_emit :: "'j json_lib \<Rightarrow> (double \<Rightarrow> double \<Rightarrow> feed_event) \<Rightarrow> 'j list \<Rightarrow> exn + feed_event list" where
  "kraken_emit L event [] = Inr []"
| "kraken_emit L event (lvl # arr) =
     (case (jl_find L ''price'' lvl, jl_find L ''qty'' lvl) of
        (Some p, Some q) \<Rightarrow>
          and_then (json_number_to_wire_string L p) (\<lambda>ps. and_then (lift_std (stod ps)) (\<lambda>price.
          and_then (json_number_to_wire_string L q) (\<lambda>qs. and_then (lift_std (stod qs)) (\<lambda>qty.
          and_then (kraken_emit L event arr) (\<lambda>evs. Inr (event price qty # evs))))))
      | _ \<Rightarrow> kraken_emit L event arr)"

definition kraken_delta :: "u64 \<Rightarrow> int \<Rightarrow> int \<Rightarrow> Side \<Rightarrow> double \<Rightarrow> double \<Rightarrow> feed_event" where
  "kraken_delta seq ts now side price qty = Ev_Delta \<lparr>dl_side = side, dl_price = price, dl_size = qty,
     dl_order_count = 0, dl_sequence = seq, dl_timestamp_exchange_ns = ts, dl_timestamp_local_ns = now\<rparr>"

definition kraken_process_delta :: "'j json_lib \<Rightarrow> (string \<Rightarrow> int option) \<Rightarrow> int \<Rightarrow> string \<Rightarrow> 'j \<Rightarrow> u64 \<Rightarrow>
    KrakenFeedHandler \<Rightarrow> exn + Result \<times> KrakenFeedHandler" where
  "kraken_process_delta L rt now message json seq h =
     (case array_at L ''data'' json of
        Some (book # _) \<Rightarrow>
          and_then (kraken_apply_local L book message h) (\<lambda>h.
          let h = truncate_book h in
          and_then (kraken_validate_checksum L book h) (\<lambda>valid.
            if \<not> valid then Inr (ERROR_BOOK_CORRUPTED, kraken_trigger_resnapshot ''Checksum mismatch'' h)
            else
              and_then (jl_value_string L ''timestamp'' [] book) (\<lambda>t.
              and_then (parse_rfc3339_timestamp_ns rt t) (\<lambda>ts.
              and_then (level_array L ''bids'' book) (\<lambda>bl.
              and_then (kraken_emit L (kraken_delta seq ts now BID) bl) (\<lambda>evs_b.
              and_then (level_array L ''asks'' book) (\<lambda>al.
              and_then (kraken_emit L (kraken_delta seq ts now ASK) al) (\<lambda>evs_a.
                Inr (SUCCESS, h\<lparr>kf_events := kf_events h @ evs_b @ evs_a, kf_last_sequence := seq\<rparr>)))))))))
      | _ \<Rightarrow> Inr (ERROR_BOOK_CORRUPTED, h))"

fun kraken_replay :: "'j json_lib \<Rightarrow> (string \<Rightarrow> int option) \<Rightarrow> int \<Rightarrow> u64 \<Rightarrow> string list \<Rightarrow> KrakenFeedHandler \<Rightarrow>
    exn + Result \<times> KrakenFeedHandler" where
  "kraken_replay L rt now next_seq [] h = Inr (SUCCESS, h\<lparr>kf_delta_buffer := []\<rparr>)"
| "kraken_replay L rt now next_seq (m # ms) h =
     (let json = jl_parse L m in
      if jl_is_discarded L json then kraken_replay L rt now next_seq ms h
      else and_then (kraken_process_delta L rt now m json next_seq h) (\<lambda>(r, h).
        if r \<noteq> SUCCESS then Inr (ERROR_BOOK_CORRUPTED, h\<lparr>kf_delta_buffer := []\<rparr>)
        else kraken_replay L rt now (next_seq + 1) ms h))"

definition kraken_apply_buffered_deltas :: "'j json_lib \<Rightarrow> (string \<Rightarrow> int option) \<Rightarrow> int \<Rightarrow> KrakenFeedHandler \<Rightarrow>
    exn + Result \<times> KrakenFeedHandler" where
  "kraken_apply_buffered_deltas L rt now h = kraken_replay L rt now 1 (kf_delta_buffer h) h"

fun snapshot_side :: "text_side \<Rightarrow> exn + PriceLevel list" where
  "snapshot_side [] = Inr []"
| "snapshot_side ((price, _, qty) # b) =
     and_then (lift_std (stod qty)) (\<lambda>q. and_then (snapshot_side b) (\<lambda>ls. Inr (mk_PriceLevel price q 0 # ls)))"

definition kraken_process_snapshot :: "'j json_lib \<Rightarrow> (string \<Rightarrow> int option) \<Rightarrow> int \<Rightarrow> string \<Rightarrow> 'j \<Rightarrow>
    KrakenFeedHandler \<Rightarrow> exn + Result \<times> KrakenFeedHandler" where
  "kraken_process_snapshot L rt now message json h =
     (case array_at L ''data'' json of
        Some (book # _) \<Rightarrow>
          and_then (kraken_apply_local L book message (h\<lparr>kf_bids := [], kf_asks := []\<rparr>)) (\<lambda>h.
          let h = truncate_book h in
          and_then (kraken_validate_checksum L book h) (\<lambda>valid.
            if \<not> valid then Inr (ERROR_BOOK_CORRUPTED, kraken_trigger_resnapshot ''Checksum mismatch'' h)
            else
              and_then (jl_value_string L ''timestamp'' [] book) (\<lambda>t.
              and_then (parse_rfc3339_timestamp_ns rt t) (\<lambda>ts.
              and_then (snapshot_side (kf_bids h)) (\<lambda>bids.
              and_then (snapshot_side (kf_asks h)) (\<lambda>asks.
                if bids = [] \<or> asks = []
                then Inr (ERROR_BOOK_CORRUPTED, kraken_trigger_resnapshot ''Kraken snapshot has empty book'' h)
                else
                  let snap = mk_Snapshot\<lparr>sn_symbol := kf_symbol h, sn_exchange := KRAKEN, sn_sequence := 0,
                        sn_timestamp_exchange_ns := ts, sn_timestamp_local_ns := now,
                        sn_bids := bids, sn_asks := asks\<rparr>;
                      h = h\<lparr>kf_last_sequence := 0, kf_events := kf_events h @ [Ev_Snapshot snap]\<rparr>
                  in and_then (kraken_apply_buffered_deltas L rt now h) (\<lambda>(r, h).
                    if r \<noteq> SUCCESS
                    then Inr (ERROR_SEQUENCE_GAP, kraken_trigger_resnapshot ''Buffered delta replay failed'' h)
                    else Inr (SUCCESS, h\<lparr>kf_state := STREAMING\<rparr>))))))))
      | _ \<Rightarrow> Inr (ERROR_BOOK_CORRUPTED, kraken_trigger_resnapshot ''Kraken snapshot missing data'' h))"

definition kraken_trade :: "'j json_lib \<Rightarrow> 'j \<Rightarrow> feed_event option" where
  "kraken_trade L entry =
     (if \<not> jl_is_object L entry then None
      else case (jl_find L ''price'' entry, jl_find L ''qty'' entry) of
        (Some p, Some q) \<Rightarrow>
          catching (and_then (json_number_to_wire_string L p) (\<lambda>ps. and_then (lift_std (stod ps)) (\<lambda>price.
            and_then (json_number_to_wire_string L q) (\<lambda>qs. and_then (lift_std (stod qs)) (\<lambda>qty.
            and_then (jl_value_string L ''side'' [] entry) (\<lambda>side.
              Inr (Ev_Trade (mk_TradeFlow\<lparr>tf_last_trade_price := price, tf_last_trade_size := qty,
                tf_trade_direction := (if side = ''buy'' then 0 else if side = ''sell'' then 1
                  else tf_trade_direction mk_TradeFlow)\<rparr>))))))))
      | _ \<Rightarrow> None)"

definition kraken_trades :: "'j json_lib \<Rightarrow> 'j list \<Rightarrow> feed_event list" where
  "kraken_trades L batches = List.map_filter (kraken_trade L) (concat (map (\<lambda>batch.
     if \<not> jl_is_object L batch then []
     else case array_at L ''trades'' batch of None \<Rightarrow> [] | Some ts \<Rightarrow> ts) batches))"

text \<open>The channel \<open>book\<close>. Only the state \<open>BUFFERING\<close> buffers.\<close>

definition kraken_book_message :: "'j json_lib \<Rightarrow> (string \<Rightarrow> int option) \<Rightarrow> int \<Rightarrow> string \<Rightarrow> 'j \<Rightarrow>
    KrakenFeedHandler \<Rightarrow> exn + Result \<times> KrakenFeedHandler" where
  "kraken_book_message L rt now message json h =
     and_then (jl_value_string L ''type'' [] json) (\<lambda>type.
       if type = ''snapshot'' then kraken_process_snapshot L rt now message json h
       else if type \<noteq> ''update'' then Inr (SUCCESS, h)
       else if kf_state h = BUFFERING then
         Inr (SUCCESS, if length (kf_delta_buffer h) < KRAKEN_MAX_BUFFER_SIZE
           then h\<lparr>kf_delta_buffer := kf_delta_buffer h @ [message]\<rparr>
           else kraken_trigger_resnapshot ''Buffer overflow'' h)
       else kraken_process_delta L rt now message json (kf_last_sequence h + 1) h)"

definition kraken_process_message :: "'j json_lib \<Rightarrow> (string \<Rightarrow> int option) \<Rightarrow> int \<Rightarrow> string \<Rightarrow>
    KrakenFeedHandler \<Rightarrow> exn + Result \<times> KrakenFeedHandler" where
  "kraken_process_message L rt now message h =
     (let json = jl_parse L message in
      if jl_is_discarded L json then Inr (SUCCESS, h)
      else case string_at L ''method'' json of
        Some m \<Rightarrow> and_then (jl_string L m) (\<lambda>meth.
          if meth = ''subscribe'' then
            (case jl_find L ''success'' json of
               None \<Rightarrow> Inr (SUCCESS, h)
             | Some b \<Rightarrow>
                 and_then (if jl_is_boolean L b then jl_bool L b else Inr True) (\<lambda>success.
                   if success then Inr (SUCCESS, h)
                   else and_then (jl_value_string L ''error'' ''Kraken subscribe rejected'' json) (\<lambda>reason.
                     Inr (ERROR_CONNECTION_LOST, kraken_trigger_resnapshot reason h))))
          else Inr (SUCCESS, h))
      | None \<Rightarrow> (case string_at L ''channel'' json of
          None \<Rightarrow> Inr (SUCCESS, h)
        | Some ch \<Rightarrow> and_then (jl_string L ch) (\<lambda>channel.
            if channel = ''trade'' then
              Inr (SUCCESS, case array_at L ''data'' json of None \<Rightarrow> h
                | Some batches \<Rightarrow> h\<lparr>kf_events := kf_events h @ kraken_trades L batches\<rparr>)
            else if channel \<noteq> ''book'' then Inr (SUCCESS, h)
            else kraken_book_message L rt now message json h)))"

text \<open>What \<open>start()\<close>, the event loop on a new connection, and \<open>stop()\<close> set.\<close>

definition kraken_start :: "KrakenFeedHandler \<Rightarrow> KrakenFeedHandler" where
  "kraken_start h = h\<lparr>kf_running := True, kf_state := BUFFERING, kf_last_sequence := 0, kf_bids := [], kf_asks := [],
     kf_delta_buffer := []\<rparr>"

definition kraken_established :: "KrakenFeedHandler \<Rightarrow> KrakenFeedHandler" where
  "kraken_established h = h\<lparr>kf_state := BUFFERING, kf_delta_buffer := [], kf_bids := [], kf_asks := [],
     kf_last_sequence := 0, kf_force_reconnect := False\<rparr>"

definition kraken_stop :: "KrakenFeedHandler \<Rightarrow> KrakenFeedHandler" where
  "kraken_stop h = h\<lparr>kf_running := False, kf_state := DISCONNECTED\<rparr>"

definition kraken_fetch_tick_size :: "'j json_lib \<Rightarrow> (int \<Rightarrow> double) \<Rightarrow> HttpResponse \<Rightarrow> KrakenFeedHandler \<Rightarrow>
    exn + Result \<times> KrakenFeedHandler" where
  "kraken_fetch_tick_size L pow10 resp h =
     (if hr_body resp = [] then Inr (ERROR_CONNECTION_LOST, h)
      else let json = jl_parse L (hr_body resp) in
        if jl_is_discarded L json then Inr (ERROR_BOOK_CORRUPTED, h)
        else if (case array_at L ''error'' json of Some (_ # _) \<Rightarrow> True | _ \<Rightarrow> False) then Inr (ERROR_BOOK_CORRUPTED, h)
        else case jl_find L ''result'' json of
          None \<Rightarrow> Inr (ERROR_BOOK_CORRUPTED, h)
        | Some res \<Rightarrow>
            if \<not> jl_is_object L res \<or> jl_elems L res = [] then Inr (ERROR_BOOK_CORRUPTED, h)
            else let pair = hd (jl_elems L res) in
              and_then (case string_at L ''tick_size'' pair of None \<Rightarrow> Inr [] | Some t \<Rightarrow> jl_string L t) (\<lambda>ts.
                if ts \<noteq> [] then and_then (lift_std (tick_from_string pow10 ts)) (\<lambda>tick. Inr (SUCCESS, h\<lparr>kf_tick_size := tick\<rparr>))
                else case jl_find L ''pair_decimals'' pair of
                  None \<Rightarrow> Inr (ERROR_BOOK_CORRUPTED, h)
                | Some d \<Rightarrow>
                    if \<not> jl_is_integer L d then Inr (ERROR_BOOK_CORRUPTED, h)
                    else and_then (jl_i64 L d) (\<lambda>n. Inr (SUCCESS, h\<lparr>kf_tick_size := pow10 (- i32 n)\<rparr>))))"

section \<open>The depth of the local book\<close>

definition depth_ok :: "KrakenFeedHandler \<Rightarrow> bool" where
  "depth_ok h \<longleftrightarrow> length (kf_bids h) \<le> kf_subscribed_depth h \<and> length (kf_asks h) \<le> kf_subscribed_depth h"

lemma depth_resnapshot [simp]: "depth_ok (kraken_trigger_resnapshot reason h)"
  by (simp add: depth_ok_def kraken_trigger_resnapshot_def)

lemma depth_truncate [simp]: "depth_ok (truncate_book h)"
  by (simp add: depth_ok_def truncate_book_def)

lemma process_delta_depth:
  "kraken_process_delta L rt now m json seq h = Inr (r, h') \<Longrightarrow> depth_ok h \<Longrightarrow> depth_ok h'"
  by (auto simp: kraken_process_delta_def and_then_Inr Let_def depth_ok_def truncate_book_def kraken_trigger_resnapshot_def
      split: option.splits list.splits if_splits)

lemma replay_depth:
  "kraken_replay L rt now n ms h = Inr (r, h') \<Longrightarrow> depth_ok h \<Longrightarrow> depth_ok h'"
proof (induction L rt now n ms h rule: kraken_replay.induct)
  case (2 L rt now n m ms h)
  show ?case
  proof (cases "jl_is_discarded L (jl_parse L m)")
    case True
    then show ?thesis using 2 by simp
  next
    case False
    then obtain r1 h1 where h1: "kraken_process_delta L rt now m (jl_parse L m) n h = Inr (r1, h1)"
      "(if r1 \<noteq> SUCCESS then Inr (ERROR_BOOK_CORRUPTED, h1\<lparr>kf_delta_buffer := []\<rparr>)
        else kraken_replay L rt now (n + 1) ms h1) = Inr (r, h')"
      using 2(3) by (auto simp: Let_def and_then_Inr)
    have "depth_ok h1" using process_delta_depth[OF h1(1) 2(4)] .
    then show ?thesis using h1(2) 2(2)[OF refl False, of r1 h1]
      by (auto simp: depth_ok_def split: if_splits)
  qed
qed (auto simp: depth_ok_def)

lemma process_snapshot_depth:
  assumes "kraken_process_snapshot L rt now m json h = Inr (r, h')" "depth_ok h"
  shows "depth_ok h'"
proof (cases "array_at L ''data'' json")
  case (Some ds)
  show ?thesis
  proof (cases ds)
    case (Cons book rest)
    obtain h1 where h1: "kraken_apply_local L book m (h\<lparr>kf_bids := [], kf_asks := []\<rparr>) = Inr h1"
      using assms(1) Some Cons by (auto simp: kraken_process_snapshot_def and_then_Inr)
    obtain valid where valid: "kraken_validate_checksum L book (truncate_book h1) = Inr valid"
      using assms(1) Some Cons h1 by (auto simp: kraken_process_snapshot_def and_then_Inr Let_def)
    show ?thesis
    proof (cases valid)
      case True
      then obtain t ts bids asks where x: "jl_value_string L ''timestamp'' [] book = Inr t"
        "parse_rfc3339_timestamp_ns rt t = Inr ts" "snapshot_side (kf_bids (truncate_book h1)) = Inr bids"
        "snapshot_side (kf_asks (truncate_book h1)) = Inr asks"
        using assms(1) Some Cons h1 valid by (auto simp: kraken_process_snapshot_def and_then_Inr Let_def)
      show ?thesis
      proof (cases "bids = [] \<or> asks = []")
        case True
        then show ?thesis using assms(1) Some Cons h1 valid \<open>valid\<close> x
          by (auto simp: kraken_process_snapshot_def Let_def)
      next
        case False
        let ?h2 = "(truncate_book h1)\<lparr>kf_last_sequence := 0, kf_events := kf_events (truncate_book h1) @ [Ev_Snapshot
          (mk_Snapshot\<lparr>sn_symbol := kf_symbol (truncate_book h1), sn_exchange := KRAKEN, sn_sequence := 0,
             sn_timestamp_exchange_ns := ts, sn_timestamp_local_ns := now, sn_bids := bids, sn_asks := asks\<rparr>)]\<rparr>"
        have "depth_ok ?h2" using depth_truncate[of h1] by (simp add: depth_ok_def)
        moreover obtain r3 h3 where "kraken_replay L rt now 1 (kf_delta_buffer ?h2) ?h2 = Inr (r3, h3)"
          "h' = (if r3 \<noteq> SUCCESS then kraken_trigger_resnapshot ''Buffered delta replay failed'' h3
                 else h3\<lparr>kf_state := STREAMING\<rparr>)"
          using assms(1) Some Cons h1 valid \<open>valid\<close> x False
          by (auto simp: kraken_process_snapshot_def kraken_apply_buffered_deltas_def and_then_Inr Let_def
              split: if_splits)
        ultimately have h2: "depth_ok ?h2" "kraken_replay L rt now 1 (kf_delta_buffer ?h2) ?h2 = Inr (r3, h3)"
          "h' = (if r3 \<noteq> SUCCESS then kraken_trigger_resnapshot ''Buffered delta replay failed'' h3
                 else h3\<lparr>kf_state := STREAMING\<rparr>)" by blast+
        from replay_depth[OF h2(2,1)] h2(3) show ?thesis by (auto simp: depth_ok_def kraken_trigger_resnapshot_def)
      qed
    qed (use assms(1) Some Cons h1 valid in \<open>auto simp: kraken_process_snapshot_def Let_def\<close>)
  qed (use assms(1) Some in \<open>auto simp: kraken_process_snapshot_def\<close>)
qed (use assms(1) in \<open>auto simp: kraken_process_snapshot_def\<close>)

lemma depth_frame [simp]:
  "depth_ok (h\<lparr>kf_delta_buffer := b\<rparr>) = depth_ok h" "depth_ok (h\<lparr>kf_events := e\<rparr>) = depth_ok h"
  by (simp_all add: depth_ok_def)

lemma book_message_depth:
  assumes "kraken_book_message L rt now m json h = Inr (r, h')" "depth_ok h"
  shows "depth_ok h'"
  using assms process_snapshot_depth[of L rt now m json h r h'] process_delta_depth[of L rt now m json _ h r h']
  by (auto simp: kraken_book_message_def and_then_Inr split: if_splits)

lemma message_depth:
  assumes "kraken_process_message L rt now m h = Inr (r, h')" "depth_ok h"
  shows "depth_ok h'"
  using assms book_message_depth[of L rt now m "jl_parse L m" h r h']
  by (auto simp: kraken_process_message_def Let_def and_then_Inr split: option.splits if_splits)

fun kraken_run :: "'j json_lib \<Rightarrow> (string \<Rightarrow> int option) \<Rightarrow> (int \<times> string) list \<Rightarrow> KrakenFeedHandler \<Rightarrow> exn + KrakenFeedHandler" where
  "kraken_run L rt [] h = Inr h"
| "kraken_run L rt ((now, m) # ms) h = and_then (kraken_process_message L rt now m h) (\<lambda>(_, h'). kraken_run L rt ms h')"

text \<open>Over any messages of a connection the local book stays within the subscribed depth.\<close>

lemma kraken_depth_bounded:
  "kraken_run L rt msgs h = Inr h' \<Longrightarrow> depth_ok h \<Longrightarrow> depth_ok h'"
  by (induction L rt msgs h rule: kraken_run.induct) (auto simp: and_then_Inr dest: message_depth)

section \<open>The regular expression finds the levels\<close>

text \<open>A side of the book as Kraken writes it.\<close>

definition level_json :: "string \<times> string \<Rightarrow> string" where
  "level_json l = CHR ''{'' # quote_mark # ''price'' @ quote_mark # CHR '':'' # fst l @ CHR '','' #
     quote_mark # ''qty'' @ quote_mark # CHR '':'' # snd l @ ''}''"

fun levels_json :: "(string \<times> string) list \<Rightarrow> string" where
  "levels_json [] = []"
| "levels_json [l] = level_json l"
| "levels_json (l # ls) = level_json l @ CHR '','' # levels_json ls"

definition wire_number :: "string \<Rightarrow> bool" where
  "wire_number s \<longleftrightarrow> s \<noteq> [] \<and> list_all number_char s"

lemma number_char_facts [simp]:
  "\<not> number_char quote_mark" "\<not> number_char (CHR '','')" "\<not> number_char (CHR ''}'')" "\<not> number_char (CHR ''['')" "\<not> number_char (CHR '']'')"
  by code_simp+

lemma wire_number_Cons: "wire_number s \<Longrightarrow> \<exists>c t. s = c # t \<and> number_char c"
  by (cases s) (auto simp: wire_number_def)

lemma number_not_space: "number_char c \<Longrightarrow> \<not> is_space c"
  by (auto simp: number_char_def is_digit_def is_space_def code_def)

lemma token_read:
  assumes "wire_number s" "\<not> number_char c" "c \<noteq> quote_mark"
  shows "number_token (s @ c # t) = Some (s, c # t)"
proof -
  obtain d u where s: "s = d # u" "number_char d" using wire_number_Cons[OF assms(1)] by blast
  then have "d \<noteq> quote_mark" by auto
  moreover have "takeWhile number_char (s @ c # t) = s" "dropWhile number_char (s @ c # t) = c # t"
    using assms by (simp_all add: wire_number_def list_all_iff)
  ultimately show ?thesis using s assms(3) by (simp add: number_token_def Let_def)
qed

lemma drop_spaces: "\<not> is_space c \<Longrightarrow> dropWhile is_space (c # t) = c # t"
  by simp

lemma not_spaces [simp]: "\<not> is_space (CHR '':'')" "\<not> is_space (CHR '','')" "\<not> is_space quote_mark"
  by code_simp+

lemma field_read:
  assumes "wire_number s" "\<not> number_char c" "c \<noteq> quote_mark"
  shows "field_token name (quote_mark # name @ quote_mark # CHR '':'' # s @ c # t) = Some (s, c # t)"
proof -
  obtain d u where s: "s = d # u" "number_char d" using wire_number_Cons[OF assms(1)] by blast
  have "dropWhile is_space (s @ c # t) = s @ c # t" using s number_not_space by simp
  then show ?thesis using token_read[OF assms] by (simp add: field_token_def strip_prefix_def)
qed

lemma pattern_read:
  assumes "wire_number p" "wire_number q"
  shows "level_pattern (tl (level_json (p, q) @ t)) = Some (p, q, CHR ''}'' # t)"
proof -
  have "quote_mark \<noteq> CHR '',''" "quote_mark \<noteq> CHR ''}''" by (simp_all add: quote_mark_def)
  then show ?thesis
    using field_read[OF assms(1), of "CHR '',''" "''price''" "quote_mark # ''qty'' @ quote_mark # CHR '':'' # q @ CHR ''}'' # t"]
      field_read[OF assms(2), of "CHR ''}''" "''qty''" t]
    by (simp add: level_pattern_def level_json_def strip_prefix_def)
qed

lemma pattern_needs_quote: "c \<noteq> quote_mark \<Longrightarrow> level_pattern (c # t) = None"
  by (simp add: level_pattern_def field_token_def strip_prefix_def)

lemma all_levels_skip: "c \<noteq> quote_mark \<Longrightarrow> all_levels (c # t) = all_levels t"
  by (subst all_levels.simps) (simp add: pattern_needs_quote)

lemma unquote_number: "wire_number s \<Longrightarrow> unquote s = s"
  using wire_number_Cons[of s] by (auto simp: unquote_def)

lemma all_levels_read:
  assumes "wire_number p" "wire_number q"
  shows "all_levels (level_json (p, q) @ t) = (p, q) # all_levels t"
proof -
  let ?s = "tl (level_json (p, q) @ t)"
  have q: "CHR ''{'' \<noteq> quote_mark" "CHR ''}'' \<noteq> quote_mark" by (simp_all add: quote_mark_def)
  have "level_json (p, q) @ t = CHR ''{'' # ?s" by (simp add: level_json_def)
  then have "all_levels (level_json (p, q) @ t) = all_levels ?s" using q(1) by (metis all_levels_skip)
  also have "\<dots> = (p, q) # all_levels (CHR ''}'' # t)"
    using pattern_read[OF assms, of t] assms by (subst all_levels.simps) (auto simp: unquote_number level_json_def)
  finally show ?thesis using q(2) by (simp add: all_levels_skip)
qed

abbreviation wire_levels :: "(string \<times> string) list \<Rightarrow> bool" where
  "wire_levels ls \<equiv> list_all (\<lambda>l. wire_number (fst l) \<and> wire_number (snd l)) ls"

lemma all_levels_join: "wire_levels ls \<Longrightarrow> all_levels (levels_json ls @ '']'') = ls"
proof (induction ls rule: levels_json.induct)
  case 1
  have "CHR '']'' \<noteq> quote_mark" by (simp add: quote_mark_def)
  then show ?case using all_levels_skip[of "CHR '']''" "[]"] by (simp add: all_levels.simps[of "[]"])
next
  case (2 l)
  have "CHR '']'' \<noteq> quote_mark" by (simp add: quote_mark_def)
  then show ?case using 2 all_levels_read[of "fst l" "snd l" "'']''"] all_levels_skip[of "CHR '']''" "[]"]
    by (simp add: all_levels.simps[of "[]"])
next
  case (3 l v va)
  have "CHR '','' \<noteq> quote_mark" by (simp add: quote_mark_def)
  then show ?case using 3 all_levels_read[of "fst l" "snd l" "CHR '','' # levels_json (v # va) @ '']''"]
    by (simp add: all_levels_skip)
qed

text \<open>No bracket occurs inside the levels, so the body ends at the closing one.\<close>

lemma bracketed_plain:
  "list_all (\<lambda>c. c \<noteq> CHR ''['' \<and> c \<noteq> CHR '']'') s \<Longrightarrow> bracketed (Suc 0) (s @ CHR '']'' # t) = Some (s @ '']'')"
  by (induction s) auto

lemma number_no_bracket: "wire_number s \<Longrightarrow> list_all (\<lambda>c. c \<noteq> CHR ''['' \<and> c \<noteq> CHR '']'') s"
  by (auto simp: wire_number_def list_all_iff)

lemma levels_no_bracket: "wire_levels ls \<Longrightarrow> list_all (\<lambda>c. c \<noteq> CHR ''['' \<and> c \<noteq> CHR '']'') (levels_json ls)"
  by (induction ls rule: levels_json.induct) (auto simp: level_json_def quote_mark_def number_no_bracket)



section \<open>Levels that are cut off\<close>

definition kraken_sample_json :: "(string \<times> json) list" where
  "kraken_sample_json =
    (let lvl = (\<lambda>p q. JObject [(''price'', JString p), (''qty'', JString q)]);
         msg = (\<lambda>t bids asks. JObject [(''channel'', JString ''book''), (''type'', JString t),
           (''data'', JArray [JObject [(''bids'', JArray bids), (''asks'', JArray asks)]])])
     in [(''snapshot'', msg ''snapshot'' [lvl ''5'' ''1'', lvl ''4'' ''1''] [lvl ''9'' ''1'']),
         (''update'', msg ''update'' [lvl ''6'' ''1''] [])])"

abbreviation kraken_sample_run :: "exn + KrakenFeedHandler" where
  "kraken_sample_run \<equiv> kraken_run (table_json kraken_sample_json) (\<lambda>_. None) [(1, ''snapshot''), (2, ''update'')]
     ((kraken_established (kraken_init ''X''))\<lparr>kf_subscribed_depth := 2\<rparr>)"

text \<open>
  The subscriber of a Kraken feed keeps levels that the handler has dropped: when an update makes
  a side longer than the subscribed depth, the handler cuts its own side and passes on nothing, so
  while it streams, with the checksum it verifies in order, its subscriber holds a stale level that
  the venue will never mention again. Here the depth is 2 and the level is the bid at 4.
\<close>

theorem kraken_subscriber_keeps_cut_levels:
  "case kraken_sample_run of
     Inl _ \<Rightarrow> False
   | Inr h \<Rightarrow> kf_state h = STREAMING \<and> sizes (kf_bids h) = [(Fin 6, Fin 1), (Fin 5, Fin 1)] \<and>
       fst (fold subscriber (kf_events h) ([], [])) = [(Fin 6, Fin 1), (Fin 5, Fin 1), (Fin 4, Fin 1)]"
  by code_simp

section \<open>The connection\<close>

definition kraken_ws_address :: "string \<Rightarrow> std_error + string \<times> int \<times> string" where
  "kraken_ws_address = parse_ws_url ''ws.kraken.com'' 443 ''/v2''"

definition kraken_receive :: "string \<Rightarrow> bool \<Rightarrow> string \<Rightarrow> string \<times> string option" where
  "kraken_receive = receive_fragment 131072"

definition kraken_subscribe_messages :: "string \<Rightarrow> string list" where
  \<open>kraken_subscribe_messages ws_sym =
     [''{"method":"subscribe","params":{"channel":"book","symbol":["'' @ ws_sym @ ''"],"depth":100,"snapshot":true}}'',
      ''{"method":"subscribe","params":{"channel":"trade","symbol":["'' @ ws_sym @ ''"],"snapshot":false}}'']\<close>

end
