(* ===== verification/Symbol_Mapper.thy ===== *)
theory Symbol_Mapper
  imports Trading_Types Std_Strings
begin

text \<open>
  \<^verbatim>\<open>core/common/symbol_mapper.hpp\<close>: the names of a pair at the four venues, from a name in any of
  their notations.
\<close>

record VenueSymbols =
  vs_binance :: string
  vs_okx :: string
  vs_coinbase :: string
  vs_kraken_ws :: string
  vs_kraken_rest :: string

definition for_exchange :: "Exchange \<Rightarrow> VenueSymbols \<Rightarrow> string" where
  "for_exchange ex v = (case ex of BINANCE \<Rightarrow> vs_binance v | OKX \<Rightarrow> vs_okx v | COINBASE \<Rightarrow> vs_coinbase v
     | KRAKEN \<Rightarrow> vs_kraken_rest v | UNKNOWN \<Rightarrow> vs_binance v)"

definition to_upper :: "char \<Rightarrow> char" where
  "to_upper c = (if 97 \<le> code c \<and> code c \<le> 122 then char_of (code c - 32) else c)"

definition ends_with :: "string \<Rightarrow> string \<Rightarrow> bool" where
  "ends_with suffix s \<longleftrightarrow> length suffix \<le> length s \<and> drop (length s - length suffix) s = suffix"

definition chop :: "nat \<Rightarrow> string \<Rightarrow> string" where "chop n s = take (length s - n) s"

fun strip_first_suffix :: "string list \<Rightarrow> string \<Rightarrow> string" where
  "strip_first_suffix [] s = s"
| "strip_first_suffix (suf # sufs) s = (if ends_with suf s then chop (length suf) s else strip_first_suffix sufs s)"

definition normalize_binance_futures_symbol :: "string \<Rightarrow> string" where
  "normalize_binance_futures_symbol s =
     rev (dropWhile (\<lambda>c. c = CHR ''-'' \<or> c = CHR ''_'' \<or> c = CHR ''/'')
       (rev (strip_first_suffix [''_PERP'', ''-PERP'', ''PERP''] (map to_upper s))))"

text \<open>The first separator that has something on both sides, at its first occurrence.\<close>

fun split_at_separator :: "char list \<Rightarrow> string \<Rightarrow> (string \<times> string) option" where
  "split_at_separator [] s = None"
| "split_at_separator (sep # seps) s =
     (let base = takeWhile (\<lambda>c. c \<noteq> sep) s; pos = length base
      in if sep \<in> set s \<and> pos > 0 \<and> pos + 1 < length s then Some (base, drop (pos + 1) s)
         else split_at_separator seps s)"

definition quote_suffixes :: "string list" where
  "quote_suffixes = [''FDUSD'', ''USDT'', ''USDC'', ''USDK'', ''TUSD'', ''BUSD'', ''DAI'', ''USD'',
     ''EUR'', ''GBP'', ''JPY'', ''TRY'', ''AUD'', ''CAD'', ''CHF'', ''BTC'', ''ETH'']"

fun split_quote_suffix :: "string list \<Rightarrow> string \<Rightarrow> (string \<times> string) option" where
  "split_quote_suffix [] s = None"
| "split_quote_suffix (suf # sufs) s =
     (if length s > length suf \<and> ends_with suf s then Some (chop (length suf) s, suf) else split_quote_suffix sufs s)"

text \<open>Base and quote; an empty symbol throws \<open>invalid_argument\<close>.\<close>

definition parse_symbol :: "string \<Rightarrow> std_error + string \<times> string" where
  "parse_symbol symbol =
     (if symbol = [] then Inl Invalid_argument
      else let s = map to_upper symbol in
        Inr (case split_at_separator [CHR ''-'', CHR ''/'', CHR ''_''] s of
               Some p \<Rightarrow> p
             | None \<Rightarrow> (case split_quote_suffix quote_suffixes s of
                 Some p \<Rightarrow> p
               | None \<Rightarrow> if length s > 3 then (chop 3 s, drop (length s - 3) s) else (s, []))))"

definition map_all :: "string \<Rightarrow> std_error + VenueSymbols" where
  "map_all symbol = (case parse_symbol symbol of
     Inl e \<Rightarrow> Inl e
   | Inr (base, quot) \<Rightarrow> Inr \<lparr>vs_binance = base @ quot, vs_okx = base @ ''-'' @ quot, vs_coinbase = base @ ''-'' @ quot,
       vs_kraken_ws = base @ ''/'' @ quot, vs_kraken_rest = base @ ''/'' @ quot\<rparr>)"

definition map_for_exchange :: "Exchange \<Rightarrow> string \<Rightarrow> std_error + string" where
  "map_for_exchange ex symbol = (case map_all symbol of Inl e \<Rightarrow> Inl e | Inr v \<Rightarrow> Inr (for_exchange ex v))"

definition map_for_binance_usdm_futures :: "string \<Rightarrow> std_error + string" where
  "map_for_binance_usdm_futures symbol = map_for_exchange BINANCE (normalize_binance_futures_symbol symbol)"

section \<open>Names read back\<close>

lemma to_upper_idem [simp]: "to_upper (to_upper c) = to_upper c"
proof (cases "97 \<le> code c \<and> code c \<le> 122")
  case True
  then have "(code c - 32) mod 256 = code c - 32" by (intro mod_less) linarith
  then have "code (char_of (code c - 32)) = code c - 32" by (simp add: code_def)
  moreover have "\<not> 97 \<le> code c - 32" using True by linarith
  ultimately have "to_upper (char_of (code c - 32)) = char_of (code c - 32)" by (simp add: to_upper_def)
  then show ?thesis using True by (simp add: to_upper_def[of c])
next
  case False
  then have "to_upper c = c" by (simp only: to_upper_def if_False)
  then show ?thesis by simp
qed

lemma split_found:
  assumes "sep \<notin> set base" "base \<noteq> []" "quot \<noteq> []"
  shows "split_at_separator (sep # seps) (base @ sep # quot) = Some (base, quot)"
proof -
  have "takeWhile (\<lambda>c. c \<noteq> sep) (base @ sep # quot) = base" using assms(1) by (induction base) auto
  then show ?thesis using assms(2,3) by (simp add: Let_def)
qed

lemma split_skip: "sep \<notin> set s \<Longrightarrow> split_at_separator (sep # seps) s = split_at_separator seps s"
  by (simp add: Let_def)

lemma split_at_within: "split_at_separator seps s = Some (b, q) \<Longrightarrow> set b \<subseteq> set s \<and> set q \<subseteq> set s"
  by (induction seps s rule: split_at_separator.induct)
    (auto simp: Let_def dest: set_takeWhileD in_set_dropD split: if_splits)

lemma split_suffix_within:
  "split_quote_suffix us s = Some (b, q) \<Longrightarrow> set b \<subseteq> set s \<and> set q \<subseteq> set s"
proof (induction us s rule: split_quote_suffix.induct)
  case (2 suf sufs s)
  have "ends_with suf s \<Longrightarrow> set suf \<subseteq> set s" by (metis ends_with_def set_drop_subset)
  then show ?case using 2 by (auto simp: chop_def dest: in_set_takeD split: if_splits)
qed simp

lemma parse_upper: "parse_symbol s = Inr (base, quot) \<Longrightarrow> map to_upper base = base \<and> map to_upper quot = quot"
proof -
  assume a: "parse_symbol s = Inr (base, quot)"
  have "set base \<subseteq> set (map to_upper s) \<and> set quot \<subseteq> set (map to_upper s)"
  proof (cases "split_at_separator [CHR ''-'', CHR ''/'', CHR ''_''] (map to_upper s)")
    case (Some p)
    then show ?thesis using a split_at_within[of "[CHR ''-'', CHR ''/'', CHR ''_'']" "map to_upper s" base quot]
      by (simp add: parse_symbol_def Let_def del: split_at_separator.simps split: if_splits)
  next
    case none: None
    show ?thesis
    proof (cases "split_quote_suffix quote_suffixes (map to_upper s)")
      case (Some p)
      then show ?thesis using a none split_suffix_within[of quote_suffixes "map to_upper s" base quot]
        by (simp add: parse_symbol_def Let_def del: split_at_separator.simps split: if_splits)
    next
      case None
      then show ?thesis using a none
        by (auto simp: parse_symbol_def Let_def chop_def simp del: split_at_separator.simps
            dest: in_set_takeD in_set_dropD split: if_splits)
    qed
  qed
  then have "\<forall>c \<in> set base \<union> set quot. to_upper c = c" by auto
  then show ?thesis by (simp add: map_idI)
qed

text \<open>
  The names of a pair read back: whenever base and quote of a symbol are not empty and hold no
  hyphen and no slash, the name that the mapper gives it at OKX, Coinbase or Kraken is parsed to the
  same base and quote again, so mapping a venue's own name changes nothing at any venue.
\<close>

theorem venue_names_read_back:
  assumes "parse_symbol symbol = Inr (base, quot)" "base \<noteq> []" "quot \<noteq> []"
    and "list_all (\<lambda>c. c \<noteq> CHR ''-'' \<and> c \<noteq> CHR ''/'') (base @ quot)"
    and "ex = OKX \<or> ex = COINBASE \<or> ex = KRAKEN" "map_for_exchange ex symbol = Inr name"
  shows "parse_symbol name = Inr (base, quot) \<and> map_all name = map_all symbol"
proof -
  have u: "map to_upper base = base" "map to_upper quot = quot" using parse_upper[OF assms(1)] by simp_all
  have n: "to_upper (CHR ''-'') = CHR ''-''" "to_upper (CHR ''/'') = CHR ''/''" by code_simp+
  have m: "CHR ''-'' \<notin> set base" "CHR ''/'' \<notin> set base" "CHR ''-'' \<notin> set quot" using assms(4) by (auto simp: list_all_iff)
  have hyphen: "parse_symbol (base @ CHR ''-'' # quot) = Inr (base, quot)"
    using split_found[OF m(1) assms(2,3)] by (simp add: parse_symbol_def u n Let_def del: split_at_separator.simps)
  have slash: "parse_symbol (base @ CHR ''/'' # quot) = Inr (base, quot)"
    using split_found[OF m(2) assms(2,3)] split_skip[of "CHR ''-''" "base @ CHR ''/'' # quot"] m
    by (simp add: parse_symbol_def u n Let_def del: split_at_separator.simps)
  have "name = base @ CHR ''-'' # quot \<or> name = base @ CHR ''/'' # quot"
    using assms(1,5,6) by (auto simp: map_for_exchange_def map_all_def for_exchange_def)
  then have "parse_symbol name = Inr (base, quot)" using hyphen slash by blast
  then show ?thesis using assms(1) by (simp add: map_all_def)
qed

theorem venue_names_read_back_witness:
  "map_for_exchange KRAKEN ''btcusdt'' = Inr ''BTC/USDT'' \<and> map_all ''BTC/USDT'' = map_all ''btcusdt''"
proof
  show k: "map_for_exchange KRAKEN ''btcusdt'' = Inr ''BTC/USDT''" by code_simp
  have p: "parse_symbol ''btcusdt'' = Inr (''BTC'', ''USDT'')" by code_simp
  show "map_all ''BTC/USDT'' = map_all ''btcusdt''"
    using venue_names_read_back[OF p, of KRAKEN "''BTC/USDT''"] k by simp
qed

end
