(* ===== verification/Venue_Quality.thy ===== *)
theory Venue_Quality
  imports Smart_Router
begin

text \<open>
  \<open>core/execution/common/quality/venue_quality_model.hpp\<close>: per venue, exponentially smoothed
  estimates of fill probability, markouts, rejects, cancel latency and health, each moved by a
  bounded step and clamped to its range, and the penalties the router uses. Writing the snapshot to
  a log stream is left out.
\<close>

record VenueQualitySnapshot =
  qs_exchange :: Exchange
  qs_fill_probability :: double
  qs_passive_markout_bps :: double
  qs_taker_markout_bps :: double
  qs_reject_rate :: double
  qs_cancel_latency_penalty_bps :: double
  qs_health_penalty_bps :: double
  qs_stability_penalty_bps :: double
  qs_composite_penalty_bps :: double
  qs_composite_fill_probability :: double
  qs_sample_count :: u64

record VenueQualityConfig =
  qc_min_fill_probability :: double
  qc_max_fill_probability :: double
  qc_fill_probability_alpha :: double
  qc_markout_alpha :: double
  qc_reject_rate_alpha :: double
  qc_cancel_latency_alpha :: double
  qc_health_alpha :: double
  qc_max_fill_step :: double
  qc_max_markout_step_bps :: double
  qc_max_reject_step :: double
  qc_max_cancel_latency_step_bps :: double
  qc_max_health_step_bps :: double
  qc_reject_rate_penalty_bps :: double
  qc_cancel_latency_penalty_scale_bps :: double
  qc_health_penalty_scale_bps :: double
  qc_passive_markout_penalty_scale :: double
  qc_taker_markout_penalty_scale :: double
  qc_stability_penalty_scale :: double

definition mk_VenueQualityConfig :: VenueQualityConfig where
  "mk_VenueQualityConfig = \<lparr>qc_min_fill_probability = lit (10 / 100), qc_max_fill_probability = lit (98 / 100),
     qc_fill_probability_alpha = lit (18 / 100), qc_markout_alpha = lit (12 / 100),
     qc_reject_rate_alpha = lit (10 / 100), qc_cancel_latency_alpha = lit (15 / 100),
     qc_health_alpha = lit (20 / 100), qc_max_fill_step = lit (8 / 100),
     qc_max_markout_step_bps = lit (40 / 100), qc_max_reject_step = lit (6 / 100),
     qc_max_cancel_latency_step_bps = lit (35 / 100), qc_max_health_step_bps = lit (50 / 100),
     qc_reject_rate_penalty_bps = lit 6, qc_cancel_latency_penalty_scale_bps = lit 3,
     qc_health_penalty_scale_bps = lit 8, qc_passive_markout_penalty_scale = 1,
     qc_taker_markout_penalty_scale = 1, qc_stability_penalty_scale = lit (75 / 100)\<rparr>"

record QualityState =
  q_fill_probability :: double
  q_passive_markout_bps :: double
  q_taker_markout_bps :: double
  q_reject_rate :: double
  q_cancel_latency_penalty_bps :: double
  q_health_penalty_bps :: double
  q_snapshot :: VenueQualitySnapshot
  q_sample_count :: u64

definition mk_VenueQualitySnapshot :: VenueQualitySnapshot where
  "mk_VenueQualitySnapshot = \<lparr>qs_exchange = UNKNOWN, qs_fill_probability = lit (1 / 2),
     qs_passive_markout_bps = 0, qs_taker_markout_bps = 0, qs_reject_rate = 0,
     qs_cancel_latency_penalty_bps = 0, qs_health_penalty_bps = 0, qs_stability_penalty_bps = 0,
     qs_composite_penalty_bps = 0, qs_composite_fill_probability = lit (1 / 2), qs_sample_count = 0\<rparr>"

definition mk_QualityState :: QualityState where
  "mk_QualityState = \<lparr>q_fill_probability = lit (1 / 2), q_passive_markout_bps = 0,
     q_taker_markout_bps = 0, q_reject_rate = 0, q_cancel_latency_penalty_bps = 0,
     q_health_penalty_bps = 0, q_snapshot = mk_VenueQualitySnapshot, q_sample_count = 0\<rparr>"

record VenueQualityModel =
  qm_cfg :: VenueQualityConfig
  qm_states :: "QualityState list"

definition qm_init :: "VenueQualityConfig \<Rightarrow> VenueQualityModel" where
  "qm_init cfg = \<lparr>qm_cfg = cfg, qm_states = replicate 4 mk_QualityState\<rparr>"

fun quality_index_for :: "Exchange \<Rightarrow> nat" where
  "quality_index_for BINANCE = 0"
| "quality_index_for OKX = 1"
| "quality_index_for COINBASE = 2"
| "quality_index_for KRAKEN = 3"
| "quality_index_for UNKNOWN = 0"

definition state_for :: "Exchange \<Rightarrow> VenueQualityModel \<Rightarrow> QualityState" where
  "state_for exchange m = qm_states m ! quality_index_for exchange"

definition update_clamped :: "double \<Rightarrow> double \<Rightarrow> double \<Rightarrow> double \<Rightarrow> double \<Rightarrow> double \<Rightarrow> double" where
  "update_clamped value sample alpha max_step min_value max_value =
     (let delta = std_clamp (alpha * (sample - value)) (- max_step) max_step
      in std_clamp (value + delta) min_value max_value)"

definition refresh_snapshot :: "VenueQualityConfig \<Rightarrow> Exchange \<Rightarrow> QualityState \<Rightarrow> QualityState" where
  "refresh_snapshot cfg exchange s =
     (let reject_penalty = q_reject_rate s * qc_reject_rate_penalty_bps cfg;
          cancel_penalty = q_cancel_latency_penalty_bps s * qc_cancel_latency_penalty_scale_bps cfg;
          health_penalty = q_health_penalty_bps s * qc_health_penalty_scale_bps cfg;
          stability_penalty = \<bar>q_passive_markout_bps s - q_taker_markout_bps s\<bar> * qc_stability_penalty_scale cfg;
          fill_drag = std_clamp (1 - q_fill_probability s) 0 1;
          composite_fill_probability =
            std_clamp (q_fill_probability s * (1 - lit (35 / 100) * q_reject_rate s) *
                         (1 - lit (15 / 100) * q_health_penalty_bps s))
              (qc_min_fill_probability cfg) (qc_max_fill_probability cfg)
      in s\<lparr>q_snapshot := \<lparr>qs_exchange = exchange, qs_fill_probability = q_fill_probability s,
             qs_passive_markout_bps = q_passive_markout_bps s, qs_taker_markout_bps = q_taker_markout_bps s,
             qs_reject_rate = q_reject_rate s, qs_cancel_latency_penalty_bps = cancel_penalty,
             qs_health_penalty_bps = health_penalty, qs_stability_penalty_bps = stability_penalty,
             qs_composite_penalty_bps = reject_penalty + cancel_penalty + health_penalty +
               (fill_drag * lit 4) + stability_penalty,
             qs_composite_fill_probability = composite_fill_probability,
             qs_sample_count = q_sample_count s\<rparr>\<rparr>)"

text \<open>An observation changes the state of its venue and refreshes the snapshot.\<close>

definition observe :: "Exchange \<Rightarrow> (QualityState \<Rightarrow> QualityState) \<Rightarrow> VenueQualityModel \<Rightarrow> VenueQualityModel" where
  "observe exchange f m =
     (let i = quality_index_for exchange
      in m\<lparr>qm_states := (qm_states m)[i := refresh_snapshot (qm_cfg m) exchange (f (qm_states m ! i))]\<rparr>)"

definition count_sample :: "QualityState \<Rightarrow> QualityState" where
  "count_sample s = s\<lparr>q_sample_count := q_sample_count s + 1\<rparr>"

definition observe_fill_probability :: "Exchange \<Rightarrow> double \<Rightarrow> VenueQualityModel \<Rightarrow> VenueQualityModel" where
  "observe_fill_probability exchange realized m =
     observe exchange (\<lambda>s. count_sample (s\<lparr>q_fill_probability :=
       update_clamped (q_fill_probability s) realized (qc_fill_probability_alpha (qm_cfg m))
         (qc_max_fill_step (qm_cfg m)) (qc_min_fill_probability (qm_cfg m)) (qc_max_fill_probability (qm_cfg m))\<rparr>)) m"

definition observe_markout :: "Exchange \<Rightarrow> bool \<Rightarrow> double \<Rightarrow> VenueQualityModel \<Rightarrow> VenueQualityModel" where
  "observe_markout exchange passive markout_bps m =
     observe exchange (\<lambda>s. count_sample (
       if passive then s\<lparr>q_passive_markout_bps :=
         update_clamped (q_passive_markout_bps s) markout_bps (qc_markout_alpha (qm_cfg m))
           (qc_max_markout_step_bps (qm_cfg m)) (- lit 10) (lit 10)\<rparr>
       else s\<lparr>q_taker_markout_bps :=
         update_clamped (q_taker_markout_bps s) markout_bps (qc_markout_alpha (qm_cfg m))
           (qc_max_markout_step_bps (qm_cfg m)) (- lit 10) (lit 10)\<rparr>)) m"

definition observe_reject :: "Exchange \<Rightarrow> bool \<Rightarrow> VenueQualityModel \<Rightarrow> VenueQualityModel" where
  "observe_reject exchange rejected m =
     observe exchange (\<lambda>s. count_sample (s\<lparr>q_reject_rate :=
       update_clamped (q_reject_rate s) (if rejected then 1 else 0) (qc_reject_rate_alpha (qm_cfg m))
         (qc_max_reject_step (qm_cfg m)) 0 1\<rparr>)) m"

definition observe_cancel_latency :: "Exchange \<Rightarrow> int \<Rightarrow> VenueQualityModel \<Rightarrow> VenueQualityModel" where
  "observe_cancel_latency exchange latency_us m =
     (let ms = std_max 0 (of_integer latency_us / lit 1000);
          normalized_penalty = std_clamp (ms / lit 10) 0 (lit 5)
      in observe exchange (\<lambda>s. count_sample (s\<lparr>q_cancel_latency_penalty_bps :=
           update_clamped (q_cancel_latency_penalty_bps s) normalized_penalty (qc_cancel_latency_alpha (qm_cfg m))
             (qc_max_cancel_latency_step_bps (qm_cfg m)) 0 (lit 5)\<rparr>)) m)"

definition observe_health :: "Exchange \<Rightarrow> bool \<Rightarrow> VenueQualityModel \<Rightarrow> VenueQualityModel" where
  "observe_health exchange healthy m =
     observe exchange (\<lambda>s. s\<lparr>q_health_penalty_bps :=
       update_clamped (q_health_penalty_bps s) (if healthy then 0 else 1) (qc_health_alpha (qm_cfg m))
         (qc_max_health_step_bps (qm_cfg m) / std_max 1 (qc_health_penalty_scale_bps (qm_cfg m))) 0 1\<rparr>) m"

definition quality_snapshot :: "Exchange \<Rightarrow> VenueQualityModel \<Rightarrow> VenueQualitySnapshot" where
  "quality_snapshot exchange m = q_snapshot (state_for exchange m)"

definition apply_quality :: "VenueQualityModel \<Rightarrow> VenueQuote \<Rightarrow> VenueQuote" where
  "apply_quality m venue =
     (if vq_exchange venue = UNKNOWN then venue
      else let snap = quality_snapshot (vq_exchange venue) m in
        venue\<lparr>vq_adaptive_fill_probability := qs_composite_fill_probability snap,
              vq_passive_markout_bps := qs_passive_markout_bps snap,
              vq_taker_markout_bps := qs_taker_markout_bps snap,
              vq_reject_rate := qs_reject_rate snap,
              vq_cancel_latency_penalty_bps := qs_cancel_latency_penalty_bps snap,
              vq_health_penalty_bps := qs_health_penalty_bps snap,
              vq_stability_penalty_bps := qs_stability_penalty_bps snap,
              vq_quality_penalty_bps := qs_composite_penalty_bps snap\<rparr>)"

definition apply_quality_all :: "VenueQualityModel \<Rightarrow> VenueQuote list \<Rightarrow> VenueQuote list" where
  "apply_quality_all m venues = map (apply_quality m) venues"

section \<open>The estimates stay in their ranges\<close>

lemma pos_mult_not_nan: "isfinite a \<Longrightarrow> fval a \<noteq> 0 \<Longrightarrow> \<not> isnan x \<Longrightarrow> \<not> isnan (a * x :: double)"
  by (cases a; cases x) (auto simp: times_double_def inf_of_def)

text \<open>A step size: its negation is its lower end, and it is a finite number.\<close>

definition smoothing :: "double \<Rightarrow> double \<Rightarrow> bool" where
  "smoothing alpha max_step \<longleftrightarrow> isfinite alpha \<and> 0 < alpha \<and> isfinite max_step \<and> 0 \<le> max_step"

definition in_range :: "double \<Rightarrow> double \<Rightarrow> double \<Rightarrow> bool" where
  "in_range lo hi x \<longleftrightarrow> lo \<le> x \<and> x \<le> hi"

lemma clamp_finite:
  assumes "lo \<le> hi" "isfinite lo" "isfinite hi" "\<not> isnan v" shows "isfinite (std_clamp v lo hi)"
  by (rule finite_between[OF assms(2,3) std_clamp_bounds[OF assms(1,4)]])

lemma update_clamped_in_range:
  assumes s: "smoothing alpha max_step" and r: "lo \<le> hi" "isfinite lo" "isfinite hi"
    and x: "isfinite sample" and v: "in_range lo hi value"
  shows "in_range lo hi (update_clamped value sample alpha max_step lo hi)"
proof -
  have vf: "isfinite value" using finite_between[OF r(2,3)] v by (simp add: in_range_def)
  have "\<not> isnan (alpha * (sample - value))"
    using s x vf by (intro pos_mult_not_nan sub_not_nan) (auto simp: smoothing_def finite_less)
  moreover have "- max_step \<le> max_step" using s finite_le[of 0 max_step] by (simp add: smoothing_def finite_le)
  ultimately have "isfinite (std_clamp (alpha * (sample - value)) (- max_step) max_step)"
    using s by (intro clamp_finite) (auto simp: smoothing_def)
  with vf have "\<not> isnan (value + std_clamp (alpha * (sample - value)) (- max_step) max_step)" by simp
  from std_clamp_bounds[OF r(1) this] show ?thesis by (simp add: update_clamped_def in_range_def)
qed

definition quality_config_ok :: "VenueQualityConfig \<Rightarrow> bool" where
  "quality_config_ok cfg \<longleftrightarrow>
     0 \<le> qc_min_fill_probability cfg \<and> qc_max_fill_probability cfg \<le> 1 \<and>
     qc_min_fill_probability cfg \<le> lit (1 / 2) \<and> lit (1 / 2) \<le> qc_max_fill_probability cfg \<and>
     smoothing (qc_fill_probability_alpha cfg) (qc_max_fill_step cfg) \<and>
     smoothing (qc_markout_alpha cfg) (qc_max_markout_step_bps cfg) \<and>
     smoothing (qc_reject_rate_alpha cfg) (qc_max_reject_step cfg) \<and>
     smoothing (qc_cancel_latency_alpha cfg) (qc_max_cancel_latency_step_bps cfg) \<and>
     smoothing (qc_health_alpha cfg) (qc_max_health_step_bps cfg / std_max 1 (qc_health_penalty_scale_bps cfg))"

definition quality_state_ok :: "VenueQualityConfig \<Rightarrow> QualityState \<Rightarrow> bool" where
  "quality_state_ok cfg s \<longleftrightarrow>
     in_range (qc_min_fill_probability cfg) (qc_max_fill_probability cfg) (q_fill_probability s) \<and>
     in_range (- lit 10) (lit 10) (q_passive_markout_bps s) \<and>
     in_range (- lit 10) (lit 10) (q_taker_markout_bps s) \<and> in_range 0 1 (q_reject_rate s) \<and>
     in_range 0 (lit 5) (q_cancel_latency_penalty_bps s) \<and> in_range 0 1 (q_health_penalty_bps s)"

datatype quality_op = Fill_Obs Exchange double | Markout_Obs Exchange bool double | Reject_Obs Exchange bool
  | Cancel_Obs Exchange int | Health_Obs Exchange bool

fun quality_step :: "quality_op \<Rightarrow> VenueQualityModel \<Rightarrow> VenueQualityModel" where
  "quality_step (Fill_Obs e x) m = observe_fill_probability e x m"
| "quality_step (Markout_Obs e p x) m = observe_markout e p x m"
| "quality_step (Reject_Obs e b) m = observe_reject e b m"
| "quality_step (Cancel_Obs e n) m = observe_cancel_latency e n m"
| "quality_step (Health_Obs e b) m = observe_health e b m"

fun finite_op :: "quality_op \<Rightarrow> bool" where
  "finite_op (Fill_Obs e x) = isfinite x"
| "finite_op (Markout_Obs e p x) = isfinite x"
| "finite_op _ = True"

text \<open>The numbers of the unit interval are closed under products and complements.\<close>

definition unit_double :: "double \<Rightarrow> bool" where
  "unit_double x \<longleftrightarrow> isfinite x \<and> 0 \<le> fval x \<and> fval x \<le> 1"

lemma unit_in_range: "in_range 0 1 x \<longleftrightarrow> unit_double x"
  using finite_between[of 0 1 x] by (auto simp: in_range_def unit_double_def finite_le)

lemma one_le_big: "(1 :: rat) \<le> 2 powi 1000"
  by (rule one_le_power_int) simp_all

lemma unit_pack: "0 \<le> q \<Longrightarrow> q \<le> 1 \<Longrightarrow> unit_double (pack b q)"
  using pack_small[of q b] one_le_big rnd_mono[of q 1] rnd_nonneg[of q] rnd_of_int[of 1]
  by (simp add: unit_double_def)

lemma unit_mult: "unit_double a \<Longrightarrow> unit_double b \<Longrightarrow> unit_double (a * b)"
  using unit_pack[of "fval a * fval b"] by (auto simp: unit_double_def times_double_def mult_le_one split: if_splits)

lemma unit_compl: "unit_double a \<Longrightarrow> unit_double (1 - a)"
  using unit_pack[of "1 - fval a"] by (auto simp: unit_double_def minus_double_def finite_add)

text \<open>
  What the router reads: the estimates are in their ranges and, once the venue was observed, so
  is the published fill probability.
\<close>

definition published_ok :: "VenueQualityConfig \<Rightarrow> QualityState \<Rightarrow> bool" where
  "published_ok cfg s \<longleftrightarrow> quality_state_ok cfg s \<and>
     (qs_exchange (q_snapshot s) = UNKNOWN \<or>
      in_range (qc_min_fill_probability cfg) (qc_max_fill_probability cfg) (qs_composite_fill_probability (q_snapshot s)))"

lemma config_range:
  assumes "quality_config_ok cfg"
  shows "qc_min_fill_probability cfg \<le> qc_max_fill_probability cfg"
    "isfinite (qc_min_fill_probability cfg)" "isfinite (qc_max_fill_probability cfg)"
proof -
  show r: "qc_min_fill_probability cfg \<le> qc_max_fill_probability cfg"
    using assms dbl_trans by (auto simp: quality_config_ok_def)
  have "0 \<le> qc_max_fill_probability cfg" "qc_min_fill_probability cfg \<le> 1"
    using assms r dbl_trans unfolding quality_config_ok_def by blast+
  then show "isfinite (qc_min_fill_probability cfg)" "isfinite (qc_max_fill_probability cfg)"
    using assms finite_between[of 0 1] by (auto simp: quality_config_ok_def)
qed

lemma refresh_published:
  assumes c: "quality_config_ok cfg" and s: "quality_state_ok cfg s"
  shows "published_ok cfg (refresh_snapshot cfg e s)"
proof -
  have p: "unit_double (q_fill_probability s)"
    using c s dbl_trans[of 0] dbl_trans[of _ _ 1] unfolding unit_in_range[symmetric]
    by (auto simp: quality_config_ok_def quality_state_ok_def in_range_def)
  have k: "unit_double (lit (35 / 100))" "unit_double (lit (15 / 100))" by code_simp+
  have "unit_double (q_fill_probability s * (1 - lit (35 / 100) * q_reject_rate s) * (1 - lit (15 / 100) * q_health_penalty_bps s))"
    using s k p by (intro unit_mult unit_compl) (auto simp: quality_state_ok_def unit_in_range)
  then have "\<not> isnan (q_fill_probability s * (1 - lit (35 / 100) * q_reject_rate s) * (1 - lit (15 / 100) * q_health_penalty_bps s))"
    by (simp add: unit_double_def)
  from std_clamp_bounds[OF config_range(1)[OF c] this] s show ?thesis
    by (simp add: published_ok_def refresh_snapshot_def Let_def quality_state_ok_def in_range_def)
qed

lemma published_observe:
  assumes c: "quality_config_ok (qm_cfg m)" and f: "\<And>s. quality_state_ok (qm_cfg m) s \<Longrightarrow> quality_state_ok (qm_cfg m) (f s)"
    and m: "\<forall>s \<in> set (qm_states m). published_ok (qm_cfg m) s"
  shows "\<forall>s \<in> set (qm_states (observe e f m)). published_ok (qm_cfg m) s"
proof (cases "quality_index_for e < length (qm_states m)")
  case True
  then have "quality_state_ok (qm_cfg m) (qm_states m ! quality_index_for e)" using m by (simp add: published_ok_def)
  from refresh_published[OF c f[OF this], of e] m show ?thesis
    by (auto simp: observe_def Let_def dest!: set_update_subset_insert[THEN subsetD])
qed (use m in \<open>simp add: observe_def Let_def list_update_beyond\<close>)

lemma ten_range: "- lit 10 \<le> lit 10" "isfinite (- lit 10)" "isfinite (lit 10)" "(0 :: double) \<le> lit 5" "isfinite (lit 5)" "(0 :: double) \<le> 1"
  by code_simp+

lemma zero_in_range: "- lit 10 \<le> 0" "(0 :: double) \<le> lit 10" "(0 :: double) \<le> 1" "(0 :: double) \<le> lit 5"
  by code_simp+

lemma latency_penalty_finite: "isfinite (std_clamp (std_max 0 x / lit 10) 0 (lit 5))"
proof -
  have "\<not> isnan (std_max 0 x / lit 10)"
  proof -
    have "lit 10 = Fin 10" by code_simp
    then show ?thesis using std_max_zero(2)[of x]
      by (cases "std_max 0 x") (auto simp: divide_double_def inf_of_def)
  qed
  then show ?thesis by (intro clamp_finite ten_range) simp_all
qed

lemma quality_state_step:
  assumes c: "quality_config_ok (qm_cfg m)" and o: "finite_op x"
    and m: "\<forall>s \<in> set (qm_states m). published_ok (qm_cfg m) s"
  shows "\<forall>s \<in> set (qm_states (quality_step x m)). published_ok (qm_cfg m) s"
proof -
  note u = update_clamped_in_range and r = config_range[OF c]
  note sm = c[unfolded quality_config_ok_def]
  show ?thesis
  proof (cases x)
    case (Fill_Obs e y)
    then show ?thesis using sm o r
      by (auto simp: observe_fill_probability_def count_sample_def quality_state_ok_def intro!: published_observe[OF c _ m] u)
  next
    case (Markout_Obs e p y)
    then show ?thesis using sm o ten_range
      by (auto simp: observe_markout_def count_sample_def quality_state_ok_def intro!: published_observe[OF c _ m] u)
  next
    case (Reject_Obs e b)
    then show ?thesis using sm ten_range
      by (auto simp: observe_reject_def count_sample_def quality_state_ok_def intro!: published_observe[OF c _ m] u)
  next
    case (Cancel_Obs e n)
    then show ?thesis using sm ten_range latency_penalty_finite
      by (auto simp: observe_cancel_latency_def count_sample_def quality_state_ok_def Let_def intro!: published_observe[OF c _ m] u)
  next
    case (Health_Obs e b)
    then show ?thesis using sm ten_range
      by (auto simp: observe_health_def quality_state_ok_def intro!: published_observe[OF c _ m] u)
  qed
qed

lemma quality_cfg_step [simp]: "qm_cfg (quality_step x m) = qm_cfg m"
  by (cases x) (simp_all add: observe_fill_probability_def observe_markout_def observe_reject_def
    observe_cancel_latency_def observe_health_def observe_def Let_def)

text \<open>
  The quality estimates stay in their ranges: after any sequence of observations with finite
  samples, fill probability, markouts, reject rate, cancel latency and health of every venue are
  within their bounds, and the fill probability the router reads is within the configured limits.
\<close>
theorem quality_in_range:
  assumes "quality_config_ok cfg" "list_all finite_op ops"
  shows "list_all (published_ok cfg) (qm_states (fold quality_step ops (qm_init cfg)))"
proof -
  have "\<forall>s \<in> set (qm_states (fold quality_step ops m)). published_ok (qm_cfg m) s"
    if "quality_config_ok (qm_cfg m)" "list_all finite_op ops" "\<forall>s \<in> set (qm_states m). published_ok (qm_cfg m) s" for m
    using that
  proof (induction ops arbitrary: m)
    case (Cons x xs)
    have 1: "\<forall>s \<in> set (qm_states (quality_step x m)). published_ok (qm_cfg m) s"
      by (rule quality_state_step[OF Cons.prems(1) _ Cons.prems(3)]) (use Cons.prems(2) in simp)
    have "\<forall>s \<in> set (qm_states (fold quality_step xs (quality_step x m))). published_ok (qm_cfg (quality_step x m)) s"
      by (rule Cons.IH) (use Cons.prems 1 in simp_all)
    then show ?case by simp
  qed simp
  note run = this[of "qm_init cfg"]
  have "published_ok cfg mk_QualityState"
    using assms(1) zero_in_range
    by (simp add: published_ok_def quality_state_ok_def mk_QualityState_def mk_VenueQualitySnapshot_def in_range_def quality_config_ok_def)
  then have "\<forall>s \<in> set (qm_states (qm_init cfg)). published_ok (qm_cfg (qm_init cfg)) s" "qm_cfg (qm_init cfg) = cfg"
    by (simp_all add: qm_init_def)
  with run assms show ?thesis by (simp add: list_all_iff)
qed

theorem quality_in_range_witness:
  "list_all (published_ok mk_VenueQualityConfig)
     (qm_states (fold quality_step [Fill_Obs OKX 0, Reject_Obs OKX True, Cancel_Obs KRAKEN 5000] (qm_init mk_VenueQualityConfig)))"
proof -
  have "quality_config_ok mk_VenueQualityConfig" by code_simp
  then show ?thesis by (rule quality_in_range) simp
qed

end
