(* ===== verification/Quality_Runtime.thy ===== *)
theory Quality_Runtime
  imports Venue_Quality
begin

text \<open>
  \<^verbatim>\<open>core/engine/venue_quality_runtime.hpp\<close>: the live feed of the venue quality model. Every submitted order is
  tracked in one of 256 slots until its last report; fills, cancels and rejects of tracked orders
  become observations. The clock and the mid price of the venue are arguments.
\<close>

section \<open>State and operations\<close>

record TrackedOrder =
  to_active :: bool
  to_client_order_id :: u64
  to_exchange :: Exchange
  to_side :: Side
  to_tif :: TimeInForce
  to_quantity :: double
  to_filled_qty :: double
  to_submitted_at :: int

record VenueQualityRuntime =
  qr_model :: VenueQualityModel
  qr_tracked :: "TrackedOrder list"

definition MAX_TRACKED_ORDERS :: nat where "MAX_TRACKED_ORDERS = 256"

text \<open>\<open>TrackedOrder{}\<close>: every member is zero, the enumerations their first value.\<close>

definition mk_TrackedOrder :: TrackedOrder where
  "mk_TrackedOrder = \<lparr>to_active = False, to_client_order_id = 0, to_exchange = BINANCE, to_side = BID, to_tif = GTC,
     to_quantity = 0, to_filled_qty = 0, to_submitted_at = 0\<rparr>"

definition qr_init :: "VenueQualityModel \<Rightarrow> VenueQualityRuntime" where
  "qr_init m = \<lparr>qr_model = m, qr_tracked = replicate MAX_TRACKED_ORDERS mk_TrackedOrder\<rparr>"

abbreviation order_key :: "TrackedOrder \<Rightarrow> u64 \<times> Exchange" where
  "order_key t \<equiv> (to_client_order_id t, to_exchange t)"

definition qr_find :: "u64 \<Rightarrow> Exchange \<Rightarrow> TrackedOrder list \<Rightarrow> nat option" where
  "qr_find cid ex ts = find_slot (\<lambda>t. to_active t \<and> order_key t = (cid, ex)) ts"

definition qr_acquire :: "TrackedOrder list \<Rightarrow> nat option" where
  "qr_acquire ts = find_slot (\<lambda>t. \<not> to_active t) ts"

definition qr_release :: "u64 \<Rightarrow> Exchange \<Rightarrow> TrackedOrder list \<Rightarrow> TrackedOrder list" where
  "qr_release cid ex ts = (case qr_find cid ex ts of None \<Rightarrow> ts | Some i \<Rightarrow> ts[i := mk_TrackedOrder])"

definition track :: "Order \<Rightarrow> int \<Rightarrow> TrackedOrder" where
  "track ord now = \<lparr>to_active = True, to_client_order_id = o_client_order_id ord, to_exchange = o_exchange ord,
     to_side = o_side ord, to_tif = o_tif ord, to_quantity = std_max 0 (o_quantity ord), to_filled_qty = 0,
     to_submitted_at = now\<rparr>"

definition qr_on_submit :: "Order \<Rightarrow> ConnectorResult \<Rightarrow> int \<Rightarrow> VenueQualityRuntime \<Rightarrow> VenueQualityRuntime" where
  "qr_on_submit ord result now r =
     (if result \<noteq> C_OK then
        \<lparr>qr_model = observe_reject (o_exchange ord) True (qr_model r),
         qr_tracked = qr_release (o_client_order_id ord) (o_exchange ord) (qr_tracked r)\<rparr>
      else
        let m = observe_reject (o_exchange ord) False (qr_model r);
            slot = (case qr_find (o_client_order_id ord) (o_exchange ord) (qr_tracked r) of
              Some i \<Rightarrow> Some i | None \<Rightarrow> qr_acquire (qr_tracked r))
        in \<lparr>qr_model = m, qr_tracked = (case slot of None \<Rightarrow> qr_tracked r
              | Some i \<Rightarrow> (qr_tracked r)[i := track ord now])\<rparr>)"

definition realized_fill_quality_bps :: "TrackedOrder \<Rightarrow> double \<Rightarrow> double \<Rightarrow> double" where
  "realized_fill_quality_bps t fill_price mid_price =
     (if mid_price \<le> 0 \<or> fill_price \<le> 0 then 0
      else if to_side t = BID then (mid_price - fill_price) / mid_price * lit 10000
      else (fill_price - mid_price) / mid_price * lit 10000)"

definition fill_share :: "TrackedOrder \<Rightarrow> double" where
  "fill_share t = std_clamp (to_filled_qty t / to_quantity t) 0 1"

text \<open>The part of \<open>on_fill\<close> under \<open>fill_qty > 0\<close>.\<close>

definition take_fill :: "Exchange \<Rightarrow> FillUpdate \<Rightarrow> double \<Rightarrow> TrackedOrder \<Rightarrow> VenueQualityModel \<Rightarrow>
    TrackedOrder \<times> VenueQualityModel" where
  "take_fill ex u mid_price t m =
     (if fu_fill_qty u > 0 then
        let t = t\<lparr>to_filled_qty := std_clamp (std_max (to_filled_qty t)
              (std_max (fu_cumulative_filled_qty u) (to_filled_qty t + fu_fill_qty u))) 0 (to_quantity t)\<rparr>;
            m = (if to_quantity t > 0 then observe_fill_probability ex (fill_share t) m else m);
            m = (if mid_price > 0 \<and> fu_fill_price u > 0
                 then observe_markout ex (to_tif t = GTX) (realized_fill_quality_bps t (fu_fill_price u) mid_price) m
                 else m)
        in (t, m)
      else (t, m))"

definition qr_on_fill :: "Exchange \<Rightarrow> FillUpdate \<Rightarrow> int \<Rightarrow> double \<Rightarrow> VenueQualityRuntime \<Rightarrow> VenueQualityRuntime" where
  "qr_on_fill ex u now mid_price r =
     (if fu_new_state u = REJECTED then
        \<lparr>qr_model = observe_reject ex True (qr_model r),
         qr_tracked = qr_release (fu_client_order_id u) ex (qr_tracked r)\<rparr>
      else case qr_find (fu_client_order_id u) ex (qr_tracked r) of
        None \<Rightarrow> r
      | Some i \<Rightarrow>
          (case take_fill ex u mid_price (qr_tracked r ! i) (qr_model r) of (t, m) \<Rightarrow>
             let ts = (qr_tracked r)[i := t]
             in if fu_new_state u = CANCELED then
                  let m = observe_cancel_latency ex ((now - to_submitted_at t) sdiv 1000) m;
                      m = (if to_quantity t > 0 then observe_fill_probability ex (fill_share t) m else m)
                  in \<lparr>qr_model = m, qr_tracked = qr_release (fu_client_order_id u) ex ts\<rparr>
                else if fu_new_state u = FILLED then
                  \<lparr>qr_model = (if to_quantity t > 0 then observe_fill_probability ex 1 m else m),
                   qr_tracked = qr_release (fu_client_order_id u) ex ts\<rparr>
                else \<lparr>qr_model = m, qr_tracked = ts\<rparr>))"

section \<open>The table of tracked orders\<close>

text \<open>The finite map that the slots stand for, and the invariant of the table.\<close>

definition tracked_orders :: "VenueQualityRuntime \<Rightarrow> u64 \<times> Exchange \<Rightarrow> TrackedOrder option" where
  "tracked_orders r = key_map to_active order_key (qr_tracked r)"

definition qr_ok :: "VenueQualityRuntime \<Rightarrow> bool" where
  "qr_ok r \<longleftrightarrow> unique_keys to_active order_key (qr_tracked r) \<and> length (qr_tracked r) = MAX_TRACKED_ORDERS"

lemma qr_find_Some:
  "qr_find cid ex ts = Some i \<Longrightarrow> i < length ts \<and> to_active (ts ! i) \<and> order_key (ts ! i) = (cid, ex)"
  unfolding qr_find_def by (drule find_slot_SomeD) auto

lemma qr_find_None: "qr_find cid ex ts = None \<longleftrightarrow> key_map to_active order_key ts (cid, ex) = None"
  by (simp add: qr_find_def key_map_def)

lemma release_ok:
  assumes "unique_keys to_active order_key ts"
  shows "unique_keys to_active order_key (qr_release cid ex ts)"
    and "key_map to_active order_key (qr_release cid ex ts) = (key_map to_active order_key ts)((cid, ex) := None)"
proof -
  have i: "\<not> to_active mk_TrackedOrder" by (simp add: mk_TrackedOrder_def)
  show "unique_keys to_active order_key (qr_release cid ex ts)"
    using assms i by (auto simp: qr_release_def split: option.split intro!: unique_keys_update)
  show "key_map to_active order_key (qr_release cid ex ts) = (key_map to_active order_key ts)((cid, ex) := None)"
  proof (cases "qr_find cid ex ts")
    case None
    then show ?thesis using qr_find_None[of cid ex ts] by (simp add: qr_release_def fun_upd_idem)
  next
    case (Some i)
    from qr_find_Some[OF Some] show ?thesis using Some key_map_drop[OF assms, of i mk_TrackedOrder "(cid, ex)"] i
      by (simp add: qr_release_def)
  qed
qed

lemma length_release [simp]: "length (qr_release cid ex ts) = length ts"
  by (simp add: qr_release_def split: option.split)

lemma submission_frees_or_tracks:
  assumes "qr_ok r"
  shows "qr_ok (qr_on_submit ord result now r) \<and>
    tracked_orders (qr_on_submit ord result now r) =
      (if result \<noteq> C_OK then (tracked_orders r)((o_client_order_id ord, o_exchange ord) := None)
       else if tracked_orders r (o_client_order_id ord, o_exchange ord) = None \<and> list_all to_active (qr_tracked r)
       then tracked_orders r
       else (tracked_orders r)((o_client_order_id ord, o_exchange ord) \<mapsto> track ord now))"
proof (cases "result = C_OK")
  case False
  then show ?thesis using assms release_ok[of "qr_tracked r"]
    by (simp add: qr_ok_def tracked_orders_def qr_on_submit_def)
next
  case True
  let ?k = "(o_client_order_id ord, o_exchange ord)" and ?ts = "qr_tracked r"
  have u: "unique_keys to_active order_key ?ts" using assms by (simp add: qr_ok_def)
  have t: "to_active (track ord now)" "order_key (track ord now) = ?k" by (simp_all add: track_def)
  have put: ?thesis if i: "i < length ?ts" "(case qr_find (o_client_order_id ord) (o_exchange ord) ?ts of
        Some i \<Rightarrow> Some i | None \<Rightarrow> qr_acquire ?ts) = Some i"
      and old: "to_active (?ts ! i) \<Longrightarrow> order_key (?ts ! i) = ?k"
      and fresh: "\<And>j. j < length ?ts \<Longrightarrow> j \<noteq> i \<Longrightarrow> to_active (?ts ! j) \<Longrightarrow> order_key (?ts ! j) \<noteq> ?k"
      and some: "\<not> (tracked_orders r ?k = None \<and> list_all to_active ?ts)" for i
  proof -
    have m: "key_map to_active order_key (?ts[i := track ord now]) = (key_map to_active order_key ?ts)(?k \<mapsto> track ord now)"
      by (rule key_map_put[OF u i(1) t old fresh])
    have "unique_keys to_active order_key (?ts[i := track ord now])"
      using fresh t(2) by (intro unique_keys_update[OF u]) auto
    with m assms True i(2) show ?thesis
      unfolding if_not_P[OF some] by (simp add: qr_ok_def tracked_orders_def qr_on_submit_def Let_def)
  qed
  show ?thesis
  proof (cases "qr_find (o_client_order_id ord) (o_exchange ord) ?ts")
    case (Some i)
    note f = qr_find_Some[OF Some]
    show ?thesis
    proof (rule put)
      show "order_key (?ts ! j) \<noteq> ?k" if "j < length ?ts" "j \<noteq> i" "to_active (?ts ! j)" for j
        using unique_keysD[OF u that(1), of i] f that by auto
      show "\<not> (tracked_orders r ?k = None \<and> list_all to_active ?ts)"
        using Some qr_find_None[of "o_client_order_id ord" "o_exchange ord" ?ts] by (simp add: tracked_orders_def)
    qed (use f Some in auto)
  next
    case None
    then have n: "tracked_orders r ?k = None" using qr_find_None by (simp add: tracked_orders_def)
    show ?thesis
    proof (cases "qr_acquire ?ts")
      case (Some i)
      then have f: "i < length ?ts" "\<not> to_active (?ts ! i)"
        unfolding qr_acquire_def by (auto dest: find_slot_SomeD)
      show ?thesis
      proof (rule put)
        show "order_key (?ts ! j) \<noteq> ?k" if "j < length ?ts" "j \<noteq> i" "to_active (?ts ! j)" for j
          using n that unfolding tracked_orders_def key_map_None by (metis nth_mem)
        show "\<not> (tracked_orders r ?k = None \<and> list_all to_active ?ts)"
          using f by (auto simp: list_all_length)
      qed (use f None Some in auto)
    next
      case none: None
      then have "list_all to_active ?ts" by (auto simp: qr_acquire_def find_slot_None list_all_iff)
      then show ?thesis using assms True None none n
        by (simp add: qr_ok_def tracked_orders_def qr_on_submit_def Let_def)
    qed
  qed
qed

lemma init_ok: "qr_ok (qr_init m)"
  by (simp add: qr_init_def qr_ok_def unique_keys_def mk_TrackedOrder_def)

lemma init_free: "\<not> list_all to_active (qr_tracked (qr_init m))" "tracked_orders (qr_init m) k = None"
  by (simp_all add: qr_init_def mk_TrackedOrder_def MAX_TRACKED_ORDERS_def list_all_iff tracked_orders_def key_map_None)

text \<open>
  What a submission does to the tracked orders: an accepted order is tracked from then on, with
  nothing filled, in the place of an older one with its identity or in a free slot, and no
  other order is touched; when all 256 slots are taken a new order is not tracked at all. A refused
  order is tracked no more.
\<close>

theorem submission_tracks_order:
  assumes "qr_ok r"
  shows "qr_ok (qr_on_submit ord result now r) \<and>
    tracked_orders (qr_on_submit ord result now r) =
      (if result \<noteq> C_OK then (tracked_orders r)((o_client_order_id ord, o_exchange ord) := None)
       else if tracked_orders r (o_client_order_id ord, o_exchange ord) = None \<and> list_all to_active (qr_tracked r)
       then tracked_orders r
       else (tracked_orders r)((o_client_order_id ord, o_exchange ord) \<mapsto> track ord now))"
  using submission_frees_or_tracks[OF assms] .

theorem submission_tracks_order_witness:
  "tracked_orders (qr_on_submit (mk_Order\<lparr>o_client_order_id := 7\<rparr>) C_OK 5 (qr_init (qm_init mk_VenueQualityConfig))) (7, UNKNOWN) =
     Some (track (mk_Order\<lparr>o_client_order_id := 7\<rparr>) 5)"
  using submission_tracks_order[OF init_ok[of "qm_init mk_VenueQualityConfig"], of "mk_Order\<lparr>o_client_order_id := 7\<rparr>" C_OK 5] init_free[of "qm_init mk_VenueQualityConfig"]
  by (simp add: mk_Order_def)

text \<open>
  The engine reports a submission to the model after the order has gone out. When the report that
  completes an order comes first, as a shadow order's does, the fill is lost: the model
  learns nothing from it, and the submission that follows takes a slot with nothing filled although
  the order has ended, so no report will free it.
\<close>

theorem early_fill_leaves_slot:
  assumes "qr_ok r" and "tracked_orders r (o_client_order_id ord, o_exchange ord) = None"
    and "\<not> list_all to_active (qr_tracked r)"
    and "fu_client_order_id u = o_client_order_id ord" and "fu_new_state u = FILLED"
  shows "qr_on_fill (o_exchange ord) u t mid r = r \<and>
    tracked_orders (qr_on_submit ord C_OK t' (qr_on_fill (o_exchange ord) u t mid r))
      (o_client_order_id ord, o_exchange ord) = Some (track ord t')"
proof -
  have "qr_find (fu_client_order_id u) (o_exchange ord) (qr_tracked r) = None"
    using assms(2,4) by (simp add: qr_find_None tracked_orders_def)
  then have f: "qr_on_fill (o_exchange ord) u t mid r = r" using assms(5) by (simp add: qr_on_fill_def)
  show ?thesis
    unfolding f submission_frees_or_tracks[OF assms(1), THEN conjunct2] using assms(3) by simp
qed

theorem early_fill_leaves_slot_witness:
  "qr_on_fill UNKNOWN (mk_FillUpdate\<lparr>fu_client_order_id := 7, fu_new_state := FILLED\<rparr>) 5 0
       (qr_init (qm_init mk_VenueQualityConfig)) = qr_init (qm_init mk_VenueQualityConfig) \<and>
   tracked_orders (qr_on_submit (mk_Order\<lparr>o_client_order_id := 7\<rparr>) C_OK 6
     (qr_on_fill UNKNOWN (mk_FillUpdate\<lparr>fu_client_order_id := 7, fu_new_state := FILLED\<rparr>) 5 0 (qr_init (qm_init mk_VenueQualityConfig))))
       (7, UNKNOWN) = Some (track (mk_Order\<lparr>o_client_order_id := 7\<rparr>) 6)"
proof -
  let ?o = "mk_Order\<lparr>o_client_order_id := 7\<rparr>"
    and ?u = "mk_FillUpdate\<lparr>fu_client_order_id := 7, fu_new_state := FILLED\<rparr>"
  have e: "o_client_order_id ?o = 7" "o_exchange ?o = UNKNOWN" "fu_client_order_id ?u = 7" "fu_new_state ?u = FILLED"
    by (simp_all add: mk_Order_def mk_FillUpdate_def)
  show ?thesis
    by (rule early_fill_leaves_slot[of "qr_init (qm_init mk_VenueQualityConfig)" ?o ?u, unfolded e, OF init_ok init_free(2) init_free(1) refl refl])
qed

end
