(* ===== verification/Market_Maker.thy ===== *)
theory Market_Maker
  imports Order_Manager Book_Manager Ipc_Signals
begin

text \<open>
  \<^verbatim>\<open>core/execution/market_maker.hpp\<close>: a market maker on top of the order manager, the book, the kill
  switch, the circuit breaker and the two signal readers. The constructor takes the switch and the
  breaker by reference; the model has one switch, the one the breaker was built with. The members
  the class does not initialise are arguments of \<open>mm_init\<close>, and so is the stack content that
  \<open>ledger_snapshot\<close> adds to. Clocks are read once for a whole update. The signals are what the
  readers returned; \<open>std::pow\<close> is an argument.
\<close>

section \<open>State\<close>

record MarketMakerConfig =
  mc_symbol :: string
  mc_exchange :: Exchange
  mc_half_spread_bps :: double
  mc_skew_factor :: double
  mc_max_skew_bps :: double
  mc_order_qty :: double
  mc_max_position :: double
  mc_requote_bps :: double
  mc_requote_signal :: double
  mc_stop_loss_bps :: double
  mc_limit_slip_bps :: double
  mc_risk_max :: double
  mc_risk_widen_bps :: double
  mc_signal_min_bps :: double
  mc_inventory_skew_decay_power :: double
  mc_shock_block_threshold :: double
  mc_illiquid_block_threshold :: double
  mc_regime_widen_bps :: double
  mc_stale_ns :: int

record quote_ids =
  qi_bid :: u64
  qi_ask :: u64
  qi_stop :: u64

record 'c MarketMaker =
  mm_om :: OrderManager
  mm_conn :: 'c
  mm_kill :: KillSwitch
  mm_breaker :: "CircuitBreaker option"
  mm_cfg :: MarketMakerConfig
  mm_ids :: quote_ids
  mm_last_quoted_mid :: double
  mm_last_signal_bps :: double
  mm_entry_price :: double
  mm_injected :: "(double \<times> double) option" \<comment> \<open>\<open>injected_signal_bps_\<close> and \<open>injected_risk_score_\<close>, when set\<close>

definition mm_init :: "OrderManager \<Rightarrow> 'c \<Rightarrow> KillSwitch \<Rightarrow> CircuitBreaker option \<Rightarrow> MarketMakerConfig \<Rightarrow>
    quote_ids \<Rightarrow> double \<Rightarrow> double \<Rightarrow> double \<Rightarrow> (double \<times> double) option \<Rightarrow> 'c MarketMaker" where
  "mm_init om c ks cb cfg ids mid signal entry injected =
     \<lparr>mm_om = om, mm_conn = c, mm_kill = ks, mm_breaker = cb, mm_cfg = cfg, mm_ids = ids,
      mm_last_quoted_mid = mid, mm_last_signal_bps = signal, mm_entry_price = entry, mm_injected = injected\<rparr>"

text \<open>The virtual calls of the exchange connector that the order manager makes.\<close>

record 'c conn_ops =
  co_submit :: "'c connector_submit"
  co_cancel :: "u64 \<Rightarrow> 'c \<Rightarrow> ConnectorResult \<times> FillUpdate list \<times> 'c"

text \<open>What an update reads from outside: the clocks, the signals, the stack.\<close>

record mm_env =
  me_wall :: int
  me_steady :: int
  me_alpha :: AlphaSignal
  me_regime :: RegimeSignal
  me_stack :: PositionLedgerSnapshot

section \<open>Orders\<close>

definition om_cancel :: "'c conn_ops \<Rightarrow> u64 \<Rightarrow> OrderManager \<times> 'c \<Rightarrow> ConnectorResult \<times> OrderManager \<times> 'c" where
  "om_cancel ops client_id s = (case co_cancel ops client_id (snd s) of
     (result, fills, c) \<Rightarrow> (result, fold on_connector_fill fills (fst s), c))"

definition om_realized_pnl :: "mm_env \<Rightarrow> OrderManager \<Rightarrow> snapshot_fault + double" where
  "om_realized_pnl env om = map_sum id ls_realized_pnl (snapshot (me_steady env) (me_stack env) (om_ledger om))"

definition run_pre_submit_checks :: "mm_env \<Rightarrow> BookManager \<Rightarrow> double \<Rightarrow> 'c MarketMaker \<Rightarrow>
    snapshot_fault + bool \<times> 'c MarketMaker" where
  "run_pre_submit_checks env book order_price m = (case mm_breaker m of
     None \<Rightarrow> Inr (True, m)
   | Some cb \<Rightarrow>
       (case check_order_rate (me_steady env) cb of (rate, cb) \<Rightarrow>
        let m = m\<lparr>mm_breaker := Some cb\<rparr> in
        if rate \<noteq> CB_OK then Inr (False, m)
        else case check_book_age (bm_age_ms (me_steady env) book) (cb, mm_kill m) of (stale, cb, ks) \<Rightarrow>
        let m = m\<lparr>mm_breaker := Some cb, mm_kill := ks\<rparr> in
        if stale \<noteq> CB_OK then Inr (False, m)
        else and_then (om_realized_pnl env (mm_om m)) (\<lambda>pnl.
        case check_drawdown pnl (cb, ks) of (drawdown, cb, ks) \<Rightarrow>
        let m = m\<lparr>mm_breaker := Some cb, mm_kill := ks\<rparr> in
        if drawdown \<noteq> CB_OK then Inr (False, m)
        else case check_price_deviation order_price (cb, ks) of (deviation, cb, ks) \<Rightarrow>
        let m = m\<lparr>mm_breaker := Some cb, mm_kill := ks\<rparr> in
        if deviation \<noteq> CB_OK then Inr (False, m)
        else Inr (check_consecutive_losses cb = CB_OK, m))))"

definition mm_submit :: "'c conn_ops \<Rightarrow> mm_env \<Rightarrow> BookManager \<Rightarrow> Order \<Rightarrow> 'c MarketMaker \<Rightarrow>
    snapshot_fault + u64 \<times> 'c MarketMaker" where
  "mm_submit ops env book ord m =
     and_then (run_pre_submit_checks env book (o_price ord) m) (\<lambda>(ok, m).
       if \<not> ok then Inr (0, m)
       else case submit (co_submit ops) (me_wall env) ord (mm_om m, mm_conn m) of
         (cid, om, c) \<Rightarrow> Inr (cid, m\<lparr>mm_om := om, mm_conn := c\<rparr>))"

definition limit_order :: "MarketMakerConfig \<Rightarrow> Side \<Rightarrow> double \<Rightarrow> double \<Rightarrow> Order" where
  "limit_order cfg side price qty = mk_Order\<lparr>o_symbol := buf_copy 16 (mc_symbol cfg), o_exchange := mc_exchange cfg,
     o_side := side, o_type := LIMIT, o_tif := GTX, o_price := price, o_quantity := qty\<rparr>"

definition stop_limit_order :: "MarketMakerConfig \<Rightarrow> Side \<Rightarrow> double \<Rightarrow> double \<Rightarrow> double \<Rightarrow> Order" where
  "stop_limit_order cfg side stop_px limit_px qty = mk_Order\<lparr>o_symbol := buf_copy 16 (mc_symbol cfg),
     o_exchange := mc_exchange cfg, o_side := side, o_type := STOP_LIMIT, o_tif := IOC, o_stop_price := stop_px,
     o_price := limit_px, o_quantity := qty\<rparr>"

definition cancel_one :: "'c conn_ops \<Rightarrow> u64 \<Rightarrow> 'c MarketMaker \<Rightarrow> 'c MarketMaker" where
  "cancel_one ops cid m = (if cid = 0 then m
     else case om_cancel ops cid (mm_om m, mm_conn m) of (_, om, c) \<Rightarrow> m\<lparr>mm_om := om, mm_conn := c\<rparr>)"

definition cancel_quotes :: "'c conn_ops \<Rightarrow> 'c MarketMaker \<Rightarrow> 'c MarketMaker" where
  "cancel_quotes ops m =
     (let m = cancel_one ops (qi_bid (mm_ids m)) m;
          m = m\<lparr>mm_ids := (mm_ids m)\<lparr>qi_bid := 0\<rparr>\<rparr>;
          m = cancel_one ops (qi_ask (mm_ids m)) m
      in m\<lparr>mm_ids := (mm_ids m)\<lparr>qi_ask := 0\<rparr>\<rparr>)"

section \<open>Quoting\<close>

definition mm_is_stale :: "mm_env \<Rightarrow> MarketMakerConfig \<Rightarrow> bool" where
  "mm_is_stale env cfg \<longleftrightarrow> as_ts_ns (me_alpha env) = 0 \<or> me_wall env - as_ts_ns (me_alpha env) > mc_stale_ns cfg"

text \<open>\<open>signal_bps\<close> and \<open>risk_score\<close> as quoted on, and \<open>p_shock\<close> and \<open>p_illiquid\<close>.\<close>

definition quote_signal :: "mm_env \<Rightarrow> 'c MarketMaker \<Rightarrow> double \<times> double" where
  "quote_signal env m =
     (if mm_is_stale env (mm_cfg m) then (0, 0)
      else case mm_injected m of Some s \<Rightarrow> s | None \<Rightarrow> (as_signal_bps (me_alpha env), as_risk_score (me_alpha env)))"

definition quote_regime :: "mm_env \<Rightarrow> MarketMakerConfig \<Rightarrow> double \<times> double" where
  "quote_regime env cfg =
     (if regime_is_stale (me_wall env) (me_regime env) (mc_stale_ns cfg) then (0, 0)
      else (rg_p_shock (me_regime env), rg_p_illiquid (me_regime env)))"

definition quote_skew :: "(double \<Rightarrow> double \<Rightarrow> double) \<Rightarrow> MarketMakerConfig \<Rightarrow> double \<Rightarrow> double \<Rightarrow> double" where
  "quote_skew pow cfg net_pos signal_bps =
     (let skew = (if \<bar>signal_bps\<bar> \<ge> mc_signal_min_bps cfg
            then std_max (- mc_max_skew_bps cfg) (std_min (mc_max_skew_bps cfg) (mc_skew_factor cfg * signal_bps)) else 0)
      in if mc_max_position cfg > 0 then
           let inv_ratio = std_max 0 (std_min 1 (\<bar>net_pos\<bar> / mc_max_position cfg))
           in skew * pow inv_ratio (std_max 1 (mc_inventory_skew_decay_power cfg))
         else skew)"

definition half_spreads :: "MarketMakerConfig \<Rightarrow> double \<Rightarrow> double \<Rightarrow> double \<Rightarrow> double \<Rightarrow> double \<times> double" where
  "half_spreads cfg skew risk_score p_shock p_illiquid =
     (let extra = (if risk_score \<ge> mc_risk_max cfg then mc_risk_widen_bps cfg else 0);
          extra = extra + mc_regime_widen_bps cfg * (p_shock + lit (1 / 2) * p_illiquid)
      in (std_max (mc_half_spread_bps cfg - skew + extra) (lit (1 / 2)),
          std_max (mc_half_spread_bps cfg + skew + extra) (lit (1 / 2))))"

definition quote_prices :: "double \<Rightarrow> double \<times> double \<Rightarrow> double \<times> double" where
  "quote_prices mid half = (mid * (1 - fst half * lit (1 / 10000)), mid * (1 + snd half * lit (1 / 10000)))"

definition post_side :: "'c conn_ops \<Rightarrow> mm_env \<Rightarrow> BookManager \<Rightarrow> bool \<Rightarrow> Side \<Rightarrow> double \<Rightarrow> 'c MarketMaker \<Rightarrow>
    snapshot_fault + 'c MarketMaker" where
  "post_side ops env book allowed side price m =
     (if \<not> allowed then Inr m
      else and_then (mm_submit ops env book (limit_order (mm_cfg m) side price (mc_order_qty (mm_cfg m))) m)
        (\<lambda>(cid, m). Inr (m\<lparr>mm_ids := (if side = BID then (mm_ids m)\<lparr>qi_bid := cid\<rparr> else (mm_ids m)\<lparr>qi_ask := cid\<rparr>)\<rparr>)))"

definition post_quotes :: "(double \<Rightarrow> double \<Rightarrow> double) \<Rightarrow> 'c conn_ops \<Rightarrow> mm_env \<Rightarrow> BookManager \<Rightarrow> double \<Rightarrow>
    'c MarketMaker \<Rightarrow> snapshot_fault + 'c MarketMaker" where
  "post_quotes pow ops env book mid m =
     (let cfg = mm_cfg m; net_pos = om_position (mm_om m)
      in case quote_signal env m of (signal_bps, risk_score) \<Rightarrow>
         case quote_regime env cfg of (p_shock, p_illiquid) \<Rightarrow>
         if p_shock \<ge> mc_shock_block_threshold cfg \<or> p_illiquid \<ge> mc_illiquid_block_threshold cfg
         then Inr (cancel_quotes ops m)
         else case quote_prices mid (half_spreads cfg (quote_skew pow cfg net_pos signal_bps) risk_score p_shock p_illiquid) of
           (bid_px, ask_px) \<Rightarrow>
           let qty = mc_order_qty cfg in
           and_then (post_side ops env book (net_pos + qty \<le> mc_max_position cfg) BID bid_px m) (\<lambda>m.
           and_then (post_side ops env book (net_pos - qty \<ge> - mc_max_position cfg) ASK ask_px m) (\<lambda>m.
             Inr (m\<lparr>mm_last_quoted_mid := mid, mm_last_signal_bps := signal_bps\<rparr>))))"

section \<open>The stop\<close>

definition check_stop :: "'c conn_ops \<Rightarrow> mm_env \<Rightarrow> BookManager \<Rightarrow> double \<Rightarrow> 'c MarketMaker \<Rightarrow>
    snapshot_fault + 'c MarketMaker" where
  "check_stop ops env book mid m =
     (let pos = om_position (mm_om m); entry = mm_entry_price m; cfg = mm_cfg m
      in if deq pos 0 \<or> qi_stop (mm_ids m) \<noteq> 0 then Inr m
         else if entry \<le> 0 then Inr m
         else
           let unreal_bps = (if pos > 0 then (mid - entry) / entry * lit 10000 else (entry - mid) / entry * lit 10000)
           in if unreal_bps < - mc_stop_loss_bps cfg then
                let m = cancel_quotes ops m;
                    (side, limit_px) = (if pos > 0 then (ASK, mid * (1 - mc_limit_slip_bps cfg * lit (1 / 10000)))
                                        else (BID, mid * (1 + mc_limit_slip_bps cfg * lit (1 / 10000))))
                in and_then (mm_submit ops env book (stop_limit_order cfg side mid limit_px \<bar>pos\<bar>) m) (\<lambda>(cid, m).
                     Inr (m\<lparr>mm_ids := (mm_ids m)\<lparr>qi_stop := cid\<rparr>\<rparr>))
              else Inr m)"

section \<open>Fills\<close>

definition clear_id :: "u64 \<Rightarrow> quote_ids \<Rightarrow> quote_ids" where
  "clear_id cid ids = \<lparr>qi_bid = (if cid = qi_bid ids then 0 else qi_bid ids),
     qi_ask = (if cid = qi_ask ids then 0 else qi_ask ids), qi_stop = (if cid = qi_stop ids then 0 else qi_stop ids)\<rparr>"

definition entry_after_fill :: "double \<Rightarrow> double \<Rightarrow> double \<Rightarrow> double \<Rightarrow> double" where
  "entry_after_fill entry pos signed_fill_qty px =
     (let prev_pos = pos - signed_fill_qty
      in if deq pos 0 then 0
         else if deq prev_pos 0 \<or> entry \<le> 0 then px
         else if prev_pos > 0 \<and> signed_fill_qty > 0 \<or> prev_pos < 0 \<and> signed_fill_qty < 0 then
           (entry * \<bar>prev_pos\<bar> + px * \<bar>signed_fill_qty\<bar>) / (\<bar>prev_pos\<bar> + \<bar>signed_fill_qty\<bar>)
         else entry)"

definition mm_on_fill :: "ManagedOrder \<Rightarrow> FillUpdate \<Rightarrow> 'c MarketMaker \<Rightarrow> 'c MarketMaker" where
  "mm_on_fill mo u m =
     (let cid = o_client_order_id (mo_order mo) in
      if fu_new_state u \<noteq> FILLED then m\<lparr>mm_ids := clear_id cid (mm_ids m)\<rparr>
      else
        let is_bid = o_side (mo_order mo) = BID;
            is_stop_fill = (cid = qi_stop (mm_ids m));
            stop_entry_px = mm_entry_price m;
            qty = fu_fill_qty u; px = fu_fill_price u;
            entry = entry_after_fill stop_entry_px (om_position (mm_om m)) (if is_bid then qty else - qty) px;
            m = m\<lparr>mm_entry_price := (if is_stop_fill then 0 else entry), mm_ids := clear_id cid (mm_ids m)\<rparr>
        in case mm_breaker m of
             Some cb \<Rightarrow>
               if is_stop_fill then
                 (case record_leg_result (if is_bid then (stop_entry_px - px) * qty else (px - stop_entry_px) * qty)
                    (cb, mm_kill m) of (_, cb, ks) \<Rightarrow> m\<lparr>mm_breaker := Some cb, mm_kill := ks\<rparr>)
               else m
           | None \<Rightarrow> m)"

text \<open>\<open>drain_fills\<close> with this class as the listener of the order manager.\<close>

definition mm_apply_fill :: "int \<Rightarrow> FillUpdate \<Rightarrow> 'c MarketMaker \<Rightarrow> 'c MarketMaker" where
  "mm_apply_fill now u m = (case apply_fill now u (mm_om m) of
     (om, None) \<Rightarrow> m\<lparr>mm_om := om\<rparr>
   | (om, Some (mo, u)) \<Rightarrow> mm_on_fill mo u (m\<lparr>mm_om := om\<rparr>))"

fun mm_drain :: "nat \<Rightarrow> int \<Rightarrow> 'c MarketMaker \<Rightarrow> 'c MarketMaker option" where
  "mm_drain 0 now m = None"
| "mm_drain (Suc n) now m =
     (case pop (om_fill_queue (mm_om m)) of
        (None, q) \<Rightarrow> Some (m\<lparr>mm_om := (mm_om m)\<lparr>om_fill_queue := q\<rparr>\<rparr>)
      | (Some u, q) \<Rightarrow> mm_drain n now (mm_apply_fill now u (m\<lparr>mm_om := (mm_om m)\<lparr>om_fill_queue := q\<rparr>\<rparr>)))"

section \<open>An update of the book\<close>

definition requote :: "(double \<Rightarrow> double \<Rightarrow> double) \<Rightarrow> 'c conn_ops \<Rightarrow> mm_env \<Rightarrow> BookManager \<Rightarrow> double \<Rightarrow>
    'c MarketMaker \<Rightarrow> snapshot_fault + 'c MarketMaker" where
  "requote pow ops env book mid m =
     (let mid_moved = \<bar>mid - mm_last_quoted_mid m\<bar> / mid * lit 10000 \<ge> mc_requote_bps (mm_cfg m);
          sig_changed = \<bar>as_signal_bps (me_alpha env) - mm_last_signal_bps m\<bar> \<ge> mc_requote_signal (mm_cfg m)
      in if qi_bid (mm_ids m) = 0 \<and> qi_ask (mm_ids m) = 0 then post_quotes pow ops env book mid m
         else if mid_moved \<or> sig_changed then post_quotes pow ops env book mid (cancel_quotes ops m)
         else Inr m)"

definition on_book_update :: "(double \<Rightarrow> double \<Rightarrow> double) \<Rightarrow> 'c conn_ops \<Rightarrow> mm_env \<Rightarrow> BookManager \<Rightarrow>
    'c MarketMaker \<Rightarrow> (snapshot_fault + 'c MarketMaker) option" where
  "on_book_update pow ops env book m =
     (if ks_active (mm_kill m) then Some (Inr m)
      else case mm_drain (Suc (sq_count (om_fill_queue (mm_om m)))) (me_steady env) m of
        None \<Rightarrow> None
      | Some m \<Rightarrow>
          let mid = get_mid_price (bm_book book)
          in if \<not> ob_initialized (bm_book book) \<or> mid \<le> 0 then Some (Inr m)
             else
               let m = m\<lparr>mm_om := om_update_mid_price (mc_symbol (mm_cfg m)) (mc_exchange (mm_cfg m)) mid (mm_om m)\<rparr>
               in Some (and_then (check_stop ops env book mid m) (requote pow ops env book mid)))"

definition set_alpha_signal :: "double \<Rightarrow> double \<Rightarrow> 'c MarketMaker \<Rightarrow> 'c MarketMaker" where
  "set_alpha_signal signal_bps risk_score m = m\<lparr>mm_injected := Some (signal_bps, risk_score)\<rparr>"


section \<open>What an update leaves alone\<close>

lemma checks_frame:
  assumes "run_pre_submit_checks env book p m = Inr (ok, m')"
  shows "m' = m\<lparr>mm_breaker := mm_breaker m', mm_kill := mm_kill m'\<rparr>"
  using assms
  by (auto simp: run_pre_submit_checks_def Let_def split: option.splits prod.splits if_splits elim!: and_then_InrE)

lemma checks_same:
  assumes "run_pre_submit_checks env book p m = Inr (ok, m')"
  shows "mm_om m' = mm_om m" "mm_conn m' = mm_conn m" "mm_cfg m' = mm_cfg m" "mm_ids m' = mm_ids m"
    "mm_entry_price m' = mm_entry_price m"
  by (subst checks_frame[OF assms], simp)+

lemma mm_submitE:
  assumes "mm_submit ops env book ord m = Inr (cid, m')"
  obtains (blocked) "run_pre_submit_checks env book (o_price ord) m = Inr (False, m')" "cid = 0"
  | (passed) m1 om c where "run_pre_submit_checks env book (o_price ord) m = Inr (True, m1)"
      "submit (co_submit ops) (me_wall env) ord (mm_om m1, mm_conn m1) = (cid, om, c)" "m' = m1\<lparr>mm_om := om, mm_conn := c\<rparr>"
proof (cases "run_pre_submit_checks env book (o_price ord) m")
  case (Inl e)
  then show ?thesis using assms by (simp add: mm_submit_def)
next
  case (Inr y)
  obtain ok m1 where y: "y = (ok, m1)" by fastforce
  show ?thesis
  proof (cases ok)
    case True
    obtain cid1 om c where r: "submit (co_submit ops) (me_wall env) ord (mm_om m1, mm_conn m1) = (cid1, om, c)"
      by (metis prod_cases3)
    have "cid1 = cid" "m' = m1\<lparr>mm_om := om, mm_conn := c\<rparr>" using assms Inr y True r by (simp_all add: mm_submit_def)
    with passed Inr y True r show ?thesis by simp
  next
    case False
    have "cid = 0" "m' = m1" using assms Inr y False by (simp_all add: mm_submit_def)
    with blocked Inr y False show ?thesis by simp
  qed
qed

lemma cancel_one_frame:
  "om_position (mm_om (cancel_one ops cid m)) = om_position (mm_om m)"
  "om_slots (mm_om (cancel_one ops cid m)) = om_slots (mm_om m)"
  "om_next_id (mm_om (cancel_one ops cid m)) = om_next_id (mm_om m)"
  "mm_cfg (cancel_one ops cid m) = mm_cfg m" "mm_ids (cancel_one ops cid m) = mm_ids m"
  "mm_entry_price (cancel_one ops cid m) = mm_entry_price m"
  "mm_kill (cancel_one ops cid m) = mm_kill m"
  "mm_breaker (cancel_one ops cid m) = mm_breaker m"
  by (auto simp: cancel_one_def om_cancel_def fold_connector_fills split: prod.splits)

lemma cancel_quotes_frame [simp]:
  "om_position (mm_om (cancel_quotes ops m)) = om_position (mm_om m)"
  "om_slots (mm_om (cancel_quotes ops m)) = om_slots (mm_om m)"
  "om_next_id (mm_om (cancel_quotes ops m)) = om_next_id (mm_om m)"
  "mm_cfg (cancel_quotes ops m) = mm_cfg m"
  "mm_ids (cancel_quotes ops m) = \<lparr>qi_bid = 0, qi_ask = 0, qi_stop = qi_stop (mm_ids m)\<rparr>"
  "mm_entry_price (cancel_quotes ops m) = mm_entry_price m"
  "mm_kill (cancel_quotes ops m) = mm_kill m"
  "mm_breaker (cancel_quotes ops m) = mm_breaker m"
  by (simp_all add: cancel_quotes_def cancel_one_frame Let_def)

section \<open>Position limits\<close>

text \<open>A connector that also writes down the orders it is given.\<close>

definition logged :: "'c conn_ops \<Rightarrow> ('c \<times> Order list) conn_ops" where
  "logged ops = \<lparr>co_submit = (\<lambda>ord (c, sent). case co_submit ops ord c of (r, fills, c) \<Rightarrow> (r, fills, (c, sent @ [ord]))),
     co_cancel = (\<lambda>cid (c, sent). case co_cancel ops cid c of (r, fills, c) \<Rightarrow> (r, fills, (c, sent)))\<rparr>"

text \<open>An order the configuration allows at a position: a quote that cannot take it beyond the limit, or
  the stop that closes it.\<close>

definition allowed_order :: "MarketMakerConfig \<Rightarrow> double \<Rightarrow> Order \<Rightarrow> bool" where
  "allowed_order cfg pos ord \<longleftrightarrow> o_symbol ord = buf_copy 16 (mc_symbol cfg) \<and> o_exchange ord = mc_exchange cfg \<and>
     (case o_type ord of
        LIMIT \<Rightarrow> o_tif ord = GTX \<and> o_quantity ord = mc_order_qty cfg \<and>
          (if o_side ord = BID then pos + o_quantity ord \<le> mc_max_position cfg
           else pos - o_quantity ord \<ge> - mc_max_position cfg)
      | STOP_LIMIT \<Rightarrow> o_tif ord = IOC \<and> o_quantity ord = \<bar>pos\<bar> \<and> \<not> deq pos 0 \<and>
          o_side ord = (if pos > 0 then ASK else BID)
      | _ \<Rightarrow> False)"

definition extends :: "('c \<times> Order list) MarketMaker \<Rightarrow> ('c \<times> Order list) MarketMaker \<Rightarrow> bool" where
  "extends m m' \<longleftrightarrow> mm_cfg m' = mm_cfg m \<and> om_position (mm_om m') = om_position (mm_om m) \<and>
     (\<exists>sent. snd (mm_conn m') = snd (mm_conn m) @ sent \<and>
        list_all (allowed_order (mm_cfg m) (om_position (mm_om m))) sent)"

lemma extends_refl: "extends m m"
  by (simp add: extends_def)

lemma extends_trans [trans]: "extends m1 m2 \<Longrightarrow> extends m2 m3 \<Longrightarrow> extends m1 m3"
  by (auto simp: extends_def)

lemma cancel_one_log: "snd (mm_conn (cancel_one (logged ops) cid m)) = snd (mm_conn m)"
  by (cases "mm_conn m") (auto simp: cancel_one_def om_cancel_def logged_def split: prod.splits)

lemma cancel_quotes_extends: "extends m (cancel_quotes (logged ops) m)"
  unfolding extends_def cancel_quotes_frame
  by (simp add: cancel_quotes_def cancel_one_log Let_def)

lemma submit_extends:
  assumes "mm_submit (logged ops) env book ord m = Inr (cid, m')"
    and "\<And>cid t. allowed_order (mm_cfg m) (om_position (mm_om m)) (ord\<lparr>o_client_order_id := cid, o_submit_ts_ns := t\<rparr>)"
  shows "extends m m'"
  using assms(1)
proof (cases rule: mm_submitE)
  case blocked
  then show ?thesis using checks_same[OF blocked(1)] by (simp add: extends_def)
next
  case (passed m1 om c')
  note f = checks_same[OF passed(1)]
  obtain c l where cl: "mm_conn m = (c, l)" by fastforce
  have allow: "allowed_order (mm_cfg m) (om_position (mm_om m)) (stamped (me_wall env) ord (mm_om m))"
    using assms(2) by (simp add: stamped_def)
  have conn: "co_submit (logged ops) o1 (c, l) = (r, fills, c') \<Longrightarrow> snd c' = l @ [o1]" for o1 r fills c'
    by (auto simp: logged_def split: prod.splits)
  show ?thesis
    using passed f cl allow
    by (cases rule: submit_cases[of "co_submit (logged ops)" "me_wall env" ord "mm_om m" "(c, l)"])
       (auto simp: extends_def dest!: conn)
qed

lemma ids_extends: "extends m (m'\<lparr>mm_ids := ids\<rparr>) = extends m m'"
  by (simp add: extends_def)

lemma post_side_extends:
  assumes "post_side (logged ops) env book allowed side price m = Inr m'"
    and "allowed \<Longrightarrow> if side = BID then om_position (mm_om m) + mc_order_qty (mm_cfg m) \<le> mc_max_position (mm_cfg m)
         else om_position (mm_om m) - mc_order_qty (mm_cfg m) \<ge> - mc_max_position (mm_cfg m)"
  shows "extends m m'"
proof (cases allowed)
  case False
  then show ?thesis using assms(1) by (simp add: post_side_def extends_refl)
next
  case True
  then obtain cid m1 where "mm_submit (logged ops) env book (limit_order (mm_cfg m) side price (mc_order_qty (mm_cfg m))) m
      = Inr (cid, m1)" "m' = m1\<lparr>mm_ids := (if side = BID then (mm_ids m1)\<lparr>qi_bid := cid\<rparr> else (mm_ids m1)\<lparr>qi_ask := cid\<rparr>)\<rparr>"
    using assms(1) by (auto simp: post_side_def elim!: and_then_InrE)
  with assms(2)[OF True] show ?thesis
    by (auto simp: ids_extends limit_order_def allowed_order_def mk_Order_def split: if_splits intro!: submit_extends)
qed

lemma post_quotes_extends:
  assumes "post_quotes pow (logged ops) env book mid m = Inr m'"
  shows "extends m m'"
proof -
  let ?cfg = "mm_cfg m" and ?pos = "om_position (mm_om m)"
  consider "m' = cancel_quotes (logged ops) m"
    | bid_px ask_px m1 m2 s where
      "post_side (logged ops) env book (?pos + mc_order_qty ?cfg \<le> mc_max_position ?cfg) BID bid_px m = Inr m1"
      "post_side (logged ops) env book (?pos - mc_order_qty ?cfg \<ge> - mc_max_position ?cfg) ASK ask_px m1 = Inr m2"
      "m' = m2\<lparr>mm_last_quoted_mid := mid, mm_last_signal_bps := s\<rparr>"
    using assms by (auto simp: post_quotes_def Let_def split: prod.splits if_splits elim!: and_then_InrE)
  then show ?thesis
  proof cases
    case 1
    then show ?thesis by (simp add: cancel_quotes_extends)
  next
    case (2 bid_px ask_px m1 m2 s)
    have e1: "extends m m1" by (rule post_side_extends[OF 2(1)]) simp
    have "extends m1 m2"
      using e1 by (intro post_side_extends[OF 2(2)]) (simp add: extends_def)
    with e1 have "extends m m2" by (rule extends_trans)
    then show ?thesis by (simp add: 2(3) extends_def)
  qed
qed

lemma check_stop_extends:
  assumes "check_stop (logged ops) env book mid m = Inr m'"
  shows "extends m m'"
proof -
  consider "m' = m" | "\<not> deq (om_position (mm_om m)) 0" and "\<exists>side limit_px cid m1.
      side = (if om_position (mm_om m) > 0 then ASK else BID) \<and>
      mm_submit (logged ops) env book (stop_limit_order (mm_cfg m) side mid limit_px \<bar>om_position (mm_om m)\<bar>)
        (cancel_quotes (logged ops) m) = Inr (cid, m1) \<and> m' = m1\<lparr>mm_ids := (mm_ids m1)\<lparr>qi_stop := cid\<rparr>\<rparr>"
    using assms by (auto simp: check_stop_def Let_def split: prod.splits if_splits elim!: and_then_InrE)
  then show ?thesis
  proof cases
    case 1
    then show ?thesis by (simp add: extends_refl)
  next
    case 2
    then obtain side limit_px cid m1 where s: "side = (if om_position (mm_om m) > 0 then ASK else BID)"
      "mm_submit (logged ops) env book (stop_limit_order (mm_cfg m) side mid limit_px \<bar>om_position (mm_om m)\<bar>)
        (cancel_quotes (logged ops) m) = Inr (cid, m1)" "m' = m1\<lparr>mm_ids := (mm_ids m1)\<lparr>qi_stop := cid\<rparr>\<rparr>" by blast
    have "extends (cancel_quotes (logged ops) m) m1"
      using 2(1) s(1) by (intro submit_extends[OF s(2)])
        (simp add: stop_limit_order_def allowed_order_def mk_Order_def)
    with cancel_quotes_extends have "extends m m1" by (rule extends_trans)
    then show ?thesis by (simp add: s(3) ids_extends)
  qed
qed

section \<open>Draining\<close>

lemma mm_apply_fill_simps [simp]:
  "mm_om (mm_apply_fill now u m) = fst (apply_fill now u (mm_om m))"
  "mm_conn (mm_apply_fill now u m) = mm_conn m" "mm_cfg (mm_apply_fill now u m) = mm_cfg m"
  by (auto simp: mm_apply_fill_def mm_on_fill_def Let_def split: prod.splits option.splits)

lemma mm_drain_om:
  "map_option mm_om (mm_drain n now m) = drain_fills n now (mm_om m)"
  by (induction n arbitrary: m) (simp_all split: prod.splits option.splits)

lemma mm_drain_same:
  "mm_drain n now m = Some m' \<Longrightarrow> mm_conn m' = mm_conn m \<and> mm_cfg m' = mm_cfg m"
  by (induction n arbitrary: m) (auto split: prod.splits option.splits)

lemma mm_drain_total:
  assumes "om_inv (mm_om m)"
  obtains m' where "mm_drain (Suc (sq_count (om_fill_queue (mm_om m)))) now m = Some m'" "om_inv (mm_om m')"
proof -
  obtain om' where d: "drain_fills (Suc (sq_count (om_fill_queue (mm_om m)))) now (mm_om m) = Some om'" "om_inv om'"
    using drain_fills_all[OF assms refl, of "Suc (sq_count (om_fill_queue (mm_om m)))" now] by auto
  then show ?thesis
    using mm_drain_om[of "Suc (sq_count (om_fill_queue (mm_om m)))" now m] that by auto
qed

lemma update_mid_same [simp]:
  "om_position (om_update_mid_price s e p om) = om_position om" "om_slots (om_update_mid_price s e p om) = om_slots om"
  "om_next_id (om_update_mid_price s e p om) = om_next_id om"
  "om_fill_queue (om_update_mid_price s e p om) = om_fill_queue om"
  by (simp_all add: om_update_mid_price_def)

lemma requote_extends:
  assumes "requote pow (logged ops) env book mid m = Inr m'"
  shows "extends m m'"
proof (cases "qi_bid (mm_ids m) = 0 \<and> qi_ask (mm_ids m) = 0")
  case True
  from assms[unfolded requote_def Let_def if_P[OF True]] show ?thesis by (rule post_quotes_extends)
next
  case False
  obtain b where b: "(if b then post_quotes pow (logged ops) env book mid (cancel_quotes (logged ops) m) else Inr m) = Inr m'"
    using assms[unfolded requote_def Let_def if_not_P[OF False]] by (rule that)
  show ?thesis
  proof (cases b)
    case True
    from b[unfolded if_P[OF True]] show ?thesis by (rule extends_trans[OF cancel_quotes_extends post_quotes_extends])
  next
    case False
    from b[unfolded if_not_P[OF False]] show ?thesis by (simp add: extends_refl)
  qed
qed


section \<open>The orders behind the ids\<close>

text \<open>An id is 0 or that of an order the manager still holds as live.\<close>

definition live_id :: "OrderManager \<Rightarrow> (Order \<Rightarrow> bool) \<Rightarrow> u64 \<Rightarrow> bool" where
  "live_id om P cid \<longleftrightarrow> cid = 0 \<or> (\<exists>i. find_order cid om = Some i \<and> P (mo_order (om_slots om ! i)))"

definition ids_live :: "OrderManager \<Rightarrow> quote_ids \<Rightarrow> bool" where
  "ids_live om ids \<longleftrightarrow> live_id om (\<lambda>ord. o_side ord = BID \<and> o_type ord = LIMIT) (qi_bid ids) \<and>
     live_id om (\<lambda>ord. o_side ord = ASK \<and> o_type ord = LIMIT) (qi_ask ids) \<and>
     live_id om (\<lambda>ord. o_type ord = STOP_LIMIT) (qi_stop ids)"

definition mm_inv :: "'c MarketMaker \<Rightarrow> bool" where
  "mm_inv m \<longleftrightarrow> om_inv (mm_om m) \<and> ids_live (mm_om m) (mm_ids m)"

lemma live_id_slots:
  assumes "om_slots om' = om_slots om" shows "live_id om' P cid = live_id om P cid"
proof -
  have "find_order cid om' = find_order cid om" by (simp add: find_order_def assms)
  then show ?thesis by (simp add: live_id_def assms)
qed

lemma ids_live_slots:
  assumes "om_slots om' = om_slots om" shows "ids_live om' ids = ids_live om ids"
  unfolding ids_live_def live_id_slots[OF assms] ..

text \<open>A change of a slot that is not the order's own.\<close>

lemma live_id_other:
  assumes "om_inv om" "om_inv om'" "om_slots om' = (om_slots om)[i := s]" and "live_id om P cid"
    and "cid \<noteq> 0 \<Longrightarrow> find_order cid om = Some i \<Longrightarrow> mo_active s \<and> mo_order s = mo_order (om_slots om ! i)"
  shows "live_id om' P cid"
proof (cases "cid = 0")
  case False
  then obtain j where j: "find_order cid om = Some j" "P (mo_order (om_slots om ! j))"
    using assms(4) by (auto simp: live_id_def)
  note f = find_order_SomeD[OF assms(1) j(1)]
  have len: "length (om_slots om) = MAX_ORDERS" using assms(1) by (simp add: om_inv_def)
  have s: "mo_order (om_slots om' ! j) = mo_order (om_slots om ! j)" "mo_active (om_slots om' ! j)"
    using assms(3,5) False j f len by (cases "i = j"; simp)+
  have "find_order cid om' = Some j"
    using find_orderI[OF assms(2), of j cid] f s by simp
  with s(1) j(2) show ?thesis by (auto simp: live_id_def)
qed (simp add: live_id_def)

lemma submit_live:
  assumes inv: "om_inv om" and nw: "om_next_id om \<noteq> - 1" and s: "submit conn now ord (om, c) = (cid, om', c')"
  shows "om_inv om'" and "live_id om P k \<Longrightarrow> live_id om' P k"
    and "(\<And>k t. P (ord\<lparr>o_client_order_id := k, o_submit_ts_ns := t\<rparr>)) \<Longrightarrow> live_id om' P cid"
    and "om_next_id om' = om_next_id om \<or> om_next_id om' = om_next_id om + 1"
proof -
  show inv': "om_inv om'" using submit_inv[OF inv nw, of conn now ord c] s by simp
  have len: "length (om_slots om) = MAX_ORDERS" using inv by (simp add: om_inv_def)
  show "om_next_id om' = om_next_id om \<or> om_next_id om' = om_next_id om + 1"
    using s by (cases rule: submit_cases[of conn now ord om c]) auto
  have free: "find_order k om \<noteq> Some i" if "find_free_slot om = Some i" for i k
    using find_free_slot_SomeD[OF inv that] find_order_SomeD[OF inv, of k i] by auto
  show "live_id om' P k" if "live_id om P k"
  proof (cases rule: submit_cases[of conn now ord om c])
    case pool_full
    then show ?thesis using s that by simp
  next
    case (rejected i r fills c'')
    have "om_slots om' = (om_slots om)[i := (if i < length (om_slots om) then placed now ord om else om_slots om ! i)
        \<lparr>mo_active := False\<rparr>]" using s rejected(4) by auto
    from live_id_other[OF inv inv' this that] free[OF rejected(1)] show ?thesis by blast
  next
    case (accepted i fills c'')
    have "om_slots om' = (om_slots om)[i := placed now ord om]" using s accepted(3) by auto
    from live_id_other[OF inv inv' this that] free[OF accepted(1)] show ?thesis by blast
  qed
  show "live_id om' P cid" if P: "\<And>k t. P (ord\<lparr>o_client_order_id := k, o_submit_ts_ns := t\<rparr>)"
  proof (cases rule: submit_cases[of conn now ord om c])
    case (accepted i fills c'')
    have i: "i < MAX_ORDERS" using find_free_slot_SomeD[OF inv accepted(1)] by simp
    have o: "om_slots om' = (om_slots om)[i := placed now ord om]" "cid = om_next_id om" using s accepted(3) by auto
    have "find_order cid om' = Some i"
      using i len by (intro find_orderI[OF inv']) (auto simp: o placed_def stamped_def)
    then show ?thesis using i len P by (auto simp: live_id_def o placed_def stamped_def)
  qed (use s in \<open>auto simp: live_id_def\<close>)
qed

lemma live_id_weaken: "live_id om P cid \<Longrightarrow> (\<And>ord. P ord \<Longrightarrow> Q ord) \<Longrightarrow> live_id om Q cid"
  by (auto simp: live_id_def)

lemma live_id_0 [simp]: "live_id om P 0"
  by (simp add: live_id_def)

text \<open>Ids are left for \<open>n\<close> more submissions.\<close>

definition room :: "nat \<Rightarrow> OrderManager \<Rightarrow> bool" where
  "room n om \<longleftrightarrow> unat (om_next_id om) + n < 2 ^ 64"

lemma room_Suc:
  assumes "room (Suc n) om"
  shows "om_next_id om \<noteq> - 1" and "om_next_id om' = om_next_id om \<or> om_next_id om' = om_next_id om + 1 \<Longrightarrow> room n om'"
proof -
  show ne: "om_next_id om \<noteq> - 1"
  proof
    assume "om_next_id om = - 1"
    then have "unat (om_next_id om) = 2 ^ 64 - 1" by (simp add: unsigned_minus_1_eq_mask mask_eq_exp_minus_1)
    then show False using assms by (simp add: room_def)
  qed
  have "unat (om_next_id om + 1) = unat (om_next_id om) + 1"
    using ne by (metis Suc_eq_plus1 add.commute add.inverse_inverse eq_neg_iff_add_eq_0 unatSuc)
  then show "room n om'" if "om_next_id om' = om_next_id om \<or> om_next_id om' = om_next_id om + 1"
    using that assms by (auto simp: room_def)
qed

lemma mm_submit_inv:
  assumes "mm_inv m" "room (Suc n) (mm_om m)" "mm_submit ops env book ord m = Inr (cid, m')"
  shows "mm_ids m' = mm_ids m" "mm_cfg m' = mm_cfg m" "mm_inv m'" "room n (mm_om m')"
    "(\<And>k t. P (ord\<lparr>o_client_order_id := k, o_submit_ts_ns := t\<rparr>)) \<Longrightarrow> live_id (mm_om m') P cid"
proof -
  have "mm_ids m' = mm_ids m \<and> mm_cfg m' = mm_cfg m \<and> mm_inv m' \<and> room n (mm_om m') \<and>
      (\<forall>P. (\<forall>k t. P (ord\<lparr>o_client_order_id := k, o_submit_ts_ns := t\<rparr>)) \<longrightarrow> live_id (mm_om m') P cid)"
    using assms(3)
  proof (cases rule: mm_submitE)
    case blocked
    then show ?thesis using checks_same[OF blocked(1)] assms(1,2) by (simp add: mm_inv_def room_def)
  next
    case (passed m1 om c)
    note f = checks_same[OF passed(1)]
    have inv: "om_inv (mm_om m)" and l: "ids_live (mm_om m) (mm_ids m)" using assms(1) by (simp_all add: mm_inv_def)
    note s = submit_live[OF inv room_Suc(1)[OF assms(2)] passed(2)[unfolded f(1)]]
    have "ids_live om (mm_ids m)" using s(2) l by (simp add: ids_live_def)
    then show ?thesis using s(1,3) room_Suc(2)[OF assms(2) s(4)] f passed(3) by (simp add: mm_inv_def)
  qed
  then show "mm_ids m' = mm_ids m" "mm_cfg m' = mm_cfg m" "mm_inv m'" "room n (mm_om m')"
    "(\<And>k t. P (ord\<lparr>o_client_order_id := k, o_submit_ts_ns := t\<rparr>)) \<Longrightarrow> live_id (mm_om m') P cid" by blast+
qed

lemma cancel_quotes_inv:
  assumes "mm_inv m" shows "mm_inv (cancel_quotes ops m)" and "room n (mm_om (cancel_quotes ops m)) = room n (mm_om m)"
proof -
  have q: "om_inv (om\<lparr>om_fill_queue := fq.enqs fills (om_fill_queue om)\<rparr>)" if "om_inv om" for om fills
    using that fq.enqs_items[of "om_fill_queue om" fills] by (simp add: om_inv_def)
  have one: "om_inv (mm_om (cancel_one ops cid m))" if "om_inv (mm_om m)" for cid and m :: "'a MarketMaker"
    using q[OF that] that by (auto simp: cancel_one_def om_cancel_def fold_connector_fills split: prod.splits)
  have "om_inv (mm_om (cancel_quotes ops m))" using assms one by (simp add: cancel_quotes_def mm_inv_def Let_def)
  moreover have "ids_live (mm_om (cancel_quotes ops m)) (mm_ids (cancel_quotes ops m))"
    unfolding ids_live_slots[OF cancel_quotes_frame(2)] using assms by (simp add: mm_inv_def ids_live_def)
  ultimately show "mm_inv (cancel_quotes ops m)" by (simp add: mm_inv_def)
  show "room n (mm_om (cancel_quotes ops m)) = room n (mm_om m)" by (simp add: room_def)
qed

lemma post_side_inv:
  assumes "mm_inv m" "room (Suc n) (mm_om m)" "post_side ops env book allowed side price m = Inr m'"
  shows "mm_inv m' \<and> room n (mm_om m') \<and> mm_cfg m' = mm_cfg m"
proof (cases allowed)
  case False
  then show ?thesis using assms by (simp add: post_side_def room_def)
next
  case True
  then obtain cid m1 where s: "mm_submit ops env book (limit_order (mm_cfg m) side price (mc_order_qty (mm_cfg m))) m
      = Inr (cid, m1)" "m' = m1\<lparr>mm_ids := (if side = BID then (mm_ids m1)\<lparr>qi_bid := cid\<rparr> else (mm_ids m1)\<lparr>qi_ask := cid\<rparr>)\<rparr>"
    using assms(3) by (auto simp: post_side_def elim!: and_then_InrE)
  note i = mm_submit_inv[OF assms(1,2) s(1)]
  have "live_id (mm_om m1) (\<lambda>ord. o_side ord = side \<and> o_type ord = LIMIT) cid"
    by (rule i(5)) (simp add: limit_order_def)
  then show ?thesis using i(2,3,4) s(2) by (cases side) (auto simp: mm_inv_def ids_live_def)
qed

lemma post_quotes_inv:
  assumes "mm_inv m" "room (Suc (Suc n)) (mm_om m)" "post_quotes pow ops env book mid m = Inr m'"
  shows "mm_inv m' \<and> room n (mm_om m')"
proof -
  consider "m' = cancel_quotes ops m"
    | a bid_px b ask_px m1 m2 s where "post_side ops env book a BID bid_px m = Inr m1"
      "post_side ops env book b ASK ask_px m1 = Inr m2"
      "m' = m2\<lparr>mm_last_quoted_mid := mid, mm_last_signal_bps := s\<rparr>"
    using assms(3) by (auto simp: post_quotes_def Let_def split: prod.splits if_splits elim!: and_then_InrE)
  then show ?thesis
  proof cases
    case 1
    then show ?thesis using cancel_quotes_inv[OF assms(1)] assms(2) by (simp add: room_def)
  next
    case (2 a bid_px b ask_px m1 m2 s)
    have "mm_inv m1 \<and> room (Suc n) (mm_om m1)" using post_side_inv[OF assms(1,2) 2(1)] by simp
    then have "mm_inv m2 \<and> room n (mm_om m2)" using post_side_inv[OF _ _ 2(2)] by blast
    then show ?thesis using 2(3) by (simp add: mm_inv_def)
  qed
qed

lemma check_stop_inv:
  assumes "mm_inv m" "room (Suc n) (mm_om m)" "check_stop ops env book mid m = Inr m'"
  shows "mm_inv m' \<and> room n (mm_om m')"
proof -
  consider "m' = m" | side limit_px cid m1 where
      "mm_submit ops env book (stop_limit_order (mm_cfg m) side mid limit_px \<bar>om_position (mm_om m)\<bar>)
        (cancel_quotes ops m) = Inr (cid, m1)" "m' = m1\<lparr>mm_ids := (mm_ids m1)\<lparr>qi_stop := cid\<rparr>\<rparr>"
    using assms(3) by (auto simp: check_stop_def Let_def split: prod.splits if_splits elim!: and_then_InrE)
  then show ?thesis
  proof cases
    case 1
    then show ?thesis using assms by (simp add: room_def)
  next
    case (2 side limit_px cid m1)
    have r: "room (Suc n) (mm_om (cancel_quotes ops m))"
      using assms(2) cancel_quotes_inv(2)[OF assms(1)] by simp
    note i = mm_submit_inv[OF cancel_quotes_inv(1)[OF assms(1)] r 2(1)]
    have "live_id (mm_om m1) (\<lambda>ord. o_type ord = STOP_LIMIT) cid"
      by (rule i(5)) (simp add: stop_limit_order_def)
    then show ?thesis using i(3,4) 2(2) by (auto simp: mm_inv_def ids_live_def)
  qed
qed

lemma mm_on_fill_ids: "mm_ids (mm_on_fill mo u m) = clear_id (o_client_order_id (mo_order mo)) (mm_ids m)"
  by (simp add: mm_on_fill_def Let_def split: prod.splits option.splits)

lemma mm_apply_fill_inv:
  assumes "mm_inv m" shows "mm_inv (mm_apply_fill now u m)"
proof -
  let ?om = "mm_om m" and ?cid = "fu_client_order_id u"
  have inv: "om_inv ?om" and l: "ids_live ?om (mm_ids m)" using assms by (simp_all add: mm_inv_def)
  have inv': "om_inv (fst (apply_fill now u ?om))" by (rule apply_fill_inv[OF inv])
  show ?thesis
  proof (cases "find_order ?cid ?om")
    case None
    then show ?thesis using assms by (simp add: mm_apply_fill_def apply_fill_unknown mm_inv_def)
  next
    case (Some i)
    let ?mo = "om_slots ?om ! i" and ?t = "terminal_state (fu_new_state u)"
    note f = find_order_SomeD[OF inv Some]
    have len: "i < length (om_slots ?om)" using f inv by (simp add: om_inv_def)
    note k = apply_fill_known[OF Some len, of now]
    let ?s = "if ?t then (filled u ?mo)\<lparr>mo_active := False\<rparr> else filled u ?mo"
    have sl: "om_slots (fst (apply_fill now u ?om)) = (om_slots ?om)[i := ?s]" by (simp add: k)
    have keep: "live_id (fst (apply_fill now u ?om)) P c"
      if "live_id ?om P c" "?t \<longrightarrow> c \<noteq> ?cid" for P c
    proof (rule live_id_other[OF inv inv' sl that(1)])
      assume "find_order c ?om = Some i"
      with f find_order_SomeD[OF inv this] have "c = ?cid" by simp
      with that(2) f show "mo_active ?s \<and> mo_order ?s = mo_order ?mo" by (auto simp: filled_def)
    qed
    have ids: "mm_ids (mm_apply_fill now u m) = (if ?t then clear_id ?cid (mm_ids m) else mm_ids m)"
      using f by (simp add: mm_apply_fill_def k mm_on_fill_ids filled_def)
    show ?thesis
      using inv' l keep unfolding mm_inv_def mm_apply_fill_simps ids
      by (auto simp: ids_live_def clear_id_def)
  qed
qed

lemma mm_drain_inv: "mm_drain n now m = Some m' \<Longrightarrow> mm_inv m \<Longrightarrow> mm_inv m' \<and> om_next_id (mm_om m') = om_next_id (mm_om m)"
proof (induction n arbitrary: m)
  case (Suc n)
  have q: "mm_inv (m\<lparr>mm_om := (mm_om m)\<lparr>om_fill_queue := snd (pop (om_fill_queue (mm_om m)))\<rparr>\<rparr>)"
  proof -
    have "sq_ok (om_fill_queue (mm_om m))" using Suc.prems(2) by (simp add: mm_inv_def om_inv_def)
    then have "sq_ok (snd (pop (om_fill_queue (mm_om m))))"
      using fq.deq_empty fq.deq_ok by (cases "sq_items (om_fill_queue (mm_om m))") fastforce+
    moreover have "ids_live ((mm_om m)\<lparr>om_fill_queue := snd (pop (om_fill_queue (mm_om m)))\<rparr>) (mm_ids m) =
        ids_live (mm_om m) (mm_ids m)" by (rule ids_live_slots) simp
    ultimately show ?thesis using Suc.prems(2) by (simp add: mm_inv_def om_inv_def)
  qed
  have nid: "om_next_id (fst (apply_fill now u om)) = om_next_id om" for u om
    by (auto simp: apply_fill_def set_slot_def Let_def split: option.splits)
  show ?case
  proof (cases "pop (om_fill_queue (mm_om m))")
    case (Pair r q')
    show ?thesis
    proof (cases r)
      case None
      then show ?thesis using Suc.prems q Pair by auto
    next
      case (Some u)
      from Suc.IH[OF _ mm_apply_fill_inv[OF q, of now u]] show ?thesis
        using Suc.prems Some Pair by (simp add: nid)
    qed
  qed
qed simp

lemma requote_inv:
  assumes "mm_inv m" "room (Suc (Suc n)) (mm_om m)" "requote pow ops env book mid m = Inr m'"
  shows "mm_inv m' \<and> room n (mm_om m')"
proof (cases "qi_bid (mm_ids m) = 0 \<and> qi_ask (mm_ids m) = 0")
  case True
  from assms(3)[unfolded requote_def Let_def if_P[OF True]] show ?thesis by (rule post_quotes_inv[OF assms(1,2)])
next
  case False
  obtain b where b: "(if b then post_quotes pow ops env book mid (cancel_quotes ops m) else Inr m) = Inr m'"
    using assms(3)[unfolded requote_def Let_def if_not_P[OF False]] by (rule that)
  show ?thesis
  proof (cases b)
    case True
    from b[unfolded if_P[OF True]] show ?thesis
      using cancel_quotes_inv[OF assms(1)] assms(2) by (intro post_quotes_inv) auto
  next
    case False
    from b[unfolded if_not_P[OF False]] show ?thesis using assms(1,2) by (simp add: room_def)
  qed
qed

lemma on_book_update_inv:
  assumes "mm_inv m" "room (Suc (Suc (Suc n))) (mm_om m)" "on_book_update pow ops env book m = Some (Inr m')"
  shows "mm_inv m' \<and> room n (mm_om m')"
proof (cases "ks_active (mm_kill m)")
  case True
  then show ?thesis using assms by (simp add: on_book_update_def room_def)
next
  case False
  obtain m1 where d: "mm_drain (Suc (sq_count (om_fill_queue (mm_om m)))) (me_steady env) m = Some m1"
    using mm_drain_total[of m "me_steady env"] assms(1) by (auto simp: mm_inv_def)
  have m1: "mm_inv m1" "room (Suc (Suc (Suc n))) (mm_om m1)" using mm_drain_inv[OF d assms(1)] assms(2) by (auto simp: room_def)
  let ?mid = "get_mid_price (bm_book book)"
  let ?m2 = "m1\<lparr>mm_om := om_update_mid_price (mc_symbol (mm_cfg m1)) (mc_exchange (mm_cfg m1)) ?mid (mm_om m1)\<rparr>"
  have m2: "mm_inv ?m2" "room (Suc (Suc (Suc n))) (mm_om ?m2)"
    using m1 ids_live_slots[of "mm_om ?m2" "mm_om m1"] by (simp_all add: mm_inv_def om_inv_def room_def)
  consider "m' = m1" | "and_then (check_stop ops env book ?mid ?m2) (requote pow ops env book ?mid) = Inr m'"
    using assms(3) False d by (auto simp: on_book_update_def Let_def split: if_splits)
  then show ?thesis
  proof cases
    case 1
    then show ?thesis using m1 by (simp add: room_def)
  next
    case 2
    then obtain m3 where m3: "check_stop ops env book ?mid ?m2 = Inr m3" "requote pow ops env book ?mid m3 = Inr m'"
      by (rule and_then_InrE)
    from check_stop_inv[OF m2 m3(1)] show ?thesis using requote_inv[OF _ _ m3(2)] by blast
  qed
qed

text \<open>What happens to a market maker: an update of the book, a report of the venue, an injected signal.\<close>

datatype mm_event = Book_Update mm_env BookManager | Report FillUpdate | Signal double double

fun mm_run :: "(double \<Rightarrow> double \<Rightarrow> double) \<Rightarrow> 'c conn_ops \<Rightarrow> mm_event list \<Rightarrow> 'c MarketMaker \<Rightarrow>
    (snapshot_fault + 'c MarketMaker) option" where
  "mm_run pow ops [] m = Some (Inr m)"
| "mm_run pow ops (Book_Update env book # es) m = (case on_book_update pow ops env book m of
     Some (Inr m) \<Rightarrow> mm_run pow ops es m | r \<Rightarrow> r)"
| "mm_run pow ops (Report u # es) m = mm_run pow ops es (m\<lparr>mm_om := on_connector_fill u (mm_om m)\<rparr>)"
| "mm_run pow ops (Signal s r # es) m = mm_run pow ops es (set_alpha_signal s r m)"

lemma room_le: "room n om \<Longrightarrow> k \<le> n \<Longrightarrow> room k om"
  by (simp add: room_def)

lemma mm_run_inv:
  "mm_run pow ops es m = Some (Inr m') \<Longrightarrow> mm_inv m \<Longrightarrow> room (3 * length es) (mm_om m) \<Longrightarrow> mm_inv m'"
proof (induction pow ops es m rule: mm_run.induct)
  case (2 pow ops env book es m)
  then obtain m1 where m1: "on_book_update pow ops env book m = Some (Inr m1)" "mm_run pow ops es m1 = Some (Inr m')"
    by (auto split: option.splits sum.splits)
  have "room (Suc (Suc (Suc (3 * length es)))) (mm_om m)" using 2(4) by (rule room_le) simp
  from on_book_update_inv[OF 2(3) this m1(1)] 2(1)[OF m1(1) refl m1(2)] show ?case by blast
next
  case (3 pow ops u es m)
  let ?m = "m\<lparr>mm_om := on_connector_fill u (mm_om m)\<rparr>"
  have "mm_inv ?m" using 3(3) on_connector_fill_inv[of "mm_om m" u] ids_live_slots[of "mm_om ?m" "mm_om m"]
    by (simp add: mm_inv_def on_connector_fill_def)
  moreover have "room (3 * length es) (mm_om ?m)"
    using 3(4) by (simp add: room_def on_connector_fill_def)
  ultimately show ?case using 3(1) 3(2) by simp
next
  case (4 pow ops s r es m)
  then show ?case by (simp add: mm_inv_def set_alpha_signal_def room_def)
qed simp


section \<open>Entry price and stop\<close>

lemma no_fill_keeps_entry:
  assumes "fu_new_state u \<noteq> FILLED" shows "mm_entry_price (mm_apply_fill now u m) = mm_entry_price m"
  using assms
  by (auto simp: mm_apply_fill_def mm_on_fill_def apply_fill_def Let_def split: option.splits if_splits)

lemma drain_keeps_entry:
  "om_inv (mm_om m) \<Longrightarrow> sq_items (om_fill_queue (mm_om m)) = us \<Longrightarrow> length us < n \<Longrightarrow>
   list_all (\<lambda>u. fu_new_state u \<noteq> FILLED) us \<Longrightarrow>
   \<exists>m'. mm_drain n now m = Some m' \<and> sq_items (om_fill_queue (mm_om m')) = [] \<and> mm_entry_price m' = mm_entry_price m"
proof (induction us arbitrary: m n)
  case Nil
  then obtain k where n: "n = Suc k" by (cases n) auto
  have "sq_ok (om_fill_queue (mm_om m))" using Nil.prems(1) by (simp add: om_inv_def)
  from fq.deq_empty[OF this Nil.prems(2)] show ?case using Nil.prems n by simp
next
  case (Cons u us)
  then obtain k where n: "n = Suc k" "length us < k" by (cases n) auto
  have "sq_ok (om_fill_queue (mm_om m))" using Cons.prems(1) by (simp add: om_inv_def)
  from fq.deq_ok[OF this Cons.prems(2)] obtain q where
    q: "pop (om_fill_queue (mm_om m)) = (Some u, q)" "sq_ok q" "sq_items q = us" by blast
  let ?m = "m\<lparr>mm_om := (mm_om m)\<lparr>om_fill_queue := q\<rparr>\<rparr>"
  have "length (sq_buf q) = FILL_QUEUE_DEPTH"
    using Cons.prems(1) length_sq_buf_pop[of "om_fill_queue (mm_om m)"] q(1) by (simp add: om_inv_def)
  then have "om_inv (mm_om ?m)" using Cons.prems(1) q by (simp add: om_inv_def)
  then have inv: "om_inv (mm_om (mm_apply_fill now u ?m))" by (simp add: apply_fill_inv)
  have same: "om_fill_queue (fst (apply_fill now v om)) = om_fill_queue om" for v om
    by (auto simp: apply_fill_def set_slot_def Let_def split: option.splits)
  have "mm_entry_price (mm_apply_fill now u ?m) = mm_entry_price m"
    using no_fill_keeps_entry[of u now ?m] Cons.prems(4) by simp
  with Cons.IH[OF inv _ n(2)] show ?case using n(1) q Cons.prems(4) by (simp add: same)
qed

text \<open>
  C20. The stop guards only positions bought by orders that fill completely. The listener sees
  terminal reports alone and takes an entry price from FILLED ones: whatever positions the other
  reports build up, partly filled quotes that are then canceled among them, a maker without an
  entry price has none after them, and its stop check does nothing at any price.
\<close>

theorem partial_fills_get_no_stop:
  assumes "om_inv (mm_om m)" and "mm_entry_price m \<le> 0"
    and "list_all (\<lambda>u. fu_new_state u \<noteq> FILLED) (sq_items (om_fill_queue (mm_om m)))"
  shows "\<exists>m'. mm_drain (Suc (sq_count (om_fill_queue (mm_om m)))) now m = Some m' \<and>
    sq_items (om_fill_queue (mm_om m')) = [] \<and> check_stop ops env book mid m' = Inr m'"
proof -
  obtain m' where m': "mm_drain (Suc (sq_count (om_fill_queue (mm_om m)))) now m = Some m'"
    "sq_items (om_fill_queue (mm_om m')) = []" "mm_entry_price m' = mm_entry_price m"
    using drain_keeps_entry[OF assms(1) refl _ assms(3), of "Suc (sq_count (om_fill_queue (mm_om m)))" now] by auto
  have "check_stop ops env book mid m' = Inr m'"
    unfolding check_stop_def Let_def m'(3) if_P[OF assms(2)] by (simp only: if_cancel)
  with m'(1,2) show ?thesis by blast
qed

section \<open>Prices\<close>

lemma mult_le_self:
  assumes "0 \<le> a" "isfinite a" "dwf a" "s \<le> 1" "\<not> isnan (a * s)" shows "a * s \<le> (a :: double)"
proof (cases "isfinite s")
  case True
  have "a * s \<le> pack False (fval a)"
    using True assms by (auto simp: times_double_def finite_le intro!: pack_mono mult_left_le)
  moreover have "pack False (fval a) \<le> a" using pack_fval_deq[of a False] assms(2,3) by (auto simp: dbl_ord_defs)
  ultimately show ?thesis by (rule dbl_trans)
next
  case False
  with assms show ?thesis
    by (cases a; cases s) (auto simp: times_double_def inf_of_def less_eq_double_def one_double_def)
qed

lemma mult_ge_self:
  assumes "0 \<le> a" "isfinite a" "dwf a" "1 \<le> s" "\<not> isnan (a * s)" shows "a \<le> a * (s :: double)"
proof (cases "isfinite s")
  case True
  have "a \<le> pack False (fval a)" using pack_fval_deq[of a False] assms(2,3) by (auto simp: dbl_ord_defs)
  moreover have "fval a * 1 \<le> fval a * fval s" using True assms by (intro mult_left_mono) (simp_all add: finite_le)
  then have "pack False (fval a) \<le> a * s"
    using True assms by (auto simp: times_double_def intro!: pack_mono)
  ultimately show ?thesis by (rule dbl_trans)
next
  case False
  with assms show ?thesis
    by (cases a; cases s) (auto simp: times_double_def inf_of_def less_eq_double_def one_double_def)
qed

lemma mult_nanD: "\<not> isnan (a * b) \<Longrightarrow> \<not> isnan a \<and> \<not> isnan (b :: double)"
  by (cases a; cases b) (auto simp: times_double_def)

lemma sub_nanD: "\<not> isnan (a - b) \<Longrightarrow> \<not> isnan a \<and> \<not> isnan (b :: double)"
  by (cases a; cases b) (auto simp: minus_double_def plus_double_def uminus_double_def)

lemma lit_pos: "0 \<le> q \<Longrightarrow> 0 \<le> lit q" "\<not> isnan (lit q)"
  by (simp_all add: lit_def pack_nonneg)

lemma half_nonneg: "\<not> isnan (std_max x (lit (1 / 2))) \<Longrightarrow> 0 \<le> std_max x (lit (1 / 2))"
proof -
  assume n: "\<not> isnan (std_max x (lit (1 / 2)))"
  then have "\<not> isnan x" using less_nanD[of x "lit (1 / 2)"] by (cases "x < lit (1 / 2)") (simp_all add: std_max_def)
  then have "lit (1 / 2) \<le> std_max x (lit (1 / 2))" by (rule std_max_ge) (simp add: lit_pos)
  moreover have "0 \<le> lit (1 / 2)" by (simp add: lit_pos)
  ultimately show ?thesis by (blast intro: dbl_trans)
qed

text \<open>
  The maker never quotes through the middle of the book: whatever skew, risk and regime make of
  the half spreads, its bid is at or below the mid price and its ask at or above, unless a
  NaN among the inputs makes the price one.
\<close>

theorem quotes_straddle_mid:
  assumes "0 < mid" "isfinite mid" "dwf mid"
    and "quote_prices mid (half_spreads cfg skew risk_score p_shock p_illiquid) = (bid_px, ask_px)"
  shows "(isnan bid_px \<or> bid_px \<le> mid) \<and> (isnan ask_px \<or> mid \<le> ask_px)"
proof -
  obtain x y where h: "half_spreads cfg skew risk_score p_shock p_illiquid = (std_max x (lit (1 / 2)), std_max y (lit (1 / 2)))"
    by (simp add: half_spreads_def Let_def)
  let ?b = "std_max x (lit (1 / 2)) * lit (1 / 10000)" and ?a = "std_max y (lit (1 / 2)) * lit (1 / 10000)"
  have e: "bid_px = mid * (1 - ?b)" "ask_px = mid * (1 + ?a)" using assms(4) by (simp_all add: quote_prices_def h)
  have m: "0 \<le> mid" using assms(1) by (rule dbl_less_imp_le)
  have part: "0 \<le> std_max z (lit (1 / 2)) * lit (1 / 10000)" if "\<not> isnan (std_max z (lit (1 / 2)) * lit (1 / 10000))" for z
    using mult_nanD[OF that] that by (intro mult_nonneg half_nonneg lit_pos) auto
  have "bid_px \<le> mid" if n: "\<not> isnan bid_px"
  proof -
    have "\<not> isnan (1 - ?b)" "\<not> isnan ?b" using mult_nanD[OF n[unfolded e]] sub_nanD by blast+
    with part[of x] have "1 - ?b \<le> 1" by (intro sub_le) (auto simp: dwf_one)
    with n show ?thesis unfolding e by (intro mult_le_self[OF m assms(2,3)])
  qed
  moreover have "mid \<le> ask_px" if n: "\<not> isnan ask_px"
  proof -
    have "\<not> isnan (1 + ?a)" "\<not> isnan ?a" using mult_nanD[OF n[unfolded e]] add_not_nan by blast+
    with part[of y] have "1 + 0 \<le> 1 + ?a" by (intro add_mono) auto
    moreover have "(1 :: double) + 0 = 1" by code_simp
    ultimately have "1 \<le> 1 + ?a" by simp
    with n show ?thesis unfolding e by (intro mult_ge_self[OF m assms(2,3)])
  qed
  ultimately show ?thesis by blast
qed

section \<open>Instances\<close>

definition calm_cfg :: MarketMakerConfig where
  "calm_cfg = \<lparr>mc_symbol = ''BTC'', mc_exchange = OKX, mc_half_spread_bps = Fin 20, mc_skew_factor = 0, mc_max_skew_bps = 0,
     mc_order_qty = Fin 1, mc_max_position = Fin 5, mc_requote_bps = Fin 1, mc_requote_signal = Fin 1,
     mc_stop_loss_bps = Fin 50, mc_limit_slip_bps = Fin 10, mc_risk_max = Fin 1, mc_risk_widen_bps = 0,
     mc_signal_min_bps = Fin 1, mc_inventory_skew_decay_power = Fin 1, mc_shock_block_threshold = Fin 1,
     mc_illiquid_block_threshold = Fin 1, mc_regime_widen_bps = 0, mc_stale_ns = 1000\<rparr>"

definition clean_stack :: PositionLedgerSnapshot where
  "clean_stack = \<lparr>ls_symbol = [], ls_global_position = 0, ls_global_avg_entry_price = 0, ls_realized_pnl = 0,
     ls_unrealized_pnl = 0, ls_pending_bid_qty = 0, ls_pending_ask_qty = 0, ls_mid_price = 0,
     ls_oldest_inventory_age_ms = 0, ls_venue_count = 0, ls_venues = []\<rparr>"

definition calm_env :: mm_env where
  "calm_env = \<lparr>me_wall = 5000, me_steady = 5000, me_alpha = empty_alpha, me_regime = empty_regime, me_stack = clean_stack\<rparr>"

definition accept_ops :: "unit conn_ops" where
  "accept_ops = \<lparr>co_submit = accept_all, co_cancel = (\<lambda>_ c. (C_OK, [], c))\<rparr>"

definition calm_book :: BookManager where
  "calm_book = (bm_init ''BTC'' OKX (Fin 1) 4)\<lparr>bm_last_update_steady_ns := 5000\<rparr>"

definition no_ids :: quote_ids where "no_ids = \<lparr>qi_bid = 0, qi_ask = 0, qi_stop = 0\<rparr>"

text \<open>A maker that last saw a price of 100, with the default circuit breaker.\<close>

definition calm_maker :: "(unit \<times> Order list) MarketMaker" where
  "calm_maker = mm_init (om_init 0 []) ((), []) (ks_init 0 1000000) (Some ((cb_init mk_CircuitBreakerConfig)\<lparr>cb_ref_price := Fin 100\<rparr>))
     calm_cfg no_ids (Fin 100) 0 0 None"

lemma calm_simps [simp]:
  "mm_om calm_maker = om_init 0 []" "mm_ids calm_maker = no_ids" "mm_entry_price calm_maker = 0"
  "mm_kill calm_maker = ks_init 0 1000000" "mm_cfg calm_maker = calm_cfg"
  by (simp_all add: calm_maker_def mm_init_def)

lemma calm_inv: "mm_inv calm_maker"
  by (simp add: mm_inv_def om_init_inv ids_live_def live_id_def no_ids_def)


text \<open>The same maker with the report of a partial fill of order 1 in the queue.\<close>

definition partial_report :: FillUpdate where
  "partial_report = fill_sample\<lparr>fu_new_state := PARTIALLY_FILLED\<rparr>"

definition part_maker :: "(unit \<times> Order list) MarketMaker" where
  "part_maker = calm_maker\<lparr>mm_om := on_connector_fill partial_report om_live\<rparr>"

lemma part_maker_inv: "om_inv (mm_om part_maker)"
  by (simp add: part_maker_def on_connector_fill_inv om_live_inv)

lemma part_maker_items: "sq_items (om_fill_queue (mm_om part_maker)) = [partial_report]"
proof -
  have "sq_items (om_fill_queue om_live) = []" "sq_ok (om_fill_queue om_live)" "sq_cap (om_fill_queue om_live) = 127"
    using om_live_inv
    by (simp_all add: om_inv_def sq_cap_def FILL_QUEUE_DEPTH_def om_live_def om_init_def sq_items_def sq_init_def sq_count_def)
  then show ?thesis
    using fq.enq_items(3)[of "om_fill_queue om_live" partial_report] by (simp add: part_maker_def on_connector_fill_def)
qed


theorem partial_fills_get_no_stop_witness:
  "\<exists>m'. mm_drain (Suc (sq_count (om_fill_queue (mm_om part_maker)))) 9 part_maker = Some m' \<and>
     sq_items (om_fill_queue (mm_om m')) = [] \<and>
     check_stop (logged accept_ops) calm_env calm_book (Fin 50) m' = Inr m'"
proof -
  have "mm_entry_price part_maker = 0" by (simp add: part_maker_def)
  moreover have "(0 :: double) \<le> 0" by code_simp
  ultimately show ?thesis
    using partial_fills_get_no_stop[OF part_maker_inv, of 9 "logged accept_ops" calm_env calm_book "Fin 50"]
    by (simp add: part_maker_items partial_report_def)
qed

theorem quotes_straddle_mid_witness:
  "fst (quote_prices (Fin 100) (half_spreads calm_cfg (Fin 30) 0 0 0)) \<le> Fin 100 \<and>
   Fin 100 \<le> snd (quote_prices (Fin 100) (half_spreads calm_cfg (Fin 30) 0 0 0))"
proof -
  obtain b a where q: "quote_prices (Fin 100) (half_spreads calm_cfg (Fin 30) 0 0 0) = (b, a)" by fastforce
  have p: "0 < (Fin 100 :: double)" by code_simp
  have "lit 100 = (Fin 100 :: double)" by code_simp
  then have d: "dwf (Fin 100 :: double)" using dwf_lit[of 100] by metis
  have "\<not> isnan (fst (quote_prices (Fin 100) (half_spreads calm_cfg (Fin 30) 0 0 0)))"
    "\<not> isnan (snd (quote_prices (Fin 100) (half_spreads calm_cfg (Fin 30) 0 0 0)))" by code_simp+
  with quotes_straddle_mid[OF p _ d q] show ?thesis by (simp add: q)
qed

end
