(* ===== verification/Config_Loader.thy ===== *)
theory Config_Loader
  imports Global_Risk Circuit_Breaker Child_Scheduler Portfolio_Intent Venue_Quality
    Std_Strings "HOL-Library.AList"
begin

text \<open>
  \<^verbatim>\<open>core/engine/algo_config_loader.hpp\<close> and \<^verbatim>\<open>core/risk/risk_config_loader.hpp\<close>: the settings files.
  Both classes read lines of the form \<open>key: value\<close> into a map and copy the values they know into
  the structures of the components. The file system is a function from paths to contents; the
  iteration order of the unordered map is an argument. Structures are passed in as the caller left
  them, so a member without an initialiser that no key sets keeps its indeterminate value.
\<close>

section \<open>Reading the lines\<close>

type_synonym value_map = "(string \<times> string) list"

text \<open>\<open>std::getline\<close> until it fails: no line after a final delimiter.\<close>

function getlines :: "char \<Rightarrow> string \<Rightarrow> string list" where
  "getlines d [] = []"
| "getlines d (c # s) = takeWhile (\<lambda>x. x \<noteq> d) (c # s) # getlines d (drop 1 (dropWhile (\<lambda>x. x \<noteq> d) (c # s)))"
  by pat_completeness auto
termination
  by (relation "measure (\<lambda>(d, s). length s)") (auto simp: less_Suc_eq_le intro: le_trans[OF diff_le_self] length_dropWhile_le)

definition trim :: "string \<Rightarrow> string" where
  "trim s = rev (dropWhile is_space (rev (dropWhile is_space s)))"

definition candidate_paths :: "string \<Rightarrow> string list" where
  "candidate_paths path =
     (if path = [] \<or> hd path = CHR ''/'' then [path]
      else [path, ''../'' @ path, ''../../'' @ path, ''../../../'' @ path])"

text \<open>One line of the file: \<open>None\<close> when it is skipped.\<close>

definition parse_line :: "string \<Rightarrow> (string \<times> string) option" where
  "parse_line line =
     (let line = trim (takeWhile (\<lambda>c. c \<noteq> CHR ''#'') line);
          key = trim (takeWhile (\<lambda>c. c \<noteq> CHR '':'') line);
          val = trim (drop 1 (dropWhile (\<lambda>c. c \<noteq> CHR '':'') line))
      in if line = [] \<or> CHR '':'' \<notin> set line \<or> val = [] then None else Some (key, val))"

definition add_line :: "string \<Rightarrow> value_map \<Rightarrow> value_map" where
  "add_line line values = (case parse_line line of None \<Rightarrow> values | Some (k, v) \<Rightarrow> AList.update k v values)"

definition parse_text :: "string \<Rightarrow> value_map" where
  "parse_text text = fold add_line (getlines CHR 0x0A text) []"

definition open_first :: "(string \<Rightarrow> string option) \<Rightarrow> string \<Rightarrow> string option" where
  "open_first files path = (case filter (\<lambda>p. files p \<noteq> None) (candidate_paths path) of [] \<Rightarrow> None | p # _ \<Rightarrow> files p)"

definition parse_file :: "(string \<Rightarrow> string option) \<Rightarrow> string \<Rightarrow> value_map" where
  "parse_file files path = (case open_first files path of None \<Rightarrow> [] | Some text \<Rightarrow> parse_text text)"

section \<open>Copying a value into a member\<close>

definition apply_with :: "(string \<Rightarrow> std_error + 'a) \<Rightarrow> value_map \<Rightarrow> string \<Rightarrow> 'a \<Rightarrow> 'a" where
  "apply_with parse values key field =
     (case map_of values key of None \<Rightarrow> field
      | Some s \<Rightarrow> (case parse s of Inl _ \<Rightarrow> field | Inr x \<Rightarrow> x))"

definition apply_double :: "value_map \<Rightarrow> string \<Rightarrow> double \<Rightarrow> double" where "apply_double = apply_with stod"
definition apply_int :: "value_map \<Rightarrow> string \<Rightarrow> int \<Rightarrow> int" where "apply_int = apply_with stoi"
definition apply_int64 :: "value_map \<Rightarrow> string \<Rightarrow> int \<Rightarrow> int" where "apply_int64 = apply_with stoll"

text \<open>\<open>std::stoul\<close>: \<open>unsigned long\<close> has 64 bits on the deployment target; the cast keeps the low 32.\<close>

definition apply_uint32 :: "value_map \<Rightarrow> string \<Rightarrow> u32 \<Rightarrow> u32" where
  "apply_uint32 = apply_with (\<lambda>s. map_sum id ucast (stoull s))"

definition apply_size_t :: "value_map \<Rightarrow> string \<Rightarrow> u64 \<Rightarrow> u64" where
  "apply_size_t values key field =
     (let v = apply_with stoull values key field in if v = 0 then field else v)"

definition apply_bool :: "value_map \<Rightarrow> string \<Rightarrow> bool \<Rightarrow> bool" where
  "apply_bool values key field =
     (case map_of values key of None \<Rightarrow> field | Some s \<Rightarrow> s = ''true'' \<or> s = ''1'' \<or> s = ''yes'')"

definition apply_string :: "value_map \<Rightarrow> string \<Rightarrow> string \<Rightarrow> string" where
  "apply_string values key field =
     (case map_of values key of None \<Rightarrow> field | Some s \<Rightarrow> if s \<noteq> [] then s else field)"

datatype StrategyMode = MODE_UNKNOWN | SPOT_ONLY | FUTURES_ONLY

definition apply_strategy_mode :: "value_map \<Rightarrow> string \<Rightarrow> StrategyMode \<Rightarrow> StrategyMode" where
  "apply_strategy_mode values key field =
     (case map_of values key of None \<Rightarrow> field
      | Some s \<Rightarrow>
          let mode = map to_lower s
          in if mode = ''spot_only'' then SPOT_ONLY else if mode = ''futures_only'' then FUTURES_ONLY else MODE_UNKNOWN)"

section \<open>The four algorithm files\<close>

definition load_sor :: "value_map \<Rightarrow> SmartOrderRouterConfig \<Rightarrow> SmartOrderRouterConfig" where
  "load_sor v c = c\<lparr>sor_high_toxicity_threshold := apply_double v ''high_toxicity_threshold'' (sor_high_toxicity_threshold c),
       sor_low_fill_threshold := apply_double v ''low_fill_threshold'' (sor_low_fill_threshold c),
       sor_high_fill_threshold := apply_double v ''high_fill_threshold'' (sor_high_fill_threshold c),
       sor_high_toxicity_fill_weight := apply_double v ''high_toxicity_fill_weight'' (sor_high_toxicity_fill_weight c),
       sor_high_toxicity_queue_weight := apply_double v ''high_toxicity_queue_weight'' (sor_high_toxicity_queue_weight c),
       sor_high_toxicity_tox_weight := apply_double v ''high_toxicity_tox_weight'' (sor_high_toxicity_tox_weight c),
       sor_low_fill_fill_weight := apply_double v ''low_fill_fill_weight'' (sor_low_fill_fill_weight c),
       sor_low_fill_queue_weight := apply_double v ''low_fill_queue_weight'' (sor_low_fill_queue_weight c),
       sor_low_fill_tox_weight := apply_double v ''low_fill_tox_weight'' (sor_low_fill_tox_weight c),
       sor_high_fill_fill_weight := apply_double v ''high_fill_fill_weight'' (sor_high_fill_fill_weight c),
       sor_high_fill_queue_weight := apply_double v ''high_fill_queue_weight'' (sor_high_fill_queue_weight c),
       sor_high_fill_tox_weight := apply_double v ''high_fill_tox_weight'' (sor_high_fill_tox_weight c),
       sor_min_fill_probability := apply_double v ''min_fill_probability'' (sor_min_fill_probability c)\<rparr>"

definition load_scheduler :: "value_map \<Rightarrow> SchedulerConfig \<Rightarrow> SchedulerConfig" where
  "load_scheduler v c = c\<lparr>sc_short_horizon_ticks := apply_int64 v ''short_horizon_ticks'' (sc_short_horizon_ticks c),
       sc_sweep_horizon_ticks := apply_int64 v ''sweep_horizon_ticks'' (sc_sweep_horizon_ticks c),
       sc_long_horizon_ticks := apply_int64 v ''long_horizon_ticks'' (sc_long_horizon_ticks c),
       sc_passive_join_inventory_age_bps := apply_double v ''passive_join_inventory_age_bps'' (sc_passive_join_inventory_age_bps c),
       sc_passive_improve_inventory_age_bps := apply_double v ''passive_improve_inventory_age_bps'' (sc_passive_improve_inventory_age_bps c),
       sc_aggressive_inventory_age_bps := apply_double v ''aggressive_inventory_age_bps'' (sc_aggressive_inventory_age_bps c),
       sc_passive_improve_fraction := apply_double v ''passive_improve_fraction'' (sc_passive_improve_fraction c)\<rparr>"

definition load_constraints :: "value_map \<Rightarrow> RoutingConstraints \<Rightarrow> RoutingConstraints" where
  "load_constraints v c = c\<lparr>rc_alpha_min_signal_bps := apply_double v ''alpha_min_signal_bps'' (rc_alpha_min_signal_bps c),
       rc_alpha_risk_max := apply_double v ''alpha_risk_max'' (rc_alpha_risk_max c),
       rc_alpha_qty_scale := apply_double v ''alpha_qty_scale'' (rc_alpha_qty_scale c)\<rparr>"

definition load_routing :: "(string \<Rightarrow> string option) \<Rightarrow> string \<Rightarrow> SmartOrderRouterConfig \<times> SchedulerConfig \<times> RoutingConstraints \<Rightarrow>
    bool \<times> SmartOrderRouterConfig \<times> SchedulerConfig \<times> RoutingConstraints" where
  "load_routing files path c = (let v = parse_file files path in
     if v = [] then (False, c)
     else case c of (sor, sched, constraints) \<Rightarrow>
       let sor = load_sor v sor
       in (True, sor, (load_scheduler v sched)\<lparr>sc_sor := sor\<rparr>, load_constraints v constraints))"

definition load_portfolio_values :: "value_map \<Rightarrow> PortfolioIntentConfig \<Rightarrow> PortfolioIntentConfig" where
  "load_portfolio_values v c = c\<lparr>ic_max_position := apply_double v ''max_position'' (ic_max_position c),
       ic_min_entry_signal_bps := apply_double v ''min_entry_signal_bps'' (ic_min_entry_signal_bps c),
       ic_alpha_exit_buffer_bps := apply_double v ''alpha_exit_buffer_bps'' (ic_alpha_exit_buffer_bps c),
       ic_negative_reversal_signal_bps := apply_double v ''negative_reversal_signal_bps'' (ic_negative_reversal_signal_bps c),
       ic_positive_reversal_signal_bps := apply_double v ''positive_reversal_signal_bps'' (ic_positive_reversal_signal_bps c),
       ic_deadband_signal_bps := apply_double v ''deadband_signal_bps'' (ic_deadband_signal_bps c),
       ic_max_risk_score := apply_double v ''max_risk_score'' (ic_max_risk_score c),
       ic_shock_enter_threshold := apply_double v ''shock_enter_threshold'' (ic_shock_enter_threshold c),
       ic_shock_exit_threshold := apply_double v ''shock_exit_threshold'' (ic_shock_exit_threshold c),
       ic_illiquid_enter_threshold := apply_double v ''illiquid_enter_threshold'' (ic_illiquid_enter_threshold c),
       ic_illiquid_exit_threshold := apply_double v ''illiquid_exit_threshold'' (ic_illiquid_exit_threshold c),
       ic_regime_persistence_ticks := apply_int v ''regime_persistence_ticks'' (ic_regime_persistence_ticks c),
       ic_stale_inventory_ms := apply_int64 v ''stale_inventory_ms'' (ic_stale_inventory_ms c),
       ic_stale_signal_ms := apply_int64 v ''stale_signal_ms'' (ic_stale_signal_ms c),
       ic_max_basis_divergence_bps := apply_double v ''max_basis_divergence_bps'' (ic_max_basis_divergence_bps c),
       ic_stale_inventory_alpha_hold_bps := apply_double v ''stale_inventory_alpha_hold_bps'' (ic_stale_inventory_alpha_hold_bps c),
       ic_health_reduce_ratio := apply_double v ''health_reduce_ratio'' (ic_health_reduce_ratio c)\<rparr>"

definition load_portfolio :: "(string \<Rightarrow> string option) \<Rightarrow> string \<Rightarrow> PortfolioIntentConfig \<Rightarrow> bool \<times> PortfolioIntentConfig" where
  "load_portfolio files path c = (let v = parse_file files path in if v = [] then (False, c) else (True, load_portfolio_values v c))"

definition load_venue_quality_values :: "value_map \<Rightarrow> VenueQualityConfig \<Rightarrow> VenueQualityConfig" where
  "load_venue_quality_values v c = c\<lparr>qc_min_fill_probability := apply_double v ''min_fill_probability'' (qc_min_fill_probability c),
       qc_max_fill_probability := apply_double v ''max_fill_probability'' (qc_max_fill_probability c),
       qc_fill_probability_alpha := apply_double v ''fill_probability_alpha'' (qc_fill_probability_alpha c),
       qc_markout_alpha := apply_double v ''markout_alpha'' (qc_markout_alpha c),
       qc_reject_rate_alpha := apply_double v ''reject_rate_alpha'' (qc_reject_rate_alpha c),
       qc_cancel_latency_alpha := apply_double v ''cancel_latency_alpha'' (qc_cancel_latency_alpha c),
       qc_health_alpha := apply_double v ''health_alpha'' (qc_health_alpha c),
       qc_max_fill_step := apply_double v ''max_fill_step'' (qc_max_fill_step c),
       qc_max_markout_step_bps := apply_double v ''max_markout_step_bps'' (qc_max_markout_step_bps c),
       qc_max_reject_step := apply_double v ''max_reject_step'' (qc_max_reject_step c),
       qc_max_cancel_latency_step_bps := apply_double v ''max_cancel_latency_step_bps'' (qc_max_cancel_latency_step_bps c),
       qc_max_health_step_bps := apply_double v ''max_health_step_bps'' (qc_max_health_step_bps c),
       qc_reject_rate_penalty_bps := apply_double v ''reject_rate_penalty_bps'' (qc_reject_rate_penalty_bps c),
       qc_cancel_latency_penalty_scale_bps := apply_double v ''cancel_latency_penalty_scale_bps'' (qc_cancel_latency_penalty_scale_bps c),
       qc_health_penalty_scale_bps := apply_double v ''health_penalty_scale_bps'' (qc_health_penalty_scale_bps c),
       qc_passive_markout_penalty_scale := apply_double v ''passive_markout_penalty_scale'' (qc_passive_markout_penalty_scale c),
       qc_taker_markout_penalty_scale := apply_double v ''taker_markout_penalty_scale'' (qc_taker_markout_penalty_scale c),
       qc_stability_penalty_scale := apply_double v ''stability_penalty_scale'' (qc_stability_penalty_scale c)\<rparr>"

definition load_venue_quality :: "(string \<Rightarrow> string option) \<Rightarrow> string \<Rightarrow> VenueQualityConfig \<Rightarrow> bool \<times> VenueQualityConfig" where
  "load_venue_quality files path c = (let v = parse_file files path in if v = [] then (False, c) else (True, load_venue_quality_values v c))"

record VenueQuoteDefaults =
  vd_latency_penalty_bps :: double
  vd_risk_penalty_bps :: double
  vd_fill_probability :: double
  vd_queue_ahead_qty :: double
  vd_toxicity_bps :: double

record BinanceFuturesRuntimeConfig =
  bf_enabled :: bool
  bf_rest_url :: string
  bf_ws_url :: string
  bf_recv_window_ms :: u32
  bf_hedge_mode :: bool
  bf_default_leverage_cap :: double
  bf_leverage_caps :: "(string \<times> double) list"

record EngineConfig =
  ec_reconnect_interval_secs :: int
  ec_reconciliation_interval_secs :: int
  ec_portfolio_log_heartbeat_secs :: int
  ec_venue_quality_log_heartbeat_secs :: int
  ec_venue_quote_defaults :: VenueQuoteDefaults
  ec_binance_rest_url :: string
  ec_binance_ws_url :: string
  ec_kraken_rest_url :: string
  ec_kraken_ws_url :: string
  ec_okx_rest_url :: string
  ec_okx_ws_url :: string
  ec_coinbase_rest_url :: string
  ec_coinbase_ws_url :: string
  ec_shadow_base_latency_ns :: int
  ec_shadow_latency_jitter_ns :: int
  ec_shadow_impact_slippage_per_notional_bps :: double
  ec_shadow_queue_match_fraction_per_check :: double
  ec_shadow_log_path :: string
  ec_retry_max_attempts :: int
  ec_retry_backoff_ms :: int
  ec_strategy_mode :: StrategyMode
  ec_binance_futures :: BinanceFuturesRuntimeConfig

definition load_quote_defaults :: "value_map \<Rightarrow> VenueQuoteDefaults \<Rightarrow> VenueQuoteDefaults" where
  "load_quote_defaults v c = c\<lparr>vd_latency_penalty_bps := apply_double v ''default_latency_penalty_bps'' (vd_latency_penalty_bps c),
       vd_risk_penalty_bps := apply_double v ''default_risk_penalty_bps'' (vd_risk_penalty_bps c),
       vd_fill_probability := apply_double v ''default_fill_probability'' (vd_fill_probability c),
       vd_queue_ahead_qty := apply_double v ''default_queue_ahead_qty'' (vd_queue_ahead_qty c),
       vd_toxicity_bps := apply_double v ''default_toxicity_bps'' (vd_toxicity_bps c)\<rparr>"

definition leverage_prefix :: string where "leverage_prefix = ''binance_futures_leverage_cap_''"

definition leverage_cap :: "string \<times> string \<Rightarrow> (string \<times> double) option" where
  "leverage_cap entry =
     (let symbol = drop (length leverage_prefix) (fst entry)
      in if take (length leverage_prefix) (fst entry) \<noteq> leverage_prefix then None
         else case stod (snd entry) of
           Inl _ \<Rightarrow> None
         | Inr max_leverage \<Rightarrow> if max_leverage \<le> 0 \<or> symbol = [] then None else Some (symbol, max_leverage))"

definition load_futures :: "(value_map \<Rightarrow> value_map) \<Rightarrow> value_map \<Rightarrow> BinanceFuturesRuntimeConfig \<Rightarrow> BinanceFuturesRuntimeConfig" where
  "load_futures order v c = c\<lparr>bf_enabled := apply_bool v ''binance_futures_enabled'' (bf_enabled c),
       bf_rest_url := apply_string v ''binance_futures_rest_url'' (bf_rest_url c),
       bf_ws_url := apply_string v ''binance_futures_ws_url'' (bf_ws_url c),
       bf_recv_window_ms := apply_uint32 v ''binance_futures_recv_window_ms'' (bf_recv_window_ms c),
       bf_hedge_mode := apply_bool v ''binance_futures_hedge_mode'' (bf_hedge_mode c),
       bf_default_leverage_cap := apply_double v ''binance_futures_default_leverage_cap'' (bf_default_leverage_cap c),
       bf_leverage_caps := List.map_filter leverage_cap (order v)\<rparr>"

definition load_engine_values :: "(value_map \<Rightarrow> value_map) \<Rightarrow> value_map \<Rightarrow> EngineConfig \<Rightarrow> EngineConfig" where
  "load_engine_values order v c = c\<lparr>ec_reconnect_interval_secs := apply_int v ''reconnect_interval_secs'' (ec_reconnect_interval_secs c),
       ec_reconciliation_interval_secs := apply_int v ''reconciliation_interval_secs'' (ec_reconciliation_interval_secs c),
       ec_portfolio_log_heartbeat_secs := apply_int v ''portfolio_log_heartbeat_secs'' (ec_portfolio_log_heartbeat_secs c),
       ec_venue_quality_log_heartbeat_secs := apply_int v ''venue_quality_log_heartbeat_secs'' (ec_venue_quality_log_heartbeat_secs c),
       ec_venue_quote_defaults := load_quote_defaults v (ec_venue_quote_defaults c),
       ec_binance_rest_url := apply_string v ''binance_rest_url'' (ec_binance_rest_url c),
       ec_binance_ws_url := apply_string v ''binance_ws_url'' (ec_binance_ws_url c),
       ec_kraken_rest_url := apply_string v ''kraken_rest_url'' (ec_kraken_rest_url c),
       ec_kraken_ws_url := apply_string v ''kraken_ws_url'' (ec_kraken_ws_url c),
       ec_okx_rest_url := apply_string v ''okx_rest_url'' (ec_okx_rest_url c),
       ec_okx_ws_url := apply_string v ''okx_ws_url'' (ec_okx_ws_url c),
       ec_coinbase_rest_url := apply_string v ''coinbase_rest_url'' (ec_coinbase_rest_url c),
       ec_coinbase_ws_url := apply_string v ''coinbase_ws_url'' (ec_coinbase_ws_url c),
       ec_shadow_base_latency_ns := apply_int64 v ''shadow_base_latency_ns'' (ec_shadow_base_latency_ns c),
       ec_shadow_latency_jitter_ns := apply_int64 v ''shadow_latency_jitter_ns'' (ec_shadow_latency_jitter_ns c),
       ec_shadow_impact_slippage_per_notional_bps := apply_double v ''shadow_impact_slippage_per_notional_bps'' (ec_shadow_impact_slippage_per_notional_bps c),
       ec_shadow_queue_match_fraction_per_check := apply_double v ''shadow_queue_match_fraction_per_check'' (ec_shadow_queue_match_fraction_per_check c),
       ec_shadow_log_path := apply_string v ''shadow_log_path'' (ec_shadow_log_path c),
       ec_retry_max_attempts := apply_int v ''retry_max_attempts'' (ec_retry_max_attempts c),
       ec_retry_backoff_ms := apply_int v ''retry_backoff_ms'' (ec_retry_backoff_ms c),
       ec_strategy_mode := apply_strategy_mode v ''strategy_mode'' (ec_strategy_mode c),
       ec_binance_futures := load_futures order v (ec_binance_futures c)\<rparr>"

definition load_engine :: "(value_map \<Rightarrow> value_map) \<Rightarrow> (string \<Rightarrow> string option) \<Rightarrow> string \<Rightarrow> EngineConfig \<Rightarrow> bool \<times> EngineConfig" where
  "load_engine order files path c =
     (let v = parse_file files path in if v = [] then (False, c) else (True, load_engine_values order v c))"

section \<open>The risk file\<close>

record RiskRuntimeConfig =
  rk_circuit_breaker :: CircuitBreakerConfig
  rk_global_risk :: GlobalRiskConfig
  rk_futures_risk :: FuturesRiskGateConfig
  rk_heartbeat_timeout_ns :: int
  rk_target_range_usd :: double
  rk_max_book_levels :: u64
  rk_binance_taker_fee_bps :: double
  rk_kraken_taker_fee_bps :: double
  rk_okx_taker_fee_bps :: double
  rk_coinbase_taker_fee_bps :: double
  rk_venue_capital :: "(double \<times> double) list" \<comment> \<open>starting equity and free collateral buffer of the four venues\<close>

text \<open>\<open>RiskRuntimeConfig risk_cfg;\<close>: the caps have no initialiser.\<close>

definition mk_RiskRuntimeConfig :: "GlobalRiskConfig \<Rightarrow> RiskRuntimeConfig" where
  "mk_RiskRuntimeConfig garbage = \<lparr>rk_circuit_breaker = mk_CircuitBreakerConfig, rk_global_risk = garbage,
     rk_futures_risk = mk_FuturesRiskGateConfig, rk_heartbeat_timeout_ns = DEFAULT_HEARTBEAT_TIMEOUT_NS,
     rk_target_range_usd = lit 50, rk_max_book_levels = 10000, rk_binance_taker_fee_bps = lit 5,
     rk_kraken_taker_fee_bps = lit 10, rk_okx_taker_fee_bps = lit 8, rk_coinbase_taker_fee_bps = lit 6,
     rk_venue_capital = replicate 4 (0, 0)\<rparr>"

text \<open>The conversion of a double to \<open>int64_t\<close>: outside the range, and for NaN, the deployment target gives the least value.\<close>

definition to_int64 :: "double \<Rightarrow> int" where
  "to_int64 d =
     (if \<not> isfinite d then i64_min
      else let q = fval d; n = (if q < 0 then - \<lfloor>- q\<rfloor> else \<lfloor>q\<rfloor>)
           in if - (2 ^ 63) \<le> n \<and> n < 2 ^ 63 then n else i64_min)"

definition load_breaker :: "value_map \<Rightarrow> CircuitBreakerConfig \<Rightarrow> CircuitBreakerConfig" where
  "load_breaker v c = c\<lparr>max_orders_per_second := apply_int v ''max_orders_per_sec'' (apply_int v ''max_orders_per_second'' (max_orders_per_second c)),
       max_orders_per_minute := apply_int v ''max_orders_per_min'' (apply_int v ''max_orders_per_minute'' (max_orders_per_minute c)),
       max_messages_per_second := apply_int v ''max_messages_per_second'' (max_messages_per_second c),
       max_drawdown_usd := apply_double v ''max_drawdown_usd'' (max_drawdown_usd c),
       max_book_age_ms := apply_int64 v ''max_age_ms'' (apply_int64 v ''max_book_age_ms'' (max_book_age_ms c)),
       max_price_deviation_bps := apply_double v ''max_price_deviation_bps'' (max_price_deviation_bps c),
       price_ema_alpha := apply_double v ''price_ema_alpha'' (price_ema_alpha c),
       consecutive_loss_count := apply_int v ''circuit_breaker_count'' (consecutive_loss_count c),
       per_leg_loss_usd := apply_double v ''circuit_breaker_loss_usd'' (per_leg_loss_usd c)\<rparr>"

definition load_global_risk :: "value_map \<Rightarrow> GlobalRiskConfig \<Rightarrow> GlobalRiskConfig" where
  "load_global_risk v c = c\<lparr>max_gross_notional := apply_double v ''max_portfolio_notional'' (apply_double v ''max_gross_notional'' (max_gross_notional c)),
       max_net_notional := apply_double v ''max_net_notional'' (max_net_notional c),
       max_cross_venue_net_notional := apply_double v ''max_cross_venue_net_notional'' (max_cross_venue_net_notional c),
       max_venue_notional := apply_double v ''max_venue_notional'' (apply_double v ''max_notional_per_exchange'' (max_venue_notional c)),
       max_symbol_concentration := apply_double v ''max_symbol_concentration_pct'' (max_symbol_concentration c * lit 100) / lit 100\<rparr>"

definition symbol_keys :: "string list" where
  "symbol_keys = [''BTCUSDT'', ''ETHUSDT'', ''SOLUSDT'', ''BNBUSDT'', ''XRPUSDT'', ''ADAUSDT'', ''DOGEUSDT'', ''LTCUSDT'']"

fun symbol_limit_loop :: "value_map \<Rightarrow> string list \<Rightarrow> FuturesRiskGateConfig \<Rightarrow> FuturesRiskGateConfig" where
  "symbol_limit_loop v [] c = c"
| "symbol_limit_loop v (symbol # symbols) c =
     (case map_of v (''futures_max_leverage_'' @ symbol) of
        None \<Rightarrow> symbol_limit_loop v symbols c
      | Some s \<Rightarrow>
          if symbol_limit_count c \<ge> length (symbol_limits c) then c
          else case stod s of
            Inl _ \<Rightarrow> symbol_limit_loop v symbols c
          | Inr max_leverage \<Rightarrow>
              if max_leverage \<le> 0 then symbol_limit_loop v symbols c
              else symbol_limit_loop v symbols (c\<lparr>
                symbol_limits := (symbol_limits c)[symbol_limit_count c := (buf_copy 16 symbol, max_leverage)],
                symbol_limit_count := Suc (symbol_limit_count c)\<rparr>))"

definition load_futures_risk :: "value_map \<Rightarrow> FuturesRiskGateConfig \<Rightarrow> FuturesRiskGateConfig" where
  "load_futures_risk v c = symbol_limit_loop v symbol_keys (c\<lparr>fg_enabled := (apply_int v ''futures_risk_enabled'' (if fg_enabled c then 1 else 0) \<noteq> 0),
       max_projected_funding_cost_bps := apply_double v ''futures_max_projected_funding_cost_bps'' (max_projected_funding_cost_bps c),
       funding_cost_scale_start_bps := apply_double v ''futures_funding_cost_scale_start_bps'' (funding_cost_scale_start_bps c),
       min_funding_scale := apply_double v ''futures_min_funding_scale'' (min_funding_scale c),
       max_mark_index_divergence_bps := apply_double v ''futures_max_mark_index_divergence_bps'' (max_mark_index_divergence_bps c),
       max_maintenance_margin_ratio := apply_double v ''futures_max_maintenance_margin_ratio'' (max_maintenance_margin_ratio c),
       default_max_leverage := apply_double v ''futures_default_max_leverage'' (default_max_leverage c),
       symbol_limit_count := 0\<rparr>)"

text \<open>The four venues in the order of the array.\<close>

definition capital_venues :: "string list" where
  "capital_venues = [''BINANCE'', ''OKX'', ''COINBASE'', ''KRAKEN'']"

definition load_capital :: "value_map \<Rightarrow> (double \<times> double) list \<Rightarrow> (double \<times> double) list" where
  "load_capital v cs = map (\<lambda>(name, equity, buffer).
     (apply_double v (''capital_start_equity_usd_'' @ name) equity,
      apply_double v (''capital_min_free_collateral_usd_'' @ name) buffer)) (zip capital_venues cs)"

definition load_fee :: "value_map \<Rightarrow> string \<Rightarrow> string \<Rightarrow> double \<Rightarrow> double" where
  "load_fee v key alias fee = apply_double v alias (apply_double v key fee)"

definition load_heartbeat :: "value_map \<Rightarrow> int \<Rightarrow> int" where
  "load_heartbeat v ns =
     to_int64 (apply_double v ''timeout_ms'' (apply_double v ''heartbeat_timeout_ms'' (of_integer ns / lit 1000000)) * lit 1000000)"

definition load_risk_values :: "value_map \<Rightarrow> RiskRuntimeConfig \<Rightarrow> RiskRuntimeConfig" where
  "load_risk_values v c = c\<lparr>rk_circuit_breaker := load_breaker v (rk_circuit_breaker c),
       rk_heartbeat_timeout_ns := load_heartbeat v (rk_heartbeat_timeout_ns c),
       rk_target_range_usd := apply_double v ''book_target_range_usd'' (apply_double v ''target_range_usd'' (rk_target_range_usd c)),
       rk_max_book_levels := apply_size_t v ''max_book_levels'' (rk_max_book_levels c),
       rk_global_risk := load_global_risk v (rk_global_risk c),
       rk_futures_risk := load_futures_risk v (rk_futures_risk c),
       rk_binance_taker_fee_bps := load_fee v ''binance_taker'' ''BINANCE'' (rk_binance_taker_fee_bps c),
       rk_kraken_taker_fee_bps := load_fee v ''kraken_taker'' ''KRAKEN'' (rk_kraken_taker_fee_bps c),
       rk_okx_taker_fee_bps := load_fee v ''okx_taker'' ''OKX'' (rk_okx_taker_fee_bps c),
       rk_coinbase_taker_fee_bps := load_fee v ''coinbase_taker'' ''COINBASE'' (rk_coinbase_taker_fee_bps c),
       rk_venue_capital := load_capital v (rk_venue_capital c)\<rparr>"

definition load_risk :: "(string \<Rightarrow> string option) \<Rightarrow> string \<Rightarrow> RiskRuntimeConfig \<Rightarrow> bool \<times> RiskRuntimeConfig" where
  "load_risk files path c =
     (case open_first files path of None \<Rightarrow> (False, c) | Some text \<Rightarrow> (True, load_risk_values (parse_text text) c))"

section \<open>Reading back what was written\<close>

text \<open>An entry of a settings file: indentation, key, gap, value and an optional comment.\<close>

record entry =
  en_indent :: string
  en_key :: string
  en_gap :: string
  en_value :: string
  en_comment :: "string option"

definition render_entry :: "entry \<Rightarrow> string" where
  "render_entry e = en_indent e @ en_key e @ '':'' @ en_gap e @ en_value e @
     (case en_comment e of None \<Rightarrow> [] | Some t \<Rightarrow> CHR ''#'' # t)"

definition render_file :: "entry list \<Rightarrow> string" where
  "render_file es = concat (map (\<lambda>e. render_entry e @ [CHR 0x0A]) es)"

definition is_word :: "string \<Rightarrow> bool" where
  "is_word s \<longleftrightarrow> s \<noteq> [] \<and> \<not> is_space (hd s) \<and> \<not> is_space (last s) \<and> CHR ''#'' \<notin> set s \<and> CHR 0x0A \<notin> set s"

definition is_blank :: "string \<Rightarrow> bool" where
  "is_blank s \<longleftrightarrow> list_all (\<lambda>c. c = CHR '' '' \<or> c = CHR 0x09) s"

definition plain_entry :: "entry \<Rightarrow> bool" where
  "plain_entry e \<longleftrightarrow> is_blank (en_indent e) \<and> is_blank (en_gap e) \<and> is_word (en_key e) \<and> is_word (en_value e) \<and>
     CHR '':'' \<notin> set (en_key e) \<and> (case en_comment e of None \<Rightarrow> True | Some t \<Rightarrow> CHR 0x0A \<notin> set t)"

lemma blankD: "is_blank s \<Longrightarrow> c \<in> set s \<Longrightarrow> c = CHR '' '' \<or> c = CHR 0x09"
  unfolding is_blank_def list_all_iff by (rule bspec)

lemma blank_space:
  assumes "is_blank s" "c \<in> set s" shows "is_space c"
proof -
  have "is_space CHR '' ''" "is_space CHR 0x09" by code_simp+
  with blankD[OF assms] show ?thesis by (elim disjE) simp_all
qed

lemma blank_safe:
  assumes "is_blank s" shows "CHR ''#'' \<notin> set s" "CHR '':'' \<notin> set s" "CHR 0x0A \<notin> set s"
  using blankD[OF assms] by fastforce+

lemma dropWhile_spaces: "(\<And>c. c \<in> set a \<Longrightarrow> P c) \<Longrightarrow> s \<noteq> [] \<Longrightarrow> \<not> P (hd s) \<Longrightarrow> dropWhile P (a @ s) = s"
  by (induction a) (cases s; simp)+

lemma trim_padded:
  assumes "is_blank a" "s \<noteq> []" "\<not> is_space (hd s)" "\<not> is_space (last s)" shows "trim (a @ s) = s"
  using assms dropWhile_spaces[of a is_space s] dropWhile_spaces[of "[]" is_space "rev s"]
  by (simp add: trim_def blank_space hd_rev)

lemma takeWhile_until: "c \<notin> set a \<Longrightarrow> takeWhile (\<lambda>x. x \<noteq> c) (a @ c # b) = a"
  by (induction a) auto

lemma dropWhile_until: "c \<notin> set a \<Longrightarrow> dropWhile (\<lambda>x. x \<noteq> c) (a @ c # b) = c # b"
  by (induction a) auto

lemma takeWhile_all: "c \<notin> set a \<Longrightarrow> takeWhile (\<lambda>x. x \<noteq> c) a = a"
  by (induction a) auto

lemma parse_rendered:
  assumes "plain_entry e" shows "parse_line (render_entry e) = Some (en_key e, en_value e)"
proof -
  let ?line = "en_key e @ '':'' @ en_gap e @ en_value e"
  have w: "is_blank (en_indent e)" "is_blank (en_gap e)" "is_word (en_key e)" "is_word (en_value e)" "CHR '':'' \<notin> set (en_key e)"
    using assms by (simp_all add: plain_entry_def)
  have no_hash: "CHR ''#'' \<notin> set (en_indent e @ ?line)" using w blank_safe by (auto simp: is_word_def)
  have cut: "takeWhile (\<lambda>c. c \<noteq> CHR ''#'') (render_entry e) = en_indent e @ ?line"
  proof (cases "en_comment e")
    case None
    then show ?thesis using takeWhile_all[OF no_hash] by (simp add: render_entry_def)
  next
    case (Some t)
    then show ?thesis using takeWhile_until[OF no_hash, of t] by (simp add: render_entry_def)
  qed
  have line: "trim (en_indent e @ ?line) = ?line" using w by (intro trim_padded) (auto simp: is_word_def)
  have key: "trim (takeWhile (\<lambda>c. c \<noteq> CHR '':'') ?line) = en_key e"
    using w(3,5) trim_padded[of "[]" "en_key e"] takeWhile_until[OF w(5), of "en_gap e @ en_value e"] by (simp add: is_word_def is_blank_def)
  have val: "trim (drop 1 (dropWhile (\<lambda>c. c \<noteq> CHR '':'') ?line)) = en_value e"
    using w(2,4) trim_padded[of "en_gap e" "en_value e"] dropWhile_until[OF w(5), of "en_gap e @ en_value e"] by (simp add: is_word_def)
  show ?thesis unfolding parse_line_def cut line Let_def key val using w(4) by (simp add: is_word_def)
qed

lemma render_no_newline: "plain_entry e \<Longrightarrow> CHR 0x0A \<notin> set (render_entry e)"
  using blank_safe by (auto simp: plain_entry_def render_entry_def is_word_def split: option.splits)

lemma getlines_line: "d \<notin> set l \<Longrightarrow> getlines d (l @ d # rest) = l # getlines d rest"
  by (cases l) (auto simp: takeWhile_until dropWhile_until)

lemma getlines_file: "list_all plain_entry es \<Longrightarrow> getlines CHR 0x0A (render_file es) = map render_entry es"
  by (induction es) (simp_all add: render_file_def getlines_line render_no_newline)

text \<open>
  C18. A settings file reads back as it was written: whatever the indentation, the gaps and the
  comments, every key has the value of its last entry, colons in values included, and no other key
  has one.
\<close>

theorem settings_read_back:
  assumes "list_all plain_entry es"
  shows "map_of (parse_text (render_file es)) = map_of (rev (map (\<lambda>e. (en_key e, en_value e)) es))"
proof -
  have "map_of (fold add_line (map render_entry es) m) = map_of (rev (map (\<lambda>e. (en_key e, en_value e)) es) @ m)" for m
    using assms
  proof (induction es arbitrary: m)
    case (Cons e es)
    then have "add_line (render_entry e) m = AList.update (en_key e) (en_value e) m" by (simp add: add_line_def parse_rendered)
    with Cons have "map_of (fold add_line (map render_entry (e # es)) m) =
        map_of (rev (map (\<lambda>e. (en_key e, en_value e)) es) @ AList.update (en_key e) (en_value e) m)"
      by (simp del: map_of_append)
    then show ?case by (simp add: update_conv' map_add_def fun_eq_iff split: option.splits)
  qed simp
  from this[of "[]"] show ?thesis by (simp add: parse_text_def getlines_file[OF assms])
qed

section \<open>Types of the loaded values\<close>

definition is_i32 :: "int \<Rightarrow> bool" where "is_i32 n \<longleftrightarrow> - (2 ^ 31) \<le> n \<and> n < 2 ^ 31"
definition is_i64 :: "int \<Rightarrow> bool" where "is_i64 n \<longleftrightarrow> - (2 ^ 63) \<le> n \<and> n < 2 ^ 63"

definition breaker_typed :: "CircuitBreakerConfig \<Rightarrow> bool" where
  "breaker_typed c \<longleftrightarrow> is_i32 (consecutive_loss_count c) \<and> is_i32 (max_orders_per_second c) \<and> is_i32 (max_orders_per_minute c) \<and>
     is_i32 (max_messages_per_second c) \<and> is_i64 (max_book_age_ms c) \<and> dwf (max_drawdown_usd c) \<and>
     dwf (max_price_deviation_bps c) \<and> dwf (price_ema_alpha c) \<and> dwf (per_leg_loss_usd c)"

definition caps_typed :: "GlobalRiskConfig \<Rightarrow> bool" where
  "caps_typed c \<longleftrightarrow> dwf (max_gross_notional c) \<and> dwf (max_net_notional c) \<and> dwf (max_symbol_concentration c) \<and>
     dwf (max_venue_notional c) \<and> dwf (max_cross_venue_net_notional c)"

definition futures_typed :: "FuturesRiskGateConfig \<Rightarrow> bool" where
  "futures_typed c \<longleftrightarrow> dwf (max_projected_funding_cost_bps c) \<and> dwf (funding_cost_scale_start_bps c) \<and>
     dwf (min_funding_scale c) \<and> dwf (max_mark_index_divergence_bps c) \<and> dwf (max_maintenance_margin_ratio c) \<and>
     dwf (default_max_leverage c) \<and> length (symbol_limits c) = 16 \<and> symbol_limit_count c \<le> 16 \<and>
     list_all (\<lambda>l. length (fst l) < 16 \<and> dwf (snd l)) (symbol_limits c) \<and>
     list_all (\<lambda>l. \<not> snd l \<le> 0) (take (symbol_limit_count c) (symbol_limits c))"

definition risk_typed :: "RiskRuntimeConfig \<Rightarrow> bool" where
  "risk_typed c \<longleftrightarrow> breaker_typed (rk_circuit_breaker c) \<and> caps_typed (rk_global_risk c) \<and> futures_typed (rk_futures_risk c) \<and>
     is_i64 (rk_heartbeat_timeout_ns c) \<and> dwf (rk_target_range_usd c) \<and> dwf (rk_binance_taker_fee_bps c) \<and>
     dwf (rk_kraken_taker_fee_bps c) \<and> dwf (rk_okx_taker_fee_bps c) \<and> dwf (rk_coinbase_taker_fee_bps c) \<and>
     length (rk_venue_capital c) = 4 \<and> list_all (\<lambda>(a, b). dwf a \<and> dwf b) (rk_venue_capital c)"

lemma dwf_ranged: "ranged neg q = Inr d \<Longrightarrow> dwf d"
  using dwf_pack[of neg "if neg then - q else q"] by (auto simp: ranged_def Let_def simp del: dwf_pack split: if_splits)

lemma dwf_stod: "stod s = Inr d \<Longrightarrow> dwf d"
  by (auto simp: stod_def Let_def split: prod.splits if_splits option.splits dest: dwf_ranged)

lemma apply_with_keeps:
  assumes "P field" "\<And>s x. parse s = Inr x \<Longrightarrow> P x" shows "P (apply_with parse v key field)"
  using assms by (auto simp: apply_with_def split: option.splits sum.splits)

lemma signed_token_range:
  assumes "signed_token w s = Inr n" shows "- (2 ^ (w - 1)) \<le> n \<and> n < 2 ^ (w - 1)"
  using assms by (auto simp: signed_token_def Let_def split: option.splits if_splits)

lemma apply_typed [simp]:
  "dwf d \<Longrightarrow> dwf (apply_double v key d)" "is_i32 n \<Longrightarrow> is_i32 (apply_int v key n)" "is_i64 n \<Longrightarrow> is_i64 (apply_int64 v key n)"
proof -
  show "dwf d \<Longrightarrow> dwf (apply_double v key d)"
    unfolding apply_double_def by (rule apply_with_keeps) (auto dest: dwf_stod)
  show "is_i32 n \<Longrightarrow> is_i32 (apply_int v key n)"
    unfolding apply_int_def stoi_def by (rule apply_with_keeps) (auto dest: signed_token_range simp: is_i32_def)
  show "is_i64 n \<Longrightarrow> is_i64 (apply_int64 v key n)"
    unfolding apply_int64_def stoll_def by (rule apply_with_keeps) (auto dest: signed_token_range simp: is_i64_def)
qed

lemma to_int64_range: "is_i64 (to_int64 d)"
  by (simp add: to_int64_def is_i64_def i64_min_def Let_def)

lemma symbol_limit_loop_typed:
  "futures_typed c \<Longrightarrow> futures_typed (symbol_limit_loop v symbols c)"
proof (induction v symbols c rule: symbol_limit_loop.induct)
  case (2 v symbol symbols c)
  show ?case
  proof (cases "map_of v (''futures_max_leverage_'' @ symbol)")
    case None
    then show ?thesis using 2 by simp
  next
    case (Some s)
    show ?thesis
    proof (cases "symbol_limit_count c \<ge> length (symbol_limits c) \<or> stod s = Inl (projl (stod s)) \<or> projr (stod s) \<le> 0")
      case True
      then show ?thesis using 2 Some by (auto split: sum.splits)
    next
      case False
      then obtain d where d: "stod s = Inr d" "\<not> d \<le> 0" "symbol_limit_count c < length (symbol_limits c)"
        by (cases "stod s") auto
      let ?c = "c\<lparr>symbol_limits := (symbol_limits c)[symbol_limit_count c := (buf_copy 16 symbol, d)],
          symbol_limit_count := Suc (symbol_limit_count c)\<rparr>"
      have "list_all (\<lambda>l. length (fst l) < 16 \<and> dwf (snd l)) (symbol_limits ?c)"
        using 2(5) dwf_stod[OF d(1)] set_update_subset_insert[of "symbol_limits c" "symbol_limit_count c" "(buf_copy 16 symbol, d)"]
        by (auto simp: futures_typed_def list_all_iff buf_copy_def)
      moreover have "list_all (\<lambda>l. \<not> snd l \<le> 0) (take (symbol_limit_count ?c) (symbol_limits ?c))"
        using 2(5) d by (simp add: futures_typed_def take_Suc_conv_app_nth)
      ultimately have "futures_typed ?c" using 2(5) d(3) by (simp add: futures_typed_def)
      then show ?thesis using 2(4) Some d by simp
    qed
  qed
qed simp

text \<open>
  Loading the risk settings keeps every member within its type, whatever the file holds: the
  counts fit 32 bits, ages and the heartbeat timeout 64, every double is one, and the futures
  limits stay inside their array of sixteen, each with a terminated symbol and a leverage that is
  not zero or less.
\<close>

theorem risk_settings_typed:
  assumes "risk_typed c" shows "risk_typed (snd (load_risk files path c))"
proof -
  have futures: "futures_typed (load_futures_risk v f)" if "futures_typed f" for v f
    unfolding load_futures_risk_def using that by (intro symbol_limit_loop_typed) (simp add: futures_typed_def)
  have "breaker_typed (load_breaker v b)" if "breaker_typed b" for v b
    using that by (simp add: breaker_typed_def load_breaker_def)
  moreover have "caps_typed (load_global_risk v g)" if "caps_typed g" for v g
    using that by (simp add: caps_typed_def load_global_risk_def)
  moreover have "list_all (\<lambda>(a, b). dwf a \<and> dwf b) (load_capital v cs) \<and> length (load_capital v cs) = 4"
    if "list_all (\<lambda>(a, b). dwf a \<and> dwf b) cs" "length cs = 4" for v cs
    using that by (auto simp: load_capital_def list_all_iff capital_venues_def dest!: set_zip_rightD)
  ultimately have "risk_typed (load_risk_values v c)" for v
    using assms futures by (simp add: risk_typed_def load_risk_values_def load_fee_def load_heartbeat_def to_int64_range)
  then show ?thesis using assms by (auto simp: load_risk_def split: option.splits)
qed

section \<open>Values that are not numbers\<close>

lemma stod_nan: "stod ''nan'' = Inr NaN"
  by code_simp

text \<open>
  A risk file that sets the drawdown limit to nan is accepted and switches the drawdown check
  off: the circuit breaker built from it answers OK to every profit and loss and never triggers the
  kill switch.
\<close>

theorem nan_setting_disables_drawdown:
  assumes "files path = Some text" and "map_of (parse_text text) ''max_drawdown_usd'' = Some ''nan''"
  shows "\<exists>c. load_risk files path out = (True, c) \<and>
    (case check_drawdown pnl (cb_init (rk_circuit_breaker c), ks) of (r, _, ks') \<Rightarrow> r = CB_OK \<and> ks' = ks)"
proof -
  have "open_first files path = Some text"
    using assms(1) by (simp add: open_first_def candidate_paths_def)
  moreover have "max_drawdown_usd (rk_circuit_breaker (load_risk_values (parse_text text) out)) = NaN"
    using assms(2) by (simp add: load_risk_values_def load_breaker_def apply_double_def apply_with_def stod_nan)
  ultimately show ?thesis by (simp add: load_risk_def check_drawdown_def cb_init_def)
qed

section \<open>Instances\<close>

definition url_entry :: entry where
  "url_entry = \<lparr>en_indent = ''  '', en_key = ''okx_ws_url'', en_gap = '' '', en_value = ''wss://ws.okx.com:8443/ws'',
     en_comment = Some '' public: no key''\<rparr>"

definition depth_entry :: "string \<Rightarrow> entry" where
  "depth_entry n = \<lparr>en_indent = [], en_key = ''depth'', en_gap = [], en_value = n, en_comment = None\<rparr>"

theorem settings_read_back_witness:
  "map_of (parse_text (render_file [depth_entry ''5'', url_entry, depth_entry ''7''])) ''depth'' = Some ''7'' \<and>
   map_of (parse_text (render_file [depth_entry ''5'', url_entry, depth_entry ''7''])) ''okx_ws_url'' = Some ''wss://ws.okx.com:8443/ws''"
proof -
  have "plain_entry (depth_entry ''5'')" "plain_entry url_entry" "plain_entry (depth_entry ''7'')" by code_simp+
  then have "list_all plain_entry [depth_entry ''5'', url_entry, depth_entry ''7'']" by simp
  from settings_read_back[OF this] show ?thesis by (simp add: depth_entry_def url_entry_def)
qed

definition no_caps :: GlobalRiskConfig where
  "no_caps = \<lparr>max_gross_notional = 0, max_net_notional = 0, max_symbol_concentration = 0, max_venue_notional = 0,
     max_cross_venue_net_notional = 0, kill_on_breach = True\<rparr>"

lemma start_typed: "risk_typed (mk_RiskRuntimeConfig no_caps)"
proof -
  have "breaker_typed mk_CircuitBreakerConfig" by (simp add: breaker_typed_def mk_CircuitBreakerConfig_def is_i32_def is_i64_def)
  moreover have "caps_typed no_caps" by (simp add: caps_typed_def no_caps_def)
  moreover have "futures_typed mk_FuturesRiskGateConfig"
    by (simp add: futures_typed_def mk_FuturesRiskGateConfig_def dwf_one list_all_iff)
  ultimately show ?thesis
    by (simp add: risk_typed_def mk_RiskRuntimeConfig_def is_i64_def DEFAULT_HEARTBEAT_TIMEOUT_NS_def list_all_iff)
qed

theorem risk_settings_typed_witness:
  "risk_typed (snd (load_risk (\<lambda>_. Some ''futures_max_leverage_BTCUSDT: 12'') ''risk.yaml'' (mk_RiskRuntimeConfig no_caps)))"
  by (rule risk_settings_typed[OF start_typed])

theorem nan_setting_disables_drawdown_witness:
  "\<exists>c. load_risk (\<lambda>_. Some ''max_drawdown_usd: nan'') ''risk.yaml'' (mk_RiskRuntimeConfig no_caps) = (True, c) \<and>
    (case check_drawdown NInf (cb_init (rk_circuit_breaker c), ks_init 0 1) of (r, _, ks') \<Rightarrow> r = CB_OK \<and> ks' = ks_init 0 1)"
proof -
  have "map_of (parse_text ''max_drawdown_usd: nan'') ''max_drawdown_usd'' = Some ''nan''" by code_simp
  from nan_setting_disables_drawdown[OF _ this, of "\<lambda>_. Some ''max_drawdown_usd: nan''" "''risk.yaml''"] show ?thesis by simp
qed

end
