(* ===== verification/Engine_Support.thy ===== *)
theory Engine_Support
  imports Config_Loader Book_Manager Symbol_Mapper Shadow_Engine Reconciliation_Service
begin

text \<open>
  The helpers of \<^verbatim>\<open>core/engine/trading_engine_main.cpp\<close>: command line, quotes, the portfolio snapshot, the
  description of an intent, the checks at start. Times are arguments. A symbol that the symbol
  mapper cannot read throws; \<open>main\<close> catches everything at its end, so an exception ends the engine.
\<close>

section \<open>Command line\<close>

record CliOptions =
  cl_mode :: string
  cl_venues :: string
  cl_symbol :: string
  cl_loop_interval_ms :: int

definition mk_CliOptions :: CliOptions where
  "mk_CliOptions = \<lparr>cl_mode = ''live'', cl_venues = ''BINANCE,KRAKEN,OKX,COINBASE'', cl_symbol = ''BTCUSDT'',
     cl_loop_interval_ms = 500\<rparr>"

text \<open>The arguments after the program's name.\<close>

fun parse_args :: "string list \<Rightarrow> CliOptions \<Rightarrow> CliOptions" where
  "parse_args [] out = out"
| "parse_args [arg] out = out"
| "parse_args (arg # v # rest) out =
     (if arg = ''--mode'' then parse_args rest (out\<lparr>cl_mode := v\<rparr>)
      else if arg = ''--venues'' then parse_args rest (out\<lparr>cl_venues := v\<rparr>)
      else if arg = ''--symbol'' then parse_args rest (out\<lparr>cl_symbol := v\<rparr>)
      else if arg = ''--loop-interval-ms'' then
        parse_args rest (case stoi v of Inl _ \<Rightarrow> out | Inr n \<Rightarrow> out\<lparr>cl_loop_interval_ms := n\<rparr>)
      else parse_args (v # rest) out)"

definition has_venue :: "string \<Rightarrow> string \<Rightarrow> bool" where
  "has_venue csv needle \<longleftrightarrow> needle \<in> set (getlines CHR '','' csv)"

fun strategy_mode_to_string :: "StrategyMode \<Rightarrow> string" where
  "strategy_mode_to_string SPOT_ONLY = ''spot_only''"
| "strategy_mode_to_string FUTURES_ONLY = ''futures_only''"
| "strategy_mode_to_string MODE_UNKNOWN = ''unknown''"

text \<open>\<open>run_binance\<close>, \<open>run_kraken\<close>, \<open>run_okx\<close> and \<open>run_coinbase\<close>.\<close>

definition runs_venue :: "CliOptions \<Rightarrow> EngineConfig \<Rightarrow> Exchange \<Rightarrow> bool" where
  "runs_venue cli ec ex \<longleftrightarrow> has_venue (cl_venues cli) (exchange_to_string ex) \<and> (ex = BINANCE \<or> ec_strategy_mode ec = SPOT_ONLY)"

definition futures_enabled :: "EngineConfig \<Rightarrow> bool" where
  "futures_enabled ec \<longleftrightarrow> bf_enabled (ec_binance_futures ec) \<and> ec_strategy_mode ec = FUTURES_ONLY"

text \<open>The settings with which \<open>main\<close> returns 2 before it trades.\<close>

definition settings_refused :: "PortfolioIntentConfig \<Rightarrow> EngineConfig \<Rightarrow> string \<Rightarrow> string \<Rightarrow> bool" where
  "settings_refused pc ec api_key api_secret \<longleftrightarrow>
     ic_shock_enter_threshold pc \<le> 0 \<or> ic_regime_persistence_ticks pc \<le> 0 \<or>
     ec_strategy_mode ec = MODE_UNKNOWN \<or>
     (ec_strategy_mode ec = FUTURES_ONLY \<and> \<not> bf_enabled (ec_binance_futures ec)) \<or>
     (futures_enabled ec \<and> (let bf = ec_binance_futures ec in
        bf_rest_url bf = [] \<or> bf_recv_window_ms bf = 0 \<or> bf_default_leverage_cap bf \<le> 0 \<or>
        list_ex (\<lambda>cap. snd cap \<le> 0) (bf_leverage_caps bf) \<or> bf_ws_url bf = [] \<or> api_key = [] \<or> api_secret = []))"

text \<open>The lambda \<open>levels_for_tick\<close>; \<open>None\<close> where the quotient does not fit \<open>size_t\<close>, which is undefined.\<close>

definition levels_for_tick :: "double \<Rightarrow> u64 \<Rightarrow> double \<Rightarrow> u64 option" where
  "levels_for_tick target_range_usd max_book_levels tick =
     (if tick \<le> 0 then Some 1
      else let q = target_range_usd / tick in
        if \<not> isfinite q \<or> fval q \<le> - 1 \<or> fval q \<ge> 2 ^ 64 then None
        else let levels = word_of_int \<lfloor>fval q\<rfloor>; capped = (if fval q \<ge> 1 then levels else 1)
             in Some (if capped < max_book_levels then capped else max_book_levels))"

text \<open>
  The books are made before the feeds start, so every tick size is the fallback: \<open>refresh_tick_size_for_book_init\<close>
  of \<^verbatim>\<open>core/engine/feed_bootstrap.hpp\<close>, which would ask the venue, has no caller.
\<close>

definition k_default_fallback_tick_size :: double where "k_default_fallback_tick_size = 1"

definition refresh_tick_size_for_book_init :: "bool \<Rightarrow> double \<Rightarrow> double \<Rightarrow> double" where
  "refresh_tick_size_for_book_init enabled feed_tick fallback =
     (if \<not> enabled then fallback else if feed_tick > 0 then feed_tick else fallback)"

definition grid_levels :: "RiskRuntimeConfig \<Rightarrow> Exchange \<Rightarrow> u64 option" where
  "grid_levels rk ex =
     (let range_usd = (if rk_target_range_usd rk > 0 then rk_target_range_usd rk else lit 50);
          max_levels = (if rk_max_book_levels rk > 0 then rk_max_book_levels rk else 10000);
          levels = levels_for_tick range_usd max_levels k_default_fallback_tick_size
      in case ex of BINANCE \<Rightarrow> map_option (\<lambda>n. min n 10000) levels
         | KRAKEN \<Rightarrow> map_option (\<lambda>n. min n 200) levels
         | OKX \<Rightarrow> map_option (\<lambda>n. min n 800) levels
         | _ \<Rightarrow> levels)"

definition engine_book :: "CliOptions \<Rightarrow> RiskRuntimeConfig \<Rightarrow> Exchange \<Rightarrow> BookManager option" where
  "engine_book cli rk ex = map_option (\<lambda>n. bm_init (cl_symbol cli) ex k_default_fallback_tick_size (unat n)) (grid_levels rk ex)"

section \<open>Orders and quotes\<close>

definition make_child_order :: "string \<Rightarrow> Exchange \<Rightarrow> Side \<Rightarrow> double \<Rightarrow> double \<Rightarrow> TimeInForce \<Rightarrow> u64 \<Rightarrow> Order" where
  "make_child_order symbol exchange side qty price tif client_order_id =
     mk_Order\<lparr>o_symbol := buf_copy 16 symbol, o_exchange := exchange, o_side := side, o_type := LIMIT, o_tif := tif,
       o_quantity := qty, o_price := price, o_client_order_id := client_order_id\<rparr>"

definition top_opposite_depth :: "OrderBook \<Rightarrow> Side \<Rightarrow> double" where
  "top_opposite_depth book side =
     (case get_top_levels book 1 of (bids, asks) \<Rightarrow>
        case (if side = BID then asks else bids) of [] \<Rightarrow> 0 | l # _ \<Rightarrow> pl_size l)"

definition no_quote :: "Exchange \<Rightarrow> bool \<Rightarrow> VenueQuote" where
  "no_quote exchange enabled = \<lparr>vq_exchange = exchange, vq_best_bid = 0, vq_best_ask = 0, vq_depth_qty = 0, vq_taker_fee_bps = 0,
     vq_latency_penalty_bps = 0, vq_risk_penalty_bps = 0, vq_fill_probability = 0, vq_queue_ahead_qty = 0, vq_toxicity_bps = 0,
     vq_healthy = False, vq_enabled = enabled, vq_adaptive_fill_probability = 0, vq_passive_markout_bps = 0,
     vq_taker_markout_bps = 0, vq_reject_rate = 0, vq_cancel_latency_penalty_bps = 0, vq_health_penalty_bps = 0,
     vq_stability_penalty_bps = 0, vq_quality_penalty_bps = 0\<rparr>"

definition make_quote :: "Exchange \<Rightarrow> OrderBook \<Rightarrow> bool \<Rightarrow> Side \<Rightarrow> double \<Rightarrow> VenueQuoteDefaults \<Rightarrow> VenueQuote" where
  "make_quote exchange book enabled side taker_fee_bps defaults =
     (if \<not> enabled then no_quote exchange False
      else if \<not> ob_initialized book then no_quote exchange True
      else let side_depth = top_opposite_depth book side in
        (no_quote exchange True)\<lparr>vq_best_bid := get_best_bid book, vq_best_ask := get_best_ask book, vq_depth_qty := side_depth,
          vq_taker_fee_bps := taker_fee_bps, vq_latency_penalty_bps := vd_latency_penalty_bps defaults,
          vq_risk_penalty_bps := vd_risk_penalty_bps defaults, vq_fill_probability := vd_fill_probability defaults,
          vq_queue_ahead_qty := vd_queue_ahead_qty defaults, vq_toxicity_bps := vd_toxicity_bps defaults,
          vq_healthy := (side_depth > 0)\<rparr>)"

section \<open>The position\<close>

definition matching_position_qty :: "ReconciliationSnapshot \<Rightarrow> Exchange \<Rightarrow> string \<Rightarrow> std_error + double" where
  "matching_position_qty snap exchange symbol =
     map_sum id (\<lambda>venue_symbol. fold (\<lambda>p q. if rp_symbol p = venue_symbol then q + rp_quantity p else q) (rs_positions snap) 0)
       (map_for_exchange exchange symbol)"

definition apply_mid_price :: "OrderBook \<Rightarrow> PositionLedgerSnapshot \<Rightarrow> PositionLedgerSnapshot" where
  "apply_mid_price book snap =
     (let bid = get_best_bid book; ask = get_best_ask book in
      if \<not> ob_initialized book \<or> bid \<le> 0 \<or> ask \<le> 0 then snap else snap\<lparr>ls_mid_price := lit (1 / 2) * (bid + ask)\<rparr>)"

definition add_position :: "string \<Rightarrow> (Exchange \<Rightarrow> ReconciliationSnapshot option) \<Rightarrow> (Exchange \<Rightarrow> bool) \<Rightarrow> Exchange \<Rightarrow>
    PositionLedgerSnapshot \<Rightarrow> std_error + PositionLedgerSnapshot" where
  "add_position symbol latest enabled ex snap =
     (if \<not> enabled ex then Inr snap
      else case latest ex of None \<Rightarrow> Inr snap
        | Some venue_snapshot \<Rightarrow> map_sum id (\<lambda>q. snap\<lparr>ls_global_position := ls_global_position snap + q\<rparr>)
            (matching_position_qty venue_snapshot ex symbol))"

text \<open>
  \<open>PositionLedgerSnapshot snapshot;\<close> has no initialiser: \<open>garbage\<close> is what the position is added to, and
  \<open>age\<close> the inventory age the ledger reports.
\<close>

definition trading_venues :: "Exchange list" where "trading_venues = [BINANCE, KRAKEN, OKX, COINBASE]"

definition build_live_portfolio_snapshot :: "PositionLedgerSnapshot \<Rightarrow> string \<Rightarrow> (Exchange \<Rightarrow> OrderBook) \<Rightarrow>
    (Exchange \<Rightarrow> ReconciliationSnapshot option) \<Rightarrow> (Exchange \<Rightarrow> bool) \<Rightarrow> int \<Rightarrow> std_error + PositionLedgerSnapshot" where
  "build_live_portfolio_snapshot garbage symbol books latest enabled age =
     map_sum id (\<lambda>snap. snap\<lparr>ls_oldest_inventory_age_ms := age\<rparr>)
       (foldE (add_position symbol latest enabled) trading_venues
         (fold (\<lambda>ex. apply_mid_price (books ex)) trading_venues (garbage\<lparr>ls_symbol := buf_copy 16 symbol\<rparr>)))"

section \<open>Describing an intent\<close>

definition join_reason_codes :: "PortfolioIntent \<Rightarrow> string" where
  "join_reason_codes intent =
     (case it_reason_codes intent of [] \<Rightarrow> reason_code_to_string R_NONE
      | r # rs \<Rightarrow> fold (\<lambda>c joined. (if joined \<noteq> [] then joined @ '','' else joined) @ reason_code_to_string c) (r # rs) [])"

definition intent_action :: "PortfolioIntent \<Rightarrow> string" where
  "intent_action intent =
     (if it_flatten_now intent then ''flatten''
      else if it_position_delta intent > lit (1 / 10 ^ 9) then ''enter_long''
      else if it_position_delta intent < - lit (1 / 10 ^ 9) then ''reduce'' else ''hold'')"

definition build_intent_metadata :: "AlphaSignal \<Rightarrow> double \<Rightarrow> PortfolioIntent \<Rightarrow> int \<Rightarrow> ShadowIntentMetadata" where
  "build_intent_metadata sig current_position intent now =
     \<lparr>si_intent = buf_copy 24 (intent_action intent), si_reason = buf_copy 48 (join_reason_codes intent),
      si_signal_bps = as_signal_bps sig, si_risk_score = as_risk_score sig,
      si_target_position = it_target_global_position intent, si_current_position = current_position,
      si_expected_cost_bps = it_expected_cost_bps intent,
      si_expected_edge_bps = as_signal_bps sig - it_expected_cost_bps intent,
      si_max_shortfall_bps = it_max_shortfall_bps intent, si_decision_ts_ns = now, si_urgency = it_urgency intent\<rparr>"

record PortfolioIntentLogState =
  pg_intent :: string
  pg_reason :: string
  pg_reason_codes :: string
  pg_target_position :: double
  pg_flatten_now :: bool
  pg_last_log_time :: int

definition portfolio_intent_changed :: "PortfolioIntentLogState \<Rightarrow> ShadowIntentMetadata \<Rightarrow> string \<Rightarrow> PortfolioIntent \<Rightarrow> bool" where
  "portfolio_intent_changed st m reason_codes intent =
     (let e = lit (1 / 10 ^ 6);
          prior_flat_hold = (pg_intent st = ''hold'' \<and> \<bar>pg_target_position st\<bar> \<le> e \<and> \<not> pg_flatten_now st);
          next_flat_hold = (si_intent m = ''hold'' \<and> \<bar>it_target_global_position intent\<bar> \<le> e \<and> \<not> it_flatten_now intent)
      in if prior_flat_hold \<and> next_flat_hold then False
         else pg_intent st \<noteq> si_intent m \<or> pg_reason st \<noteq> si_reason m \<or> pg_reason_codes st \<noteq> reason_codes \<or>
           \<bar>pg_target_position st - it_target_global_position intent\<bar> > e \<or> pg_flatten_now st \<noteq> it_flatten_now intent)"

definition update_portfolio_intent_log_state ::
  "ShadowIntentMetadata \<Rightarrow> string \<Rightarrow> PortfolioIntent \<Rightarrow> int \<Rightarrow> PortfolioIntentLogState \<Rightarrow> PortfolioIntentLogState" where
  "update_portfolio_intent_log_state m reason_codes intent now st = st\<lparr>pg_intent := si_intent m, pg_reason := si_reason m,
     pg_reason_codes := reason_codes, pg_target_position := it_target_global_position intent,
     pg_flatten_now := it_flatten_now intent, pg_last_log_time := now\<rparr>"

end
