(* ===== verification/Trading_Engine.thy ===== *)
theory Trading_Engine
  imports Engine_Support Quality_Runtime Session_Accounting Ipc_Signals
begin

text \<open>
  The main loop of \<^verbatim>\<open>core/engine/trading_engine_main.cpp\<close>: one pass reads the signals, quotes the books,
  asks the intent engine for a target, turns it into a plan and child orders, sends them through
  the risk gates and reconciles with the venues. Every component is the one modelled in its own
  theory. The virtual calls of the venue connectors, the futures connector's mark price and the
  readings of clocks and shared memory are arguments; so are the members the components leave
  uninitialised. Logging, the feeds' start and stop and the sleep between passes change nothing here.
\<close>

section \<open>State\<close>

datatype target = Spot Exchange | Futures

record 'w EngineOps =
  eo_submit :: "target \<Rightarrow> Order \<Rightarrow> 'w \<Rightarrow> ConnectorResult \<times> FillUpdate list \<times> 'w"
  eo_cancel_all :: "target \<Rightarrow> string \<Rightarrow> 'w \<Rightarrow> 'w"
  eo_is_connected :: "target \<Rightarrow> 'w \<Rightarrow> bool"
  eo_connect :: "target \<Rightarrow> 'w \<Rightarrow> ConnectorResult \<times> 'w"
  eo_mark_price :: "'w \<Rightarrow> double"
  eo_recon :: "'w World"

record EngineParams =
  ep_cli :: CliOptions
  ep_engine :: EngineConfig
  ep_risk :: RiskRuntimeConfig
  ep_scheduler :: SchedulerConfig

text \<open>\<open>en_sent\<close> is a history variable: the orders handed to a live connector so far.\<close>

record 'w Engine =
  en_kill :: KillSwitch
  en_breaker :: CircuitBreaker
  en_risk :: GlobalRisk
  en_accounting :: LiveSessionAccounting
  en_quality :: VenueQualityRuntime
  en_shadow :: ShadowEngine
  en_parent :: ParentOrderManager
  en_intents :: PortfolioIntentEngine
  en_recon :: "'w ReconciliationService"
  en_world :: 'w
  en_next_id :: u64
  en_cancels_issued :: bool
  en_next_reconnect :: int
  en_next_reconciliation :: int
  en_sent :: "Order list"

text \<open>What a pass reads: clocks (those of the \<open>i\<close>-th child order as functions), signals, books, and garbage.\<close>

record TickEnv =
  te_beat :: int
  te_check :: int
  te_now :: int
  te_wall :: int
  te_recon_now :: int
  te_child_steady :: "nat \<Rightarrow> int"
  te_child_wall :: "nat \<Rightarrow> int"
  te_alpha :: AlphaSignal
  te_regime :: RegimeSignal
  te_books :: "Exchange \<Rightarrow> OrderBook"
  te_snapshot :: PositionLedgerSnapshot
  te_ledger_snapshot :: PositionLedgerSnapshot
  te_intent :: PortfolioIntent
  te_plan_result :: ParentPlanUpdateResult
  te_plan_filled :: double
  te_decision :: "ChildExecutionStyle \<times> double"
  te_routing :: RoutingRegime
  te_drift :: "nat \<Rightarrow> DriftDecision \<times> DriftDecision"

datatype engine_fault = Risk_Fault undef | Ledger_Fault snapshot_fault | Recon_Fault rc_fault | Thrown std_error

abbreviation runs :: "EngineParams \<Rightarrow> Exchange \<Rightarrow> bool" where
  "runs p ex \<equiv> runs_venue (ep_cli p) (ep_engine p) ex"

abbreviation shadow_mode :: "EngineParams \<Rightarrow> bool" where
  "shadow_mode p \<equiv> cl_mode (ep_cli p) = ''shadow''"

definition futures_only :: "EngineParams \<Rightarrow> bool" where
  "futures_only p \<longleftrightarrow> ec_strategy_mode (ep_engine p) = FUTURES_ONLY"

definition taker_fee_bps :: "RiskRuntimeConfig \<Rightarrow> Exchange \<Rightarrow> double" where
  "taker_fee_bps rk ex = (if ex = BINANCE then rk_binance_taker_fee_bps rk else if ex = KRAKEN then rk_kraken_taker_fee_bps rk
     else if ex = OKX then rk_okx_taker_fee_bps rk else rk_coinbase_taker_fee_bps rk)"

section \<open>Kill switch\<close>

definition issue_kill_switch_cancels :: "'w EngineOps \<Rightarrow> EngineParams \<Rightarrow> 'w Engine \<Rightarrow> 'w Engine" where
  "issue_kill_switch_cancels ops p e =
     (if en_cancels_issued e \<or> \<not> ks_active (en_kill e) then e
      else let cancel = (\<lambda>t. eo_cancel_all ops t (cl_symbol (ep_cli p)));
               w = en_world e;
               w = (if runs p BINANCE then cancel (Spot BINANCE) w else w);
               w = (if futures_enabled (ep_engine p) then cancel Futures w else w);
               w = (if runs p KRAKEN then cancel (Spot KRAKEN) w else w);
               w = (if runs p OKX then cancel (Spot OKX) w else w);
               w = (if runs p COINBASE then cancel (Spot COINBASE) w else w)
           in e\<lparr>en_cancels_issued := True, en_world := w\<rparr>)"

section \<open>Sending the child orders\<close>

definition signed_notional :: "Order \<Rightarrow> double" where
  "signed_notional ord = o_quantity ord * o_price ord * (if o_side ord = BID then 1 else - 1)"

definition affordable :: "EngineParams \<Rightarrow> Order \<Rightarrow> LiveSessionAccounting \<Rightarrow> bool" where
  "affordable p ord la =
     (let fee_bps = taker_fee_bps (ep_risk p) (o_exchange ord) in
      if futures_only p then
        let cap = bf_default_leverage_cap (ec_binance_futures (ep_engine p));
            leverage = (if cap > 0 then cap else std_max 1 (default_max_leverage (rk_futures_risk (ep_risk p))))
        in can_afford_futures_order BINANCE (o_quantity ord) (o_price ord) fee_bps leverage la
      else can_afford_spot_order (o_exchange ord) (o_symbol ord) (o_side ord) (o_quantity ord) (o_price ord) fee_bps la)"

definition futures_context :: "TickEnv \<Rightarrow> Order \<Rightarrow> 'w Engine \<Rightarrow> FuturesRiskContext" where
  "futures_context env ord e =
     (let m = venue_metrics BINANCE (en_accounting e); mid = get_mid_price (te_books env BINANCE)
      in \<lparr>collateral_notional = (if lm_free_collateral m > 0 then lm_free_collateral m else lm_start_equity m),
          current_abs_notional = gr_gross_notional (en_risk e), maintenance_margin_ratio = 0,
          mark_price = o_price ord, index_price = (if mid > 0 then mid else o_price ord),
          funding_rate_bps = 0, hours_to_funding = lit 8\<rparr>)"

text \<open>The global risk controls; the scaled notional they return for futures is not looked at.\<close>

definition commit_risk :: "EngineParams \<Rightarrow> TickEnv \<Rightarrow> Order \<Rightarrow> 'w Engine \<Rightarrow> engine_fault + bool \<times> 'w Engine" where
  "commit_risk p env ord e =
     (let take = (\<lambda>(r, gr, ks). (r = GR_OK, e\<lparr>en_risk := gr, en_kill := ks\<rparr>)) in
      if futures_only p then
        map_sum Risk_Fault (\<lambda>(r, scaled_notional). take r)
          (commit_futures_order (o_exchange ord) (o_symbol ord) (signed_notional ord) (futures_context env ord e)
             (en_risk e, en_kill e))
      else map_sum Risk_Fault take
        (commit_order (o_exchange ord) (o_symbol ord) (signed_notional ord) (en_risk e, en_kill e)))"

definition shadow_connector :: "Exchange \<Rightarrow> ShadowEngine \<Rightarrow> ShadowConnector" where
  "shadow_connector ex s = (if ex = KRAKEN then se_kraken s else if ex = OKX then se_okx s
     else if ex = COINBASE then se_coinbase s else se_binance s)"

definition set_shadow_connector :: "Exchange \<Rightarrow> ShadowConnector \<Rightarrow> ShadowEngine \<Rightarrow> ShadowEngine" where
  "set_shadow_connector ex c s = (if ex = KRAKEN then s\<lparr>se_kraken := c\<rparr> else if ex = OKX then s\<lparr>se_okx := c\<rparr>
     else if ex = COINBASE then s\<lparr>se_coinbase := c\<rparr> else s\<lparr>se_binance := c\<rparr>)"

text \<open>The fill handler that \<open>bind_fill_handler\<close> installs on the spot and shadow connectors.\<close>

definition engine_on_fill :: "TickEnv \<Rightarrow> int \<Rightarrow> Exchange \<Rightarrow> FillUpdate \<Rightarrow> VenueQualityRuntime \<Rightarrow> VenueQualityRuntime" where
  "engine_on_fill env now ex u = qr_on_fill ex u now (if ex = UNKNOWN then 0 else get_mid_price (te_books env ex))"

definition shadow_submit :: "TickEnv \<Rightarrow> nat \<Rightarrow> ShadowIntentMetadata \<Rightarrow> Exchange \<Rightarrow> Order \<Rightarrow> 'w Engine \<Rightarrow> ConnectorResult \<times> 'w Engine" where
  "shadow_submit env i metadata ex ord e =
     (let c = set_intent_metadata metadata (shadow_connector ex (en_shadow e)) in
      case sc_submit_order (te_books env ex) (te_child_wall env i) ord c of
        (res, c') \<Rightarrow>
          (res, e\<lparr>en_shadow := set_shadow_connector ex c' (en_shadow e),
                  en_quality := fold (engine_on_fill env (te_child_steady env i) ex)
                    (drop (length (sc_reports c)) (sc_reports c')) (en_quality e)\<rparr>))"

definition live_submit :: "'w EngineOps \<Rightarrow> TickEnv \<Rightarrow> nat \<Rightarrow> target \<Rightarrow> Order \<Rightarrow> 'w Engine \<Rightarrow> ConnectorResult \<times> 'w Engine" where
  "live_submit ops env i t ord e =
     (case eo_submit ops t ord (en_world e) of
        (res, fills, w) \<Rightarrow>
          (res, e\<lparr>en_world := w, en_sent := en_sent e @ [ord],
                  en_quality := (case t of Futures \<Rightarrow> en_quality e
                    | Spot ex \<Rightarrow> fold (engine_on_fill env (te_child_steady env i) ex) fills (en_quality e))\<rparr>))"

definition futures_order :: "EngineParams \<Rightarrow> ShadowIntentMetadata \<Rightarrow> Order \<Rightarrow> Order" where
  "futures_order p m ord = ord\<lparr>o_exchange := BINANCE,
     o_futures_position_mode := (if bf_hedge_mode (ec_binance_futures (ep_engine p)) then HEDGE else ONE_WAY),
     o_futures_position_side := (if o_side ord = BID then LONG else SHORT),
     o_reduce_only := (si_current_position m > 0 \<and> o_side ord = ASK \<and> si_target_position m \<ge> 0 \<or>
       si_current_position m < 0 \<and> o_side ord = BID \<and> si_target_position m \<le> 0)\<rparr>"

definition dispatch :: "'w EngineOps \<Rightarrow> EngineParams \<Rightarrow> TickEnv \<Rightarrow> nat \<Rightarrow> ShadowIntentMetadata \<Rightarrow> Order \<Rightarrow> 'w Engine \<Rightarrow> 'w Engine" where
  "dispatch ops p env i metadata ord e =
     (let ord = (if futures_only p then futures_order p metadata ord else ord);
          (res, e) = (if o_exchange ord = UNKNOWN then (ERROR_UNKNOWN, e)
            else if shadow_mode p then shadow_submit env i metadata (o_exchange ord) ord e
            else live_submit ops env i (if futures_only p then Futures else Spot (o_exchange ord)) ord e)
      in e\<lparr>en_quality := qr_on_submit ord res (te_child_steady env i) (en_quality e)\<rparr>)"

text \<open>One turn of the loop over the children: whether it breaks, and the state after it.\<close>

definition submit_child :: "'w EngineOps \<Rightarrow> EngineParams \<Rightarrow> TickEnv \<Rightarrow> Side \<Rightarrow> ShadowIntentMetadata \<Rightarrow> nat \<Rightarrow> ChildOrder \<Rightarrow>
    'w Engine \<Rightarrow> engine_fault + bool \<times> 'w Engine" where
  "submit_child ops p env side metadata i child e =
     (if ks_active (en_kill e) then Inr (True, issue_kill_switch_cancels ops p e)
      else case check_order_rate (te_child_steady env i) (en_breaker e) of (rate, cb) \<Rightarrow>
      let e = e\<lparr>en_breaker := cb\<rparr> in
      if rate \<noteq> CB_OK then Inr (True, issue_kill_switch_cancels ops p e)
      else if co_limit_price child \<le> 0 then Inr (False, e)
      else
        let ord = (make_child_order (cl_symbol (ep_cli p)) (co_exchange child) side (co_quantity child) (co_limit_price child)
              (co_tif child) (en_next_id e))\<lparr>o_submit_ts_ns := te_child_wall env i\<rparr>;
            e = e\<lparr>en_next_id := en_next_id e + 1\<rparr>
        in if \<not> shadow_mode p \<and> \<not> affordable p ord (en_accounting e) then Inr (False, e)
        else and_then (commit_risk p env ord e) (\<lambda>(ok, e).
          if \<not> ok then Inr (False, e)
          else case check_drawdown (lg_net_pnl (global_metrics (en_accounting e))) (en_breaker e, en_kill e) of (drawdown, cb, ks) \<Rightarrow>
            let e = e\<lparr>en_breaker := cb, en_kill := ks\<rparr> in
            if drawdown \<noteq> CB_OK then Inr (True, issue_kill_switch_cancels ops p e)
            else Inr (False, dispatch ops p env i metadata ord e)))"

fun submit_children :: "'w EngineOps \<Rightarrow> EngineParams \<Rightarrow> TickEnv \<Rightarrow> Side \<Rightarrow> ShadowIntentMetadata \<Rightarrow> nat \<Rightarrow> ChildOrder list \<Rightarrow>
    'w Engine \<Rightarrow> engine_fault + 'w Engine" where
  "submit_children ops p env side metadata i [] e = Inr e"
| "submit_children ops p env side metadata i (c # cs) e =
     and_then (submit_child ops p env side metadata i c e) (\<lambda>(stop, e).
       if stop then Inr e else submit_children ops p env side metadata (Suc i) cs e)"

definition submit_decision :: "'w EngineOps \<Rightarrow> EngineParams \<Rightarrow> TickEnv \<Rightarrow> Side \<Rightarrow> ShadowIntentMetadata \<Rightarrow> SchedulerDecision \<Rightarrow>
    'w Engine \<Rightarrow> engine_fault + 'w Engine" where
  "submit_decision ops p env side metadata d e =
     (let r = sd_routing d in submit_children ops p env side metadata 0 (take (rd_child_count r) (rd_children r)) e)"

section \<open>One pass\<close>

text \<open>The heartbeat and its check, one after the other at the top of every pass.\<close>

definition pulse :: "int \<Rightarrow> int \<Rightarrow> KillSwitch \<Rightarrow> KillSwitch" where
  "pulse beat check ks = snd (check_heartbeat check (heartbeat beat ks))"

definition engine_quotes :: "EngineParams \<Rightarrow> TickEnv \<Rightarrow> Side \<Rightarrow> VenueQuote list" where
  "engine_quotes p env side = map (\<lambda>ex. make_quote ex (te_books env ex) (runs p ex) side (taker_fee_bps (ep_risk p) ex)
     (ec_venue_quote_defaults (ep_engine p))) trading_venues"

definition observe_quotes :: "VenueQuote list \<Rightarrow> VenueQualityRuntime \<Rightarrow> VenueQualityRuntime" where
  "observe_quotes quotes r = r\<lparr>qr_model := fold (\<lambda>q m. if vq_enabled q then observe_health (vq_exchange q) (vq_healthy q) m else m)
     quotes (qr_model r)\<rparr>"

definition engine_snapshot :: "EngineParams \<Rightarrow> TickEnv \<Rightarrow> 'w Engine \<Rightarrow> engine_fault + PositionLedgerSnapshot" where
  "engine_snapshot p env e =
     (if shadow_mode p then
        Inr \<lparr>ls_symbol = buf_copy 16 (cl_symbol (ep_cli p)), ls_global_position = se_net_position (en_shadow e),
             ls_global_avg_entry_price = 0, ls_realized_pnl = 0, ls_unrealized_pnl = 0, ls_pending_bid_qty = 0,
             ls_pending_ask_qty = 0, ls_mid_price = 0,
             ls_oldest_inventory_age_ms = se_inventory_age_ms (te_wall env) (en_shadow e),
             ls_venue_count = 0, ls_venues = ls_venues (te_snapshot env)\<rparr>
      else and_then (case rc_position_ledger (en_recon e) of
             None \<Rightarrow> Inr (te_ledger_snapshot env)
           | Some lg \<Rightarrow> map_sum Ledger_Fault id (snapshot (te_now env) (te_ledger_snapshot env) lg)) (\<lambda>ls.
         map_sum Thrown id (build_live_portfolio_snapshot (te_snapshot env) (cl_symbol (ep_cli p)) (te_books env)
           (\<lambda>ex. latest_snapshot_for ex (en_recon e)) (runs p) (ls_oldest_inventory_age_ms ls))))"

definition engine_intent_context :: "'w EngineOps \<Rightarrow> EngineParams \<Rightarrow> TickEnv \<Rightarrow> 'w \<Rightarrow> PortfolioIntentContext" where
  "engine_intent_context ops p env w =
     (let ts = as_ts_ns (te_alpha env) in
      \<lparr>ix_spot_mid_price = get_mid_price (te_books env BINANCE),
       ix_futures_mid_price = (if futures_only p then eo_mark_price ops w else 0),
       ix_signal_age_ms = (if ts > 0 \<and> te_wall env > ts then (te_wall env - ts) sdiv 1000000 else 0)\<rparr>)"

text \<open>The plan: what it asks for is scheduled and sent unless nothing changed.\<close>

definition work_plan :: "'w EngineOps \<Rightarrow> EngineParams \<Rightarrow> TickEnv \<Rightarrow> VenueQuote list \<Rightarrow> VenueQuote list \<Rightarrow> int \<Rightarrow>
    ShadowIntentMetadata \<Rightarrow> PortfolioIntent \<Rightarrow> 'w Engine \<Rightarrow> engine_fault + 'w Engine" where
  "work_plan ops p env bid_quotes ask_quotes inventory_age_ms metadata intent e =
     (case update_target (te_plan_result env) (te_plan_filled env) (it_position_delta intent) (it_urgency intent)
        (te_now env) 0 (en_parent e) of
      (result, pm) \<Rightarrow>
        let e = e\<lparr>en_parent := pm\<rparr>; plan = pr_plan result in
        if pr_action result \<noteq> PA_NONE \<and> plan_active plan \<and> pp_remaining_qty plan > lit (1 / 10 ^ 6) then
          let quotes = (if pp_side plan = BID then bid_quotes else ask_quotes);
              scheduled = schedule (te_decision env) (te_routing env) (ep_scheduler p) plan (as_horizon_ticks (te_alpha env))
                inventory_age_ms quotes
          in submit_decision ops p env (pp_side plan) metadata scheduled e
        else Inr e)"

section \<open>Venues\<close>

definition run_reconciliation :: "EngineParams \<Rightarrow> bool" where
  "run_reconciliation p \<longleftrightarrow> take 6 (cl_mode (ep_cli p)) \<noteq> ''shadow''"

definition connect_if_needed :: "'w EngineOps \<Rightarrow> EngineParams \<Rightarrow> Exchange \<Rightarrow> bool \<times> 'w Engine \<Rightarrow> bool \<times> 'w Engine" where
  "connect_if_needed ops p ex s = (case s of (any, e) \<Rightarrow>
     if \<not> runs p ex \<or> eo_is_connected ops (Spot ex) (en_world e) then (any, e)
     else case eo_connect ops (Spot ex) (en_world e) of (res, w) \<Rightarrow>
       let e = e\<lparr>en_world := w\<rparr> in
       if res = C_OK then (True, e\<lparr>en_recon := snd (mark_reconnect_required ex (en_recon e))\<rparr>) else (any, e))"

definition connect_futures :: "'w EngineOps \<Rightarrow> EngineParams \<Rightarrow> 'w Engine \<Rightarrow> 'w Engine" where
  "connect_futures ops p e =
     (if futures_enabled (ep_engine p) \<and> \<not> eo_is_connected ops Futures (en_world e)
      then e\<lparr>en_world := snd (eo_connect ops Futures (en_world e))\<rparr> else e)"

definition with_recon :: "rc_fault + (ConnectorResult \<times> 'w ReconciliationService \<times> 'w) \<Rightarrow> 'w Engine \<Rightarrow> engine_fault + 'w Engine" where
  "with_recon r e = map_sum Recon_Fault (\<lambda>(res, s, w). e\<lparr>en_recon := s, en_world := w\<rparr>) r"

definition reconnect_venues :: "'w EngineOps \<Rightarrow> EngineParams \<Rightarrow> TickEnv \<Rightarrow> 'w Engine \<Rightarrow> engine_fault + 'w Engine" where
  "reconnect_venues ops p env e =
     (case fold (connect_if_needed ops p) trading_venues (False, e) of (recovered, e) \<Rightarrow>
      let e = connect_futures ops p e in
      if recovered then with_recon (reconcile_on_reconnect (eo_recon ops) (te_drift env) (en_recon e, en_world e)) e
      else Inr e)"

definition refresh_accounting :: "EngineParams \<Rightarrow> TickEnv \<Rightarrow> PositionLedgerSnapshot \<Rightarrow> Exchange \<Rightarrow> 'w Engine \<Rightarrow> 'w Engine" where
  "refresh_accounting p env portfolio ex e =
     (if \<not> runs p ex then e
      else case latest_snapshot_for ex (en_recon e) of None \<Rightarrow> e
        | Some snap \<Rightarrow>
            let mid = get_mid_price (te_books env ex); mark = (if mid > 0 then mid else ls_mid_price portfolio)
            in e\<lparr>en_accounting := ingest_reconciliation ex snap (cl_symbol (ep_cli p)) mark (te_wall env) (en_accounting e)\<rparr>)"

definition reconcile_venues :: "'w EngineOps \<Rightarrow> EngineParams \<Rightarrow> TickEnv \<Rightarrow> PositionLedgerSnapshot \<Rightarrow> 'w Engine \<Rightarrow> engine_fault + 'w Engine" where
  "reconcile_venues ops p env portfolio e =
     and_then (with_recon (run_periodic_drift_check (eo_recon ops) (te_drift env) (en_recon e, en_world e)) e)
       (\<lambda>e. Inr (fold (refresh_accounting p env portfolio) trading_venues e))"

definition maintain_venues :: "'w EngineOps \<Rightarrow> EngineParams \<Rightarrow> TickEnv \<Rightarrow> PositionLedgerSnapshot \<Rightarrow> 'w Engine \<Rightarrow> engine_fault + 'w Engine" where
  "maintain_venues ops p env portfolio e =
     (let now = te_recon_now env; ec = ep_engine p; s = 1000000000 in
      and_then (if run_reconciliation p \<and> now \<ge> en_next_reconnect e
          then map_sum id (\<lambda>e. e\<lparr>en_next_reconnect := now + ec_reconnect_interval_secs ec * s\<rparr>) (reconnect_venues ops p env e)
          else Inr e) (\<lambda>e.
        if run_reconciliation p \<and> now \<ge> en_next_reconciliation e
        then map_sum id (\<lambda>e. e\<lparr>en_next_reconciliation := now + ec_reconciliation_interval_secs ec * s\<rparr>)
          (reconcile_venues ops p env portfolio e)
        else Inr e))"

text \<open>The shadow engine's fills: what its connectors report goes to the quality runtime.\<close>

definition shadow_books :: "TickEnv \<Rightarrow> ShadowBooks" where
  "shadow_books env = \<lparr>bk_binance = te_books env BINANCE, bk_kraken = te_books env KRAKEN, bk_okx = te_books env OKX,
     bk_coinbase = te_books env COINBASE\<rparr>"

definition shadow_check_fills :: "TickEnv \<Rightarrow> 'w Engine \<Rightarrow> 'w Engine" where
  "shadow_check_fills env e =
     (let s = se_check_fills (shadow_books env) (te_wall env) (en_shadow e);
          news = (\<lambda>ex. drop (length (sc_reports (shadow_connector ex (en_shadow e)))) (sc_reports (shadow_connector ex s)))
      in e\<lparr>en_shadow := s,
           en_quality := fold (\<lambda>ex. fold (engine_on_fill env (te_now env) ex) (news ex)) trading_venues (en_quality e)\<rparr>)"

definition shadow_transition :: "PortfolioIntent \<Rightarrow> 'w Engine \<Rightarrow> 'w Engine" where
  "shadow_transition intent e =
     (let halted = (ks_active (en_kill e) \<or> check_consecutive_losses (en_breaker e) \<noteq> CB_OK)
      in e\<lparr>en_shadow := snd (se_update_state (it_target_global_position intent) (it_flatten_now intent) halted
            (Some (join_reason_codes intent)) (en_shadow e))\<rparr>)"

section \<open>The loop\<close>

definition engine_tick :: "'w EngineOps \<Rightarrow> EngineParams \<Rightarrow> TickEnv \<Rightarrow> 'w Engine \<Rightarrow> engine_fault + bool \<times> 'w Engine" where
  "engine_tick ops p env e =
     (if ks_active (en_kill e) then Inr (True, issue_kill_switch_cancels ops p e)
      else
        let e = e\<lparr>en_kill := pulse (te_beat env) (te_check env) (en_kill e)\<rparr>;
            e = (if shadow_mode p then shadow_check_fills env e else e);
            bid_quotes = engine_quotes p env BID;
            ask_quotes = engine_quotes p env ASK;
            e = e\<lparr>en_quality := observe_quotes bid_quotes (en_quality e)\<rparr>;
            bid_quotes = apply_quality_all (qr_model (en_quality e)) bid_quotes;
            ask_quotes = apply_quality_all (qr_model (en_quality e)) ask_quotes
        in and_then (engine_snapshot p env e) (\<lambda>portfolio.
           case evaluate (te_intent env) (te_alpha env) (te_regime env) portfolio bid_quotes
             (engine_intent_context ops p env (en_world e)) (en_intents e) of
           (intent, intents) \<Rightarrow>
             let e = e\<lparr>en_intents := intents\<rparr>;
                 metadata = build_intent_metadata (te_alpha env) (ls_global_position portfolio) intent (te_wall env);
                 e = (if shadow_mode p then shadow_transition intent e else e)
             in and_then (work_plan ops p env bid_quotes ask_quotes (ls_oldest_inventory_age_ms portfolio) metadata intent e)
                  (\<lambda>e. map_sum id (Pair False) (maintain_venues ops p env portfolio e))))"

text \<open>Passes until the kill switch ends the loop; the list is what a signal leaves of them.\<close>

fun engine_run :: "'w EngineOps \<Rightarrow> EngineParams \<Rightarrow> TickEnv list \<Rightarrow> 'w Engine \<Rightarrow> engine_fault + 'w Engine" where
  "engine_run ops p [] e = Inr e"
| "engine_run ops p (env # envs) e =
     and_then (engine_tick ops p env e) (\<lambda>(stop, e). if stop then Inr e else engine_run ops p envs e)"

section \<open>The exit of the shadow engine\<close>

definition exit_plan :: "double \<Rightarrow> ParentExecutionPlan" where
  "exit_plan qty = mk_ParentExecutionPlan\<lparr>pp_side := ASK, pp_total_qty := qty, pp_remaining_qty := qty,
     pp_urgency := AGGRESSIVE, pp_allow_aggressive := True, pp_state := PP_WORKING\<rparr>"

definition exit_intent :: "PortfolioIntent \<Rightarrow> double \<Rightarrow> PortfolioIntent" where
  "exit_intent garbage qty = garbage\<lparr>it_target_global_position := 0, it_position_delta := - qty, it_flatten_now := True,
     it_expected_cost_bps := lit 6, it_max_shortfall_bps := lit (15 / 2), it_urgency := AGGRESSIVE, it_reason_codes := []\<rparr>"

definition exit_child :: "EngineParams \<Rightarrow> TickEnv \<Rightarrow> ShadowIntentMetadata \<Rightarrow> nat \<times> ChildOrder \<Rightarrow> 'w Engine \<Rightarrow> 'w Engine" where
  "exit_child p env metadata = (\<lambda>(i, child) e.
     if co_limit_price child \<le> 0 then e
     else
       let ord = (make_child_order (cl_symbol (ep_cli p)) (co_exchange child) ASK (co_quantity child) (co_limit_price child)
             (co_tif child) (en_next_id e))\<lparr>o_submit_ts_ns := te_child_wall env i\<rparr>;
           e = e\<lparr>en_next_id := en_next_id e + 1\<rparr>;
           (res, e) = (if co_exchange child = UNKNOWN then (ERROR_UNKNOWN, e)
             else shadow_submit env i metadata (co_exchange child) ord e)
       in e\<lparr>en_quality := qr_on_submit ord res (te_child_steady env i) (en_quality e)\<rparr>)"

definition shadow_exit :: "EngineParams \<Rightarrow> TickEnv \<Rightarrow> 'w Engine \<Rightarrow> 'w Engine" where
  "shadow_exit p env e =
     (let e = shadow_check_fills env e; final_position = se_net_position (en_shadow e) in
      if \<not> final_position > lit (1 / 10 ^ 9) then e
      else
        let d = schedule (te_decision env) (te_routing env) (ep_scheduler p) (exit_plan final_position) 1 0
              (engine_quotes p env ASK);
            metadata = build_intent_metadata (te_alpha env) final_position (exit_intent (te_intent env) final_position)
              (te_wall env);
            r = sd_routing d
        in shadow_check_fills env (fold (exit_child p env metadata)
             (enumerate 0 (take (rd_child_count r) (rd_children r))) e))"

section \<open>Start-up\<close>

text \<open>What start-up reads: the clock, the settings of the intent engine and of the quality model, and garbage.\<close>

record StartEnv =
  sv_now :: int
  sv_intents :: PortfolioIntentConfig
  sv_quality :: VenueQualityConfig
  sv_shadow :: ShadowConfig
  sv_plan_id :: u64
  sv_replace_threshold :: double
  sv_incidents :: nat
  sv_dropped :: u32
  sv_connectors :: nat
  sv_ledger_symbol :: string
  sv_drift :: "nat \<Rightarrow> DriftDecision \<times> DriftDecision"

definition shadow_settings :: "EngineParams \<Rightarrow> ShadowConfig \<Rightarrow> ShadowConfig" where
  "shadow_settings p garbage =
     (let rk = ep_risk p; ec = ep_engine p;
          fee = (\<lambda>ex. taker_fee_bps rk ex)
      in (from_yaml_values (fee BINANCE) (fee BINANCE) (fee KRAKEN) (fee KRAKEN) (fee OKX) (fee OKX) (fee COINBASE) (fee COINBASE)
            (ec_shadow_log_path ec) garbage)
         \<lparr>sf_base_latency_ns := ec_shadow_base_latency_ns ec, sf_latency_jitter_ns := ec_shadow_latency_jitter_ns ec,
          sf_impact_slippage_per_notional_bps := ec_shadow_impact_slippage_per_notional_bps ec,
          sf_queue_match_fraction_per_check := ec_shadow_queue_match_fraction_per_check ec\<rparr>)"

text \<open>The spot connectors only; the futures connector is never registered.\<close>

definition register_if :: "EngineParams \<Rightarrow> nat \<times> Exchange \<Rightarrow> 'w ReconciliationService \<Rightarrow> 'w ReconciliationService" where
  "register_if p = (\<lambda>(connector, ex) s. if runs p ex then snd (register_connector connector ex s) else s)"

definition start_reconciliation :: "EngineParams \<Rightarrow> StartEnv \<Rightarrow> 'w ReconciliationService" where
  "start_reconciliation p sv = bind_position_ledger (Some (lg_init (sv_ledger_symbol sv)))
     (fold (register_if p) (enumerate 0 trading_venues)
       (mk_ReconciliationService
          \<lparr>th_max_balance_drift = 0, th_max_position_drift = 0, th_max_order_fill_gap = 0, th_max_fill_notional_drift = 0,
           th_max_fill_fee_drift = 0\<rparr>
          \<lparr>po_order_drift_retry_budget = 3, po_fill_gap_retry_budget = 3, po_snapshot_failure_retry_budget = 3\<rparr>
          (sv_incidents sv) (sv_dropped sv) (sv_connectors sv)))"

definition start_accounting :: "EngineParams \<Rightarrow> LiveSessionAccounting" where
  "start_accounting p = fold (\<lambda>(i, ex) la. if runs p ex
       then case rk_venue_capital (ep_risk p) ! i of (equity, buffer) \<Rightarrow> configure_venue ex equity buffer la else la)
     (enumerate 0 [BINANCE, OKX, COINBASE, KRAKEN]) la_init"

definition engine_boot :: "EngineParams \<Rightarrow> StartEnv \<Rightarrow> 'w \<Rightarrow> 'w Engine" where
  "engine_boot p sv w =
     (let rk = ep_risk p; ec = ep_engine p; s = 1000000000 in
      \<lparr>en_kill = ks_init (sv_now sv) (rk_heartbeat_timeout_ns rk), en_breaker = cb_init (rk_circuit_breaker rk),
       en_risk = gr_init (rk_global_risk rk) (rk_futures_risk rk), en_accounting = start_accounting p,
       en_quality = qr_init (qm_init (sv_quality sv)), en_shadow = se_init (shadow_settings p (sv_shadow sv)),
       en_parent = pm_init \<lparr>pc_replace_qty_threshold = sv_replace_threshold sv, pc_default_deadline_ms = 1500,
         pc_min_deadline_extension_ms = 250\<rparr> (sv_plan_id sv),
       en_intents = ie_init (sv_intents sv), en_recon = start_reconciliation p sv, en_world = w, en_next_id = 1,
       en_cancels_issued = False, en_next_reconnect = sv_now sv + ec_reconnect_interval_secs ec * s,
       en_next_reconciliation = sv_now sv + ec_reconciliation_interval_secs ec * s, en_sent = []\<rparr>)"

definition engine_start :: "'w EngineOps \<Rightarrow> EngineParams \<Rightarrow> StartEnv \<Rightarrow> 'w \<Rightarrow> engine_fault + 'w Engine" where
  "engine_start ops p sv w =
     (let e = engine_boot p sv w;
          (any_reconnected, e) = (if run_reconciliation p then fold (connect_if_needed ops p) trading_venues (False, e) else (False, e));
          e = connect_futures ops p e
      in if any_reconnected then with_recon (reconcile_on_reconnect (eo_recon ops) (sv_drift sv) (en_recon e, en_world e)) e
         else Inr e)"

section \<open>What the steps leave alone\<close>

abbreviation same_gates :: "'w Engine \<Rightarrow> 'w Engine \<Rightarrow> bool" where
  "same_gates e e' \<equiv> en_kill e' = en_kill e \<and> en_risk e' = en_risk e \<and> en_sent e' = en_sent e \<and>
     en_parent e' = en_parent e"

lemma map_sum_eq_Inr: "map_sum f g x = Inr y \<longleftrightarrow> (\<exists>z. x = Inr z \<and> y = g z)"
  by (cases x) auto

lemma cancels_frame [simp]:
  "en_kill (issue_kill_switch_cancels ops p e) = en_kill e" "en_risk (issue_kill_switch_cancels ops p e) = en_risk e"
  "en_sent (issue_kill_switch_cancels ops p e) = en_sent e" "en_parent (issue_kill_switch_cancels ops p e) = en_parent e"
  by (simp_all add: issue_kill_switch_cancels_def Let_def)

lemma connect_frame:
  "connect_if_needed ops p ex (any, e) = (any', e') \<Longrightarrow> same_gates e e'"
  by (auto simp: connect_if_needed_def Let_def split: if_splits prod.splits)

lemma connects_frame:
  "fold (connect_if_needed ops p) exs (any, e) = (any', e') \<Longrightarrow>
   same_gates e e'"
proof (induction exs arbitrary: any e)
  case (Cons ex exs)
  obtain any1 e1 where c: "connect_if_needed ops p ex (any, e) = (any1, e1)" by fastforce
  with Cons.IH[of any1 e1] Cons.prems connect_frame[OF c] show ?case by simp
qed simp

lemma maintain_frame:
  assumes "maintain_venues ops p env portfolio e = Inr e'"
  shows "same_gates e e'"
proof -
  have recon: "same_gates e1 e2"
    if "with_recon r e1 = Inr e2" for r e1 e2
    using that by (auto simp: with_recon_def map_sum_eq_Inr)
  have refresh: "same_gates e1 (fold (refresh_accounting p env portfolio) exs e1)" for exs e1
    by (induction exs arbitrary: e1) (auto simp: refresh_accounting_def Let_def split: option.splits)
  have rc: "same_gates e1 e2"
    if "reconnect_venues ops p env e1 = Inr e2" for e1 e2
    using that
    by (auto simp: reconnect_venues_def connect_futures_def Let_def split: prod.splits if_splits dest!: connects_frame recon)
  have rv: "same_gates e1 e2"
    if "reconcile_venues ops p env portfolio e1 = Inr e2" for e1 e2
    using that by (auto simp: reconcile_venues_def refresh elim!: and_then_InrE dest!: recon)
  show ?thesis
    using assms
    by (auto simp: maintain_venues_def Let_def map_sum_eq_Inr elim!: and_then_InrE dest!: rc rv split: if_splits)
qed

lemma shadow_frame [simp]:
  "en_kill (shadow_check_fills env e) = en_kill e" "en_risk (shadow_check_fills env e) = en_risk e"
  "en_sent (shadow_check_fills env e) = en_sent e" "en_parent (shadow_check_fills env e) = en_parent e"
  "en_kill (shadow_transition intent e) = en_kill e" "en_risk (shadow_transition intent e) = en_risk e"
  "en_sent (shadow_transition intent e) = en_sent e" "en_parent (shadow_transition intent e) = en_parent e"
  by (simp_all add: shadow_check_fills_def shadow_transition_def Let_def)

lemma shadow_submit_frame:
  "shadow_submit env i m ex ord e = (res, e') \<Longrightarrow> same_gates e e'"
  by (auto simp: shadow_submit_def Let_def split: prod.splits)

lemma dispatch_frame:
  "en_kill (dispatch ops p env i m ord e) = en_kill e" "en_risk (dispatch ops p env i m ord e) = en_risk e"
  "en_sent (dispatch ops p env i m ord e) = en_sent e \<or>
   \<not> shadow_mode p \<and> en_sent (dispatch ops p env i m ord e) = en_sent e @ [if futures_only p then futures_order p m ord else ord]"
  "en_parent (dispatch ops p env i m ord e) = en_parent e"
  by (auto simp: dispatch_def live_submit_def Let_def split: prod.splits target.splits dest!: shadow_submit_frame)

section \<open>The risk gates\<close>

lemma le_add_nonneg:
  assumes "0 \<le> a" "0 \<le> b" "dwf a" shows "a \<le> a + (b :: double)"
proof (cases "isfinite a \<and> isfinite b")
  case True
  have "a \<le> pack False (fval a)" using pack_fval_deq[of a False] True assms(3) by (auto simp: dbl_ord_defs)
  moreover have "pack False (fval a) \<le> a + b" using True assms(2) by (simp add: finite_add finite_le pack_mono)
  ultimately show ?thesis by (rule dbl_trans)
next
  case False
  then show ?thesis using assms by (cases a; cases b) (auto simp: plus_double_def less_eq_double_def)
qed

text \<open>
  The context that the engine builds for the futures gate has a funding rate and a margin ratio of
  zero: neither of the two checks on them can refuse anything, and no order is scaled.
\<close>

lemma futures_gate_constant:
  "\<exists>r. check_futures_gate sy n (futures_context env ord e) f scaled = (r, scaled) \<and>
     r \<noteq> FUTURES_MAINTENANCE_MARGIN_CAP \<and> r \<noteq> FUTURES_FUNDING_COST_CAP"
proof -
  have ctx: "maintenance_margin_ratio (futures_context env ord e) = 0" "funding_rate_bps (futures_context env ord e) = 0"
    "hours_to_funding (futures_context env ord e) = lit 8"
    by (simp_all add: futures_context_def Let_def)
  have cost: "\<bar>0 :: double\<bar> * (lit 8 / lit 8) = 0" by code_simp
  have asym: "(0 < a \<and> a < 0) = False" "(0 < a \<and> P \<and> a < 0) = False" for a :: double and P
    by (auto simp: dbl_ord_defs)
  show ?thesis
    unfolding check_futures_gate_def Let_def ctx cost
    by (simp add: asym)
qed

lemma commit_futures_constant:
  assumes "commit_futures_order ex sy n (futures_context env ord e) (gr, ks) = Inr ((r, gr', ks'), scaled)"
  shows "r \<noteq> GR_OK \<and> gr' = gr \<and> (ks' = ks \<or> ks' = trigger KillReason.CIRCUIT_BREAKER ks) \<or>
    commit_order ex sy n (gr, ks) = Inr (r, gr', ks')"
proof -
  obtain g where g: "check_futures_gate sy n (futures_context env ord e) (gr_futures_cfg gr) n = (g, n)"
    using futures_gate_constant by blast
  show ?thesis
    using assms
    by (auto simp: commit_futures_order_def check_futures_order_def g Let_def map_sum_eq_Inr split: sum.splits prod.splits if_splits)
qed

lemma commit_order_kill:
  assumes "commit_order ex sy n (gr, ks) = Inr (r, gr', ks')"
  shows "ks' = ks \<or> ks' = trigger KillReason.CIRCUIT_BREAKER ks"
    and "r = GR_OK \<Longrightarrow> isfinite n \<and> gr_gross_notional gr' = gr_gross_notional gr + \<bar>n\<bar>"
    and "r \<noteq> GR_OK \<Longrightarrow> gr_gross_notional gr' = gr_gross_notional gr"
  using assms
  by (cases rule: commit_order_cases, auto dest: check_order_OK get_or_create_frame)+

definition risk_ok :: "GlobalRisk \<Rightarrow> bool" where
  "risk_ok gr \<longleftrightarrow> notionals_ok gr \<and> caps_hold gr \<and> dwf (gr_gross_notional gr)"

lemma dwf_signed_notional [simp]: "dwf (signed_notional ord)"
  by (simp add: signed_notional_def)

lemma commit_riskE:
  assumes "commit_risk p env ord e = Inr (ok, e1)"
  obtains gr ks where "e1 = e\<lparr>en_risk := gr, en_kill := ks\<rparr>" "ks = en_kill e \<or> ks = trigger KillReason.CIRCUIT_BREAKER (en_kill e)"
    "ok \<Longrightarrow> isfinite (signed_notional ord) \<and> gr_gross_notional gr = gr_gross_notional (en_risk e) + \<bar>signed_notional ord\<bar>"
    "\<not> ok \<Longrightarrow> gr_gross_notional gr = gr_gross_notional (en_risk e)"
    "risk_ok (en_risk e) \<Longrightarrow> risk_ok gr \<and> gr_cfg gr = gr_cfg (en_risk e)"
proof -
  note out = that
  have spot: thesis if c: "commit_order (o_exchange ord) (o_symbol ord) (signed_notional ord) (en_risk e, en_kill e) = Inr (r, gr, ks)"
    "ok = (r = GR_OK)" "e1 = e\<lparr>en_risk := gr, en_kill := ks\<rparr>" for r gr ks
  proof -
    have "risk_ok gr \<and> gr_cfg gr = gr_cfg (en_risk e)" if "risk_ok (en_risk e)"
      using that commit_order_ok[OF c(1)] commit_order_kill(2,3)[OF c(1)] by (cases "r = GR_OK") (auto simp: risk_ok_def)
    with commit_order_kill[OF c(1)] out[OF c(3)] c(2) show thesis by blast
  qed
  show thesis
  proof (cases "futures_only p")
    case False
    with assms spot show thesis by (auto simp: commit_risk_def map_sum_eq_Inr)
  next
    case True
    then obtain r gr ks scaled where c: "commit_futures_order (o_exchange ord) (o_symbol ord) (signed_notional ord)
        (futures_context env ord e) (en_risk e, en_kill e) = Inr ((r, gr, ks), scaled)"
      "ok = (r = GR_OK)" "e1 = e\<lparr>en_risk := gr, en_kill := ks\<rparr>"
      using assms by (auto simp: commit_risk_def map_sum_eq_Inr)
    from commit_futures_constant[OF c(1)] show thesis
    proof
      assume "r \<noteq> GR_OK \<and> gr = en_risk e \<and> (ks = en_kill e \<or> ks = trigger KillReason.CIRCUIT_BREAKER (en_kill e))"
      with out[OF c(3)] c(2) show thesis by simp
    next
      assume "commit_order (o_exchange ord) (o_symbol ord) (signed_notional ord) (en_risk e, en_kill e) = Inr (r, gr, ks)"
      from spot[OF this c(2,3)] show thesis .
    qed
  qed
qed

section \<open>Every pass keeps the limits\<close>

definition sent_total :: "double \<Rightarrow> Order list \<Rightarrow> double" where
  "sent_total = foldl (\<lambda>g ord. g + \<bar>signed_notional ord\<bar>)"

definition gated :: "EngineParams \<Rightarrow> Order \<Rightarrow> bool" where
  "gated p ord \<longleftrightarrow> o_type ord = LIMIT \<and> o_symbol ord = buf_copy 16 (cl_symbol (ep_cli p)) \<and> \<not> o_price ord \<le> 0 \<and>
     isfinite (signed_notional ord) \<and> (futures_only p \<longrightarrow> o_exchange ord = BINANCE)"

definition advances :: "EngineParams \<Rightarrow> 'w Engine \<Rightarrow> 'w Engine \<Rightarrow> bool" where
  "advances p e e' \<longleftrightarrow> (ks_active (en_kill e) \<longrightarrow> ks_active (en_kill e')) \<and>
     (\<exists>sent. en_sent e' = en_sent e @ sent \<and> list_all (gated p) sent \<and> (shadow_mode p \<longrightarrow> sent = []) \<and>
        (ks_active (en_kill e) \<longrightarrow> sent = []) \<and>
        (risk_ok (en_risk e) \<longrightarrow>
          risk_ok (en_risk e') \<and> gr_cfg (en_risk e') = gr_cfg (en_risk e) \<and>
          sent_total (gr_gross_notional (en_risk e)) sent \<le> gr_gross_notional (en_risk e')))"

lemma sent_total_simps [simp]:
  "sent_total g [] = g" "sent_total g (ord # ords) = sent_total (g + \<bar>signed_notional ord\<bar>) ords"
  "sent_total g (ords @ ords') = sent_total (sent_total g ords) ords'"
  by (simp_all add: sent_total_def)

lemma sent_total_mono:
  "0 \<le> g \<Longrightarrow> g \<le> h \<Longrightarrow> list_all (gated p) ords \<Longrightarrow> sent_total g ords \<le> sent_total h ords"
proof (induction ords arbitrary: g h)
  case (Cons ord ords)
  have n: "0 \<le> \<bar>signed_notional ord\<bar>" using Cons.prems(3) by (simp add: gated_def)
  have h: "0 \<le> h" using Cons.prems(1,2) by (rule dbl_trans)
  have "g + \<bar>signed_notional ord\<bar> \<le> h + \<bar>signed_notional ord\<bar>"
    using Cons.prems(2) n Cons.prems(1) h dbl_refl[of "\<bar>signed_notional ord\<bar>"]
    by (intro add_mono) (auto simp: nonneg_add_not_nan dest: le_nanD)
  with Cons n show ?case by (simp add: add_nonneg)
qed simp

lemma advances_same:
  "en_kill e' = en_kill e \<and> en_risk e' = en_risk e \<and> en_sent e' = en_sent e \<Longrightarrow> advances p e e'"
  by (auto simp: advances_def risk_ok_def notionals_ok_def dest: le_nanD intro!: dbl_refl)

lemma advances_trans [trans]:
  assumes "advances p e1 e2" "advances p e2 e3" shows "advances p e1 e3"
proof -
  obtain s where s: "en_sent e2 = en_sent e1 @ s" "list_all (gated p) s" "shadow_mode p \<longrightarrow> s = []"
    "ks_active (en_kill e1) \<longrightarrow> ks_active (en_kill e2) \<and> s = []"
    "risk_ok (en_risk e1) \<longrightarrow> risk_ok (en_risk e2) \<and>
       gr_cfg (en_risk e2) = gr_cfg (en_risk e1) \<and> sent_total (gr_gross_notional (en_risk e1)) s \<le> gr_gross_notional (en_risk e2)"
    using assms(1) by (auto simp: advances_def)
  obtain t where t: "en_sent e3 = en_sent e2 @ t" "list_all (gated p) t" "shadow_mode p \<longrightarrow> t = []"
    "ks_active (en_kill e2) \<longrightarrow> ks_active (en_kill e3) \<and> t = []"
    "risk_ok (en_risk e2) \<longrightarrow> risk_ok (en_risk e3) \<and>
       gr_cfg (en_risk e3) = gr_cfg (en_risk e2) \<and> sent_total (gr_gross_notional (en_risk e2)) t \<le> gr_gross_notional (en_risk e3)"
    using assms(2) by (auto simp: advances_def)
  have pos: "0 \<le> sent_total g s" if "0 \<le> g" for g
    using that s(2)
  proof (induction s arbitrary: g)
    case (Cons ord ords)
    then show ?case by (simp add: gated_def add_nonneg)
  qed simp
  have "sent_total (gr_gross_notional (en_risk e1)) (s @ t) \<le> gr_gross_notional (en_risk e3)"
    if ok: "risk_ok (en_risk e1)"
  proof -
    have "sent_total (sent_total (gr_gross_notional (en_risk e1)) s) t \<le> sent_total (gr_gross_notional (en_risk e2)) t"
      using ok s(5) t(2) pos[of "gr_gross_notional (en_risk e1)"] by (intro sent_total_mono) (auto simp: risk_ok_def notionals_ok_def)
    moreover have "sent_total (gr_gross_notional (en_risk e2)) t \<le> gr_gross_notional (en_risk e3)" using ok s(5) t(5) by blast
    ultimately show ?thesis by (auto intro: dbl_trans)
  qed
  with s t show ?thesis unfolding advances_def by (intro conjI exI[of _ "s @ t"]) auto
qed

lemma submit_child_advances:
  assumes "submit_child ops p env side m i child e = Inr (stop, e')"
  shows "advances p e e'"
proof (cases "ks_active (en_kill e)")
  case True
  then show ?thesis using assms by (auto simp: submit_child_def intro: advances_same)
next
  case False
  obtain rate cb where rate: "check_order_rate (te_child_steady env i) (en_breaker e) = (rate, cb)" by fastforce
  let ?e = "e\<lparr>en_breaker := cb, en_next_id := en_next_id e + 1\<rparr>"
  define ord where "ord = (make_child_order (cl_symbol (ep_cli p)) (co_exchange child) side (co_quantity child)
      (co_limit_price child) (co_tif child) (en_next_id e))\<lparr>o_submit_ts_ns := te_child_wall env i\<rparr>"
  show ?thesis
  proof (cases "rate \<noteq> CB_OK \<or> co_limit_price child \<le> 0 \<or> \<not> shadow_mode p \<and> \<not> affordable p ord (en_accounting e)")
    case True
    then show ?thesis using assms False rate
      by (auto simp: submit_child_def Let_def ord_def intro!: advances_same split: if_splits)
  next
    case pass: False
    have price: "\<not> o_price ord \<le> 0" "o_type ord = LIMIT" "o_symbol ord = buf_copy 16 (cl_symbol (ep_cli p))"
      using pass by (simp_all add: ord_def make_child_order_def mk_Order_def)
    obtain ok e1 where c: "commit_risk p env ord ?e = Inr (ok, e1)"
      using assms False rate pass by (auto simp: submit_child_def Let_def ord_def[symmetric] elim!: and_then_InrE)
    show ?thesis
      using c
    proof (rule commit_riskE)
      fix gr ks
      assume e1: "e1 = ?e\<lparr>en_risk := gr, en_kill := ks\<rparr>"
        and ks: "ks = en_kill ?e \<or> ks = trigger KillReason.CIRCUIT_BREAKER (en_kill ?e)"
        and yes: "ok \<Longrightarrow> isfinite (signed_notional ord) \<and> gr_gross_notional gr = gr_gross_notional (en_risk ?e) + \<bar>signed_notional ord\<bar>"
        and no: "\<not> ok \<Longrightarrow> gr_gross_notional gr = gr_gross_notional (en_risk ?e)"
        and keep: "risk_ok (en_risk ?e) \<Longrightarrow> risk_ok gr \<and> gr_cfg gr = gr_cfg (en_risk ?e)"
      obtain dd cb2 ks2 where d: "check_drawdown (lg_net_pnl (global_metrics (en_accounting e1))) (en_breaker e1, en_kill e1)
          = (dd, cb2, ks2)" by (metis prod_cases3)
      let ?e2 = "e1\<lparr>en_breaker := cb2, en_kill := ks2\<rparr>"
      have e': "e' = (if \<not> ok then e1 else if dd \<noteq> CB_OK then issue_kill_switch_cancels ops p ?e2
          else dispatch ops p env i m ord ?e2)"
        using assms False rate pass c d by (auto simp: submit_child_def Let_def ord_def[symmetric] split: if_splits)
      have risk: "en_risk e' = gr" using e' e1 by (simp add: dispatch_frame)
      have sent: "en_sent e' = en_sent e \<or>
          ok \<and> \<not> shadow_mode p \<and> en_sent e' = en_sent e @ [if futures_only p then futures_order p m ord else ord]"
        using e' e1 dispatch_frame(3)[of ops p env i m ord ?e2] by auto
      have notional: "signed_notional (futures_order p m ord) = signed_notional ord"
        by (simp add: signed_notional_def futures_order_def)
      have g: "gated p (if futures_only p then futures_order p m ord else ord)" if ok
        using yes[OF that] price notional by (simp add: gated_def) (simp add: futures_order_def)
      have up: "gr_gross_notional (en_risk e) \<le> gr_gross_notional gr" if "risk_ok (en_risk e)"
      proof (cases ok)
        case True
        then show ?thesis using yes that by (auto simp: risk_ok_def notionals_ok_def intro!: le_add_nonneg)
      next
        case False
        then show ?thesis using no that by (auto simp: risk_ok_def notionals_ok_def dest: le_nanD)
      qed
      have kill: "ks_active (en_kill e) \<longrightarrow> ks_active (en_kill e')" using False by simp
      from sent show ?thesis
      proof
        assume "en_sent e' = en_sent e"
        then show ?thesis using kill keep up risk by (simp add: advances_def)
      next
        assume s: "ok \<and> \<not> shadow_mode p \<and> en_sent e' = en_sent e @ [if futures_only p then futures_order p m ord else ord]"
        let ?o = "if futures_only p then futures_order p m ord else ord"
        have n: "signed_notional ?o = signed_notional ord" using notional by simp
        have "sent_total (gr_gross_notional (en_risk e)) [?o] \<le> gr_gross_notional gr" if "risk_ok (en_risk e)"
          using yes s that keep unfolding sent_total_simps n by (auto simp: risk_ok_def notionals_ok_def dest: le_nanD)
        then show ?thesis using s False g keep risk unfolding advances_def
          by (intro conjI exI[of _ "[?o]"]) auto
      qed
    qed
  qed
qed

lemma submit_children_advances:
  "submit_children ops p env side m i cs e = Inr e' \<Longrightarrow> advances p e e'"
proof (induction ops p env side m i cs e rule: submit_children.induct)
  case (1 ops p env side m i e)
  then show ?case by (simp add: advances_same)
next
  case (2 ops p env side m i c cs e)
  from 2(2) obtain stop e1 where c: "submit_child ops p env side m i c e = Inr (stop, e1)"
    "(if stop then Inr e1 else submit_children ops p env side m (Suc i) cs e1) = Inr e'"
    by (auto elim!: and_then_InrE)
  note a = submit_child_advances[OF c(1)]
  show ?case
  proof (cases stop)
    case True
    with c a show ?thesis by simp
  next
    case False
    with c 2(1)[OF False] have "advances p e1 e'" by simp
    with a show ?thesis by (rule advances_trans)
  qed
qed

lemma work_plan_advances:
  assumes "work_plan ops p env bq aq age m intent e = Inr e'" shows "advances p e e'"
proof -
  obtain result pm where u: "update_target (te_plan_result env) (te_plan_filled env) (it_position_delta intent)
      (it_urgency intent) (te_now env) 0 (en_parent e) = (result, pm)" by fastforce
  let ?e = "e\<lparr>en_parent := pm\<rparr>"
  have "advances p ?e e'"
    using assms u by (auto simp: work_plan_def submit_decision_def Let_def intro: submit_children_advances advances_same split: if_splits)
  moreover have "advances p e ?e" by (rule advances_same) simp
  ultimately show ?thesis using advances_trans by blast
qed

lemma pulse_latches: "ks_active ks \<Longrightarrow> ks_active (pulse b c ks)"
  by (simp add: pulse_def check_heartbeat_def heartbeat_def Let_def)

lemma engine_tick_advances:
  assumes "engine_tick ops p env e = Inr (stop, e')" shows "advances p e e'"
proof (cases "ks_active (en_kill e)")
  case True
  then show ?thesis using assms by (auto simp: engine_tick_def intro: advances_same)
next
  case False
  from assms obtain e1 e2 bq aq age m intent portfolio where
    w: "work_plan ops p env bq aq age m intent e1 = Inr e2" "maintain_venues ops p env portfolio e2 = Inr e'"
      "en_risk e1 = en_risk e" "en_sent e1 = en_sent e"
    unfolding engine_tick_def Let_def if_not_P[OF False]
    by (auto simp: map_sum_eq_Inr elim!: and_then_InrE split: prod.splits if_splits)
  have "advances p e e1" using w(3,4) False by (auto simp: advances_def risk_ok_def notionals_ok_def dest: le_nanD)
  also have "advances p e1 e2" by (rule work_plan_advances[OF w(1)])
  also have "advances p e2 e'" using maintain_frame[OF w(2)] by (simp add: advances_same)
  finally show ?thesis .
qed

lemma engine_run_advances: "engine_run ops p envs e = Inr e' \<Longrightarrow> advances p e e'"
proof (induction ops p envs e rule: engine_run.induct)
  case (1 ops p e)
  then show ?case by (simp add: advances_same)
next
  case (2 ops p env envs e)
  from 2(2) obtain stop e1 where c: "engine_tick ops p env e = Inr (stop, e1)"
    "(if stop then Inr e1 else engine_run ops p envs e1) = Inr e'"
    by (auto elim!: and_then_InrE)
  note a = engine_tick_advances[OF c(1)]
  show ?case
  proof (cases stop)
    case True
    with c a show ?thesis by simp
  next
    case False
    with c 2(1)[OF False] have "advances p e1 e'" by simp
    with a show ?thesis by (rule advances_trans)
  qed
qed

lemma engine_start_frame:
  assumes "engine_start ops p sv w = Inr e" shows "same_gates (engine_boot p sv w) e"
proof -
  have recon: "same_gates e1 e2" if "with_recon r e1 = Inr e2" for r e1 and e2 :: "'a Engine"
    using that by (auto simp: with_recon_def map_sum_eq_Inr)
  show ?thesis using assms
    by (auto simp: engine_start_def connect_futures_def Let_def split: prod.splits if_splits dest!: connects_frame recon)
qed

lemma engine_start_ok:
  assumes "engine_start ops p sv w = Inr e"
  shows "risk_ok (en_risk e)" "gr_cfg (en_risk e) = rk_global_risk (ep_risk p)" "gr_gross_notional (en_risk e) = 0" "en_sent e = []"
  using engine_start_frame[OF assms] gr_init_ok[of "rk_global_risk (ep_risk p)" "rk_futures_risk (ep_risk p)"]
  by (simp_all add: engine_boot_def Let_def risk_ok_def) (simp_all add: gr_init_def)

text \<open>
  C6. The limits of a session, from start-up on, with any settings, signals, books, clocks and answers of the
  venues: at any time the global caps hold; the notionals of all orders handed to the live connectors, answered
  or not, add up to no more than the gross cap; every one of them is a limit order for the
  configured symbol at a positive price; none is sent in shadow mode. Once the kill switch is on
  it stays on, and no order is sent after that.
\<close>

theorem session_keeps_limits:
  assumes "engine_start ops p sv w = Inr e" and "engine_run ops p envs e = Inr e1" and "engine_run ops p later e1 = Inr e2"
  defines "caps \<equiv> rk_global_risk (ep_risk p)"
  shows "caps_hold (en_risk e2) \<and> gr_cfg (en_risk e2) = caps \<and> list_all (gated p) (en_sent e2) \<and>
    (max_gross_notional caps > 0 \<longrightarrow> sent_total 0 (en_sent e2) \<le> max_gross_notional caps) \<and>
    (shadow_mode p \<longrightarrow> en_sent e2 = []) \<and>
    (ks_active (en_kill e1) \<longrightarrow> ks_active (en_kill e2) \<and> en_sent e2 = en_sent e1)"
proof -
  note s = engine_start_ok[OF assms(1)]
  have a: "advances p e e2" using engine_run_advances[OF assms(2)] engine_run_advances[OF assms(3)] by (rule advances_trans)
  then have ok: "risk_ok (en_risk e2)" "gr_cfg (en_risk e2) = caps" "list_all (gated p) (en_sent e2)"
    "shadow_mode p \<longrightarrow> en_sent e2 = []" "sent_total 0 (en_sent e2) \<le> gr_gross_notional (en_risk e2)"
    using s by (auto simp: advances_def caps_def)
  have "sent_total 0 (en_sent e2) \<le> max_gross_notional caps" if "max_gross_notional caps > 0"
    using that ok(1,2,5) by (auto simp: risk_ok_def caps_hold_def Let_def intro: dbl_trans)
  moreover have "ks_active (en_kill e1) \<longrightarrow> ks_active (en_kill e2) \<and> en_sent e2 = en_sent e1"
    using engine_run_advances[OF assms(3)] by (auto simp: advances_def)
  ultimately show ?thesis using ok by (simp add: risk_ok_def)
qed

section \<open>The watchdog\<close>

text \<open>
  C19. The heartbeat watchdog never sees a stalled loop. Every pass writes the heartbeat and checks it at
  once: whatever time went by between two passes, the switch stays off as long as the two calls
  themselves are not a timeout apart.
\<close>

theorem watchdog_sees_no_stall:
  assumes "\<not> ks_active ks" and "list_all (\<lambda>(beat, check). check - beat \<le> ks_heartbeat_timeout_ns ks) passes"
  shows "\<not> ks_active (fold (\<lambda>(beat, check). pulse beat check) passes ks)"
  using assms
proof (induction passes arbitrary: ks)
  case (Cons x passes)
  obtain b c where x: "x = (b, c)" by fastforce
  have "pulse b c ks = heartbeat b ks" using Cons.prems x by (simp add: pulse_def check_heartbeat_def heartbeat_def Let_def)
  with Cons x show ?case by (simp add: heartbeat_def)
qed simp

section \<open>The plan\<close>

lemma submit_child_parent:
  "submit_child ops p env side m i child e = Inr (stop, e') \<Longrightarrow> en_parent e' = en_parent e"
  by (auto simp: submit_child_def commit_risk_def Let_def map_sum_eq_Inr dispatch_frame elim!: and_then_InrE
      split: if_splits prod.splits)

lemma submit_children_parent:
  "submit_children ops p env side m i cs e = Inr e' \<Longrightarrow> en_parent e' = en_parent e"
proof (induction ops p env side m i cs e rule: submit_children.induct)
  case (2 ops p env side m i c cs e)
  then show ?case by (auto elim!: and_then_InrE dest!: submit_child_parent split: if_splits)
qed simp

text \<open>A pass changes the plan by one \<open>update_target\<close> and by nothing else: no child's fate is reported to it.\<close>

lemma engine_tick_parent:
  assumes "engine_tick ops p env e = Inr (stop, e')" and "\<not> ks_active (en_kill e)"
  shows "\<exists>delta urgency. en_parent e' =
    snd (update_target (te_plan_result env) (te_plan_filled env) delta urgency (te_now env) 0 (en_parent e))"
proof -
  from assms obtain e1 e2 bq aq age m intent portfolio where
    w: "work_plan ops p env bq aq age m intent e1 = Inr e2" "maintain_venues ops p env portfolio e2 = Inr e'"
      "en_parent e1 = en_parent e"
    unfolding engine_tick_def Let_def if_not_P[OF assms(2)]
    by (auto simp: map_sum_eq_Inr elim!: and_then_InrE split: prod.splits if_splits)
  have "en_parent e2 = snd (update_target (te_plan_result env) (te_plan_filled env) (it_position_delta intent)
      (it_urgency intent) (te_now env) 0 (en_parent e))"
    using w(1) unfolding w(3)[symmetric] work_plan_def submit_decision_def Let_def
    by (auto dest!: submit_children_parent split: prod.splits if_splits)
  with maintain_frame[OF w(2)] show ?thesis by auto
qed

text \<open>The passes of the plan alone: the answers of \<open>update_target\<close> at the given times.\<close>

fun plan_passes :: "ParentPlanUpdateResult \<Rightarrow> double \<Rightarrow> double \<Rightarrow> ShadowUrgency \<Rightarrow> int list \<Rightarrow> ParentOrderManager \<Rightarrow>
    ParentPlanUpdateResult list" where
  "plan_passes result0 filled0 delta urgency [] pm = []"
| "plan_passes result0 filled0 delta urgency (t # ts) pm =
     (case update_target result0 filled0 delta urgency t 0 pm of
        (r, pm) \<Rightarrow> r # plan_passes result0 filled0 delta urgency ts pm)"

definition resend :: "double \<Rightarrow> ParentPlanUpdateResult \<Rightarrow> bool" where
  "resend delta r \<longleftrightarrow> pr_action r \<in> {PA_CREATED, PA_UPDATED, PA_REPLACED} \<and> plan_active (pr_plan r) \<and>
     pp_side (pr_plan r) = (if delta > 0 then BID else ASK) \<and> pp_remaining_qty (pr_plan r) = \<bar>delta\<bar>"

definition plan_for :: "double \<Rightarrow> double \<Rightarrow> int \<Rightarrow> ParentExecutionPlan \<Rightarrow> bool" where
  "plan_for filled0 delta deadline plan \<longleftrightarrow> plan_active plan \<and> pp_side plan = (if delta > 0 then BID else ASK) \<and>
     pp_total_qty plan = \<bar>delta\<bar> \<and> pp_remaining_qty plan = \<bar>delta\<bar> \<and> pp_filled_qty plan = filled0 \<and>
     pp_deadline plan = deadline"

lemma update_creates:
  assumes "\<not> plan_active (pm_plan pm)" and "\<not> \<bar>delta\<bar> \<le> qty_epsilon"
    and "update_target result0 filled0 delta urgency t 0 pm = (r, pm')"
  shows "resend delta r \<and> pm_cfg pm' = pm_cfg pm \<and>
    plan_for filled0 delta (t + ms (pc_default_deadline_ms (pm_cfg pm))) (pm_plan pm')"
  using assms by (auto simp: update_target_def maybe_expire_def Let_def new_plan_def build_plan_def resend_def
      plan_for_def plan_active_def)

lemma update_creates_expired:
  assumes "plan_active (pm_plan pm)" and "\<not> t < pp_deadline (pm_plan pm)" and "\<not> \<bar>delta\<bar> \<le> qty_epsilon"
    and "update_target result0 filled0 delta urgency t 0 pm = (r, pm')"
  shows "resend delta r \<and> pm_cfg pm' = pm_cfg pm \<and>
    plan_for filled0 delta (t + ms (pc_default_deadline_ms (pm_cfg pm))) (pm_plan pm')"
  using assms by (auto simp: update_target_def maybe_expire_def Let_def new_plan_def build_plan_def resend_def
      plan_for_def plan_active_def)

lemma full_quantity:
  assumes "isfinite d" and "\<not> \<bar>d\<bar> \<le> qty_epsilon"
  shows "std_max 0 (std_min \<bar>d\<bar> \<bar>d\<bar>) = \<bar>d\<bar>" and "\<bar>\<bar>d\<bar> - \<bar>d\<bar>\<bar> = (0 :: double)"
proof -
  have "\<not> \<bar>d\<bar> \<le> 0"
  proof
    assume "\<bar>d\<bar> \<le> 0"
    moreover have "(0 :: double) \<le> qty_epsilon" by code_simp
    ultimately show False using assms(2) dbl_trans by blast
  qed
  then have "0 < \<bar>d\<bar>" using assms(1) dbl_not_le[of "\<bar>d\<bar>" 0] by (cases d) auto
  then show "std_max 0 (std_min \<bar>d\<bar> \<bar>d\<bar>) = \<bar>d\<bar>" by (simp add: std_max_def std_min_def)
  have "\<bar>0 :: double\<bar> = 0" by code_simp
  then show "\<bar>\<bar>d\<bar> - \<bar>d\<bar>\<bar> = (0 :: double)" using assms(1) by (simp add: sub_self)
qed

lemma update_extends:
  assumes "plan_for filled0 delta deadline (pm_plan pm)" and "t < deadline" and "\<not> \<bar>delta\<bar> \<le> qty_epsilon"
    and "isfinite delta" and "filled0 < \<bar>delta\<bar>"
    and "deadline + ms (pc_min_deadline_extension_ms (pm_cfg pm)) < t + ms (pc_default_deadline_ms (pm_cfg pm))"
    and "0 \<le> pc_min_deadline_extension_ms (pm_cfg pm)"
    and "update_target result0 filled0 delta urgency t 0 pm = (r, pm')"
  shows "resend delta r \<and> pm_cfg pm' = pm_cfg pm \<and>
    plan_for filled0 delta (t + ms (pc_default_deadline_ms (pm_cfg pm))) (pm_plan pm')"
proof -
  note q = full_quantity[OF assms(4,3)]
  have m: "maybe_expire t (result0\<lparr>pr_plan := mk_ParentExecutionPlan\<rparr>, pm) = (result0\<lparr>pr_plan := mk_ParentExecutionPlan\<rparr>, pm)"
    using assms(1,2) by (simp add: maybe_expire_def plan_for_def)
  have e: "max deadline (t + ms (pc_default_deadline_ms (pm_cfg pm))) = t + ms (pc_default_deadline_ms (pm_cfg pm))"
    using assms(6,7) by (simp add: ms_def)
  have f: "std_max filled0 \<bar>delta\<bar> = \<bar>delta\<bar>" using assms(5) by (simp add: std_max_def)
  show ?thesis
  proof (cases "0 \<ge> pc_replace_qty_threshold (pm_cfg pm)")
    case True
    then show ?thesis using assms(1,3,8)
      by (auto simp: update_target_def m plan_for_def Let_def q new_plan_def build_plan_def resend_def plan_active_def)
  next
    case False
    then show ?thesis using assms(1,3,6,8)
      by (auto simp: update_target_def m plan_for_def adjust_plan_def Let_def e f q resend_def plan_active_def)
  qed
qed

fun spaced :: "int \<Rightarrow> int list \<Rightarrow> bool" where
  "spaced gap (a # b # ts) \<longleftrightarrow> a + gap < b \<and> spaced gap (b # ts)"
| "spaced gap ts \<longleftrightarrow> True"


section \<open>An instance\<close>

text \<open>A live session on OKX, one tick wide, and venues that accept every order.\<close>

definition accepting_ops :: "nat EngineOps" where
  "accepting_ops = \<lparr>eo_submit = (\<lambda>t ord n. (C_OK, [], Suc n)), eo_cancel_all = (\<lambda>t sy n. n), eo_is_connected = (\<lambda>t n. True),
     eo_connect = (\<lambda>t n. (C_OK, n)), eo_mark_price = (\<lambda>n. 0),
     eo_recon = \<lparr>wd_reconcile = (\<lambda>c n. (C_OK, n)), wd_fetch = (\<lambda>c snap n. (C_OK, snap, n)), wd_now_ns = (\<lambda>n. 0),
       wd_steady_ns = (\<lambda>n. 0)\<rparr>\<rparr>"

definition params_sample :: EngineParams where
  "params_sample = \<lparr>ep_cli = mk_CliOptions\<lparr>cl_venues := ''FTX''\<rparr>,
     ep_engine = \<lparr>ec_reconnect_interval_secs = 5, ec_reconciliation_interval_secs = 5, ec_portfolio_log_heartbeat_secs = 5,
       ec_venue_quality_log_heartbeat_secs = 5,
       ec_venue_quote_defaults = \<lparr>vd_latency_penalty_bps = 0, vd_risk_penalty_bps = 0, vd_fill_probability = Fin (1/2),
         vd_queue_ahead_qty = 0, vd_toxicity_bps = 0\<rparr>,
       ec_binance_rest_url = [], ec_binance_ws_url = [], ec_kraken_rest_url = [], ec_kraken_ws_url = [], ec_okx_rest_url = [],
       ec_okx_ws_url = [], ec_coinbase_rest_url = [], ec_coinbase_ws_url = [], ec_shadow_base_latency_ns = 0,
       ec_shadow_latency_jitter_ns = 0, ec_shadow_impact_slippage_per_notional_bps = 0,
       ec_shadow_queue_match_fraction_per_check = 0, ec_shadow_log_path = [], ec_retry_max_attempts = 1,
       ec_retry_backoff_ms = 0, ec_strategy_mode = SPOT_ONLY,
       ec_binance_futures = \<lparr>bf_enabled = False, bf_rest_url = [], bf_ws_url = [], bf_recv_window_ms = 0, bf_hedge_mode = False,
         bf_default_leverage_cap = 0, bf_leverage_caps = []\<rparr>\<rparr>,
     ep_risk = mk_RiskRuntimeConfig cfg_sample, ep_scheduler = scheduler_sample\<rparr>"

definition intents_sample :: PortfolioIntentEngine where
  "intents_sample = ie_init \<lparr>ic_max_position = Fin 3, ic_min_entry_signal_bps = 1, ic_alpha_exit_buffer_bps = 0,
     ic_negative_reversal_signal_bps = - Fin 9, ic_positive_reversal_signal_bps = Fin 9, ic_deadband_signal_bps = Fin (1/2),
     ic_max_risk_score = 1, ic_shock_enter_threshold = Fin (1/2), ic_shock_exit_threshold = Fin (1/4),
     ic_illiquid_enter_threshold = Fin (1/2), ic_illiquid_exit_threshold = Fin (1/4), ic_regime_persistence_ticks = 2,
     ic_stale_inventory_ms = 1000, ic_stale_signal_ms = 1000, ic_max_basis_divergence_bps = Fin 100,
     ic_stale_inventory_alpha_hold_bps = Fin 5, ic_health_reduce_ratio = Fin (1/2)\<rparr>"

definition start_sample :: StartEnv where
  "start_sample = \<lparr>sv_now = 0, sv_intents = ie_cfg intents_sample, sv_quality = mk_VenueQualityConfig,
     sv_shadow = \<lparr>sf_binance_maker_fee_bps = 0, sf_binance_taker_fee_bps = 0, sf_kraken_maker_fee_bps = 0,
       sf_kraken_taker_fee_bps = 0, sf_okx_maker_fee_bps = 0, sf_okx_taker_fee_bps = 0, sf_coinbase_maker_fee_bps = 0,
       sf_coinbase_taker_fee_bps = 0, sf_base_latency_ns = 0, sf_latency_jitter_ns = 0,
       sf_impact_slippage_per_notional_bps = 0, sf_queue_match_fraction_per_check = 0, sf_log_path = []\<rparr>,
     sv_plan_id = 1, sv_replace_threshold = Fin 2, sv_incidents = 0, sv_dropped = 0, sv_connectors = 0, sv_ledger_symbol = [],
     sv_drift = (\<lambda>i. undefined)\<rparr>"

definition tick_sample :: TickEnv where
  "tick_sample = \<lparr>te_beat = 10, te_check = 11, te_now = 12, te_wall = 200, te_recon_now = 12, te_child_steady = (\<lambda>i. 13),
     te_child_wall = (\<lambda>i. 201), te_alpha = sample_alpha\<lparr>as_signal_bps := Fin 50, as_horizon_ticks := 1\<rparr>,
     te_regime = \<lparr>rg_p_calm = 1, rg_p_trending = 0, rg_p_shock = 0, rg_p_illiquid = 0, rg_ts_ns = 100\<rparr>,
     te_books = (\<lambda>ex. book_sample), te_snapshot = out_sample\<lparr>ls_global_position := 0\<rparr>, te_ledger_snapshot = out_sample,
     te_intent = \<lparr>it_target_global_position = 0, it_position_delta = 0, it_urgency = PASSIVE, it_flatten_now = False,
       it_max_shortfall_bps = 0, it_expected_cost_bps = 0, it_basis_slippage_bps = 0, it_alpha_edge_bps = 0, it_reason_codes = []\<rparr>,
     te_plan_result = result_sample, te_plan_filled = 0, te_decision = (SWEEP, 0), te_routing = regime_sample,
     te_drift = (\<lambda>i. undefined)\<rparr>"







lemma no_runs: "\<not> runs params_sample ex"
proof -
  have "getlines CHR '','' ''FTX'' = [''FTX'']" by code_simp
  then show ?thesis by (cases ex) (simp_all add: runs_venue_def has_venue_def params_sample_def)
qed

lemma quotes_off: "engine_quotes params_sample env side = map (\<lambda>ex. no_quote ex False) trading_venues"
  by (simp add: engine_quotes_def make_quote_def no_runs)

lemma observe_off: "observe_quotes (map (\<lambda>ex. no_quote ex False) trading_venues) q = q"
  by (simp add: observe_quotes_def trading_venues_def no_quote_def)

lemma unhealthy: "count_healthy_venues (apply_quality_all m (map (\<lambda>ex. no_quote ex False) trading_venues)) = 0"
  by (simp add: count_healthy_venues_def apply_quality_all_def apply_quality_def trading_venues_def no_quote_def Let_def)

lemma position_off:
  "\<exists>r. build_live_portfolio_snapshot g sy books latest (runs params_sample) age = Inr r \<and> ls_global_position r = ls_global_position g"
  by (simp add: build_live_portfolio_snapshot_def trading_venues_def add_position_def no_runs apply_mid_price_def Let_def)

lemma start_sample_runs:
  "engine_start accepting_ops params_sample start_sample 0 = Inr (engine_boot params_sample start_sample 0)"
proof -
  have "\<not> futures_enabled (ep_engine params_sample)" by (simp add: params_sample_def futures_enabled_def)
  then show ?thesis
    by (simp add: engine_start_def trading_venues_def connect_if_needed_def no_runs connect_futures_def Let_def)
qed

lemma ledger_sample: "\<exists>r. snapshot now out_sample (lg_init []) = Inr r"
proof -
  have "case snapshot now out_sample (lg_init []) of Inl f \<Rightarrow> False | Inr r \<Rightarrow> True" by code_simp
  then show ?thesis by (auto split: sum.splits)
qed

abbreviation booted :: "nat Engine" where
  "booted \<equiv> engine_boot params_sample start_sample 0"

lemma portfolio_sample:
  assumes "en_recon e = en_recon booted"
  shows "\<exists>r. engine_snapshot params_sample tick_sample e = Inr r \<and> ls_global_position r = 0"
proof -
  have m: "\<not> shadow_mode params_sample" by (simp add: params_sample_def mk_CliOptions_def)
  have lg: "rc_position_ledger (en_recon e) = Some (lg_init [])"
    using assms by (simp add: engine_boot_def start_reconciliation_def start_sample_def bind_position_ledger_def Let_def)
  obtain ls where ls: "snapshot (te_now tick_sample) (te_ledger_snapshot tick_sample) (lg_init []) = Inr ls"
    using ledger_sample by (auto simp: tick_sample_def)
  obtain r where "build_live_portfolio_snapshot (te_snapshot tick_sample) (cl_symbol (ep_cli params_sample)) (te_books tick_sample)
      (\<lambda>ex. latest_snapshot_for ex (en_recon e)) (runs params_sample) (ls_oldest_inventory_age_ms ls) = Inr r"
    "ls_global_position r = ls_global_position (te_snapshot tick_sample)" using position_off by blast
  with m lg ls show ?thesis by (simp add: engine_snapshot_def) (simp add: tick_sample_def)
qed

lemma flat_delta: "\<bar>- (clamp_position (ie_cfg intents_sample) 0)\<bar> \<le> qty_epsilon"
  by code_simp

lemma idle_work:
  assumes "en_parent e = en_parent booted" and "\<bar>it_position_delta intent\<bar> \<le> qty_epsilon"
  shows "work_plan accepting_ops p tick_sample bq aq age m intent e = Inr e"
  using assms by (simp add: work_plan_def update_target_def maybe_expire_def Let_def tick_sample_def result_sample_def
      engine_boot_def pm_init_def mk_ParentExecutionPlan_def plan_active_def)

lemma run_sample: "\<exists>e'. engine_run accepting_ops params_sample [tick_sample] booted = Inr e'"
proof -
  let ?e = "booted\<lparr>en_kill := pulse (te_beat tick_sample) (te_check tick_sample) (en_kill booted)\<rparr>"
  let ?q = "map (\<lambda>ex. no_quote ex False) trading_venues"
  have off: "\<not> ks_active (en_kill booted)" "\<not> shadow_mode params_sample"
    by (simp_all add: engine_boot_def ks_init_def params_sample_def mk_CliOptions_def Let_def)
  have q: "?e\<lparr>en_quality := en_quality ?e\<rparr> = ?e" by simp
  obtain r where s: "engine_snapshot params_sample tick_sample ?e = Inr r" "ls_global_position r = 0"
    using portfolio_sample[of ?e] by auto
  have ie: "en_intents ?e = intents_sample" by (simp add: engine_boot_def start_sample_def intents_sample_def ie_init_def Let_def)
  obtain intent intents where ev: "evaluate (te_intent tick_sample) (te_alpha tick_sample) (te_regime tick_sample) r
      (apply_quality_all (qr_model (en_quality ?e)) ?q)
      (engine_intent_context accepting_ops params_sample tick_sample (en_world ?e)) intents_sample = (intent, intents)" by fastforce
  have "it_position_delta (fst (evaluate (te_intent tick_sample) (te_alpha tick_sample) (te_regime tick_sample) r
      (apply_quality_all (qr_model (en_quality ?e)) ?q)
      (engine_intent_context accepting_ops params_sample tick_sample (en_world ?e)) intents_sample))
    = - (clamp_position (ie_cfg intents_sample) 0)"
    by (simp add: evaluate_def unhealthy flatten_def Let_def s(2))
  then have "\<bar>it_position_delta intent\<bar> \<le> qty_epsilon" using flat_delta unfolding ev fst_conv by simp
  then have w: "work_plan accepting_ops p tick_sample bq aq age m intent (?e\<lparr>en_intents := intents\<rparr>) = Inr (?e\<lparr>en_intents := intents\<rparr>)"
    for p bq aq age m by (intro idle_work) simp_all
  have m: "maintain_venues accepting_ops params_sample tick_sample r (?e\<lparr>en_intents := intents\<rparr>) = Inr (?e\<lparr>en_intents := intents\<rparr>)"
    by (simp add: maintain_venues_def engine_boot_def Let_def) (simp add: tick_sample_def start_sample_def params_sample_def)
  have "engine_tick accepting_ops params_sample tick_sample booted = Inr (False, ?e\<lparr>en_intents := intents\<rparr>)"
    unfolding engine_tick_def Let_def if_not_P[OF off(1)] if_not_P[OF off(2)] quotes_off observe_off
    unfolding q unfolding s and_then_simps ie ev prod.case w m by simp
  then show ?thesis by simp
qed

theorem session_keeps_limits_witness:
  "\<exists>e. engine_run accepting_ops params_sample [tick_sample] booted = Inr e \<and> caps_hold (en_risk e) \<and>
     sent_total 0 (en_sent e) \<le> Fin 100"
proof -
  obtain e where r: "engine_run accepting_ops params_sample [tick_sample] booted = Inr e" using run_sample by blast
  have g: "max_gross_notional (rk_global_risk (ep_risk params_sample)) = Fin 100"
    by (simp add: params_sample_def mk_RiskRuntimeConfig_def cfg_sample_def)
  have pos: "0 < Fin 100" by code_simp
  from session_keeps_limits[OF start_sample_runs r, of "[]"] have "caps_hold (en_risk e)" "sent_total 0 (en_sent e) \<le> Fin 100"
    unfolding g using pos by auto
  with r show ?thesis by blast
qed

theorem watchdog_sees_no_stall_witness:
  "\<not> ks_active (fold (\<lambda>(beat, check). pulse beat check) [(5, 6), (99999999999, 100000000000)] (ks_init 0 1000000000))"
  using watchdog_sees_no_stall[of "ks_init 0 1000000000" "[(5, 6), (99999999999, 100000000000)]"] by (simp add: ks_init_def)


end
