(* ===== verification/Request_Signing.thy ===== *)
theory Request_Signing
  imports Live_Connector Coinbase_Feed
begin

text \<open>
  The part of \<^verbatim>\<open>core/execution/common/connectors/live_connector_base.hpp\<close> that authenticates requests, and what
  the venue connectors use of \<^verbatim>\<open>core/common/rest_client.hpp\<close>. OpenSSL and libcurl are not in the repository: the
  digests, signatures and transfers are arguments, bytes are characters. Reading a clock does not
  change the world; a transfer does.
\<close>

section \<open>HTTP\<close>

record 'w Http =
  ht_get :: "string \<Rightarrow> string list \<Rightarrow> 'w \<Rightarrow> HttpResponse \<times> 'w"
  ht_post :: "string \<Rightarrow> string \<Rightarrow> string list \<Rightarrow> 'w \<Rightarrow> HttpResponse \<times> 'w"
  ht_put :: "string \<Rightarrow> string \<Rightarrow> string list \<Rightarrow> 'w \<Rightarrow> HttpResponse \<times> 'w"
  ht_del :: "string \<Rightarrow> string list \<Rightarrow> 'w \<Rightarrow> HttpResponse \<times> 'w"
  ht_now_ms :: "'w \<Rightarrow> int"
  ht_now_ns :: "'w \<Rightarrow> int"

text \<open>A status for which a venue does not offer the request at all.\<close>

definition not_offered :: "HttpResponse \<Rightarrow> bool" where
  "not_offered r \<longleftrightarrow> hr_status r = 404 \<or> hr_status r = 405 \<or> hr_status r = 501"

section \<open>Digests\<close>

text \<open>
  HMAC-SHA256 and HMAC-SHA512 of a key and a message, SHA256, the base64 of \<open>EVP_EncodeBlock\<close> and its
  decoder, and the ES256 signature of a PEM key as 64 raw bytes, \<open>None\<close> where a step of OpenSSL fails.
\<close>

record Crypto =
  cr_hmac256 :: "string \<Rightarrow> string \<Rightarrow> string"
  cr_hmac512 :: "string \<Rightarrow> string \<Rightarrow> string"
  cr_sha256 :: "string \<Rightarrow> string"
  cr_encode64 :: "string \<Rightarrow> string"
  cr_decode64 :: "string \<Rightarrow> string"
  cr_es256 :: "string \<Rightarrow> string \<Rightarrow> string option"

definition hex_char :: "nat \<Rightarrow> char" where
  "hex_char n = ''0123456789abcdef'' ! n"

fun encode_hex :: "string \<Rightarrow> string" where
  "encode_hex [] = []"
| "encode_hex (c # s) = hex_char (code c div 16 mod 16) # hex_char (code c mod 16) # encode_hex s"

definition hmac_sha256_hex :: "Crypto \<Rightarrow> LiveConnector \<Rightarrow> string \<Rightarrow> string" where
  "hmac_sha256_hex cr c payload = encode_hex (cr_hmac256 cr (lc_api_secret c) payload)"

definition hmac_sha256_base64 :: "Crypto \<Rightarrow> LiveConnector \<Rightarrow> string \<Rightarrow> string" where
  "hmac_sha256_base64 cr c payload = cr_encode64 cr (cr_hmac256 cr (lc_api_secret c) payload)"

text \<open>What follows the first occurrence of a text.\<close>

definition after_first :: "string \<Rightarrow> string \<Rightarrow> string option" where
  "after_first key s = map_option (\<lambda>p. drop (p + length key) s) (find_str key s)"

definition contains_text :: "string \<Rightarrow> string \<Rightarrow> bool" where
  "contains_text needle s \<longleftrightarrow> find_str needle s \<noteq> None"

definition extract_host :: "string \<Rightarrow> string" where
  "extract_host url =
     (let rest = (case after_first ''://'' url of None \<Rightarrow> url | Some r \<Rightarrow> r) in takeWhile (\<lambda>c. c \<noteq> CHR ''/'') rest)"

definition json_escape :: "string \<Rightarrow> string" where
  "json_escape s = concat (map (\<lambda>c. if c = backslash \<or> c = quote then [backslash, c] else [c]) s)"

definition extract_kraken_nonce :: "string \<Rightarrow> string" where
  "extract_kraken_nonce payload =
     (case after_first ''nonce='' payload of None \<Rightarrow> [] | Some r \<Rightarrow> takeWhile (\<lambda>c. c \<noteq> CHR ''&'') r)"

definition kraken_api_sign :: "Crypto \<Rightarrow> LiveConnector \<Rightarrow> string \<Rightarrow> string \<Rightarrow> string" where
  "kraken_api_sign cr c request_path payload =
     (let nonce = extract_kraken_nonce payload in
      if nonce = [] then []
      else cr_encode64 cr (cr_hmac512 cr (cr_decode64 cr (lc_api_secret c))
             (request_path @ cr_sha256 cr (nonce @ payload))))"

section \<open>The token of Coinbase\<close>

abbreviation (input) quoted :: "string \<Rightarrow> string" where
  "quoted s \<equiv> quote # s @ [quote]"

definition jwt_header :: "LiveConnector \<Rightarrow> string" where
  "jwt_header c = ''{'' @ quoted ''alg'' @ '':'' @ quoted ''ES256'' @ '','' @ quoted ''kid'' @ '':'' @
     quoted (json_escape (lc_api_key c)) @ '','' @ quoted ''typ'' @ '':'' @ quoted ''JWT'' @ ''}''"

definition jwt_claims :: "LiveConnector \<Rightarrow> string \<Rightarrow> string \<Rightarrow> int \<Rightarrow> string" where
  "jwt_claims c method request_path now_s =
     ''{'' @ quoted ''sub'' @ '':'' @ quoted (json_escape (lc_api_key c)) @ '','' @ quoted ''iss'' @ '':'' @ quoted ''cdp'' @ '','' @
     quoted ''nbf'' @ '':'' @ show_int now_s @ '','' @ quoted ''exp'' @ '':'' @ show_int (now_s + 120) @ '','' @
     quoted ''uri'' @ '':'' @ quoted (json_escape (method @ '' '' @ extract_host (lc_api_url c) @ request_path)) @ ''}''"

definition bytes_of :: "string \<Rightarrow> nat list" where "bytes_of s = map code s"

definition coinbase_bearer_token :: "Crypto \<Rightarrow> LiveConnector \<Rightarrow> string \<Rightarrow> string \<Rightarrow> int \<Rightarrow> string" where
  "coinbase_bearer_token cr c method request_path now_ns =
     (if lc_api_key c = [] \<or> lc_api_secret c = [] \<or> extract_host (lc_api_url c) = [] then []
      else let signing_input = base64url_encode (bytes_of (jwt_header c)) @ ''.'' @
                 base64url_encode (bytes_of (jwt_claims c method request_path (now_ns sdiv 1000000000)))
           in case cr_es256 cr (lc_api_secret c) signing_input of
                None \<Rightarrow> []
              | Some raw \<Rightarrow> signing_input @ ''.'' @ base64url_encode (bytes_of raw))"

section \<open>Headers\<close>

text \<open>\<open>std::to_string\<close> of a \<open>double\<close>: the format \<open>%f\<close> with six decimals.\<close>

definition fixed_pos :: "nat \<Rightarrow> rat \<Rightarrow> string" where
  "fixed_pos k q =
     (let ds = show_nat (rne (q * 10 ^ k)); ds = replicate (Suc k - length ds) (CHR ''0'') @ ds
      in take (length ds - k) ds @ CHR ''.'' # drop (length ds - k) ds)"

fun fixed_double :: "nat \<Rightarrow> double \<Rightarrow> string" where
  "fixed_double k NaN = ''nan''"
| "fixed_double k PInf = ''inf''"
| "fixed_double k NInf = ''-inf''"
| "fixed_double k NZero = CHR ''-'' # fixed_pos k 0"
| "fixed_double k (Fin q) = (if q < 0 then CHR ''-'' # fixed_pos k (- q) else fixed_pos k q)"

definition auth_headers :: "Crypto \<Rightarrow> LiveConnector \<Rightarrow> string \<Rightarrow> string \<Rightarrow> string \<Rightarrow> string \<Rightarrow> int \<Rightarrow> int \<Rightarrow> string list" where
  "auth_headers cr c method request_path payload idempotency_key now_ms now_ns =
     (let ts_ms_s = show_int now_ms; ts_s = fixed_double 6 (of_integer now_ms / lit 1000) in
      (if idempotency_key \<noteq> [] then [''X-IDEMPOTENCY-KEY: '' @ idempotency_key] else []) @
      (case lc_exchange c of
         BINANCE \<Rightarrow> [''Content-Type: application/json'', ''X-MBX-APIKEY: '' @ lc_api_key c, ''X-MBX-TIMESTAMP: '' @ ts_ms_s,
           ''X-MBX-SIGNATURE: '' @ hmac_sha256_hex cr c (ts_ms_s @ method @ request_path @ payload)]
       | KRAKEN \<Rightarrow> [''Content-Type: application/x-www-form-urlencoded; charset=utf-8'']
       | OKX \<Rightarrow> [''Content-Type: application/json'', ''OK-ACCESS-KEY: '' @ lc_api_key c, ''OK-ACCESS-TIMESTAMP: '' @ ts_s,
           ''OK-ACCESS-PASSPHRASE: '' @ lc_api_passphrase c,
           ''OK-ACCESS-SIGN: '' @ hmac_sha256_base64 cr c (ts_s @ method @ request_path @ payload)]
       | COINBASE \<Rightarrow> [''Content-Type: application/json'', ''Accept: application/json''] @
           (let jwt = coinbase_bearer_token cr c method request_path now_ns
            in if jwt \<noteq> [] then [''Authorization: Bearer '' @ jwt] else [])
       | UNKNOWN \<Rightarrow> []))"

definition kraken_private_headers :: "Crypto \<Rightarrow> LiveConnector \<Rightarrow> string \<Rightarrow> string \<Rightarrow> string list" where
  "kraken_private_headers cr c request_path payload =
     [''Content-Type: application/x-www-form-urlencoded; charset=utf-8'', ''API-Key: '' @ lc_api_key c,
      ''API-Sign: '' @ kraken_api_sign cr c request_path payload]"

definition binance_api_headers :: "LiveConnector \<Rightarrow> string list" where
  "binance_api_headers c = [''X-MBX-APIKEY: '' @ lc_api_key c]"

section \<open>What is signed\<close>

lemma after_first_prefix: "key \<noteq> [] \<Longrightarrow> after_first key (key @ r) = Some r"
  by (cases key) (auto simp: after_first_def)

text \<open>The digits of a number never hold one of the separators.\<close>

lemma digits_no: "\<not> is_digit c \<Longrightarrow> c \<noteq> CHR ''-'' \<Longrightarrow> c \<notin> set (show_int n)"
  using show_nat_digits[of n] show_nat_digits[of "- n"] by (auto simp: show_int_def split: if_splits)

lemma takeWhile_upto: "c \<notin> set xs \<Longrightarrow> takeWhile (\<lambda>x. x \<noteq> c) (xs @ c # ys) = xs" "c \<notin> set xs \<Longrightarrow> takeWhile (\<lambda>x. x \<noteq> c) xs = xs"
  by (induction xs) auto

fun decode_hex :: "string \<Rightarrow> string" where
  "decode_hex (p # q # s) = (case (hex_value p, hex_value q) of
     (Some m, Some n) \<Rightarrow> char_of (16 * m + n) # decode_hex s | _ \<Rightarrow> [])"
| "decode_hex s = []"

lemma hex_value_char: "n < 16 \<Longrightarrow> hex_value (hex_char n) = Some n"
proof -
  have "list_all (\<lambda>n. hex_value (hex_char n) = Some n) [0..<16]" by code_simp
  then show "n < 16 \<Longrightarrow> hex_value (hex_char n) = Some n" by (auto simp: list_all_iff)
qed

text \<open>
  A hexadecimal digest reads back as the bytes of the digest.
\<close>

theorem hex_digest_reads_back: "decode_hex (encode_hex s) = s"
proof (induction s)
  case (Cons c s)
  have "code c < 256" by (simp add: code_def)
  then have "code c div 16 mod 16 = code c div 16" by simp
  moreover have "char_of (16 * (code c div 16) + code c mod 16) = c" by (simp add: code_def)
  ultimately show ?case using Cons by (simp add: hex_value_char)
qed simp

definition no_control :: "string \<Rightarrow> bool" where
  "no_control s \<longleftrightarrow> list_all (\<lambda>c. c \<noteq> CHR 0x08 \<and> c \<noteq> CHR 0x0C \<and> c \<noteq> CHR 0x0A \<and> c \<noteq> CHR 0x0D \<and> c \<noteq> CHR 0x09) s"

lemma json_escape_dump: "no_control s \<Longrightarrow> json_escape s = concat (map escape s)"
  unfolding json_escape_def no_control_def list_all_iff
  by (intro arg_cong[of _ _ concat] map_cong refl) (auto simp: escape_def)

lemma jwt_header_dump:
  assumes "no_control (lc_api_key c)"
  shows "jwt_header c = dump (JObject [(''alg'', JString ''ES256''), (''kid'', JString (lc_api_key c)), (''typ'', JString ''JWT'')])"
proof -
  have "concat (map escape ''ES256'') = ''ES256''" "concat (map escape ''JWT'') = ''JWT''" by code_simp+
  then show ?thesis using assms by (simp add: jwt_header_def json_escape_dump)
qed

lemma jwt_claims_dump:
  assumes "no_control (lc_api_key c)" and "no_control (method @ '' '' @ extract_host (lc_api_url c) @ request_path)"
  shows "jwt_claims c method request_path now_s = dump (JObject [(''sub'', JString (lc_api_key c)), (''iss'', JString ''cdp''),
    (''nbf'', JInt now_s), (''exp'', JInt (now_s + 120)),
    (''uri'', JString (method @ '' '' @ extract_host (lc_api_url c) @ request_path))])"
proof -
  have "concat (map escape ''cdp'') = ''cdp''" by code_simp
  then show ?thesis using assms by (simp add: jwt_claims_def json_escape_dump)
qed

lemma dropWhile_upto: "c \<notin> set xs \<Longrightarrow> dropWhile (\<lambda>x. x \<noteq> c) (xs @ c # ys) = c # ys"
  by (induction xs) auto

lemma base64_plain: "CHR ''.'' \<notin> set (base64url_encode bs)"
proof -
  have "(CHR ''.'' = base64_chars ! (i mod 64)) = False" for i
  proof -
    have l: "list_all (\<lambda>i. base64_chars ! i \<noteq> CHR ''.'') [0..<64]" by code_simp
    have "i mod 64 \<in> set [0..<64]" unfolding set_upt by simp
    with l[unfolded list_all_iff] have "base64_chars ! (i mod 64) \<noteq> CHR ''.''" by (rule bspec)
    then show ?thesis by (simp only: eq_commute[of "CHR ''.''"])
  qed
  then show ?thesis
    by (induction bs rule: base64url_encode.induct)
      (simp_all only: base64url_encode.simps Let_def set_append list.set insert_iff empty_iff Un_iff HOL.simp_thms)
qed

definition text_of :: "nat list \<Rightarrow> string" where "text_of bs = map char_of bs"

lemma bytes_read_back: "text_of (base64url_decode (base64url_encode (bytes_of s))) = s"
proof -
  have "list_all (\<lambda>b. b < 256) (bytes_of s)" by (simp add: bytes_of_def code_def list_all_iff)
  from base64url_round_trip[OF this] show ?thesis by (simp add: text_of_def bytes_of_def code_def comp_def)
qed

text \<open>What a reader of the token decodes: the texts before the first and before the second dot.\<close>

definition decoded_header :: "string \<Rightarrow> string" where
  "decoded_header token = text_of (base64url_decode (takeWhile (\<lambda>c. c \<noteq> CHR ''.'') token))"

definition decoded_claims :: "string \<Rightarrow> string" where
  "decoded_claims token = text_of (base64url_decode (takeWhile (\<lambda>c. c \<noteq> CHR ''.'') (drop 1 (dropWhile (\<lambda>c. c \<noteq> CHR ''.'') token))))"

lemma decoded_parts:
  "decoded_header (base64url_encode (bytes_of h) @ CHR ''.'' # base64url_encode (bytes_of p) @ CHR ''.'' # r) = h"
  "decoded_claims (base64url_encode (bytes_of h) @ CHR ''.'' # base64url_encode (bytes_of p) @ CHR ''.'' # r) = p"
proof -
  note d = base64_plain
  have dw: "dropWhile (\<lambda>c. c \<noteq> CHR ''.'') (base64url_encode (bytes_of h) @ CHR ''.'' # ys) = CHR ''.'' # ys" for ys
    by (rule dropWhile_upto[OF d])
  show "decoded_header (base64url_encode (bytes_of h) @ CHR ''.'' # base64url_encode (bytes_of p) @ CHR ''.'' # r) = h"
    "decoded_claims (base64url_encode (bytes_of h) @ CHR ''.'' # base64url_encode (bytes_of p) @ CHR ''.'' # r) = p"
        unfolding decoded_header_def decoded_claims_def takeWhile_upto(1)[OF d] dw
    by (simp_all add: takeWhile_upto(1)[OF d] bytes_read_back)
qed

lemma whole_seconds: "(0 :: int) < k \<Longrightarrow> n div k * k \<le> n \<and> n < (n div k + 1) * k"
proof -
  assume k: "0 < k"
  have "n = n div k * k + n mod k" "(n div k + 1) * k = n div k * k + k" by (simp_all add: distrib_right)
  moreover have "0 \<le> n mod k" "n mod k < k" using k by simp_all
  ultimately show ?thesis by linarith
qed


text \<open>A key with a quotation mark and a backslash, and stand-ins for the digests.\<close>

definition toy_crypto :: Crypto where
  "toy_crypto = \<lparr>cr_hmac256 = (\<lambda>k m. take 2 m), cr_hmac512 = (\<lambda>k m. take 2 m), cr_sha256 = take 2, cr_encode64 = (\<lambda>s. s),
     cr_decode64 = (\<lambda>s. s), cr_es256 = (\<lambda>k m. Some ''sig'')\<rparr>"

definition coinbase_sample :: LiveConnector where
  "coinbase_sample = mk_LiveConnector COINBASE [CHR ''k'', quote, backslash] ''pem'' ''https://api.coinbase.com/v3''
     \<lparr>rp_max_attempts = 3, rp_backoff_ms = 0\<rparr> [] []"


end
