(* ===== verification/Rest_Client.thy ===== *)
theory Rest_Client
  imports Request_Signing
begin

text \<open>
  \<^verbatim>\<open>core/common/rest_client.hpp\<close>: requests over the one libcurl handle of a thread. libcurl is not in the
  repository. As its manual says, an option of a handle keeps its value for the transfers that follow; the transfer
  itself is an argument. \<open>rc_performed\<close> lists the handle as each \<open>curl_easy_perform\<close> found it.
\<close>

section \<open>The handle\<close>

datatype curl_option =
    Opt_Url string | Opt_HttpGet | Opt_Post | Opt_CustomRequest string | Opt_PostFields "string option"
  | Opt_PostFieldSize int | Opt_HttpHeader "string list" | Opt_Timeout int | Opt_ConnectTimeout int
  | Opt_KeepAlive | Opt_FollowLocation

record CurlHandle =
  ch_url :: string
  ch_post :: bool
  ch_custom_request :: "string option"
  ch_post_fields :: "string option"
  ch_post_field_size :: int
  ch_headers :: "string list"
  ch_timeout :: int
  ch_connect_timeout :: int
  ch_keep_alive :: bool
  ch_follow_location :: bool

definition easy_init :: CurlHandle where
  "easy_init = \<lparr>ch_url = [], ch_post = False, ch_custom_request = None, ch_post_fields = None, ch_post_field_size = -1,
     ch_headers = [], ch_timeout = 0, ch_connect_timeout = 300, ch_keep_alive = False, ch_follow_location = False\<rparr>"

text \<open>Setting the fields of a post selects that method, as \<open>CURLOPT_POST\<close> does.\<close>

fun setopt :: "curl_option \<Rightarrow> CurlHandle \<Rightarrow> CurlHandle" where
  "setopt (Opt_Url u) h = h\<lparr>ch_url := u\<rparr>"
| "setopt Opt_HttpGet h = h\<lparr>ch_post := False\<rparr>"
| "setopt Opt_Post h = h\<lparr>ch_post := True\<rparr>"
| "setopt (Opt_CustomRequest m) h = h\<lparr>ch_custom_request := Some m\<rparr>"
| "setopt (Opt_PostFields b) h = h\<lparr>ch_post := True, ch_post_fields := b\<rparr>"
| "setopt (Opt_PostFieldSize n) h = h\<lparr>ch_post_field_size := n\<rparr>"
| "setopt (Opt_HttpHeader hs) h = h\<lparr>ch_headers := hs\<rparr>"
| "setopt (Opt_Timeout n) h = h\<lparr>ch_timeout := n\<rparr>"
| "setopt (Opt_ConnectTimeout n) h = h\<lparr>ch_connect_timeout := n\<rparr>"
| "setopt Opt_KeepAlive h = h\<lparr>ch_keep_alive := True\<rparr>"
| "setopt Opt_FollowLocation h = h\<lparr>ch_follow_location := True\<rparr>"

text \<open>The method in the request line, and the body.\<close>

definition request_method :: "CurlHandle \<Rightarrow> string" where
  "request_method h = (case ch_custom_request h of Some m \<Rightarrow> m | None \<Rightarrow> if ch_post h then ''POST'' else ''GET'')"

definition request_body :: "CurlHandle \<Rightarrow> string" where
  "request_body h = (if ch_post h then (case ch_post_fields h of None \<Rightarrow> [] | Some b \<Rightarrow> take (nat (ch_post_field_size h)) b) else [])"

section \<open>The client\<close>

type_synonym mock_transport = "string \<Rightarrow> string \<Rightarrow> string \<Rightarrow> string list \<Rightarrow> HttpResponse"

record RestClient =
  rc_mock :: "mock_transport option"
  rc_handle :: "CurlHandle option"
  rc_performed :: "CurlHandle list"

definition rest_init :: RestClient where
  "rest_init = \<lparr>rc_mock = None, rc_handle = Some easy_init, rc_performed = []\<rparr>"

definition set_mock_transport :: "mock_transport \<Rightarrow> RestClient \<Rightarrow> RestClient" where
  "set_mock_transport handler c = c\<lparr>rc_mock := Some handler\<rparr>"

definition clear_mock_transport :: "RestClient \<Rightarrow> RestClient" where
  "clear_mock_transport c = c\<lparr>rc_mock := None\<rparr>"

text \<open>A transfer answers the status when libcurl reports success, and what the write callback collected.\<close>

type_synonym 'w transfer = "CurlHandle \<Rightarrow> 'w \<Rightarrow> int option \<times> string \<times> 'w"

definition perform_options :: "string list \<Rightarrow> curl_option list" where
  "perform_options headers = (if headers = [] then [] else [Opt_HttpHeader headers]) @
     [Opt_Timeout 10, Opt_ConnectTimeout 5, Opt_KeepAlive, Opt_FollowLocation]"

definition perform :: "'w transfer \<Rightarrow> string list \<Rightarrow> CurlHandle \<Rightarrow> RestClient \<times> 'w \<Rightarrow> HttpResponse \<times> RestClient \<times> 'w" where
  "perform tr headers h = (\<lambda>(c, w).
     let h = fold setopt (perform_options headers) h in
     case tr h w of (status, body, w) \<Rightarrow>
       (\<lparr>hr_status = (case status of None \<Rightarrow> 0 | Some n \<Rightarrow> n), hr_body = body\<rparr>,
        c\<lparr>rc_handle := Some (if headers = [] then h else setopt (Opt_HttpHeader []) h),
          rc_performed := rc_performed c @ [h]\<rparr>, w))"

definition client_call :: "'w transfer \<Rightarrow> string \<Rightarrow> string \<Rightarrow> string \<Rightarrow> string list \<Rightarrow> curl_option list \<Rightarrow>
    RestClient \<times> 'w \<Rightarrow> HttpResponse \<times> RestClient \<times> 'w" where
  "client_call tr method url body headers options = (\<lambda>(c, w).
     case rc_mock c of
       Some mock \<Rightarrow> (mock method url body headers, c, w)
     | None \<Rightarrow> (case rc_handle c of
         None \<Rightarrow> (\<lparr>hr_status = 0, hr_body = []\<rparr>, c, w)
       | Some h \<Rightarrow> perform tr headers (fold setopt options h) (c, w)))"

definition http_get :: "'w transfer \<Rightarrow> string \<Rightarrow> string list \<Rightarrow> RestClient \<times> 'w \<Rightarrow> HttpResponse \<times> RestClient \<times> 'w" where
  "http_get tr url headers = client_call tr ''GET'' url [] headers [Opt_Url url, Opt_HttpGet]"

definition http_post :: "'w transfer \<Rightarrow> string \<Rightarrow> string \<Rightarrow> string list \<Rightarrow> RestClient \<times> 'w \<Rightarrow> HttpResponse \<times> RestClient \<times> 'w" where
  "http_post tr url body headers = client_call tr ''POST'' url body headers
     [Opt_Url url, Opt_Post, Opt_PostFields (Some body), Opt_PostFieldSize (int (length body))]"

definition http_put :: "'w transfer \<Rightarrow> string \<Rightarrow> string \<Rightarrow> string list \<Rightarrow> RestClient \<times> 'w \<Rightarrow> HttpResponse \<times> RestClient \<times> 'w" where
  "http_put tr url body headers = client_call tr ''PUT'' url body headers
     [Opt_Url url, Opt_CustomRequest ''PUT'', Opt_PostFields (Some body), Opt_PostFieldSize (int (length body))]"

definition http_del :: "'w transfer \<Rightarrow> string \<Rightarrow> string list \<Rightarrow> RestClient \<times> 'w \<Rightarrow> HttpResponse \<times> RestClient \<times> 'w" where
  "http_del tr url headers = client_call tr ''DELETE'' url [] headers
     [Opt_Url url, Opt_CustomRequest ''DELETE'', Opt_PostFields None, Opt_PostFieldSize 0]"

definition env_var :: "(string \<Rightarrow> string option) \<Rightarrow> string \<Rightarrow> string" where
  "env_var env name = (case env name of None \<Rightarrow> [] | Some v \<Rightarrow> v)"

section \<open>What goes out\<close>

datatype http_request =
    Req_Get string "string list" | Req_Post string string "string list" | Req_Put string string "string list"
  | Req_Del string "string list"

fun run_request :: "'w transfer \<Rightarrow> http_request \<Rightarrow> RestClient \<times> 'w \<Rightarrow> RestClient \<times> 'w" where
  "run_request tr (Req_Get u hs) s = snd (http_get tr u hs s)"
| "run_request tr (Req_Post u b hs) s = snd (http_post tr u b hs s)"
| "run_request tr (Req_Put u b hs) s = snd (http_put tr u b hs s)"
| "run_request tr (Req_Del u hs) s = snd (http_del tr u hs s)"

text \<open>The method, address, body and headers the caller asks for, and those on the wire.\<close>

fun asked_method :: "http_request \<Rightarrow> string" where
  "asked_method (Req_Get u hs) = ''GET''" | "asked_method (Req_Post u b hs) = ''POST''"
| "asked_method (Req_Put u b hs) = ''PUT''" | "asked_method (Req_Del u hs) = ''DELETE''"

fun asked :: "http_request \<Rightarrow> string \<times> string \<times> string list" where
  "asked (Req_Get u hs) = (u, [], hs)" | "asked (Req_Post u b hs) = (u, b, hs)"
| "asked (Req_Put u b hs) = (u, b, hs)" | "asked (Req_Del u hs) = (u, [], hs)"

definition on_wire :: "CurlHandle \<Rightarrow> string \<times> string \<times> string list" where
  "on_wire h = (ch_url h, request_body h, ch_headers h)"

definition custom_method :: "string option \<Rightarrow> http_request \<Rightarrow> string option" where
  "custom_method cm r = (case r of Req_Put u b hs \<Rightarrow> Some ''PUT'' | Req_Del u hs \<Rightarrow> Some ''DELETE'' | _ \<Rightarrow> cm)"

fun wire_methods :: "string option \<Rightarrow> http_request list \<Rightarrow> string list" where
  "wire_methods cm [] = []"
| "wire_methods cm (r # rs) =
     (let cm = custom_method cm r in (case cm of None \<Rightarrow> asked_method r | Some m \<Rightarrow> m) # wire_methods cm rs)"

lemma perform_effect:
  assumes "perform tr hs h (c, w) = (r, c', w')" and "ch_headers h = []" and "rc_mock c = None"
  shows "\<exists>g h'. rc_performed c' = rc_performed c @ [g] \<and> rc_handle c' = Some h' \<and> rc_mock c' = None \<and> ch_headers h' = [] \<and>
    on_wire g = (ch_url h, request_body h, hs) \<and> request_method g = request_method h \<and>
    ch_custom_request h' = ch_custom_request h"
proof -
  let ?g = "fold setopt (perform_options hs) h" and ?h' = "if hs = [] then fold setopt (perform_options hs) h
    else setopt (Opt_HttpHeader []) (fold setopt (perform_options hs) h)"
  have "rc_performed c' = rc_performed c @ [?g] \<and> rc_handle c' = Some ?h' \<and> rc_mock c' = None"
    using assms by (auto simp: perform_def Let_def split: prod.splits)
  moreover have "ch_headers ?h' = [] \<and> on_wire ?g = (ch_url h, request_body h, hs) \<and> request_method ?g = request_method h \<and>
      ch_custom_request ?h' = ch_custom_request h"
    using assms(2)
    by (cases "hs = []") (simp_all add: perform_options_def on_wire_def request_body_def request_method_def cong: option.case_cong)
  ultimately show ?thesis by blast
qed

lemma request_effect:
  assumes "rc_mock c = None" and "rc_handle c = Some h" and "ch_headers h = []" and "run_request tr q (c, w) = (c', w')"
  shows "\<exists>g h'. rc_performed c' = rc_performed c @ [g] \<and> rc_handle c' = Some h' \<and> rc_mock c' = None \<and> ch_headers h' = [] \<and>
    on_wire g = asked q \<and> ch_custom_request h' = custom_method (ch_custom_request h) q \<and>
    request_method g = (case custom_method (ch_custom_request h) q of None \<Rightarrow> asked_method q | Some m \<Rightarrow> m)"
proof -
  obtain opts hs where e: "\<exists>r. perform tr hs (fold setopt opts h) (c, w) = (r, c', w')" "ch_headers (fold setopt opts h) = []"
    "(ch_url (fold setopt opts h), request_body (fold setopt opts h), hs) = asked q"
    "ch_custom_request (fold setopt opts h) = custom_method (ch_custom_request h) q"
    "ch_post (fold setopt opts h) = (asked_method q \<noteq> ''GET'')"
  proof (cases q)
    case (Req_Get u hs)
    then show ?thesis using assms that[of hs "[Opt_Url u, Opt_HttpGet]"]
      by (auto simp: http_get_def client_call_def custom_method_def request_body_def snd_def split: prod.splits)
  next
    case (Req_Post u b hs)
    then show ?thesis using assms that[of hs "[Opt_Url u, Opt_Post, Opt_PostFields (Some b), Opt_PostFieldSize (int (length b))]"]
      by (auto simp: http_post_def client_call_def custom_method_def request_body_def snd_def split: prod.splits)
  next
    case (Req_Put u b hs)
    then show ?thesis using assms that[of hs "[Opt_Url u, Opt_CustomRequest ''PUT'', Opt_PostFields (Some b), Opt_PostFieldSize (int (length b))]"]
      by (auto simp: http_put_def client_call_def custom_method_def request_body_def snd_def split: prod.splits)
  next
    case (Req_Del u hs)
    then show ?thesis using assms that[of hs "[Opt_Url u, Opt_CustomRequest ''DELETE'', Opt_PostFields None, Opt_PostFieldSize 0]"]
      by (auto simp: http_del_def client_call_def custom_method_def request_body_def snd_def split: prod.splits)
  qed
  from e(1) obtain r where p: "perform tr hs (fold setopt opts h) (c, w) = (r, c', w')" by blast
  have m: "request_method (fold setopt opts h) = (case custom_method (ch_custom_request h) q of None \<Rightarrow> asked_method q | Some m \<Rightarrow> m)"
    unfolding request_method_def e(4,5) by (cases q) (auto simp: custom_method_def split: option.splits)
  show ?thesis using perform_effect[OF p e(2) assms(1)] unfolding e(3,4) m by blast
qed

lemma requests_effect:
  assumes "rc_mock c = None" and "rc_handle c = Some h" and "ch_headers h = []" and "fold (run_request tr) qs (c, w) = (c', w')"
  shows "map on_wire (rc_performed c') = map on_wire (rc_performed c) @ map asked qs \<and>
    map request_method (rc_performed c') = map request_method (rc_performed c) @ wire_methods (ch_custom_request h) qs"
  using assms
proof (induction qs arbitrary: c h w)
  case (Cons q qs)
  obtain c1 w1 where s: "run_request tr q (c, w) = (c1, w1)" by fastforce
  from request_effect[OF Cons.prems(1-3) s] obtain g h1 where e: "rc_performed c1 = rc_performed c @ [g]"
    "rc_handle c1 = Some h1" "rc_mock c1 = None" "ch_headers h1 = []" "on_wire g = asked q"
    "ch_custom_request h1 = custom_method (ch_custom_request h) q"
    "request_method g = (case custom_method (ch_custom_request h) q of None \<Rightarrow> asked_method q | Some m \<Rightarrow> m)" by blast
  from Cons.prems(4) s have "fold (run_request tr) qs (c1, w1) = (c', w')" by simp
  from Cons.IH[OF e(3,2,4) this] e show ?case by (simp add: Let_def)
qed simp

text \<open>
  Every request of a thread reaches libcurl with the address, the body and the headers its caller gave. The
  method is the caller's until the thread sends its first \<open>PUT\<close> or \<open>DELETE\<close>; from then on the request line of every
  \<open>GET\<close> and \<open>POST\<close> names the last of these two, since \<open>CURLOPT_CUSTOMREQUEST\<close> is never reset.
\<close>

theorem requests_of_a_thread:
  "map on_wire (rc_performed (fst (fold (run_request tr) qs (rest_init, w)))) = map asked qs \<and>
   map request_method (rc_performed (fst (fold (run_request tr) qs (rest_init, w)))) = wire_methods None qs"
proof -
  obtain c' w' where f: "fold (run_request tr) qs (rest_init, w) = (c', w')" by fastforce
  have "rc_mock rest_init = None" "rc_handle rest_init = Some easy_init" "ch_headers easy_init = []"
    "rc_performed rest_init = []" "ch_custom_request easy_init = None"
    by (simp_all add: rest_init_def easy_init_def)
  with requests_effect[OF this(1-3) f] f show ?thesis by simp
qed



section \<open>The client behind the connectors\<close>

definition client_http :: "'w transfer \<Rightarrow> ('w \<Rightarrow> int) \<Rightarrow> (RestClient \<times> 'w) Http" where
  "client_http tr clock_ns = \<lparr>ht_get = http_get tr, ht_post = http_post tr, ht_put = http_put tr, ht_del = http_del tr,
     ht_now_ms = (\<lambda>(c, w). clock_ns w div 1000000), ht_now_ns = (\<lambda>(c, w). clock_ns w)\<rparr>"

end
