(* ===== verification/Venue_Rest.thy ===== *)
theory Venue_Rest
  imports Request_Signing Symbol_Mapper Position_Ledger
begin

text \<open>
  What the five venue connectors share: the operations of the JSON library they use beside those of the feeds,
  the requests they send, the way a table of a snapshot is filled, and the formats of numbers and parameters.
  A call answers its result, or the exception it throws, and the world after it: an exception that is thrown while
  a response is read comes after the request. No connector catches one; it ends the engine in \<^verbatim>\<open>main\<close>.
\<close>

section \<open>Responses\<close>

text \<open>
  \<open>jr_at\<close> and \<open>jr_nth\<close> are the subscripts of a constant value, \<open>jr_members\<close> the iteration over an object,
  \<open>jr_double\<close> is \<open>get<double>\<close>, and \<open>jr_value_\<dots>\<close> is \<open>value(key, default)\<close> with a default of that type.
\<close>

record 'j json_rest = "'j json_lib" +
  jr_at :: "string \<Rightarrow> 'j \<Rightarrow> exn + 'j"
  jr_nth :: "nat \<Rightarrow> 'j \<Rightarrow> exn + 'j"
  jr_members :: "'j \<Rightarrow> (string \<times> 'j) list"
  jr_is_number :: "'j \<Rightarrow> bool"
  jr_is_float :: "'j \<Rightarrow> bool"
  jr_double :: "'j \<Rightarrow> exn + double"
  jr_value_double :: "string \<Rightarrow> double \<Rightarrow> 'j \<Rightarrow> exn + double"
  jr_value_i64 :: "string \<Rightarrow> int \<Rightarrow> 'j \<Rightarrow> exn + int"
  jr_value_u64 :: "string \<Rightarrow> u64 \<Rightarrow> 'j \<Rightarrow> exn + u64"

record ('j, 'w) VenueApi =
  va_json :: "'j json_rest"
  va_http :: "'w Http"
  va_crypto :: Crypto

type_synonym ('a, 'w) call = "(exn + 'a) \<times> 'w"

text \<open>
  The package as its manual describes it, on a table of parsed texts: a value of another type makes \<open>value\<close> throw, and
  so does anything that is no object. The witnesses use it.
\<close>

definition typed_value :: "(json \<Rightarrow> 'a option) \<Rightarrow> string \<Rightarrow> 'a \<Rightarrow> json \<Rightarrow> exn + 'a" where
  "typed_value get key d j = (case j of
     JObject kvs \<Rightarrow> (case map_of kvs key of None \<Rightarrow> Inr d | Some v \<Rightarrow> thrown (get v))
   | _ \<Rightarrow> Inl Json_type_error)"

definition table_rest :: "(string \<times> json) list \<Rightarrow> json json_rest" where
  "table_rest t = json_lib.extend ((table_json t)\<lparr>jl_value_string := typed_value get_string, jl_value_bool := typed_value get_bool\<rparr>)
     \<lparr>jr_at = (\<lambda>key j. thrown (json_find key j)),
      jr_nth = (\<lambda>i j. case j of JArray js \<Rightarrow> if i < length js then Inr (js ! i) else Inl Json_type_error | _ \<Rightarrow> Inl Json_type_error),
      jr_members = (\<lambda>j. case j of JObject kvs \<Rightarrow> kvs | _ \<Rightarrow> []),
      jr_is_number = (\<lambda>j. get_double j \<noteq> None), jr_is_float = (\<lambda>j. case j of JFloat d \<Rightarrow> True | _ \<Rightarrow> False),
      jr_double = (\<lambda>j. thrown (get_double j)), jr_value_double = typed_value get_double,
      jr_value_i64 = typed_value get_int64, jr_value_u64 = typed_value get_uint64\<rparr>"

text \<open>The first element of a non-empty array under a key, where there is one.\<close>

definition first_at :: "'j json_rest \<Rightarrow> string \<Rightarrow> 'j \<Rightarrow> exn + 'j option" where
  "first_at L key json = and_then (jr_at L key json) (\<lambda>arr.
     Inr (if \<not> jl_is_array L arr \<or> jl_elems L arr = [] then None else Some (hd (jl_elems L arr))))"

definition number_or_zero :: "'j json_rest \<Rightarrow> string \<Rightarrow> 'j \<Rightarrow> exn + double" where
  "number_or_zero L key = jr_value_double L key 0"

definition string_or_empty :: "'j json_rest \<Rightarrow> string \<Rightarrow> 'j \<Rightarrow> exn + string" where
  "string_or_empty L key = jl_value_string L key []"

definition side_value :: "'j json_rest \<Rightarrow> string \<Rightarrow> string \<Rightarrow> string \<Rightarrow> 'j \<Rightarrow> exn + Side" where
  "side_value L key buy sell item =
     and_then (jl_value_string L key buy item) (\<lambda>s. Inr (if s = sell then ASK else BID))"

section \<open>Requests\<close>

definition auth_get :: "('j, 'w) VenueApi \<Rightarrow> LiveConnector \<Rightarrow> string \<Rightarrow> 'w \<Rightarrow> HttpResponse \<times> 'w" where
  "auth_get V c path w =
     ht_get (va_http V) (lc_api_url c @ path)
       (auth_headers (va_crypto V) c ''GET'' path [] [] (ht_now_ms (va_http V) w) (ht_now_ns (va_http V) w)) w"

definition auth_post :: "('j, 'w) VenueApi \<Rightarrow> LiveConnector \<Rightarrow> string \<Rightarrow> string \<Rightarrow> string \<Rightarrow> 'w \<Rightarrow> HttpResponse \<times> 'w" where
  "auth_post V c path payload key w =
     ht_post (va_http V) (lc_api_url c @ path) payload
       (auth_headers (va_crypto V) c ''POST'' path payload key (ht_now_ms (va_http V) w) (ht_now_ns (va_http V) w)) w"

text \<open>What becomes of a response: an error by its status, or what its body says.\<close>

definition http_error :: "HttpResponse \<Rightarrow> exn + ConnectorResult" where
  "http_error r = Inr (classify_http_error (hr_status r))"

definition on_response :: "(HttpResponse \<Rightarrow> exn + ConnectorResult) \<Rightarrow> 'a \<Rightarrow> (string \<Rightarrow> exn + ConnectorResult \<times> 'a) \<Rightarrow>
    HttpResponse \<Rightarrow> exn + ConnectorResult \<times> 'a" where
  "on_response classify x f r =
     (if \<not> http_ok r then and_then (classify r) (\<lambda>e. Inr (e, x)) else f (hr_body r))"

definition ok_or_unknown :: "bool \<times> 'a \<Rightarrow> exn + ConnectorResult \<times> 'a" where
  "ok_or_unknown = (\<lambda>(ok, x). Inr (if ok then C_OK else ERROR_UNKNOWN, x))"

section \<open>Tables of a snapshot\<close>

text \<open>The loop that reads the items of a response into a table of fixed size.\<close>

fun append_items :: "nat \<Rightarrow> ('i \<Rightarrow> exn + 'r) \<Rightarrow> 'i list \<Rightarrow> 'r list \<Rightarrow> exn + ConnectorResult \<times> 'r list" where
  "append_items cap rd [] t = Inr (C_OK, t)"
| "append_items cap rd (x # xs) t =
     and_then (rd x) (\<lambda>r. case ft_push cap r t of
       (fits, t) \<Rightarrow> if fits then append_items cap rd xs t else Inr (ERROR_UNKNOWN, t))"

definition append_array :: "'j json_rest \<Rightarrow> nat \<Rightarrow> ('j \<Rightarrow> exn + 'r) \<Rightarrow> 'j \<Rightarrow> 'r list \<Rightarrow> exn + ConnectorResult \<times> 'r list" where
  "append_array L cap rd arr t =
     (if \<not> jl_is_array L arr then Inr (ERROR_UNKNOWN, t) else append_items cap rd (jl_elems L arr) t)"

definition set_table :: "('r list \<Rightarrow> 's) \<Rightarrow> exn + ConnectorResult \<times> 'r list \<Rightarrow> exn + ConnectorResult \<times> 's" where
  "set_table put x = and_then x (\<lambda>(res, t). Inr (res, put t))"

text \<open>One request of a snapshot, one whose absence is accepted, and the next one after a success.\<close>

definition fetch_table :: "(HttpResponse \<Rightarrow> exn + ConnectorResult) \<Rightarrow> ('w \<Rightarrow> HttpResponse \<times> 'w) \<Rightarrow>
    (string \<Rightarrow> 's \<Rightarrow> exn + ConnectorResult \<times> 's) \<Rightarrow> 's \<Rightarrow> 'w \<Rightarrow> (ConnectorResult \<times> 's, 'w) call" where
  "fetch_table classify request rd s w = (case request w of
     (r, w) \<Rightarrow> (on_response classify s (\<lambda>body. rd body s) r, w))"

definition fetch_optional :: "(HttpResponse \<Rightarrow> exn + ConnectorResult) \<Rightarrow> ('w \<Rightarrow> HttpResponse \<times> 'w) \<Rightarrow>
    (string \<Rightarrow> 's \<Rightarrow> exn + ConnectorResult \<times> 's) \<Rightarrow> 's \<Rightarrow> 'w \<Rightarrow> (ConnectorResult \<times> 's, 'w) call" where
  "fetch_optional classify request rd s w = (case request w of
     (r, w) \<Rightarrow> (if not_offered r then Inr (C_OK, s) else on_response classify s (\<lambda>body. rd body s) r, w))"

definition and_fetch :: "(ConnectorResult \<times> 's, 'w) call \<Rightarrow> ('s \<Rightarrow> 'w \<Rightarrow> (ConnectorResult \<times> 's, 'w) call) \<Rightarrow>
    (ConnectorResult \<times> 's, 'w) call" where
  "and_fetch m f = (case m of (x, w) \<Rightarrow> (case x of
     Inl e \<Rightarrow> (Inl e, w) | Inr (res, s) \<Rightarrow> if res = C_OK then f s w else (Inr (res, s), w)))"

definition max_open_orders :: nat where "max_open_orders = 128"
definition max_fills :: nat where "max_fills = 512"
definition max_balances :: nat where "max_balances = 64"
definition max_positions :: nat where "max_positions = 64"

definition mk_ReconciledOrder :: ReconciledOrder where
  "mk_ReconciledOrder = \<lparr>ro_client_order_id = 0, ro_venue_order_id = [], ro_symbol = [], ro_side = BID, ro_quantity = 0,
     ro_filled_quantity = 0, ro_price = 0, ro_state = PENDING\<rparr>"

definition mk_ReconciledFill :: ReconciledFill where
  "mk_ReconciledFill = \<lparr>rf_client_order_id = 0, rf_venue_order_id = [], rf_venue_trade_id = [], rf_symbol = [],
     rf_exchange = UNKNOWN, rf_side = BID, rf_quantity = 0, rf_price = 0, rf_notional = 0, rf_fee = 0, rf_fee_asset = [],
     rf_exchange_ts_ns = 0\<rparr>"

definition mk_ReconciledPosition :: ReconciledPosition where
  "mk_ReconciledPosition = \<lparr>rp_symbol = [], rp_position_side = [], rp_quantity = 0, rp_avg_entry_price = 0, rp_leverage = 0,
     rp_opened_at_ns = 0\<rparr>"

text \<open>Text of the buffers of 64, 16 and 8 characters.\<close>

definition id_text :: "string \<Rightarrow> string" where "id_text = copy_cstr 64 []"
definition symbol_text :: "string \<Rightarrow> string" where "symbol_text = copy_cstr 16 []"
definition side_text :: "string \<Rightarrow> string" where "side_text = copy_cstr 8 []"

section \<open>Numbers\<close>

text \<open>The format \<open>%g\<close> with \<open>p\<close> significant digits; the connectors use 15.\<close>

definition general_pos :: "nat \<Rightarrow> rat \<Rightarrow> string" where
  "general_pos p q =
     (let x = dec_exp q; m = rne (q / 10 powi (x - (int p - 1)));
          (m, x) = (if m = 10 ^ p then (10 ^ (p - 1), x + 1) else (m, x));
          ds = show_nat m
      in if - 4 \<le> x \<and> x < int p then
           (if 0 \<le> x then with_fraction (take (nat x + 1) ds) (drop (nat x + 1) ds)
            else with_fraction ''0'' (replicate (nat (- x - 1)) (CHR ''0'') @ ds))
         else with_fraction (take 1 ds) (drop 1 ds) @ show_exponent x)"

fun general_double :: "nat \<Rightarrow> double \<Rightarrow> string" where
  "general_double p NaN = ''nan''"
| "general_double p PInf = ''inf''"
| "general_double p NInf = ''-inf''"
| "general_double p NZero = ''-0''"
| "general_double p (Fin q) = (if q = 0 then ''0'' else if q < 0 then CHR ''-'' # general_pos p (- q) else general_pos p q)"

definition format_decimal :: "double \<Rightarrow> string" where "format_decimal = general_double 15"

lemma general_six: "general_double 6 d = show_double d"
  by (cases d) (simp_all add: general_pos_def show_pos_def cong: if_cong)

text \<open>\<open>static_cast<int64_t>\<close> and products of times wrap on the machines in use.\<close>

definition wrap_i64 :: "int \<Rightarrow> int" where "wrap_i64 n = sint (word_of_int n :: 64 word)"

text \<open>The text of an object whose values are strings, as the connectors concatenate it.\<close>

fun member_texts :: "(string \<times> string) list \<Rightarrow> string" where
  "member_texts [] = []"
| "member_texts [(k, v)] = quoted k @ '':'' @ quoted v"
| "member_texts ((k, v) # m # ms) = quoted k @ '':'' @ quoted v @ '','' @ member_texts (m # ms)"

definition object_text :: "(string \<times> string) list \<Rightarrow> string" where
  "object_text kvs = ''{'' @ member_texts kvs @ ''}''"

text \<open>For the witnesses: every request is answered with the same response; the world counts the requests.\<close>

definition sample_api :: "int \<Rightarrow> string \<Rightarrow> (string \<times> json) list \<Rightarrow> (json, nat) VenueApi" where
  "sample_api status body t = \<lparr>va_json = table_rest t,
     va_http = \<lparr>ht_get = (\<lambda>u hs n. (\<lparr>hr_status = status, hr_body = body\<rparr>, Suc n)),
       ht_post = (\<lambda>u b hs n. (\<lparr>hr_status = status, hr_body = body\<rparr>, Suc n)),
       ht_put = (\<lambda>u b hs n. (\<lparr>hr_status = status, hr_body = body\<rparr>, Suc n)),
       ht_del = (\<lambda>u hs n. (\<lparr>hr_status = status, hr_body = body\<rparr>, Suc n)),
       ht_now_ms = int, ht_now_ns = int\<rparr>,
     va_crypto = toy_crypto\<rparr>"

lemma sample_api_http [simp]:
  "ht_get (va_http (sample_api status body t)) u hs n = (\<lparr>hr_status = status, hr_body = body\<rparr>, Suc n)"
  "ht_post (va_http (sample_api status body t)) u b hs n = (\<lparr>hr_status = status, hr_body = body\<rparr>, Suc n)"
  "ht_put (va_http (sample_api status body t)) u b hs n = (\<lparr>hr_status = status, hr_body = body\<rparr>, Suc n)"
  "ht_del (va_http (sample_api status body t)) u hs n = (\<lparr>hr_status = status, hr_body = body\<rparr>, Suc n)"
  "ht_now_ms (va_http (sample_api status body t)) = int" "ht_now_ns (va_http (sample_api status body t)) = int"
  "va_json (sample_api status body t) = table_rest t"
  by (simp_all add: sample_api_def)

lemma table_rest_simps [simp]:
  "jl_parse (table_rest t) = (\<lambda>s. case map_of t s of Some j \<Rightarrow> j | None \<Rightarrow> JDiscarded)"
  "jl_is_discarded (table_rest t) = (\<lambda>j. j = JDiscarded)" "jl_elems (table_rest t) = json_elems" "jl_find (table_rest t) = json_find"
  "jl_is_array (table_rest t) = (\<lambda>j. case j of JArray _ \<Rightarrow> True | _ \<Rightarrow> False)"
  "jl_is_object (table_rest t) = (\<lambda>j. case j of JObject _ \<Rightarrow> True | _ \<Rightarrow> False)"
  "jl_is_string (table_rest t) = (\<lambda>j. case j of JString _ \<Rightarrow> True | _ \<Rightarrow> False)"
  "jl_is_unsigned (table_rest t) = (\<lambda>j. case j of JUint _ \<Rightarrow> True | _ \<Rightarrow> False)"
  "jl_is_integer (table_rest t) = (\<lambda>j. case j of JInt _ \<Rightarrow> True | _ \<Rightarrow> False)"
  "jl_string (table_rest t) = (\<lambda>j. thrown (get_string j))" "jl_u64 (table_rest t) = (\<lambda>j. thrown (get_uint64 j))"
  "jl_i64 (table_rest t) = (\<lambda>j. thrown (get_int64 j))" "jr_double (table_rest t) = (\<lambda>j. thrown (get_double j))"
  "jl_value_string (table_rest t) = typed_value get_string" "jl_value_bool (table_rest t) = typed_value get_bool"
  "jr_value_double (table_rest t) = typed_value get_double" "jr_value_i64 (table_rest t) = typed_value get_int64"
  "jr_value_u64 (table_rest t) = typed_value get_uint64" "jr_at (table_rest t) = (\<lambda>key j. thrown (json_find key j))"
  "jr_nth (table_rest t) = (\<lambda>i j. case j of JArray js \<Rightarrow> if i < length js then Inr (js ! i) else Inl Json_type_error | _ \<Rightarrow> Inl Json_type_error)"
  "jr_members (table_rest t) = (\<lambda>j. case j of JObject kvs \<Rightarrow> kvs | _ \<Rightarrow> [])"
  "jr_is_number (table_rest t) = (\<lambda>j. get_double j \<noteq> None)"
  by (simp_all add: table_rest_def table_json_def repo_json_def json_lib.defs)

section \<open>Texts that JSON does not escape\<close>

definition clean_text :: "string \<Rightarrow> bool" where "clean_text s \<longleftrightarrow> list_all (\<lambda>c. escape c = [c]) s"

lemma clean_text_simps [simp]: "clean_text []" "clean_text (c # s) \<longleftrightarrow> escape c = [c] \<and> clean_text s"
  "clean_text (s @ t) \<longleftrightarrow> clean_text s \<and> clean_text t"
  by (simp_all add: clean_text_def)

lemma clean_escape: "clean_text s \<Longrightarrow> concat (map escape s) = s"
  by (induction s) auto

lemma clean_plain_key: "clean_text s \<Longrightarrow> plain_key s"
  by (induction s) (auto simp: plain_key_def escape_def quote_def backslash_def split: if_splits)

lemma dump_strings: "list_all (\<lambda>(k, v). clean_text v) kvs \<Longrightarrow>
    dump_members (map (\<lambda>(k, v). (k, JString v)) kvs) = member_texts kvs"
  by (induction kvs rule: member_texts.induct) (auto simp: clean_escape)

lemma storable_strings: "list_all (\<lambda>(k, v). clean_text k) kvs \<Longrightarrow> storable_members (map (\<lambda>(k, v). (k, JString v)) kvs)"
  "read_back_members (map (\<lambda>(k, v). (k, JString v)) kvs) = map (\<lambda>(k, v). (k, JString v)) kvs"
  by (induction kvs) (auto simp: clean_plain_key)

lemma object_text_reads_back:
  assumes "list_all (\<lambda>(k, v). clean_text k \<and> clean_text v) kvs"
  shows "parse_json (object_text kvs) = Inr (JObject (map (\<lambda>(k, v). (k, JString v)) kvs))"
proof -
  let ?j = "JObject (map (\<lambda>(k, v). (k, JString v)) kvs)"
  have "list_all (\<lambda>(k, v). clean_text v) kvs" "list_all (\<lambda>(k, v). clean_text k) kvs"
    using assms by (auto simp: list_all_iff)
  then have "object_text kvs = dump ?j" "storable ?j" "read_back ?j = ?j"
    by (simp_all add: object_text_def dump_strings storable_strings)
  then show ?thesis using dump_parses[of ?j] by simp
qed

text \<open>Numbers and order ids are such texts.\<close>

lemma clean_digit: "is_digit c \<Longrightarrow> escape c = [c]"
proof -
  assume d: "is_digit c"
  have l: "list_all (\<lambda>n. escape (char_of n) = [char_of n]) [48..<58]" by code_simp
  have "code c \<in> set [48..<58]" unfolding set_upt using d by (simp add: is_digit_def)
  with l[unfolded list_all_iff] have "escape (char_of (code c)) = [char_of (code c)]" by (rule bspec)
  then show ?thesis by (simp add: code_def)
qed

lemma clean_digits: "list_all is_digit s \<Longrightarrow> clean_text s"
  by (induction s) (auto simp: clean_digit)

lemma digits_show_nat: "list_all is_digit (show_nat n)"
proof (cases "0 \<le> n")
  case True
  then show ?thesis using show_nat_digits[of n] by (simp add: list_all_iff)
next
  case False
  then show ?thesis by (subst show_nat.simps) simp
qed

lemma clean_show_nat [simp]: "clean_text (show_nat n)"
  by (intro clean_digits digits_show_nat)

lemma clean_sub: "clean_text s \<Longrightarrow> clean_text (take n s)" "clean_text s \<Longrightarrow> clean_text (drop n s)"
  "clean_text s \<Longrightarrow> clean_text (strip_zeros s)"
  unfolding clean_text_def list_all_iff strip_zeros_def
  by (auto dest: in_set_takeD in_set_dropD set_dropWhileD)

lemma clean_zeros: "clean_text (replicate n (CHR ''0''))"
  by (simp add: clean_text_def list_all_iff clean_digit is_digit_def code_def)

lemma clean_signs [simp]: "escape (CHR ''.'') = ''.''" "escape (CHR ''-'') = ''-''" "escape (CHR ''e'') = ''e''"
  "escape (CHR ''+'') = ''+''" "escape (CHR ''0'') = ''0''"
  by code_simp+

lemma clean_general_pos: "clean_text (general_pos p q)"
  by (auto simp: general_pos_def Let_def with_fraction_def show_exponent_def clean_sub clean_zeros split: prod.splits)

lemma clean_format_decimal [simp]: "clean_text (format_decimal d)"
proof (cases d)
  case (Fin q)
  then show ?thesis by (simp add: format_decimal_def clean_general_pos)
qed (simp_all add: format_decimal_def, code_simp+)

lemma clean_decimal [simp]: "clean_text (decimal n)"
proof (induction n rule: decimal.induct)
  case (1 n)
  have "is_digit (char_of (48 + m))" if "m < 10" for m :: nat using that by (simp add: is_digit_def code_def)
  then have "escape (char_of (48 + m)) = [char_of (48 + m)]" if "m < 10" for m :: nat using that by (simp add: clean_digit)
  with 1 show ?case by (subst decimal.simps) auto
qed

section \<open>What a table holds after a success\<close>

fun read_all :: "('i \<Rightarrow> exn + 'r) \<Rightarrow> 'i list \<Rightarrow> exn + 'r list" where
  "read_all rd [] = Inr []"
| "read_all rd (x # xs) = and_then (rd x) (\<lambda>r. and_then (read_all rd xs) (\<lambda>rs. Inr (r # rs)))"

lemma append_items_ok:
  "append_items cap rd xs t = Inr (C_OK, t') \<longleftrightarrow>
   (\<exists>rs. read_all rd xs = Inr rs \<and> t' = t @ rs \<and> (xs = [] \<or> length t + length xs \<le> cap))"
proof (induction xs arbitrary: t)
  case (Cons x xs)
  show ?case
  proof (cases "rd x")
    case (Inr r)
    show ?thesis
    proof (cases "cap \<le> length t")
      case False
      then show ?thesis using Cons[of "t @ [r]"] Inr
        by (cases "read_all rd xs") (auto simp: ft_push_def)
    qed (auto simp: Inr ft_push_def)
  qed simp
qed auto

lemma read_all_length: "read_all rd xs = Inr rs \<Longrightarrow> length rs = length xs"
  by (induction xs arbitrary: rs) (auto simp: and_then_Inr)

lemma set_table_ok: "set_table put x = Inr (C_OK, s) \<longleftrightarrow> (\<exists>t. x = Inr (C_OK, t) \<and> s = put t)"
  by (auto simp: set_table_def and_then_Inr)

lemma append_array_ok:
  "append_array L cap rd arr t = Inr (C_OK, t') \<longleftrightarrow> jl_is_array L arr \<and>
   (\<exists>rs. read_all rd (jl_elems L arr) = Inr rs \<and> t' = t @ rs \<and>
      (jl_elems L arr = [] \<or> length t + length (jl_elems L arr) \<le> cap))"
  by (simp add: append_array_def append_items_ok)

lemma on_response_ok:
  assumes "\<And>r. classify r \<noteq> Inr C_OK"
  shows "on_response classify x f r = Inr (C_OK, y) \<longleftrightarrow> http_ok r \<and> f (hr_body r) = Inr (C_OK, y)"
  using assms by (auto simp: on_response_def and_then_Inr)

lemma http_error_fails: "http_error r \<noteq> Inr C_OK"
  by (simp add: http_error_def classify_http_error_def)

lemma and_fetch_ok:
  "and_fetch m f = (Inr (C_OK, s), w) \<longleftrightarrow> (\<exists>s1 w1. m = (Inr (C_OK, s1), w1) \<and> f s1 w1 = (Inr (C_OK, s), w))"
  by (auto simp: and_fetch_def split: prod.splits sum.splits if_splits)

lemma fetch_table_ok:
  assumes "\<And>r. classify r \<noteq> Inr C_OK"
  shows "fetch_table classify request rd s w = (Inr (C_OK, s'), w') \<longleftrightarrow>
    (\<exists>r. request w = (r, w') \<and> http_ok r \<and> rd (hr_body r) s = Inr (C_OK, s'))"
  by (auto simp: fetch_table_def on_response_ok[OF assms] split: prod.splits)

lemma fetch_optional_ok:
  assumes "\<And>r. classify r \<noteq> Inr C_OK"
  shows "fetch_optional classify request rd s w = (Inr (C_OK, s'), w') \<longleftrightarrow>
    (\<exists>r. request w = (r, w') \<and> (if not_offered r then s' = s else http_ok r \<and> rd (hr_body r) s = Inr (C_OK, s')))"
  by (auto simp: fetch_optional_def on_response_ok[OF assms] split: prod.splits if_splits)

text \<open>The rows of a table are what its reader makes of the items of an array of the body, all of them and in their order.\<close>

definition reports :: "'j json_rest \<Rightarrow> ('j \<Rightarrow> exn + 'j) \<Rightarrow> ('j \<Rightarrow> exn + 'r) \<Rightarrow> string \<Rightarrow> 'r list \<Rightarrow> bool" where
  "reports L sel rd body rows \<longleftrightarrow> (\<exists>arr. sel (jl_parse L body) = Inr arr \<and> jl_is_array L arr \<and> read_all rd (jl_elems L arr) = Inr rows)"

lemma append_reports:
  assumes "and_then (sel (jl_parse L body)) (\<lambda>arr. set_table put (append_array L cap rd arr [])) = Inr (C_OK, s)"
  shows "\<exists>rows. s = put rows \<and> reports L sel rd body rows \<and> length rows \<le> cap"
proof -
  from assms obtain arr rows where a: "sel (jl_parse L body) = Inr arr" "jl_is_array L arr"
    "read_all rd (jl_elems L arr) = Inr rows" "s = put rows" "jl_elems L arr = [] \<or> length (jl_elems L arr) \<le> cap"
    by (auto simp: and_then_Inr set_table_ok append_array_ok)
  have "length rows \<le> cap" using read_all_length[OF a(3)] a(5) by auto
  with a show ?thesis by (auto simp: reports_def)
qed

section \<open>A connector as the venue of its base class\<close>

text \<open>
  The state of the venue is the world and the exception that ended the engine, if there was one; then no call reaches
  the world any more. What the base class records after an exception is not what the program does, which is gone.
\<close>

definition run_call :: "'a \<Rightarrow> ('w \<Rightarrow> (ConnectorResult \<times> 'a, 'w) call) \<Rightarrow> exn option \<times> 'w \<Rightarrow>
    ConnectorResult \<times> 'a \<times> exn option \<times> 'w" where
  "run_call x f = (\<lambda>(ended, w). case ended of
     Some e \<Rightarrow> (ERROR_INVALID_ORDER, x, ended, w)
   | None \<Rightarrow> (case f w of (y, w) \<Rightarrow> (case y of Inl e \<Rightarrow> (ERROR_INVALID_ORDER, x, Some e, w) | Inr (res, y) \<Rightarrow> (res, y, None, w))))"

text \<open>Some posts of one body to one address, and nothing else.\<close>

inductive posts :: "'w Http \<Rightarrow> string \<Rightarrow> string \<Rightarrow> 'w \<Rightarrow> 'w \<Rightarrow> bool" for H url body w where
  posts_none: "posts H url body w w"
| posts_more: "posts H url body w w1 \<Longrightarrow> ht_post H url body hs w1 = (r, w2) \<Longrightarrow> posts H url body w w2"

lemma retries_keep:
  assumes "\<And>s. P s \<Longrightarrow> P (snd (fn s))" and "P s"
  shows "P (snd (with_retries p fn s))"
proof -
  have "P s \<Longrightarrow> P (snd (retry_from m fn a s))" for m a
    using assms(1)
  proof (induction m fn a s rule: retry_from.induct)
    case (1 m fn a s)
    obtain r s1 where f: "fn s = (r, s1)" by fastforce
    have k: "P s1" using 1(3)[OF 1(2)] f by simp
    show ?case
    proof (cases "a \<le> m \<and> r \<noteq> C_OK \<and> is_retryable r \<and> a \<noteq> m")
      case True
      then show ?thesis using 1(1)[OF _ f[symmetric] _ _ k 1(3)] f by (subst retry_from.simps) auto
    next
      case False
      then show ?thesis using k 1(2) f by (subst retry_from.simps) auto
    qed
  qed
  with assms(2) show ?thesis by (simp add: with_retries_def)
qed

locale body_venue =
  fixes H :: "'w Http" and url :: string and body :: "Order \<Rightarrow> string option"
    and submit :: "Order \<Rightarrow> string \<Rightarrow> string \<Rightarrow> 'w \<Rightarrow> (ConnectorResult \<times> string, 'w) call"
  assumes one_post: "submit o1 key vid w = (x, w') \<Longrightarrow>
    w' = w \<or> (\<exists>b hs r. body o1 = Some b \<and> ht_post H url b hs w = (r, w'))"
begin

lemma attempt_posts:
  assumes "body o1 = Some b" and "posts H url b w (snd v)"
  shows "posts H url b w (snd (snd (snd (run_call vid (submit o1 key vid) v))))"
proof (cases v)
  case (Pair ended w1)
  obtain x w2 where s: "submit o1 key vid w1 = (x, w2)" by fastforce
  from one_post[OF s] assms Pair have "posts H url b w w2" by (auto intro: posts_more)
  with s Pair assms(2) show ?thesis by (auto simp: run_call_def split: option.splits sum.splits)
qed

lemma attempt_none:
  assumes "body o1 = None"
  shows "snd (snd (snd (run_call vid (submit o1 key vid) v))) = snd v"
proof (cases v)
  case (Pair ended w1)
  obtain x w2 where s: "submit o1 key vid w1 = (x, w2)" by fastforce
  from one_post[OF s] assms Pair s show ?thesis by (auto simp: run_call_def split: option.splits sum.splits)
qed

lemma submission_keeps:
  assumes "vn_submit vn = (\<lambda>o1 key vid. run_call vid (submit o1 key vid))"
    and "\<And>vid key v. P (snd v) \<Longrightarrow> P (snd (snd (snd (run_call vid (submit o1 key vid) v))))" and "P w"
  shows "P (snd (snd (snd (submit_order io io' vn o1 (c, ended, w)))))"
proof -
  have "P (snd (snd (snd (with_retries p (\<lambda>(vid, v). vn_submit vn o1 key vid v) ([], ended, w)))))" for p key
    by (rule retries_keep[where P = "\<lambda>s. P (snd (snd s))"]) (auto simp: assms(1,3) intro!: assms(2))
  then have "P w2" if "with_retries p (\<lambda>(vid, v). vn_submit vn o1 key vid v) ([], ended, w) = (res, vid, e, w2)" for p key res vid e w2
    using that by (metis snd_conv)
  with assms(3) show ?thesis
    by (auto simp: submit_order_def Let_def split: prod.splits if_splits)
qed

lemma submission_posts:
  assumes "vn_submit vn = (\<lambda>o1 key vid. run_call vid (submit o1 key vid))" and "body o1 = Some b"
  shows "posts H url b w (snd (snd (snd (submit_order io io' vn o1 (c, ended, w)))))"
  by (rule submission_keeps[OF assms(1), where P = "posts H url b w"]) (simp_all add: attempt_posts[OF assms(2)] posts_none)

lemma submission_refused:
  assumes "vn_submit vn = (\<lambda>o1 key vid. run_call vid (submit o1 key vid))" and "body o1 = None"
  shows "snd (snd (snd (submit_order io io' vn o1 (c, ended, w)))) = w"
  by (rule submission_keeps[OF assms(1), where P = "\<lambda>v. v = w"]) (simp_all add: attempt_none[OF assms(2)])

end

end
