(* ===== verification/Binance_Connector.thy ===== *)
theory Binance_Connector
  imports Venue_Rest
begin

text \<open>
  \<^verbatim>\<open>core/execution/binance/binance_connector.cpp\<close>: the orders and the reconciliation snapshot of Binance. The functions
  that \<^verbatim>\<open>binance_futures_connector.cpp\<close> repeats word for word are used for both.
\<close>

section \<open>Parameters\<close>

definition unreserved :: "char \<Rightarrow> bool" where
  "unreserved ch = (let n = code ch in 65 \<le> n \<and> n \<le> 90 \<or> 97 \<le> n \<and> n \<le> 122 \<or> 48 \<le> n \<and> n \<le> 57 \<or>
     ch = CHR ''-'' \<or> ch = CHR ''_'' \<or> ch = CHR ''.'' \<or> ch = CHR ''~'')"

definition hex_upper :: "nat \<Rightarrow> char" where "hex_upper n = ''0123456789ABCDEF'' ! n"

fun encode_component :: "string \<Rightarrow> string" where
  "encode_component [] = []"
| "encode_component (ch # s) =
     (if unreserved ch then ch # encode_component s
      else CHR ''%'' # hex_upper (code ch div 16 mod 16) # hex_upper (code ch mod 16) # encode_component s)"

fun percent_encode_params :: "(string \<times> string) list \<Rightarrow> string" where
  "percent_encode_params [] = []"
| "percent_encode_params [(k, v)] = encode_component k @ ''='' @ encode_component v"
| "percent_encode_params ((k, v) # p # ps) =
     encode_component k @ ''='' @ encode_component v @ ''&'' @ percent_encode_params (p # ps)"

definition signed_url :: "Crypto \<Rightarrow> LiveConnector \<Rightarrow> string \<Rightarrow> (string \<times> string) list \<Rightarrow> string" where
  "signed_url cr c path params =
     (let payload = percent_encode_params params in
      lc_api_url c @ path @ ''?'' @ payload @ ''&signature='' @ hmac_sha256_hex cr c payload)"

definition signed_get :: "('j, 'w) VenueApi \<Rightarrow> LiveConnector \<Rightarrow> string \<Rightarrow> (string \<times> string) list \<Rightarrow> 'w \<Rightarrow> HttpResponse \<times> 'w" where
  "signed_get V c path params = ht_get (va_http V) (signed_url (va_crypto V) c path params) (binance_api_headers c)"

definition signed_post :: "('j, 'w) VenueApi \<Rightarrow> LiveConnector \<Rightarrow> string \<Rightarrow> (string \<times> string) list \<Rightarrow> 'w \<Rightarrow> HttpResponse \<times> 'w" where
  "signed_post V c path params = ht_post (va_http V) (signed_url (va_crypto V) c path params) [] (binance_api_headers c)"

definition signed_del :: "('j, 'w) VenueApi \<Rightarrow> LiveConnector \<Rightarrow> string \<Rightarrow> (string \<times> string) list \<Rightarrow> 'w \<Rightarrow> HttpResponse \<times> 'w" where
  "signed_del V c path params = ht_del (va_http V) (signed_url (va_crypto V) c path params) (binance_api_headers c)"

definition timestamp :: "('j, 'w) VenueApi \<Rightarrow> 'w \<Rightarrow> string \<times> string" where
  "timestamp V w = (''timestamp'', show_int (ht_now_ms (va_http V) w))"

section \<open>Orders\<close>

definition side_string :: "Side \<Rightarrow> string" where
  "side_string side = (if side = BID then ''BUY'' else ''SELL'')"

definition tif_string :: "TimeInForce \<Rightarrow> string" where
  "tif_string tif = (case tif of GTC \<Rightarrow> ''GTC'' | IOC \<Rightarrow> ''IOC'' | FOK \<Rightarrow> ''FOK'' | GTX \<Rightarrow> ''GTX'')"

definition binance_validate :: "Order \<Rightarrow> bool" where
  "binance_validate order \<longleftrightarrow> o_symbol order \<noteq> [] \<and> \<not> o_quantity order \<le> 0 \<and> o_type order \<noteq> STOP_LIMIT \<and>
     \<not> (o_type order \<noteq> MARKET \<and> o_price order \<le> 0)"

definition build_client_order_id :: "string \<Rightarrow> u64 \<Rightarrow> string" where
  "build_client_order_id key cid = (if key \<noteq> [] then key else ''TRT-'' @ decimal (unat cid))"

definition binance_symbol :: "string \<Rightarrow> exn + string" where
  "binance_symbol symbol = lift_std (map_for_exchange BINANCE symbol)"

text \<open>\<open>None\<close> when the order is refused.\<close>

definition binance_order_params :: "Order \<Rightarrow> string \<Rightarrow> exn + (string \<times> string) list option" where
  "binance_order_params order client_id =
     (if \<not> binance_validate order then Inr None
      else and_then (binance_symbol (o_symbol order)) (\<lambda>symbol.
        let common = [(''symbol'', symbol), (''side'', side_string (o_side order)), (''newClientOrderId'', client_id)];
            quantity = (''quantity'', format_decimal (o_quantity order)); price = (''price'', format_decimal (o_price order))
        in Inr (Some (common @
          (if o_type order = MARKET then [(''type'', ''MARKET''), quantity]
           else if o_tif order = GTX then [(''type'', ''LIMIT_MAKER''), quantity, price]
           else [(''type'', ''LIMIT''), (''timeInForce'', tif_string (o_tif order)), quantity, price])))))"

section \<open>Responses\<close>

definition json_string :: "'j json_rest \<Rightarrow> string \<Rightarrow> 'j \<Rightarrow> exn + string" where
  "json_string L key json = (case jl_find L key json of
     None \<Rightarrow> Inr []
   | Some x \<Rightarrow>
       if jl_is_string L x then jl_string L x
       else if jl_is_unsigned L x then and_then (jl_u64 L x) (\<lambda>n. Inr (show_nat (uint n)))
       else if jl_is_integer L x then and_then (jl_i64 L x) (\<lambda>n. Inr (show_int n))
       else if jr_is_float L x then and_then (jr_double L x) (\<lambda>d. Inr (format_decimal d))
       else Inr [])"

text \<open>\<open>strtod\<close>: no number, or the nearest one, which may be infinite or zero.\<close>

definition strtod :: "string \<Rightarrow> double option" where
  "strtod s =
     (case split_sign (dropWhile is_space s) of (neg, t) \<Rightarrow>
        let word = map to_lower t; nearest = (\<lambda>q. pack neg (if neg then - q else q)) in
        if take 3 word = ''inf'' then Some (inf_of neg)
        else if take 3 word = ''nan'' then Some NaN
        else case (if take 2 word = ''0x'' then hex_float_value (drop 2 t) else None) of
          Some q \<Rightarrow> Some (nearest q)
        | None \<Rightarrow> map_option nearest (decimal_value t))"

lemma strtod_stod: "stod s = Inr d \<Longrightarrow> strtod s = Some d"
  by (auto simp: stod_def strtod_def ranged_def Let_def split: prod.splits option.splits if_splits)

definition json_number :: "'j json_rest \<Rightarrow> string \<Rightarrow> 'j \<Rightarrow> exn + double" where
  "json_number L key json = (case jl_find L key json of
     None \<Rightarrow> Inr 0
   | Some x \<Rightarrow>
       if jr_is_number L x then jr_double L x
       else if jl_is_string L x then
         and_then (jl_string L x) (\<lambda>s. Inr (case strtod s of None \<Rightarrow> 0 | Some d \<Rightarrow> d))
       else Inr 0)"

definition status_error :: "int \<Rightarrow> ConnectorResult" where
  "status_error status =
     (if status = 401 \<or> status = 403 then AUTH_FAILED else if status = 429 then ERROR_RATE_LIMIT
      else if status \<ge> 500 then ERROR_REST_FAILURE else if status \<ge> 400 then ERROR_INVALID_ORDER else ERROR_UNKNOWN)"

definition binance_error :: "'j json_rest \<Rightarrow> HttpResponse \<Rightarrow> exn + ConnectorResult" where
  "binance_error L r =
     (let json = jl_parse L (hr_body r) in
      and_then (if jl_is_discarded L json then Inr [] else json_string L ''msg'' json) (\<lambda>message.
        Inr (if contains_text ''insufficient'' message \<or> contains_text ''Insufficient'' message then ERROR_INSUFFICIENT_FUNDS
             else status_error (hr_status r))))"

text \<open>
  The id, or that of the first of two nested responses. \<open>n\<close> bounds the nesting, which a text cannot exceed by its length.
\<close>

fun order_id_value :: "nat \<Rightarrow> 'j json_rest \<Rightarrow> 'j \<Rightarrow> string \<Rightarrow> exn + bool \<times> string" where
  "order_id_value 0 L json vid = Inr (False, vid)"
| "order_id_value (Suc n) L json vid =
     (let nested = (case jl_find L ''newOrderResponse'' json of
            Some x \<Rightarrow> order_id_value n L x vid
          | None \<Rightarrow> (case jl_find L ''amendedOrder'' json of
              Some x \<Rightarrow> order_id_value n L x vid | None \<Rightarrow> Inr (False, vid)))
      in if \<not> jl_is_object L json then Inr (False, vid)
         else case jl_find L ''orderId'' json of
           None \<Rightarrow> nested
         | Some x \<Rightarrow>
             if jl_is_unsigned L x then and_then (jl_u64 L x) (\<lambda>k. Inr (True, show_nat (uint k)))
             else if jl_is_integer L x then and_then (jl_i64 L x) (\<lambda>k. Inr (True, show_int k))
             else if jl_is_string L x then and_then (jl_string L x) (\<lambda>s. Inr (True, s))
             else nested)"

definition binance_parse_order_id :: "'j json_rest \<Rightarrow> string \<Rightarrow> string \<Rightarrow> exn + bool \<times> string" where
  "binance_parse_order_id L body vid =
     (let json = jl_parse L body in
      if jl_is_discarded L json then Inr (False, vid) else order_id_value (Suc (length body)) L json vid)"

definition binance_order_status :: "string \<Rightarrow> OrderState" where
  "binance_order_status raw =
     (if raw = ''NEW'' \<or> raw = ''PENDING_NEW'' then OPEN
      else if raw = ''PARTIALLY_FILLED'' then PARTIALLY_FILLED
      else if raw = ''FILLED'' then FILLED
      else if raw = ''CANCELED'' \<or> raw = ''PENDING_CANCEL'' then CANCELED
      else if raw = ''REJECTED'' \<or> raw = ''EXPIRED'' \<or> raw = ''EXPIRED_IN_MATCH'' then REJECTED
      else PENDING)"

definition binance_parse_query :: "'j json_rest \<Rightarrow> int \<Rightarrow> string \<Rightarrow> FillUpdate \<Rightarrow> exn + bool \<times> FillUpdate" where
  "binance_parse_query L now_ns body status =
     (let json = jl_parse L body in
      if jl_is_discarded L json then Inr (False, status)
      else
        and_then (json_number L ''executedQty'' json) (\<lambda>filled.
        and_then (json_number L ''avgPrice'' json) (\<lambda>avg.
        and_then (if avg \<le> 0 \<and> filled > 0
                  then and_then (json_number L ''cummulativeQuoteQty'' json) (\<lambda>quot. Inr (quot / filled))
                  else Inr avg) (\<lambda>price.
        and_then (string_or_empty L ''status'' json) (\<lambda>state.
          Inr (True, status\<lparr>fu_cumulative_filled_qty := filled, fu_fill_qty := filled, fu_avg_fill_price := price,
            fu_fill_price := price, fu_new_state := binance_order_status state, fu_local_ts_ns := now_ns\<rparr>))))))"

definition binance_parse_cancel :: "'j json_rest \<Rightarrow> string \<Rightarrow> exn + bool" where
  "binance_parse_cancel L body =
     (let json = jl_parse L body in
      if jl_is_discarded L json then Inr False
      else if jl_find L ''cancelResult'' json \<noteq> None then
        and_then (string_or_empty L ''cancelResult'' json) (\<lambda>s. Inr (s = ''SUCCESS''))
      else if jl_find L ''orderId'' json \<noteq> None then Inr True
      else and_then (string_or_empty L ''status'' json) (\<lambda>s. Inr (s = ''CANCELED'')))"

definition parse_client_order_id :: "string \<Rightarrow> u64" where
  "parse_client_order_id s =
     foldl (\<lambda>v ch. if is_digit ch then v * 10 + of_nat (digit_value ch) else v) 0 s"

section \<open>Operations\<close>

definition spot_error :: "('j, 'w) VenueApi \<Rightarrow> HttpResponse \<Rightarrow> exn + ConnectorResult" where
  "spot_error V = binance_error (va_json V)"

definition binance_submit :: "('j, 'w) VenueApi \<Rightarrow> LiveConnector \<Rightarrow> Order \<Rightarrow> string \<Rightarrow> string \<Rightarrow> 'w \<Rightarrow>
    (ConnectorResult \<times> string, 'w) call" where
  "binance_submit V c order key vid w =
     (if \<not> binance_validate order then (Inr (ERROR_INVALID_ORDER, vid), w)
      else case binance_order_params order (build_client_order_id key (o_client_order_id order)) of
        Inl e \<Rightarrow> (Inl e, w)
      | Inr None \<Rightarrow> (Inr (ERROR_INVALID_ORDER, vid), w)
      | Inr (Some params) \<Rightarrow>
          (case signed_post V c ''/api/v3/order'' (params @ [(''newOrderRespType'', ''FULL''), timestamp V w]) w of (r, w) \<Rightarrow>
            (on_response (spot_error V) vid (\<lambda>body.
               and_then (binance_parse_order_id (va_json V) body vid) ok_or_unknown) r, w)))"

definition binance_cancel :: "('j, 'w) VenueApi \<Rightarrow> LiveConnector \<Rightarrow> VenueOrderEntry \<Rightarrow> 'w \<Rightarrow> (ConnectorResult \<times> unit, 'w) call" where
  "binance_cancel V c entry w = (case binance_symbol (ve_symbol entry) of
     Inl e \<Rightarrow> (Inl e, w)
   | Inr symbol \<Rightarrow>
       (case signed_del V c ''/api/v3/order'' [(''symbol'', symbol), (''orderId'', ve_venue_order_id entry), timestamp V w] w of (r, w) \<Rightarrow>
         (on_response (spot_error V) () (\<lambda>body.
            and_then (binance_parse_cancel (va_json V) body) (\<lambda>ok. ok_or_unknown (ok, ()))) r, w)))"

definition binance_replace :: "('j, 'w) VenueApi \<Rightarrow> LiveConnector \<Rightarrow> VenueOrderEntry \<Rightarrow> Order \<Rightarrow> string \<Rightarrow> 'w \<Rightarrow>
    (ConnectorResult \<times> string, 'w) call" where
  "binance_replace V c entry replacement vid w =
     (if \<not> binance_validate replacement \<or> ve_symbol entry \<noteq> o_symbol replacement then (Inr (ERROR_INVALID_ORDER, vid), w)
      else case binance_symbol (ve_symbol entry) of
        Inl e \<Rightarrow> (Inl e, w)
      | Inr symbol \<Rightarrow>
         (case binance_order_params replacement (build_client_order_id
              (make_idempotency_key (o_client_order_id replacement) c) (o_client_order_id replacement)) of
            Inl e \<Rightarrow> (Inl e, w)
          | Inr None \<Rightarrow> (Inr (ERROR_INVALID_ORDER, vid), w)
          | Inr (Some params) \<Rightarrow>
              (case signed_post V c ''/api/v3/order/cancelReplace''
                  ([(''symbol'', symbol), (''cancelOrderId'', ve_venue_order_id entry), (''cancelReplaceMode'', ''STOP_ON_FAILURE'')]
                   @ params @ [(''newOrderRespType'', ''FULL''), timestamp V w]) w of (r, w) \<Rightarrow>
                (on_response (spot_error V) vid (\<lambda>body.
                   and_then (binance_parse_cancel (va_json V) body) (\<lambda>canceled.
                     if \<not> canceled \<and> \<not> contains_text ''newOrderResponse'' body then Inr (ERROR_UNKNOWN, vid)
                     else and_then (binance_parse_order_id (va_json V) body vid) ok_or_unknown)) r, w))))"

definition binance_query :: "('j, 'w) VenueApi \<Rightarrow> LiveConnector \<Rightarrow> VenueOrderEntry \<Rightarrow> FillUpdate \<Rightarrow> 'w \<Rightarrow>
    (ConnectorResult \<times> FillUpdate, 'w) call" where
  "binance_query V c entry status w = (case binance_symbol (ve_symbol entry) of
     Inl e \<Rightarrow> (Inl e, w)
   | Inr symbol \<Rightarrow>
       (case signed_get V c ''/api/v3/order'' [(''symbol'', symbol), (''orderId'', ve_venue_order_id entry), timestamp V w] w of (r, w) \<Rightarrow>
         (on_response (spot_error V) status (\<lambda>body.
            and_then (binance_parse_query (va_json V) (ht_now_ns (va_http V) w) body status) ok_or_unknown) r, w)))"

definition binance_cancel_all :: "('j, 'w) VenueApi \<Rightarrow> LiveConnector \<Rightarrow> string \<Rightarrow> 'w \<Rightarrow> (ConnectorResult \<times> unit, 'w) call" where
  "binance_cancel_all V c symbol w =
     (if symbol = [] then (Inr (ERROR_INVALID_ORDER, ()), w)
      else case binance_symbol symbol of
        Inl e \<Rightarrow> (Inl e, w)
      | Inr s \<Rightarrow> (case signed_del V c ''/api/v3/openOrders'' [(''symbol'', s), timestamp V w] w of (r, w) \<Rightarrow>
          (on_response (spot_error V) () (\<lambda>body. let json = jl_parse (va_json V) body in
             ok_or_unknown (\<not> jl_is_discarded (va_json V) json \<and> jl_is_array (va_json V) json, ())) r, w)))"

section \<open>The snapshot\<close>

definition binance_balance :: "'j json_rest \<Rightarrow> 'j \<Rightarrow> exn + ReconciledBalance" where
  "binance_balance L item =
     and_then (string_or_empty L ''asset'' item) (\<lambda>asset.
     and_then (json_number L ''free'' item) (\<lambda>free.
     and_then (json_number L ''locked'' item) (\<lambda>locked.
       Inr \<lparr>rb_asset = symbol_text asset, rb_total = free + locked, rb_available = free\<rparr>)))"

definition binance_append_balances :: "'j json_rest \<Rightarrow> string \<Rightarrow> ReconciliationSnapshot \<Rightarrow> exn + ConnectorResult \<times> ReconciliationSnapshot" where
  "binance_append_balances L body snap =
     (let json = jl_parse L body in
      if jl_is_discarded L json then Inr (ERROR_UNKNOWN, snap)
      else and_then (jr_at L ''balances'' json) (\<lambda>balances.
        set_table (\<lambda>t. snap\<lparr>rs_balances := t\<rparr>) (append_array L max_balances (binance_balance L) balances (rs_balances snap))))"

text \<open>\<open>std::set<std::string>\<close>: the distinct strings in their order by bytes.\<close>

fun text_less :: "string \<Rightarrow> string \<Rightarrow> bool" where
  "text_less s [] = False"
| "text_less [] (d # t) = True"
| "text_less (ch # s) (d # t) = (code ch < code d \<or> ch = d \<and> text_less s t)"

fun set_insert :: "string \<Rightarrow> string list \<Rightarrow> string list" where
  "set_insert x [] = [x]"
| "set_insert x (y # ys) = (if x = y then y # ys else if text_less x y then x # y # ys else y # set_insert x ys)"

definition mapped_symbols :: "VenueOrderMap \<Rightarrow> exn + string list" where
  "mapped_symbols m = for_each_active (\<lambda>entry s. if ve_symbol entry \<noteq> []
     then and_then s (\<lambda>syms. and_then (binance_symbol (ve_symbol entry)) (\<lambda>x. Inr (set_insert x syms))) else s) m (Inr [])"

definition binance_open_order :: "'j json_rest \<Rightarrow> string \<Rightarrow> 'j \<Rightarrow> exn + ReconciledOrder" where
  "binance_open_order L symbol item =
     and_then (json_string L ''clientOrderId'' item) (\<lambda>client_id.
     and_then (json_string L ''orderId'' item) (\<lambda>vid.
     and_then (side_value L ''side'' ''BUY'' ''SELL'' item) (\<lambda>side.
     and_then (json_number L ''origQty'' item) (\<lambda>qty.
     and_then (json_number L ''executedQty'' item) (\<lambda>filled.
     and_then (json_number L ''price'' item) (\<lambda>price.
     and_then (string_or_empty L ''status'' item) (\<lambda>state.
       Inr \<lparr>ro_client_order_id = parse_client_order_id client_id, ro_venue_order_id = id_text vid,
         ro_symbol = symbol_text symbol, ro_side = side, ro_quantity = qty, ro_filled_quantity = filled,
         ro_price = price, ro_state = binance_order_status state\<rparr>)))))))"

text \<open>The loop over the open orders also collects their symbols.\<close>

fun open_orders_loop :: "'j json_rest \<Rightarrow> (string \<Rightarrow> 'j \<Rightarrow> exn + ReconciledOrder) \<Rightarrow> 'j list \<Rightarrow> string list \<Rightarrow>
    ReconciledOrder list \<Rightarrow> exn + ConnectorResult \<times> string list \<times> ReconciledOrder list" where
  "open_orders_loop L rd [] syms t = Inr (C_OK, syms, t)"
| "open_orders_loop L rd (x # xs) syms t =
     and_then (json_string L ''symbol'' x) (\<lambda>symbol.
       let syms = (if symbol \<noteq> [] then set_insert symbol syms else syms) in
       and_then (rd symbol x) (\<lambda>r. case ft_push max_open_orders r t of
         (fits, t) \<Rightarrow> if fits then open_orders_loop L rd xs syms t else Inr (ERROR_UNKNOWN, syms, t)))"

definition binance_append_open_orders ::
  "'j json_rest \<Rightarrow> VenueOrderMap \<Rightarrow> string \<Rightarrow> string list \<times> ReconciliationSnapshot \<Rightarrow>
     exn + ConnectorResult \<times> string list \<times> ReconciliationSnapshot" where
  "binance_append_open_orders L m body = (\<lambda>(_, snap).
     and_then (mapped_symbols m) (\<lambda>syms.
       let json = jl_parse L body in
       if \<not> jl_is_array L json then Inr (ERROR_UNKNOWN, syms, snap)
       else and_then (open_orders_loop L (binance_open_order L) (jl_elems L json) syms (rs_open_orders snap))
         (\<lambda>(res, syms, t). Inr (res, syms, snap\<lparr>rs_open_orders := t\<rparr>))))"

definition binance_fill :: "'j json_rest \<Rightarrow> 'j \<Rightarrow> exn + ReconciledFill" where
  "binance_fill L item =
     and_then (jr_value_u64 L ''orderId'' 0 item) (\<lambda>order_id.
     and_then (jr_value_u64 L ''id'' 0 item) (\<lambda>trade_id.
     and_then (string_or_empty L ''symbol'' item) (\<lambda>symbol.
     and_then (jl_value_bool L ''isBuyer'' True item) (\<lambda>buyer.
     and_then (json_number L ''qty'' item) (\<lambda>qty.
     and_then (json_number L ''price'' item) (\<lambda>price.
     and_then (json_number L ''commission'' item) (\<lambda>fee.
     and_then (string_or_empty L ''commissionAsset'' item) (\<lambda>fee_asset.
     and_then (jr_value_i64 L ''time'' 0 item) (\<lambda>ts.
       Inr \<lparr>rf_client_order_id = order_id, rf_venue_order_id = id_text (show_nat (uint order_id)),
         rf_venue_trade_id = id_text (show_nat (uint trade_id)), rf_symbol = symbol_text symbol, rf_exchange = BINANCE,
         rf_side = (if buyer then BID else ASK), rf_quantity = qty, rf_price = price, rf_notional = qty * price, rf_fee = fee,
         rf_fee_asset = symbol_text fee_asset, rf_exchange_ts_ns = wrap_i64 (ts * 1000000)\<rparr>)))))))))"

definition binance_append_fills :: "'j json_rest \<Rightarrow> string \<Rightarrow> ReconciliationSnapshot \<Rightarrow> exn + ConnectorResult \<times> ReconciliationSnapshot" where
  "binance_append_fills L body snap =
     set_table (\<lambda>t. snap\<lparr>rs_fills := t\<rparr>) (append_array L max_fills (binance_fill L) (jl_parse L body) (rs_fills snap))"

fun fetch_trades :: "(string \<Rightarrow> 'w \<Rightarrow> HttpResponse \<times> 'w) \<Rightarrow> (HttpResponse \<Rightarrow> exn + ConnectorResult) \<Rightarrow>
    (string \<Rightarrow> ReconciliationSnapshot \<Rightarrow> exn + ConnectorResult \<times> ReconciliationSnapshot) \<Rightarrow> string list \<Rightarrow>
    ReconciliationSnapshot \<Rightarrow> 'w \<Rightarrow> (ConnectorResult \<times> ReconciliationSnapshot, 'w) call" where
  "fetch_trades request classify rd [] snap w = (Inr (C_OK, snap), w)"
| "fetch_trades request classify rd (symbol # symbols) snap w =
     and_fetch (fetch_optional classify (request symbol) rd snap w) (fetch_trades request classify rd symbols)"

definition with_symbols :: "('x \<Rightarrow> 's) \<Rightarrow> (ConnectorResult \<times> 'x, 'w) call \<Rightarrow> (ConnectorResult \<times> 's, 'w) call" where
  "with_symbols f m = (case m of (x, w) \<Rightarrow> (and_then x (\<lambda>(res, s). Inr (res, f s)), w))"

definition binance_fetch :: "('j, 'w) VenueApi \<Rightarrow> LiveConnector \<Rightarrow> ReconciliationSnapshot \<Rightarrow> 'w \<Rightarrow>
    (ConnectorResult \<times> ReconciliationSnapshot, 'w) call" where
  "binance_fetch V c snap w =
     (let L = va_json V in
      and_fetch (fetch_table (spot_error V) (\<lambda>w. signed_get V c ''/api/v3/account'' [timestamp V w] w)
        (binance_append_balances L) (rs_clear snap) w) (\<lambda>s w.
      with_symbols snd (and_fetch
        (fetch_table (spot_error V) (\<lambda>w. signed_get V c ''/api/v3/openOrders'' [timestamp V w] w)
          (binance_append_open_orders L (lc_venue_order_map c)) ([], s) w) (\<lambda>(symbols, s) w.
        with_symbols (\<lambda>s. (symbols, s)) (fetch_trades
          (\<lambda>symbol w. signed_get V c ''/api/v3/myTrades'' [(''symbol'', symbol), timestamp V w] w)
          (spot_error V) (binance_append_fills L) symbols s w)))))"

definition binance_venue :: "('j, 'w) VenueApi \<Rightarrow> LiveConnector \<Rightarrow> (exn option \<times> 'w) Venue" where
  "binance_venue V c = \<lparr>vn_submit = (\<lambda>order key vid. run_call vid (binance_submit V c order key vid)),
     vn_cancel = (\<lambda>entry v. case run_call () (binance_cancel V c entry) v of (r, _, v) \<Rightarrow> (r, v)),
     vn_replace = (\<lambda>entry order vid. run_call vid (binance_replace V c entry order vid)),
     vn_query = (\<lambda>entry status. run_call status (binance_query V c entry status)),
     vn_cancel_all = (\<lambda>symbol v. case run_call () (binance_cancel_all V c symbol) v of (r, _, v) \<Rightarrow> (r, v))\<rparr>"

section \<open>The bound on the nesting\<close>

lemma found_smaller: "json_find key j = Some x \<Longrightarrow> size x < size j"
proof (cases j)
  case (JObject kvs)
  assume "json_find key j = Some x"
  then have "(key, x) \<in> set kvs" using JObject by (auto simp: json_find_def dest: map_of_SomeD)
  then have "size x \<le> size_list (size_prod (\<lambda>_. 0) size) kvs"
    by (intro order_trans[OF _ size_list_estimation']) (auto simp: size_prod_simp)
  then show "size x < size j" using JObject by simp
qed (auto simp: json_find_def)

text \<open>A bound above the size of a value changes nothing.\<close>

lemma order_id_value_bound:
  "size j < n \<Longrightarrow> size j < m \<Longrightarrow> order_id_value n (table_rest t) j vid = order_id_value m (table_rest t) j vid"
proof (induction n arbitrary: m j)
  case (Suc n)
  then obtain k where m: "m = Suc k" by (cases m) auto
  have r: "order_id_value n (table_rest t) x vid = order_id_value k (table_rest t) x vid" if "json_find key j = Some x" for key x
    using Suc.IH[of x k] found_smaller[OF that] Suc.prems m by simp
  show ?case unfolding m by (auto simp: Let_def r split: option.splits)
qed simp

section \<open>The query string\<close>

text \<open>How a server reads a form: fields between ampersands, the key before the first equals sign, both decoded.\<close>

fun decode_component :: "string \<Rightarrow> string" where
  "decode_component (ch # p # q # s) =
     (if ch = CHR ''%'' then (case (hex_value p, hex_value q) of
        (Some m, Some n) \<Rightarrow> char_of (16 * m + n) # decode_component s | _ \<Rightarrow> ch # decode_component (p # q # s))
      else ch # decode_component (p # q # s))"
| "decode_component s = s"

definition parse_field :: "string \<Rightarrow> string \<times> string" where
  "parse_field s = (decode_component (takeWhile (\<lambda>ch. ch \<noteq> CHR ''='') s),
     decode_component (drop 1 (dropWhile (\<lambda>ch. ch \<noteq> CHR ''='') s)))"

lemma shorter_rest: "s \<noteq> [] \<Longrightarrow> length (dropWhile P s) - Suc 0 < length s"
  using length_dropWhile_le[of P s] by (cases s) auto

function parse_form :: "string \<Rightarrow> (string \<times> string) list" where
  "parse_form s = (if s = [] then [] else
     parse_field (takeWhile (\<lambda>ch. ch \<noteq> CHR ''&'') s) # parse_form (drop 1 (dropWhile (\<lambda>ch. ch \<noteq> CHR ''&'') s)))"
  by pat_completeness auto
termination by (relation "measure length") (simp_all add: shorter_rest)

declare parse_form.simps [simp del]

lemma hex_upper_value: "n < 16 \<Longrightarrow> hex_value (hex_upper n) = Some n"
proof -
  have "list_all (\<lambda>n. hex_value (hex_upper n) = Some n) [0..<16]" by code_simp
  then show "n < 16 \<Longrightarrow> hex_value (hex_upper n) = Some n" by (auto simp: list_all_iff)
qed

lemma decode_plain: "ch \<noteq> CHR ''%'' \<Longrightarrow> decode_component (ch # s) = ch # decode_component s"
  by (cases s rule: decode_component.cases) auto

lemma unreserved_char: "unreserved ch \<Longrightarrow> ch \<noteq> CHR ''%'' \<and> ch \<noteq> CHR ''&'' \<and> ch \<noteq> CHR ''=''"
proof -
  have "\<not> unreserved (CHR ''%'')" "\<not> unreserved (CHR ''&'')" "\<not> unreserved (CHR ''='')" by code_simp+
  then show "unreserved ch \<Longrightarrow> ch \<noteq> CHR ''%'' \<and> ch \<noteq> CHR ''&'' \<and> ch \<noteq> CHR ''=''" by metis
qed

lemma decode_encode: "decode_component (encode_component s) = s"
proof (induction s)
  case (Cons ch s)
  have "code ch < 256" by (simp add: code_def)
  then have "code ch div 16 mod 16 = code ch div 16" by simp
  moreover have "char_of (16 * (code ch div 16) + code ch mod 16) = ch" by (simp add: code_def)
  ultimately show ?case using Cons unreserved_char[of ch] by (simp add: hex_upper_value decode_plain)
qed simp

lemma encode_no_separator: "CHR ''&'' \<notin> set (encode_component s) \<and> CHR ''='' \<notin> set (encode_component s)"
proof -
  have "list_all (\<lambda>n. hex_upper n \<noteq> CHR ''&'' \<and> hex_upper n \<noteq> CHR ''='') [0..<16]" by code_simp
  then have "hex_upper (n mod 16) \<noteq> CHR ''&'' \<and> hex_upper (n mod 16) \<noteq> CHR ''=''" for n by (simp add: list_all_iff)
  then have "CHR ''&'' \<noteq> hex_upper (n mod 16) \<and> CHR ''='' \<noteq> hex_upper (n mod 16)" for n by metis
  then show ?thesis using unreserved_char by (induction s) auto
qed

lemma field_reads_back: "parse_field (encode_component k @ CHR ''='' # encode_component v) = (k, v)"
proof -
  note n = conjunct2[OF encode_no_separator]
  show ?thesis by (simp add: parse_field_def takeWhile_upto(1)[OF n] dropWhile_upto[OF n] decode_encode)
qed

text \<open>
  C17. Whatever the characters of an order's parameters, a server that splits the query string at its separators and
  decodes the parts gets back exactly the parameters the connector listed, in their order.
\<close>

theorem query_reads_back: "parse_form (percent_encode_params ps) = ps"
proof (induction ps rule: percent_encode_params.induct)
  case (2 k v)
  let ?s = "encode_component k @ CHR ''='' # encode_component v"
  have n: "CHR ''&'' \<notin> set ?s" using encode_no_separator by auto
  have "takeWhile (\<lambda>ch. ch \<noteq> CHR ''&'') ?s = ?s" "dropWhile (\<lambda>ch. ch \<noteq> CHR ''&'') ?s = []"
    using n by (auto simp: takeWhile_eq_all_conv dropWhile_eq_Nil_conv)
  note t = this
  have q: "percent_encode_params [(k, v)] = ?s" by simp
  show ?case unfolding q by (subst parse_form.simps) (simp only: t field_reads_back, simp add: parse_form.simps[of "[]"])
next
  case (3 k v p ps)
  let ?s = "encode_component k @ CHR ''='' # encode_component v"
  have n: "CHR ''&'' \<notin> set ?s" using encode_no_separator by auto
  have q: "percent_encode_params ((k, v) # p # ps) = ?s @ CHR ''&'' # percent_encode_params (p # ps)" by simp
  show ?case unfolding q
    by (subst parse_form.simps) (simp only: takeWhile_upto(1)[OF n] dropWhile_upto[OF n] field_reads_back, simp add: 3)
qed (simp add: parse_form.simps)

section \<open>Order ids\<close>

lemma id_of_digits:
  "foldl (\<lambda>v ch. if is_digit ch then v * 10 + of_nat (digit_value ch) else v) (v :: u64) (decimal n) =
   v * 10 ^ length (decimal n) + of_nat n"
proof (induction n arbitrary: v rule: decimal.induct)
  case (1 n)
  have d: "is_digit (char_of (48 + m))" "digit_value (char_of (48 + m)) = m" if "m < 10" for m :: nat
    using that by (simp_all add: is_digit_def code_def digit_value_def)
  show ?case
  proof (cases "n < 10")
    case True
    then show ?thesis using d[of n] by (simp add: decimal.simps[of n])
  next
    case False
    have "of_nat n = of_nat (n div 10) * 10 + (of_nat (n mod 10) :: u64)"
      by (metis div_mult_mod_eq of_nat_add of_nat_mult of_nat_numeral)
    with False 1[OF False, of v] d[of "n mod 10"] show ?thesis
      by (simp add: decimal.simps[of n] algebra_simps)
  qed
qed

text \<open>
  An open order that this connector once submitted is recognised: the id the venue reports back, read by its digits,
  is the client order id it was submitted with, for all of the \<open>2\<^sup>6\<^sup>4\<close> ids.
\<close>

theorem client_id_reads_back:
  "parse_client_order_id (build_client_order_id (make_idempotency_key cid c) cid) = cid"
proof -
  have "filter is_digit ''TRT-'' = []" by code_simp
  moreover have "filter is_digit (CHR ''-'' # exchange_to_string ex) = []" for ex by (cases ex; simp; code_simp)
  ultimately have t: "filter is_digit ''TRT-'' = []" "filter is_digit (CHR ''-'' # exchange_to_string ex) = []" for ex by blast+
  have f: "foldl (\<lambda>v ch. if is_digit ch then v * 10 + of_nat (digit_value ch) else v) (v :: u64) s = v"
    if "filter is_digit s = []" for v s using that by (induction s arbitrary: v) (auto split: if_splits)
  have "build_client_order_id (make_idempotency_key cid c) cid = ''TRT-'' @ decimal (unat cid) @ CHR ''-'' # exchange_to_string (lc_exchange c)"
    by (simp add: build_client_order_id_def make_idempotency_key_def)
  then show ?thesis unfolding parse_client_order_id_def
    by (simp only: foldl_append f[OF t(1)] f[OF t(2)] id_of_digits) simp
qed

end
