(* ===== verification/Binance_Futures.thy ===== *)
theory Binance_Futures
  imports Binance_Connector
begin

text \<open>
  \<^verbatim>\<open>core/execution/binance/binance_futures_connector.cpp\<close>: USD-M futures at Binance. Before an order goes out its price
  and quantity are rounded down to the steps of the instrument, whose filters are fetched once and kept. The
  connector changes with its cache, so it is part of the world of a call. \<open>long double\<close> is the 80-bit format
  of x87, with a significand of 64 bits.
\<close>

section \<open>State\<close>

record SymbolFilters =
  ff_valid :: bool
  ff_min_price :: double
  ff_max_price :: double
  ff_tick_size :: double
  ff_min_qty :: double
  ff_max_qty :: double
  ff_step_size :: double
  ff_min_market_qty :: double
  ff_max_market_qty :: double
  ff_market_step_size :: double
  ff_min_notional :: double
  ff_trigger_protect :: double

definition mk_SymbolFilters :: SymbolFilters where
  "mk_SymbolFilters = \<lparr>ff_valid = False, ff_min_price = 0, ff_max_price = 0, ff_tick_size = 0, ff_min_qty = 0, ff_max_qty = 0,
     ff_step_size = 0, ff_min_market_qty = 0, ff_max_market_qty = 0, ff_market_step_size = 0, ff_min_notional = 0,
     ff_trigger_protect = 0\<rparr>"

record FuturesConnector =
  fc_base :: LiveConnector
  fc_mark_price :: double
  fc_recv_window_ms :: u32
  fc_symbol_filters :: "string \<rightharpoonup> SymbolFilters"

definition mk_FuturesConnector :: "string \<Rightarrow> string \<Rightarrow> string \<Rightarrow> u32 \<Rightarrow> RetryPolicy \<Rightarrow> JournalLine list \<Rightarrow> FuturesConnector" where
  "mk_FuturesConnector api_key api_secret api_url recv_window_ms retry_policy journal_file =
     \<lparr>fc_base = mk_LiveConnector BINANCE api_key api_secret api_url retry_policy [] journal_file, fc_mark_price = 0,
      fc_recv_window_ms = recv_window_ms, fc_symbol_filters = Map.empty\<rparr>"

definition set_mark_price :: "double \<Rightarrow> FuturesConnector \<Rightarrow> FuturesConnector" where
  "set_mark_price price f = f\<lparr>fc_mark_price := price\<rparr>"

definition futures_connect :: "FuturesConnector \<Rightarrow> ConnectorResult \<times> FuturesConnector" where
  "futures_connect f = (case connect (fc_base f) of (res, c) \<Rightarrow>
     if res \<noteq> C_OK then (res, f\<lparr>fc_base := c\<rparr>) else (C_OK, f\<lparr>fc_base := c, fc_symbol_filters := Map.empty\<rparr>))"

section \<open>Orders\<close>

definition futures_symbol :: "string \<Rightarrow> exn + string" where
  "futures_symbol symbol = lift_std (map_for_binance_usdm_futures symbol)"

definition position_side_string :: "FuturesPositionSide \<Rightarrow> string" where
  "position_side_string side = (case side of LONG \<Rightarrow> ''LONG'' | SHORT \<Rightarrow> ''SHORT'' | UNSPECIFIED \<Rightarrow> ''BOTH'')"

definition working_type_string :: "FuturesWorkingType \<Rightarrow> string" where
  "working_type_string t = (case t of CONTRACT_PRICE \<Rightarrow> ''CONTRACT_PRICE'' | MARK_PRICE \<Rightarrow> ''MARK_PRICE'')"

definition one_sided :: "Order \<Rightarrow> bool" where
  "one_sided order \<longleftrightarrow> o_futures_position_side order = LONG \<or> o_futures_position_side order = SHORT"

definition futures_validate :: "Order \<Rightarrow> ConnectorResult" where
  "futures_validate order =
     (if o_symbol order = [] then ERROR_INVALID_ORDER
      else if o_close_position order \<and> (o_type order \<noteq> STOP_LIMIT \<or> o_quantity order > 0) then ERROR_FUTURES_CLOSE_POSITION_CONFLICT
      else if \<not> o_close_position order \<and> o_quantity order \<le> 0 then ERROR_INVALID_ORDER
      else if o_type order = LIMIT \<and> o_price order \<le> 0 then ERROR_INVALID_ORDER
      else if o_type order = STOP_LIMIT \<and> o_stop_price order \<le> 0 then ERROR_INVALID_ORDER
      else if o_futures_position_mode order = HEDGE then
        (if \<not> one_sided order then ERROR_FUTURES_POSITION_SIDE_REQUIRED else C_OK)
      else if one_sided order then ERROR_FUTURES_POSITION_SIDE_INVALID else C_OK)"

definition futures_order_params :: "Order \<Rightarrow> string \<Rightarrow> exn + ConnectorResult \<times> (string \<times> string) list" where
  "futures_order_params order client_id =
     (if futures_validate order \<noteq> C_OK then Inr (futures_validate order, [])
      else and_then (futures_symbol (o_symbol order)) (\<lambda>symbol.
        let common = [(''symbol'', symbol), (''side'', side_string (o_side order)), (''newClientOrderId'', client_id),
              (''positionSide'', position_side_string
                 (if o_futures_position_mode order = HEDGE then o_futures_position_side order else UNSPECIFIED))] @
              (if o_reduce_only order then [(''reduceOnly'', ''true'')] else []);
            quantity = (''quantity'', format_decimal (o_quantity order))
        in Inr (C_OK, common @
          (case o_type order of
             MARKET \<Rightarrow> (''type'', ''MARKET'') # (if o_close_position order then [] else [quantity])
           | STOP_LIMIT \<Rightarrow> [(''type'', ''STOP_MARKET''), (''workingType'', working_type_string (o_futures_working_type order)),
               (''stopPrice'', format_decimal (o_stop_price order)),
               if o_close_position order then (''closePosition'', ''true'') else quantity]
           | LIMIT \<Rightarrow> [(''type'', ''LIMIT''), (''timeInForce'', tif_string (o_tif order)), quantity,
               (''price'', format_decimal (o_price order))]))))"

section \<open>Responses\<close>

definition futures_code :: "int \<Rightarrow> ConnectorResult option" where
  "futures_code n =
     (if n = -2015 \<or> n = -2014 then Some AUTH_FAILED
      else if n = -1003 \<or> n = -1008 \<or> n = -1015 then Some ERROR_RATE_LIMIT
      else if n = -1021 then Some ERROR_REST_FAILURE
      else if n = -2022 then Some ERROR_INVALID_ORDER
      else None)"

definition futures_error :: "'j json_rest \<Rightarrow> HttpResponse \<Rightarrow> exn + ConnectorResult" where
  "futures_error L r =
     (let json = jl_parse L (hr_body r) in
      and_then (if jl_is_discarded L json \<or> \<not> jl_is_object L json then Inr None
          else case jl_find L ''code'' json of
            None \<Rightarrow> Inr None
          | Some x \<Rightarrow> if \<not> jl_is_integer L x then Inr None
              else and_then (jl_i64 L x) (\<lambda>n. Inr (futures_code (sint (word_of_int n :: 32 word))))) (\<lambda>known.
        Inr (case known of Some res \<Rightarrow> res | None \<Rightarrow> status_error (hr_status r))))"

definition futures_parse_order_id :: "'j json_rest \<Rightarrow> string \<Rightarrow> string \<Rightarrow> exn + bool \<times> string" where
  "futures_parse_order_id L body vid =
     (let json = jl_parse L body in
      if jl_is_discarded L json then Inr (False, vid)
      else case jl_find L ''orderId'' json of
        None \<Rightarrow> Inr (False, vid)
      | Some x \<Rightarrow>
          if jl_is_unsigned L x then and_then (jl_u64 L x) (\<lambda>k. Inr (True, show_nat (uint k)))
          else if jl_is_integer L x then and_then (jl_i64 L x) (\<lambda>k. Inr (True, show_int k))
          else if jl_is_string L x then and_then (jl_string L x) (\<lambda>s. Inr (True, s))
          else Inr (False, vid))"

definition futures_order_status :: "string \<Rightarrow> OrderState" where
  "futures_order_status raw =
     (if raw = ''NEW'' \<or> raw = ''PENDING_NEW'' then OPEN
      else if raw = ''PARTIALLY_FILLED'' then PARTIALLY_FILLED
      else if raw = ''FILLED'' then FILLED
      else if raw = ''CANCELED'' \<or> raw = ''PENDING_CANCEL'' then CANCELED
      else if raw = ''REJECTED'' \<or> raw = ''EXPIRED'' then REJECTED
      else PENDING)"

definition futures_parse_query :: "'j json_rest \<Rightarrow> int \<Rightarrow> string \<Rightarrow> FillUpdate \<Rightarrow> exn + bool \<times> FillUpdate" where
  "futures_parse_query L now_ns body status =
     (let json = jl_parse L body in
      if jl_is_discarded L json then Inr (False, status)
      else
        and_then (json_number L ''executedQty'' json) (\<lambda>filled.
        and_then (json_number L ''avgPrice'' json) (\<lambda>price.
        and_then (string_or_empty L ''status'' json) (\<lambda>state.
          Inr (True, status\<lparr>fu_cumulative_filled_qty := filled, fu_fill_qty := filled, fu_avg_fill_price := price,
            fu_fill_price := price, fu_new_state := futures_order_status state, fu_local_ts_ns := now_ns\<rparr>)))))"

definition futures_parse_cancel :: "'j json_rest \<Rightarrow> string \<Rightarrow> exn + bool" where
  "futures_parse_cancel L body =
     (let json = jl_parse L body in
      if jl_is_discarded L json then Inr False
      else if jl_find L ''orderId'' json \<noteq> None then Inr True
      else and_then (string_or_empty L ''status'' json) (\<lambda>s. Inr (s = ''CANCELED'')))"

section \<open>Filters\<close>

text \<open>Rounding to the 64 bits of an extended number, ties to even.\<close>

definition ext_exp :: "rat \<Rightarrow> int" where "ext_exp x = max (binexp x - 63) (- 16445)"

definition ext_rnd :: "rat \<Rightarrow> rat" where
  "ext_rnd x = (if x = 0 then 0 else of_int (rne (x / 2 powi ext_exp x)) * 2 powi ext_exp x)"

definition step_count :: "double \<Rightarrow> double \<Rightarrow> int" where
  "step_count value step = \<lfloor>ext_rnd (ext_rnd (fval value / fval step) + ext_rnd (1 / 10 ^ 12))\<rfloor>"

definition normalize_down :: "double \<Rightarrow> double \<Rightarrow> double" where
  "normalize_down value step =
     (if step \<le> 0 then value
      else if isfinite value \<and> isfinite step then pack False (ext_rnd (of_int (step_count value step) * fval step))
      else if isnan value \<or> \<not> isfinite step then NaN
      else value)"

definition within_step_tolerance :: "double \<Rightarrow> double \<Rightarrow> double \<Rightarrow> bool" where
  "within_step_tolerance original normalized step \<longleftrightarrow>
     \<bar>original - normalized\<bar> \<le> std_max (step * lit (1 / 10 ^ 8)) (lit (1 / 10 ^ 12))"

definition parse_double_field :: "'j json_rest \<Rightarrow> string \<Rightarrow> 'j \<Rightarrow> double \<Rightarrow> exn + double" where
  "parse_double_field L key json out = (case jl_find L key json of
     None \<Rightarrow> Inr out
   | Some x \<Rightarrow>
       if jr_is_number L x then jr_double L x
       else if jl_is_string L x then and_then (jl_string L x) (\<lambda>s. Inr (case strtod s of None \<Rightarrow> out | Some d \<Rightarrow> d))
       else Inr out)"

definition parse_filter :: "'j json_rest \<Rightarrow> 'j \<Rightarrow> SymbolFilters \<Rightarrow> exn + SymbolFilters" where
  "parse_filter L f out = and_then (string_or_empty L ''filterType'' f) (\<lambda>kind.
     if kind = ''PRICE_FILTER'' then
       and_then (parse_double_field L ''minPrice'' f (ff_min_price out)) (\<lambda>lo.
       and_then (parse_double_field L ''maxPrice'' f (ff_max_price out)) (\<lambda>hi.
       and_then (parse_double_field L ''tickSize'' f (ff_tick_size out)) (\<lambda>tick.
         Inr (out\<lparr>ff_min_price := lo, ff_max_price := hi, ff_tick_size := tick\<rparr>))))
     else if kind = ''LOT_SIZE'' then
       and_then (parse_double_field L ''minQty'' f (ff_min_qty out)) (\<lambda>lo.
       and_then (parse_double_field L ''maxQty'' f (ff_max_qty out)) (\<lambda>hi.
       and_then (parse_double_field L ''stepSize'' f (ff_step_size out)) (\<lambda>step.
         Inr (out\<lparr>ff_min_qty := lo, ff_max_qty := hi, ff_step_size := step\<rparr>))))
     else if kind = ''MARKET_LOT_SIZE'' then
       and_then (parse_double_field L ''minQty'' f (ff_min_market_qty out)) (\<lambda>lo.
       and_then (parse_double_field L ''maxQty'' f (ff_max_market_qty out)) (\<lambda>hi.
       and_then (parse_double_field L ''stepSize'' f (ff_market_step_size out)) (\<lambda>step.
         Inr (out\<lparr>ff_min_market_qty := lo, ff_max_market_qty := hi, ff_market_step_size := step\<rparr>))))
     else if kind = ''MIN_NOTIONAL'' \<or> kind = ''NOTIONAL'' then
       and_then (parse_double_field L ''notional'' f (ff_min_notional out)) (\<lambda>n.
       and_then (if n \<le> 0 then parse_double_field L ''minNotional'' f n else Inr n) (\<lambda>n.
         Inr (out\<lparr>ff_min_notional := n\<rparr>)))
     else Inr out)"

definition elems_at :: "'j json_rest \<Rightarrow> string \<Rightarrow> 'j \<Rightarrow> 'j list option" where
  "elems_at L key j = (case jl_find L key j of None \<Rightarrow> None | Some a \<Rightarrow> if jl_is_array L a then Some (jl_elems L a) else None)"

definition parse_symbol_filters :: "'j json_rest \<Rightarrow> string \<Rightarrow> exn + SymbolFilters option" where
  "parse_symbol_filters L body =
     (let json = jl_parse L body in
      if jl_is_discarded L json then Inr None
      else case elems_at L ''symbols'' json of
        Some (symbol # _) \<Rightarrow>
          and_then (parse_double_field L ''triggerProtect'' symbol 0) (\<lambda>protect.
            case elems_at L ''filters'' symbol of
              None \<Rightarrow> Inr None
            | Some fs \<Rightarrow> and_then (foldE (parse_filter L) fs (mk_SymbolFilters\<lparr>ff_trigger_protect := protect\<rparr>)) (\<lambda>out.
                Inr (if ff_tick_size out > 0 \<and> ff_step_size out > 0 then Some (out\<lparr>ff_valid := True\<rparr>) else None)))
      | _ \<Rightarrow> Inr None)"

text \<open>A value above the upper or below the lower bound, by more than the tolerance; a bound that is not positive is none.\<close>

definition out_of_bounds :: "double \<Rightarrow> double \<Rightarrow> double \<Rightarrow> bool" where
  "out_of_bounds lo hi x \<longleftrightarrow> lo > 0 \<and> x + lit (1 / 10 ^ 12) < lo \<or> hi > 0 \<and> x - lit (1 / 10 ^ 12) > hi"

definition snap_price :: "SymbolFilters \<Rightarrow> double \<Rightarrow> double option" where
  "snap_price f price =
     (let p = normalize_down price (ff_tick_size f) in
      if p \<le> 0 \<or> \<not> within_step_tolerance price p (ff_tick_size f) \<or> out_of_bounds (ff_min_price f) (ff_max_price f) p
      then None else Some p)"

definition market_or :: "bool \<Rightarrow> double \<Rightarrow> double \<Rightarrow> double" where
  "market_or is_market market_value value = (if is_market \<and> market_value > 0 then market_value else value)"

definition snap_quantity :: "SymbolFilters \<Rightarrow> Order \<Rightarrow> double option" where
  "snap_quantity f order =
     (let is_market = (o_type order = MARKET);
          min_qty = market_or is_market (ff_min_market_qty f) (ff_min_qty f);
          max_qty = market_or is_market (ff_max_market_qty f) (ff_max_qty f);
          step = market_or is_market (ff_market_step_size f) (ff_step_size f);
          q = normalize_down (o_quantity order) step
      in if q \<le> 0 \<or> \<not> within_step_tolerance (o_quantity order) q step \<or> out_of_bounds min_qty max_qty q
         then None else Some q)"

definition normalize_price :: "SymbolFilters \<Rightarrow> Order \<Rightarrow> ConnectorResult \<times> Order" where
  "normalize_price f order = (case o_type order of
     LIMIT \<Rightarrow> (case snap_price f (o_price order) of
         None \<Rightarrow> (ERROR_FUTURES_PRICE_FILTER_VIOLATION, order)
       | Some p \<Rightarrow> (C_OK, order\<lparr>o_price := p\<rparr>))
   | STOP_LIMIT \<Rightarrow> (case snap_price f (o_stop_price order) of
         None \<Rightarrow> (ERROR_FUTURES_TRIGGER_CONSTRAINT_VIOLATION, order)
       | Some p \<Rightarrow>
           (if o_price order > 0 \<and> ff_trigger_protect f > 0 \<and>
               \<bar>p - o_price order\<bar> / o_price order - ff_trigger_protect f > lit (1 / 10 ^ 12)
            then ERROR_FUTURES_TRIGGER_CONSTRAINT_VIOLATION else C_OK, order\<lparr>o_stop_price := p\<rparr>))
   | MARKET \<Rightarrow> (C_OK, order))"

definition reference_price :: "Order \<Rightarrow> double" where
  "reference_price order = (case o_type order of LIMIT \<Rightarrow> o_price order | STOP_LIMIT \<Rightarrow> o_stop_price order | MARKET \<Rightarrow> 0)"

definition normalize_and_validate :: "SymbolFilters \<Rightarrow> Order \<Rightarrow> ConnectorResult \<times> Order" where
  "normalize_and_validate f order = (case normalize_price f order of (res, order) \<Rightarrow>
     if res \<noteq> C_OK \<or> o_close_position order then (res, order)
     else case snap_quantity f order of
       None \<Rightarrow> (ERROR_FUTURES_QTY_FILTER_VIOLATION, order)
     | Some q \<Rightarrow>
         let order = order\<lparr>o_quantity := q\<rparr>; price = reference_price order in
         (if ff_min_notional f > 0 \<and> price > 0 \<and> price * q + lit (1 / 10 ^ 12) < ff_min_notional f
          then ERROR_FUTURES_MIN_NOTIONAL_VIOLATION else C_OK, order))"

section \<open>Operations\<close>

definition futures_error_of :: "('j, 'w) VenueApi \<Rightarrow> HttpResponse \<Rightarrow> exn + ConnectorResult" where
  "futures_error_of V = futures_error (va_json V)"

definition get_symbol_filters :: "('j, 'w) VenueApi \<Rightarrow> string \<Rightarrow> FuturesConnector \<times> 'w \<Rightarrow>
    (ConnectorResult \<times> SymbolFilters, FuturesConnector \<times> 'w) call" where
  "get_symbol_filters V symbol = (\<lambda>(f, w). case fc_symbol_filters f symbol of
     Some filters \<Rightarrow> (Inr (C_OK, filters), f, w)
   | None \<Rightarrow> (case ht_get (va_http V) (lc_api_url (fc_base f) @ ''/fapi/v1/exchangeInfo?symbol='' @ symbol) [] w of
       (r, w) \<Rightarrow>
         if \<not> http_ok r then (and_then (futures_error_of V r) (\<lambda>e. Inr (e, mk_SymbolFilters)), f, w)
         else case parse_symbol_filters (va_json V) (hr_body r) of
           Inl e \<Rightarrow> (Inl e, f, w)
         | Inr None \<Rightarrow> (Inr (ERROR_FUTURES_FILTERS_UNAVAILABLE, mk_SymbolFilters), f, w)
         | Inr (Some parsed) \<Rightarrow>
             (Inr (C_OK, parsed), f\<lparr>fc_symbol_filters := (fc_symbol_filters f)(symbol \<mapsto> parsed)\<rparr>, w)))"

text \<open>The steps both a submission and a replacement begin with: filters of the symbol, normalisation, parameters.\<close>

definition prepare_order :: "('j, 'w) VenueApi \<Rightarrow> Order \<Rightarrow> (LiveConnector \<Rightarrow> Order \<Rightarrow> string) \<Rightarrow> FuturesConnector \<times> 'w \<Rightarrow>
    (ConnectorResult \<times> (string \<times> string) list, FuturesConnector \<times> 'w) call" where
  "prepare_order V order client_id s = (case futures_symbol (o_symbol order) of
     Inl e \<Rightarrow> (Inl e, s)
   | Inr symbol \<Rightarrow> (case get_symbol_filters V symbol s of (x, s) \<Rightarrow> (case x of
       Inl e \<Rightarrow> (Inl e, s)
     | Inr (res, filters) \<Rightarrow>
         if res \<noteq> C_OK then (Inr (res, []), s)
         else case normalize_and_validate filters order of (res, order) \<Rightarrow>
           if res \<noteq> C_OK then (Inr (res, []), s)
           else (futures_order_params order (client_id (fc_base (fst s)) order), s))))"

definition recv_window :: "FuturesConnector \<Rightarrow> string \<times> string" where
  "recv_window f = (''recvWindow'', decimal (unat (fc_recv_window_ms f)))"

definition futures_send :: "(HttpResponse \<times> 'w) \<Rightarrow> FuturesConnector \<Rightarrow> (HttpResponse \<Rightarrow> exn + ConnectorResult) \<Rightarrow> 'a \<Rightarrow>
    (string \<Rightarrow> exn + ConnectorResult \<times> 'a) \<Rightarrow> (ConnectorResult \<times> 'a, FuturesConnector \<times> 'w) call" where
  "futures_send answer f classify x rd = (case answer of (r, w) \<Rightarrow> (on_response classify x rd r, f, w))"

definition futures_submit :: "('j, 'w) VenueApi \<Rightarrow> Order \<Rightarrow> string \<Rightarrow> string \<Rightarrow> FuturesConnector \<times> 'w \<Rightarrow>
    (ConnectorResult \<times> string, FuturesConnector \<times> 'w) call" where
  "futures_submit V order key vid s =
     (case prepare_order V order (\<lambda>c o1. build_client_order_id key (o_client_order_id o1)) s of
        (Inl e, s) \<Rightarrow> (Inl e, s)
      | (Inr (res, params), f, w) \<Rightarrow>
          if res \<noteq> C_OK then (Inr (res, vid), f, w)
          else futures_send (signed_post V (fc_base f) ''/fapi/v1/order'' (params @ [timestamp V w, recv_window f]) w) f
            (futures_error_of V) vid (\<lambda>body. and_then (futures_parse_order_id (va_json V) body vid) ok_or_unknown))"

definition futures_cancel :: "('j, 'w) VenueApi \<Rightarrow> VenueOrderEntry \<Rightarrow> FuturesConnector \<times> 'w \<Rightarrow>
    (ConnectorResult \<times> unit, FuturesConnector \<times> 'w) call" where
  "futures_cancel V entry = (\<lambda>(f, w). case futures_symbol (ve_symbol entry) of
     Inl e \<Rightarrow> (Inl e, f, w)
   | Inr symbol \<Rightarrow> futures_send (signed_del V (fc_base f) ''/fapi/v1/order''
         [(''symbol'', symbol), (''orderId'', ve_venue_order_id entry), timestamp V w, recv_window f] w) f
       (futures_error_of V) () (\<lambda>body. and_then (futures_parse_cancel (va_json V) body) (\<lambda>ok. ok_or_unknown (ok, ()))))"

definition signed_put :: "('j, 'w) VenueApi \<Rightarrow> LiveConnector \<Rightarrow> string \<Rightarrow> (string \<times> string) list \<Rightarrow> 'w \<Rightarrow> HttpResponse \<times> 'w" where
  "signed_put V c path params = ht_put (va_http V) (signed_url (va_crypto V) c path params) [] (binance_api_headers c)"

definition futures_replace :: "('j, 'w) VenueApi \<Rightarrow> VenueOrderEntry \<Rightarrow> Order \<Rightarrow> string \<Rightarrow> FuturesConnector \<times> 'w \<Rightarrow>
    (ConnectorResult \<times> string, FuturesConnector \<times> 'w) call" where
  "futures_replace V entry replacement vid s =
     (if ve_symbol entry \<noteq> o_symbol replacement then (Inr (ERROR_INVALID_ORDER, vid), s)
      else case prepare_order V replacement
          (\<lambda>c o1. build_client_order_id (make_idempotency_key (o_client_order_id o1) c) (o_client_order_id o1)) s of
        (Inl e, s) \<Rightarrow> (Inl e, s)
      | (Inr (res, params), f, w) \<Rightarrow>
          if res \<noteq> C_OK then (Inr (res, vid), f, w)
          else case futures_symbol (ve_symbol entry) of
            Inl e \<Rightarrow> (Inl e, f, w)
          | Inr symbol \<Rightarrow> futures_send (signed_put V (fc_base f) ''/fapi/v1/order''
                ([(''symbol'', symbol), (''orderId'', ve_venue_order_id entry)] @ params @ [timestamp V w, recv_window f]) w) f
              (futures_error_of V) vid (\<lambda>body. and_then (futures_parse_order_id (va_json V) body vid) ok_or_unknown))"

definition futures_query :: "('j, 'w) VenueApi \<Rightarrow> VenueOrderEntry \<Rightarrow> FillUpdate \<Rightarrow> FuturesConnector \<times> 'w \<Rightarrow>
    (ConnectorResult \<times> FillUpdate, FuturesConnector \<times> 'w) call" where
  "futures_query V entry status = (\<lambda>(f, w). case futures_symbol (ve_symbol entry) of
     Inl e \<Rightarrow> (Inl e, f, w)
   | Inr symbol \<Rightarrow>
       let answer = signed_get V (fc_base f) ''/fapi/v1/order''
             [(''symbol'', symbol), (''orderId'', ve_venue_order_id entry), timestamp V w, recv_window f] w
       in futures_send answer f (futures_error_of V) status (\<lambda>body.
            and_then (futures_parse_query (va_json V) (ht_now_ns (va_http V) (snd answer)) body status) ok_or_unknown))"

definition futures_cancel_all :: "('j, 'w) VenueApi \<Rightarrow> string \<Rightarrow> FuturesConnector \<times> 'w \<Rightarrow>
    (ConnectorResult \<times> unit, FuturesConnector \<times> 'w) call" where
  "futures_cancel_all V symbol = (\<lambda>(f, w).
     if symbol = [] then (Inr (ERROR_INVALID_ORDER, ()), f, w)
     else case futures_symbol symbol of
       Inl e \<Rightarrow> (Inl e, f, w)
     | Inr s \<Rightarrow> futures_send (signed_del V (fc_base f) ''/fapi/v1/allOpenOrders''
           [(''symbol'', s), timestamp V w, recv_window f] w) f
         (futures_error_of V) () (\<lambda>body.
           ok_or_unknown (\<not> jl_is_discarded (va_json V) (jl_parse (va_json V) body), ())))"

section \<open>The snapshot\<close>

definition futures_balance :: "'j json_rest \<Rightarrow> 'j \<Rightarrow> exn + ReconciledBalance" where
  "futures_balance L item =
     and_then (json_string L ''asset'' item) (\<lambda>asset.
     and_then (json_number L ''availableBalance'' item) (\<lambda>available.
     and_then (json_number L ''balance'' item) (\<lambda>total.
       Inr \<lparr>rb_asset = symbol_text asset, rb_total = total, rb_available = available\<rparr>)))"

definition sell_side :: "'j json_rest \<Rightarrow> 'j \<Rightarrow> exn + Side" where
  "sell_side L item = and_then (json_string L ''side'' item) (\<lambda>s. Inr (if s = ''SELL'' then ASK else BID))"

definition futures_open_order :: "'j json_rest \<Rightarrow> string \<Rightarrow> 'j \<Rightarrow> exn + ReconciledOrder" where
  "futures_open_order L symbol item =
     and_then (json_string L ''clientOrderId'' item) (\<lambda>client_id.
     and_then (json_string L ''orderId'' item) (\<lambda>vid.
     and_then (sell_side L item) (\<lambda>side.
     and_then (json_number L ''origQty'' item) (\<lambda>qty.
     and_then (json_number L ''executedQty'' item) (\<lambda>filled.
     and_then (json_number L ''price'' item) (\<lambda>price.
     and_then (json_string L ''status'' item) (\<lambda>state.
       Inr \<lparr>ro_client_order_id = parse_client_order_id client_id, ro_venue_order_id = id_text vid,
         ro_symbol = symbol_text symbol, ro_side = side, ro_quantity = qty, ro_filled_quantity = filled,
         ro_price = price, ro_state = futures_order_status state\<rparr>)))))))"

definition futures_position :: "'j json_rest \<Rightarrow> string \<Rightarrow> 'j \<Rightarrow> exn + ReconciledPosition" where
  "futures_position L symbol item =
     and_then (json_string L ''positionSide'' item) (\<lambda>side.
     and_then (json_number L ''positionAmt'' item) (\<lambda>qty.
     and_then (json_number L ''entryPrice'' item) (\<lambda>price.
     and_then (json_number L ''leverage'' item) (\<lambda>leverage.
       Inr (mk_ReconciledPosition\<lparr>rp_symbol := symbol_text symbol,
         rp_position_side := (if side_text side = [] then ''BOTH'' else side_text side),
         rp_quantity := qty, rp_avg_entry_price := price, rp_leverage := leverage\<rparr>)))))"

definition futures_fill :: "'j json_rest \<Rightarrow> 'j \<Rightarrow> exn + ReconciledFill" where
  "futures_fill L item =
     and_then (json_string L ''clientOrderId'' item) (\<lambda>client_id.
     and_then (json_string L ''orderId'' item) (\<lambda>vid.
     and_then (json_string L ''id'' item) (\<lambda>trade.
     and_then (json_string L ''symbol'' item) (\<lambda>symbol.
     and_then (sell_side L item) (\<lambda>side.
     and_then (json_number L ''qty'' item) (\<lambda>qty.
     and_then (json_number L ''price'' item) (\<lambda>price.
     and_then (json_number L ''commission'' item) (\<lambda>fee.
     and_then (json_string L ''commissionAsset'' item) (\<lambda>fee_asset.
     and_then (json_number L ''time'' item) (\<lambda>time.
       Inr \<lparr>rf_client_order_id = parse_client_order_id client_id, rf_venue_order_id = id_text vid,
         rf_venue_trade_id = id_text trade, rf_symbol = symbol_text symbol, rf_exchange = BINANCE, rf_side = side,
         rf_quantity = \<bar>qty\<bar>, rf_price = price, rf_notional = \<bar>qty\<bar> * price, rf_fee = \<bar>fee\<bar>,
         rf_fee_asset = symbol_text fee_asset,
         rf_exchange_ts_ns = wrap_i64 (Json.truncate time * 1000000)\<rparr>))))))))))"

definition futures_append_balances :: "'j json_rest \<Rightarrow> string \<Rightarrow> ReconciliationSnapshot \<Rightarrow> exn + ConnectorResult \<times> ReconciliationSnapshot" where
  "futures_append_balances L body snap =
     set_table (\<lambda>t. snap\<lparr>rs_balances := t\<rparr>) (append_array L max_balances (futures_balance L) (jl_parse L body) (rs_balances snap))"

definition futures_append_open_orders :: "'j json_rest \<Rightarrow> string \<Rightarrow> string list \<times> ReconciliationSnapshot \<Rightarrow>
    exn + ConnectorResult \<times> string list \<times> ReconciliationSnapshot" where
  "futures_append_open_orders L body = (\<lambda>(syms, snap).
     let json = jl_parse L body in
     if \<not> jl_is_array L json then Inr (ERROR_UNKNOWN, syms, snap)
     else and_then (open_orders_loop L (futures_open_order L) (jl_elems L json) syms (rs_open_orders snap))
       (\<lambda>(res, syms, t). Inr (res, syms, snap\<lparr>rs_open_orders := t\<rparr>)))"

fun positions_loop :: "'j json_rest \<Rightarrow> 'j list \<Rightarrow> string list \<Rightarrow> ReconciledPosition list \<Rightarrow>
    exn + ConnectorResult \<times> string list \<times> ReconciledPosition list" where
  "positions_loop L [] syms t = Inr (C_OK, syms, t)"
| "positions_loop L (x # xs) syms t =
     and_then (json_string L ''symbol'' x) (\<lambda>symbol.
     and_then (futures_position L symbol x) (\<lambda>p.
       let syms = (if \<not> deq (rp_quantity p) 0 \<and> symbol \<noteq> [] then set_insert symbol syms else syms) in
       case ft_push max_positions p t of
         (fits, t) \<Rightarrow> if fits then positions_loop L xs syms t else Inr (ERROR_UNKNOWN, syms, t)))"

definition futures_append_positions :: "'j json_rest \<Rightarrow> string \<Rightarrow> string list \<times> ReconciliationSnapshot \<Rightarrow>
    exn + ConnectorResult \<times> string list \<times> ReconciliationSnapshot" where
  "futures_append_positions L body = (\<lambda>(syms, snap).
     let json = jl_parse L body in
     if \<not> jl_is_array L json then Inr (ERROR_UNKNOWN, syms, snap)
     else and_then (positions_loop L (jl_elems L json) syms (rs_positions snap))
       (\<lambda>(res, syms, t). Inr (res, syms, snap\<lparr>rs_positions := t\<rparr>)))"

definition futures_append_fills :: "'j json_rest \<Rightarrow> string \<Rightarrow> ReconciliationSnapshot \<Rightarrow> exn + ConnectorResult \<times> ReconciliationSnapshot" where
  "futures_append_fills L body snap =
     set_table (\<lambda>t. snap\<lparr>rs_fills := t\<rparr>) (append_array L max_fills (futures_fill L) (jl_parse L body) (rs_fills snap))"

text \<open>The parameters of the three first requests are built once, with the time at the start.\<close>

definition futures_fetch :: "('j, 'w) VenueApi \<Rightarrow> FuturesConnector \<Rightarrow> ReconciliationSnapshot \<Rightarrow> 'w \<Rightarrow>
    (ConnectorResult \<times> ReconciliationSnapshot, 'w) call" where
  "futures_fetch V f snap w =
     (let L = va_json V; c = fc_base f; base = [timestamp V w, recv_window f]; err = futures_error_of V in
      and_fetch (fetch_table err (signed_get V c ''/fapi/v2/balance'' base) (futures_append_balances L) (rs_clear snap) w) (\<lambda>s w.
      with_symbols snd (
        and_fetch (fetch_table err (signed_get V c ''/fapi/v1/openOrders'' base) (futures_append_open_orders L) ([], s) w) (\<lambda>s w.
        and_fetch (fetch_table err (signed_get V c ''/fapi/v2/positionRisk'' base) (futures_append_positions L) s w) (\<lambda>(symbols, s) w.
        with_symbols (\<lambda>s. (symbols, s)) (fetch_trades
          (\<lambda>symbol w. signed_get V c ''/fapi/v1/userTrades'' [(''symbol'', symbol), timestamp V w, recv_window f] w)
          err (futures_append_fills L) symbols s w))))))"

section \<open>What the exchange receives obeys its filters\<close>

text \<open>The filters in the cache have positive steps, and a symbol's filters are fetched at most once.\<close>

definition filters_ok :: "FuturesConnector \<Rightarrow> bool" where
  "filters_ok f \<longleftrightarrow> (\<forall>symbol fl. fc_symbol_filters f symbol = Some fl \<longrightarrow> ff_tick_size fl > 0 \<and> ff_step_size fl > 0)"

lemma parsed_filters_ok: "parse_symbol_filters L body = Inr (Some fl) \<Longrightarrow> ff_tick_size fl > 0 \<and> ff_step_size fl > 0"
  by (auto simp: parse_symbol_filters_def Let_def and_then_Inr split: if_splits option.splits list.splits)

lemma futures_error_fails: "futures_error_of V r \<noteq> Inr C_OK"
  by (auto simp: futures_error_of_def futures_error_def Let_def and_then_Inr status_error_def futures_code_def
      split: if_splits option.splits)

lemma get_filters_cached:
  assumes "get_symbol_filters V symbol (f, w) = (Inr (C_OK, fl), f', w')" and "filters_ok f"
  shows "fc_symbol_filters f' symbol = Some fl \<and> filters_ok f' \<and> fc_base f' = fc_base f"
proof (cases "fc_symbol_filters f symbol")
  case (Some g)
  then show ?thesis using assms by (auto simp: get_symbol_filters_def)
next
  case None
  obtain r w1 where g: "ht_get (va_http V) (lc_api_url (fc_base f) @ ''/fapi/v1/exchangeInfo?symbol='' @ symbol) [] w = (r, w1)"
    by fastforce
  from assms(1) None g futures_error_fails[of V] have p: "parse_symbol_filters (va_json V) (hr_body r) = Inr (Some fl)"
    "f' = f\<lparr>fc_symbol_filters := (fc_symbol_filters f)(symbol \<mapsto> fl)\<rparr>"
    by (auto simp: get_symbol_filters_def and_then_Inr split: if_splits sum.splits option.splits)
  then show ?thesis using parsed_filters_ok[OF p(1)] assms(2) by (auto simp: filters_ok_def)
qed

lemma filters_fetched_once:
  assumes "get_symbol_filters V symbol (f, w) = (Inr (C_OK, fl), f', w')" and "filters_ok f"
  shows "get_symbol_filters V symbol (f', w'') = (Inr (C_OK, fl), f', w'')"
  using get_filters_cached[OF assms] by (simp add: get_symbol_filters_def)

definition on_step :: "double \<Rightarrow> double \<Rightarrow> bool" where
  "on_step step x \<longleftrightarrow> (\<exists>k. x = pack False (ext_rnd (of_int k * fval step)))"

lemma tolerance_finite: "within_step_tolerance original NaN step \<Longrightarrow> False"
  "\<not> isfinite original \<Longrightarrow> within_step_tolerance original original step \<Longrightarrow> False"
  by (auto simp: within_step_tolerance_def minus_double_def plus_double_def less_eq_double_def abs_double_def
      uminus_double_def isfinite_def split: double.splits if_splits)

lemma normalized_on_step:
  assumes "0 < step" and "within_step_tolerance x (normalize_down x step) step"
  shows "on_step step (normalize_down x step)"
proof (cases "isfinite x \<and> isfinite step")
  case True
  have "\<not> step \<le> 0" using assms(1) by (auto simp: less_double_def less_eq_double_def)
  then show ?thesis using True by (auto simp: normalize_down_def on_step_def)
next
  case False
  have n: "\<not> step \<le> 0" using assms(1) by (auto simp: less_double_def less_eq_double_def)
  with False have "normalize_down x step = NaN \<or> normalize_down x step = x \<and> \<not> isfinite x"
    by (auto simp: normalize_down_def)
  with assms(2) tolerance_finite show ?thesis by metis
qed

text \<open>A number within the filters: a multiple of the step, positive, in the bounds and near what was asked for.\<close>

definition obeys :: "double \<Rightarrow> double \<Rightarrow> double \<Rightarrow> double \<Rightarrow> double \<Rightarrow> bool" where
  "obeys step lo hi asked x \<longleftrightarrow> on_step step x \<and> \<not> x \<le> 0 \<and> \<not> out_of_bounds lo hi x \<and> within_step_tolerance asked x step"

lemma snap_price_obeys:
  "snap_price f p = Some q \<Longrightarrow> 0 < ff_tick_size f \<Longrightarrow> obeys (ff_tick_size f) (ff_min_price f) (ff_max_price f) p q"
  by (auto simp: snap_price_def obeys_def Let_def normalized_on_step split: if_splits)

lemma snap_quantity_obeys:
  "snap_quantity f order = Some q \<Longrightarrow> 0 < ff_step_size f \<Longrightarrow> o_type order = LIMIT \<Longrightarrow>
     obeys (ff_step_size f) (ff_min_qty f) (ff_max_qty f) (o_quantity order) q"
  by (auto simp: snap_quantity_def market_or_def obeys_def Let_def normalized_on_step split: if_splits)

lemma limit_params:
  assumes "futures_order_params o1 client_id = Inr (C_OK, ps)" and "o_type o1 = LIMIT" and "futures_symbol (o_symbol o1) = Inr symbol"
  shows "map_of (ps @ ts) ''symbol'' = Some symbol \<and> map_of (ps @ ts) ''price'' = Some (format_decimal (o_price o1)) \<and>
    map_of (ps @ ts) ''quantity'' = Some (format_decimal (o_quantity o1))"
proof -
  let ?tail = "[(''type'', ''LIMIT''), (''timeInForce'', tif_string (o_tif o1)), (''quantity'', format_decimal (o_quantity o1)),
    (''price'', format_decimal (o_price o1))]"
  have "futures_validate o1 = C_OK" using assms(1) by (simp add: futures_order_params_def split: if_splits)
  with assms have "ps = [(''symbol'', symbol), (''side'', side_string (o_side o1)), (''newClientOrderId'', client_id),
      (''positionSide'', position_side_string (if o_futures_position_mode o1 = HEDGE then o_futures_position_side o1 else UNSPECIFIED))] @
      (if o_reduce_only o1 then [(''reduceOnly'', ''true'')] else []) @ ?tail"
    by (simp add: futures_order_params_def Let_def)
  then show ?thesis by simp
qed

text \<open>
  C16. A limit order the futures connector reports as placed went out in a signed request whose price and quantity are
  numbers the instrument's filters allow: multiples of its tick and step, within its bounds, and within the
  tolerance of what the engine asked for. An order that would have to be changed by more is refused.
\<close>

theorem futures_order_obeys_filters:
  assumes "futures_submit V order key vid (f, w) = (Inr (C_OK, vid'), f', w')" and "o_type order = LIMIT" and "filters_ok f"
  shows "\<exists>symbol fl price qty params r w1. futures_symbol (o_symbol order) = Inr symbol \<and>
    fc_symbol_filters f' symbol = Some fl \<and>
    signed_post V (fc_base f) ''/fapi/v1/order'' params w1 = (r, w') \<and> http_ok r \<and>
    map_of params ''symbol'' = Some symbol \<and>
    map_of params ''price'' = Some (format_decimal price) \<and> map_of params ''quantity'' = Some (format_decimal qty) \<and>
    obeys (ff_tick_size fl) (ff_min_price fl) (ff_max_price fl) (o_price order) price \<and>
    obeys (ff_step_size fl) (ff_min_qty fl) (ff_max_qty fl) (o_quantity order) qty"
proof -
  obtain x s where p: "prepare_order V order (\<lambda>c o1. build_client_order_id key (o_client_order_id o1)) (f, w) = (x, s)"
    by (meson surj_pair)
  with assms(1) obtain params f1 w1 where x: "x = Inr (C_OK, params)" "s = (f1, w1)"
    and send: "futures_send (signed_post V (fc_base f1) ''/fapi/v1/order'' (params @ [timestamp V w1, recv_window f1]) w1) f1
      (futures_error_of V) vid (\<lambda>body. and_then (futures_parse_order_id (va_json V) body vid) ok_or_unknown) = (Inr (C_OK, vid'), f', w')"
    by (auto simp: futures_submit_def split: sum.splits prod.splits if_splits)
  from p x obtain symbol fl o1 where y: "futures_symbol (o_symbol order) = Inr symbol"
    "get_symbol_filters V symbol (f, w) = (Inr (C_OK, fl), f1, w1)" "normalize_and_validate fl order = (C_OK, o1)"
    "futures_order_params o1 (build_client_order_id key (o_client_order_id o1)) = Inr (C_OK, params)"
    by (auto simp: prepare_order_def split: sum.splits prod.splits if_splits)
  note c = get_filters_cached[OF y(2) assms(3)]
  then have pos: "0 < ff_tick_size fl" "0 < ff_step_size fl" by (auto simp: filters_ok_def)
  have v: "futures_validate o1 = C_OK" using y(4) by (auto simp: futures_order_params_def split: if_splits)
  obtain price where price: "snap_price fl (o_price order) = Some price" "normalize_price fl order = (C_OK, order\<lparr>o_price := price\<rparr>)"
    using y(3) assms(2) by (auto simp: normalize_and_validate_def normalize_price_def split: option.splits if_splits)
  have nc: "\<not> o_close_position order"
  proof
    assume "o_close_position order"
    with y(3) price(2) have "o1 = order\<lparr>o_price := price\<rparr>" by (simp add: normalize_and_validate_def)
    with v assms(2) \<open>o_close_position order\<close> show False by (auto simp: futures_validate_def split: if_splits)
  qed
  obtain qty where qty: "snap_quantity fl (order\<lparr>o_price := price\<rparr>) = Some qty" "o1 = order\<lparr>o_price := price, o_quantity := qty\<rparr>"
    using y(3) price(2) nc by (auto simp: normalize_and_validate_def Let_def split: option.splits if_splits)
  obtain r where r: "signed_post V (fc_base f1) ''/fapi/v1/order'' (params @ [timestamp V w1, recv_window f1]) w1 = (r, w')"
    "http_ok r" "f' = f1"
  proof -
    obtain r w2 where s: "signed_post V (fc_base f1) ''/fapi/v1/order'' (params @ [timestamp V w1, recv_window f1]) w1 = (r, w2)"
      by fastforce
    from send have e: "w2 = w'" "f' = f1" "on_response (futures_error_of V) vid
        (\<lambda>body. and_then (futures_parse_order_id (va_json V) body vid) ok_or_unknown) r = Inr (C_OK, vid')"
      by (simp_all add: futures_send_def s)
    from e(3) have "http_ok r" by (simp only: on_response_ok[where classify = "futures_error_of V", OF futures_error_fails])
    then show ?thesis using that s e(1,2) by simp
  qed
  have o1: "o_symbol o1 = o_symbol order" "o_type o1 = LIMIT" "o_price o1 = price" "o_quantity o1 = qty"
    by (simp_all add: qty(2) assms(2))
  note m = limit_params[OF y(4) o1(2) y(1)[folded o1(1)], unfolded o1, of "[timestamp V w1, recv_window f1]"]
  from snap_price_obeys[OF price(1) pos(1)] snap_quantity_obeys[OF qty(1) pos(2)] assms(2)
  have "obeys (ff_tick_size fl) (ff_min_price fl) (ff_max_price fl) (o_price order) price"
    "obeys (ff_step_size fl) (ff_min_qty fl) (ff_max_qty fl) (o_quantity order) qty" by simp_all
  with y(1) c r m have "futures_symbol (o_symbol order) = Inr symbol \<and> fc_symbol_filters f' symbol = Some fl \<and>
    signed_post V (fc_base f) ''/fapi/v1/order'' (params @ [timestamp V w1, recv_window f1]) w1 = (r, w') \<and> http_ok r \<and>
    map_of (params @ [timestamp V w1, recv_window f1]) ''symbol'' = Some symbol \<and>
    map_of (params @ [timestamp V w1, recv_window f1]) ''price'' = Some (format_decimal price) \<and>
    map_of (params @ [timestamp V w1, recv_window f1]) ''quantity'' = Some (format_decimal qty) \<and>
    obeys (ff_tick_size fl) (ff_min_price fl) (ff_max_price fl) (o_price order) price \<and>
    obeys (ff_step_size fl) (ff_min_qty fl) (ff_max_qty fl) (o_quantity order) qty" by (simp del: map_of_append)
  then show ?thesis by (intro exI)
qed

definition sample_filters :: SymbolFilters where
  "sample_filters = mk_SymbolFilters\<lparr>ff_valid := True, ff_tick_size := Fin 1, ff_step_size := Fin 1\<rparr>"

definition futures_sample :: "(json, nat) VenueApi" where
  "futures_sample = sample_api 200 ''body'' [(''body'', JObject [(''orderId'', JUint 7)])]"

definition futures_connector :: FuturesConnector where
  "futures_connector = (mk_FuturesConnector ''k'' ''s'' ''https://fapi.binance.com'' 5000 \<lparr>rp_max_attempts = 3, rp_backoff_ms = 10\<rparr> [])
     \<lparr>fc_symbol_filters := [''BTCUSDT'' \<mapsto> sample_filters]\<rparr>"

definition limit_order :: Order where
  "limit_order = mk_Order\<lparr>o_client_order_id := 1, o_symbol := ''BTCUSDT'', o_type := LIMIT, o_price := Fin 100, o_quantity := Fin 100\<rparr>"

lemma sample_normalized: "normalize_and_validate sample_filters limit_order = (C_OK, limit_order)"
proof -
  have n: "normalize_down (Fin 100) (Fin 1) = Fin 100" "within_step_tolerance (Fin 100) (Fin 100) (Fin 1)"
    by code_simp+
  have p: "(Fin 100 \<le> 0) = False" "(0 < (0 :: double)) = False" by code_simp+
  have o: "o_type limit_order = LIMIT" "o_price limit_order = Fin 100" "o_quantity limit_order = Fin 100"
    "\<not> o_close_position limit_order" "limit_order\<lparr>o_price := Fin 100\<rparr> = limit_order" "limit_order\<lparr>o_quantity := Fin 100\<rparr> = limit_order"
    by (simp_all add: limit_order_def mk_Order_def)
  have f: "ff_tick_size sample_filters = Fin 1" "ff_step_size sample_filters = Fin 1" "ff_min_price sample_filters = 0"
    "ff_max_price sample_filters = 0" "ff_min_qty sample_filters = 0" "ff_max_qty sample_filters = 0" "ff_min_notional sample_filters = 0"
    by (simp_all add: sample_filters_def mk_SymbolFilters_def)
  have s: "snap_price sample_filters (Fin 100) = Some (Fin 100)" "snap_quantity sample_filters limit_order = Some (Fin 100)"
    by (simp_all add: snap_price_def snap_quantity_def market_or_def out_of_bounds_def Let_def f n o p)
  show ?thesis by (simp add: normalize_and_validate_def normalize_price_def o f s p Let_def)
qed

lemma sample_submits: "\<exists>s. futures_submit futures_sample limit_order ''K'' [] (futures_connector, 0) = (Inr (C_OK, ''7''), s)"
proof -
  have v: "futures_validate limit_order = C_OK" by code_simp
  have y: "futures_symbol (o_symbol limit_order) = Inr ''BTCUSDT''" by code_simp
  have f: "fc_symbol_filters futures_connector ''BTCUSDT'' = Some sample_filters" by (simp add: futures_connector_def)
  have n: "show_nat 7 = ''7''" by code_simp
  obtain ps where "futures_order_params limit_order client_id = Inr (C_OK, ps client_id)" for client_id
    using v y by (simp add: futures_order_params_def Let_def)
  then show ?thesis
    by (simp add: futures_submit_def prepare_order_def y get_symbol_filters_def f sample_normalized futures_send_def signed_post_def
        futures_sample_def on_response_def http_ok_def futures_parse_order_id_def json_find_def thrown_def get_uint64_def
        ok_or_unknown_def n Let_def)
qed

theorem futures_order_obeys_filters_witness:
  "\<exists>fl price. fc_symbol_filters (fst (snd (futures_submit futures_sample limit_order ''K'' [] (futures_connector, 0)))) ''BTCUSDT'' = Some fl \<and>
     obeys (ff_tick_size fl) (ff_min_price fl) (ff_max_price fl) (Fin 100) price"
proof -
  obtain f' w' where s: "futures_submit futures_sample limit_order ''K'' [] (futures_connector, 0) = (Inr (C_OK, ''7''), f', w')"
    using sample_submits by fastforce
  have o: "o_type limit_order = LIMIT" "o_price limit_order = Fin 100" by (simp_all add: limit_order_def)
  have p: "0 < Fin 1" by code_simp
  have "filters_ok futures_connector"
    using p by (simp add: filters_ok_def futures_connector_def sample_filters_def mk_FuturesConnector_def split: if_splits)
  from futures_order_obeys_filters[OF s o(1) this] obtain symbol fl price where
    "futures_symbol (o_symbol limit_order) = Inr symbol" "fc_symbol_filters f' symbol = Some fl"
    "obeys (ff_tick_size fl) (ff_min_price fl) (ff_max_price fl) (Fin 100) price" unfolding o(2) by blast
  moreover have "futures_symbol (o_symbol limit_order) = Inr ''BTCUSDT''" by code_simp
  ultimately show ?thesis using s by auto
qed

end
