(* ===== verification/Okx_Connector.thy ===== *)
theory Okx_Connector
  imports Venue_Rest
begin

text \<open>
  \<^verbatim>\<open>core/execution/okx/okx_connector.cpp\<close>: the orders and the reconciliation snapshot of OKX.
\<close>

section \<open>Orders\<close>

definition okx_client_order_id :: "u64 \<Rightarrow> string" where
  "okx_client_order_id cid = ''TRT-'' @ decimal (unat cid) @ ''-OKX''"

definition okx_trade_mode :: "string \<Rightarrow> string" where
  "okx_trade_mode inst_id =
     (if contains_text ''-SWAP'' inst_id \<or> contains_text ''-FUTURES'' inst_id \<or> contains_text ''-OPTION'' inst_id
      then ''cross'' else ''cash'')"

definition okx_order_type :: "Order \<Rightarrow> string" where
  "okx_order_type order = (if o_type order = MARKET then ''market'' else case o_tif order of
     IOC \<Rightarrow> ''ioc'' | FOK \<Rightarrow> ''fok'' | GTX \<Rightarrow> ''post_only'' | GTC \<Rightarrow> ''limit'')"

definition okx_instrument :: "string \<Rightarrow> exn + string" where
  "okx_instrument symbol = lift_std (map_for_exchange OKX symbol)"

definition okx_order_fields :: "Order \<Rightarrow> string \<Rightarrow> (string \<times> string) list" where
  "okx_order_fields order inst_id =
     [(''instId'', inst_id), (''tdMode'', okx_trade_mode inst_id), (''clOrdId'', okx_client_order_id (o_client_order_id order)),
      (''side'', if o_side order = BID then ''buy'' else ''sell''), (''ordType'', okx_order_type order),
      (''sz'', format_decimal (o_quantity order))] @
     (if o_type order \<noteq> MARKET then [(''px'', format_decimal (o_price order))] else [])"

definition okx_order_payload :: "Order \<Rightarrow> exn + string" where
  "okx_order_payload order =
     (if o_type order = STOP_LIMIT then Inr []
      else and_then (okx_instrument (o_symbol order)) (\<lambda>inst_id. Inr (object_text (okx_order_fields order inst_id))))"

section \<open>Responses\<close>

text \<open>The first element under \<open>data\<close>; the venue's order id is the out parameter and is overwritten when it is there.\<close>

definition okx_parse_order_id :: "'j json_rest \<Rightarrow> string \<Rightarrow> string \<Rightarrow> exn + bool \<times> string" where
  "okx_parse_order_id L body vid =
     (let json = jl_parse L body in
      if jl_is_discarded L json then Inr (False, vid)
      else and_then (first_at L ''data'' json) (\<lambda>x. case x of
        None \<Rightarrow> Inr (False, vid)
      | Some d \<Rightarrow> and_then (string_or_empty L ''ordId'' d) (\<lambda>found. Inr (found \<noteq> [], found))))"

definition okx_sub_code :: "string \<Rightarrow> ConnectorResult" where
  "okx_sub_code sub =
     (if sub = [] \<or> sub = ''0'' then ERROR_UNKNOWN
      else if sub = ''50011'' then ERROR_RATE_LIMIT
      else if sub = ''50113'' \<or> sub = ''50114'' then AUTH_FAILED
      else if sub = ''51008'' then ERROR_INSUFFICIENT_FUNDS
      else ERROR_INVALID_ORDER)"

definition okx_business_error :: "'j json_rest \<Rightarrow> string \<Rightarrow> exn + ConnectorResult" where
  "okx_business_error L body =
     (let json = jl_parse L body in
      if jl_is_discarded L json then Inr ERROR_UNKNOWN
      else and_then (string_or_empty L ''code'' json) (\<lambda>top.
        if top \<noteq> [] \<and> top \<noteq> ''0'' then
          Inr (if top = ''50011'' then ERROR_RATE_LIMIT
               else if top = ''50113'' \<or> top = ''50114'' then AUTH_FAILED else ERROR_INVALID_ORDER)
        else and_then (first_at L ''data'' json) (\<lambda>x. case x of
          None \<Rightarrow> Inr ERROR_UNKNOWN
        | Some d \<Rightarrow> and_then (string_or_empty L ''sCode'' d) (\<lambda>sub. Inr (okx_sub_code sub)))))"

definition okx_order_status :: "string \<Rightarrow> OrderState" where
  "okx_order_status raw =
     (if raw = ''live'' then OPEN else if raw = ''partially_filled'' then PARTIALLY_FILLED
      else if raw = ''filled'' then FILLED else if raw = ''canceled'' then CANCELED else REJECTED)"

definition okx_parse_query :: "'j json_rest \<Rightarrow> int \<Rightarrow> string \<Rightarrow> FillUpdate \<Rightarrow> exn + bool \<times> FillUpdate" where
  "okx_parse_query L now_ns body status =
     (let json = jl_parse L body in
      if jl_is_discarded L json then Inr (False, status)
      else and_then (first_at L ''data'' json) (\<lambda>x. case x of
        None \<Rightarrow> Inr (False, status)
      | Some d \<Rightarrow>
          and_then (number_or_zero L ''accFillSz'' d) (\<lambda>filled.
          and_then (number_or_zero L ''avgPx'' d) (\<lambda>price.
          and_then (string_or_empty L ''state'' d) (\<lambda>state.
            Inr (True, status\<lparr>fu_cumulative_filled_qty := filled, fu_fill_qty := filled, fu_avg_fill_price := price,
              fu_fill_price := price, fu_new_state := okx_order_status state, fu_local_ts_ns := now_ns\<rparr>))))))"

definition okx_parse_cancel :: "'j json_rest \<Rightarrow> string \<Rightarrow> exn + bool" where
  "okx_parse_cancel L body =
     (let json = jl_parse L body in
      if jl_is_discarded L json then Inr False
      else and_then (first_at L ''data'' json) (\<lambda>x. case x of
        None \<Rightarrow> Inr False
      | Some d \<Rightarrow> and_then (string_or_empty L ''sCode'' d) (\<lambda>sub. Inr (sub = ''0''))))"

section \<open>The tables of a snapshot\<close>

definition okx_open_order :: "'j json_rest \<Rightarrow> 'j \<Rightarrow> exn + ReconciledOrder" where
  "okx_open_order L item =
     and_then (string_or_empty L ''ordId'' item) (\<lambda>vid.
     and_then (string_or_empty L ''instId'' item) (\<lambda>inst.
     and_then (side_value L ''side'' ''buy'' ''sell'' item) (\<lambda>side.
     and_then (number_or_zero L ''sz'' item) (\<lambda>qty.
     and_then (number_or_zero L ''accFillSz'' item) (\<lambda>filled.
     and_then (number_or_zero L ''px'' item) (\<lambda>price.
     and_then (string_or_empty L ''state'' item) (\<lambda>state.
       Inr (mk_ReconciledOrder\<lparr>ro_venue_order_id := id_text vid, ro_symbol := symbol_text inst, ro_side := side,
         ro_quantity := qty, ro_filled_quantity := filled, ro_price := price, ro_state := okx_order_status state\<rparr>))))))))"

definition okx_balance :: "'j json_rest \<Rightarrow> 'j \<Rightarrow> exn + ReconciledBalance" where
  "okx_balance L item =
     and_then (string_or_empty L ''ccy'' item) (\<lambda>asset.
     and_then (number_or_zero L ''eq'' item) (\<lambda>total.
     and_then (number_or_zero L ''availEq'' item) (\<lambda>available.
       Inr \<lparr>rb_asset = symbol_text asset, rb_total = total, rb_available = available\<rparr>)))"

definition okx_position :: "'j json_rest \<Rightarrow> 'j \<Rightarrow> exn + ReconciledPosition" where
  "okx_position L item =
     and_then (string_or_empty L ''instId'' item) (\<lambda>inst.
     and_then (number_or_zero L ''pos'' item) (\<lambda>qty.
     and_then (number_or_zero L ''avgPx'' item) (\<lambda>price.
       Inr (mk_ReconciledPosition\<lparr>rp_symbol := symbol_text inst, rp_quantity := qty, rp_avg_entry_price := price\<rparr>))))"

definition okx_fill :: "'j json_rest \<Rightarrow> 'j \<Rightarrow> exn + ReconciledFill" where
  "okx_fill L item =
     and_then (string_or_empty L ''tradeId'' item) (\<lambda>trade.
     and_then (string_or_empty L ''ordId'' item) (\<lambda>vid.
     and_then (string_or_empty L ''instId'' item) (\<lambda>inst.
     and_then (side_value L ''side'' ''buy'' ''sell'' item) (\<lambda>side.
     and_then (number_or_zero L ''fillSz'' item) (\<lambda>qty.
     and_then (number_or_zero L ''fillPx'' item) (\<lambda>price.
     and_then (number_or_zero L ''fee'' item) (\<lambda>fee.
     and_then (string_or_empty L ''feeCcy'' item) (\<lambda>fee_asset.
     and_then (jr_value_i64 L ''ts'' 0 item) (\<lambda>ts.
       Inr (mk_ReconciledFill\<lparr>rf_exchange := OKX, rf_venue_trade_id := id_text trade, rf_venue_order_id := id_text vid,
         rf_symbol := symbol_text inst, rf_side := side, rf_quantity := qty, rf_price := price, rf_notional := qty * price,
         rf_fee := \<bar>fee\<bar>, rf_fee_asset := symbol_text fee_asset, rf_exchange_ts_ns := wrap_i64 (ts * 1000000)\<rparr>))))))))))"

definition okx_data :: "'j json_rest \<Rightarrow> 'j \<Rightarrow> exn + 'j" where
  "okx_data L = jr_at L ''data''"

definition okx_append_open_orders :: "'j json_rest \<Rightarrow> string \<Rightarrow> ReconciliationSnapshot \<Rightarrow> exn + ConnectorResult \<times> ReconciliationSnapshot" where
  "okx_append_open_orders L body snap =
     and_then (okx_data L (jl_parse L body)) (\<lambda>orders.
       set_table (\<lambda>t. snap\<lparr>rs_open_orders := t\<rparr>)
         (append_array L max_open_orders (okx_open_order L) orders (rs_open_orders snap)))"

definition okx_balance_details :: "'j json_rest \<Rightarrow> 'j \<Rightarrow> exn + 'j" where
  "okx_balance_details L json =
     and_then (jr_at L ''data'' json) (\<lambda>data. and_then (jr_nth L 0 data) (jr_at L ''details''))"

definition okx_append_balances :: "'j json_rest \<Rightarrow> string \<Rightarrow> ReconciliationSnapshot \<Rightarrow> exn + ConnectorResult \<times> ReconciliationSnapshot" where
  "okx_append_balances L body snap =
     and_then (okx_balance_details L (jl_parse L body)) (\<lambda>details.
       set_table (\<lambda>t. snap\<lparr>rs_balances := t\<rparr>) (append_array L max_balances (okx_balance L) details (rs_balances snap)))"

definition okx_append_positions :: "'j json_rest \<Rightarrow> string \<Rightarrow> ReconciliationSnapshot \<Rightarrow> exn + ConnectorResult \<times> ReconciliationSnapshot" where
  "okx_append_positions L body snap =
     and_then (okx_data L (jl_parse L body)) (\<lambda>positions.
       set_table (\<lambda>t. snap\<lparr>rs_positions := t\<rparr>) (append_array L max_positions (okx_position L) positions (rs_positions snap)))"

definition okx_append_fills :: "'j json_rest \<Rightarrow> string \<Rightarrow> ReconciliationSnapshot \<Rightarrow> exn + ConnectorResult \<times> ReconciliationSnapshot" where
  "okx_append_fills L body snap =
     and_then (okx_data L (jl_parse L body)) (\<lambda>fills.
       set_table (\<lambda>t. snap\<lparr>rs_fills := t\<rparr>) (append_array L max_fills (okx_fill L) fills (rs_fills snap)))"

section \<open>Operations\<close>

definition okx_submit :: "('j, 'w) VenueApi \<Rightarrow> LiveConnector \<Rightarrow> Order \<Rightarrow> string \<Rightarrow> string \<Rightarrow> 'w \<Rightarrow>
    (ConnectorResult \<times> string, 'w) call" where
  "okx_submit V c order key vid w = (case okx_order_payload order of
     Inl e \<Rightarrow> (Inl e, w)
   | Inr payload \<Rightarrow>
       if payload = [] then (Inr (ERROR_INVALID_ORDER, vid), w)
       else case auth_post V c ''/api/v5/trade/order'' payload key w of (r, w) \<Rightarrow>
         (on_response http_error vid (\<lambda>body. and_then (okx_parse_order_id (va_json V) body vid) (\<lambda>(found, vid).
            if found then Inr (C_OK, vid)
            else and_then (okx_business_error (va_json V) body) (\<lambda>e. Inr (e, vid)))) r, w))"

definition okx_cancel :: "('j, 'w) VenueApi \<Rightarrow> LiveConnector \<Rightarrow> VenueOrderEntry \<Rightarrow> 'w \<Rightarrow> (ConnectorResult \<times> unit, 'w) call" where
  "okx_cancel V c entry w = (case okx_instrument (ve_symbol entry) of
     Inl e \<Rightarrow> (Inl e, w)
   | Inr inst \<Rightarrow>
       let payload = object_text [(''instId'', inst), (''ordId'', ve_venue_order_id entry),
             (''clOrdId'', okx_client_order_id (ve_client_order_id entry))]
       in case auth_post V c ''/api/v5/trade/cancel-order'' payload [] w of (r, w) \<Rightarrow>
         (on_response http_error () (\<lambda>body. and_then (okx_parse_cancel (va_json V) body) (\<lambda>ok. ok_or_unknown (ok, ()))) r, w))"

definition okx_replace :: "('j, 'w) VenueApi \<Rightarrow> LiveConnector \<Rightarrow> VenueOrderEntry \<Rightarrow> Order \<Rightarrow> string \<Rightarrow> 'w \<Rightarrow>
    (ConnectorResult \<times> string, 'w) call" where
  "okx_replace V c entry replacement vid w =
     (if o_type replacement = STOP_LIMIT then (Inr (ERROR_INVALID_ORDER, vid), w)
      else case okx_instrument (ve_symbol entry) of
        Inl e \<Rightarrow> (Inl e, w)
      | Inr inst \<Rightarrow>
          let payload = object_text [(''instId'', inst), (''ordId'', ve_venue_order_id entry),
                (''clOrdId'', okx_client_order_id (ve_client_order_id entry)),
                (''newSz'', format_decimal (o_quantity replacement)), (''newPx'', format_decimal (o_price replacement)),
                (''reqId'', okx_client_order_id (o_client_order_id replacement))]
          in case auth_post V c ''/api/v5/trade/amend-order'' payload [] w of (r, w) \<Rightarrow>
            (on_response http_error vid (\<lambda>body. and_then (okx_parse_order_id (va_json V) body vid) ok_or_unknown) r, w))"

definition okx_query :: "('j, 'w) VenueApi \<Rightarrow> LiveConnector \<Rightarrow> VenueOrderEntry \<Rightarrow> FillUpdate \<Rightarrow> 'w \<Rightarrow>
    (ConnectorResult \<times> FillUpdate, 'w) call" where
  "okx_query V c entry status w = (case okx_instrument (ve_symbol entry) of
     Inl e \<Rightarrow> (Inl e, w)
   | Inr inst \<Rightarrow>
       let query = ''instId='' @ inst @ ''&ordId='' @ ve_venue_order_id entry @ ''&clOrdId='' @
             okx_client_order_id (ve_client_order_id entry)
       in case auth_get V c (''/api/v5/trade/order?'' @ query) w of (r, w) \<Rightarrow>
         (on_response http_error status (\<lambda>body.
            and_then (okx_parse_query (va_json V) (ht_now_ns (va_http V) w) body status) ok_or_unknown) r, w))"

definition okx_cancel_all :: "string \<Rightarrow> 'w \<Rightarrow> (ConnectorResult \<times> unit, 'w) call" where
  "okx_cancel_all symbol w = (Inr (ERROR_INVALID_ORDER, ()), w)"

definition okx_fetch :: "('j, 'w) VenueApi \<Rightarrow> LiveConnector \<Rightarrow> ReconciliationSnapshot \<Rightarrow> 'w \<Rightarrow>
    (ConnectorResult \<times> ReconciliationSnapshot, 'w) call" where
  "okx_fetch V c snap w =
     (let L = va_json V in
      and_fetch (fetch_table http_error (auth_get V c ''/api/v5/trade/orders-pending'') (okx_append_open_orders L) (rs_clear snap) w) (\<lambda>s w.
      and_fetch (fetch_table http_error (auth_get V c ''/api/v5/account/balance'') (okx_append_balances L) s w) (\<lambda>s w.
      and_fetch (fetch_table http_error (auth_get V c ''/api/v5/account/positions'') (okx_append_positions L) s w) (\<lambda>s w.
        fetch_optional http_error (auth_get V c ''/api/v5/trade/fills'') (okx_append_fills L) s w))))"

definition okx_venue :: "('j, 'w) VenueApi \<Rightarrow> LiveConnector \<Rightarrow> (exn option \<times> 'w) Venue" where
  "okx_venue V c = \<lparr>vn_submit = (\<lambda>order key vid. run_call vid (okx_submit V c order key vid)),
     vn_cancel = (\<lambda>entry v. case run_call () (okx_cancel V c entry) v of (r, _, v) \<Rightarrow> (r, v)),
     vn_replace = (\<lambda>entry order vid. run_call vid (okx_replace V c entry order vid)),
     vn_query = (\<lambda>entry status. run_call status (okx_query V c entry status)),
     vn_cancel_all = (\<lambda>symbol v. case run_call () (okx_cancel_all symbol) v of (r, _, v) \<Rightarrow> (r, v))\<rparr>"

section \<open>What is sent and what is read\<close>

definition okx_body :: "Order \<Rightarrow> string option" where
  "okx_body order = (case okx_order_payload order of Inl e \<Rightarrow> None | Inr p \<Rightarrow> if p = [] then None else Some p)"

interpretation okx: body_venue "va_http V" "lc_api_url c @ ''/api/v5/trade/order''" okx_body "okx_submit V c" for V c
  by unfold_locales (auto simp: okx_submit_def okx_body_def auth_post_def Let_def split: sum.splits if_splits prod.splits)

text \<open>
  C15. However often a submission to OKX is retried, all it does to the outside world is to post one and the same
  body, which carries the client order id, to the order address: the venue can tell the repetitions. An order whose
  symbol cannot be mapped and a stop order are not sent at all.
\<close>

theorem okx_submission_sends_one_body:
  "case okx_body order of
     Some b \<Rightarrow> posts (va_http V) (lc_api_url c @ ''/api/v5/trade/order'') b w
       (snd (snd (snd (submit_order io io' (okx_venue V c) order (c', None, w)))))
   | None \<Rightarrow> snd (snd (snd (submit_order io io' (okx_venue V c) order (c', None, w)))) = w"
proof -
  have v: "vn_submit (okx_venue V c) = (\<lambda>o1 key vid. run_call vid (okx_submit V c o1 key vid))"
    by (simp add: okx_venue_def)
  show ?thesis
    by (cases "okx_body order") (simp_all add: okx.submission_posts[OF v] okx.submission_refused[OF v])
qed

lemma okx_key: "lc_exchange c = OKX \<Longrightarrow> okx_client_order_id cid = make_idempotency_key cid c"
  by (simp add: okx_client_order_id_def make_idempotency_key_def)

text \<open>
  The order OKX is sent is JSON and says what the order says: instrument, side, type, quantity, price and the id
  by which it can be found again.
\<close>

theorem okx_order_reads_back:
  assumes "o_type order \<noteq> STOP_LIMIT" and "map_for_exchange OKX (o_symbol order) = Inr inst" and "clean_text inst"
  shows "\<exists>payload. okx_order_payload order = Inr payload \<and>
    parse_json payload = Inr (JObject (map (\<lambda>(k, v). (k, JString v)) (okx_order_fields order inst)))"
proof -
  have p: "okx_order_payload order = Inr (object_text (okx_order_fields order inst))"
    using assms(1,2) by (simp add: okx_order_payload_def okx_instrument_def)
  have k: "clean_text ''instId''" "clean_text ''tdMode''" "clean_text ''clOrdId''" "clean_text ''side''" "clean_text ''ordType''"
    "clean_text ''sz''" "clean_text ''px''" "clean_text ''cross''" "clean_text ''cash''" "clean_text ''buy''" "clean_text ''sell''"
    "clean_text ''market''" "clean_text ''ioc''" "clean_text ''fok''" "clean_text ''post_only''" "clean_text ''limit''"
    "clean_text ''TRT-''" "clean_text ''-OKX''"
    by code_simp+
  have t: "clean_text (okx_trade_mode inst)" "clean_text (okx_order_type order)"
    using k by (auto simp: okx_trade_mode_def okx_order_type_def split: TimeInForce.splits simp del: clean_text_simps(1,2))
  have "clean_text (okx_client_order_id cid)" for cid
    by (simp only: okx_client_order_id_def clean_text_simps(3) clean_decimal k HOL.simp_thms)
  note t = t this
  have "list_all (\<lambda>(k, v). clean_text k \<and> clean_text v) (okx_order_fields order inst)"
    using k t assms(3) by (simp add: okx_order_fields_def del: clean_text_simps(1,2))
  from object_text_reads_back[OF this] p show ?thesis by simp
qed

lemma okx_orders_read:
  assumes "okx_append_open_orders L body s = Inr (C_OK, s')" and "rs_open_orders s = []"
  shows "\<exists>rows. s' = s\<lparr>rs_open_orders := rows\<rparr> \<and> reports L (okx_data L) (okx_open_order L) body rows \<and> length rows \<le> max_open_orders"
  using append_reports[where put = "\<lambda>t. s\<lparr>rs_open_orders := t\<rparr>" and sel = "okx_data L" and rd = "okx_open_order L" and cap = max_open_orders
    and L = L and body = body and s = s'] assms by (simp add: okx_append_open_orders_def)

lemma okx_balances_read:
  assumes "okx_append_balances L body s = Inr (C_OK, s')" and "rs_balances s = []"
  shows "\<exists>rows. s' = s\<lparr>rs_balances := rows\<rparr> \<and> reports L (okx_balance_details L) (okx_balance L) body rows \<and> length rows \<le> max_balances"
  using append_reports[where put = "\<lambda>t. s\<lparr>rs_balances := t\<rparr>" and sel = "okx_balance_details L" and rd = "okx_balance L" and cap = max_balances
    and L = L and body = body and s = s'] assms by (simp add: okx_append_balances_def)

lemma okx_positions_read:
  assumes "okx_append_positions L body s = Inr (C_OK, s')" and "rs_positions s = []"
  shows "\<exists>rows. s' = s\<lparr>rs_positions := rows\<rparr> \<and> reports L (okx_data L) (okx_position L) body rows \<and> length rows \<le> max_positions"
  using append_reports[where put = "\<lambda>t. s\<lparr>rs_positions := t\<rparr>" and sel = "okx_data L" and rd = "okx_position L" and cap = max_positions
    and L = L and body = body and s = s'] assms by (simp add: okx_append_positions_def)

lemma okx_fills_read:
  assumes "okx_append_fills L body s = Inr (C_OK, s')" and "rs_fills s = []"
  shows "\<exists>rows. s' = s\<lparr>rs_fills := rows\<rparr> \<and> reports L (okx_data L) (okx_fill L) body rows \<and> length rows \<le> max_fills"
  using append_reports[where put = "\<lambda>t. s\<lparr>rs_fills := t\<rparr>" and sel = "okx_data L" and rd = "okx_fill L" and cap = max_fills
    and L = L and body = body and s = s'] assms by (simp add: okx_append_fills_def)

text \<open>
  C14. A snapshot of OKX that succeeds is complete: its tables hold exactly the orders, balances, positions and fills of
  the four responses, in their order, whatever the snapshot held before. Only a venue that does not offer fills
  at all leaves that table empty.
\<close>

theorem okx_snapshot_complete:
  assumes "okx_fetch V c snap w = (Inr (C_OK, s), w')"
  shows "\<exists>r1 r2 r3 r4 w1 w2 w3.
    auth_get V c ''/api/v5/trade/orders-pending'' w = (r1, w1) \<and> auth_get V c ''/api/v5/account/balance'' w1 = (r2, w2) \<and>
    auth_get V c ''/api/v5/account/positions'' w2 = (r3, w3) \<and> auth_get V c ''/api/v5/trade/fills'' w3 = (r4, w') \<and>
    list_all http_ok [r1, r2, r3] \<and>
    reports (va_json V) (okx_data (va_json V)) (okx_open_order (va_json V)) (hr_body r1) (rs_open_orders s) \<and>
    reports (va_json V) (okx_balance_details (va_json V)) (okx_balance (va_json V)) (hr_body r2) (rs_balances s) \<and>
    reports (va_json V) (okx_data (va_json V)) (okx_position (va_json V)) (hr_body r3) (rs_positions s) \<and>
    (if not_offered r4 then rs_fills s = []
     else http_ok r4 \<and> reports (va_json V) (okx_data (va_json V)) (okx_fill (va_json V)) (hr_body r4) (rs_fills s)) \<and>
    length (rs_open_orders s) \<le> max_open_orders \<and> length (rs_balances s) \<le> max_balances \<and>
    length (rs_positions s) \<le> max_positions \<and> length (rs_fills s) \<le> max_fills"
proof -
  let ?L = "va_json V"
  from assms obtain r1 r2 r3 r4 w1 w2 w3 s1 s2 s3 where e:
    "auth_get V c ''/api/v5/trade/orders-pending'' w = (r1, w1)" "http_ok r1"
    "okx_append_open_orders ?L (hr_body r1) (rs_clear snap) = Inr (C_OK, s1)"
    "auth_get V c ''/api/v5/account/balance'' w1 = (r2, w2)" "http_ok r2" "okx_append_balances ?L (hr_body r2) s1 = Inr (C_OK, s2)"
    "auth_get V c ''/api/v5/account/positions'' w2 = (r3, w3)" "http_ok r3" "okx_append_positions ?L (hr_body r3) s2 = Inr (C_OK, s3)"
    "auth_get V c ''/api/v5/trade/fills'' w3 = (r4, w')"
    "if not_offered r4 then s = s3 else http_ok r4 \<and> okx_append_fills ?L (hr_body r4) s3 = Inr (C_OK, s)"
    unfolding okx_fetch_def Let_def and_fetch_ok fetch_table_ok[OF http_error_fails] fetch_optional_ok[OF http_error_fails]
    by blast
  have z: "rs_open_orders (rs_clear snap) = []" "rs_balances (rs_clear snap) = []" "rs_positions (rs_clear snap) = []"
    "rs_fills (rs_clear snap) = []" by (simp_all add: rs_clear_def)
  from okx_orders_read[OF e(3) z(1)] obtain t1 where t1: "s1 = rs_clear snap\<lparr>rs_open_orders := t1\<rparr>"
    "reports ?L (okx_data ?L) (okx_open_order ?L) (hr_body r1) t1" "length t1 \<le> max_open_orders" by blast
  from okx_balances_read[OF e(6)] z t1(1) obtain t2 where t2: "s2 = s1\<lparr>rs_balances := t2\<rparr>"
    "reports ?L (okx_balance_details ?L) (okx_balance ?L) (hr_body r2) t2" "length t2 \<le> max_balances" by auto
  from okx_positions_read[OF e(9)] z t1(1) t2(1) obtain t3 where t3: "s3 = s2\<lparr>rs_positions := t3\<rparr>"
    "reports ?L (okx_data ?L) (okx_position ?L) (hr_body r3) t3" "length t3 \<le> max_positions" by auto
  have z3: "rs_fills s3 = []" using t1(1) t2(1) t3(1) z by simp
  have "\<exists>t4. s = s3\<lparr>rs_fills := t4\<rparr> \<and> length t4 \<le> max_fills \<and>
    (if not_offered r4 then t4 = [] else http_ok r4 \<and> reports ?L (okx_data ?L) (okx_fill ?L) (hr_body r4) t4)"
    using e(11) okx_fills_read[OF _ z3, of ?L "hr_body r4" s] z3
    by (cases "not_offered r4") (auto intro: exI[of _ "[]"])
  then obtain t4 where "s = s3\<lparr>rs_fills := t4\<rparr>" "length t4 \<le> max_fills"
    "if not_offered r4 then t4 = [] else http_ok r4 \<and> reports ?L (okx_data ?L) (okx_fill ?L) (hr_body r4) t4" by blast
  with e t1 t2 t3 show ?thesis by (intro exI conjI) (assumption | simp)+
qed

text \<open>A number that comes as a string makes \<open>value\<close> throw, and OKX sends its numbers as strings.\<close>

lemma read_all_throws:
  assumes "\<exists>e. rd x = Inl e" and "x \<in> set xs" and "length t + length xs \<le> cap"
  shows "\<exists>e. append_items cap rd xs t = Inl e"
  using assms(2,3)
proof (induction xs arbitrary: t)
  case (Cons y ys)
  show ?case
  proof (cases "rd y")
    case (Inr r)
    with Cons assms(1) have "x \<in> set ys" "length (t @ [r]) + length ys \<le> cap" by auto
    from Cons.IH[OF this] Inr Cons.prems show ?thesis by (auto simp: ft_push_def)
  qed simp
qed simp

text \<open>
  Where the JSON package throws for a number under quotes, as its manual says, one open order whose size OKX reports
  as a string, as OKX does, makes the reconciliation throw instead of answering: nothing catches it before \<open>main\<close>, and
  the engine ends.
\<close>

theorem okx_text_size_ends_engine:
  assumes "\<And>key d j x. jl_find (va_json V) key j = Some x \<Longrightarrow> jl_is_string (va_json V) x \<Longrightarrow>
      \<exists>e. jr_value_double (va_json V) key d j = Inl e"
    and "auth_get V c ''/api/v5/trade/orders-pending'' w = (r, w1)" and "http_ok r"
    and "okx_data (va_json V) (jl_parse (va_json V) (hr_body r)) = Inr arr" and "jl_is_array (va_json V) arr"
    and "item \<in> set (jl_elems (va_json V) arr)" and "length (jl_elems (va_json V) arr) \<le> max_open_orders"
    and "jl_find (va_json V) ''sz'' item = Some x" and "jl_is_string (va_json V) x"
  shows "\<exists>e. okx_fetch V c snap w = (Inl e, w1)"
proof -
  let ?L = "va_json V"
  obtain e where "number_or_zero ?L ''sz'' item = Inl e" using assms(1)[OF assms(8,9)] by (auto simp: number_or_zero_def)
  then have "\<exists>e. okx_open_order ?L item = Inl e"
    by (simp add: okx_open_order_def and_then_def split: sum.splits)
  from read_all_throws[where rd = "okx_open_order ?L" and t = "[]" and cap = max_open_orders, OF this assms(6)] assms(7)
  obtain e where "append_items max_open_orders (okx_open_order ?L) (jl_elems ?L arr) [] = Inl e" by auto
  then have "okx_append_open_orders ?L (hr_body r) (rs_clear snap) = Inl e"
    using assms(4,5) by (simp add: okx_append_open_orders_def append_array_def set_table_def rs_clear_def)
  then show ?thesis using assms(2,3)
    by (simp add: okx_fetch_def Let_def fetch_table_def on_response_def and_fetch_def)
qed

section \<open>Witnesses\<close>

definition okx_row :: json where "okx_row = JObject [(''ordId'', JString ''7''), (''details'', JArray [])]"

definition okx_sample :: "(json, nat) VenueApi" where
  "okx_sample = sample_api 200 ''body'' [(''body'', JObject [(''data'', JArray [okx_row])])]"

definition okx_text_sample :: "(json, nat) VenueApi" where
  "okx_text_sample = sample_api 200 ''body'' [(''body'', JObject [(''data'', JArray [JObject [(''sz'', JString ''0.5'')]])])]"

definition empty_snapshot :: ReconciliationSnapshot where
  "empty_snapshot = \<lparr>rs_open_orders = [], rs_fills = [], rs_balances = [], rs_positions = []\<rparr>"

lemma okx_sample_fetch: "\<exists>s. okx_fetch okx_sample okx_connector empty_snapshot 0 = (Inr (C_OK, s), 4)"
  by (simp add: okx_fetch_def okx_sample_def Let_def and_fetch_def fetch_table_def fetch_optional_def auth_get_def on_response_def
      http_ok_def not_offered_def okx_append_open_orders_def okx_append_balances_def okx_append_positions_def okx_append_fills_def
      okx_data_def okx_balance_details_def append_array_def okx_open_order_def okx_position_def okx_fill_def okx_row_def
      string_or_empty_def number_or_zero_def side_value_def typed_value_def thrown_def json_find_def json_elems_def get_string_def
      set_table_def ft_push_def max_open_orders_def max_fills_def max_balances_def max_positions_def rs_clear_def)

theorem okx_snapshot_complete_witness:
  "\<exists>s :: ReconciliationSnapshot. reports (va_json okx_sample) (okx_data (va_json okx_sample)) (okx_open_order (va_json okx_sample)) ''body'' (rs_open_orders s)"
proof -
  obtain s where "okx_fetch okx_sample okx_connector empty_snapshot 0 = (Inr (C_OK, s), 4)" using okx_sample_fetch by blast
  from okx_snapshot_complete[OF this] show ?thesis by (intro exI[of _ s]) (auto simp: auth_get_def okx_sample_def)
qed

theorem okx_order_reads_back_witness:
  "\<exists>payload. okx_order_payload order_1 = Inr payload \<and>
    parse_json payload = Inr (JObject (map (\<lambda>(k, v). (k, JString v)) (okx_order_fields order_1 ''BTC-USDT'')))"
proof (rule okx_order_reads_back)
  show "o_type order_1 \<noteq> STOP_LIMIT" by (simp add: order_1_def mk_Order_def)
  have "o_symbol order_1 = ''BTCUSDT''" by (simp add: order_1_def)
  moreover have "map_for_exchange OKX ''BTCUSDT'' = Inr ''BTC-USDT''" by code_simp
  ultimately show "map_for_exchange OKX (o_symbol order_1) = Inr ''BTC-USDT''" by simp
  show "clean_text ''BTC-USDT''" by code_simp
qed

theorem okx_text_size_ends_engine_witness: "\<exists>e. okx_fetch okx_text_sample okx_connector empty_snapshot 0 = (Inl e, 1)"
proof (rule okx_text_size_ends_engine[where r = "\<lparr>hr_status = 200, hr_body = ''body''\<rparr>"
      and arr = "JArray [JObject [(''sz'', JString ''0.5'')]]" and item = "JObject [(''sz'', JString ''0.5'')]" and x = "JString ''0.5''"])
  show "\<exists>e. jr_value_double (va_json okx_text_sample) key d j = Inl e"
    if "jl_find (va_json okx_text_sample) key j = Some x" "jl_is_string (va_json okx_text_sample) x" for key d j x
    using that by (auto simp: okx_text_sample_def typed_value_def json_find_def thrown_def get_double_def split: json.splits)
qed (simp_all add: auth_get_def okx_text_sample_def http_ok_def okx_data_def thrown_def json_find_def json_elems_def max_open_orders_def)

end
