(* ===== verification/Coinbase_Connector.thy ===== *)
theory Coinbase_Connector
  imports Venue_Rest
begin

text \<open>
  \<^verbatim>\<open>core/execution/coinbase/coinbase_connector.cpp\<close>: the orders and the reconciliation snapshot of Coinbase.
\<close>

section \<open>Orders\<close>

definition pop_zeros :: "string \<Rightarrow> string" where
  "pop_zeros s = rev (dropWhile (\<lambda>c. c = CHR ''0'') (rev s))"

definition coinbase_decimal :: "double \<Rightarrow> string" where
  "coinbase_decimal value =
     (let out = pop_zeros (fixed_double 6 value);
          out = (if out \<noteq> [] \<and> last out = CHR ''.'' then butlast out else out)
      in if out = [] then ''0'' else out)"

definition limit_config :: "string \<Rightarrow> Order \<Rightarrow> string \<Rightarrow> string" where
  "limit_config kind order rest = quoted kind @ '':{'' @ quoted ''base_size'' @ '':'' @ quoted (coinbase_decimal (o_quantity order)) @
     '','' @ quoted ''limit_price'' @ '':'' @ quoted (coinbase_decimal (o_price order)) @ rest @ ''}''"

definition order_configuration :: "Order \<Rightarrow> string" where
  "order_configuration order = (case o_type order of
     MARKET \<Rightarrow> quoted ''market_market_ioc'' @ '':{'' @ quoted ''base_size'' @ '':'' @ quoted (coinbase_decimal (o_quantity order)) @ ''}''
   | LIMIT \<Rightarrow> (if o_tif order = IOC then limit_config ''sor_limit_ioc'' order []
        else if o_tif order = FOK then limit_config ''limit_limit_fok'' order []
        else limit_config ''limit_limit_gtc'' order ('','' @ quoted ''post_only'' @ '':false''))
   | STOP_LIMIT \<Rightarrow> [])"

definition coinbase_product :: "string \<Rightarrow> exn + string" where
  "coinbase_product symbol = lift_std (map_for_exchange COINBASE symbol)"

definition coinbase_order_payload :: "Order \<Rightarrow> exn + string" where
  "coinbase_order_payload order = and_then (coinbase_product (o_symbol order)) (\<lambda>product. Inr (
     ''{'' @ quoted ''client_order_id'' @ '':'' @ quoted (decimal (unat (o_client_order_id order))) @ '','' @
     quoted ''product_id'' @ '':'' @ quoted product @ '','' @
     quoted ''side'' @ '':'' @ quoted (if o_side order = BID then ''BUY'' else ''SELL'') @ '','' @
     quoted ''order_configuration'' @ '':{'' @ order_configuration order @ ''}}''))"

section \<open>Responses\<close>

definition coinbase_parse_order_id :: "'j json_rest \<Rightarrow> string \<Rightarrow> string \<Rightarrow> exn + bool \<times> string" where
  "coinbase_parse_order_id L body vid =
     (let json = jl_parse L body;
          from_response = and_then (jr_at L ''success_response'' json) (string_or_empty L ''order_id'')
      in if jl_is_discarded L json then Inr (False, vid)
      else and_then (jl_value_bool L ''success'' False json) (\<lambda>success.
        and_then (if success then from_response
                  else if jl_find L ''success_response'' json \<noteq> None then from_response
                  else if jl_find L ''order_id'' json \<noteq> None then string_or_empty L ''order_id'' json
                  else Inr vid) (\<lambda>vid. Inr (vid \<noteq> [], vid))))"

definition coinbase_order_status :: "string \<Rightarrow> OrderState" where
  "coinbase_order_status raw =
     (if raw = ''OPEN'' then OPEN else if raw = ''FILLED'' then FILLED else if raw = ''CANCELLED'' then CANCELED
      else if raw = ''REJECTED'' \<or> raw = ''FAILED'' then REJECTED else PENDING)"

definition coinbase_parse_query :: "'j json_rest \<Rightarrow> int \<Rightarrow> string \<Rightarrow> FillUpdate \<Rightarrow> exn + bool \<times> FillUpdate" where
  "coinbase_parse_query L now_ns body status =
     (let json = jl_parse L body in
      if jl_is_discarded L json then Inr (False, status)
      else and_then (jr_at L ''order'' json) (\<lambda>order.
        if \<not> jl_is_object L order then Inr (False, status)
        else
          and_then (number_or_zero L ''filled_size'' order) (\<lambda>filled.
          and_then (number_or_zero L ''average_filled_price'' order) (\<lambda>price.
          and_then (string_or_empty L ''status'' order) (\<lambda>state.
            Inr (True, status\<lparr>fu_cumulative_filled_qty := filled, fu_fill_qty := filled, fu_avg_fill_price := price,
              fu_fill_price := price, fu_new_state := coinbase_order_status state, fu_local_ts_ns := now_ns\<rparr>))))))"

definition coinbase_parse_cancel :: "'j json_rest \<Rightarrow> string \<Rightarrow> exn + bool" where
  "coinbase_parse_cancel L body =
     (let json = jl_parse L body in
      if jl_is_discarded L json then Inr False
      else and_then (first_at L ''results'' json) (\<lambda>x. case x of
        None \<Rightarrow> Inr False | Some d \<Rightarrow> jl_value_bool L ''success'' False d))"

section \<open>The tables of a snapshot\<close>

text \<open>The price stands in the configuration of the order, by its kind.\<close>

fun configured_price :: "'j json_rest \<Rightarrow> 'j \<Rightarrow> string list \<Rightarrow> exn + double" where
  "configured_price L cfg [] = Inr 0"
| "configured_price L cfg (kind # kinds) =
     (if jl_find L kind cfg \<noteq> None then and_then (jr_at L kind cfg) (number_or_zero L ''limit_price'')
      else configured_price L cfg kinds)"

definition coinbase_order_price :: "'j json_rest \<Rightarrow> 'j \<Rightarrow> exn + double" where
  "coinbase_order_price L item =
     and_then (if jl_find L ''order_configuration'' item = None then Inr 0
        else and_then (jr_at L ''order_configuration'' item) (\<lambda>cfg. if \<not> jl_is_object L cfg then Inr 0
          else configured_price L cfg [''limit_limit_gtc'', ''sor_limit_ioc'', ''limit_limit_fok''])) (\<lambda>price.
       if price \<le> 0 then number_or_zero L ''limit_price'' item else Inr price)"

definition coinbase_open_order :: "'j json_rest \<Rightarrow> 'j \<Rightarrow> exn + ReconciledOrder" where
  "coinbase_open_order L item =
     and_then (string_or_empty L ''order_id'' item) (\<lambda>vid.
     and_then (string_or_empty L ''product_id'' item) (\<lambda>product.
     and_then (side_value L ''side'' ''BUY'' ''SELL'' item) (\<lambda>side.
     and_then (number_or_zero L ''base_size'' item) (\<lambda>qty.
     and_then (number_or_zero L ''filled_size'' item) (\<lambda>filled.
     and_then (coinbase_order_price L item) (\<lambda>price.
     and_then (string_or_empty L ''status'' item) (\<lambda>state.
       Inr (mk_ReconciledOrder\<lparr>ro_venue_order_id := id_text vid, ro_symbol := symbol_text product, ro_side := side,
         ro_quantity := qty, ro_filled_quantity := filled, ro_price := price, ro_state := coinbase_order_status state\<rparr>))))))))"

definition amount_at :: "'j json_rest \<Rightarrow> string \<Rightarrow> 'j \<Rightarrow> exn + double" where
  "amount_at L key item = and_then (jr_at L key item) (number_or_zero L ''value'')"

definition coinbase_balance :: "'j json_rest \<Rightarrow> 'j \<Rightarrow> exn + ReconciledBalance" where
  "coinbase_balance L item =
     and_then (string_or_empty L ''currency'' item) (\<lambda>asset.
     and_then (amount_at L ''available_balance'' item) (\<lambda>available.
     and_then (amount_at L ''hold'' item) (\<lambda>hold.
       Inr \<lparr>rb_asset = symbol_text asset, rb_total = available + hold, rb_available = available\<rparr>)))"

definition coinbase_position :: "'j json_rest \<Rightarrow> 'j \<Rightarrow> exn + ReconciledPosition" where
  "coinbase_position L item =
     and_then (string_or_empty L ''product_id'' item) (\<lambda>product.
     and_then (number_or_zero L ''number_of_contracts'' item) (\<lambda>contracts.
     and_then (jr_value_double L ''size'' contracts item) (\<lambda>qty.
     and_then (number_or_zero L ''avg_entry_price'' item) (\<lambda>short_name.
     and_then (jr_value_double L ''average_entry_price'' short_name item) (\<lambda>price.
       Inr (mk_ReconciledPosition\<lparr>rp_symbol := symbol_text product, rp_quantity := qty, rp_avg_entry_price := price\<rparr>))))))"

definition coinbase_fill :: "'j json_rest \<Rightarrow> 'j \<Rightarrow> exn + ReconciledFill" where
  "coinbase_fill L item =
     and_then (string_or_empty L ''trade_id'' item) (\<lambda>trade.
     and_then (string_or_empty L ''order_id'' item) (\<lambda>vid.
     and_then (string_or_empty L ''product_id'' item) (\<lambda>product.
     and_then (side_value L ''side'' ''BUY'' ''SELL'' item) (\<lambda>side.
     and_then (number_or_zero L ''size'' item) (\<lambda>qty.
     and_then (number_or_zero L ''price'' item) (\<lambda>price.
     and_then (number_or_zero L ''commission'' item) (\<lambda>fee.
     and_then (string_or_empty L ''commission_currency'' item) (\<lambda>fee_asset.
     and_then (jr_value_i64 L ''trade_time_ns'' 0 item) (\<lambda>ts.
       Inr (mk_ReconciledFill\<lparr>rf_exchange := COINBASE, rf_venue_trade_id := id_text trade, rf_venue_order_id := id_text vid,
         rf_symbol := symbol_text product, rf_side := side, rf_quantity := qty, rf_price := price, rf_notional := qty * price,
         rf_fee := fee, rf_fee_asset := symbol_text fee_asset, rf_exchange_ts_ns := ts\<rparr>))))))))))"

definition coinbase_append_open_orders ::
  "'j json_rest \<Rightarrow> string \<Rightarrow> ReconciliationSnapshot \<Rightarrow> exn + ConnectorResult \<times> ReconciliationSnapshot" where
  "coinbase_append_open_orders L body snap =
     and_then (jr_at L ''orders'' (jl_parse L body)) (\<lambda>orders.
       set_table (\<lambda>t. snap\<lparr>rs_open_orders := t\<rparr>)
         (append_array L max_open_orders (coinbase_open_order L) orders (rs_open_orders snap)))"

definition coinbase_append_balances ::
  "'j json_rest \<Rightarrow> string \<Rightarrow> ReconciliationSnapshot \<Rightarrow> exn + ConnectorResult \<times> ReconciliationSnapshot" where
  "coinbase_append_balances L body snap =
     and_then (jr_at L ''accounts'' (jl_parse L body)) (\<lambda>accounts.
       set_table (\<lambda>t. snap\<lparr>rs_balances := t\<rparr>) (append_array L max_balances (coinbase_balance L) accounts (rs_balances snap)))"

definition coinbase_append_positions ::
  "'j json_rest \<Rightarrow> string \<Rightarrow> ReconciliationSnapshot \<Rightarrow> exn + ConnectorResult \<times> ReconciliationSnapshot" where
  "coinbase_append_positions L body snap =
     and_then (jr_at L ''positions'' (jl_parse L body)) (\<lambda>positions.
       set_table (\<lambda>t. snap\<lparr>rs_positions := t\<rparr>)
         (append_array L max_positions (coinbase_position L) positions (rs_positions snap)))"

definition coinbase_append_fills ::
  "'j json_rest \<Rightarrow> string \<Rightarrow> ReconciliationSnapshot \<Rightarrow> exn + ConnectorResult \<times> ReconciliationSnapshot" where
  "coinbase_append_fills L body snap =
     and_then (jr_at L ''fills'' (jl_parse L body)) (\<lambda>fills.
       set_table (\<lambda>t. snap\<lparr>rs_fills := t\<rparr>) (append_array L max_fills (coinbase_fill L) fills (rs_fills snap)))"

section \<open>Operations\<close>

definition coinbase_submit :: "('j, 'w) VenueApi \<Rightarrow> LiveConnector \<Rightarrow> Order \<Rightarrow> string \<Rightarrow> string \<Rightarrow> 'w \<Rightarrow>
    (ConnectorResult \<times> string, 'w) call" where
  "coinbase_submit V c order key vid w =
     (if o_type order \<noteq> LIMIT \<and> o_type order \<noteq> MARKET then (Inr (ERROR_INVALID_ORDER, vid), w)
      else case coinbase_order_payload order of
        Inl e \<Rightarrow> (Inl e, w)
      | Inr payload \<Rightarrow> (case auth_post V c ''/api/v3/brokerage/orders'' payload key w of (r, w) \<Rightarrow>
          (on_response http_error vid (\<lambda>body. and_then (coinbase_parse_order_id (va_json V) body vid) ok_or_unknown) r, w)))"

definition coinbase_cancel :: "('j, 'w) VenueApi \<Rightarrow> LiveConnector \<Rightarrow> VenueOrderEntry \<Rightarrow> 'w \<Rightarrow> (ConnectorResult \<times> unit, 'w) call" where
  "coinbase_cancel V c entry w =
     (let payload = ''{'' @ quoted ''order_ids'' @ '':['' @ quoted (ve_venue_order_id entry) @ '']}'' in
      case auth_post V c ''/api/v3/brokerage/orders/batch_cancel'' payload [] w of (r, w) \<Rightarrow>
        (on_response http_error () (\<lambda>body. and_then (coinbase_parse_cancel (va_json V) body) (\<lambda>ok. ok_or_unknown (ok, ()))) r, w))"

definition coinbase_replace :: "('j, 'w) VenueApi \<Rightarrow> LiveConnector \<Rightarrow> VenueOrderEntry \<Rightarrow> Order \<Rightarrow> string \<Rightarrow> 'w \<Rightarrow>
    (ConnectorResult \<times> string, 'w) call" where
  "coinbase_replace V c entry replacement vid w =
     (if o_type replacement \<noteq> LIMIT then (Inr (ERROR_INVALID_ORDER, vid), w)
      else
        let payload = object_text [(''order_id'', ve_venue_order_id entry),
              (''size'', coinbase_decimal (o_quantity replacement)), (''price'', coinbase_decimal (o_price replacement))]
        in case auth_post V c ''/api/v3/brokerage/orders/edit'' payload [] w of (r, w) \<Rightarrow>
          (on_response http_error vid (\<lambda>body. and_then (coinbase_parse_order_id (va_json V) body vid) ok_or_unknown) r, w))"

definition coinbase_query :: "('j, 'w) VenueApi \<Rightarrow> LiveConnector \<Rightarrow> VenueOrderEntry \<Rightarrow> FillUpdate \<Rightarrow> 'w \<Rightarrow>
    (ConnectorResult \<times> FillUpdate, 'w) call" where
  "coinbase_query V c entry status w =
     (case auth_get V c (''/api/v3/brokerage/orders/historical/'' @ ve_venue_order_id entry) w of (r, w) \<Rightarrow>
        (on_response http_error status (\<lambda>body.
           and_then (coinbase_parse_query (va_json V) (ht_now_ns (va_http V) w) body status) ok_or_unknown) r, w))"

definition coinbase_cancel_all :: "string \<Rightarrow> 'w \<Rightarrow> (ConnectorResult \<times> unit, 'w) call" where
  "coinbase_cancel_all symbol w = (Inr (ERROR_INVALID_ORDER, ()), w)"

definition coinbase_fetch :: "('j, 'w) VenueApi \<Rightarrow> LiveConnector \<Rightarrow> ReconciliationSnapshot \<Rightarrow> 'w \<Rightarrow>
    (ConnectorResult \<times> ReconciliationSnapshot, 'w) call" where
  "coinbase_fetch V c snap w =
     (let L = va_json V in
      and_fetch (fetch_table http_error (auth_get V c ''/api/v3/brokerage/orders/historical/batch'')
        (coinbase_append_open_orders L) (rs_clear snap) w) (\<lambda>s w.
      and_fetch (fetch_table http_error (auth_get V c ''/api/v3/brokerage/accounts'') (coinbase_append_balances L) s w) (\<lambda>s w.
      and_fetch (fetch_optional http_error (auth_get V c ''/api/v3/brokerage/cfm/positions'')
        (coinbase_append_positions L) s w) (\<lambda>s w.
        fetch_optional http_error (auth_get V c ''/api/v3/brokerage/orders/historical/fills'') (coinbase_append_fills L) s w))))"

definition coinbase_venue :: "('j, 'w) VenueApi \<Rightarrow> LiveConnector \<Rightarrow> (exn option \<times> 'w) Venue" where
  "coinbase_venue V c = \<lparr>vn_submit = (\<lambda>order key vid. run_call vid (coinbase_submit V c order key vid)),
     vn_cancel = (\<lambda>entry v. case run_call () (coinbase_cancel V c entry) v of (r, _, v) \<Rightarrow> (r, v)),
     vn_replace = (\<lambda>entry order vid. run_call vid (coinbase_replace V c entry order vid)),
     vn_query = (\<lambda>entry status. run_call status (coinbase_query V c entry status)),
     vn_cancel_all = (\<lambda>symbol v. case run_call () (coinbase_cancel_all symbol) v of (r, _, v) \<Rightarrow> (r, v))\<rparr>"

section \<open>What is sent\<close>

definition coinbase_body :: "Order \<Rightarrow> string option" where
  "coinbase_body order = (if o_type order \<noteq> LIMIT \<and> o_type order \<noteq> MARKET then None
     else case coinbase_order_payload order of Inl e \<Rightarrow> None | Inr p \<Rightarrow> Some p)"

interpretation coinbase: body_venue "va_http V" "lc_api_url c @ ''/api/v3/brokerage/orders''" coinbase_body "coinbase_submit V c" for V c
  by unfold_locales (auto simp: coinbase_submit_def coinbase_body_def auth_post_def Let_def split: sum.splits if_splits prod.splits)

text \<open>A retried submission posts one body.\<close>

lemma coinbase_submission_sends_one_body:
  "case coinbase_body order of
     Some b \<Rightarrow> posts (va_http V) (lc_api_url c @ ''/api/v3/brokerage/orders'') b w
       (snd (snd (snd (submit_order io io' (coinbase_venue V c) order (c', None, w)))))
   | None \<Rightarrow> snd (snd (snd (submit_order io io' (coinbase_venue V c) order (c', None, w)))) = w"
proof -
  have v: "vn_submit (coinbase_venue V c) = (\<lambda>o1 key vid. run_call vid (coinbase_submit V c o1 key vid))"
    by (simp add: coinbase_venue_def)
  show ?thesis
    by (cases "coinbase_body order") (simp_all add: coinbase.submission_posts[OF v] coinbase.submission_refused[OF v])
qed

end
