(* ===== verification/Kraken_Connector.thy ===== *)
theory Kraken_Connector
  imports Venue_Rest
begin

text \<open>
  \<^verbatim>\<open>core/execution/kraken/kraken_connector.cpp\<close>: the orders and the reconciliation snapshot of Kraken. Every request
  is a form whose first field is a nonce, the time in milliseconds.
\<close>

section \<open>Forms\<close>

definition kraken_order_type :: "OrderType \<Rightarrow> string" where
  "kraken_order_type t = (case t of MARKET \<Rightarrow> ''market'' | LIMIT \<Rightarrow> ''limit'' | STOP_LIMIT \<Rightarrow> ''stop-loss-limit'')"

definition kraken_tif :: "TimeInForce \<Rightarrow> string" where
  "kraken_tif tif = (case tif of IOC \<Rightarrow> ''ioc'' | GTC \<Rightarrow> ''gtc'' | FOK \<Rightarrow> ''fok'' | GTX \<Rightarrow> ''post_only'')"

definition append_field :: "string \<Rightarrow> string \<Rightarrow> string \<Rightarrow> string" where
  "append_field key value payload = payload @ (if payload = [] then [] else ''&'') @ key @ ''='' @ value"

definition private_payload :: "int \<Rightarrow> string \<Rightarrow> string" where
  "private_payload now_ms payload =
     (if payload = [] then ''nonce='' @ show_int now_ms else ''nonce='' @ show_int now_ms @ ''&'' @ payload)"

definition kraken_order_payload :: "Order \<Rightarrow> exn + string" where
  "kraken_order_payload order = and_then (lift_std (map_for_exchange KRAKEN (o_symbol order))) (\<lambda>pair. Inr (
     (if o_tif order = GTX then append_field ''oflags'' ''post'' else id)
     (append_field ''timeinforce'' (kraken_tif (o_tif order))
     ((if o_type order = STOP_LIMIT then append_field ''price2'' (format_decimal (o_stop_price order)) else id)
     ((if o_type order \<noteq> MARKET then append_field ''price'' (format_decimal (o_price order)) else id)
     (append_field ''volume'' (format_decimal (o_quantity order))
     (append_field ''type'' (if o_side order = BID then ''buy'' else ''sell'')
     (append_field ''pair'' pair
     (append_field ''ordertype'' (kraken_order_type (o_type order)) [])))))))))"

definition private_post :: "('j, 'w) VenueApi \<Rightarrow> LiveConnector \<Rightarrow> string \<Rightarrow> string \<Rightarrow> 'w \<Rightarrow> HttpResponse \<times> 'w" where
  "private_post V c path payload w =
     ht_post (va_http V) (lc_api_url c @ path) payload (kraken_private_headers (va_crypto V) c path payload) w"

section \<open>Responses\<close>

definition kraken_parse_order_id :: "'j json_rest \<Rightarrow> string \<Rightarrow> string \<Rightarrow> exn + bool \<times> string" where
  "kraken_parse_order_id L body vid =
     (let json = jl_parse L body in
      if jl_is_discarded L json then Inr (False, vid)
      else and_then (and_then (jr_at L ''result'' json) (first_at L ''txid'')) (\<lambda>x. case x of
        None \<Rightarrow> Inr (False, vid)
      | Some d \<Rightarrow> if \<not> jl_is_string L d then Inr (False, vid)
          else and_then (jl_string L d) (\<lambda>found. Inr (found \<noteq> [], found))))"

definition kraken_error_text :: "string \<Rightarrow> ConnectorResult" where
  "kraken_error_text e =
     (if contains_text ''Rate limit'' e then ERROR_RATE_LIMIT
      else if contains_text ''Insufficient funds'' e then ERROR_INSUFFICIENT_FUNDS
      else if contains_text ''Invalid key'' e \<or> contains_text ''Invalid signature'' e \<or> contains_text ''Permission denied'' e
        then AUTH_FAILED
      else if contains_text ''Order'' e \<or> contains_text ''Tick size'' e \<or> contains_text ''Pair'' e \<or> contains_text ''volume'' e
        then ERROR_INVALID_ORDER
      else ERROR_UNKNOWN)"

definition kraken_business_error :: "'j json_rest \<Rightarrow> string \<Rightarrow> exn + ConnectorResult" where
  "kraken_business_error L body =
     (let json = jl_parse L body in
      if jl_is_discarded L json then Inr ERROR_UNKNOWN
      else and_then (first_at L ''error'' json) (\<lambda>x. case x of
        None \<Rightarrow> Inr ERROR_UNKNOWN
      | Some d \<Rightarrow> if \<not> jl_is_string L d then Inr ERROR_UNKNOWN
          else and_then (jl_string L d) (\<lambda>e. Inr (kraken_error_text e))))"

definition kraken_order_status :: "string \<Rightarrow> OrderState" where
  "kraken_order_status raw =
     (if raw = ''open'' then OPEN else if raw = ''pending'' then PENDING else if raw = ''closed'' then FILLED
      else if raw = ''canceled'' \<or> raw = ''expired'' then CANCELED else REJECTED)"

definition kraken_parse_query :: "'j json_rest \<Rightarrow> int \<Rightarrow> string \<Rightarrow> FillUpdate \<Rightarrow> exn + bool \<times> FillUpdate" where
  "kraken_parse_query L now_ns body status =
     (let json = jl_parse L body in
      if jl_is_discarded L json then Inr (False, status)
      else and_then (jr_at L ''result'' json) (\<lambda>result.
        if \<not> jl_is_object L result \<or> jr_members L result = [] then Inr (False, status)
        else let order = snd (hd (jr_members L result)) in
          and_then (number_or_zero L ''vol_exec'' order) (\<lambda>filled.
          and_then (number_or_zero L ''price'' order) (\<lambda>price.
          and_then (string_or_empty L ''status'' order) (\<lambda>state.
            Inr (True, status\<lparr>fu_cumulative_filled_qty := filled, fu_fill_qty := filled, fu_avg_fill_price := price,
              fu_fill_price := price, fu_new_state := kraken_order_status state, fu_local_ts_ns := now_ns\<rparr>))))))"

definition kraken_parse_cancel :: "'j json_rest \<Rightarrow> string \<Rightarrow> exn + bool" where
  "kraken_parse_cancel L body =
     (let json = jl_parse L body in
      if jl_is_discarded L json then Inr False
      else and_then (and_then (jr_at L ''result'' json) (jr_value_i64 L ''count'' 0)) (\<lambda>n. Inr (n > 0)))"

section \<open>The tables of a snapshot\<close>

definition kraken_open_order :: "'j json_rest \<Rightarrow> string \<times> 'j \<Rightarrow> exn + ReconciledOrder" where
  "kraken_open_order L = (\<lambda>(vid, item).
     and_then (jr_at L ''descr'' item) (\<lambda>descr.
     and_then (string_or_empty L ''pair'' descr) (\<lambda>pair.
     and_then (side_value L ''type'' ''buy'' ''sell'' descr) (\<lambda>side.
     and_then (number_or_zero L ''vol'' item) (\<lambda>qty.
     and_then (number_or_zero L ''vol_exec'' item) (\<lambda>filled.
     and_then (number_or_zero L ''price'' descr) (\<lambda>price.
     and_then (string_or_empty L ''status'' item) (\<lambda>state.
       Inr (mk_ReconciledOrder\<lparr>ro_venue_order_id := id_text vid, ro_symbol := symbol_text pair, ro_side := side,
         ro_quantity := qty, ro_filled_quantity := filled, ro_price := price, ro_state := kraken_order_status state\<rparr>)))))))))"

definition kraken_balance :: "'j json_rest \<Rightarrow> string \<times> 'j \<Rightarrow> exn + ReconciledBalance" where
  "kraken_balance L = (\<lambda>(asset, x). and_then (jr_double L x) (\<lambda>total.
     Inr \<lparr>rb_asset = symbol_text asset, rb_total = total, rb_available = total\<rparr>))"

definition kraken_fill :: "'j json_rest \<Rightarrow> string \<times> 'j \<Rightarrow> exn + ReconciledFill" where
  "kraken_fill L = (\<lambda>(trade, item).
     and_then (string_or_empty L ''ordertxid'' item) (\<lambda>vid.
     and_then (string_or_empty L ''pair'' item) (\<lambda>pair.
     and_then (side_value L ''type'' ''buy'' ''sell'' item) (\<lambda>side.
     and_then (number_or_zero L ''vol'' item) (\<lambda>qty.
     and_then (number_or_zero L ''price'' item) (\<lambda>price.
     and_then (jr_value_double L ''cost'' (qty * price) item) (\<lambda>cost.
     and_then (number_or_zero L ''fee'' item) (\<lambda>fee.
     and_then (string_or_empty L ''fee_ccy'' item) (\<lambda>fee_asset.
     and_then (number_or_zero L ''time'' item) (\<lambda>time.
       Inr (mk_ReconciledFill\<lparr>rf_exchange := KRAKEN, rf_venue_trade_id := id_text trade, rf_venue_order_id := id_text vid,
         rf_symbol := symbol_text pair, rf_side := side, rf_quantity := qty, rf_price := price, rf_notional := cost,
         rf_fee := fee, rf_fee_asset := symbol_text fee_asset,
         rf_exchange_ts_ns := Json.truncate (time * lit 1000000000)\<rparr>)))))))))))"

definition append_object :: "'j json_rest \<Rightarrow> nat \<Rightarrow> (string \<times> 'j \<Rightarrow> exn + 'r) \<Rightarrow> 'j \<Rightarrow> 'r list \<Rightarrow> exn + ConnectorResult \<times> 'r list" where
  "append_object L cap rd obj t =
     (if \<not> jl_is_object L obj then Inr (ERROR_UNKNOWN, t) else append_items cap rd (jr_members L obj) t)"

definition kraken_result :: "'j json_rest \<Rightarrow> string \<Rightarrow> 'j \<Rightarrow> exn + 'j" where
  "kraken_result L key json = and_then (jr_at L ''result'' json) (jr_at L key)"

definition kraken_append_open_orders :: "'j json_rest \<Rightarrow> string \<Rightarrow> ReconciliationSnapshot \<Rightarrow> exn + ConnectorResult \<times> ReconciliationSnapshot" where
  "kraken_append_open_orders L body snap =
     and_then (kraken_result L ''open'' (jl_parse L body)) (\<lambda>open_map.
       set_table (\<lambda>t. snap\<lparr>rs_open_orders := t\<rparr>)
         (append_object L max_open_orders (kraken_open_order L) open_map (rs_open_orders snap)))"

definition kraken_append_balances :: "'j json_rest \<Rightarrow> string \<Rightarrow> ReconciliationSnapshot \<Rightarrow> exn + ConnectorResult \<times> ReconciliationSnapshot" where
  "kraken_append_balances L body snap =
     and_then (jr_at L ''result'' (jl_parse L body)) (\<lambda>result.
       set_table (\<lambda>t. snap\<lparr>rs_balances := t\<rparr>) (append_object L max_balances (kraken_balance L) result (rs_balances snap)))"

definition kraken_append_fills :: "'j json_rest \<Rightarrow> string \<Rightarrow> ReconciliationSnapshot \<Rightarrow> exn + ConnectorResult \<times> ReconciliationSnapshot" where
  "kraken_append_fills L body snap =
     and_then (kraken_result L ''trades'' (jl_parse L body)) (\<lambda>trades.
       set_table (\<lambda>t. snap\<lparr>rs_fills := t\<rparr>) (append_object L max_fills (kraken_fill L) trades (rs_fills snap)))"

section \<open>Operations\<close>

definition kraken_request :: "('j, 'w) VenueApi \<Rightarrow> LiveConnector \<Rightarrow> string \<Rightarrow> string \<Rightarrow> 'w \<Rightarrow> HttpResponse \<times> 'w" where
  "kraken_request V c path payload w = private_post V c path (private_payload (ht_now_ms (va_http V) w) payload) w"

definition kraken_submit :: "('j, 'w) VenueApi \<Rightarrow> LiveConnector \<Rightarrow> Order \<Rightarrow> string \<Rightarrow> string \<Rightarrow> 'w \<Rightarrow>
    (ConnectorResult \<times> string, 'w) call" where
  "kraken_submit V c order key vid w = (case kraken_order_payload order of
     Inl e \<Rightarrow> (Inl e, w)
   | Inr form \<Rightarrow>
       let payload = append_field ''cl_ord_id'' key (private_payload (ht_now_ms (va_http V) w) form)
       in case private_post V c ''/0/private/AddOrder'' payload w of (r, w) \<Rightarrow>
         (on_response http_error vid (\<lambda>body. and_then (kraken_parse_order_id (va_json V) body vid) (\<lambda>(found, vid).
            if found then Inr (C_OK, vid)
            else and_then (kraken_business_error (va_json V) body) (\<lambda>e. Inr (e, vid)))) r, w))"

definition kraken_cancel :: "('j, 'w) VenueApi \<Rightarrow> LiveConnector \<Rightarrow> VenueOrderEntry \<Rightarrow> 'w \<Rightarrow> (ConnectorResult \<times> unit, 'w) call" where
  "kraken_cancel V c entry w =
     (case kraken_request V c ''/0/private/CancelOrder'' (''txid='' @ ve_venue_order_id entry) w of (r, w) \<Rightarrow>
        (on_response http_error () (\<lambda>body. and_then (kraken_parse_cancel (va_json V) body) (\<lambda>ok. ok_or_unknown (ok, ()))) r, w))"

definition kraken_replace_payload :: "int \<Rightarrow> VenueOrderEntry \<Rightarrow> Order \<Rightarrow> string" where
  "kraken_replace_payload now_ms entry replacement =
     (if o_type replacement = STOP_LIMIT then append_field ''trigger_price'' (format_decimal (o_stop_price replacement)) else id)
     ((if o_type replacement \<noteq> MARKET then append_field ''limit_price'' (format_decimal (o_price replacement)) else id)
     (append_field ''order_qty'' (format_decimal (o_quantity replacement))
       (private_payload now_ms (''txid='' @ ve_venue_order_id entry))))"

definition kraken_replace :: "('j, 'w) VenueApi \<Rightarrow> LiveConnector \<Rightarrow> VenueOrderEntry \<Rightarrow> Order \<Rightarrow> string \<Rightarrow> 'w \<Rightarrow>
    (ConnectorResult \<times> string, 'w) call" where
  "kraken_replace V c entry replacement vid w =
     (case private_post V c ''/0/private/AmendOrder''
        (kraken_replace_payload (ht_now_ms (va_http V) w) entry replacement) w of (r, w) \<Rightarrow>
        (on_response http_error vid (\<lambda>body. Inr (C_OK, ve_venue_order_id entry)) r, w))"

definition kraken_query :: "('j, 'w) VenueApi \<Rightarrow> LiveConnector \<Rightarrow> VenueOrderEntry \<Rightarrow> FillUpdate \<Rightarrow> 'w \<Rightarrow>
    (ConnectorResult \<times> FillUpdate, 'w) call" where
  "kraken_query V c entry status w =
     (case kraken_request V c ''/0/private/QueryOrders'' (''txid='' @ ve_venue_order_id entry) w of (r, w) \<Rightarrow>
        (on_response http_error status (\<lambda>body.
           and_then (kraken_parse_query (va_json V) (ht_now_ns (va_http V) w) body status) ok_or_unknown) r, w))"

definition kraken_cancel_all :: "('j, 'w) VenueApi \<Rightarrow> LiveConnector \<Rightarrow> string \<Rightarrow> 'w \<Rightarrow> (ConnectorResult \<times> unit, 'w) call" where
  "kraken_cancel_all V c symbol w =
     (case kraken_request V c ''/0/private/CancelAll'' [] w of (r, w) \<Rightarrow>
        (on_response http_error () (\<lambda>body. let json = jl_parse (va_json V) body in
           ok_or_unknown (\<not> jl_is_discarded (va_json V) json \<and> jl_find (va_json V) ''result'' json \<noteq> None, ())) r, w))"

definition kraken_fetch :: "('j, 'w) VenueApi \<Rightarrow> LiveConnector \<Rightarrow> ReconciliationSnapshot \<Rightarrow> 'w \<Rightarrow>
    (ConnectorResult \<times> ReconciliationSnapshot, 'w) call" where
  "kraken_fetch V c snap w =
     (let L = va_json V in
      and_fetch (fetch_table http_error (kraken_request V c ''/0/private/OpenOrders'' []) (kraken_append_open_orders L) (rs_clear snap) w) (\<lambda>s w.
      and_fetch (fetch_table http_error (kraken_request V c ''/0/private/Balance'' []) (kraken_append_balances L) s w) (\<lambda>s w.
        fetch_optional http_error (kraken_request V c ''/0/private/TradesHistory'' []) (kraken_append_fills L) s w)))"

definition kraken_venue :: "('j, 'w) VenueApi \<Rightarrow> LiveConnector \<Rightarrow> (exn option \<times> 'w) Venue" where
  "kraken_venue V c = \<lparr>vn_submit = (\<lambda>order key vid. run_call vid (kraken_submit V c order key vid)),
     vn_cancel = (\<lambda>entry v. case run_call () (kraken_cancel V c entry) v of (r, _, v) \<Rightarrow> (r, v)),
     vn_replace = (\<lambda>entry order vid. run_call vid (kraken_replace V c entry order vid)),
     vn_query = (\<lambda>entry status. run_call status (kraken_query V c entry status)),
     vn_cancel_all = (\<lambda>symbol v. case run_call () (kraken_cancel_all V c symbol) v of (r, _, v) \<Rightarrow> (r, v))\<rparr>"

section \<open>The nonce\<close>

text \<open>Every form of the connector starts with its nonce, whatever follows.\<close>

definition nonce_form :: "int \<Rightarrow> string \<Rightarrow> bool" where
  "nonce_form now_ms p \<longleftrightarrow> p = ''nonce='' @ show_int now_ms \<or> (\<exists>r. p = ''nonce='' @ show_int now_ms @ ''&'' @ r)"

lemma nonce_read:
  assumes "nonce_form now_ms p" shows "extract_kraken_nonce p = show_int now_ms"
proof -
  have d: "CHR ''&'' \<notin> set (show_int now_ms)" by (rule digits_no) (simp_all add: is_digit_def code_def)
  from assms obtain r where p: "p = ''nonce='' @ r" "r = show_int now_ms \<or> (\<exists>s. r = show_int now_ms @ CHR ''&'' # s)"
    by (auto simp: nonce_form_def)
  have a: "after_first ''nonce='' p = Some r" unfolding p(1) by (rule after_first_prefix) simp
  from p(2) show ?thesis
    by (elim disjE exE) (simp_all add: extract_kraken_nonce_def a takeWhile_upto[OF d])
qed

lemma nonce_private: "nonce_form now_ms (private_payload now_ms payload)"
  by (simp add: nonce_form_def private_payload_def)

lemma nonce_append: "nonce_form now_ms p \<Longrightarrow> nonce_form now_ms (append_field key value p)"
  by (auto simp: nonce_form_def append_field_def)

text \<open>
  Every private form of the Kraken connector is signed with the nonce it carries: the digest under the signature
  is taken over that number and the form, for new orders, amendments and everything that is built of one text.
\<close>

theorem kraken_signs_its_nonce:
  "kraken_api_sign cr c path (append_field ''cl_ord_id'' key (private_payload now_ms form)) =
     cr_encode64 cr (cr_hmac512 cr (cr_decode64 cr (lc_api_secret c)) (path @ cr_sha256 cr
       (show_int now_ms @ append_field ''cl_ord_id'' key (private_payload now_ms form)))) \<and>
   kraken_api_sign cr c path (kraken_replace_payload now_ms entry replacement) =
     cr_encode64 cr (cr_hmac512 cr (cr_decode64 cr (lc_api_secret c)) (path @ cr_sha256 cr
       (show_int now_ms @ kraken_replace_payload now_ms entry replacement))) \<and>
   kraken_api_sign cr c path (private_payload now_ms payload) =
     cr_encode64 cr (cr_hmac512 cr (cr_decode64 cr (lc_api_secret c)) (path @ cr_sha256 cr
       (show_int now_ms @ private_payload now_ms payload)))"
proof -
  have n: "show_int now_ms \<noteq> []" by (simp add: show_int_def)
  have s: "kraken_api_sign cr c path p = cr_encode64 cr (cr_hmac512 cr (cr_decode64 cr (lc_api_secret c))
      (path @ cr_sha256 cr (show_int now_ms @ p)))" if "nonce_form now_ms p" for p
    using n by (simp add: kraken_api_sign_def nonce_read[OF that] Let_def)
  have "nonce_form now_ms (kraken_replace_payload now_ms entry replacement)"
    unfolding kraken_replace_payload_def by (auto intro!: nonce_append nonce_private)
  with s show ?thesis by (simp add: nonce_append nonce_private)
qed

text \<open>
  An amendment at Kraken counts as done whenever the transfer succeeded: the body of the response is not looked at,
  so an order the venue refused to amend, errors in the body included, is recorded as replaced.
\<close>

theorem kraken_amendment_unchecked:
  assumes "private_post V c ''/0/private/AmendOrder'' (kraken_replace_payload (ht_now_ms (va_http V) w) entry replacement) w = (r, w')"
    and "http_ok r"
  shows "kraken_replace V c entry replacement vid w = (Inr (C_OK, ve_venue_order_id entry), w')"
  using assms by (simp add: kraken_replace_def on_response_def)

definition kraken_sample :: "(json, nat) VenueApi" where
  "kraken_sample = sample_api 200 ''body'' [(''body'', JObject [(''error'', JArray [JString ''EOrder:Unknown order''])])]"

theorem kraken_amendment_unchecked_witness:
  "kraken_replace kraken_sample okx_connector (vm_entry 1 (''O-1'', KRAKEN, ''XBTUSD'')) order_1 [] 0 = (Inr (C_OK, ''O-1''), 1)"
  using kraken_amendment_unchecked[where V = kraken_sample and c = okx_connector and w = 0 and replacement = order_1 and vid = "[]"
      and entry = "vm_entry 1 (''O-1'', KRAKEN, ''XBTUSD'')" and r = "\<lparr>hr_status = 200, hr_body = ''body''\<rparr>" and w' = 1]
  by (simp add: private_post_def kraken_sample_def http_ok_def vm_entry_def)

end
