(* ===== verification/Venue_Effects.thy ===== *)
theory Venue_Effects
  imports Trading_Engine Binance_Futures Okx_Connector Coinbase_Connector Kraken_Connector
begin

text \<open>
  What the venue connectors mean for the parts above them: the engine, the position ledger and the base class.
\<close>

section \<open>Futures without hedge mode\<close>

lemma one_way_refused:
  assumes "one_sided order" and "o_futures_position_mode order \<noteq> HEDGE"
  shows "futures_validate order \<noteq> C_OK"
  using assms by (simp add: futures_validate_def)

lemma normalized_keeps_mode:
  assumes "normalize_and_validate fl order = (res, o1)"
  shows "o_futures_position_mode o1 = o_futures_position_mode order \<and> o_futures_position_side o1 = o_futures_position_side order"
  using assms
  by (auto simp: normalize_and_validate_def normalize_price_def Let_def split: OrderType.splits option.splits if_splits)

text \<open>Only the filters may be asked for.\<close>

definition asks_filters :: "('j, 'w) VenueApi \<Rightarrow> FuturesConnector \<Rightarrow> 'w \<Rightarrow> 'w \<Rightarrow> bool" where
  "asks_filters V f w w' \<longleftrightarrow> w' = w \<or> (\<exists>symbol r. ht_get (va_http V)
     (lc_api_url (fc_base f) @ ''/fapi/v1/exchangeInfo?symbol='' @ symbol) [] w = (r, w'))"

lemma get_filters_asks: "get_symbol_filters V symbol (f, w) = (x, f', w') \<Longrightarrow> asks_filters V f w w'"
  by (auto simp: get_symbol_filters_def asks_filters_def split: option.splits prod.splits if_splits sum.splits)

lemma prepare_asks:
  assumes "prepare_order V order client_id (f, w) = (x, f', w')"
  shows "asks_filters V f w w'"
  using assms get_filters_asks[of V _ f w]
  by (auto simp: prepare_order_def asks_filters_def split: sum.splits prod.splits if_splits)

lemma prepare_one_way:
  assumes "prepare_order V order client_id (f, w) = (Inr (res, ps), s)" and "one_sided order" and "o_futures_position_mode order \<noteq> HEDGE"
  shows "res \<noteq> C_OK"
proof
  assume "res = C_OK"
  with assms(1) obtain fl o1 where n: "normalize_and_validate fl order = (C_OK, o1)"
    "futures_order_params o1 (client_id (fc_base (fst s)) o1) = Inr (C_OK, ps)"
    by (auto simp: prepare_order_def split: sum.splits prod.splits if_splits)
  have "futures_validate o1 \<noteq> C_OK" using normalized_keeps_mode[OF n(1)] assms(2,3) by (intro one_way_refused) (simp_all add: one_sided_def)
  with n(2) show False by (auto simp: futures_order_params_def split: if_splits)
qed

text \<open>
  C12. With hedge mode off the engine can place no futures order at all: it gives every order the side \<open>LONG\<close> or \<open>SHORT\<close>,
  which the connector refuses in one-way mode. The submission fails, the id stays as it was, and the only request it
  can have made is the one for the filters.
\<close>

theorem futures_one_way_never_sent:
  assumes "\<not> bf_hedge_mode (ec_binance_futures (ep_engine p))"
    and "futures_submit V (futures_order p m ord) key vid (f, w) = (Inr (res, vid'), f', w')"
  shows "res \<noteq> C_OK \<and> vid' = vid \<and> asks_filters V f w w'"
proof -
  let ?o = "futures_order p m ord"
  have o: "one_sided ?o" "o_futures_position_mode ?o \<noteq> HEDGE"
    using assms(1) by (simp_all add: futures_order_def one_sided_def)
  obtain x f1 w1 where p: "prepare_order V ?o (\<lambda>c o1. build_client_order_id key (o_client_order_id o1)) (f, w) = (x, f1, w1)"
    by (metis prod_cases3)
  with assms(2) obtain res1 ps where x: "x = Inr (res1, ps)" by (cases x) (auto simp: futures_submit_def)
  from prepare_one_way[OF p[unfolded x] o] have "res1 \<noteq> C_OK" .
  with assms(2) p x prepare_asks[OF p] show ?thesis by (auto simp: futures_submit_def)
qed

section \<open>Spot inventory\<close>

lemma appended_positions:
  "binance_append_balances L body s = Inr (C_OK, s') \<Longrightarrow> rs_positions s' = rs_positions s"
  "binance_append_open_orders L m body (x, s) = Inr (C_OK, y, s') \<Longrightarrow> rs_positions s' = rs_positions s"
  "binance_append_fills L body s = Inr (C_OK, s') \<Longrightarrow> rs_positions s' = rs_positions s"
  "kraken_append_open_orders L body s = Inr (C_OK, s') \<Longrightarrow> rs_positions s' = rs_positions s"
  "kraken_append_balances L body s = Inr (C_OK, s') \<Longrightarrow> rs_positions s' = rs_positions s"
  "kraken_append_fills L body s = Inr (C_OK, s') \<Longrightarrow> rs_positions s' = rs_positions s"
  by (auto simp: binance_append_balances_def binance_append_open_orders_def binance_append_fills_def kraken_append_open_orders_def
      kraken_append_balances_def kraken_append_fills_def and_then_Inr set_table_ok Let_def split: if_splits)

lemma binance_error_fails: "spot_error V r \<noteq> Inr C_OK"
  by (auto simp: spot_error_def binance_error_def Let_def and_then_Inr status_error_def split: if_splits)

lemma with_symbols_ok: "with_symbols f x = (Inr (C_OK, s), w) \<longleftrightarrow> (\<exists>y. x = (Inr (C_OK, y), w) \<and> s = f y)"
  by (auto simp: with_symbols_def and_then_Inr split: prod.splits)

lemma trades_positions:
  "fetch_trades rq (spot_error V) (binance_append_fills L) syms s w = (Inr (C_OK, s'), w') \<Longrightarrow> rs_positions s' = rs_positions s"
proof (induction syms arbitrary: s w)
  case (Cons sy syms)
  then obtain s1 w1 r where "rq sy w = (r, w1)"
    "if not_offered r then s1 = s else http_ok r \<and> binance_append_fills L (hr_body r) s = Inr (C_OK, s1)"
    "fetch_trades rq (spot_error V) (binance_append_fills L) syms s1 w1 = (Inr (C_OK, s'), w')"
    by (auto simp: and_fetch_ok fetch_optional_ok[OF binance_error_fails])
  with Cons.IH[of s1 w1] appended_positions(3)[of L "hr_body r" s s1] show ?case by (auto split: if_splits)
qed simp

lemma binance_snapshot_flat:
  assumes "binance_fetch V c snap w = (Inr (C_OK, s), w')" shows "rs_positions s = []"
proof -
  have "rs_positions s = rs_positions (rs_clear snap)" using assms
    by (auto simp: binance_fetch_def Let_def and_fetch_ok fetch_table_ok[OF binance_error_fails] with_symbols_ok
      dest!: appended_positions trades_positions)
  then show ?thesis by (simp add: rs_clear_def)
qed

lemma kraken_snapshot_flat:
  assumes "kraken_fetch V c snap w = (Inr (C_OK, s), w')" shows "rs_positions s = []"
proof -
  have "rs_positions s = rs_positions (rs_clear snap)" using assms
    by (auto simp: kraken_fetch_def Let_def and_fetch_ok fetch_table_ok[OF http_error_fails] fetch_optional_ok[OF http_error_fails]
      dest!: appended_positions split: if_splits)
  then show ?thesis by (simp add: rs_clear_def)
qed

lemma swept_flat:
  assumes "vp_active (sweep_venue ex (mark_venue ex v))" and "vp_exchange (sweep_venue ex (mark_venue ex v)) = ex"
  shows "deq (vp_position (sweep_venue ex (mark_venue ex v))) 0"
proof (cases "vp_active v \<and> vp_exchange v = ex")
  case True
  then show ?thesis by (simp add: sweep_venue_def mark_venue_def flatten_venue_def)
next
  case False
  then show ?thesis using assms by (auto simp: sweep_venue_def mark_venue_def split: if_splits)
qed

text \<open>
  C13. Inventory bought at Binance spot or at Kraken is never seen: the snapshots of these connectors hold no positions,
  and the reconciliation, which is all that writes the engine's ledger, therefore books every slot of the venue flat,
  whatever was bought and whatever the ledger held.
\<close>

theorem spot_inventory_flattened:
  assumes "ex = BINANCE \<and> binance_fetch V c snap w = (Inr (C_OK, s), w') \<or> ex = KRAKEN \<and> kraken_fetch V c snap w = (Inr (C_OK, s), w')"
  shows "list_all (\<lambda>v. deq (vp_position v) 0)
    (filter (\<lambda>v. vp_active v \<and> vp_exchange v = ex) (lg_venues (reconcile_positions ex s now_sys now lg)))"
proof -
  have "rs_positions s = []" using assms by (auto dest: binance_snapshot_flat kraken_snapshot_flat)
  then have "lg_venues (reconcile_positions ex s now_sys now lg) = map (sweep_venue ex \<circ> mark_venue ex) (lg_venues lg)"
    by (simp add: reconcile_positions_def Let_def)
  then show ?thesis using swept_flat by (auto simp: list_all_iff)
qed

section \<open>Cancelling everything\<close>

text \<open>
  The cancel of all orders that the kill switch triggers does nothing at OKX and Coinbase: it answers an error
  without a request, so the orders resting there stay live.
\<close>

theorem kill_switch_spares_orders:
  "cancel_all (okx_venue V c) symbol (c', None, w) = (ERROR_INVALID_ORDER, c', None, w) \<and>
   cancel_all (coinbase_venue V c) symbol (c', None, w) = (ERROR_INVALID_ORDER, c', None, w)"
  by (simp add: cancel_all_def okx_venue_def coinbase_venue_def okx_cancel_all_def coinbase_cancel_all_def run_call_def)

text \<open>A stop order is refused by three of the connectors before anything is sent.\<close>

lemma stop_orders_refused:
  assumes "o_type order = STOP_LIMIT"
  shows "okx_submit V c order key vid w = (Inr (ERROR_INVALID_ORDER, vid), w)"
    "coinbase_submit V c order key vid w = (Inr (ERROR_INVALID_ORDER, vid), w)"
    "binance_submit V c order key vid w = (Inr (ERROR_INVALID_ORDER, vid), w)"
  using assms by (simp_all add: okx_submit_def okx_order_payload_def coinbase_submit_def binance_submit_def binance_validate_def)

section \<open>Witnesses\<close>

lemma one_way_sample:
  "\<exists>res vid f w. futures_submit futures_sample (futures_order params_sample mk_ShadowIntentMetadata limit_order) ''K'' []
     (futures_connector, 0) = (Inr (res, vid), f, w)"
proof -
  let ?o = "futures_order params_sample mk_ShadowIntentMetadata limit_order"
  have y: "futures_symbol (o_symbol ?o) = Inr ''BTCUSDT''" by code_simp
  have f: "fc_symbol_filters futures_connector ''BTCUSDT'' = Some sample_filters" by (simp add: futures_connector_def)
  obtain res o1 where n: "normalize_and_validate sample_filters ?o = (res, o1)" by fastforce
  have "o_futures_position_mode ?o \<noteq> HEDGE" by code_simp
  moreover have "one_sided ?o" by (simp add: futures_order_def one_sided_def)
  ultimately have "futures_validate o1 \<noteq> C_OK"
    using normalized_keeps_mode[OF n] by (intro one_way_refused) (simp_all add: one_sided_def)
  then show ?thesis
    by (simp add: futures_submit_def prepare_order_def y get_symbol_filters_def f n futures_order_params_def)
qed

theorem futures_one_way_never_sent_witness:
  "\<exists>res f w. futures_submit futures_sample (futures_order params_sample mk_ShadowIntentMetadata limit_order) ''K'' []
     (futures_connector, 0) = (Inr (res, []), f, w) \<and> res \<noteq> C_OK"
proof -
  obtain res vid f w where s: "futures_submit futures_sample (futures_order params_sample mk_ShadowIntentMetadata limit_order) ''K'' []
     (futures_connector, 0) = (Inr (res, vid), f, w)" using one_way_sample by blast
  have "\<not> bf_hedge_mode (ec_binance_futures (ep_engine params_sample))" by (simp add: params_sample_def)
  from futures_one_way_never_sent[OF this s] s show ?thesis by auto
qed

definition kraken_account :: "(json, nat) VenueApi" where
  "kraken_account = (let V = sample_api 200 ''orders''
       [(''orders'', JObject [(''result'', JObject [(''open'', JObject []), (''trades'', JObject [])])]),
        (''balances'', JObject [(''result'', JObject [(''XXBT'', JFloat (Fin 2))])])]
     in V\<lparr>va_http := (va_http V)\<lparr>ht_post := (\<lambda>url b hs n.
       (\<lparr>hr_status = 200, hr_body = if url = ''/0/private/Balance'' then ''balances'' else ''orders''\<rparr>, Suc n))\<rparr>\<rparr>)"

definition bought :: PositionLedger where
  "bought = \<lparr>lg_venues = [venue_sample\<lparr>vp_exchange := KRAKEN\<rparr>], lg_symbol = ''BTC''\<rparr>"

lemma kraken_account_fetch:
  "\<exists>s. kraken_fetch kraken_account (okx_connector\<lparr>lc_api_url := []\<rparr>) rs_empty 0 = (Inr (C_OK, s), 3) \<and>
     map rb_total (rs_balances s) = [Fin 2]"
  by (simp add: kraken_fetch_def kraken_account_def Let_def and_fetch_def fetch_table_def fetch_optional_def kraken_request_def
      private_post_def on_response_def http_ok_def not_offered_def kraken_append_open_orders_def kraken_append_balances_def
      kraken_append_fills_def kraken_result_def append_object_def kraken_balance_def thrown_def json_find_def get_double_def
      set_table_def ft_push_def max_open_orders_def max_fills_def max_balances_def rs_clear_def rs_empty_def)

theorem spot_inventory_flattened_witness:
  "\<exists>s. map rb_total (rs_balances s) = [Fin 2] \<and> vp_position (lg_venues bought ! 0) = Fin 2 \<and>
     list_all (\<lambda>v. deq (vp_position v) 0)
       (filter (\<lambda>v. vp_active v \<and> vp_exchange v = KRAKEN) (lg_venues (reconcile_positions KRAKEN s 9 9 bought)))"
proof -
  obtain s where s: "kraken_fetch kraken_account (okx_connector\<lparr>lc_api_url := []\<rparr>) rs_empty 0 = (Inr (C_OK, s), 3)"
    "map rb_total (rs_balances s) = [Fin 2]" using kraken_account_fetch by (elim exE conjE)
  let ?c = "okx_connector\<lparr>lc_api_url := []\<rparr>"
  have f: "KRAKEN = BINANCE \<and> binance_fetch kraken_account ?c rs_empty 0 = (Inr (C_OK, s), 3) \<or>
    KRAKEN = KRAKEN \<and> kraken_fetch kraken_account ?c rs_empty 0 = (Inr (C_OK, s), 3)" using s(1) by (intro disjI2 conjI refl)
  have "list_all (\<lambda>v. deq (vp_position v) 0)
       (filter (\<lambda>v. vp_active v \<and> vp_exchange v = KRAKEN) (lg_venues (reconcile_positions KRAKEN s 9 9 bought)))"
    using f by (rule spot_inventory_flattened)
  moreover have "vp_position (lg_venues bought ! 0) = Fin 2" by (simp add: bought_def venue_sample_def)
  ultimately show ?thesis using s(2) by (intro exI[of _ s] conjI)
qed

end
