(* ===== verification/Spec2Isabelle.thy ===== *)
theory Spec2Isabelle
  imports Kill_Switch Circuit_Breaker Global_Risk Order_Book Order_Manager Live_Connector Child_Scheduler Reconciliation_Service Shadow_Engine Portfolio_Intent Session_Accounting Book_Manager Ipc_Signals Okx_Feed Binance_Feed Coinbase_Feed Kraken_Feed Symbol_Mapper Quality_Runtime Market_Maker Trading_Engine Rest_Client Venue_Effects
begin

text \<open>
  A verification library for the C++ trading engine under \<^verbatim>\<open>core/\<close>.

  \<^bold>\<open>The program.\<close> Venue feeds keep one order book per instrument. A strategy sends orders through
  the risk checks (circuit breaker, global risk controls, kill switch) to an order manager, which
  hands them to the connector of a venue and applies the fill reports that the connector's thread
  puts into a queue. A position ledger keeps the inventory of every venue and symbol and is
  corrected from the venue's own report. A live connector keeps an idempotency journal on disk, so
  that an operation interrupted by a crash is neither lost nor repeated, and a map from client
  order ids to venue order ids.

  \<^bold>\<open>The theories\<close>, in the order of their imports:
  \<^item> \<open>Binary64\<close>: the IEEE binary64 numbers of C++ \<open>double\<close> (round to nearest even, infinities, one NaN,
    two zeros), with the monotonicity, exactness and error facts the components use.
  \<^item> \<open>Trading_Prelude\<close>: machine integers, C strings in buffers, arrays of slots and tables of keyed
    slots. \<open>Trading_Types\<close>: \<^verbatim>\<open>common/types.hpp\<close>.
  \<^item> \<open>Kill_Switch\<close>, \<open>Circuit_Breaker\<close>, \<open>Global_Risk\<close>: \<^verbatim>\<open>risk/kill_switch.hpp\<close>, \<^verbatim>\<open>risk/recovery_guard.hpp\<close>,
    \<^verbatim>\<open>risk/circuit_breaker.hpp\<close>, \<^verbatim>\<open>risk/global_risk_controls.hpp\<close>. The locale \<open>halt_switch\<close> is what a check
    needs of the switch. The lemmas: the switch latches, rate limits hold per window, the caps hold
    over every history of orders.
  \<^item> \<open>Order_Book\<close>: \<^verbatim>\<open>orderbook/orderbook.hpp\<close>: a grid of price levels that is recentred when the market
    moves. The lemmas: what a snapshot and a delta do to the levels, the touch, the published depth.
  \<^item> \<open>Spsc_Queue\<close>, \<open>Order_Manager\<close>: \<^verbatim>\<open>execution/common/orders/order_manager.hpp\<close>. The queue is verified against
    the locale \<open>bounded_fifo\<close> and, as a step relation of the loads and stores of the two threads, for
    every interleaving.
  \<^item> \<open>Position_Ledger\<close>: \<^verbatim>\<open>execution/common/portfolio/position_ledger.hpp\<close> and the reconciliation types.
  \<^item> \<open>Venue_Order_Map\<close>, \<open>Idempotency_Journal\<close>, \<open>Live_Connector\<close>: \<^verbatim>\<open>execution/common/connectors/\<close>. The map is
    verified against the locale \<open>bounded_map\<close>, the journal against \<open>op_journal\<close>; the connector's
    operations rest on these contracts, with the venue's own calls as functions of a record.
  \<^item> \<open>Smart_Router\<close>, \<open>Parent_Orders\<close>, \<open>Child_Scheduler\<close>: \<^verbatim>\<open>execution/router/\<close> and \<^verbatim>\<open>execution/common/orders/\<close>:
    from a target position to child orders on the venues. Routing is verified against the greedy
    allocation \<open>greedy\<close>, the plan's quantities by an invariant over all its operations.
  \<^item> \<open>Reconciliation_Service\<close>: \<^verbatim>\<open>execution/common/reconciliation/reconciliation_service.hpp\<close>, the periodic
    comparison of a venue's own snapshot with the canonical one. The lemmas: what a clean verdict
    guarantees, which drifts quarantine a venue, that a quarantine is never left.
  \<^item> \<open>Venue_Quality\<close>, \<open>Quality_Runtime\<close>: \<^verbatim>\<open>execution/common/quality/venue_quality_model.hpp\<close> and its feed
    \<^verbatim>\<open>engine/venue_quality_runtime.hpp\<close>. The estimates stay in range; which orders are tracked.
  \<^item> \<open>Portfolio_Intent\<close>, \<open>Session_Accounting\<close>: \<^verbatim>\<open>execution/common/portfolio/\<close>, the target position chosen on each
    tick and the balances, fees and profit of a live session.
  \<^item> \<open>Shadow_Engine\<close>: \<^verbatim>\<open>shadow/shadow_engine.hpp\<close>, the simulated connector. No order is filled beyond its
    quantity over any sequence of operations; every fill is reported as it is booked.
  \<^item> \<open>Book_Manager\<close>: \<^verbatim>\<open>feeds/common/book_manager.hpp\<close> and \<^verbatim>\<open>ipc/lob_publisher.hpp\<close>, from the feed callbacks to the book and
    the published ring of books.
  \<^item> \<open>Ipc_Signals\<close>: \<^verbatim>\<open>ipc/alpha_signal.hpp\<close>, \<^verbatim>\<open>ipc/regime_signal.hpp\<close>: the readers of a sequence-locked record. The
    writer is a sequence of memory states, one for each load of the reader; no mix of two
    publications is ever returned.
  \<^item> \<open>Std_Strings\<close>, \<open>Json\<close>: the number parsing and printing of the C++ library, and \<^verbatim>\<open>common/json.hpp\<close> with the
    round trip of parser and printer.
  \<^item> \<open>Feed_Common\<close>, \<open>Binance_Feed\<close>, \<open>Okx_Feed\<close>, \<open>Coinbase_Feed\<close>, \<open>Kraken_Feed\<close>: \<^verbatim>\<open>feeds/\<close>. A handler maps a message and
    its state to a result, a new state and the callbacks it made, kept as a list of events; an exception is the
    left side of a sum. The lemmas say what the subscriber ends up with over a run of messages:
    each update once and in order, no gap, the handler's own book.
  \<^item> \<open>Symbol_Mapper\<close>: \<^verbatim>\<open>common/symbol_mapper.hpp\<close>, the names of an instrument at the venues.
  \<^item> \<open>Market_Maker\<close>: \<^verbatim>\<open>execution/market_maker.hpp\<close>, the quotes around the mid price, their fills and stops, on the
    modelled order manager. Quotes keep the position in its limit; the ids held are those of live orders.
  \<^item> \<open>Config_Loader\<close>: \<^verbatim>\<open>engine/algo_config_loader.hpp\<close> and \<^verbatim>\<open>risk/risk_config_loader.hpp\<close>, from the text of a file to typed
    settings. A rendered file reads back; what is loaded is in the range of its C++ type.
  \<^item> \<open>Engine_Support\<close>, \<open>Trading_Engine\<close>: \<^verbatim>\<open>engine/trading_engine_main.cpp\<close>, the composition of all the parts: the
    command line, start-up, one pass of the loop (\<open>engine_tick\<close>), a run of passes, the exit of a shadow session. The
    connectors are a record of operations on a world. Over every run the caps hold and nothing is sent
    once the kill switch is active.
  \<^item> \<open>Request_Signing\<close>: the authentication in \<^verbatim>\<open>execution/common/connectors/live_connector_base.hpp\<close>; tokens and digests
    read back. \<open>Rest_Client\<close>: \<^verbatim>\<open>common/rest_client.hpp\<close>, the options left on a libcurl handle from one
    request to the next, and what therefore goes out.
  \<^item> \<open>Venue_Rest\<close>: what the venue connectors under \<^verbatim>\<open>execution/\<close> share: responses that may throw, requests, the
    filling of the tables of a snapshot, number formats, and the locale \<open>body_venue\<close> for connectors whose
    submissions always send the same body.
  \<^item> \<open>Okx_Connector\<close>, \<open>Coinbase_Connector\<close>, \<open>Kraken_Connector\<close>, \<open>Binance_Connector\<close>, \<open>Binance_Futures\<close>: the operations at
    the venue that \<open>Live_Connector\<close> calls, each a function of the connector and the world, and the snapshots for the
    reconciliation. What is sent reads back; what a snapshot holds is what the responses report; a futures
    order sent obeys its filters. \<open>order_id_value\<close> searches a JSON value with fuel; \<open>order_id_value_bound\<close>
    shows that the size of the value is enough. \<open>long double\<close> is the 80-bit format of x87.
  \<^item> \<open>Venue_Effects\<close>: what the connectors mean for the engine and the ledger above them.
  This theory composes the order manager with a live connector.

  \<^bold>\<open>Conventions.\<close> A class is a record whose fields carry a prefix; a member function is a function on
  it that returns the updated record. A clock reading is an argument. Fixed arrays are lists of
  fixed length. A member the code does not initialise is an argument of the constructor. An access
  outside an array is an error value. \<open>int64_t\<close> time stamps are integers; counters that wrap are words
  or written with the wrap-around. Atomic members are plain ones, except in the queue: each operation is run to
  completion by one thread. Logging is left out. Loops are structural recursions or functions with
  a measure; \<open>drain_fills\<close> takes fuel, and one unit more than the queue holds is shown to be enough; the
  JSON parser takes the length of its text as fuel and is shown never to run out. The code includes a
  JSON package that is not part of the repository: the handlers take it as a record of functions,
  \<open>json_lib\<close>, and the witnesses use a table of parsed texts.

  \<^bold>\<open>Not modelled.\<close> The event loops and threads of the handlers, sockets, the transfers of libcurl, the digests of
  OpenSSL, logging, the mapping of shared files and the Python bindings are input and output: they are
  arguments where a result depends on them and absent where it does not. The main program is modelled from
  its settings to its last pass except for threads, signals and log output. For the venue
  connectors the JSON package, the transfer and the digests are arguments, and an exception ends the engine.
\<close>

section \<open>The order manager on a live connector\<close>

text \<open>
  The engine hands every order to an order manager, whose connector is the live connector of a
  venue. No fill report arrives during the call.
\<close>

definition live_submit :: "'v Venue \<Rightarrow> (LiveConnector \<times> 'v) connector_submit" where
  "live_submit vn order s = (case submit_order True True vn order s of (res, s') \<Rightarrow> (res, [], s'))"

text \<open>
  A process restart: a new order manager, whose ids start at 1 again, on a connector built on the
  journal file that the previous process left in \<^verbatim>\<open>/tmp\<close>.
\<close>

definition restart_node :: "double \<Rightarrow> string \<Rightarrow> LiveConnector \<Rightarrow> OrderManager \<times> LiveConnector" where
  "restart_node position garbage c = (om_init position garbage, restart c)"

lemma om_init_free: "find_free_slot (om_init position garbage) = Some 0"
  by (simp add: find_free_slot_def om_init_def MAX_ORDERS_def mk_ManagedOrder_def numeral_eq_Suc)

lemma restart_free: "vm_find_free_slot (lc_venue_order_map (restart c)) \<noteq> None"
  by (simp add: restart_def mk_LiveConnector_def vm_find_free_slot_def vm_init_def MAX_ENTRIES_def
      mk_VenueOrderEntry_def find_slot_None del: not_None_eq)

text \<open>
  C3. A restart swallows orders: if the order with id 1 was ever acknowledged by the venue and the
  journal file is still there, then the first order after a restart is given id 1 again, is not
  sent to the venue, and is nevertheless reported as placed: it has an identity, a slot as a
  PENDING order and its quantity in the ledger's pending quantities.
\<close>

theorem restart_swallows_first_order:
  assumes "journal_ok (lc_journal c)" and "jstate (lc_journal c) (SUBMIT, 1) = ACKED"
    and "restart_node position garbage c = (om, c1)"
    and "submit (live_submit vn) now o1 (om, (c1, v)) = (cid, om', (c2, v2))"
  shows "cid = 1 \<and> v2 = v \<and> Order_Manager.find_order 1 om' = Some 0 \<and> mo_state (om_slots om' ! 0) = PENDING \<and>
    om_ledger om' = on_order_submitted (o1\<lparr>o_client_order_id := 1, o_submit_ts_ns := now\<rparr>) (om_ledger om)"
proof -
  let ?o = "o1\<lparr>o_client_order_id := 1, o_submit_ts_ns := now\<rparr>"
  have om: "om = om_init position garbage" and c1: "c1 = restart c"
    using assms(3) by (simp_all add: restart_node_def)
  obtain res c3 v3 where s: "submit_order True True vn ?o (restart c, v) = (res, c3, v3)"
    by (cases "submit_order True True vn ?o (restart c, v)") auto
  have st: "jstate (lc_journal c) (SUBMIT, o_client_order_id ?o) = ACKED" using assms(2) by simp
  have f: "fold (conn_step vn) [CRestart] (c, v) = (restart c, v)" by simp
  have r: "v3 = v" "res = C_OK"
    using acked_submission_effect[OF assms(1) st f s] restart_free by auto
  have n: "om_next_id (om_init position garbage) = 1" by (simp add: om_init_def)
  have sl: "om_slots (om_init position garbage) = replicate 64 mk_ManagedOrder" by (simp add: om_init_def MAX_ORDERS_def)
  have e: "(cid, om', (c2, v2)) = submit (live_submit vn) now o1 (om_init position garbage, (restart c, v))"
    using assms(4) by (simp add: om c1)
  have l: "replicate 64 mk_ManagedOrder = mk_ManagedOrder # replicate 63 mk_ManagedOrder"
    by (simp add: numeral_eq_Suc)
  show ?thesis using e r
    by (simp add: submit_def om_init_free Let_def n live_submit_def s om set_slot_def sl Order_Manager.find_order_def l)
qed

theorem restart_swallows_first_order_witness:
  "fst (submit (live_submit echo_venue) 9 order_1 (om_init 0 [], (restart okx_connector, []))) = 1 \<and>
   snd (snd (snd (submit (live_submit echo_venue) 9 order_1 (om_init 0 [], (restart okx_connector, []))))) = []"
proof -
  obtain cid om' c2 v2 where
    s: "submit (live_submit echo_venue) 9 order_1 (om_init 0 [], (restart okx_connector, [])) = (cid, om', (c2, v2))"
    by (cases "submit (live_submit echo_venue) 9 order_1 (om_init 0 [], (restart okx_connector, []))") auto
  have j: "journal_ok (lc_journal okx_connector)" by (simp add: okx_journal journal_sample_ok)
  have n: "restart_node 0 [] okx_connector = (om_init 0 [], restart okx_connector)" by (simp add: restart_node_def)
  from restart_swallows_first_order[OF j okx_states(1) n s] show ?thesis by (simp add: s)
qed

end
